(* ===== verification/Arena_Prelude.thy ===== *)
theory Arena_Prelude
  imports Main "HOL-Library.AList" "HOL-Library.List_Lexorder" "HOL-Library.Char_ord"
    "HOL-Library.Product_Lexorder" "HOL-Library.Multiset"
begin

text \<open>
  Shared ground of the development: Python's exceptions as values, Python's dictionaries as
  insertion-ordered association lists, decimal rendering of integers, Unicode text and aware
  timestamps, and the locales that name the contracts several components share.

  Conventions used by every theory:
  \<^item> a call that may raise returns \<open>py_error + 'a\<close>, \<open>Inl\<close> carrying the exception
    with the message of the source;
  \<^item> an identifier (\<open>str\<close> used as a key) is a \<^typ>\<open>string\<close>; text written by people
    (names, narratives, public messages) is a list of Unicode code points, so that
    \<open>length\<close> is Python's \<open>len\<close>;
  \<^item> a \<open>datetime\<close> is its UTC instant in microseconds, tagged as naive or aware;
  \<^item> a method that mutates its object takes the state and returns the new one.
\<close>

named_theorems result_simps \<open>elimination of the error monad\<close>
named_theorems dict_simps \<open>lookup and update of ordered dictionaries\<close>

section \<open>Exceptions as values\<close>

datatype py_error =
    ValueError string
  | ValidationError string
  | TypeError string
  | KeyError string
  | ZeroDivisionError
  | AssertionError
  | IndexError
  | DecimalOverflow
  | UnicodeEncodeError
  | MoneyError string
  | PortfolioError string
  | MarketError string
  | NegotiationError string
  | EventError string
  | EventDeckError string
  | GameError string
  | SettlementError string
  | AgentMarketError string
  | WalletUnavailable string
  | MandateRejected string
  | ArenaTaskNotFoundError string
  | ArenaIdempotencyConflictError string
  | ArenaResultConflictError string
  | ArenaIngressSecurityError string
  | X402ProtocolError string
  | ConnectorError int string
  | ConnectionReplacedError string
  | RateLimitExceeded int

type_synonym 'a result = "py_error + 'a"

definition bindR :: "'a result \<Rightarrow> ('a \<Rightarrow> 'b result) \<Rightarrow> 'b result" where
  "bindR r f = (case r of Inl e \<Rightarrow> Inl e | Inr x \<Rightarrow> f x)"

fun mapR :: "('a \<Rightarrow> 'b result) \<Rightarrow> 'a list \<Rightarrow> 'b list result" where
  "mapR f [] = Inr []"
| "mapR f (x # xs) = bindR (f x) (\<lambda>y. bindR (mapR f xs) (\<lambda>ys. Inr (y # ys)))"

lemma bindR_simps [simp]: "bindR (Inl e) f = Inl e" "bindR (Inr x) f = f x"
  by (simp_all add: bindR_def)

lemma bindR_Inr_iff [result_simps]:
  "bindR r f = Inr y \<longleftrightarrow> (\<exists>x. r = Inr x \<and> f x = Inr y)"
  by (cases r) auto

lemma bindR_Inl_iff [result_simps]:
  "bindR r f = Inl e \<longleftrightarrow> r = Inl e \<or> (\<exists>x. r = Inr x \<and> f x = Inl e)"
  by (cases r) auto

lemma if_raise_Inr [result_simps]:
  "(if c then Inl e else r) = Inr y \<longleftrightarrow> \<not> c \<and> r = Inr y"
  by auto

lemma mapR_Inr_iff: "mapR f xs = Inr ys \<longleftrightarrow> list_all2 (\<lambda>x y. f x = Inr y) xs ys"
proof (induction xs arbitrary: ys)
  case Nil
  then show ?case by (cases ys) auto
next
  case (Cons x xs)
  then show ?case by (cases ys) (auto simp: bindR_Inr_iff)
qed

fun foldR :: "('a \<Rightarrow> 's \<Rightarrow> 's result) \<Rightarrow> 'a list \<Rightarrow> 's \<Rightarrow> 's result" where
  "foldR f [] s = Inr s"
| "foldR f (x # xs) s = bindR (f x s) (foldR f xs)"

text \<open>A result whose value satisfies one predicate and whose exception another.\<close>

definition sat :: "('a \<Rightarrow> bool) \<Rightarrow> (py_error \<Rightarrow> bool) \<Rightarrow> 'a result \<Rightarrow> bool" where
  "sat P Q r = (case r of Inl e \<Rightarrow> Q e | Inr x \<Rightarrow> P x)"

lemma sat_simps [simp]: "sat P Q (Inl e) = Q e" "sat P Q (Inr x) = P x"
  by (simp_all add: sat_def)

lemma sat_bindR: "sat P Q r \<Longrightarrow> (\<And>x. P x \<Longrightarrow> sat R Q (f x)) \<Longrightarrow> sat R Q (bindR r f)"
  by (cases r) auto

lemma sat_foldR:
  "P s \<Longrightarrow> (\<And>x t. x \<in> set xs \<Longrightarrow> P t \<Longrightarrow> sat P Q (f x t)) \<Longrightarrow> sat P Q (foldR f xs s)"
proof (induction xs arbitrary: s)
  case (Cons x xs)
  show ?case unfolding foldR.simps
  proof (rule sat_bindR [where P = P])
    show "sat P Q (f x s)" using Cons.prems by simp
  next
    fix t assume "P t"
    then show "sat P Q (foldR f xs t)" using Cons.prems by (intro Cons.IH) auto
  qed
qed simp

lemma foldR_append: "foldR f (xs @ ys) s = bindR (foldR f xs s) (foldR f ys)"
proof (induction xs arbitrary: s)
  case (Cons x xs)
  then show ?case by (cases "f x s") auto
qed simp

subsection \<open>Calls that keep state\<close>

text \<open>A stateful call runs a check or a constructor that does not touch its state: an exception leaves the state as it is.\<close>

definition attempt :: "'b result \<Rightarrow> 's \<Rightarrow> ('b \<Rightarrow> 'a result \<times> 's) \<Rightarrow> 'a result \<times> 's" where
  "attempt r s f = (case r of Inl e \<Rightarrow> (Inl e, s) | Inr x \<Rightarrow> f x)"

lemma attempt_cases:
  assumes "attempt r s f = (x, t)"
  obtains (err) e where "r = Inl e" "x = Inl e" "t = s" | (ok) y where "r = Inr y" "f y = (x, t)"
  using assms by (cases r) (auto simp: attempt_def)

text \<open>A call that changes its state has passed every check on its way.\<close>

lemma attempt_changes: "t \<noteq> s \<Longrightarrow> attempt r s f = (x, t) \<longleftrightarrow> (\<exists>y. r = Inr y \<and> f y = (x, t))"
  by (cases r) (auto simp: attempt_def)

lemma guard_changes: "t \<noteq> s \<Longrightarrow> (if c then (e, s) else q) = (x, t) \<longleftrightarrow> \<not> c \<and> q = (x, t)"
  by auto

lemma list_all2_member: "list_all2 P xs ys \<Longrightarrow> (\<forall>y \<in> set ys. \<exists>x \<in> set xs. P x y) \<and> (\<forall>x \<in> set xs. \<exists>y \<in> set ys. P x y)"
  by (induction rule: list_all2_induct) auto

section \<open>Dictionaries\<close>

text \<open>
  A Python \<open>dict\<close> keeps insertion order and overwrites in place, which is what
  \<^const>\<open>AList.update\<close> does; iteration over \<open>values()\<close> reads the list in order.
\<close>

type_synonym ('k, 'v) dict = "('k \<times> 'v) list"

abbreviation dget :: "('k, 'v) dict \<Rightarrow> 'k \<Rightarrow> 'v option" where
  "dget \<equiv> map_of"

abbreviation dput :: "('k, 'v) dict \<Rightarrow> 'k \<Rightarrow> 'v \<Rightarrow> ('k, 'v) dict" where
  "dput d k v \<equiv> AList.update k v d"

abbreviation ddel :: "('k, 'v) dict \<Rightarrow> 'k \<Rightarrow> ('k, 'v) dict" where
  "ddel d k \<equiv> AList.delete k d"

abbreviation dvalues :: "('k, 'v) dict \<Rightarrow> 'v list" where
  "dvalues d \<equiv> map snd d"

abbreviation dkeys :: "('k, 'v) dict \<Rightarrow> 'k list" where
  "dkeys d \<equiv> map fst d"

definition dsum :: "('v \<Rightarrow> int) \<Rightarrow> ('k, 'v) dict \<Rightarrow> int" where
  "dsum f d = sum_list (map f (dvalues d))"

text \<open>The laws of a dictionary that the stateful components rely on.\<close>

locale py_dict =
  fixes get :: "'d \<Rightarrow> 'k \<Rightarrow> 'v option"
    and put :: "'d \<Rightarrow> 'k \<Rightarrow> 'v \<Rightarrow> 'd"
    and del :: "'d \<Rightarrow> 'k \<Rightarrow> 'd"
    and vals :: "'d \<Rightarrow> 'v list"
    and wf :: "'d \<Rightarrow> bool"
  assumes get_put: "get (put d k v) k' = (if k' = k then Some v else get d k')"
    and get_del: "get (del d k) k' = (if k' = k then None else get d k')"
    and wf_put: "wf d \<Longrightarrow> wf (put d k v)"
    and wf_del: "wf d \<Longrightarrow> wf (del d k)"
    and vals_get: "wf d \<Longrightarrow> v \<in> set (vals d) \<longleftrightarrow> (\<exists>k. get d k = Some v)"
    and vals_put_new: "wf d \<Longrightarrow> get d k = None \<Longrightarrow> mset (vals (put d k v)) = mset (vals d) + {#v#}"
    and vals_put_old: "wf d \<Longrightarrow> get d k = Some w \<Longrightarrow> mset (vals (put d k v)) + {#w#} = mset (vals d) + {#v#}"
begin

lemma all_vals_put:
  assumes "wf d" and "\<forall>v \<in> set (vals d). P v" and "P x"
  shows "\<forall>v \<in> set (vals (put d k x)). P v"
proof
  fix v assume "v \<in> set (vals (put d k x))"
  then obtain k' where "get (put d k x) k' = Some v"
    using wf_put [OF assms(1)] vals_get by blast
  then show "P v"
    using assms vals_get [OF assms(1)] by (auto simp: get_put split: if_splits)
qed

lemma sum_put_new:
  fixes f :: "'v \<Rightarrow> int"
  assumes "wf d" and "get d k = None"
  shows "sum_list (map f (vals (put d k v))) = sum_list (map f (vals d)) + f v"
proof -
  have "sum_mset (image_mset f (mset (vals (put d k v)))) =
        sum_mset (image_mset f (mset (vals d) + {#v#}))"
    using vals_put_new [OF assms] by simp
  then show ?thesis by (simp add: sum_mset_sum_list flip: mset_map)
qed

lemma sum_put_old:
  fixes f :: "'v \<Rightarrow> int"
  assumes "wf d" and "get d k = Some w"
  shows "sum_list (map f (vals (put d k v))) = sum_list (map f (vals d)) - f w + f v"
proof -
  have "sum_mset (image_mset f (mset (vals (put d k v)) + {#w#})) =
        sum_mset (image_mset f (mset (vals d) + {#v#}))"
    using vals_put_old [OF assms] by simp
  then show ?thesis by (simp add: sum_mset_sum_list flip: mset_map)
qed

end

lemma mset_update_new:
  "map_of d k = None \<Longrightarrow> mset (map snd (AList.update k v d)) = mset (map snd d) + {#v#}"
  by (induction d) (auto split: if_splits)

lemma mset_update_old:
  "distinct (map fst d) \<Longrightarrow> map_of d k = Some w \<Longrightarrow>
   mset (map snd (AList.update k v d)) + {#w#} = mset (map snd d) + {#v#}"
  by (induction d) (auto split: if_splits)

lemma update_new: "k \<notin> set (map fst d) \<Longrightarrow> AList.update k v d = d @ [(k, v)]"
  by (induction d) auto

lemma sum_list_select:
  fixes f :: "'a \<Rightarrow> int"
  shows "distinct xs \<Longrightarrow> sum_list (map (\<lambda>x. (if x = y then 1 else 0) * f x) xs) = (if y \<in> set xs then f y else 0)"
  by (induction xs) auto

lemma distinct_delete_keys: "distinct (map fst d) \<Longrightarrow> distinct (map fst (AList.delete k d))"
  by (simp add: distinct_delete)

lemma set_dkeys_put: "set (dkeys (dput d k v)) = insert k (set (dkeys d))"
  by (simp add: dom_update)

interpretation dict: py_dict map_of "\<lambda>d k v. AList.update k v d" "\<lambda>d k. AList.delete k d"
    "map snd" "\<lambda>d. distinct (map fst d)"
proof (unfold_locales, goal_cases)
  case (5 d v)
  then show ?case by (force simp: map_of_eq_Some_iff)
next
  case (6 d k v)
  then show ?case by (intro mset_update_new)
next
  case (7 d k w v)
  then show ?case by (intro mset_update_old)
qed (auto simp: update_conv' delete_conv' distinct_update distinct_delete_keys split: if_splits)

lemmas dict_wf [dict_simps] = dict.wf_put dict.wf_del
lemmas dict_get [dict_simps] = dict.get_put dict.get_del

section \<open>Integers in decimal notation\<close>

definition digit_char :: "nat \<Rightarrow> char" where
  "digit_char d = char_of (48 + d)"

definition is_digit :: "char \<Rightarrow> bool" where
  "is_digit c \<longleftrightarrow> 48 \<le> (of_char c :: nat) \<and> (of_char c :: nat) \<le> 57"

definition digit_val :: "char \<Rightarrow> nat" where
  "digit_val c = of_char c - 48"

text \<open>\<open>str(n)\<close> for a non-negative integer, and for any integer.\<close>

fun show_nat :: "nat \<Rightarrow> string" where
  "show_nat n = (if n < 10 then [digit_char n] else show_nat (n div 10) @ [digit_char (n mod 10)])"

declare show_nat.simps [simp del]

definition show_int :: "int \<Rightarrow> string" where
  "show_int i = (if i < 0 then ''-'' @ show_nat (nat (- i)) else show_nat (nat i))"

definition nat_of_digits :: "string \<Rightarrow> nat" where
  "nat_of_digits s = fold (\<lambda>c a. 10 * a + digit_val c) s 0"

definition ndigits :: "nat \<Rightarrow> nat" where
  "ndigits n = length (show_nat n)"

lemma digit_val_char [simp]: "d < 10 \<Longrightarrow> digit_val (digit_char d) = d"
  by (simp add: digit_val_def digit_char_def)

lemma is_digit_char [simp]: "d < 10 \<Longrightarrow> is_digit (digit_char d)"
  by (simp add: is_digit_def digit_char_def)

lemma digit_char_table [simp]:
  "digit_char 0 = CHR ''0''" "digit_char (Suc 0) = CHR ''1''" "digit_char 2 = CHR ''2''"
  "digit_char 3 = CHR ''3''" "digit_char 4 = CHR ''4''" "digit_char 5 = CHR ''5''"
  "digit_char 6 = CHR ''6''" "digit_char 7 = CHR ''7''" "digit_char 8 = CHR ''8''"
  "digit_char 9 = CHR ''9''"
  by code_simp+

lemma nat_of_digits_simps [simp]:
  "nat_of_digits [] = 0"
  "nat_of_digits (s @ [c]) = 10 * nat_of_digits s + digit_val c"
  by (simp_all add: nat_of_digits_def)

lemma nat_of_digits_append: "nat_of_digits (s @ t) = nat_of_digits s * 10 ^ length t + nat_of_digits t"
  by (induction t rule: rev_induct) (simp_all add: algebra_simps flip: append_assoc)

lemma show_nat_digits: "list_all is_digit (show_nat n)"
proof (induction n rule: show_nat.induct)
  case (1 n)
  then show ?case by (subst show_nat.simps) simp
qed

lemma show_nat_ne [simp]: "show_nat n \<noteq> []"
  by (subst show_nat.simps) simp

lemma nat_of_show_nat [simp]: "nat_of_digits (show_nat n) = n"
proof (induction n rule: show_nat.induct)
  case (1 n)
  show ?case
  proof (cases "n < 10")
    case True
    then show ?thesis
      using nat_of_digits_simps(2) [of "[]"] by (simp add: show_nat.simps [of n])
  next
    case False
    with 1 show ?thesis by (simp add: show_nat.simps [of n])
  qed
qed

lemma show_nat_inj [simp]: "show_nat m = show_nat n \<longleftrightarrow> m = n"
  by (metis nat_of_show_nat)

lemma nat_of_digits_less: "list_all is_digit s \<Longrightarrow> nat_of_digits s < 10 ^ length s"
proof (induction s rule: rev_induct)
  case (snoc c s)
  then have "digit_val c < 10" "nat_of_digits s + 1 \<le> 10 ^ length s"
    by (auto simp: is_digit_def digit_val_def)
  then show ?case using snoc by simp
qed simp

lemma ndigits_bounds: "n < 10 ^ ndigits n" "0 < n \<Longrightarrow> 10 ^ (ndigits n - 1) \<le> n"
proof -
  show "n < 10 ^ ndigits n"
    using nat_of_digits_less [OF show_nat_digits, of n] by (simp add: ndigits_def)
  show "0 < n \<Longrightarrow> 10 ^ (ndigits n - 1) \<le> n"
  proof (induction n rule: show_nat.induct)
    case (1 n)
    show ?case
    proof (cases "n < 10")
      case True
      then show ?thesis using 1 by (simp add: ndigits_def show_nat.simps [of n])
    next
      case False
      have eq: "ndigits n = Suc (ndigits (n div 10))"
        using False by (simp add: ndigits_def show_nat.simps [of n])
      have "0 < ndigits (n div 10)" by (simp add: ndigits_def)
      moreover have "10 ^ (ndigits (n div 10) - 1) \<le> n div 10" using 1 False by simp
      ultimately have "10 ^ ndigits (n div 10) \<le> n div 10 * 10"
        by (cases "ndigits (n div 10)") auto
      also have "\<dots> \<le> n" by simp
      finally show ?thesis by (simp add: eq)
    qed
  qed
qed

lemma ndigits_pos [simp]: "0 < ndigits n"
  by (simp add: ndigits_def)

lemma ndigits_le: "n < 10 ^ k \<Longrightarrow> 0 < k \<Longrightarrow> ndigits n \<le> k"
proof (cases "n = 0")
  case False
  assume "n < 10 ^ k"
  with ndigits_bounds(2) [of n] False have "(10::nat) ^ (ndigits n - 1) < 10 ^ k" by linarith
  then have "ndigits n - 1 < k" by simp
  then show ?thesis by simp
qed (simp add: ndigits_def show_nat.simps)

section \<open>Text and time\<close>

type_synonym utext = "nat list"

text \<open>The code points that \<open>str.strip\<close> removes.\<close>

definition py_isspace :: "nat \<Rightarrow> bool" where
  "py_isspace c \<longleftrightarrow> (9 \<le> c \<and> c \<le> 13) \<or> (28 \<le> c \<and> c \<le> 32) \<or> c = 133 \<or> c = 160 \<or> c = 5760
     \<or> (8192 \<le> c \<and> c \<le> 8202) \<or> c = 8232 \<or> c = 8233 \<or> c = 8239 \<or> c = 8287 \<or> c = 12288"

text \<open>\<open>not value.strip()\<close>\<close>

definition blank :: "utext \<Rightarrow> bool" where
  "blank t \<longleftrightarrow> list_all py_isspace t"

definition ascii :: "string \<Rightarrow> utext" where
  "ascii s = map of_char s"

datatype datetime = Naive int | Aware int

fun is_aware :: "datetime \<Rightarrow> bool" where
  "is_aware (Aware _) = True"
| "is_aware (Naive _) = False"

fun instant :: "datetime \<Rightarrow> int" where
  "instant (Aware t) = t"
| "instant (Naive t) = t"

section \<open>Contracts shared by the components\<close>

text \<open>
  A component that mutates state by one operation at a time keeps an invariant when every
  admissible operation does. The client lemma is about whole runs.
\<close>

locale invariant_machine =
  fixes step :: "'op \<Rightarrow> 's \<Rightarrow> 's"
    and ok :: "'op \<Rightarrow> 's \<Rightarrow> bool"
    and inv :: "'s \<Rightarrow> bool"
  assumes step_inv: "inv s \<Longrightarrow> ok op s \<Longrightarrow> inv (step op s)"
begin

fun admissible :: "'op list \<Rightarrow> 's \<Rightarrow> bool" where
  "admissible [] s = True"
| "admissible (op # ops) s = (ok op s \<and> admissible ops (step op s))"

lemma admissible_append: "admissible (ops @ ops') s \<longleftrightarrow> admissible ops s \<and> admissible ops' (fold step ops s)"
  by (induction ops arbitrary: s) auto

lemma run_inv: "inv s \<Longrightarrow> admissible ops s \<Longrightarrow> inv (fold step ops s)"
  by (induction ops arbitrary: s) (auto intro: step_inv)

lemma run_always:
  assumes "inv s" and "\<And>op t. ok op t"
  shows "inv (fold step ops s)"
proof -
  have "admissible ops s" using assms(2) by (induction ops arbitrary: s) auto
  with assms(1) show ?thesis by (rule run_inv)
qed

end

text \<open>
  A validator that returns a normal form: normal forms are its fixed points, so
  re-validating a stored value changes nothing.
\<close>

locale normalizer =
  fixes norm :: "'a \<Rightarrow> 'a result"
  assumes norm_idem: "norm x = Inr y \<Longrightarrow> norm y = Inr y"
begin

lemma norm_fixpoint: "(\<exists>x. norm x = Inr y) \<longleftrightarrow> norm y = Inr y"
proof
  assume "\<exists>x. norm x = Inr y"
  then obtain x where "norm x = Inr y" ..
  then show "norm y = Inr y" by (rule norm_idem)
next
  assume "norm y = Inr y"
  then show "\<exists>x. norm x = Inr y" ..
qed

end

text \<open>A rendering that can be read back on a set of values is injective there.\<close>

locale codec =
  fixes enc :: "'a \<Rightarrow> 'w result"
    and dec :: "'w \<Rightarrow> 'a result"
    and good :: "'a \<Rightarrow> bool"
  assumes roundtrip: "good x \<Longrightarrow> bindR (enc x) dec = Inr x"
begin

lemma enc_ok: "good x \<Longrightarrow> \<exists>w. enc x = Inr w \<and> dec w = Inr x"
  using roundtrip [of x] by (auto simp: bindR_Inr_iff)

lemma enc_inj: "good x \<Longrightarrow> good y \<Longrightarrow> enc x = enc y \<Longrightarrow> x = y"
  by (metis roundtrip sum.inject(2))

end

end
