(* ===== verification/Arena_Money.thy ===== *)
theory Arena_Money
  imports Arena_Prelude
begin

text \<open>
  \<open>arena_game/money.py\<close>: fixed-point gold. The module goes through Python's \<open>decimal\<close>, so
  the part of that library it uses is modelled here: decimals as sign, coefficient and
  exponent, the string constructor, and multiplication under the default context (28
  significant digits, round half even, exponents within \<open>\<plusminus>999999\<close>, overflow trapped).
\<close>

section \<open>Decimals\<close>

datatype decimal =
    Dec (dec_neg: bool) (dec_coeff: nat) (dec_exp: int)
  | DInf bool
  | DNaN

definition dec_prec :: nat where "dec_prec = 28"
definition dec_Emax :: int where "dec_Emax = 999999"
definition dec_Etiny :: int where "dec_Etiny = - 999999 - 28 + 1"
definition dec_Etop :: int where "dec_Etop = 999999 - 28 + 1"

text \<open>Integer division rounded half to even.\<close>

definition div_half_even :: "nat \<Rightarrow> nat \<Rightarrow> nat" where
  "div_half_even c m =
     (let q = c div m; r = c mod m
      in if 2 * r < m then q else if m < 2 * r then Suc q else if even q then q else Suc q)"

text \<open>The rounding of an exact result to the context (\<open>Decimal._fix\<close>).\<close>

definition dec_fix :: "bool \<Rightarrow> nat \<Rightarrow> int \<Rightarrow> decimal result" where
  "dec_fix sg c e =
     (if c = 0 then Inr (Dec sg 0 (min (max e dec_Etiny) dec_Emax))
      else
        let exp_min0 = int (ndigits c) + e - int dec_prec
        in if exp_min0 > dec_Etop then Inl DecimalOverflow
           else
             let exp_min = max exp_min0 dec_Etiny
             in if e < exp_min then
                  let c' = div_half_even c (10 ^ nat (exp_min - e));
                      c'' = (if ndigits c' > dec_prec then c' div 10 else c');
                      e'' = (if ndigits c' > dec_prec then exp_min + 1 else exp_min)
                  in if e'' > dec_Etop then Inl DecimalOverflow else Inr (Dec sg c'' e'')
                else Inr (Dec sg c e))"

text \<open>\<open>d * n\<close> for a non-negative integer \<open>n\<close>.\<close>

fun dec_mult_nat :: "decimal \<Rightarrow> nat \<Rightarrow> decimal result" where
  "dec_mult_nat (Dec s c e) n = dec_fix s (c * n) e"
| "dec_mult_nat (DInf s) n = Inr (DInf s)"
| "dec_mult_nat DNaN n = Inr DNaN"

text \<open>\<open>d == d.to_integral_value()\<close> for a finite \<open>d\<close>, and \<open>int(d)\<close>.\<close>

definition dec_is_integral :: "nat \<Rightarrow> int \<Rightarrow> bool" where
  "dec_is_integral c e \<longleftrightarrow> (e \<ge> 0 \<or> c = div_half_even c (10 ^ nat (- e)) * 10 ^ nat (- e))"

definition dec_int :: "bool \<Rightarrow> nat \<Rightarrow> int \<Rightarrow> int" where
  "dec_int s c e =
     (let m = (if e \<ge> 0 then c * 10 ^ nat e else c div 10 ^ nat (- e))
      in if s then - int m else int m)"

subsection \<open>The string constructor\<close>

definition lower_char :: "char \<Rightarrow> char" where
  "lower_char c = (if 65 \<le> (of_char c :: nat) \<and> (of_char c :: nat) \<le> 90 then char_of (of_char c + 32 :: nat) else c)"

definition lower :: "string \<Rightarrow> string" where
  "lower s = map lower_char s"

definition strip :: "string \<Rightarrow> string" where
  "strip s = rev (dropWhile (\<lambda>c. py_isspace (of_char c)) (rev (dropWhile (\<lambda>c. py_isspace (of_char c)) s)))"

definition split_sign :: "string \<Rightarrow> bool \<times> string" where
  "split_sign s = (case s of [] \<Rightarrow> (False, [])
     | c # cs \<Rightarrow> if c = CHR ''-'' then (True, cs) else if c = CHR ''+'' then (False, cs) else (False, s))"

definition parse_exponent :: "string \<Rightarrow> int option" where
  "parse_exponent s =
     (case s of [] \<Rightarrow> Some 0
      | c # cs \<Rightarrow>
          if lower_char c \<noteq> CHR ''e'' then None
          else case split_sign cs of (neg, ds) \<Rightarrow>
            if ds = [] \<or> \<not> list_all is_digit ds then None
            else Some (if neg then - int (nat_of_digits ds) else int (nat_of_digits ds)))"

text \<open>Exponents the C implementation can store; outside it the constructor signals.\<close>

definition dec_storable :: "nat \<Rightarrow> int \<Rightarrow> bool" where
  "dec_storable c e \<longleftrightarrow> - 1999999999999999997 \<le> e
     \<and> (if c = 0 then e else int (ndigits c) + e - 1) \<le> 999999999999999999"

definition parse_number :: "bool \<Rightarrow> string \<Rightarrow> decimal option" where
  "parse_number sg s =
     (let ip = takeWhile is_digit s; r1 = dropWhile is_digit s;
          dot = (r1 \<noteq> [] \<and> hd r1 = CHR ''.'');
          fp = (if dot then takeWhile is_digit (tl r1) else []);
          r2 = (if dot then dropWhile is_digit (tl r1) else r1)
      in if ip = [] \<and> fp = [] then None
         else case parse_exponent r2 of
             None \<Rightarrow> None
           | Some e \<Rightarrow>
               let c = nat_of_digits (ip @ fp); e' = e - int (length fp)
               in if dec_storable c e' then Some (Dec sg c e') else None)"

definition parse_special :: "bool \<Rightarrow> string \<Rightarrow> decimal option" where
  "parse_special sg s =
     (let l = lower s
      in if l = ''inf'' \<or> l = ''infinity'' then Some (DInf sg)
         else if take 3 l = ''nan'' \<and> list_all is_digit (drop 3 l) then Some DNaN
         else if take 4 l = ''snan'' \<and> list_all is_digit (drop 4 l) then Some DNaN
         else None)"

text \<open>\<open>Decimal(value)\<close> for a string: \<open>None\<close> is \<open>InvalidOperation\<close>.\<close>

definition decimal_of_string :: "string \<Rightarrow> decimal option" where
  "decimal_of_string v =
     (case split_sign (filter (\<lambda>c. c \<noteq> CHR ''_'') (strip v)) of (sg, s) \<Rightarrow>
        (case parse_special sg s of Some d \<Rightarrow> Some d | None \<Rightarrow> parse_number sg s))"

section \<open>Gold\<close>

definition GOLD_SCALE :: nat where "GOLD_SCALE = 1000000"
definition MAX_GOLD_ATOMIC :: int where "MAX_GOLD_ATOMIC = 10 ^ 38 - 1"

datatype gold_input = GBool bool | GFloat | GInt int | GDecimal decimal | GStr string | GOther

fun gold_parsed :: "gold_input \<Rightarrow> decimal result" where
  "gold_parsed (GBool _) = Inl (MoneyError ''gold values must not use binary floating point'')"
| "gold_parsed GFloat = Inl (MoneyError ''gold values must not use binary floating point'')"
| "gold_parsed (GInt n) = Inr (Dec (n < 0) (nat \<bar>n\<bar>) 0)"
| "gold_parsed (GDecimal d) = Inr d"
| "gold_parsed (GStr s) =
     (case decimal_of_string s of
        None \<Rightarrow> Inl (MoneyError ''invalid gold value'')
      | Some d \<Rightarrow> Inr d)"
| "gold_parsed GOther = Inl (MoneyError ''gold value must be a string, integer, or Decimal'')"

definition gold :: "gold_input \<Rightarrow> int result" where
  "gold value =
     bindR (gold_parsed value) (\<lambda>parsed.
       case parsed of
         Dec s c e \<Rightarrow>
           if s \<and> c \<noteq> 0 then Inl (MoneyError ''gold value must be finite and non-negative'')
           else bindR (dec_mult_nat (Dec s c e) GOLD_SCALE) (\<lambda>atomic.
             let ca = dec_coeff atomic; ea = dec_exp atomic; result = dec_int s ca ea
             in if \<not> dec_is_integral ca ea then
                  Inl (MoneyError ''gold value supports at most six decimal places'')
                else if result > MAX_GOLD_ATOMIC then
                  Inl (MoneyError ''gold value exceeds the Arena bound'')
                else Inr result)
       | _ \<Rightarrow> Inl (MoneyError ''gold value must be finite and non-negative''))"

text \<open>\<open>f"{fraction:06d}"\<close> and \<open>rstrip("0")\<close>.\<close>

definition pad6 :: "nat \<Rightarrow> string" where
  "pad6 n = replicate (6 - ndigits n) (CHR ''0'') @ show_nat n"

definition rstrip0 :: "string \<Rightarrow> string" where
  "rstrip0 s = rev (dropWhile (\<lambda>c. c = CHR ''0'') (rev s))"

definition format_gold :: "int \<Rightarrow> string result" where
  "format_gold value_atomic =
     (if value_atomic < 0 \<or> value_atomic > MAX_GOLD_ATOMIC then
        Inl (MoneyError ''atomic gold is outside the Arena bound'')
      else
        let whole = nat value_atomic div GOLD_SCALE; fraction = nat value_atomic mod GOLD_SCALE
        in if fraction = 0 then Inr (show_nat whole)
           else Inr (rstrip0 (show_nat whole @ ''.'' @ pad6 fraction)))"

definition apply_basis_points :: "int \<Rightarrow> int \<Rightarrow> int result" where
  "apply_basis_points value_atomic basis_points =
     (if value_atomic < 0 then Inl (MoneyError ''cannot adjust a negative value'')
      else if basis_points < - 10000 \<or> basis_points > 1000000 then
        Inl (MoneyError ''basis-point adjustment is outside the Arena bound'')
      else
        let numerator = value_atomic * (10000 + basis_points);
            r = (numerator + 5000) div 10000
        in if r < 0 \<or> r > MAX_GOLD_ATOMIC then
             Inl (MoneyError ''adjusted gold value is outside the Arena bound'')
           else Inr r)"

section \<open>Reading back what was printed\<close>

lemma digits_plain:
  assumes "list_all (\<lambda>c. is_digit c \<or> c = CHR ''.'') s"
  shows "strip s = s" and "filter (\<lambda>c. c \<noteq> CHR ''_'') s = s"
proof -
  have ns: "\<not> py_isspace (of_char c)" if "is_digit c \<or> c = CHR ''.''" for c
    using that by (auto simp: is_digit_def py_isspace_def)
  have dw: "dropWhile (\<lambda>c. py_isspace (of_char c)) t = t"
    if "list_all (\<lambda>c. is_digit c \<or> c = CHR ''.'') t" for t
    using that ns by (cases t) auto
  show "strip s = s" using dw [OF assms] dw [of "rev s"] assms by (simp add: strip_def list_all_rev)
  show "filter (\<lambda>c. c \<noteq> CHR ''_'') s = s"
    using assms by (auto simp: filter_id_conv list_all_iff is_digit_def)
qed

lemma digit_head:
  assumes "is_digit c"
  shows "split_sign (c # cs) = (False, c # cs)" and "parse_special sg (c # cs) = None"
proof -
  have ne: "lower_char c \<noteq> CHR ''i''" "lower_char c \<noteq> CHR ''n''" "lower_char c \<noteq> CHR ''s''"
    using assms by (auto simp: is_digit_def lower_char_def)
  show "split_sign (c # cs) = (False, c # cs)"
    using assms by (auto simp: split_sign_def is_digit_def)
  show "parse_special sg (c # cs) = None"
    using ne by (auto simp: parse_special_def lower_def Let_def take_Cons')
qed

lemma span_digits:
  assumes "list_all is_digit s"
  shows "takeWhile is_digit (s @ CHR ''.'' # t) = s" "dropWhile is_digit (s @ CHR ''.'' # t) = CHR ''.'' # t"
    "takeWhile is_digit s = s" "dropWhile is_digit s = []"
proof -
  have "\<not> is_digit (CHR ''.'')" by (simp add: is_digit_def)
  then show "takeWhile is_digit (s @ CHR ''.'' # t) = s"
    "dropWhile is_digit (s @ CHR ''.'' # t) = CHR ''.'' # t"
    "takeWhile is_digit s = s" "dropWhile is_digit s = []"
    using assms by (induction s) auto
qed

lemma decimal_of_fixed:
  assumes ip: "list_all is_digit ip" "ip \<noteq> []" and fp: "list_all is_digit fp"
    and st: "dec_storable (nat_of_digits (ip @ fp)) (- int (length fp))"
  shows "decimal_of_string (ip @ ''.'' @ fp) = Some (Dec False (nat_of_digits (ip @ fp)) (- int (length fp)))"
    and "fp = [] \<Longrightarrow> decimal_of_string ip = Some (Dec False (nat_of_digits ip) 0)"
proof -
  obtain c cs where c: "ip = c # cs" "is_digit c" using ip by (cases ip) auto
  have l: "list_all (\<lambda>c. is_digit c \<or> c = CHR ''.'') (ip @ ''.'' @ fp)"
    "list_all (\<lambda>c. is_digit c \<or> c = CHR ''.'') ip"
    using ip fp by (auto simp: list_all_iff)
  have p: "parse_number False (ip @ ''.'' @ fp) = Some (Dec False (nat_of_digits (ip @ fp)) (- int (length fp)))"
    using ip(2) st
    by (simp add: parse_number_def Let_def parse_exponent_def span_digits [OF ip(1)] span_digits [OF fp])
  show "decimal_of_string (ip @ ''.'' @ fp) = Some (Dec False (nat_of_digits (ip @ fp)) (- int (length fp)))"
    using digits_plain [OF l(1)] digit_head [OF c(2), where cs = "cs @ ''.'' @ fp"] p
    by (simp add: decimal_of_string_def c(1))
  assume fp0: "fp = []"
  have "parse_number False ip = Some (Dec False (nat_of_digits ip) 0)"
    using ip(2) st fp0
    by (simp add: parse_number_def Let_def parse_exponent_def span_digits [OF ip(1)])
  then show "decimal_of_string ip = Some (Dec False (nat_of_digits ip) 0)"
    using digits_plain [OF l(2)] digit_head [OF c(2), where cs = cs]
    by (simp add: decimal_of_string_def c(1))
qed

lemma ndigits_mult_pow: "0 < x \<Longrightarrow> ndigits (x * 10 ^ k) = ndigits x + k"
proof (induction k)
  case (Suc k)
  let ?y = "x * 10 ^ k"
  have "0 < ?y" using Suc.prems by simp
  then have "\<not> ?y * 10 < 10" by simp
  then have "ndigits (?y * 10) = Suc (ndigits ?y)"
    by (simp add: ndigits_def show_nat.simps [of "?y * 10"])
  moreover have "?y * 10 = x * 10 ^ Suc k" by simp
  ultimately show ?case using Suc by simp
qed simp

lemma div_half_even_exact [simp]: "0 < m \<Longrightarrow> div_half_even (q * m) m = q"
  by (simp add: div_half_even_def)

lemma dec_fix_small:
  assumes "0 < c" "c < 10 ^ 28" "dec_Etiny \<le> e" "int (ndigits c) + e - 28 \<le> dec_Etop"
  shows "dec_fix s c e = Inr (Dec s c e)"
proof -
  have "ndigits c \<le> 28" using ndigits_le [OF assms(2)] by simp
  then show ?thesis using assms by (simp add: dec_fix_def dec_prec_def Let_def max_def)
qed

lemma dec_fix_integer:
  assumes x: "0 < x" "x < 10 ^ 28" and k: "k \<le> 6"
  obtains j where "dec_fix s (x * 10 ^ k) (- int k) = Inr (Dec s (x * 10 ^ j) (- int j))"
proof -
  have nd: "ndigits x \<le> 28" using ndigits_le [OF x(2)] by simp
  let ?j = "28 - ndigits x"
  show thesis
  proof (cases "k \<le> ?j")
    case True
    then have "dec_fix s (x * 10 ^ k) (- int k) = Inr (Dec s (x * 10 ^ k) (- int k))"
      using x k nd by (simp add: dec_fix_def ndigits_mult_pow dec_prec_def dec_Etop_def dec_Etiny_def Let_def)
    then show ?thesis by (rule that)
  next
    case False
    define d where "d = k - ?j"
    have e: "k = ?j + d" and m: "nat (int (ndigits x) - 28 + int k) = d"
      using False nd by (auto simp: d_def)
    have eq: "x * 10 ^ k = (x * 10 ^ ?j) * 10 ^ d" by (subst e) (simp add: power_add)
    have dv: "div_half_even (x * 10 ^ k) (10 ^ d) = x * 10 ^ ?j"
      by (subst eq, rule div_half_even_exact) simp
    have "ndigits (x * 10 ^ ?j) = 28" using x nd by (simp add: ndigits_mult_pow)
    then have "dec_fix s (x * 10 ^ k) (- int k) = Inr (Dec s (x * 10 ^ ?j) (- int ?j))"
      using x k nd False dv m
      by (simp add: dec_fix_def ndigits_mult_pow dec_prec_def dec_Etop_def dec_Etiny_def Let_def)
    then show ?thesis by (rule that)
  qed
qed

lemma rstrip0_spec:
  assumes "list_all is_digit s" "nat_of_digits s \<noteq> 0"
  shows "rstrip0 (t @ s) = t @ rstrip0 s" "list_all is_digit (rstrip0 s)" "length (rstrip0 s) \<le> length s"
    "nat_of_digits (rstrip0 s) * 10 ^ (length s - length (rstrip0 s)) = nat_of_digits s"
proof -
  have "rstrip0 (t @ s) = t @ rstrip0 s \<and> list_all is_digit (rstrip0 s) \<and> length (rstrip0 s) \<le> length s
     \<and> nat_of_digits (rstrip0 s) * 10 ^ (length s - length (rstrip0 s)) = nat_of_digits s"
    using assms
  proof (induction s rule: rev_induct)
    case (snoc c s)
    show ?case
    proof (cases "c = CHR ''0''")
      case True
      then have z: "rstrip0 (u @ [c]) = rstrip0 u" for u by (simp add: rstrip0_def)
      have "digit_val c = 0" using True by (simp add: digit_val_def)
      then have ih: "rstrip0 (t @ s) = t @ rstrip0 s" "list_all is_digit (rstrip0 s)"
        "length (rstrip0 s) \<le> length s"
        "nat_of_digits (rstrip0 s) * 10 ^ (length s - length (rstrip0 s)) = nat_of_digits s"
        using snoc by auto
      then show ?thesis
        using z [of "t @ s"] z [of s] \<open>digit_val c = 0\<close> by (simp add: Suc_diff_le)
    next
      case False
      then have "rstrip0 (u @ [c]) = u @ [c]" for u by (simp add: rstrip0_def)
      then show ?thesis using snoc.prems by (metis append_assoc diff_self_eq_0 le_refl mult.right_neutral power_0)
    qed
  qed simp
  then show "rstrip0 (t @ s) = t @ rstrip0 s" "list_all is_digit (rstrip0 s)" "length (rstrip0 s) \<le> length s"
    "nat_of_digits (rstrip0 s) * 10 ^ (length s - length (rstrip0 s)) = nat_of_digits s" by auto
qed

lemma pad6_spec:
  assumes "n < 10 ^ 6"
  shows "list_all is_digit (pad6 n)" "nat_of_digits (pad6 n) = n" "length (pad6 n) = 6"
proof -
  have z: "nat_of_digits (replicate m (CHR ''0'')) = 0" for m
    by (induction m) (simp_all add: digit_val_def flip: replicate_append_same)
  have "is_digit (CHR ''0'')" by (simp add: is_digit_def)
  then show "list_all is_digit (pad6 n)"
    using show_nat_digits [of n] by (auto simp: pad6_def list_all_iff)
  show "nat_of_digits (pad6 n) = n" by (simp add: pad6_def nat_of_digits_append z)
  have "ndigits n \<le> 6" using ndigits_le [OF assms] by simp
  then show "length (pad6 n) = 6" by (simp add: pad6_def ndigits_def)
qed

lemma format_gold_parts:
  assumes x: "0 \<le> x" "x \<le> MAX_GOLD_ATOMIC"
  obtains ip fp where "format_gold x = Inr (if fp = [] then ip else ip @ ''.'' @ fp)" "ip = show_nat (nat x div 1000000)"
    "list_all is_digit ip" "ip \<noteq> []" "list_all is_digit fp" "length fp \<le> 6"
    "nat_of_digits (ip @ fp) * 10 ^ (6 - length fp) = nat x"
proof -
  define w where "w = nat x div 1000000"
  define f where "f = nat x mod 1000000"
  have wf: "nat x = w * 10 ^ 6 + f" "f < 10 ^ 6" by (simp_all add: w_def f_def)
  have fmt: "format_gold x = (if f = 0 then Inr (show_nat w) else Inr (rstrip0 (show_nat w @ ''.'' @ pad6 f)))"
    using x by (simp add: format_gold_def GOLD_SCALE_def w_def f_def)
  have sw: "show_nat w = show_nat (nat x div 1000000)" by (simp only: w_def)
  show thesis
  proof (cases "f = 0")
    case True
    then show ?thesis using that [OF _ sw, of "[]"] fmt wf show_nat_digits by simp
  next
    case False
    let ?fp = "rstrip0 (pad6 f)"
    note p = pad6_spec [OF wf(2)]
    have nz: "nat_of_digits (pad6 f) \<noteq> 0" using False p by simp
    note r = rstrip0_spec [OF p(1) nz]
    have "?fp \<noteq> []" using r(4) nz by auto
    moreover have "format_gold x = Inr (show_nat w @ ''.'' @ ?fp)"
      using fmt False r(1) [of "show_nat w @ ''.''"] by simp
    moreover have "nat_of_digits (show_nat w @ ?fp) * 10 ^ (6 - length ?fp) = nat x"
    proof -
      have "nat_of_digits (show_nat w @ ?fp) * 10 ^ (6 - length ?fp)
        = w * (10 ^ length ?fp * 10 ^ (6 - length ?fp)) + nat_of_digits ?fp * 10 ^ (6 - length ?fp)"
        by (simp add: nat_of_digits_append algebra_simps)
      also have "10 ^ length ?fp * 10 ^ (6 - length ?fp) = (10::nat) ^ 6"
        using r(3) p(3) by (metis le_add_diff_inverse power_add)
      finally show ?thesis using r(4) p wf by simp
    qed
    ultimately show ?thesis
      using that [OF _ sw, of ?fp] show_nat_digits r p by simp
  qed
qed

lemma dec_is_integral_iff: "dec_is_integral c e \<longleftrightarrow> e \<ge> 0 \<or> 10 ^ nat (- e) dvd c"
proof -
  have "c = div_half_even c m * m" if "m dvd c" "0 < m" for m
    using that div_half_even_exact [of m "c div m"] by (metis dvd_div_mult_self)
  then show ?thesis by (auto simp: dec_is_integral_def) (metis dvd_triv_right)
qed

lemma gold_via_fix:
  assumes "dec_fix False (c * GOLD_SCALE) e = Inr (Dec s c' e')" "dec_is_integral c' e'"
    "dec_int False c' e' = r" "r \<le> MAX_GOLD_ATOMIC"
  shows "gold (GDecimal (Dec False c e)) = Inr r"
  using assms by (simp add: gold_def Let_def)

lemma gold_of_exact:
  assumes "0 < x" "x < 10 ^ 28" "k \<le> 6" "c * 10 ^ 6 = x * 10 ^ k"
  shows "gold (GDecimal (Dec False c (- int k))) = Inr (int x)"
proof -
  obtain j where j: "dec_fix False (x * 10 ^ k) (- int k) = Inr (Dec False (x * 10 ^ j) (- int j))"
    using dec_fix_integer [OF assms(1-3)] by blast
  have "c * GOLD_SCALE = x * 10 ^ k" using assms(4) by (simp add: GOLD_SCALE_def)
  then show ?thesis
    using j assms(2) by (intro gold_via_fix) (auto simp: dec_is_integral_iff dec_int_def MAX_GOLD_ATOMIC_def)
qed

lemma gold_zero: "e \<le> 0 \<Longrightarrow> gold (GDecimal (Dec False 0 e)) = Inr 0"
  by (simp add: gold_def dec_fix_def Let_def dec_is_integral_def div_half_even_def dec_int_def
      MAX_GOLD_ATOMIC_def)

lemma gold_parsed_cong: "gold_parsed v = gold_parsed w \<Longrightarrow> gold v = gold w"
  by (simp add: gold_def)

text \<open>What \<open>gold\<close> reads from a printed amount: a decimal that, scaled by a million, is the amount.\<close>

lemma gold_of_printed:
  assumes "0 \<le> x" "x \<le> MAX_GOLD_ATOMIC"
  obtains c k where "bindR (format_gold x) (\<lambda>s. gold (GStr s)) = gold (GDecimal (Dec False c (- int k)))" "k \<le> 6" "c * 10 ^ 6 = nat x * 10 ^ k"
proof -
  obtain ip fp where f: "format_gold x = Inr (if fp = [] then ip else ip @ ''.'' @ fp)"
    and d: "list_all is_digit ip" "ip \<noteq> []" "list_all is_digit fp" "length fp \<le> 6"
    and v: "nat_of_digits (ip @ fp) * 10 ^ (6 - length fp) = nat x"
    by (rule format_gold_parts [OF assms])
  define c where "c = nat_of_digits (ip @ fp)"
  have cx: "c * 10 ^ 6 = nat x * 10 ^ length fp"
  proof -
    have "(10::nat) ^ 6 = 10 ^ (6 - length fp) * 10 ^ length fp"
      using d(4) by (simp flip: power_add)
    then show ?thesis using v by (metis c_def mult.assoc)
  qed
  have "c * 1 \<le> c * 10 ^ (6 - length fp)" by (intro mult_le_mono2) simp
  then have "c \<le> nat x" using v by (simp add: c_def)
  also have "nat x < 10 ^ 38" using assms by (simp add: MAX_GOLD_ATOMIC_def)
  finally have "ndigits c \<le> 38" by (intro ndigits_le) simp_all
  then have st: "dec_storable c (- int (length fp))" using d(4) by (simp add: dec_storable_def)
  have "decimal_of_string (if fp = [] then ip else ip @ ''.'' @ fp) = Some (Dec False c (- int (length fp)))"
    using decimal_of_fixed [OF d(1-3)] st by (cases "fp = []") (simp_all add: c_def)
  then have "gold (GStr (if fp = [] then ip else ip @ ''.'' @ fp)) = gold (GDecimal (Dec False c (- int (length fp))))"
    by (intro gold_parsed_cong) simp
  then show thesis using that [OF _ d(4) cx] f by simp
qed

lemma format_gold_roundtrip:
  assumes "0 \<le> x" "x < 10 ^ 28"
  shows "bindR (format_gold x) (\<lambda>s. gold (GStr s)) = Inr x"
proof -
  have "x \<le> MAX_GOLD_ATOMIC" using assms by (simp add: MAX_GOLD_ATOMIC_def)
  then obtain c k where g: "bindR (format_gold x) (\<lambda>s. gold (GStr s)) = gold (GDecimal (Dec False c (- int k)))" "k \<le> 6" "c * 10 ^ 6 = nat x * 10 ^ k"
    using gold_of_printed assms(1) by blast
  show ?thesis
  proof (cases "x = 0")
    case True
    then show ?thesis using g by (simp add: gold_zero)
  next
    case False
    then show ?thesis using assms g gold_of_exact [of "nat x" k c] by simp
  qed
qed

text \<open>From ten to the 28 on the amount is rounded to 28 significant digits.\<close>

lemma div_half_even_scale: "0 < t \<Longrightarrow> div_half_even (x * t) (m * t) = div_half_even x m"
  by (auto simp: div_half_even_def Let_def mult_mod_left [symmetric] mult.assoc [symmetric])

lemma div_half_even_near: "0 < m \<Longrightarrow> 2 * \<bar>int (div_half_even x m * m) - int x\<bar> \<le> int m"
proof -
  assume "0 < m"
  have "x = x div m * m + x mod m" "x mod m < m" using \<open>0 < m\<close> by simp_all
  then have "int x = int (x div m * m) + int (x mod m)" by (metis of_nat_add)
  then show ?thesis using \<open>x mod m < m\<close> by (auto simp: div_half_even_def Let_def algebra_simps)
qed

lemma gold_of_large:
  assumes "10 ^ 28 \<le> x" "int x \<le> MAX_GOLD_ATOMIC" "k \<le> 6" "c * 10 ^ 6 = x * 10 ^ k"
  defines "u \<equiv> 10 ^ (ndigits x - 28)"
  shows "gold (GDecimal (Dec False c (- int k))) =
    (if int (div_half_even x u * u) > MAX_GOLD_ATOMIC then Inl (MoneyError ''gold value exceeds the Arena bound'') else Inr (int (div_half_even x u * u)))"
proof -
  let ?d = "ndigits x - 28" and ?q = "div_half_even x u"
  have x: "0 < x" using assms(1) by (rule order_less_le_trans [rotated]) simp
  have n: "28 < ndigits x" "ndigits x \<le> 38"
  proof -
    have "(10 :: nat) ^ 28 < 10 ^ ndigits x" using assms(1) ndigits_bounds(1) by (rule order_le_less_trans)
    then show "28 < ndigits x" using power_less_imp_less_exp [of "10 :: nat" 28 "ndigits x"] by simp
    show "ndigits x \<le> 38" using assms(2) by (intro ndigits_le) (simp_all add: MAX_GOLD_ATOMIC_def)
  qed
  have q: "?q \<le> 10 ^ 28"
  proof -
    have "10 ^ 28 * u = 10 ^ ndigits x" unfolding u_def power_add [symmetric] using n by simp
    then have "x < 10 ^ 28 * u" using ndigits_bounds(1) [of x] by simp
    then have "x div u < 10 ^ 28" by (simp add: u_def less_mult_imp_div_less)
    then show ?thesis by (simp add: div_half_even_def Let_def)
  qed
  have rounded: "dec_fix False (c * GOLD_SCALE) (- int k) = Inr (if ndigits ?q > 28 then Dec False (?q div 10) (int ?d + 1) else Dec False ?q (int ?d))"
  proof -
    have c: "c * GOLD_SCALE = x * 10 ^ k" using assms(4) by (simp add: GOLD_SCALE_def)
    have "div_half_even (x * 10 ^ k) (10 ^ (?d + k)) = ?q" using div_half_even_scale [of "10 ^ k" x u] by (simp add: u_def power_add)
    moreover have "nat (int ?d + int k) = ?d + k" by simp
    ultimately show ?thesis unfolding c using x n ndigits_mult_pow [OF x, of k] by (simp add: dec_fix_def Let_def dec_prec_def dec_Etop_def dec_Etiny_def)
  qed
  show ?thesis
  proof (cases "ndigits ?q > 28")
    case True
    have "?q = 10 ^ 28"
    proof (rule ccontr)
      assume "?q \<noteq> 10 ^ 28"
      then have "?q < 10 ^ 28" using q by simp
      then have "ndigits ?q \<le> 28" by (rule ndigits_le) simp
      then show False using True by simp
    qed
    then show ?thesis using rounded True by (simp add: gold_def Let_def dec_is_integral_def dec_int_def u_def nat_add_distrib)
  next
    case False
    then show ?thesis using rounded by (simp add: gold_def Let_def dec_is_integral_def dec_int_def u_def)
  qed
qed

lemma format_gold_inj:
  assumes "0 \<le> x" "x \<le> MAX_GOLD_ATOMIC" "0 \<le> y" "y \<le> MAX_GOLD_ATOMIC" "format_gold x = format_gold y"
  shows "x = y"
proof -
  obtain ip fp where f: "format_gold x = Inr (if fp = [] then ip else ip @ ''.'' @ fp)" "list_all is_digit ip" "nat_of_digits (ip @ fp) * 10 ^ (6 - length fp) = nat x"
    by (rule format_gold_parts [OF assms(1,2)])
  obtain jp gp where g: "format_gold y = Inr (if gp = [] then jp else jp @ ''.'' @ gp)" "list_all is_digit jp" "nat_of_digits (jp @ gp) * 10 ^ (6 - length gp) = nat y"
    by (rule format_gold_parts [OF assms(3,4)])
  have parts: "takeWhile is_digit (if b = [] then a else a @ ''.'' @ b) = a" "drop (Suc (length a)) (if b = [] then a else a @ ''.'' @ b) = b"
    if "list_all is_digit a" for a b :: string
    using that by (auto simp: list_all_iff is_digit_def takeWhile_append)
  have t: "(if fp = [] then ip else ip @ ''.'' @ fp) = (if gp = [] then jp else jp @ ''.'' @ gp)" using f(1) g(1) assms(5) by simp
  have "ip = jp" using parts(1) [OF f(2), of fp] parts(1) [OF g(2), of gp] t by simp
  moreover have "fp = gp" using parts(2) [OF f(2), of fp] parts(2) [OF g(2), of gp] t calculation by simp
  ultimately show ?thesis using f(3) g(3) assms(1,3) by (metis int_nat_eq)
qed

lemma gold_bounds: "gold v = Inr r \<Longrightarrow> 0 \<le> r \<and> r \<le> MAX_GOLD_ATOMIC"
proof -
  assume "gold v = Inr r"
  moreover from this obtain p where "gold_parsed v = Inr p" by (auto simp: gold_def bindR_Inr_iff)
  ultimately obtain s c e a where s: "\<not> (s \<and> c \<noteq> 0)" and a: "dec_fix s (c * GOLD_SCALE) e = Inr a"
    and r: "r = dec_int s (dec_coeff a) (dec_exp a)" "r \<le> MAX_GOLD_ATOMIC"
    by (cases p) (auto simp: gold_def Let_def bindR_Inr_iff split: if_splits)
  have "0 \<le> r"
  proof (cases s)
    case True
    with s a have "dec_coeff a = 0" by (auto simp: dec_fix_def)
    then show ?thesis by (simp add: r dec_int_def)
  qed (simp add: r dec_int_def Let_def)
  with r show ?thesis by simp
qed


text \<open>\<^const>\<open>format_gold\<close> and \<^const>\<open>gold\<close> form a codec below ten to the 28.\<close>

interpretation gold_codec: codec format_gold "\<lambda>s. gold (GStr s)" "\<lambda>x. 0 \<le> x \<and> x < 10 ^ 28"
  by unfold_locales (simp add: format_gold_roundtrip)



text \<open>Above that bound the round trip is lossy although the amount is within
  \<open>MAX_GOLD_ATOMIC\<close>: the decimal context rounds to 28 significant digits, so the text of ten
  to the 28 plus one is read back as ten to the 28.\<close>

lemma gold_format_gold_limit:
  "bindR (format_gold (10 ^ 28 + 1)) (\<lambda>s. gold (GStr s)) = Inr (10 ^ 28)"
proof -
  let ?w = "10000000000000000000000 :: nat"
  have p: "pad6 1 = ''000001''" by code_simp
  have f: "format_gold (10 ^ 28 + 1) = Inr (show_nat ?w @ ''.'' @ ''000001'')"
    using rstrip0_spec(1) [of "''000001''" "show_nat ?w @ ''.''"] p
    by (simp add: format_gold_def MAX_GOLD_ATOMIC_def GOLD_SCALE_def is_digit_def nat_of_digits_def digit_val_def rstrip0_def)
  have n: "nat_of_digits (show_nat ?w @ ''000001'') = 10000000000000000000000000001"
    by (simp add: nat_of_digits_append nat_of_digits_def [of "''000001''"] digit_val_def)
  have nd: "ndigits 10000000000000000000000000001 = 29" "ndigits 1000000000000000000000000000 = 28"
    by (simp_all add: ndigits_def show_nat.simps)
  have d: "decimal_of_string (show_nat ?w @ ''.'' @ ''000001'') = Some (Dec False 10000000000000000000000000001 (- 6))"
    using decimal_of_fixed(1) [OF show_nat_digits show_nat_ne, of "''000001''" ?w]
    by (simp add: n is_digit_def dec_storable_def nd(1))
  have "dec_fix False (10000000000000000000000000001 * GOLD_SCALE) (- 6) = Inr (Dec False (10 ^ 27) 1)"
    using nd(1) ndigits_mult_pow [of 10000000000000000000000000001 6]
    by (simp add: dec_fix_def dec_prec_def dec_Etop_def dec_Etiny_def Let_def div_half_even_def GOLD_SCALE_def nd(2))
  then have "gold (GDecimal (Dec False 10000000000000000000000000001 (- 6))) = Inr (10 ^ 28)"
    by (rule gold_via_fix) (simp_all add: dec_is_integral_def dec_int_def MAX_GOLD_ATOMIC_def)
  moreover have "gold (GStr (show_nat ?w @ ''.'' @ ''000001'')) = gold (GDecimal (Dec False 10000000000000000000000000001 (- 6)))"
    by (rule gold_parsed_cong) (simp only: gold_parsed.simps d option.simps)
  ultimately show ?thesis by (simp only: f bindR_simps)
qed


text \<open>A non-negative decimal with at most 22 significant digits is converted
  exactly: it is scaled by a million when it has at most six decimal places (rejected when
  it exceeds the bound) and rejected when the scaled value is not an integer.\<close>

theorem gold_exact:
  assumes c: "c < 10 ^ 22" and e: "dec_Etiny \<le> e" "e \<le> 900000"
  shows "gold (GDecimal (Dec False c e)) =
     (if e \<ge> - 6 then
        (if int c * 10 ^ nat (e + 6) > MAX_GOLD_ATOMIC
         then Inl (MoneyError ''gold value exceeds the Arena bound'') else Inr (int c * 10 ^ nat (e + 6)))
      else if 10 ^ nat (- e - 6) dvd c then Inr (int (c div 10 ^ nat (- e - 6)))
      else Inl (MoneyError ''gold value supports at most six decimal places''))"
proof (cases "c = 0")
  case True
  then show ?thesis
    using e by (simp add: gold_def dec_fix_def Let_def dec_is_integral_def div_half_even_def dec_int_def
      MAX_GOLD_ATOMIC_def)
next
  case False
  have nd: "ndigits (c * 10 ^ 6) \<le> 28"
    using ndigits_mult_pow [of c 6] ndigits_le [OF c] False by simp
  have "dec_fix False (c * 10 ^ 6) e = Inr (Dec False (c * 10 ^ 6) e)"
    using c e nd False by (intro dec_fix_small) (auto simp: dec_Etop_def)
  then have g: "gold (GDecimal (Dec False c e)) =
     (if \<not> dec_is_integral (c * 10 ^ 6) e then Inl (MoneyError ''gold value supports at most six decimal places'')
      else if dec_int False (c * 10 ^ 6) e > MAX_GOLD_ATOMIC then Inl (MoneyError ''gold value exceeds the Arena bound'')
      else Inr (dec_int False (c * 10 ^ 6) e))"
    by (simp add: gold_def Let_def GOLD_SCALE_def)
  show ?thesis
  proof (cases "e \<ge> - 6")
    case True
    have "dec_is_integral (c * 10 ^ 6) e \<and> dec_int False (c * 10 ^ 6) e = int c * 10 ^ nat (e + 6)"
    proof (cases "e \<ge> 0")
      case True
      then have "nat (e + 6) = 6 + nat e" by simp
      then show ?thesis using True by (simp add: dec_is_integral_def dec_int_def power_add)
    next
      case False
      define j where "j = nat (- e)"
      have j: "e = - int j" "j \<le> 6" using False True by (auto simp: j_def)
      have "(10::nat) ^ 6 = 10 ^ (6 - j) * 10 ^ j" using j(2) by (simp flip: power_add)
      then have "c * 10 ^ 6 div 10 ^ j = c * 10 ^ (6 - j)" "(10::nat) ^ j dvd c * 10 ^ 6"
        by (metis mult.assoc nonzero_mult_div_cancel_right power_not_zero zero_neq_numeral, metis dvd_mult dvd_triv_right)
      moreover have "nat (e + 6) = 6 - j" "nat (- e) = j" using j by simp_all
      ultimately show ?thesis using False by (simp add: dec_is_integral_iff dec_int_def)
    qed
    then show ?thesis using True g by simp
  next
    case False
    define j where "j = nat (- e - 6)"
    have j: "e = - int (j + 6)" using False by (simp add: j_def)
    have n: "nat (- e) = j + 6" using j by simp
    have "dec_is_integral (c * 10 ^ 6) e \<longleftrightarrow> 10 ^ j dvd c"
      using False n by (simp add: dec_is_integral_iff power_add)
    moreover have "dec_int False (c * 10 ^ 6) e = int (c div 10 ^ j)"
      using False n by (simp add: dec_int_def power_add)
    moreover have "int (c div 10 ^ j) \<le> MAX_GOLD_ATOMIC"
    proof -
      have "c div 10 ^ j \<le> c" by simp
      with c have "c div 10 ^ j \<le> 10 ^ 22" by linarith
      then show ?thesis by (simp add: MAX_GOLD_ATOMIC_def)
    qed
    ultimately show ?thesis using False g by (simp add: j_def)
  qed
qed

theorem gold_exact_witness:
  "gold (GDecimal (Dec False 25 (- 1))) = Inr 2500000 \<and>
   gold (GDecimal (Dec False 1 (- 7))) = Inl (MoneyError ''gold value supports at most six decimal places'')"
  using gold_exact [of 25 "- 1"] gold_exact [of 1 "- 7"]
  by (simp add: dec_Etiny_def MAX_GOLD_ATOMIC_def)

section \<open>Basis points\<close>

lemma apply_basis_points_Inr_iff:
  "apply_basis_points v bp = Inr r \<longleftrightarrow>
     0 \<le> v \<and> - 10000 \<le> bp \<and> bp \<le> 1000000 \<and> r = (v * (10000 + bp) + 5000) div 10000 \<and> r \<le> MAX_GOLD_ATOMIC"
proof (cases "0 \<le> v \<and> - 10000 \<le> bp \<and> bp \<le> 1000000")
  case True
  then have "0 \<le> v * (10000 + bp)" by simp
  define q where "q = (v * (10000 + bp) + 5000) div 10000"
  have "0 \<le> q" using \<open>0 \<le> v * (10000 + bp)\<close> by (simp add: q_def)
  then show ?thesis
    using True unfolding apply_basis_points_def Let_def q_def [symmetric] by auto
next
  case False
  then show ?thesis by (auto simp: apply_basis_points_def)
qed

lemma apply_basis_points_nonneg: "apply_basis_points v bp = Inr r \<Longrightarrow> 0 \<le> r \<and> r \<le> MAX_GOLD_ATOMIC"
  by (auto simp: apply_basis_points_def Let_def split: if_splits)

lemma apply_basis_points_zero [simp]: "0 \<le> v \<Longrightarrow> v \<le> MAX_GOLD_ATOMIC \<Longrightarrow> apply_basis_points v 0 = Inr v"
  by (simp add: apply_basis_points_Inr_iff)

text \<open>A basis-point adjustment is the exact rational rounded half up (the error
  is at most half an atomic unit), it stays within the Arena bound, and it is monotone in the
  adjusted value.\<close>

theorem apply_basis_points_half_up:
  assumes "apply_basis_points v bp = Inr r" and "apply_basis_points w bp = Inr q" and "v \<le> w"
  shows "0 \<le> r \<and> r \<le> MAX_GOLD_ATOMIC \<and> v * (10000 + bp) - 5000 < 10000 * r
     \<and> 10000 * r \<le> v * (10000 + bp) + 5000 \<and> r \<le> q"
proof -
  have "v * (10000 + bp) \<le> w * (10000 + bp)"
    using assms by (intro mult_right_mono) (auto simp: apply_basis_points_Inr_iff)
  then have "r \<le> q" using assms by (auto simp: apply_basis_points_Inr_iff intro: zdiv_mono1)
  moreover have "0 \<le> r \<and> r \<le> MAX_GOLD_ATOMIC" using assms(1) by (rule apply_basis_points_nonneg)
  moreover have "v * (10000 + bp) - 5000 < 10000 * r \<and> 10000 * r \<le> v * (10000 + bp) + 5000"
    using assms(1) by (auto simp: apply_basis_points_Inr_iff)
  ultimately show ?thesis by simp
qed

theorem apply_basis_points_half_up_witness:
  "apply_basis_points 5 2500 = Inr 6 \<and> apply_basis_points 7 2500 = Inr 9
   \<and> 5 * (10000 + 2500) - 5000 < 10000 * (6::int) \<and> (6::int) \<le> 9"
proof -
  have a: "apply_basis_points 5 2500 = Inr 6" and b: "apply_basis_points 7 2500 = Inr 9"
    by (simp_all add: apply_basis_points_def MAX_GOLD_ATOMIC_def)
  show ?thesis using apply_basis_points_half_up [OF a b] a b by simp
qed

end
