(* ===== verification/Arena_Hashing.thy ===== *)
theory Arena_Hashing
  imports Arena_Prelude "HOL-Library.Word"
begin

text \<open>
  \<open>arena_core/hashing.py\<close> and what it uses of the standard library: UTF-8 encoding, SHA-256
  (on 32-bit words, as FIPS 180-4 gives it) and \<open>json.dumps\<close> with sorted keys, compact
  separators and \<open>ensure_ascii=False\<close>. Bytes are natural numbers below 256.
\<close>

unbundle bit_operations_syntax

type_synonym bytes = "nat list"

section \<open>UTF-8\<close>

definition utf8_cp :: "nat \<Rightarrow> bytes" where
  "utf8_cp c =
     (if c < 128 then [c]
      else if c < 2048 then [192 + c div 64, 128 + c mod 64]
      else if c < 65536 then [224 + c div 4096, 128 + c div 64 mod 64, 128 + c mod 64]
      else [240 + c div 262144, 128 + c div 4096 mod 64, 128 + c div 64 mod 64, 128 + c mod 64])"

definition is_surrogate :: "nat \<Rightarrow> bool" where
  "is_surrogate c \<longleftrightarrow> 55296 \<le> c \<and> c \<le> 57343"

definition utf8_encode :: "utext \<Rightarrow> bytes result" where
  "utf8_encode t = (if list_ex is_surrogate t then Inl UnicodeEncodeError else Inr (concat (map utf8_cp t)))"

text \<open>An identifier has no code point above 255, so its encoding cannot fail.\<close>

definition utf8_string :: "string \<Rightarrow> bytes" where
  "utf8_string s = concat (map (\<lambda>c. utf8_cp (of_char c)) s)"

lemma utf8_string_encode: "utf8_encode (ascii s) = Inr (utf8_string s)"
proof -
  have "\<not> is_surrogate (of_char c)" for c
    using nat_of_char_less_256 [of c] unfolding is_surrogate_def by linarith
  then show ?thesis
    by (simp add: utf8_encode_def utf8_string_def ascii_def list_ex_iff comp_def)
qed

section \<open>SHA-256\<close>

type_synonym w32 = "32 word"

definition rotr :: "nat \<Rightarrow> w32 \<Rightarrow> w32" where
  "rotr n w = drop_bit n w OR push_bit (32 - n) w"

definition sha_k :: "w32 list" where
  "sha_k =
    [1116352408, 1899447441, 3049323471, 3921009573, 961987163, 1508970993,
     2453635748, 2870763221, 3624381080, 310598401, 607225278, 1426881987,
     1925078388, 2162078206, 2614888103, 3248222580, 3835390401, 4022224774,
     264347078, 604807628, 770255983, 1249150122, 1555081692, 1996064986,
     2554220882, 2821834349, 2952996808, 3210313671, 3336571891, 3584528711,
     113926993, 338241895, 666307205, 773529912, 1294757372, 1396182291,
     1695183700, 1986661051, 2177026350, 2456956037, 2730485921, 2820302411,
     3259730800, 3345764771, 3516065817, 3600352804, 4094571909, 275423344,
     430227734, 506948616, 659060556, 883997877, 958139571, 1322822218,
     1537002063, 1747873779, 1955562222, 2024104815, 2227730452, 2361852424,
     2428436474, 2756734187, 3204031479, 3329325298]"

definition sha_h0 :: "w32 list" where
  "sha_h0 = [1779033703, 3144134277, 1013904242, 2773480762, 1359893119, 2600822924,
     528734635, 1541459225]"

definition sha_pad :: "bytes \<Rightarrow> bytes" where
  "sha_pad m =
     (let n = length m
      in m @ [128] @ replicate ((119 - n mod 64) mod 64) 0
           @ map (\<lambda>i. (8 * n) div 256 ^ i mod 256) [7, 6, 5, 4, 3, 2, 1, 0])"

fun words_of :: "bytes \<Rightarrow> w32 list" where
  "words_of (a # b # c # d # r) = of_nat (((a * 256 + b) * 256 + c) * 256 + d) # words_of r"
| "words_of _ = []"

definition sha_extend :: "w32 list \<Rightarrow> w32 list" where
  "sha_extend w =
     fold (\<lambda>i ws.
        let a = ws ! (i - 15); b = ws ! (i - 2);
            s0 = rotr 7 a XOR rotr 18 a XOR drop_bit 3 a;
            s1 = rotr 17 b XOR rotr 19 b XOR drop_bit 10 b
        in ws @ [ws ! (i - 16) + s0 + ws ! (i - 7) + s1]) [16..<64] w"

definition sha_round :: "w32 \<times> w32 \<Rightarrow> w32 list \<Rightarrow> w32 list" where
  "sha_round kw st =
     (case st of
        [a, b, c, d, e, f, g, h] \<Rightarrow>
          let s1 = rotr 6 e XOR rotr 11 e XOR rotr 25 e;
              ch = (e AND f) XOR ((NOT e) AND g);
              t1 = h + s1 + ch + fst kw + snd kw;
              s0 = rotr 2 a XOR rotr 13 a XOR rotr 22 a;
              maj = (a AND b) XOR (a AND c) XOR (b AND c);
              t2 = s0 + maj
          in [t1 + t2, a, b, c, d + t1, e, f, g]
      | _ \<Rightarrow> st)"

definition sha_block :: "w32 list \<Rightarrow> w32 list \<Rightarrow> w32 list" where
  "sha_block h blk = map2 (+) h (fold sha_round (zip sha_k (sha_extend blk)) h)"

function sha_blocks :: "w32 list \<Rightarrow> w32 list \<Rightarrow> w32 list" where
  "sha_blocks h ws = (if length ws < 16 then h else sha_blocks (sha_block h (take 16 ws)) (drop 16 ws))"
  by pat_completeness auto
termination
  by (relation "measure (\<lambda>(h, ws). length ws)") auto

declare sha_blocks.simps [simp del]

definition bytes_of_word :: "w32 \<Rightarrow> bytes" where
  "bytes_of_word w = map (\<lambda>i. unat w div 256 ^ i mod 256) [3, 2, 1, 0]"

definition sha256 :: "bytes \<Rightarrow> bytes" where
  "sha256 m = concat (map bytes_of_word (sha_blocks sha_h0 (words_of (sha_pad m))))"

definition hex_digit :: "nat \<Rightarrow> char" where
  "hex_digit n = ''0123456789abcdef'' ! n"

definition hexdigest :: "bytes \<Rightarrow> string" where
  "hexdigest bs = concat (map (\<lambda>b. [hex_digit (b div 16), hex_digit (b mod 16)]) bs)"

text \<open>The digest is 32 bytes whatever the message.\<close>

lemma length_sha_round: "length (sha_round kw st) = length st"
  by (auto simp: sha_round_def Let_def split: list.splits)

lemma length_sha_fold: "length (fold sha_round kws h) = length h"
  by (induction kws arbitrary: h) (simp_all add: length_sha_round)

lemma length_sha_blocks: "length (sha_blocks h ws) = length h"
proof (induction h ws rule: sha_blocks.induct)
  case (1 h ws)
  then show ?case
    by (subst sha_blocks.simps) (simp add: sha_block_def length_sha_fold)
qed

lemma length_sha256: "length (sha256 m) = 32"
proof -
  have "length (concat (map bytes_of_word ws)) = 4 * length ws" for ws
    by (induction ws) (simp_all add: bytes_of_word_def)
  then show ?thesis by (simp add: sha256_def length_sha_blocks sha_h0_def)
qed

lemma sha256_bytes: "\<forall>b \<in> set (sha256 m). b < 256"
  by (auto simp: sha256_def bytes_of_word_def)

section \<open>Canonical JSON\<close>

datatype json = JNull | JBool bool | JInt int | JStr utext | JArr "json list" | JObj "(string \<times> json) list"

definition hex4 :: "nat \<Rightarrow> utext" where
  "hex4 c = ascii [hex_digit (c div 4096 mod 16), hex_digit (c div 256 mod 16),
                   hex_digit (c div 16 mod 16), hex_digit (c mod 16)]"

definition json_escape :: "nat \<Rightarrow> utext" where
  "json_escape c =
     (if c = 34 then [92, 34] else if c = 92 then [92, 92]
      else if c = 10 then [92, 110] else if c = 13 then [92, 114] else if c = 9 then [92, 116]
      else if c = 12 then [92, 102] else if c = 8 then [92, 98]
      else if c < 32 then [92, 117] @ hex4 c else [c])"

definition json_string :: "utext \<Rightarrow> utext" where
  "json_string t = [34] @ concat (map json_escape t) @ [34]"

fun join :: "'a list \<Rightarrow> 'a list list \<Rightarrow> 'a list" where
  "join sep [] = []"
| "join sep [x] = x"
| "join sep (x # y # zs) = x @ sep @ join sep (y # zs)"

text \<open>\<open>json.dumps(value, ensure_ascii=False, sort_keys=True, separators=(",", ":"))\<close>\<close>

fun json_dumps :: "json \<Rightarrow> utext" where
  "json_dumps JNull = ascii ''null''"
| "json_dumps (JBool b) = ascii (if b then ''true'' else ''false'')"
| "json_dumps (JInt i) = ascii (show_int i)"
| "json_dumps (JStr t) = json_string t"
| "json_dumps (JArr xs) = [91] @ join [44] (map json_dumps xs) @ [93]"
| "json_dumps (JObj kvs) =
     [123] @ join [44] (map (\<lambda>(k, d). json_string (ascii k) @ [58] @ d)
                          (sort_key fst (map (\<lambda>(k, v). (k, json_dumps v)) kvs))) @ [125]"

definition canonical_json_bytes :: "json \<Rightarrow> bytes result" where
  "canonical_json_bytes j = utf8_encode (json_dumps j)"

definition sha256_identifier :: "json \<Rightarrow> string result" where
  "sha256_identifier j = bindR (canonical_json_bytes j) (\<lambda>b. Inr (''sha256:'' @ hexdigest (sha256 b)))"

definition sha256_text_identifier :: "string \<Rightarrow> string" where
  "sha256_text_identifier s = ''sha256:'' @ hexdigest (sha256 (utf8_string s))"

section \<open>Text that can be encoded\<close>

definition clean_text :: "utext \<Rightarrow> bool" where
  "clean_text t \<longleftrightarrow> list_all (\<lambda>c. \<not> is_surrogate c) t"

fun clean_json :: "json \<Rightarrow> bool" where
  "clean_json JNull = True"
| "clean_json (JBool b) = True"
| "clean_json (JInt i) = True"
| "clean_json (JStr t) = clean_text t"
| "clean_json (JArr js) = list_all clean_json js"
| "clean_json (JObj kvs) = list_all (\<lambda>(k, v). clean_json v) kvs"

lemma clean_append [simp]: "clean_text (s @ t) \<longleftrightarrow> clean_text s \<and> clean_text t" "clean_text []"
  by (simp_all add: clean_text_def)

lemma clean_Cons: "clean_text (c # t) \<longleftrightarrow> \<not> is_surrogate c \<and> clean_text t"
  by (simp add: clean_text_def)

lemma clean_ascii [simp]: "clean_text (ascii s)"
proof -
  have "\<not> is_surrogate (of_char c)" for c :: char
    using nat_of_char_less_256 [of c] unfolding is_surrogate_def by linarith
  then show ?thesis by (simp add: clean_text_def ascii_def list_all_iff)
qed

lemma clean_concat: "(\<And>x. x \<in> set xs \<Longrightarrow> clean_text x) \<Longrightarrow> clean_text (concat xs)"
  by (induction xs) auto

lemma clean_join: "clean_text sep \<Longrightarrow> (\<And>x. x \<in> set xs \<Longrightarrow> clean_text x) \<Longrightarrow> clean_text (join sep xs)"
  by (induction sep xs rule: join.induct) auto

lemma clean_json_string: "clean_text t \<Longrightarrow> clean_text (json_string t)"
proof -
  assume t: "clean_text t"
  have "clean_text (json_escape c)" if "c \<in> set t" for c
  proof -
    have "\<not> is_surrogate c" using t that by (simp add: clean_text_def list_all_iff)
    then show ?thesis by (simp add: json_escape_def hex4_def clean_Cons) (simp add: is_surrogate_def)
  qed
  then show ?thesis by (auto simp: json_string_def clean_Cons is_surrogate_def intro!: clean_concat)
qed

lemma clean_dumps: "clean_json j \<Longrightarrow> clean_text (json_dumps j)"
proof (induction j)
  case (JArr js)
  then show ?case by (auto simp: clean_Cons is_surrogate_def list_all_iff intro!: clean_join)
next
  case (JObj kvs)
  then show ?case
    by (auto simp: clean_Cons is_surrogate_def list_all_iff intro!: clean_join clean_json_string) fastforce
qed (auto simp: clean_json_string)

lemma clean_identifier: "clean_json j \<Longrightarrow> \<exists>h. sha256_identifier j = Inr h"
  using clean_dumps [of j] by (auto simp: sha256_identifier_def canonical_json_bytes_def utf8_encode_def clean_text_def list_all_iff list_ex_iff)

section \<open>Canonical bytes determine the value\<close>

text \<open>The value with every object's keys in order.\<close>

fun canon :: "json \<Rightarrow> json" where
  "canon (JArr js) = JArr (map canon js)"
| "canon (JObj kvs) = JObj (sort_key fst (map (\<lambda>(k, v). (k, canon v)) kvs))"
| "canon j = j"

lemma hex_digit_inj: "a < 16 \<Longrightarrow> b < 16 \<Longrightarrow> hex_digit a = hex_digit b \<longleftrightarrow> a = b"
  using nth_eq_iff_index_eq [of "''0123456789abcdef''" a b] by (simp add: hex_digit_def)

lemma length_hex4: "length (hex4 c) = 4"
  by (simp add: hex4_def ascii_def)

lemma ascii_inj [simp]: "ascii s = ascii t \<longleftrightarrow> s = t"
  by (auto simp: ascii_def dest!: map_injective intro!: injI)

lemma hex4_inj: "c < 32 \<Longrightarrow> d < 32 \<Longrightarrow> hex4 c = hex4 d \<Longrightarrow> c = d"
proof -
  assume cd: "c < 32" "d < 32" "hex4 c = hex4 d"
  then have "c div 16 = d div 16" "c mod 16 = d mod 16" by (auto simp: hex4_def hex_digit_inj)
  then show ?thesis by (metis div_mult_mod_eq)
qed

lemma json_escape_kinds:
  "c \<in> {34, 92, 10, 13, 9, 12, 8} \<Longrightarrow> \<exists>e. json_escape c = [92, e] \<and> e \<noteq> 117"
  "c \<notin> {34, 92, 10, 13, 9, 12, 8} \<Longrightarrow> c < 32 \<Longrightarrow> json_escape c = 92 # 117 # hex4 c"
  "c \<notin> {34, 92, 10, 13, 9, 12, 8} \<Longrightarrow> \<not> c < 32 \<Longrightarrow> json_escape c = [c] \<and> c \<noteq> 92"
  by (auto simp: json_escape_def)

lemma json_escape_short_inj:
  "c \<in> {34, 92, 10, 13, 9, 12, 8} \<Longrightarrow> d \<in> {34, 92, 10, 13, 9, 12, 8} \<Longrightarrow> json_escape c = json_escape d \<Longrightarrow> c = d"
  by (auto simp: json_escape_def)

lemma json_escape_prefix:
  assumes "json_escape c @ x = json_escape d @ y"
  shows "c = d \<and> x = y"
proof -
  let ?S = "{34, 92, 10, 13, 9, 12, 8} :: nat set"
  note k = json_escape_kinds
  consider "c \<in> ?S" | "c \<notin> ?S" "c < 32" | "c \<notin> ?S" "\<not> c < 32" by blast
  then show ?thesis
  proof cases
    case 1
    then obtain e where e: "json_escape c = [92, e]" "e \<noteq> 117" using k(1) by blast
    consider "d \<in> ?S" | "d \<notin> ?S" "d < 32" | "d \<notin> ?S" "\<not> d < 32" by blast
    then show ?thesis
    proof cases
      case 1
      then obtain e' where e': "json_escape d = [92, e']" using k(1) by blast
      then have "json_escape c = json_escape d" "x = y" using assms e by auto
      then show ?thesis using json_escape_short_inj [OF \<open>c \<in> ?S\<close> 1] by simp
    qed (use assms e k(2,3) [of d] in auto)
  next
    case 2
    note c = k(2) [OF 2]
    consider "d \<in> ?S" | "d \<notin> ?S" "d < 32" | "d \<notin> ?S" "\<not> d < 32" by blast
    then show ?thesis
    proof cases
      case 1
      then obtain e' where "json_escape d = [92, e']" "e' \<noteq> 117" using k(1) by blast
      then show ?thesis using assms c by simp
    next
      case d: 2
      then have "hex4 c @ x = hex4 d @ y" using assms c k(2) [of d] by simp
      then show ?thesis using hex4_inj [of c d] 2 d by (simp add: length_hex4)
    qed (use assms c k(3) [of d] in auto)
  next
    case 3
    then have c: "json_escape c = [c]" "c \<noteq> 92" using k(3) by blast+
    consider "d \<in> ?S" | "d \<notin> ?S" "d < 32" | "d \<notin> ?S" "\<not> d < 32" by blast
    then show ?thesis
    proof cases
      case 1
      then obtain e' where "json_escape d = [92, e']" using k(1) by blast
      then show ?thesis using assms c by simp
    next
      case 2
      then show ?thesis using assms c k(2) [of d] by simp
    next
      case 3
      then show ?thesis using assms c k(3) [of d] by simp
    qed
  qed
qed

lemma json_escape_start: "\<exists>h t. json_escape c = h # t \<and> h \<noteq> 34"
  by (auto simp: json_escape_def)

lemma json_body_prefix:
  "concat (map json_escape s) @ 34 # x = concat (map json_escape t) @ 34 # y \<Longrightarrow> s = t \<and> x = y"
proof (induction s arbitrary: t)
  case Nil
  show ?case
  proof (cases t)
    case (Cons d t')
    then show ?thesis using Nil json_escape_start [of d] by auto
  qed (use Nil in simp)
next
  case (Cons c s)
  show ?case
  proof (cases t)
    case Nil
    then show ?thesis using Cons.prems json_escape_start [of c] by auto
  next
    case (Cons d t')
    have "json_escape c @ (concat (map json_escape s) @ 34 # x) = json_escape d @ (concat (map json_escape t') @ 34 # y)"
      using Cons.prems Cons by simp
    from json_escape_prefix [OF this] Cons.IH [of t'] Cons show ?thesis by auto
  qed
qed

lemma json_string_prefix: "json_string s @ x = json_string t @ y \<Longrightarrow> s = t \<and> x = y"
  using json_body_prefix [of s x t y] by (simp add: json_string_def)

definition delim :: "utext \<Rightarrow> bool" where
  "delim r \<longleftrightarrow> r = [] \<or> hd r \<in> {44, 93, 125}"

lemma show_int_chars: "\<exists>h t. ascii (show_int i) = h # t \<and> (h = 45 \<or> 48 \<le> h \<and> h \<le> 57)"
proof -
  have "\<exists>h t. ascii (show_nat n) = h # t \<and> 48 \<le> h \<and> h \<le> 57" for n
    using show_nat_digits [of n] show_nat_ne [of n] by (cases "show_nat n") (auto simp: ascii_def is_digit_def)
  from this [of "nat i"] show ?thesis
    by (cases "i < 0") (auto simp: show_int_def ascii_def)
qed

lemma digits_prefix:
  "list_all is_digit a \<Longrightarrow> list_all is_digit b \<Longrightarrow> ascii a @ x = ascii b @ y \<Longrightarrow> delim x \<Longrightarrow> delim y \<Longrightarrow> a = b \<and> x = y"
proof (induction a arbitrary: b)
  case Nil
  then show ?case by (cases b) (auto simp: delim_def ascii_def is_digit_def)
next
  case (Cons c a)
  show ?case
  proof (cases b)
    case Nil
    then show ?thesis using Cons.prems by (auto simp: delim_def ascii_def is_digit_def)
  next
    case (Cons d b')
    then show ?thesis using Cons.prems Cons.IH [of b'] by (auto simp: ascii_def)
  qed
qed

lemma show_int_prefix:
  assumes "ascii (show_int i) @ x = ascii (show_int j) @ y" "delim x" "delim y"
  shows "i = j \<and> x = y"
proof -
  have h: "\<exists>c cs. show_nat n = c # cs \<and> is_digit c" for n
    using show_nat_digits [of n] show_nat_ne [of n] by (cases "show_nat n") auto
  have nd: "ascii (show_nat n) @ u \<noteq> ascii (''-'' @ s) @ v" for n u s v
    using h [of n] by (auto simp: ascii_def is_digit_def)
  show ?thesis
  proof (cases "i < 0"; cases "j < 0")
    assume "i < 0" "j < 0"
    then show ?thesis using assms digits_prefix [OF show_nat_digits show_nat_digits, of "nat (- i)" x "nat (- j)" y]
      by (auto simp: show_int_def ascii_def)
  next
    assume "\<not> i < 0" "\<not> j < 0"
    then show ?thesis using assms digits_prefix [OF show_nat_digits show_nat_digits, of "nat i" x "nat j" y]
      by (auto simp: show_int_def)
  next
    assume "i < 0" "\<not> j < 0"
    then show ?thesis using assms(1) nd [of "nat j" y "show_nat (nat (- i))" x] by (auto simp: show_int_def)
  next
    assume "\<not> i < 0" "j < 0"
    then show ?thesis using assms(1) nd [of "nat i" x "show_nat (nat (- j))" y] by (auto simp: show_int_def)
  qed
qed

lemma show_int_inj [simp]: "show_int i = show_int j \<longleftrightarrow> i = j"
  using show_int_prefix [of i "[]" j "[]"] by (auto simp: delim_def)

lemma sort_key_map_values: "sort_key fst (map (\<lambda>(k, v). (k, f v)) kvs) = map (\<lambda>(k, v). (k, f v)) (sort_key fst kvs)"
proof -
  have i: "insort_key fst (k, f v) (map (\<lambda>(k, v). (k, f v)) xs) = map (\<lambda>(k, v). (k, f v)) (insort_key fst (k, v) xs)" for k v xs
    by (induction xs) auto
  show ?thesis by (induction kvs) (auto simp: i)
qed

lemma join_prefix:
  assumes p: "\<And>x y u v. x \<in> set xs \<Longrightarrow> p x @ u = p y @ v \<Longrightarrow> delim u \<Longrightarrow> delim v \<Longrightarrow> c x = c y \<and> u = v"
    and h: "\<And>x. \<exists>h t. p x = h # t \<and> h \<noteq> e" and e: "e \<in> {93, 125}"
    and eq: "join [44] (map p xs) @ e # r = join [44] (map p ys) @ e # s"
  shows "map c xs = map c ys \<and> r = s"
  using p eq
proof (induction xs arbitrary: ys)
  case Nil
  show ?case
  proof (cases ys)
    case (Cons y ys')
    then show ?thesis using Nil h [of y] by (cases ys') auto
  qed (use Nil in simp)
next
  case (Cons x xs)
  have tail: "\<exists>u. join [44] (map p (z # zs)) @ e # w = p z @ u \<and> delim u \<and> u = (if zs = [] then e # w else 44 # join [44] (map p zs) @ e # w)" for z zs w
    using e by (cases zs) (auto simp: delim_def)
  show ?case
  proof (cases ys)
    case Nil
    then show ?thesis using Cons.prems h [of x] by (cases xs) auto
  next
    case ys: (Cons y ys')
    obtain u where u: "join [44] (map p (x # xs)) @ e # r = p x @ u" "delim u" "u = (if xs = [] then e # r else 44 # join [44] (map p xs) @ e # r)"
      using tail [of x xs r] by blast
    obtain v where v: "join [44] (map p (y # ys')) @ e # s = p y @ v" "delim v" "v = (if ys' = [] then e # s else 44 # join [44] (map p ys') @ e # s)"
      using tail [of y ys' s] by blast
    have "p x @ u = p y @ v" using Cons.prems(2) u(1) v(1) ys by simp
    from Cons.prems(1) [OF _ this u(2) v(2)] have cx: "c x = c y" "u = v" by auto
    show ?thesis
    proof (cases "xs = [] \<or> ys' = []")
      case True
      then show ?thesis using cx u(3) v(3) ys e by (auto split: if_splits)
    next
      case False
      then have "join [44] (map p xs) @ e # r = join [44] (map p ys') @ e # s" using cx(2) u(3) v(3) by simp
      from Cons.IH [OF Cons.prems(1) this] cx(1) ys show ?thesis by simp
    qed
  qed
qed

fun kind :: "json \<Rightarrow> nat" where
  "kind JNull = 0" | "kind (JBool b) = (if b then 1 else 2)" | "kind (JInt i) = 3" | "kind (JStr t) = 4"
| "kind (JArr js) = 5" | "kind (JObj kvs) = 6"

definition head_kind :: "nat \<Rightarrow> nat" where
  "head_kind h = (if h = 110 then 0 else if h = 116 then 1 else if h = 102 then 2 else if h = 34 then 4
     else if h = 91 then 5 else if h = 123 then 6 else 3)"

lemma dumps_head: "\<exists>h t. json_dumps j = h # t \<and> head_kind h = kind j \<and> h \<notin> {93, 125}"
proof (cases j)
  case (JInt i)
  obtain h t where h: "ascii (show_int i) = h # t" "h = 45 \<or> 48 \<le> h \<and> h \<le> 57" using show_int_chars by blast
  show ?thesis by (rule exI [of _ h], rule exI [of _ t]) (use h JInt in \<open>auto simp: head_kind_def\<close>)
qed (auto simp: head_kind_def json_string_def ascii_def)

lemma same_kind: "json_dumps j @ r = json_dumps j' @ s \<Longrightarrow> kind j = kind j'"
proof -
  assume eq: "json_dumps j @ r = json_dumps j' @ s"
  obtain h t where h: "json_dumps j = h # t" "head_kind h = kind j" using dumps_head by blast
  obtain h' t' where h': "json_dumps j' = h' # t'" "head_kind h' = kind j'" using dumps_head by blast
  have "h = h'" using eq unfolding h(1) h'(1) by simp
  then show ?thesis using h(2) h'(2) by simp
qed

definition print_member :: "string \<times> json \<Rightarrow> utext" where
  "print_member m = json_string (ascii (fst m)) @ [58] @ json_dumps (snd m)"

lemma dumps_obj: "json_dumps (JObj kvs) = [123] @ join [44] (map print_member (sort_key fst kvs)) @ [125]"
  by (simp add: sort_key_map_values comp_def case_prod_beta print_member_def [abs_def])

lemma canon_obj: "canon (JObj kvs) = JObj (map (\<lambda>m. (fst m, canon (snd m))) (sort_key fst kvs))"
  by (simp add: sort_key_map_values case_prod_beta)

lemma dumps_prefix:
  "json_dumps j @ r = json_dumps j' @ s \<Longrightarrow> delim r \<Longrightarrow> delim s \<Longrightarrow> canon j = canon j' \<and> r = s"
proof (induction j arbitrary: j' r s)
  case (JArr js)
  have k: "kind j' = 5" using same_kind [OF JArr.prems(1)] by simp
  then obtain js' where j': "j' = JArr js'" by (cases j') (auto split: if_splits)
  have "join [44] (map json_dumps js) @ 93 # r = join [44] (map json_dumps js') @ 93 # s"
    using JArr.prems(1) j' by simp
  from join_prefix [where c = canon, OF _ _ _ this] JArr.IH dumps_head
  have "map canon js = map canon js' \<and> r = s" by blast
  then show ?case using j' by simp
next
  case (JObj kvs)
  have k: "kind j' = 6" using same_kind [OF JObj.prems(1)] by simp
  then obtain kvs' where j': "j' = JObj kvs'" by (cases j') (auto split: if_splits)
  have eq: "join [44] (map print_member (sort_key fst kvs)) @ 125 # r = join [44] (map print_member (sort_key fst kvs')) @ 125 # s"
    using JObj.prems(1) unfolding j' dumps_obj by simp
  have p: "(fst x, canon (snd x)) = (fst y, canon (snd y)) \<and> u = v"
    if "x \<in> set (sort_key fst kvs)" "print_member x @ u = print_member y @ v" "delim u" "delim v" for x y u v
  proof -
    have "json_string (ascii (fst x)) @ (58 # json_dumps (snd x) @ u) = json_string (ascii (fst y)) @ (58 # json_dumps (snd y) @ v)"
      using that(2) by (simp add: print_member_def)
    from json_string_prefix [OF this] have f: "fst x = fst y" "json_dumps (snd x) @ u = json_dumps (snd y) @ v" by auto
    have "x \<in> set kvs" using that(1) by simp
    from JObj.IH [OF this _ f(2) that(3,4)] f(1) show ?thesis by (cases x) auto
  qed
  have "\<exists>h t. print_member x = h # t \<and> h \<noteq> 125" for x by (simp add: print_member_def json_string_def)
  from join_prefix [where c = "\<lambda>m. (fst m, canon (snd m))" and p = print_member and e = 125, OF p this _ eq] 
  have "map (\<lambda>m. (fst m, canon (snd m))) (sort_key fst kvs) = map (\<lambda>m. (fst m, canon (snd m))) (sort_key fst kvs') \<and> r = s" by simp
  then show ?case unfolding j' canon_obj by simp
next
  case (JInt i)
  have "kind j' = 3" using same_kind [OF JInt(1)] by simp
  then obtain i' where "j' = JInt i'" by (cases j') (auto split: if_splits)
  then show ?case using show_int_prefix [of i r i' s] JInt by simp
next
  case (JStr t)
  have "kind j' = 4" using same_kind [OF JStr(1)] by simp
  then obtain t' where "j' = JStr t'" by (cases j') (auto split: if_splits)
  then show ?case using json_string_prefix [of t r t' s] JStr by simp
next
  case (JBool b)
  have "kind j' = kind (JBool b)" using same_kind [OF JBool(1)] by simp
  then show ?case using JBool by (cases j') (auto split: if_splits)
next
  case JNull
  have "kind j' = 0" using same_kind [OF JNull(1)] by simp
  then show ?case using JNull by (cases j') (auto split: if_splits)
qed

lemma json_dumps_canon: "json_dumps j = json_dumps j' \<Longrightarrow> canon j = canon j'"
  using dumps_prefix [of j "[]" j' "[]"] by (simp add: delim_def)

lemma div_mod_eqI: "c div k = d div k \<Longrightarrow> c mod k = d mod k \<Longrightarrow> c = (d :: nat)"
  by (metis div_mult_mod_eq)

lemma utf8_cp_prefix:
  assumes c: "c < 1114112" and d: "d < 1114112" and eq: "utf8_cp c @ x = utf8_cp d @ y"
  shows "c = d \<and> x = y"
proof -
  have b: "c < 2048 \<Longrightarrow> c div 64 < 32" "d < 2048 \<Longrightarrow> d div 64 < 32" "c < 65536 \<Longrightarrow> c div 4096 < 16" "d < 65536 \<Longrightarrow> d div 4096 < 16"
    by auto
  have e: "n div 4096 = n div 64 div 64" "n div 262144 = n div 4096 div 64" for n :: nat
    by (simp_all add: div_mult2_eq [symmetric])
  consider "c < 128" | "128 \<le> c" "c < 2048" | "2048 \<le> c" "c < 65536" | "65536 \<le> c" by linarith
  then show ?thesis
  proof cases
    case 1
    then show ?thesis using eq b by (auto simp: utf8_cp_def split: if_splits)
  next
    case 2
    then show ?thesis using eq b div_mod_eqI [of c 64 d] by (auto simp: utf8_cp_def split: if_splits)
  next
    case 3
    then show ?thesis using eq b div_mod_eqI [of c 64 d] div_mod_eqI [of "c div 64" 64 "d div 64"]
      by (auto simp: utf8_cp_def e split: if_splits)
  next
    case 4
    then show ?thesis using eq b div_mod_eqI [of c 64 d] div_mod_eqI [of "c div 64" 64 "d div 64"] div_mod_eqI [of "c div 4096" 64 "d div 4096"]
      by (auto simp: utf8_cp_def e split: if_splits)
  qed
qed

definition unicode :: "utext \<Rightarrow> bool" where
  "unicode t \<longleftrightarrow> list_all (\<lambda>c. c < 1114112) t"

lemma utf8_cp_ne: "utf8_cp c \<noteq> []"
  by (simp add: utf8_cp_def)

lemma utf8_inj: "unicode s \<Longrightarrow> unicode t \<Longrightarrow> concat (map utf8_cp s) = concat (map utf8_cp t) \<Longrightarrow> s = t"
proof (induction s arbitrary: t)
  case Nil
  then show ?case using utf8_cp_ne by (cases t) auto
next
  case (Cons c s)
  then obtain d t' where t: "t = d # t'" using utf8_cp_ne by (cases t) auto
  from Cons.prems utf8_cp_prefix [of c d "concat (map utf8_cp s)" "concat (map utf8_cp t')"] t
  have "c = d" "concat (map utf8_cp s) = concat (map utf8_cp t')" by (auto simp: unicode_def)
  then show ?case using Cons t by (auto simp: unicode_def)
qed

text \<open>Objects with the same canonical form agree on every key.\<close>

lemma canon_lookup:
  assumes "distinct (map fst kvs)" "distinct (map fst kvs')" "canon (JObj kvs) = canon (JObj kvs')"
  shows "map_option canon (map_of kvs k) = map_option canon (map_of kvs' k)"
proof -
  have m: "map_of (sort_key fst xs) = map_of xs" if "distinct (map fst xs)" for xs :: "(string \<times> json) list"
    using that by (intro map_of_inject_set [THEN iffD2]) (auto simp: distinct_map)
  have c: "map_of (map (\<lambda>m. (fst m, canon (snd m))) xs) k = map_option canon (map_of xs k)" for xs :: "(string \<times> json) list"
    by (induction xs) auto
  have "map (\<lambda>m. (fst m, canon (snd m))) (sort_key fst kvs) = map (\<lambda>m. (fst m, canon (snd m))) (sort_key fst kvs')"
    using assms(3) unfolding canon_obj by simp
  then have "map_option canon (map_of (sort_key fst kvs) k) = map_option canon (map_of (sort_key fst kvs') k)"
    using c by metis
  then show ?thesis by (simp add: m assms)
qed

text \<open>Values whose texts are encodable Unicode.\<close>

fun unicode_json :: "json \<Rightarrow> bool" where
  "unicode_json (JStr t) = (unicode t \<and> clean_text t)"
| "unicode_json (JArr js) = list_all unicode_json js"
| "unicode_json (JObj kvs) = list_all (\<lambda>(k, v). unicode_json v) kvs"
| "unicode_json _ = True"

lemma unicode_append [simp]: "unicode (s @ t) \<longleftrightarrow> unicode s \<and> unicode t" "unicode []" "unicode (c # t) \<longleftrightarrow> c < 1114112 \<and> unicode t"
  by (simp_all add: unicode_def)

lemma unicode_ascii [simp]: "unicode (ascii s)"
proof -
  have "of_char c < (1114112 :: nat)" for c :: char using nat_of_char_less_256 [of c] by linarith
  then show ?thesis by (simp add: unicode_def ascii_def list_all_iff)
qed

lemma unicode_concat: "(\<And>x. x \<in> set xs \<Longrightarrow> unicode x) \<Longrightarrow> unicode (concat xs)"
  by (induction xs) auto

lemma unicode_join: "unicode sep \<Longrightarrow> (\<And>x. x \<in> set xs \<Longrightarrow> unicode x) \<Longrightarrow> unicode (join sep xs)"
  by (induction sep xs rule: join.induct) auto

lemma unicode_json_string: "unicode t \<Longrightarrow> unicode (json_string t)"
proof -
  assume t: "unicode t"
  have "unicode (json_escape c)" if "c \<in> set t" for c
  proof -
    have "c < 1114112" using t that by (simp add: unicode_def list_all_iff)
    then show ?thesis by (simp add: json_escape_def hex4_def)
  qed
  then show ?thesis by (auto simp: json_string_def intro!: unicode_concat)
qed

lemma unicode_dumps: "unicode_json j \<Longrightarrow> unicode (json_dumps j)"
proof (induction j)
  case (JArr js)
  then show ?case by (auto simp: list_all_iff intro!: unicode_join)
next
  case (JObj kvs)
  have "unicode (print_member m)" if "m \<in> set kvs" for m
    using JObj that by (cases m) (force simp: print_member_def list_all_iff intro: unicode_json_string)
  then show ?case unfolding dumps_obj by (auto intro!: unicode_join)
qed (auto intro: unicode_json_string)

lemma unicode_json_clean: "unicode_json j \<Longrightarrow> clean_json j"
proof (induction j)
  case (JObj kvs)
  then show ?case by (force simp: list_all_iff)
qed (auto simp: list_all_iff)

lemma canonical_bytes_unicode: "unicode_json j \<Longrightarrow> canonical_json_bytes j = Inr (concat (map utf8_cp (json_dumps j)))"
  using clean_dumps [OF unicode_json_clean, of j]
  by (auto simp: canonical_json_bytes_def utf8_encode_def clean_text_def list_all_iff list_ex_iff)

lemma hexdigest_inj: "\<forall>b \<in> set xs. b < 256 \<Longrightarrow> \<forall>b \<in> set ys. b < 256 \<Longrightarrow> length xs = length ys \<Longrightarrow> hexdigest xs = hexdigest ys \<Longrightarrow> xs = ys"
proof (induction ys arbitrary: xs)
  case (Cons y ys)
  then obtain x xs' where xs: "xs = x # xs'" by (cases xs) auto
  have "hex_digit (x div 16) = hex_digit (y div 16)" "hex_digit (x mod 16) = hex_digit (y mod 16)" "hexdigest xs' = hexdigest ys"
    using Cons.prems(4) xs by (auto simp: hexdigest_def)
  moreover have "x div 16 < 16" "y div 16 < 16" using Cons.prems xs by auto
  ultimately have "x = y" using div_mod_eqI [of x 16 y] by (simp add: hex_digit_inj)
  then show ?case using Cons xs \<open>hexdigest xs' = hexdigest ys\<close> by auto
qed simp

lemma sha256_hex_inj: "hexdigest (sha256 m) = hexdigest (sha256 m') \<Longrightarrow> sha256 m = sha256 m'"
  using hexdigest_inj [of "sha256 m" "sha256 m'"] sha256_bytes length_sha256 by simp

lemma identifier_collision:
  assumes "unicode_json j" "unicode_json j'" "canon j \<noteq> canon j'"
  shows "\<exists>b b'. canonical_json_bytes j = Inr b \<and> canonical_json_bytes j' = Inr b' \<and> b \<noteq> b'
     \<and> (sha256_identifier j = sha256_identifier j' \<longleftrightarrow> sha256 b = sha256 b')"
proof -
  let ?b = "concat (map utf8_cp (json_dumps j))" and ?b' = "concat (map utf8_cp (json_dumps j'))"
  note c = canonical_bytes_unicode [OF assms(1)] canonical_bytes_unicode [OF assms(2)]
  have "?b \<noteq> ?b'" using utf8_inj [OF unicode_dumps unicode_dumps] assms json_dumps_canon by blast
  moreover have "sha256_identifier j = sha256_identifier j' \<longleftrightarrow> sha256 ?b = sha256 ?b'"
    using sha256_hex_inj by (auto simp: sha256_identifier_def c)
  ultimately show ?thesis using c by blast
qed

text \<open>The canonical form is binding: two JSON values that differ other than in the
  order of their keys have different canonical bytes, so their identifiers agree only if SHA-256
  maps these two byte strings to the same digest.\<close>

theorem canonical_identifier_binding:
  assumes "unicode_json j" "unicode_json j'" "canon j \<noteq> canon j'"
  shows "\<exists>b b'. canonical_json_bytes j = Inr b \<and> canonical_json_bytes j' = Inr b' \<and> b \<noteq> b'
     \<and> (sha256_identifier j = sha256_identifier j' \<longleftrightarrow> sha256 b = sha256 b')"
  using assms by (rule identifier_collision)

theorem canonical_identifier_binding_witness:
  "\<exists>b b'. canonical_json_bytes (JArr [JInt 1, JInt 2]) = Inr b \<and> canonical_json_bytes (JArr [JInt 12]) = Inr b' \<and> b \<noteq> b'"
  using canonical_identifier_binding [of "JArr [JInt 1, JInt 2]" "JArr [JInt 12]"] by auto

end
