(* ===== verification/Arena_Portfolio.thy ===== *)
theory Arena_Portfolio
  imports Arena_Money Arena_Hashing
begin

text \<open>
  \<open>arena_game/goods.py\<close>, \<open>arena_game/price_catalog.py\<close> and \<open>arena_game/portfolio.py\<close>: the
  four goods and their prices, the versioned price catalogs, and the equal-value starting
  allocation. Dictionaries keyed by good are ordered dictionaries over \<^typ>\<open>string\<close>.
\<close>

section \<open>Goods\<close>

record GoodDefinition =
  gd_good_id :: string
  gd_display_name :: utext
  gd_icon :: utext
  gd_initial_price_atomic :: int
  gd_financial_role :: utext

definition GOODS :: "(string, GoodDefinition) dict" where
  "GOODS =
    [(''grain'', \<lparr>gd_good_id = ''grain'', gd_display_name = [31918, 33609], gd_icon = [127806],
        gd_initial_price_atomic = 2000000, gd_financial_role = [27665, 29983, 24517, 38656, 21697]\<rparr>),
     (''iron'', \<lparr>gd_good_id = ''iron'', gd_display_name = [31934, 38081], gd_icon = [9876, 65039],
        gd_initial_price_atomic = 5000000,
        gd_financial_role = [24037, 19994, 19982, 25112, 20105, 21608, 26399, 21697]\<rparr>),
     (''warhorse'', \<lparr>gd_good_id = ''warhorse'', gd_display_name = [25112, 39532], gd_icon = [128014],
        gd_initial_price_atomic = 8000000, gd_financial_role = [31232, 32570, 30828, 36164, 20135]\<rparr>),
     (''gems'', \<lparr>gd_good_id = ''gems'', gd_display_name = [23453, 30707], gd_icon = [128142],
        gd_initial_price_atomic = 3000000, gd_financial_role = [25237, 26426, 36164, 20135]\<rparr>)]"

definition GOOD_IDS :: "string list" where
  "GOOD_IDS = dkeys GOODS"

definition INITIAL_PRICES :: "(string, int) dict" where
  "INITIAL_PRICES = map (\<lambda>(g, d). (g, gd_initial_price_atomic d)) GOODS"

definition require_good :: "string \<Rightarrow> string result" where
  "require_good v = (if dget GOODS v = None
     then Inl (ValueError (''unknown King's Pawnhouse good: '' @ v)) else Inr v)"

lemma GOOD_IDS_eq: "GOOD_IDS = [''grain'', ''iron'', ''warhorse'', ''gems'']"
  by (simp add: GOOD_IDS_def GOODS_def)

lemma INITIAL_PRICES_eq:
  "INITIAL_PRICES = [(''grain'', 2000000), (''iron'', 5000000), (''warhorse'', 8000000), (''gems'', 3000000)]"
  by (simp add: INITIAL_PRICES_def GOODS_def)

lemma require_good_iff: "require_good v = Inr w \<longleftrightarrow> w = v \<and> v \<in> set GOOD_IDS"
  by (auto simp: require_good_def GOOD_IDS_eq GOODS_def)

section \<open>Price catalogs\<close>

definition STANDARD_PRICE_CATALOG_ID :: utext where
  "STANDARD_PRICE_CATALOG_ID = ascii ''pawnhouse-price-v1''"

definition EXPERIMENTAL_PRICE_CATALOG_ID_V2 :: utext where
  "EXPERIMENTAL_PRICE_CATALOG_ID_V2 = ascii ''pawnhouse-price-v2''"

record PriceCatalog =
  pc_catalog_id :: utext
  pc_prices :: "(string, int) dict"

definition PriceCatalog_new :: "utext \<Rightarrow> (string, int) dict \<Rightarrow> PriceCatalog result" where
  "PriceCatalog_new catalog_id prices =
     (if catalog_id = [] then Inl (ValueError ''price catalog id is required'')
      else if set (dkeys prices) \<noteq> set GOOD_IDS then
        Inl (ValueError ''price catalog requires exactly the canonical goods'')
      else if list_ex (\<lambda>v. v \<le> 0) (dvalues prices) then
        Inl (ValueError ''price catalog values must be positive integers'')
      else Inr \<lparr>pc_catalog_id = catalog_id, pc_prices = prices\<rparr>)"

definition EXPERIMENTAL_PRICES_V2 :: "(string, int) dict" where
  "EXPERIMENTAL_PRICES_V2 =
     [(''grain'', 2500000), (''iron'', 4000000), (''warhorse'', 6000000), (''gems'', 3000000)]"

definition resolve_price_catalog :: "utext \<Rightarrow> PriceCatalog result" where
  "resolve_price_catalog catalog_id =
     (if catalog_id = STANDARD_PRICE_CATALOG_ID then PriceCatalog_new STANDARD_PRICE_CATALOG_ID INITIAL_PRICES
      else if catalog_id = EXPERIMENTAL_PRICE_CATALOG_ID_V2 then
        PriceCatalog_new EXPERIMENTAL_PRICE_CATALOG_ID_V2 EXPERIMENTAL_PRICES_V2
      else Inl (ValueError ''unknown price catalog''))"

text \<open>\<open>to_snapshot\<close>: the prices are stored as decimal strings.\<close>

definition PriceCatalog_to_snapshot :: "PriceCatalog \<Rightarrow> (string, json) dict" where
  "PriceCatalog_to_snapshot c =
     [(''priceCatalogId'', JStr (pc_catalog_id c)),
      (''initialPricesAtomic'',
        JObj (map (\<lambda>g. (g, JStr (ascii (show_int (the (dget (pc_prices c) g)))))) GOOD_IDS))]"

text \<open>\<open>int(text)\<close>: an optional sign and decimal digits, white space around and single
  underscores between digits allowed. Decimal digits of other scripts, which \<open>int\<close> also
  reads, are outside the model: such a text counts as invalid.\<close>

fun int_digits :: "string \<Rightarrow> string option" where
  "int_digits [] = None"
| "int_digits [c] = (if is_digit c then Some [c] else None)"
| "int_digits (c # d # ds) =
     (if \<not> is_digit c then None
      else if d = CHR ''_'' then map_option (Cons c) (int_digits ds)
      else map_option (Cons c) (int_digits (d # ds)))"

definition py_int :: "string \<Rightarrow> int option" where
  "py_int v = (case split_sign (strip v) of (neg, s) \<Rightarrow>
     map_option (\<lambda>ds. if neg then - int (nat_of_digits ds) else int (nat_of_digits ds)) (int_digits s))"

definition text_ascii :: "utext \<Rightarrow> string option" where
  "text_ascii t = (if list_all (\<lambda>c. c < 256) t then Some (map char_of t) else None)"

fun snapshot_price :: "json \<Rightarrow> int result" where
  "snapshot_price (JInt i) = Inr i"
| "snapshot_price (JStr t) =
     (case Option.bind (text_ascii t) py_int of
        None \<Rightarrow> Inl (ValueError ''frozen initial price is invalid'') | Some i \<Rightarrow> Inr i)"
| "snapshot_price _ = Inl (ValueError ''frozen initial price is invalid'')"

definition price_catalog_from_snapshot :: "(string, json) dict \<Rightarrow> PriceCatalog result" where
  "price_catalog_from_snapshot snapshot =
     (let catalog_id = (case dget snapshot ''priceCatalogId'' of Some JNull \<Rightarrow> None | x \<Rightarrow> x);
          raw_prices = (case dget snapshot ''initialPricesAtomic'' of Some JNull \<Rightarrow> None | x \<Rightarrow> x)
      in if catalog_id = None \<and> raw_prices = None then resolve_price_catalog STANDARD_PRICE_CATALOG_ID
         else case catalog_id of
           Some (JStr t) \<Rightarrow>
             if t = [] then Inl (ValueError ''frozen price catalog id is invalid'')
             else (case raw_prices of
                Some (JObj kvs) \<Rightarrow>
                  if set (dkeys kvs) \<noteq> set GOOD_IDS then
                    Inl (ValueError ''frozen initial prices require exactly the canonical goods'')
                  else bindR (mapR (\<lambda>g. bindR (snapshot_price (the (dget kvs g))) (\<lambda>v. Inr (g, v))) GOOD_IDS)
                         (PriceCatalog_new t)
              | _ \<Rightarrow> Inl (ValueError ''frozen initial prices are invalid''))
         | _ \<Rightarrow> Inl (ValueError ''frozen price catalog id is invalid''))"

section \<open>Portfolios\<close>

definition INITIAL_NET_WORTH_ATOMIC :: int where
  "INITIAL_NET_WORTH_ATOMIC = 20000000"

record Portfolio =
  cash_atomic :: int
  holdings :: "(string, int) dict"

text \<open>\<open>', '.join(sorted(unknown))\<close>\<close>

definition unknown_goods :: "(string, int) dict \<Rightarrow> string list" where
  "unknown_goods vs = sort (remdups (filter (\<lambda>g. g \<notin> set GOOD_IDS) (dkeys vs)))"

text \<open>\<open>values.get(good_id, 0)\<close>\<close>

definition qty :: "(string, int) dict \<Rightarrow> string \<Rightarrow> int" where
  "qty vs g = (case dget vs g of None \<Rightarrow> 0 | Some q \<Rightarrow> q)"

definition normalize_holdings :: "(string, int) dict \<Rightarrow> (string, int) dict result" where
  "normalize_holdings vs =
     (if unknown_goods vs \<noteq> [] then Inl (PortfolioError (''unknown goods: '' @ join '', '' (unknown_goods vs)))
      else mapR (\<lambda>g.
        let quantity = qty vs g
        in if quantity < 0 \<or> quantity > 1000000 then
             Inl (PortfolioError ''holding quantity is outside the Arena bound'')
           else Inr (g, quantity)) GOOD_IDS)"

definition portfolio_value :: "int \<Rightarrow> (string, int) dict \<Rightarrow> (string, int) dict \<Rightarrow> int result" where
  "portfolio_value cash hs prices =
     (if cash < 0 then Inl (PortfolioError ''cash cannot be negative'')
      else bindR (normalize_holdings hs) (\<lambda>normalized.
        if set (dkeys prices) \<noteq> set GOOD_IDS then
          Inl (PortfolioError ''valuation requires exactly the four canonical goods'')
        else Inr (cash + sum_list (map (\<lambda>g. the (dget normalized g) * the (dget prices g)) GOOD_IDS))))"

definition Portfolio_initial :: "int \<Rightarrow> (string, int) dict \<Rightarrow> (string, int) dict \<Rightarrow> Portfolio result" where
  "Portfolio_initial cash hs prices =
     bindR (normalize_holdings hs) (\<lambda>normalized.
       bindR (portfolio_value cash normalized prices) (\<lambda>v.
         if v \<noteq> INITIAL_NET_WORTH_ATOMIC then
           Inl (PortfolioError ''initial cash plus holdings must equal exactly 20 gold'')
         else Inr \<lparr>cash_atomic = cash, holdings = normalized\<rparr>))"

definition net_worth :: "Portfolio \<Rightarrow> (string, int) dict \<Rightarrow> int result" where
  "net_worth p prices = portfolio_value (cash_atomic p) (holdings p) prices"

text \<open>The good of the \<open>index\<close>-th participant: the first four digest bytes modulo four.\<close>

definition seeded_good :: "string \<Rightarrow> string \<Rightarrow> nat \<Rightarrow> string" where
  "seeded_good seed agent_id index =
     (let digest = sha256 (utf8_string (seed @ '':'' @ agent_id @ '':'' @ show_nat index));
          n = fold (\<lambda>b a. 256 * a + b) (take 4 digest) 0
      in GOOD_IDS ! (n mod length GOOD_IDS))"

fun distribute_loop :: "string \<Rightarrow> (string, int) dict \<Rightarrow> nat \<Rightarrow> string list \<Rightarrow> (string, Portfolio) dict
    \<Rightarrow> (string, Portfolio) dict result" where
  "distribute_loop seed prices i [] acc = Inr acc"
| "distribute_loop seed prices i (a # as) acc =
     (let g = seeded_good seed a i
      in case dget prices g of
           None \<Rightarrow> Inl (KeyError g)
         | Some pr \<Rightarrow>
             bindR (Portfolio_initial (INITIAL_NET_WORTH_ATOMIC - pr)
                      (dput (map (\<lambda>x. (x, 0)) GOOD_IDS) g 1) prices)
               (\<lambda>p. distribute_loop seed prices (Suc i) as (dput acc a p)))"

definition distribute_balanced_portfolios ::
    "string list \<Rightarrow> string \<Rightarrow> (string, int) dict \<Rightarrow> (string, Portfolio) dict result" where
  "distribute_balanced_portfolios agent_ids seed prices =
     (if \<not> distinct agent_ids then Inl (PortfolioError ''agent ids must be unique'')
      else distribute_loop seed prices 0 agent_ids [])"

definition default_join_portfolio :: "string \<Rightarrow> string \<Rightarrow> (string, int) dict \<Rightarrow> Portfolio result" where
  "default_join_portfolio game_id agent_id prices =
     (if game_id = [] then Inl (PortfolioError ''game id is required for the default portfolio'')
      else if agent_id = [] then Inl (PortfolioError ''agent id is required for the default portfolio'')
      else bindR (distribute_balanced_portfolios [agent_id] (''current-game-default:'' @ game_id) prices)
             (\<lambda>ps. Inr (the (dget ps agent_id))))"

section \<open>Catalog snapshots\<close>

lemma int_digits_all: "list_all is_digit s \<Longrightarrow> s \<noteq> [] \<Longrightarrow> int_digits s = Some s"
proof (induction s rule: int_digits.induct)
  case (3 c d ds)
  then have "d \<noteq> CHR ''_''" by (auto simp: is_digit_def)
  with 3 show ?case by simp
qed auto

lemma py_int_show_nat: "py_int (show_nat n) = Some (int n)"
proof -
  obtain c cs where c: "show_nat n = c # cs" "is_digit c"
    using show_nat_digits [of n] show_nat_ne [of n] by (cases "show_nat n") auto
  have "list_all (\<lambda>c. is_digit c \<or> c = CHR ''.'') (show_nat n)"
    using show_nat_digits [of n] by (auto simp: list_all_iff)
  then have "strip (show_nat n) = show_nat n" by (rule digits_plain)
  then show ?thesis
    using digit_head(1) [OF c(2), of cs] int_digits_all [OF show_nat_digits, of n] c(1) nat_of_show_nat [of n]
    by (simp add: py_int_def)
qed

lemma text_ascii_ascii [simp]: "text_ascii (ascii s) = Some s"
  by (simp add: text_ascii_def ascii_def list_all_iff comp_def)

lemma snapshot_price_show: "0 < v \<Longrightarrow> snapshot_price (JStr (ascii (show_int v))) = Inr v"
  by (simp add: show_int_def py_int_show_nat)

lemma PriceCatalog_new_iff:
  "PriceCatalog_new i ps = Inr c \<longleftrightarrow> i \<noteq> [] \<and> set (dkeys ps) = set GOOD_IDS \<and> (\<forall>v \<in> set (dvalues ps). 0 < v)
     \<and> c = \<lparr>pc_catalog_id = i, pc_prices = ps\<rparr>"
  by (fastforce simp: PriceCatalog_new_def list_ex_iff not_le split: if_splits)

lemma mapR_all_ok: "(\<And>x. x \<in> set xs \<Longrightarrow> f x = Inr (g x)) \<Longrightarrow> mapR f xs = Inr (map g xs)"
  by (induction xs) auto

lemma catalog_price_pos:
  assumes "PriceCatalog_new i ps = Inr c" "g \<in> set GOOD_IDS"
  shows "\<exists>v. dget ps g = Some v \<and> 0 < v"
proof -
  have "g \<in> set (dkeys ps)" using assms by (simp add: PriceCatalog_new_iff)
  then obtain v where "dget ps g = Some v" by (metis domD dom_map_of_conv_image_fst list.set_map)
  then show ?thesis using assms(1) map_of_SomeD [of ps g v] by (force simp: PriceCatalog_new_iff)
qed

text \<open>A catalog written to a game's snapshot and read back has the same id and the
  same price for every good.\<close>

theorem price_catalog_snapshot_roundtrip:
  assumes "PriceCatalog_new catalog_id prices = Inr c"
  shows "price_catalog_from_snapshot (PriceCatalog_to_snapshot c) =
    Inr \<lparr>pc_catalog_id = catalog_id, pc_prices = map (\<lambda>g. (g, the (dget prices g))) GOOD_IDS\<rparr>"
proof -
  let ?v = "\<lambda>g. the (dget prices g)"
  let ?kvs = "map (\<lambda>g. (g, JStr (ascii (show_int (?v g))))) GOOD_IDS"
  have c: "catalog_id \<noteq> []" "c = \<lparr>pc_catalog_id = catalog_id, pc_prices = prices\<rparr>"
    using assms by (auto simp: PriceCatalog_new_iff)
  have pos: "0 < ?v g" if "g \<in> set GOOD_IDS" for g
    using catalog_price_pos [OF assms that] by auto
  have "snapshot_price (the (dget ?kvs g)) = Inr (?v g)" if "g \<in> set GOOD_IDS" for g
    using snapshot_price_show [OF pos [OF that]] that
    by (simp add: map_of_map_keys map_of_map_restrict)
  then have "mapR (\<lambda>g. bindR (snapshot_price (the (dget ?kvs g))) (\<lambda>v. Inr (g, v))) GOOD_IDS
      = Inr (map (\<lambda>g. (g, ?v g)) GOOD_IDS)"
    by (intro mapR_all_ok) simp
  moreover have "PriceCatalog_new catalog_id (map (\<lambda>g. (g, ?v g)) GOOD_IDS)
      = Inr \<lparr>pc_catalog_id = catalog_id, pc_prices = map (\<lambda>g. (g, ?v g)) GOOD_IDS\<rparr>"
    using c(1) pos by (auto simp: PriceCatalog_new_iff comp_def)
  ultimately show ?thesis
    using c by (simp add: price_catalog_from_snapshot_def PriceCatalog_to_snapshot_def Let_def comp_def)
qed

theorem price_catalog_snapshot_roundtrip_witness:
  "price_catalog_from_snapshot (PriceCatalog_to_snapshot
      \<lparr>pc_catalog_id = STANDARD_PRICE_CATALOG_ID, pc_prices = INITIAL_PRICES\<rparr>) =
    Inr \<lparr>pc_catalog_id = STANDARD_PRICE_CATALOG_ID, pc_prices = INITIAL_PRICES\<rparr>"
proof -
  have "PriceCatalog_new STANDARD_PRICE_CATALOG_ID INITIAL_PRICES =
      Inr \<lparr>pc_catalog_id = STANDARD_PRICE_CATALOG_ID, pc_prices = INITIAL_PRICES\<rparr>"
    by (auto simp: PriceCatalog_new_iff STANDARD_PRICE_CATALOG_ID_def ascii_def INITIAL_PRICES_eq GOOD_IDS_eq)
  from price_catalog_snapshot_roundtrip [OF this] show ?thesis
    by (simp add: INITIAL_PRICES_eq GOOD_IDS_eq)
qed

section \<open>Allocation and valuation\<close>

lemma unknown_goods_Nil_iff: "unknown_goods vs = [] \<longleftrightarrow> set (dkeys vs) \<subseteq> set GOOD_IDS"
proof -
  have "sort xs = [] \<longleftrightarrow> xs = []" for xs :: "string list"
    by (metis set_empty set_sort)
  then show ?thesis by (auto simp: unknown_goods_def filter_empty_conv remdups_eq_nil_iff)
qed

lemma normalize_holdings_iff:
  "normalize_holdings vs = Inr d \<longleftrightarrow>
     set (dkeys vs) \<subseteq> set GOOD_IDS \<and> (\<forall>g \<in> set GOOD_IDS. 0 \<le> qty vs g \<and> qty vs g \<le> 1000000)
     \<and> d = map (\<lambda>g. (g, qty vs g)) GOOD_IDS"
proof -
  have "mapR (\<lambda>g. if qty vs g < 0 \<or> qty vs g > 1000000 then Inl e else Inr (g, qty vs g)) gs = Inr d
     \<longleftrightarrow> (\<forall>g \<in> set gs. 0 \<le> qty vs g \<and> qty vs g \<le> 1000000) \<and> d = map (\<lambda>g. (g, qty vs g)) gs" for gs e
    by (induction gs arbitrary: d) (auto simp: bindR_Inr_iff not_less)
  then show ?thesis
    by (simp add: normalize_holdings_def unknown_goods_Nil_iff Let_def)
qed

lemma qty_map: "g \<in> set GOOD_IDS \<Longrightarrow> qty (map (\<lambda>g. (g, f g)) GOOD_IDS) g = f g"
  by (auto simp: qty_def GOOD_IDS_eq)

interpretation holdings_norm: normalizer normalize_holdings
  by unfold_locales (auto simp: normalize_holdings_iff qty_map comp_def cong: map_cong)

lemma portfolio_value_iff:
  "portfolio_value cash hs prices = Inr v \<longleftrightarrow>
     0 \<le> cash \<and> (\<exists>d. normalize_holdings hs = Inr d) \<and> set (dkeys prices) = set GOOD_IDS
     \<and> v = cash + sum_list (map (\<lambda>g. qty hs g * the (dget prices g)) GOOD_IDS)"
  by (auto simp: portfolio_value_def bindR_Inr_iff normalize_holdings_iff not_less GOOD_IDS_eq split: if_splits)

lemma Portfolio_initial_net_worth:
  assumes "Portfolio_initial cash hs prices = Inr p"
  shows "net_worth p prices = Inr INITIAL_NET_WORTH_ATOMIC" "cash_atomic p = cash"
    "normalize_holdings (holdings p) = Inr (holdings p)" "normalize_holdings hs = Inr (holdings p)"
  using assms
  by (auto simp: Portfolio_initial_def bindR_Inr_iff net_worth_def split: if_splits intro: holdings_norm.norm_idem)

lemma seeded_good_in: "seeded_good seed a i \<in> set GOOD_IDS"
  by (simp add: seeded_good_def Let_def GOOD_IDS_eq nth_mem del: set_simps)

definition canonical_prices :: "(string, int) dict \<Rightarrow> bool" where
  "canonical_prices prices \<longleftrightarrow> set (dkeys prices) = set GOOD_IDS
     \<and> (\<forall>g \<in> set GOOD_IDS. 0 \<le> qty prices g \<and> qty prices g \<le> INITIAL_NET_WORTH_ATOMIC)"

lemma canonical_dget: "canonical_prices prices \<Longrightarrow> g \<in> set GOOD_IDS \<Longrightarrow> dget prices g = Some (qty prices g)"
  by (auto simp: canonical_prices_def qty_def map_of_eq_None_iff split: option.splits)

lemma one_unit_initial:
  assumes c: "canonical_prices prices" and g: "g \<in> set GOOD_IDS"
  shows "Portfolio_initial (INITIAL_NET_WORTH_ATOMIC - qty prices g) (dput (map (\<lambda>x. (x, 0)) GOOD_IDS) g 1) prices
     = Inr \<lparr>cash_atomic = INITIAL_NET_WORTH_ATOMIC - qty prices g,
            holdings = map (\<lambda>h. (h, if h = g then 1 else 0)) GOOD_IDS\<rparr>"
proof -
  let ?h = "dput (map (\<lambda>x. (x, 0)) GOOD_IDS) g (1::int)"
  have h: "?h = map (\<lambda>h. (h, if h = g then 1 else 0)) GOOD_IDS"
    using g by (auto simp: GOOD_IDS_eq)
  have n: "normalize_holdings ?h = Inr ?h"
    unfolding h normalize_holdings_iff by (auto simp: qty_map comp_def cong: map_cong)
  have "portfolio_value (INITIAL_NET_WORTH_ATOMIC - qty prices g) ?h prices = Inr INITIAL_NET_WORTH_ATOMIC"
  proof -
    have m: "map (\<lambda>h. qty ?h h * the (dget prices h)) GOOD_IDS = map (\<lambda>h. (if h = g then 1 else 0) * qty prices h) GOOD_IDS"
      unfolding h by (rule map_cong [OF refl]) (simp only: qty_map canonical_dget [OF c] option.sel)
    have "distinct GOOD_IDS" by (simp add: GOOD_IDS_eq)
    then have "sum_list (map (\<lambda>h. qty ?h h * the (dget prices h)) GOOD_IDS) = qty prices g"
      using g by (simp only: m sum_list_select if_True)
    then show ?thesis
      unfolding portfolio_value_iff using c g n by (simp add: canonical_prices_def)
  qed
  then show ?thesis using n h by (simp add: Portfolio_initial_def)
qed

lemma distribute_loop_ok:
  assumes c: "canonical_prices prices" and "distinct (dkeys acc @ as)"
    and "\<forall>(a, p) \<in> set acc. net_worth p prices = Inr INITIAL_NET_WORTH_ATOMIC \<and> 0 \<le> cash_atomic p
         \<and> sum_list (dvalues (holdings p)) = 1"
  shows "\<exists>ps. distribute_loop seed prices i as acc = Inr ps \<and> dkeys ps = dkeys acc @ as
     \<and> (\<forall>(a, p) \<in> set ps. net_worth p prices = Inr INITIAL_NET_WORTH_ATOMIC \<and> 0 \<le> cash_atomic p
         \<and> sum_list (dvalues (holdings p)) = 1)"
  using assms(2,3)
proof (induction as arbitrary: i acc)
  case (Cons a as)
  let ?g = "seeded_good seed a i"
  let ?p = "\<lparr>cash_atomic = INITIAL_NET_WORTH_ATOMIC - qty prices ?g,
            holdings = map (\<lambda>h. (h, if h = ?g then 1 else 0)) GOOD_IDS\<rparr>"
  note init = one_unit_initial [OF c seeded_good_in, of seed a i]
  have ok: "net_worth ?p prices = Inr INITIAL_NET_WORTH_ATOMIC \<and> 0 \<le> cash_atomic ?p
      \<and> sum_list (dvalues (holdings ?p)) = 1"
  proof -
    have "sum_list (dvalues (holdings ?p)) = 1"
      using sum_list_select [of GOOD_IDS ?g "\<lambda>_. 1"] seeded_good_in [of seed a i]
      by (simp add: comp_def GOOD_IDS_eq [THEN arg_cong, of distinct])
    then show ?thesis
      using Portfolio_initial_net_worth(1) [OF init] c seeded_good_in [of seed a i]
      by (simp add: canonical_prices_def)
  qed
  have new: "dput acc a ?p = acc @ [(a, ?p)]"
    using Cons.prems(1) by (intro update_new) auto
  have "\<exists>ps. distribute_loop seed prices (Suc i) as (acc @ [(a, ?p)]) = Inr ps \<and> dkeys ps = dkeys (acc @ [(a, ?p)]) @ as
     \<and> (\<forall>(a, p) \<in> set ps. net_worth p prices = Inr INITIAL_NET_WORTH_ATOMIC \<and> 0 \<le> cash_atomic p
         \<and> sum_list (dvalues (holdings p)) = 1)"
    using Cons.prems ok by (intro Cons.IH) auto
  then show ?case
    using init canonical_dget [OF c seeded_good_in, of seed a i] new by (simp add: Let_def)
qed auto

lemma canonical_catalogs: "canonical_prices INITIAL_PRICES" "canonical_prices EXPERIMENTAL_PRICES_V2"
  by (auto simp: canonical_prices_def INITIAL_PRICES_eq EXPERIMENTAL_PRICES_V2_def GOOD_IDS_eq qty_def INITIAL_NET_WORTH_ATOMIC_def)

text \<open>For any canonical price list whose goods each cost at most twenty gold and any
  list of different agents, the balanced allocation succeeds, has exactly one portfolio per
  agent in the order given, and every portfolio holds one unit of one good, non-negative
  cash, and is worth exactly twenty gold at those prices, whatever the seed.\<close>

theorem distribute_balanced_portfolios_equal:
  assumes "canonical_prices prices" "distinct agent_ids"
  shows "\<exists>ps. distribute_balanced_portfolios agent_ids seed prices = Inr ps \<and> dkeys ps = agent_ids
     \<and> (\<forall>(a, p) \<in> set ps. net_worth p prices = Inr INITIAL_NET_WORTH_ATOMIC \<and> 0 \<le> cash_atomic p
         \<and> sum_list (dvalues (holdings p)) = 1)"
  using distribute_loop_ok [OF assms(1), of "[]" agent_ids seed 0] assms(2)
  by (simp add: distribute_balanced_portfolios_def)

theorem distribute_balanced_portfolios_equal_witness:
  "\<exists>ps. distribute_balanced_portfolios [''a1'', ''a2''] ''seed'' INITIAL_PRICES = Inr ps \<and> dkeys ps = [''a1'', ''a2'']
     \<and> (\<forall>(a, p) \<in> set ps. net_worth p INITIAL_PRICES = Inr INITIAL_NET_WORTH_ATOMIC \<and> 0 \<le> cash_atomic p
         \<and> sum_list (dvalues (holdings p)) = 1)"
  by (rule distribute_balanced_portfolios_equal [OF canonical_catalogs(1)]) simp

end
