(* ===== verification/Arena_Market.thy ===== *)
theory Arena_Market
  imports Arena_Portfolio
begin

text \<open>
  \<open>arena_game/market.py\<close> and \<open>arena_game/liquidity.py\<close>: first-come-first-served pairing of a
  round's decision pool, and the privacy-safe liquidity summary that counts how many pairs the
  limits allow.
\<close>

section \<open>The decision pool\<close>

datatype MarketSide = Buy | Sell

record PoolEntry =
  pe_pool_entry_id :: string
  pe_game_id :: string
  pe_round_id :: string
  pe_participant_id :: string
  pe_side :: MarketSide
  pe_good :: string
  pe_entered_at :: datetime
  pe_quantity :: int
  pe_limit_price_atomic :: "int option"

definition PoolEntry_post_init :: "PoolEntry \<Rightarrow> PoolEntry result" where
  "PoolEntry_post_init e =
     (if \<not> is_aware (pe_entered_at e) then Inl (MarketError ''entered_at must include a timezone'')
      else if pe_quantity e \<le> 0 then Inl (MarketError ''pool quantity must be positive'')
      else if (case pe_limit_price_atomic e of None \<Rightarrow> False | Some p \<Rightarrow> p \<le> 0) then
        Inl (MarketError ''pool limit price must be positive'')
      else Inr e)"

record Pairing =
  pr_pairing_id :: string
  pr_game_id :: string
  pr_round_id :: string
  pr_good :: string
  pr_buyer_entry_id :: string
  pr_seller_entry_id :: string
  pr_buyer_participant_id :: string
  pr_seller_participant_id :: string
  pr_sequence :: nat
  pr_quantity :: int
  pr_buyer_limit_price_atomic :: "int option"
  pr_seller_limit_price_atomic :: "int option"

definition Pairing_post_init :: "Pairing \<Rightarrow> Pairing result" where
  "Pairing_post_init p =
     (if pr_quantity p \<le> 0 then Inl (MarketError ''pairing quantity must be positive'') else Inr p)"

definition limits_overlap :: "PoolEntry \<Rightarrow> PoolEntry \<Rightarrow> bool" where
  "limits_overlap buyer seller =
     (case (pe_limit_price_atomic buyer, pe_limit_price_atomic seller) of
        (Some b, Some s) \<Rightarrow> b \<ge> s
      | _ \<Rightarrow> True)"

section \<open>First come, first served\<close>

text \<open>The first element that satisfies a test, and the list without it
  (\<open>next(enumerate ...)\<close> followed by \<open>pop\<close>).\<close>

fun pop_first :: "('a \<Rightarrow> bool) \<Rightarrow> 'a list \<Rightarrow> ('a \<times> 'a list) option" where
  "pop_first P [] = None"
| "pop_first P (x # xs) =
     (if P x then Some (x, xs) else map_option (\<lambda>(y, ys). (y, x # ys)) (pop_first P xs))"

definition make_pairing :: "string \<Rightarrow> nat \<Rightarrow> PoolEntry \<Rightarrow> PoolEntry \<Rightarrow> Pairing" where
  "make_pairing good sequence buyer seller =
     \<lparr>pr_pairing_id = ''pair:'' @ pe_game_id buyer @ '':'' @ pe_round_id buyer @ '':'' @ good @ '':'' @ show_nat sequence,
      pr_game_id = pe_game_id buyer,
      pr_round_id = pe_round_id buyer,
      pr_good = good,
      pr_buyer_entry_id = pe_pool_entry_id buyer,
      pr_seller_entry_id = pe_pool_entry_id seller,
      pr_buyer_participant_id = pe_participant_id buyer,
      pr_seller_participant_id = pe_participant_id seller,
      pr_sequence = sequence,
      pr_quantity = min (pe_quantity buyer) (pe_quantity seller),
      pr_buyer_limit_price_atomic = pe_limit_price_atomic buyer,
      pr_seller_limit_price_atomic = pe_limit_price_atomic seller\<rparr>"

text \<open>The loop over the buyers of one good; \<open>sequence\<close> counts the pairs made so far.\<close>

fun fcfs_loop :: "string \<Rightarrow> PoolEntry list \<Rightarrow> PoolEntry list \<Rightarrow> nat \<Rightarrow> Pairing list result" where
  "fcfs_loop good [] unmatched_sellers sequence = Inr []"
| "fcfs_loop good (buyer # buyers) unmatched_sellers sequence =
     (case pop_first (limits_overlap buyer) unmatched_sellers of
        None \<Rightarrow> fcfs_loop good buyers unmatched_sellers sequence
      | Some (seller, rest) \<Rightarrow>
          if pe_participant_id buyer = pe_participant_id seller then
            Inl (MarketError ''a participant cannot trade with itself'')
          else bindR (Pairing_post_init (make_pairing good (Suc sequence) buyer seller)) (\<lambda>p.
                 bindR (fcfs_loop good buyers rest (Suc sequence)) (\<lambda>ps. Inr (p # ps))))"

definition entry_key :: "PoolEntry \<Rightarrow> int \<times> string" where
  "entry_key e = (instant (pe_entered_at e), pe_pool_entry_id e)"

definition side_queue :: "PoolEntry list \<Rightarrow> string \<Rightarrow> MarketSide \<Rightarrow> PoolEntry list" where
  "side_queue entries good side =
     sort_key entry_key (filter (\<lambda>e. pe_good e = good \<and> pe_side e = side) entries)"

definition fcfs_pair :: "PoolEntry list \<Rightarrow> Pairing list result" where
  "fcfs_pair entries =
     (if \<not> distinct (map pe_pool_entry_id entries) then Inl (MarketError ''pool entry ids must be unique'')
      else if entries = [] then Inr []
      else if length (remdups (map pe_game_id entries)) \<noteq> 1 \<or> length (remdups (map pe_round_id entries)) \<noteq> 1 then
        Inl (MarketError ''FCFS pairing accepts one game round at a time'')
      else bindR (mapR (\<lambda>good. fcfs_loop good (side_queue entries good Buy) (side_queue entries good Sell) 0)
                    [''grain'', ''iron'', ''warhorse'', ''gems''])
             (\<lambda>pss. Inr (concat pss)))"

section \<open>Liquidity\<close>

record LiquidityIntent =
  li_participant_id :: string
  li_side :: MarketSide
  li_good :: string
  li_limit_price_atomic :: int

definition LiquidityIntent_post_init :: "LiquidityIntent \<Rightarrow> LiquidityIntent result" where
  "LiquidityIntent_post_init i =
     (if li_participant_id i = [] then Inl (ValueError ''participant_id is required'')
      else bindR (require_good (li_good i)) (\<lambda>_.
        if li_limit_price_atomic i \<le> 0 then Inl (ValueError ''limit_price_atomic must be a positive integer'')
        else Inr i))"

record GoodLiquiditySummary =
  gl_buy_intent_count :: int
  gl_sell_intent_count :: int
  gl_opposite_side_capacity :: int
  gl_price_compatible_capacity :: int

record RoundLiquiditySummary =
  rl_participant_count :: int
  rl_intent_count :: int
  rl_pass_count :: int
  rl_opposite_side_capacity :: int
  rl_price_compatible_capacity :: int
  rl_by_good :: "(string, GoodLiquiditySummary) dict"

text \<open>The two-pointer walk over the sorted limits.\<close>

fun capacity_walk :: "int list \<Rightarrow> int list \<Rightarrow> nat" where
  "capacity_walk (b # bs) (s # ss) =
     (if b \<ge> s then Suc (capacity_walk bs ss) else capacity_walk bs (s # ss))"
| "capacity_walk [] ss = 0"
| "capacity_walk (b # bs) [] = 0"

definition compatible_capacity :: "int list \<Rightarrow> int list \<Rightarrow> nat" where
  "compatible_capacity buyer_limits seller_limits = capacity_walk (sort buyer_limits) (sort seller_limits)"

definition side_limits :: "LiquidityIntent list \<Rightarrow> string \<Rightarrow> MarketSide \<Rightarrow> int list" where
  "side_limits intents good side =
     map li_limit_price_atomic (filter (\<lambda>i. li_good i = good \<and> li_side i = side) intents)"

definition good_summary :: "LiquidityIntent list \<Rightarrow> string \<Rightarrow> GoodLiquiditySummary" where
  "good_summary intents good =
     (let bl = side_limits intents good Buy; sl = side_limits intents good Sell
      in \<lparr>gl_buy_intent_count = int (length bl), gl_sell_intent_count = int (length sl),
          gl_opposite_side_capacity = int (min (length bl) (length sl)),
          gl_price_compatible_capacity = int (compatible_capacity bl sl)\<rparr>)"

definition summarize_round_liquidity :: "int \<Rightarrow> LiquidityIntent list \<Rightarrow> RoundLiquiditySummary result" where
  "summarize_round_liquidity participant_count intents =
     (if participant_count < 0 then Inl (ValueError ''participant_count must be a non-negative integer'')
      else if \<not> distinct (map li_participant_id intents) then
        Inl (ValueError ''a participant may publish at most one intent'')
      else if int (length intents) > participant_count then
        Inl (ValueError ''intent count cannot exceed participant count'')
      else
        let by_good = map (\<lambda>g. (g, good_summary intents g)) GOOD_IDS
        in Inr \<lparr>rl_participant_count = participant_count,
                rl_intent_count = int (length intents),
                rl_pass_count = participant_count - int (length intents),
                rl_opposite_side_capacity = sum_list (map gl_opposite_side_capacity (dvalues by_good)),
                rl_price_compatible_capacity = sum_list (map gl_price_compatible_capacity (dvalues by_good)),
                rl_by_good = by_good\<rparr>)"

definition good_public_payload :: "GoodLiquiditySummary \<Rightarrow> json" where
  "good_public_payload s =
     JObj [(''buyIntentCount'', JInt (gl_buy_intent_count s)),
           (''sellIntentCount'', JInt (gl_sell_intent_count s)),
           (''oppositeSideCapacity'', JInt (gl_opposite_side_capacity s)),
           (''priceCompatibleCapacity'', JInt (gl_price_compatible_capacity s))]"

definition round_public_payload :: "RoundLiquiditySummary \<Rightarrow> json" where
  "round_public_payload s =
     JObj [(''schemaVersion'', JStr (ascii ''arena.market-liquidity.v1'')),
           (''participantCount'', JInt (rl_participant_count s)),
           (''intentCount'', JInt (rl_intent_count s)),
           (''passCount'', JInt (rl_pass_count s)),
           (''oppositeSideCapacity'', JInt (rl_opposite_side_capacity s)),
           (''priceCompatibleCapacity'', JInt (rl_price_compatible_capacity s)),
           (''priceCompatibilityGap'',
              JInt (rl_opposite_side_capacity s - rl_price_compatible_capacity s)),
           (''minimumUnmatchedIntentCount'',
              JInt (rl_intent_count s - 2 * rl_price_compatible_capacity s)),
           (''byGood'', JObj (map (\<lambda>g. (g, good_public_payload (the (dget (rl_by_good s) g)))) GOOD_IDS))]"

section \<open>What FCFS guarantees\<close>

text \<open>The matching of one good as a list of entry pairs, and the numbering of its pairs.\<close>


fun greedy :: "('b \<Rightarrow> 's \<Rightarrow> bool) \<Rightarrow> 'b list \<Rightarrow> 's list \<Rightarrow> ('b \<times> 's) list" where
  "greedy C [] ss = []"
| "greedy C (b # bs) ss =
     (case pop_first (C b) ss of None \<Rightarrow> greedy C bs ss | Some (s, rest) \<Rightarrow> (b, s) # greedy C bs rest)"

lemma pop_first_None: "pop_first P xs = None \<longleftrightarrow> (\<forall>x \<in> set xs. \<not> P x)"
  by (induction xs) auto

lemma pop_first_Some:
  "pop_first P xs = Some (y, ys) \<Longrightarrow> \<exists>us vs. xs = us @ y # vs \<and> ys = us @ vs \<and> P y \<and> (\<forall>u \<in> set us. \<not> P u)"
proof (induction xs arbitrary: ys)
  case (Cons x xs)
  show ?case
  proof (cases "P x")
    case True
    then show ?thesis using Cons.prems by (intro exI [of _ "[]"] exI [of _ xs]) auto
  next
    case False
    then obtain zs where z: "pop_first P xs = Some (y, zs)" "ys = x # zs" using Cons.prems by auto
    from Cons.IH [OF z(1)] obtain us vs where "xs = us @ y # vs \<and> zs = us @ vs \<and> P y \<and> (\<forall>u \<in> set us. \<not> P u)"
      by blast
    then show ?thesis using False z(2) by (intro exI [of _ "x # us"] exI [of _ vs]) auto
  qed
qed simp

lemma greedy_sound:
  "set (map fst (greedy C bs ss)) \<subseteq> set bs \<and> set (map snd (greedy C bs ss)) \<subseteq> set ss
   \<and> (\<forall>(b, s) \<in> set (greedy C bs ss). C b s)"
proof (induction bs arbitrary: ss)
  case (Cons b bs)
  show ?case
  proof (cases "pop_first (C b) ss")
    case None
    with Cons [of ss] show ?thesis by auto
  next
    case (Some p)
    obtain s rest where p: "p = (s, rest)" by (cases p)
    from Some p pop_first_Some [of "C b" ss s rest] Cons [of rest] show ?thesis by fastforce
  qed
qed simp

lemma greedy_distinct:
  assumes "distinct bs" "distinct ss"
  shows "distinct (map fst (greedy C bs ss)) \<and> distinct (map snd (greedy C bs ss))"
  using assms
proof (induction bs arbitrary: ss)
  case (Cons b bs)
  show ?case
  proof (cases "pop_first (C b) ss")
    case None
    with Cons show ?thesis by auto
  next
    case (Some p)
    obtain s rest where p: "p = (s, rest)" by (cases p)
    from pop_first_Some [of "C b" ss s rest] Some p Cons.prems have r: "distinct rest" "s \<notin> set rest" by auto
    from Cons.IH [OF _ r(1)] greedy_sound [of C bs rest] r Cons.prems Some p show ?thesis by auto
  qed
qed simp

lemma greedy_stable:
  fixes kb :: "'b \<Rightarrow> 'k :: linorder" and ks :: "'s \<Rightarrow> 'k"
  assumes "sorted_wrt (\<lambda>x y. kb x < kb y) bs" "sorted_wrt (\<lambda>x y. ks x < ks y) ss"
    and "b \<in> set bs" "s \<in> set ss" "C b s"
  shows "(\<exists>s'. (b, s') \<in> set (greedy C bs ss) \<and> ks s' \<le> ks s) \<or> (\<exists>b'. (b', s) \<in> set (greedy C bs ss) \<and> kb b' \<le> kb b)"
  using assms
proof (induction bs arbitrary: ss)
  case (Cons a bs)
  show ?case
  proof (cases "pop_first (C a) ss")
    case None
    with Cons.prems have "b \<noteq> a" by (auto simp: pop_first_None)
    with Cons.prems None Cons.IH [of ss] show ?thesis by auto
  next
    case (Some p)
    then obtain s0 us vs where p: "p = (s0, us @ vs)" and ss: "ss = us @ s0 # vs"
      and c: "C a s0" "\<forall>u \<in> set us. \<not> C a u"
      using pop_first_Some [of "C a" ss] by (cases p) blast
    have g: "greedy C (a # bs) ss = (a, s0) # greedy C bs (us @ vs)" using Some p by simp
    show ?thesis
    proof (cases "b = a")
      case True
      then have "s = s0 \<or> s \<in> set vs" using Cons.prems ss c by auto
      then have "ks s0 \<le> ks s" using Cons.prems(2) ss by (auto simp: sorted_wrt_append)
      then show ?thesis using g True by auto
    next
      case False
      then have b: "b \<in> set bs" "kb a < kb b" using Cons.prems by auto
      show ?thesis
      proof (cases "s = s0")
        case True
        then show ?thesis using g b by auto
      next
        case False
        then have "s \<in> set (us @ vs)" using Cons.prems ss by auto
        moreover have "sorted_wrt (\<lambda>x y. ks x < ks y) (us @ vs)"
          using Cons.prems(2) ss by (auto simp: sorted_wrt_append)
        ultimately show ?thesis using Cons.IH [of "us @ vs"] Cons.prems b g by auto
      qed
    qed
  qed
qed simp

fun number_pairs :: "string \<Rightarrow> nat \<Rightarrow> (PoolEntry \<times> PoolEntry) list \<Rightarrow> Pairing list" where
  "number_pairs good n [] = []"
| "number_pairs good n ((b, s) # g) = make_pairing good (Suc n) b s # number_pairs good (Suc n) g"

lemma fcfs_loop_greedy:
  assumes "fcfs_loop good bs ss n = Inr ps"
  shows "ps = number_pairs good n (greedy limits_overlap bs ss)
     \<and> (\<forall>(b, s) \<in> set (greedy limits_overlap bs ss). pe_participant_id b \<noteq> pe_participant_id s)"
  using assms
proof (induction bs arbitrary: ss n ps)
  case (Cons b bs)
  show ?case
  proof (cases "pop_first (limits_overlap b) ss")
    case None
    with Cons show ?thesis by simp
  next
    case (Some p)
    obtain s rest where p: "p = (s, rest)" by (cases p)
    with Some Cons.prems obtain qs where q: "fcfs_loop good bs rest (Suc n) = Inr qs"
      "ps = make_pairing good (Suc n) b s # qs" "pe_participant_id b \<noteq> pe_participant_id s"
      by (auto simp: result_simps Pairing_post_init_def split: if_splits)
    show ?thesis using Cons.IH [OF q(1)] q(2,3) Some p by simp
  qed
qed simp

lemma number_pairs_set:
  "p \<in> set (number_pairs good n g) \<Longrightarrow> \<exists>b s. (b, s) \<in> set g \<and> p = make_pairing good (pr_sequence p) b s \<and> n < pr_sequence p"
proof (induction good n g rule: number_pairs.induct)
  case (2 good n b s g)
  then show ?case by (fastforce simp: make_pairing_def)
qed simp

lemma number_pairs_mem:
  "(b, s) \<in> set g \<Longrightarrow> \<exists>i. make_pairing good i b s \<in> set (number_pairs good n g)"
  by (induction good n g rule: number_pairs.induct) auto

lemma number_pairs_ids:
  "map pr_buyer_entry_id (number_pairs good n g) = map (pe_pool_entry_id \<circ> fst) g"
  "map pr_seller_entry_id (number_pairs good n g) = map (pe_pool_entry_id \<circ> snd) g"
  "map pr_sequence (number_pairs good n g) = [Suc n..<Suc n + length g]"
  "length (number_pairs good n g) = length g"
proof (induction good n g rule: number_pairs.induct)
  case (2 good n b s g)
  have "[Suc n..<Suc n + length ((b, s) # g)] = Suc n # [Suc (Suc n)..<Suc (Suc n) + length g]"
    by (subst upt_rec) simp
  then show "map pr_sequence (number_pairs good n ((b, s) # g)) = [Suc n..<Suc n + length ((b, s) # g)]"
    using 2 by (simp add: make_pairing_def)
qed (simp_all add: make_pairing_def)

text \<open>The two queues of one good are strictly ordered by arrival when ids are unique.\<close>

lemma side_queue_set: "e \<in> set (side_queue es g sd) \<longleftrightarrow> e \<in> set es \<and> pe_good e = g \<and> pe_side e = sd"
  by (auto simp: side_queue_def)

lemma side_queue_sorted:
  assumes "distinct (map pe_pool_entry_id es)"
  shows "sorted_wrt (\<lambda>x y. entry_key x < entry_key y) (side_queue es g sd)" "distinct (side_queue es g sd)"
proof -
  let ?q = "side_queue es g sd"
  have d: "distinct es" using assms by (simp add: distinct_map)
  then show dq: "distinct ?q" by (simp add: side_queue_def)
  have "inj_on entry_key (set es)"
    using assms by (auto simp: distinct_map inj_on_def entry_key_def)
  then have "inj_on entry_key (set ?q)" by (rule inj_on_subset) (auto simp: side_queue_set)
  with dq have "distinct (map entry_key ?q)" by (simp add: distinct_map)
  moreover have "sorted (map entry_key ?q)" by (simp add: side_queue_def)
  ultimately have "sorted_wrt (<) (map entry_key ?q)" by (simp add: strict_sorted_iff)
  then show "sorted_wrt (\<lambda>x y. entry_key x < entry_key y) ?q" by (simp add: sorted_wrt_map)
qed

definition good_match :: "PoolEntry list \<Rightarrow> string \<Rightarrow> (PoolEntry \<times> PoolEntry) list" where
  "good_match es g = greedy limits_overlap (side_queue es g Buy) (side_queue es g Sell)"

lemma remdups_single:
  assumes "length (remdups (map f es)) = 1" "e \<in> set es" "e' \<in> set es"
  shows "f e = f e'"
proof -
  obtain x where "remdups (map f es) = [x]" using assms(1) by (auto simp: length_Suc_conv)
  then have "f ` set es = {x}" by (metis list.set(1) list.simps(15) set_map set_remdups)
  then show ?thesis using assms(2,3) by (metis imageI singletonD)
qed

lemma fcfs_pair_match:
  assumes "fcfs_pair es = Inr ps"
  shows "distinct (map pe_pool_entry_id es)"
    "ps = concat (map (\<lambda>g. number_pairs g 0 (good_match es g)) GOOD_IDS)"
    "g \<in> set GOOD_IDS \<Longrightarrow> (b, s) \<in> set (good_match es g) \<Longrightarrow> pe_participant_id b \<noteq> pe_participant_id s"
    "e \<in> set es \<Longrightarrow> e' \<in> set es \<Longrightarrow> pe_game_id e = pe_game_id e' \<and> pe_round_id e = pe_round_id e'"
proof -
  show "distinct (map pe_pool_entry_id es)"
    using assms by (auto simp: fcfs_pair_def split: if_splits)
  have one: "e \<in> set es \<Longrightarrow> length (remdups (map pe_game_id es)) = 1 \<and> length (remdups (map pe_round_id es)) = 1" for e
    using assms by (auto simp: fcfs_pair_def split: if_splits)
  show "e \<in> set es \<Longrightarrow> e' \<in> set es \<Longrightarrow> pe_game_id e = pe_game_id e' \<and> pe_round_id e = pe_round_id e'"
    using one [of e] remdups_single [of pe_game_id es e e'] remdups_single [of pe_round_id es e e'] by simp
  have "\<exists>pss. list_all2 (\<lambda>g p. fcfs_loop g (side_queue es g Buy) (side_queue es g Sell) 0 = Inr p) GOOD_IDS pss
      \<and> ps = concat pss"
  proof (cases "es = []")
    case True
    then show ?thesis using assms
      by (intro exI [of _ "map (\<lambda>_. []) GOOD_IDS"]) (simp add: fcfs_pair_def side_queue_def GOOD_IDS_eq)
  next
    case False
    then show ?thesis using assms
      by (auto simp: fcfs_pair_def bindR_Inr_iff mapR_Inr_iff GOOD_IDS_eq [symmetric] split: if_splits)
  qed
  then obtain pss where l: "list_all2 (\<lambda>g p. fcfs_loop g (side_queue es g Buy) (side_queue es g Sell) 0 = Inr p) GOOD_IDS pss"
    "ps = concat pss" by blast
  have "list_all2 (\<lambda>g p. p = number_pairs g 0 (good_match es g)
      \<and> (\<forall>(b, s) \<in> set (good_match es g). pe_participant_id b \<noteq> pe_participant_id s)) GOOD_IDS pss"
    using l(1) by (rule list_all2_mono) (unfold good_match_def, rule fcfs_loop_greedy)
  then have "pss = map (\<lambda>g. number_pairs g 0 (good_match es g)) GOOD_IDS
    \<and> (\<forall>g \<in> set GOOD_IDS. \<forall>(b, s) \<in> set (good_match es g). pe_participant_id b \<noteq> pe_participant_id s)"
    by (induction rule: list_all2_induct) auto
  then show "ps = concat (map (\<lambda>g. number_pairs g 0 (good_match es g)) GOOD_IDS)"
    "g \<in> set GOOD_IDS \<Longrightarrow> (b, s) \<in> set (good_match es g) \<Longrightarrow> pe_participant_id b \<noteq> pe_participant_id s"
    using l(2) by auto
qed


lemma good_match_pair:
  assumes "(b, s) \<in> set (good_match es g)"
  shows "b \<in> set es" "s \<in> set es" "pe_good b = g" "pe_good s = g" "pe_side b = Buy" "pe_side s = Sell" "limits_overlap b s"
proof -
  have "b \<in> set (side_queue es g Buy)" "s \<in> set (side_queue es g Sell)" "limits_overlap b s"
    using greedy_sound [of limits_overlap "side_queue es g Buy" "side_queue es g Sell"] assms
    by (force simp: good_match_def)+
  then show "b \<in> set es" "s \<in> set es" "pe_good b = g" "pe_good s = g" "pe_side b = Buy" "pe_side s = Sell" "limits_overlap b s"
    by (simp_all add: side_queue_set)
qed

lemma fcfs_pair_mem:
  assumes "fcfs_pair es = Inr ps"
  shows "p \<in> set ps \<longleftrightarrow> (\<exists>g \<in> set GOOD_IDS. p \<in> set (number_pairs g 0 (good_match es g)))"
  using fcfs_pair_match(2) [OF assms] by auto

text \<open>Every pairing that FCFS produces joins one buy entry and one sell entry of the
  pool for the same good, of different participants, whose limits overlap; it carries their ids,
  their limits, the smaller of the two quantities and the pool's game and round.\<close>

theorem fcfs_pair_valid:
  assumes "fcfs_pair es = Inr ps" "p \<in> set ps"
  shows "\<exists>b \<in> set es. \<exists>s \<in> set es. p = make_pairing (pr_good p) (pr_sequence p) b s
     \<and> pe_side b = Buy \<and> pe_side s = Sell \<and> pe_good b = pr_good p \<and> pe_good s = pr_good p
     \<and> pe_participant_id b \<noteq> pe_participant_id s \<and> limits_overlap b s
     \<and> pe_game_id s = pr_game_id p \<and> pe_round_id s = pr_round_id p"
proof -
  obtain g where g: "g \<in> set GOOD_IDS" "p \<in> set (number_pairs g 0 (good_match es g))"
    using assms fcfs_pair_mem by blast
  from number_pairs_set [OF this(2)] obtain b s
    where m: "(b, s) \<in> set (good_match es g)" and p: "p = make_pairing g (pr_sequence p) b s" by blast
  have "pr_good p = g" "pr_game_id p = pe_game_id b" "pr_round_id p = pe_round_id b"
    by (subst p, simp add: make_pairing_def)+
  with p good_match_pair [OF m] fcfs_pair_match(3) [OF assms(1) g(1) m]
    fcfs_pair_match(4) [OF assms(1) good_match_pair(2) [OF m] good_match_pair(1) [OF m]] show ?thesis by metis
qed

lemma distinct_concat_map:
  assumes "distinct gs" "\<And>g. g \<in> set gs \<Longrightarrow> distinct (f g)"
    and "\<And>g h x. g \<in> set gs \<Longrightarrow> h \<in> set gs \<Longrightarrow> x \<in> set (f g) \<Longrightarrow> x \<in> set (f h) \<Longrightarrow> g = h"
  shows "distinct (concat (map f gs))"
  using assms
proof (induction gs)
  case (Cons g gs)
  then have "set (f g) \<inter> set (concat (map f gs)) = {}" by fastforce
  with Cons show ?case by simp
qed simp

lemma fcfs_entry_ids:
  assumes "fcfs_pair es = Inr ps"
  shows "distinct (map pr_buyer_entry_id ps)" "distinct (map pr_seller_entry_id ps)"
proof -
  have inj: "inj_on pe_pool_entry_id (set es)"
    using fcfs_pair_match(1) [OF assms] by (simp add: distinct_map)
  have d: "distinct (map fst (good_match es g))" "distinct (map snd (good_match es g))" for g
    using greedy_distinct [of "side_queue es g Buy" "side_queue es g Sell" limits_overlap]
      side_queue_sorted(2) [OF fcfs_pair_match(1) [OF assms]] by (simp_all add: good_match_def)
  have di: "distinct GOOD_IDS" by (simp add: GOOD_IDS_eq)
  note m = good_match_pair
  let ?b = "concat (map (\<lambda>g. map fst (good_match es g)) GOOD_IDS)"
  let ?s = "concat (map (\<lambda>g. map snd (good_match es g)) GOOD_IDS)"
  have "distinct ?b" by (rule distinct_concat_map [OF di d(1)]) (auto, metis m(3))
  moreover have "set ?b \<subseteq> set es" by (auto dest: m)
  ultimately have "distinct (map pe_pool_entry_id ?b)" using inj by (simp add: distinct_map inj_on_subset)
  then show "distinct (map pr_buyer_entry_id ps)"
    by (simp add: fcfs_pair_match(2) [OF assms] map_concat comp_def number_pairs_ids)
  have "distinct ?s" by (rule distinct_concat_map [OF di d(2)]) (auto, metis m(4))
  moreover have "set ?s \<subseteq> set es" by (auto dest: m)
  ultimately have "distinct (map pe_pool_entry_id ?s)" using inj by (simp add: distinct_map inj_on_subset)
  then show "distinct (map pr_seller_entry_id ps)"
    by (simp add: fcfs_pair_match(2) [OF assms] map_concat comp_def number_pairs_ids)
qed

lemma pairing_id_inj:
  assumes "g \<in> set GOOD_IDS" "h \<in> set GOOD_IDS" "g @ '':'' @ show_nat m = h @ '':'' @ show_nat n"
  shows "g = h \<and> m = n"
  using assms by (auto simp: GOOD_IDS_eq)

lemma fcfs_pairing_ids:
  assumes "fcfs_pair es = Inr ps"
  shows "distinct (map pr_pairing_id ps)"
proof -
  have id: "\<exists>pre. \<forall>g n p. p \<in> set (number_pairs g 0 (good_match es g)) \<longrightarrow> pr_pairing_id p = pre @ g @ '':'' @ show_nat (pr_sequence p)"
  proof (cases es)
    case Nil
    then show ?thesis by (simp add: good_match_def side_queue_def)
  next
    case (Cons e es')
    have "pr_pairing_id p = (''pair:'' @ pe_game_id e @ '':'' @ pe_round_id e @ '':'') @ g @ '':'' @ show_nat (pr_sequence p)"
      if "p \<in> set (number_pairs g 0 (good_match es g))" for p g
    proof -
      from number_pairs_set [OF that] obtain b s where "(b, s) \<in> set (good_match es g)" 
        and p: "p = make_pairing g (pr_sequence p) b s" by blast
      then have "b \<in> set es" by (blast dest: good_match_pair)
      then have "pe_game_id b = pe_game_id e" "pe_round_id b = pe_round_id e"
        using fcfs_pair_match(4) [OF assms, of b e] Cons by auto
      then show ?thesis by (subst p) (simp add: make_pairing_def)
    qed
    then show ?thesis by blast
  qed
  then obtain pre where pre: "\<And>g p. p \<in> set (number_pairs g 0 (good_match es g)) \<Longrightarrow>
      pr_pairing_id p = pre @ g @ '':'' @ show_nat (pr_sequence p)" by metis
  have "map pr_pairing_id (number_pairs g 0 (good_match es g))
      = map (\<lambda>n. pre @ g @ '':'' @ show_nat n) (map pr_sequence (number_pairs g 0 (good_match es g)))" for g
    using pre by (simp add: comp_def cong: map_cong)
  then have eq: "map pr_pairing_id ps = concat (map (\<lambda>g. map (\<lambda>n. pre @ g @ '':'' @ show_nat n) [1..<Suc (length (good_match es g))]) GOOD_IDS)"
    by (simp add: fcfs_pair_match(2) [OF assms] map_concat comp_def number_pairs_ids)
  show ?thesis unfolding eq
  proof (rule distinct_concat_map)
    show "distinct GOOD_IDS" by (simp add: GOOD_IDS_eq)
    show "distinct (map (\<lambda>n. pre @ g @ '':'' @ show_nat n) [1..<Suc (length (good_match es g))])" for g
      by (auto simp: distinct_map inj_on_def)
  qed (auto dest: pairing_id_inj)
qed

text \<open>FCFS uses every pool entry at most once: within one round the pairing ids, the
  buyer entries and the seller entries of its result are pairwise different, and no entry
  is a buyer in one pair and a seller in another.\<close>

theorem fcfs_pair_once:
  assumes "fcfs_pair es = Inr ps"
  shows "distinct (map pr_pairing_id ps) \<and> distinct (map pr_buyer_entry_id ps @ map pr_seller_entry_id ps)"
proof -
  have "pr_buyer_entry_id p \<noteq> pr_seller_entry_id q" if pq: "p \<in> set ps" "q \<in> set ps" for p q
  proof -
    obtain g b s where p: "(b, s) \<in> set (good_match es g)" "pr_buyer_entry_id p = pe_pool_entry_id b"
      using pq(1) assms fcfs_pair_mem number_pairs_set by (metis make_pairing_def Pairing.select_convs(5))
    obtain h c t where q: "(c, t) \<in> set (good_match es h)" "pr_seller_entry_id q = pe_pool_entry_id t"
      using pq(2) assms fcfs_pair_mem number_pairs_set by (metis make_pairing_def Pairing.select_convs(6))
    have "b \<noteq> t" using good_match_pair [OF p(1)] good_match_pair [OF q(1)] by auto
    then show ?thesis
      using fcfs_pair_match(1) [OF assms] good_match_pair(1) [OF p(1)] good_match_pair(2) [OF q(1)] p(2) q(2)
      by (auto simp: distinct_map inj_on_def)
  qed
  then show ?thesis using fcfs_pairing_ids [OF assms] fcfs_entry_ids [OF assms] by auto
qed

text \<open>Property C8: FCFS is stable under arrival priority. If a buyer and a seller of one round want
  the same good at overlapping limits, then the buyer is paired with a seller who arrived no later
  than this one, or the seller is paired with a buyer who arrived no later than that one.
  In particular no overlapping pair is left with both sides unmatched.\<close>

theorem fcfs_pair_stable:
  assumes "fcfs_pair es = Inr ps" "b \<in> set es" "s \<in> set es" "pe_side b = Buy" "pe_side s = Sell"
    "pe_good b = g" "pe_good s = g" "g \<in> set GOOD_IDS" "limits_overlap b s"
  shows "\<exists>p \<in> set ps.
     (pr_buyer_entry_id p = pe_pool_entry_id b \<and> (\<exists>s' \<in> set es. pr_seller_entry_id p = pe_pool_entry_id s' \<and> entry_key s' \<le> entry_key s))
   \<or> (pr_seller_entry_id p = pe_pool_entry_id s \<and> (\<exists>b' \<in> set es. pr_buyer_entry_id p = pe_pool_entry_id b' \<and> entry_key b' \<le> entry_key b))"
proof -
  note q = side_queue_sorted(1) [OF fcfs_pair_match(1) [OF assms(1)]]
  have "(\<exists>s'. (b, s') \<in> set (good_match es g) \<and> entry_key s' \<le> entry_key s)
      \<or> (\<exists>b'. (b', s) \<in> set (good_match es g) \<and> entry_key b' \<le> entry_key b)"
    unfolding good_match_def by (rule greedy_stable [OF q q]) (use assms in \<open>simp_all add: side_queue_set\<close>)
  then obtain b' s' where m: "(b', s') \<in> set (good_match es g)"
    and c: "b' = b \<and> entry_key s' \<le> entry_key s \<or> s' = s \<and> entry_key b' \<le> entry_key b" by blast
  from number_pairs_mem [OF m, of g 0] obtain i where "make_pairing g i b' s' \<in> set ps"
    using fcfs_pair_mem [OF assms(1)] assms(8) by blast
  moreover have "pr_buyer_entry_id (make_pairing g i b' s') = pe_pool_entry_id b'"
    "pr_seller_entry_id (make_pairing g i b' s') = pe_pool_entry_id s'" by (simp_all add: make_pairing_def)
  ultimately show ?thesis using c good_match_pair(1,2) [OF m] by metis
qed



section \<open>Matching capacity\<close>

definition price_matching :: "int list \<Rightarrow> int list \<Rightarrow> (int \<times> int) list \<Rightarrow> bool" where
  "price_matching bs ss m \<longleftrightarrow> mset (map fst m) \<subseteq># mset bs \<and> mset (map snd m) \<subseteq># mset ss
     \<and> (\<forall>(b, s) \<in> set m. s \<le> b)"

definition cut :: "int list \<Rightarrow> int list \<Rightarrow> int \<Rightarrow> nat" where
  "cut bs ss t = length (filter (\<lambda>b. t \<le> b) bs) + length (filter (\<lambda>s. s < t) ss)"

lemma filter_size_mono: "mset xs \<subseteq># mset ys \<Longrightarrow> length (filter P xs) \<le> length (filter P ys)"
  by (metis mset_filter multiset_filter_mono size_mset size_mset_mono)

lemma price_matching_cut:
  assumes "price_matching bs ss m"
  shows "length m \<le> cut bs ss t"
proof -
  have s: "\<forall>p \<in> set m. snd p \<le> fst p" using assms by (auto simp: price_matching_def)
  have "length m \<le> length (filter (\<lambda>b. t \<le> b) (map fst m)) + length (filter (\<lambda>s. s < t) (map snd m))"
    using s by (induction m) auto
  also have "\<dots> \<le> cut bs ss t"
    unfolding cut_def using assms by (intro add_mono filter_size_mono) (auto simp: price_matching_def)
  finally show ?thesis .
qed

lemma capacity_walk_cut_le: "capacity_walk bs ss \<le> cut bs ss t"
  by (induction bs ss rule: capacity_walk.induct) (auto simp: cut_def)

lemma cut_sort: "cut (sort bs) (sort ss) t = cut bs ss t"
  by (simp add: cut_def filter_sort)

lemma capacity_walk_matching: "\<exists>m. price_matching bs ss m \<and> length m = capacity_walk bs ss"
proof (induction bs ss rule: capacity_walk.induct)
  case (1 b bs s ss)
  show ?case
  proof (cases "s \<le> b")
    case True
    with 1(1) obtain m where "price_matching bs ss m" "length m = capacity_walk bs ss" by auto
    then show ?thesis using True by (intro exI [of _ "(b, s) # m"]) (auto simp: price_matching_def)
  next
    case False
    with 1(2) obtain m where "price_matching bs (s # ss) m" "length m = capacity_walk bs (s # ss)" by auto
    then show ?thesis using False
      by (intro exI [of _ m]) (auto simp: price_matching_def intro: subset_mset.order_trans)
  qed
qed (auto simp: price_matching_def)

lemma capacity_walk_attains:
  assumes "sorted bs" "sorted ss"
  shows "\<exists>t. capacity_walk bs ss = cut bs ss t"
  using assms
proof (induction bs ss rule: capacity_walk.induct)
  case (1 b bs s ss)
  have bs: "\<forall>x \<in> set bs. b \<le> x" and ss: "\<forall>x \<in> set ss. s \<le> x" using 1(3,4) by auto
  have all: "t \<le> b \<Longrightarrow> filter (\<lambda>x. t \<le> x) bs = bs" "t \<le> s \<Longrightarrow> filter (\<lambda>x. x < t) ss = []" for t
    using bs ss by (auto simp: filter_id_conv filter_empty_conv)
  show ?case
  proof (cases "s \<le> b")
    case True
    with 1 obtain t where t: "capacity_walk bs ss = cut bs ss t" by auto
    show ?thesis
    proof (cases "s < t \<and> t \<le> b")
      case False
      then show ?thesis using t True by (intro exI [of _ t]) (auto simp: cut_def)
    next
      case t': True
      have "capacity_walk bs ss \<le> length bs"
        using capacity_walk_cut_le [of bs ss s] True all [of s] by (simp add: cut_def)
      then have "capacity_walk bs ss = length bs" using t t' all [of t] by (simp add: cut_def)
      then show ?thesis using True all [of s] by (intro exI [of _ s]) (simp add: cut_def)
    qed
  next
    case False
    with 1 obtain t where t: "capacity_walk bs (s # ss) = cut bs (s # ss) t" by auto
    show ?thesis
    proof (cases "t \<le> b")
      case t': False
      then show ?thesis using t False by (intro exI [of _ t]) (auto simp: cut_def)
    next
      case True
      have "capacity_walk bs (s # ss) = length bs" using t True False all [of t] by (simp add: cut_def)
      moreover have "capacity_walk bs (s # ss) \<le> length (filter (\<lambda>x. s \<le> x) bs)"
        using capacity_walk_cut_le [of bs "s # ss" s] all(2) [of s] by (simp add: cut_def)
      ultimately have "filter (\<lambda>x. s \<le> x) bs = bs"
        by (metis (no_types, lifting) filter_id_conv length_filter_less linorder_not_less)
      then show ?thesis using False \<open>capacity_walk bs (s # ss) = length bs\<close> all(2) [of s]
        by (intro exI [of _ s]) (simp add: cut_def)
    qed
  qed
next
  case (2 ss)
  show ?case
    using 2 by (intro exI [of _ "case ss of [] \<Rightarrow> 0 | s # _ \<Rightarrow> s"]) (auto simp: cut_def filter_empty_conv not_less split: list.splits)
next
  case (3 b bs)
  show ?case
    by (intro exI [of _ "Max (set (b # bs)) + 1"]) (auto simp: cut_def filter_empty_conv not_le intro: Max_ge order.strict_trans1)
qed


lemma compatible_capacity_cut: "compatible_capacity bs ss \<le> cut bs ss t"
  using capacity_walk_cut_le [of "sort bs" "sort ss" t] by (simp add: compatible_capacity_def cut_sort)

text \<open>Property C12: the two-pointer count of the liquidity summary is the size of a maximum matching
  of buyer limits with seller limits: some set of disjoint pairs with seller limit at most
  buyer limit has that many pairs, and no such set has more.\<close>

theorem compatible_capacity_maximum:
  "(\<exists>m. price_matching bs ss m \<and> length m = compatible_capacity bs ss)
   \<and> (\<forall>m. price_matching bs ss m \<longrightarrow> length m \<le> compatible_capacity bs ss)"
proof -
  have sort: "price_matching (sort bs) (sort ss) m = price_matching bs ss m" for m
    by (simp add: price_matching_def)
  obtain t where t: "compatible_capacity bs ss = cut bs ss t"
    using capacity_walk_attains [of "sort bs" "sort ss"] by (auto simp: compatible_capacity_def cut_sort)
  show ?thesis
    using capacity_walk_matching [of "sort bs" "sort ss"] price_matching_cut [of bs ss _ t] t
    by (auto simp: sort compatible_capacity_def)
qed

theorem compatible_capacity_maximum_witness:
  "compatible_capacity [3, 5] [4, 6] = 1 \<and> length [(5, 4) :: int \<times> int] \<le> compatible_capacity [3, 5] [4, 6]"
proof -
  have "price_matching [3, 5] [4, 6] [(5, 4)]" by (simp add: price_matching_def)
  with compatible_capacity_maximum [of "[3, 5]" "[4, 6]"] show ?thesis
    by (simp add: compatible_capacity_def)
qed

lemma greedy_sub: "mset (map fst (greedy C bs ss)) \<subseteq># mset bs" "mset (map snd (greedy C bs ss)) \<subseteq># mset ss"
proof (induction C bs ss rule: greedy.induct)
  case (2 C b bs ss)
  have c: "mset (map fst (greedy C (b # bs) ss)) \<subseteq># mset (b # bs) \<and> mset (map snd (greedy C (b # bs) ss)) \<subseteq># mset ss"
  proof (cases "pop_first (C b) ss")
    case None
    with 2(1,2) show ?thesis by (auto intro: subset_mset.order_trans)
  next
    case (Some p)
    obtain s rest where p: "p = (s, rest)" by (cases p)
    from pop_first_Some [of "C b" ss s rest] Some p have "mset ss = add_mset s (mset rest)" by auto
    with 2(3) [OF Some p [symmetric]] 2(4) [OF Some p [symmetric]] Some p show ?thesis by simp
  qed
  { case 1 show ?case using c by simp next case 2 show ?case using c by simp }
qed simp_all

definition limit :: "PoolEntry \<Rightarrow> int" where
  "limit e = the (pe_limit_price_atomic e)"

lemma good_match_capacity:
  assumes "\<forall>e \<in> set es. pe_limit_price_atomic e \<noteq> None"
  shows "length (good_match es g) \<le> compatible_capacity (map limit (side_queue es g Buy)) (map limit (side_queue es g Sell))"
proof -
  let ?m = "map (\<lambda>(b, s). (limit b, limit s)) (good_match es g)"
  have "limit s \<le> limit b" if "(b, s) \<in> set (good_match es g)" for b s
    using good_match_pair [OF that] bspec [OF assms, of b] bspec [OF assms, of s] by (auto simp: limits_overlap_def limit_def)
  moreover have "mset (map limit (map fst (good_match es g))) \<subseteq># mset (map limit (side_queue es g Buy))"
    "mset (map limit (map snd (good_match es g))) \<subseteq># mset (map limit (side_queue es g Sell))"
    unfolding mset_map good_match_def by (intro image_mset_subseteq_mono greedy_sub [unfolded mset_map])+
  ultimately have "price_matching (map limit (side_queue es g Buy)) (map limit (side_queue es g Sell)) ?m"
    by (auto simp: price_matching_def comp_def case_prod_beta)
  then obtain t where "length ?m \<le> compatible_capacity (map limit (side_queue es g Buy)) (map limit (side_queue es g Sell))"
    using capacity_walk_attains [of "sort (map limit (side_queue es g Buy))" "sort (map limit (side_queue es g Sell))"]
      price_matching_cut [of _ _ ?m] by (auto simp: compatible_capacity_def cut_sort)
  then show ?thesis by simp
qed

lemma good_match_half:
  assumes d: "distinct (map pe_pool_entry_id es)" and l: "\<forall>e \<in> set es. pe_limit_price_atomic e \<noteq> None"
  shows "compatible_capacity (map limit (side_queue es g Buy)) (map limit (side_queue es g Sell)) \<le> 2 * length (good_match es g)"
proof -
  let ?B = "side_queue es g Buy" and ?S = "side_queue es g Sell" and ?m = "good_match es g"
  note q = side_queue_sorted [OF d]
  have max: "b \<in> fst ` set ?m \<or> s \<in> snd ` set ?m" if "b \<in> set ?B" "s \<in> set ?S" "limit s \<le> limit b" for b s
  proof -
    have "limits_overlap b s" using that(3) by (auto simp: limits_overlap_def limit_def split: option.splits)
    from greedy_stable [OF q(1) q(1) that(1,2), of limits_overlap, OF this] show ?thesis
      unfolding good_match_def by force
  qed
  let ?U = "filter (\<lambda>s. s \<notin> snd ` set ?m) ?S"
  define t where "t = (if ?U = [] then Max (insert 0 (limit ` set ?B)) + 1 else Min (limit ` set ?U))"
  have bt: "b \<in> fst ` set ?m" if "b \<in> set ?B" "t \<le> limit b" for b
  proof (cases "?U = []")
    case True
    have "limit b \<le> Max (insert 0 (limit ` set ?B))" using that(1) by (intro Max_ge) auto
    then show ?thesis using that(2) True by (simp add: t_def)
  next
    case False
    then have "Min (limit ` set ?U) \<in> limit ` set ?U" by (metis Min_in List.finite_set finite_imageI image_is_empty set_empty)
    then obtain u where "u \<in> set ?U" "t = limit u" using False by (auto simp: t_def)
    then show ?thesis using max [OF that(1), of u] that(2) by auto
  qed
  have st: "s \<in> snd ` set ?m" if "s \<in> set ?S" "limit s < t" for s
  proof (rule ccontr)
    assume n: "s \<notin> snd ` set ?m"
    with that(1) have u: "s \<in> set ?U" by simp
    then have "?U \<noteq> []" by (metis list.set(1) empty_iff)
    then have "t = Min (limit ` set ?U)" by (simp only: t_def if_False)
    also have "\<dots> \<le> limit s" using u by (intro Min_le imageI finite_imageI finite_set)
    finally show False using that(2) by simp
  qed
  have "length (filter (\<lambda>b. t \<le> limit b) ?B) = card (set (filter (\<lambda>b. t \<le> limit b) ?B))"
    by (intro distinct_card [symmetric] distinct_filter q(2))
  also have "\<dots> \<le> card (fst ` set ?m)" using bt by (intro card_mono) auto
  also have "\<dots> \<le> length ?m" by (meson card_image_le card_length finite_set le_trans)
  finally have 1: "length (filter (\<lambda>b. t \<le> limit b) ?B) \<le> length ?m" .
  have "length (filter (\<lambda>s. limit s < t) ?S) = card (set (filter (\<lambda>s. limit s < t) ?S))"
    by (intro distinct_card [symmetric] distinct_filter q(2))
  also have "\<dots> \<le> card (snd ` set ?m)" using st by (intro card_mono) auto
  also have "\<dots> \<le> length ?m" by (meson card_image_le card_length finite_set le_trans)
  finally have 2: "length (filter (\<lambda>s. limit s < t) ?S) \<le> length ?m" .
  from 1 2 compatible_capacity_cut [of "map limit ?B" "map limit ?S" t] show ?thesis
    by (simp add: cut_def filter_map comp_def)
qed

lemma fcfs_good_count:
  assumes "fcfs_pair es = Inr ps" "g \<in> set GOOD_IDS"
  shows "length (filter (\<lambda>p. pr_good p = g) ps) = length (good_match es g)"
proof -
  have f: "filter (\<lambda>p. pr_good p = g) (number_pairs h n m) = (if h = g then number_pairs h n m else [])" for h n m
    by (induction h n m rule: number_pairs.induct) (auto simp: make_pairing_def)
  have "filter (\<lambda>p. pr_good p = g) (concat (map (\<lambda>g. number_pairs g 0 (good_match es g)) gs)) = number_pairs g 0 (good_match es g)"
    if "distinct gs" "g \<in> set gs" for gs using that
    by (induction gs) (auto simp: f filter_concat comp_def)
  from this [of GOOD_IDS] assms(2) show ?thesis
    by (simp add: fcfs_pair_match(2) [OF assms(1)] number_pairs_ids GOOD_IDS_eq)
qed

text \<open>When every pool entry has a limit, the number of pairs FCFS makes for a good is
  at most the price-compatible capacity that the liquidity module computes from the same limits, and
  at least half of it.\<close>

theorem fcfs_pair_capacity:
  assumes "fcfs_pair es = Inr ps" "\<forall>e \<in> set es. pe_limit_price_atomic e \<noteq> None" "g \<in> set GOOD_IDS"
  defines "k \<equiv> compatible_capacity (map limit (side_queue es g Buy)) (map limit (side_queue es g Sell))"
    and "n \<equiv> length (filter (\<lambda>p. pr_good p = g) ps)"
  shows "n \<le> k \<and> k \<le> 2 * n"
  using good_match_capacity [OF assms(2)] good_match_half [OF fcfs_pair_match(1) [OF assms(1)] assms(2)]
  by (simp add: k_def n_def fcfs_good_count [OF assms(1,3)])


text \<open>A small round for the witnesses: two iron buyers and two iron sellers.\<close>

definition demo_entry :: "string \<Rightarrow> MarketSide \<Rightarrow> int \<Rightarrow> int \<Rightarrow> PoolEntry" where
  "demo_entry i sd t l = \<lparr>pe_pool_entry_id = i, pe_game_id = ''g'', pe_round_id = ''r'', pe_participant_id = ''p'' @ i,
     pe_side = sd, pe_good = ''iron'', pe_entered_at = Aware t, pe_quantity = 1, pe_limit_price_atomic = Some l\<rparr>"

definition demo_round :: "PoolEntry list" where
  "demo_round = [demo_entry ''d'' Sell 4 3, demo_entry ''a'' Buy 1 2, demo_entry ''b'' Buy 2 5, demo_entry ''c'' Sell 3 4]"

lemma fcfs_demo_round:
  "fcfs_pair demo_round = Inr [make_pairing ''iron'' 1 (demo_entry ''b'' Buy 2 5) (demo_entry ''c'' Sell 3 4)]"
  by (simp add: fcfs_pair_def demo_round_def demo_entry_def side_queue_def entry_key_def limits_overlap_def
      Pairing_post_init_def make_pairing_def)

theorem fcfs_pair_valid_witness:
  "\<exists>b \<in> set demo_round. \<exists>s \<in> set demo_round.
     pe_side b = Buy \<and> pe_side s = Sell \<and> pe_participant_id b \<noteq> pe_participant_id s \<and> limits_overlap b s"
  using fcfs_pair_valid [OF fcfs_demo_round, of "make_pairing ''iron'' 1 (demo_entry ''b'' Buy 2 5) (demo_entry ''c'' Sell 3 4)"]
  by fastforce

theorem fcfs_pair_once_witness:
  "distinct (map pr_pairing_id [make_pairing ''iron'' 1 (demo_entry ''b'' Buy 2 5) (demo_entry ''c'' Sell 3 4)])"
  using fcfs_pair_once [OF fcfs_demo_round] by blast

theorem fcfs_pair_stable_witness:
  "\<exists>p \<in> set [make_pairing ''iron'' 1 (demo_entry ''b'' Buy 2 5) (demo_entry ''c'' Sell 3 4)].
     pr_buyer_entry_id p = ''b'' \<or> pr_seller_entry_id p = ''d''"
  using fcfs_pair_stable [OF fcfs_demo_round, of "demo_entry ''b'' Buy 2 5" "demo_entry ''d'' Sell 4 3" "''iron''"]
  by (simp add: demo_round_def GOOD_IDS_eq limits_overlap_def) (simp add: demo_entry_def make_pairing_def)

theorem fcfs_pair_capacity_witness:
  "compatible_capacity (map limit (side_queue demo_round ''iron'' Buy)) (map limit (side_queue demo_round ''iron'' Sell)) \<le> 2 * 1"
proof -
  have "\<forall>e \<in> set demo_round. pe_limit_price_atomic e \<noteq> None" by (simp add: demo_round_def demo_entry_def)
  from fcfs_pair_capacity [OF fcfs_demo_round this, of "''iron''"] show ?thesis
    by (simp add: GOOD_IDS_eq make_pairing_def)
qed

end
