(* ===== verification/Arena_Negotiation.thy ===== *)
theory Arena_Negotiation
  imports Arena_Portfolio
begin

text \<open>
  \<open>arena_game/negotiation.py\<close> (the bounded two-party negotiation), \<open>arena_game/rule_runtime.py\<close>
  (the deterministic built-in agent) and the loop of \<open>arena_game/postgres.py\<close> that lets two rule
  runtimes negotiate until the negotiation is terminal.
\<close>

section \<open>The negotiation state machine\<close>

datatype NegotiationRole = Buyer | Seller

datatype NegotiationActionKind = Propose | Accept | Reject

datatype NegotiationStatus =
    ACTIVE | ACCEPTED_PENDING_SETTLEMENT | SETTLED | SETTLEMENT_FAILED | REJECTED | TIMEOUT

definition terminal :: "NegotiationStatus \<Rightarrow> bool" where
  "terminal st \<longleftrightarrow> st \<noteq> ACTIVE"

record NegotiationAction =
  na_action :: NegotiationActionKind
  na_price_atomic :: "int option"
  na_message :: "utext option"

definition NegotiationAction_post_init :: "NegotiationAction \<Rightarrow> NegotiationAction result" where
  "NegotiationAction_post_init a =
     (if na_action a = Propose \<and> (case na_price_atomic a of None \<Rightarrow> True | Some p \<Rightarrow> p \<le> 0) then
        Inl (NegotiationError ''propose requires a positive price'')
      else if na_action a = Propose \<and> (case na_message a of None \<Rightarrow> True | Some m \<Rightarrow> blank m) then
        Inl (NegotiationError ''propose requires a public message'')
      else if na_action a \<noteq> Propose \<and> na_price_atomic a \<noteq> None then
        Inl (NegotiationError ((if na_action a = Accept then ''accept'' else ''reject'') @ '' cannot include a price''))
      else if na_action a = Accept \<and> na_message a \<noteq> None then
        Inl (NegotiationError ''accept cannot include a message'')
      else if (case na_message a of None \<Rightarrow> False | Some m \<Rightarrow> blank m \<or> length m > 100) then
        Inl (NegotiationError ''public negotiation messages must contain 1-100 characters'')
      else Inr a)"

record NegotiationTurn =
  nt_sequence :: int
  nt_role :: NegotiationRole
  nt_action :: NegotiationAction

record Negotiation =
  ng_negotiation_id :: string
  ng_buyer_participant_id :: string
  ng_seller_participant_id :: string
  ng_max_turns :: int
  ng_status :: NegotiationStatus
  ng_turns :: "NegotiationTurn list"
  ng_accepted_price_atomic :: "int option"

definition Negotiation_post_init :: "Negotiation \<Rightarrow> Negotiation result" where
  "Negotiation_post_init n =
     (if ng_max_turns n < 2 \<or> ng_max_turns n > 6 then Inl (NegotiationError ''max_turns must be between 2 and 6'')
      else if ng_buyer_participant_id n = ng_seller_participant_id n then
        Inl (NegotiationError ''buyer and seller must be different'')
      else Inr n)"

text \<open>A negotiation as the repository creates it: no turns, active.\<close>

definition Negotiation_new :: "string \<Rightarrow> string \<Rightarrow> string \<Rightarrow> int \<Rightarrow> Negotiation result" where
  "Negotiation_new i b s m = Negotiation_post_init
     \<lparr>ng_negotiation_id = i, ng_buyer_participant_id = b, ng_seller_participant_id = s, ng_max_turns = m,
      ng_status = ACTIVE, ng_turns = [], ng_accepted_price_atomic = None\<rparr>"

definition next_role :: "Negotiation \<Rightarrow> NegotiationRole" where
  "next_role n = (if length (ng_turns n) mod 2 = 0 then Buyer else Seller)"

definition negotiation_apply :: "Negotiation \<Rightarrow> NegotiationRole \<Rightarrow> NegotiationAction \<Rightarrow> Negotiation result" where
  "negotiation_apply n role a =
     (let sequence = int (length (ng_turns n)) + 1;
          turn = \<lparr>nt_sequence = sequence, nt_role = role, nt_action = a\<rparr>;
          record_turn = ng_turns_update (\<lambda>ts. ts @ [turn])
      in if ng_status n \<noteq> ACTIVE then Inl (NegotiationError ''negotiation is already terminal'')
         else if role \<noteq> next_role n then Inl (NegotiationError ''action was submitted out of turn'')
         else if sequence > ng_max_turns n then Inl (NegotiationError ''negotiation turn limit reached'')
         else if sequence = 1 \<and> na_action a \<noteq> Propose then
           Inl (NegotiationError ''buyer must open with a proposal'')
         else if sequence = ng_max_turns n \<and> na_action a = Propose then
           Inl (NegotiationError ''the last negotiation turn must accept or reject'')
         else case na_action a of
           Accept \<Rightarrow>
             if ng_turns n = [] then Inl (NegotiationError ''there is no proposal to accept'')
             else let previous = last (ng_turns n)
                  in if nt_role previous = role \<or> na_action (nt_action previous) \<noteq> Propose then
                       Inl (NegotiationError ''accept must target the counterparty's latest proposal'')
                     else Inr (record_turn (n\<lparr>ng_status := ACCEPTED_PENDING_SETTLEMENT,
                                              ng_accepted_price_atomic := na_price_atomic (nt_action previous)\<rparr>))
         | Reject \<Rightarrow> Inr (record_turn (n\<lparr>ng_status := REJECTED\<rparr>))
         | Propose \<Rightarrow> Inr (record_turn n))"

definition negotiation_expire :: "Negotiation \<Rightarrow> Negotiation" where
  "negotiation_expire n = (if ng_status n = ACTIVE then n\<lparr>ng_status := TIMEOUT\<rparr> else n)"

section \<open>The rule runtime\<close>

datatype RuleIntent = IntentBuy | IntentSell | IntentPass

record RuleStrategy =
  rs_intent :: RuleIntent
  rs_good :: string
  rs_target_price_atomic :: int
  rs_public_message :: utext

record RuleDecision =
  rd_action :: RuleIntent
  rd_good :: "string option"

definition rule_decide :: "RuleStrategy \<Rightarrow> RuleDecision" where
  "rule_decide s = \<lparr>rd_action = rs_intent s, rd_good = (if rs_intent s = IntentPass then None else Some (rs_good s))\<rparr>"

text \<open>The code points of the runtime's fixed refusal.\<close>

definition reject_message :: utext where
  "reject_message = [20215, 24046, 26410, 21512, 65292, 20170, 26085, 23601, 27492, 20316, 32610, 12290]"

definition rule_propose :: "RuleStrategy \<Rightarrow> NegotiationAction result" where
  "rule_propose s = NegotiationAction_post_init
     \<lparr>na_action = Propose, na_price_atomic = Some (rs_target_price_atomic s), na_message = Some (rs_public_message s)\<rparr>"

definition rule_negotiate :: "RuleStrategy \<Rightarrow> NegotiationRole \<Rightarrow> int \<Rightarrow> int option \<Rightarrow> int \<Rightarrow> NegotiationAction result" where
  "rule_negotiate s role sequence latest_counterparty_price_atomic max_turns =
     (if sequence = 1 then
        if role \<noteq> Buyer then Inl (ValueError ''buyer must take the first turn'') else rule_propose s
      else case latest_counterparty_price_atomic of
        None \<Rightarrow> Inl (ValueError ''a response requires a counterparty quote'')
      | Some latest \<Rightarrow>
          if (if role = Buyer then latest \<le> rs_target_price_atomic s else latest \<ge> rs_target_price_atomic s) then
            NegotiationAction_post_init \<lparr>na_action = Accept, na_price_atomic = None, na_message = None\<rparr>
          else if sequence \<ge> max_turns then
            NegotiationAction_post_init \<lparr>na_action = Reject, na_price_atomic = None, na_message = Some reject_message\<rparr>
          else rule_propose s)"

text \<open>One pass of the repository's loop over an active negotiation between two rule runtimes, and
  the loop. It ends because every applied action takes one of the bounded turns.\<close>

definition latest_price :: "Negotiation \<Rightarrow> int option" where
  "latest_price n =
     (if ng_turns n \<noteq> [] \<and> na_action (nt_action (last (ng_turns n))) = Propose
      then na_price_atomic (nt_action (last (ng_turns n))) else None)"

definition rule_turn :: "RuleStrategy \<Rightarrow> RuleStrategy \<Rightarrow> Negotiation \<Rightarrow> Negotiation result" where
  "rule_turn buyer seller n =
     (let role = next_role n
      in bindR (rule_negotiate (if role = Buyer then buyer else seller) role (int (length (ng_turns n)) + 1)
                  (latest_price n) (ng_max_turns n))
           (negotiation_apply n role))"

lemma negotiation_apply_turns:
  "negotiation_apply n role a = Inr n' \<Longrightarrow>
     ng_turns n' = ng_turns n @ [\<lparr>nt_sequence = int (length (ng_turns n)) + 1, nt_role = role, nt_action = a\<rparr>]
     \<and> ng_max_turns n' = ng_max_turns n \<and> int (length (ng_turns n)) < ng_max_turns n"
  by (auto simp: negotiation_apply_def Let_def split: if_splits NegotiationActionKind.splits)

function rule_loop :: "RuleStrategy \<Rightarrow> RuleStrategy \<Rightarrow> Negotiation \<Rightarrow> Negotiation result" where
  "rule_loop buyer seller n =
     (if ng_status n \<noteq> ACTIVE then Inr n
      else case rule_turn buyer seller n of Inl e \<Rightarrow> Inl e | Inr n' \<Rightarrow> rule_loop buyer seller n')"
  by pat_completeness auto
termination
proof (relation "measure (\<lambda>(_, _, n). nat (ng_max_turns n) - length (ng_turns n))")
  fix buyer seller n n'
  assume "rule_turn buyer seller n = Inr n'"
  then obtain a where "negotiation_apply n (next_role n) a = Inr n'"
    by (auto simp: rule_turn_def Let_def bindR_Inr_iff)
  from negotiation_apply_turns [OF this]
  show "((buyer, seller, n'), (buyer, seller, n)) \<in> measure (\<lambda>(_, _, n). nat (ng_max_turns n) - length (ng_turns n))"
    by auto
qed simp

declare rule_loop.simps [simp del]

section \<open>Reachable negotiations\<close>

text \<open>The histories of one negotiation: it is created, validated actions are applied, and it may
  expire. A refused call raises and leaves the object unchanged.\<close>

inductive negotiation_step :: "Negotiation \<Rightarrow> Negotiation \<Rightarrow> bool" where
  apply_ok: "NegotiationAction_post_init a = Inr a \<Longrightarrow> negotiation_apply n role a = Inr n' \<Longrightarrow> negotiation_step n n'"
| expire: "negotiation_step n (negotiation_expire n)"

inductive negotiation_reach :: "Negotiation \<Rightarrow> bool" where
  new: "Negotiation_new i b s m = Inr n \<Longrightarrow> negotiation_reach n"
| step: "negotiation_reach n \<Longrightarrow> negotiation_step n n' \<Longrightarrow> negotiation_reach n'"

inductive_cases negotiation_stepE: "negotiation_step n n'"

text \<open>The transcript is numbered from one, the buyer opens and the roles alternate; every turn but
  the last is a proposal with a positive price.\<close>

definition turn_ok :: "nat \<Rightarrow> NegotiationTurn \<Rightarrow> bool" where
  "turn_ok i t \<longleftrightarrow> nt_sequence t = int i + 1 \<and> nt_role t = (if even i then Buyer else Seller)
     \<and> NegotiationAction_post_init (nt_action t) = Inr (nt_action t)"

definition proposal :: "NegotiationTurn \<Rightarrow> bool" where
  "proposal t \<longleftrightarrow> na_action (nt_action t) = Propose"

definition negotiation_inv :: "Negotiation \<Rightarrow> bool" where
  "negotiation_inv n \<longleftrightarrow>
     2 \<le> ng_max_turns n \<and> ng_max_turns n \<le> 6 \<and> ng_buyer_participant_id n \<noteq> ng_seller_participant_id n
     \<and> int (length (ng_turns n)) \<le> ng_max_turns n
     \<and> (\<forall>i < length (ng_turns n). turn_ok i (ng_turns n ! i))
     \<and> (\<forall>t \<in> set (butlast (ng_turns n)). proposal t)
     \<and> (case ng_status n of
          ACTIVE \<Rightarrow> (\<forall>t \<in> set (ng_turns n). proposal t) \<and> int (length (ng_turns n)) < ng_max_turns n
            \<and> ng_accepted_price_atomic n = None
        | TIMEOUT \<Rightarrow> (\<forall>t \<in> set (ng_turns n). proposal t) \<and> ng_accepted_price_atomic n = None
        | REJECTED \<Rightarrow> ng_turns n \<noteq> [] \<and> na_action (nt_action (last (ng_turns n))) = Reject \<and> ng_accepted_price_atomic n = None
        | ACCEPTED_PENDING_SETTLEMENT \<Rightarrow>
            2 \<le> length (ng_turns n) \<and> na_action (nt_action (last (ng_turns n))) = Accept
            \<and> ng_accepted_price_atomic n = na_price_atomic (nt_action (last (butlast (ng_turns n))))
        | _ \<Rightarrow> False)"

section \<open>Invariant of reachable negotiations\<close>

lemma new_inv: "Negotiation_new i b s m = Inr n \<Longrightarrow> negotiation_inv n \<and> ng_turns n = [] \<and> ng_status n = ACTIVE"
  by (auto simp: Negotiation_new_def Negotiation_post_init_def negotiation_inv_def split: if_splits)

lemma expire_inv: "negotiation_inv n \<Longrightarrow> negotiation_inv (negotiation_expire n)"
  by (auto simp: negotiation_expire_def negotiation_inv_def)

lemma turns_snoc:
  assumes "\<forall>i < length ts. turn_ok i (ts ! i)" "turn_ok (length ts) t"
  shows "\<forall>i < length (ts @ [t]). turn_ok i ((ts @ [t]) ! i)"
  using assms by (auto simp: nth_append less_Suc_eq)

lemma apply_cases:
  assumes "negotiation_apply n role a = Inr n'"
  defines "turn \<equiv> \<lparr>nt_sequence = int (length (ng_turns n)) + 1, nt_role = role, nt_action = a\<rparr>"
  shows "ng_status n = ACTIVE \<and> role = next_role n \<and> int (length (ng_turns n)) < ng_max_turns n
    \<and> (na_action a = Propose \<and> int (length (ng_turns n)) + 1 < ng_max_turns n \<and> n' = n\<lparr>ng_turns := ng_turns n @ [turn]\<rparr>
     \<or> na_action a = Reject \<and> ng_turns n \<noteq> [] \<and> n' = n\<lparr>ng_turns := ng_turns n @ [turn], ng_status := REJECTED\<rparr>
     \<or> na_action a = Accept \<and> ng_turns n \<noteq> [] \<and> nt_role (last (ng_turns n)) \<noteq> role
        \<and> n' = n\<lparr>ng_turns := ng_turns n @ [turn], ng_status := ACCEPTED_PENDING_SETTLEMENT,
                ng_accepted_price_atomic := na_price_atomic (nt_action (last (ng_turns n)))\<rparr>)"
  using assms(1) unfolding turn_def
  by (auto simp: negotiation_apply_def Let_def split: if_splits NegotiationActionKind.splits)

lemma apply_inv:
  assumes inv: "negotiation_inv n" and a: "NegotiationAction_post_init a = Inr a" and ap: "negotiation_apply n role a = Inr n'"
  shows "negotiation_inv n'"
proof -
  let ?t = "\<lparr>nt_sequence = int (length (ng_turns n)) + 1, nt_role = role, nt_action = a\<rparr>"
  note c = apply_cases [OF ap]
  then have st: "ng_status n = ACTIVE" and r: "role = next_role n" and lt: "int (length (ng_turns n)) < ng_max_turns n" by blast+
  from inv st have p: "\<forall>t \<in> set (ng_turns n). proposal t" and np: "ng_accepted_price_atomic n = None"
    and b: "2 \<le> ng_max_turns n" "ng_max_turns n \<le> 6" "ng_buyer_participant_id n \<noteq> ng_seller_participant_id n"
    and ok: "\<forall>i < length (ng_turns n). turn_ok i (ng_turns n ! i)" by (simp_all add: negotiation_inv_def)
  have "turn_ok (length (ng_turns n)) ?t" using a r by (auto simp: turn_ok_def next_role_def even_iff_mod_2_eq_zero)
  note ts = turns_snoc [OF ok this]
  from c consider (propose) "na_action a = Propose" "int (length (ng_turns n)) + 1 < ng_max_turns n" "n' = n\<lparr>ng_turns := ng_turns n @ [?t]\<rparr>"
    | (rej) "na_action a = Reject" "ng_turns n \<noteq> []" "n' = n\<lparr>ng_turns := ng_turns n @ [?t], ng_status := REJECTED\<rparr>"
    | (acc) "na_action a = Accept" "ng_turns n \<noteq> []" "n' = n\<lparr>ng_turns := ng_turns n @ [?t], ng_status := ACCEPTED_PENDING_SETTLEMENT,
                ng_accepted_price_atomic := na_price_atomic (nt_action (last (ng_turns n)))\<rparr>" by blast
  then show ?thesis
  proof cases
    case propose
    then show ?thesis using ts p b np st by (simp add: negotiation_inv_def proposal_def)
  next
    case rej
    then show ?thesis using ts p b np lt by (simp add: negotiation_inv_def)
  next
    case acc
    then show ?thesis using ts p b lt by (cases "ng_turns n") (simp_all add: negotiation_inv_def)
  qed
qed

lemma reach_inv: "negotiation_reach n \<Longrightarrow> negotiation_inv n"
  by (induction rule: negotiation_reach.induct) (auto elim!: negotiation_stepE intro: apply_inv expire_inv dest: new_inv)

text \<open>In every reachable negotiation the transcript has at most \<open>max_turns\<close> turns, is
  numbered from one, alternates roles starting with the buyer, contains only validated actions and
  only proposals before its last turn; an active negotiation always has a turn left.\<close>

theorem negotiation_transcript:
  assumes "negotiation_reach n"
  shows "int (length (ng_turns n)) \<le> ng_max_turns n \<and> (\<forall>i < length (ng_turns n). turn_ok i (ng_turns n ! i))
     \<and> (\<forall>t \<in> set (butlast (ng_turns n)). proposal t)
     \<and> (ng_status n = ACTIVE \<longrightarrow> int (length (ng_turns n)) < ng_max_turns n)"
  using reach_inv [OF assms] by (cases "ng_status n") (simp_all add: negotiation_inv_def)

text \<open>Property C9: an accepted negotiation ends with a proposal of one party followed by the other
  party's acceptance, and its accepted price is exactly that proposal's positive price; without an
  acceptance there is no accepted price.\<close>

theorem negotiation_accepted_price:
  assumes "negotiation_reach n"
  shows "case ng_accepted_price_atomic n of
      None \<Rightarrow> ng_status n \<noteq> ACCEPTED_PENDING_SETTLEMENT
    | Some p \<Rightarrow> ng_status n = ACCEPTED_PENDING_SETTLEMENT \<and> 0 < p
        \<and> (\<exists>ts t u. ng_turns n = ts @ [t, u] \<and> proposal t \<and> na_price_atomic (nt_action t) = Some p
             \<and> na_action (nt_action u) = Accept \<and> nt_role t \<noteq> nt_role u)"
proof -
  note inv = reach_inv [OF assms]
  show ?thesis
  proof (cases "ng_status n = ACCEPTED_PENDING_SETTLEMENT")
    case False
    then show ?thesis using inv by (cases "ng_status n") (auto simp: negotiation_inv_def)
  next
    case True
    with inv have l: "2 \<le> length (ng_turns n)" "na_action (nt_action (last (ng_turns n))) = Accept"
      and ap: "ng_accepted_price_atomic n = na_price_atomic (nt_action (last (butlast (ng_turns n))))"
      and ok: "\<forall>i < length (ng_turns n). turn_ok i (ng_turns n ! i)"
      and pr: "\<forall>t \<in> set (butlast (ng_turns n)). proposal t" by (simp_all add: negotiation_inv_def)
    obtain ts t u where e: "ng_turns n = ts @ [t, u]"
      using l(1) by (metis append_butlast_last_id append_assoc append_Cons append_Nil butlast.simps(1) length_butlast
          list.size(3) not_numeral_le_zero One_nat_def Suc_1 diff_is_0_eq not_less_eq_eq le_refl)
    then have t: "proposal t" "nt_role t \<noteq> nt_role u" "NegotiationAction_post_init (nt_action t) = Inr (nt_action t)"
      using pr spec [OF ok, of "length ts"] spec [OF ok, of "Suc (length ts)"]
      by (auto simp: butlast_append turn_ok_def nth_append split: if_splits)
    then obtain p where "na_price_atomic (nt_action t) = Some p" "0 < p"
      by (auto simp: NegotiationAction_post_init_def proposal_def split: if_splits option.splits)
    then show ?thesis using True ap e l(2) t by (simp add: butlast_append)
  qed
qed

text \<open>A reachable active negotiation is never stuck: the party whose turn it is may
  reject, except on the opening turn, where the buyer may propose any positive price with a message;
  and an action on the last turn always ends it.\<close>

theorem negotiation_progress:
  assumes "negotiation_reach n" "ng_status n = ACTIVE"
  shows "(\<exists>a n'. NegotiationAction_post_init a = Inr a \<and> negotiation_apply n (next_role n) a = Inr n')
    \<and> (\<forall>role a n'. negotiation_apply n role a = Inr n' \<and> int (length (ng_turns n')) = ng_max_turns n' \<longrightarrow> terminal (ng_status n'))"
proof
  note inv = reach_inv [OF assms(1)]
  let ?p = "\<lparr>na_action = Propose, na_price_atomic = Some 1, na_message = Some [111]\<rparr>"
  let ?r = "\<lparr>na_action = Reject, na_price_atomic = None, na_message = None\<rparr>"
  have "negotiation_apply n (next_role n) (if ng_turns n = [] then ?p else ?r) \<in> range Inr"
    using inv assms(2) by (auto simp: negotiation_apply_def negotiation_inv_def Let_def)
  moreover have "NegotiationAction_post_init (if ng_turns n = [] then ?p else ?r) = Inr (if ng_turns n = [] then ?p else ?r)"
    by (simp add: NegotiationAction_post_init_def blank_def py_isspace_def)
  ultimately show "\<exists>a n'. NegotiationAction_post_init a = Inr a \<and> negotiation_apply n (next_role n) a = Inr n'" by blast
  show "\<forall>role a n'. negotiation_apply n role a = Inr n' \<and> int (length (ng_turns n')) = ng_max_turns n' \<longrightarrow> terminal (ng_status n')"
    by (auto dest!: apply_cases simp: terminal_def)
qed


section \<open>Two rule runtimes\<close>

text \<open>A strategy whose offers \<open>NegotiationAction\<close> accepts; \<open>RuleStrategy\<close> itself checks nothing.\<close>

definition valid_strategy :: "RuleStrategy \<Rightarrow> bool" where
  "valid_strategy s \<longleftrightarrow> 0 < rs_target_price_atomic s \<and> \<not> blank (rs_public_message s) \<and> length (rs_public_message s) \<le> 100"

definition rule_offer :: "RuleStrategy \<Rightarrow> NegotiationAction" where
  "rule_offer s = \<lparr>na_action = Propose, na_price_atomic = Some (rs_target_price_atomic s), na_message = Some (rs_public_message s)\<rparr>"

lemma rule_propose_ok: "valid_strategy s \<Longrightarrow> rule_propose s = Inr (rule_offer s)"
  by (simp add: rule_propose_def NegotiationAction_post_init_def valid_strategy_def rule_offer_def)

lemma rule_propose_raises: "\<not> valid_strategy s \<Longrightarrow> \<exists>e. rule_propose s = Inl (NegotiationError e)"
  by (auto simp: rule_propose_def NegotiationAction_post_init_def valid_strategy_def)

lemma reject_ok: "NegotiationAction_post_init \<lparr>na_action = Reject, na_price_atomic = None, na_message = Some reject_message\<rparr>
    = Inr \<lparr>na_action = Reject, na_price_atomic = None, na_message = Some reject_message\<rparr>"
  by (simp add: NegotiationAction_post_init_def reject_message_def blank_def py_isspace_def)

lemma accept_ok: "NegotiationAction_post_init \<lparr>na_action = Accept, na_price_atomic = None, na_message = None\<rparr>
    = Inr \<lparr>na_action = Accept, na_price_atomic = None, na_message = None\<rparr>"
  by (simp add: NegotiationAction_post_init_def)

text \<open>Every turn so far is a standing offer of the party that took it.\<close>

definition offers :: "RuleStrategy \<Rightarrow> RuleStrategy \<Rightarrow> Negotiation \<Rightarrow> bool" where
  "offers buyer seller n \<longleftrightarrow> negotiation_inv n \<and> ng_status n = ACTIVE
     \<and> (ng_turns n \<noteq> [] \<longrightarrow> nt_action (last (ng_turns n)) = rule_offer (if next_role n = Buyer then seller else buyer))"

lemma offers_turn_reject:
  assumes o: "offers buyer seller n" and v: "valid_strategy buyer" "valid_strategy seller"
    and gap: "rs_target_price_atomic buyer < rs_target_price_atomic seller"
  shows "\<exists>n'. rule_turn buyer seller n = Inr n' \<and> ng_max_turns n' = ng_max_turns n
     \<and> (offers buyer seller n' \<or> ng_status n' = REJECTED \<and> ng_accepted_price_atomic n' = None
          \<and> int (length (ng_turns n')) = ng_max_turns n)"
proof -
  let ?me = "if next_role n = Buyer then buyer else seller"
  let ?k = "int (length (ng_turns n)) + 1"
  let ?a = "if ng_turns n \<noteq> [] \<and> ng_max_turns n \<le> ?k then \<lparr>na_action = Reject, na_price_atomic = None, na_message = Some reject_message\<rparr>
            else rule_offer ?me"
  have inv: "negotiation_inv n" and st: "ng_status n = ACTIVE" using o by (simp_all add: offers_def)
  have k: "?k \<le> ng_max_turns n" "2 \<le> ng_max_turns n" "ng_accepted_price_atomic n = None" using inv st by (simp_all add: negotiation_inv_def)
  have first: "next_role n = Buyer" if "ng_turns n = []" using that by (simp add: next_role_def)
  have pr: "rule_propose ?me = Inr (rule_offer ?me)" using v rule_propose_ok by simp
  have "rule_negotiate ?me (next_role n) ?k (latest_price n) (ng_max_turns n) = Inr ?a"
    using o gap first pr by (auto simp: rule_negotiate_def latest_price_def offers_def rule_offer_def reject_ok)
  moreover have "\<exists>n'. negotiation_apply n (next_role n) ?a = Inr n'"
    using k st by (cases "ng_turns n \<noteq> [] \<and> ng_max_turns n \<le> ?k") (auto simp: negotiation_apply_def Let_def rule_offer_def)
  then obtain n' where n': "negotiation_apply n (next_role n) ?a = Inr n'" ..
  ultimately have rt: "rule_turn buyer seller n = Inr n'" by (simp add: rule_turn_def Let_def)
  have post: "NegotiationAction_post_init ?a = Inr ?a"
    using reject_ok pr by (simp add: rule_propose_def rule_offer_def)
  note c = apply_cases [OF n'] and i = apply_inv [OF inv post n']
  have flip: "next_role n' = Buyer \<longleftrightarrow> next_role n = Seller"
  proof -
    have "length (ng_turns n') = Suc (length (ng_turns n))" using negotiation_apply_turns [OF n'] by simp
    then show ?thesis by (simp add: next_role_def) presburger
  qed
  show ?thesis
  proof (cases "ng_turns n \<noteq> [] \<and> ng_max_turns n \<le> ?k")
    case True
    then show ?thesis using rt c k by auto
  next
    case False
    then have "na_action ?a = Propose" by (simp add: rule_offer_def)
    with c False have "n' = n\<lparr>ng_turns := ng_turns n @ [\<lparr>nt_sequence = ?k, nt_role = next_role n, nt_action = rule_offer ?me\<rparr>]\<rparr>"
      by auto
    then show ?thesis using rt i flip st by (cases "next_role n") (auto simp: offers_def)
  qed
qed

lemma offers_loop_reject:
  assumes "offers buyer seller n" "valid_strategy buyer" "valid_strategy seller"
    and "rs_target_price_atomic buyer < rs_target_price_atomic seller"
  shows "\<exists>n'. rule_loop buyer seller n = Inr n' \<and> ng_status n' = REJECTED \<and> ng_accepted_price_atomic n' = None
     \<and> int (length (ng_turns n')) = ng_max_turns n"
  using assms
proof (induction buyer seller n rule: rule_loop.induct)
  case (1 buyer seller n)
  from offers_turn_reject [OF 1(2-5)] obtain n' where n': "rule_turn buyer seller n = Inr n'" "ng_max_turns n' = ng_max_turns n"
    "offers buyer seller n' \<or> ng_status n' = REJECTED \<and> ng_accepted_price_atomic n' = None \<and> int (length (ng_turns n')) = ng_max_turns n"
    by blast
  have st: "ng_status n = ACTIVE" using 1(2) by (simp add: offers_def)
  have l: "rule_loop buyer seller n = rule_loop buyer seller n'"
    using st n'(1) by (subst rule_loop.simps) simp
  from n'(3) show ?case
  proof
    assume "offers buyer seller n'"
    from 1(1) [OF _ n'(1) this 1(3-5)] st show ?thesis by (simp add: l n'(2))
  next
    assume "ng_status n' = REJECTED \<and> ng_accepted_price_atomic n' = None \<and> int (length (ng_turns n')) = ng_max_turns n"
    then show ?thesis unfolding l by (subst rule_loop.simps) simp
  qed
qed

text \<open>The buyer's opening, and the seller's answer to it.\<close>

definition opened :: "Negotiation \<Rightarrow> RuleStrategy \<Rightarrow> Negotiation" where
  "opened n buyer = n\<lparr>ng_turns := [\<lparr>nt_sequence = 1, nt_role = Buyer, nt_action = rule_offer buyer\<rparr>]\<rparr>"

lemma rule_opening:
  assumes "Negotiation_new i b s m = Inr n"
  shows "valid_strategy buyer \<Longrightarrow> rule_loop buyer seller n = rule_loop buyer seller (opened n buyer)"
    "\<not> valid_strategy buyer \<Longrightarrow> \<exists>e. rule_loop buyer seller n = Inl (NegotiationError e)"
proof -
  have n: "ng_turns n = []" "ng_status n = ACTIVE" "2 \<le> ng_max_turns n" using new_inv [OF assms] by (auto simp: negotiation_inv_def)
  have t: "rule_turn buyer seller n = (case rule_propose buyer of Inl e \<Rightarrow> Inl e | Inr a \<Rightarrow> negotiation_apply n Buyer a)"
    using n by (simp add: rule_turn_def rule_negotiate_def next_role_def Let_def split: sum.splits)
  have "negotiation_apply n Buyer (rule_offer buyer) = Inr (opened n buyer)"
    using n by (simp add: negotiation_apply_def next_role_def opened_def rule_offer_def Let_def)
  then show "valid_strategy buyer \<Longrightarrow> rule_loop buyer seller n = rule_loop buyer seller (opened n buyer)"
    using n(2) t rule_propose_ok [of buyer] by (subst rule_loop.simps) simp
  show "\<not> valid_strategy buyer \<Longrightarrow> \<exists>e. rule_loop buyer seller n = Inl (NegotiationError e)"
    using n t rule_propose_raises [of buyer] by (subst rule_loop.simps) auto
qed

lemma rule_accepts:
  assumes "Negotiation_new i b s m = Inr n" "rs_target_price_atomic buyer \<ge> rs_target_price_atomic seller"
  shows "\<exists>n'. rule_loop buyer seller (opened n buyer) = Inr n' \<and> ng_status n' = ACCEPTED_PENDING_SETTLEMENT
    \<and> ng_accepted_price_atomic n' = Some (rs_target_price_atomic buyer) \<and> length (ng_turns n') = 2"
proof -
  let ?acc = "\<lparr>na_action = Accept, na_price_atomic = None, na_message = None\<rparr>"
  let ?n2 = "(opened n buyer)\<lparr>ng_turns := ng_turns (opened n buyer) @ [\<lparr>nt_sequence = 2, nt_role = Seller, nt_action = ?acc\<rparr>],
                 ng_status := ACCEPTED_PENDING_SETTLEMENT, ng_accepted_price_atomic := Some (rs_target_price_atomic buyer)\<rparr>"
  have n: "ng_status n = ACTIVE" "2 \<le> ng_max_turns n" using new_inv [OF assms(1)] by (auto simp: negotiation_inv_def)
  have "rule_turn buyer seller (opened n buyer) = Inr ?n2"
    using n assms(2) accept_ok
    by (simp add: opened_def rule_turn_def rule_negotiate_def next_role_def negotiation_apply_def rule_offer_def Let_def latest_price_def)
  then have "rule_loop buyer seller (opened n buyer) = rule_loop buyer seller ?n2" using n by (subst rule_loop.simps) (simp add: opened_def)
  also have "\<dots> = Inr ?n2" by (subst rule_loop.simps) simp
  finally show ?thesis by (simp add: opened_def)
qed

lemma rule_counter_raises:
  assumes "Negotiation_new i b s m = Inr n" "rs_target_price_atomic buyer < rs_target_price_atomic seller" "2 < m" "\<not> valid_strategy seller"
  shows "\<exists>e. rule_loop buyer seller (opened n buyer) = Inl (NegotiationError e)"
proof -
  have n: "ng_status n = ACTIVE" "ng_max_turns n = m"
    using new_inv [OF assms(1)] assms(1) by (auto simp: negotiation_inv_def Negotiation_new_def Negotiation_post_init_def split: if_splits)
  have "rule_turn buyer seller (opened n buyer) = (case rule_propose seller of Inl e \<Rightarrow> Inl e | Inr a \<Rightarrow> negotiation_apply (opened n buyer) Seller a)"
    using n assms(2,3) by (simp add: opened_def rule_turn_def rule_negotiate_def next_role_def rule_offer_def latest_price_def Let_def split: sum.splits)
  then show ?thesis using rule_propose_raises [OF assms(4)] n by (subst rule_loop.simps) (auto simp: opened_def)
qed

lemma rule_refuses_at_once:
  assumes "Negotiation_new i b s 2 = Inr n" "rs_target_price_atomic buyer < rs_target_price_atomic seller"
  shows "\<exists>n'. rule_loop buyer seller (opened n buyer) = Inr n' \<and> ng_status n' = REJECTED \<and> ng_accepted_price_atomic n' = None \<and> length (ng_turns n') = 2"
proof -
  let ?rej = "\<lparr>na_action = Reject, na_price_atomic = None, na_message = Some reject_message\<rparr>"
  let ?n2 = "(opened n buyer)\<lparr>ng_turns := ng_turns (opened n buyer) @ [\<lparr>nt_sequence = 2, nt_role = Seller, nt_action = ?rej\<rparr>], ng_status := REJECTED\<rparr>"
  have n: "ng_status n = ACTIVE" "ng_max_turns n = 2" "ng_accepted_price_atomic n = None"
    using new_inv [OF assms(1)] assms(1) by (auto simp: negotiation_inv_def Negotiation_new_def Negotiation_post_init_def split: if_splits)
  have "rule_turn buyer seller (opened n buyer) = Inr ?n2"
    using n assms(2) reject_ok
    by (simp add: opened_def rule_turn_def rule_negotiate_def next_role_def negotiation_apply_def rule_offer_def Let_def latest_price_def)
  then have "rule_loop buyer seller (opened n buyer) = rule_loop buyer seller ?n2" using n by (subst rule_loop.simps) (simp add: opened_def)
  also have "\<dots> = Inr ?n2" by (subst rule_loop.simps) simp
  finally show ?thesis using n(3) by (simp add: opened_def)
qed

text \<open>Property C32: how a negotiation between two rule runtimes ends, for any two strategies. A strategy is usable when its target is positive and its public
  message has one to a hundred characters, not all of them white space; the code does not check this before. If the buyer's strategy is not
  usable, the first turn raises. Otherwise, if the buyer's target reaches the seller's, the seller accepts the buyer's opening price in the
  second turn; if it does not, the negotiation is rejected in its last turn and no price is agreed, except that a seller whose strategy is not usable
  raises in the second turn when a turn is left after it.\<close>

theorem rule_negotiation_outcome:
  assumes "Negotiation_new i b s m = Inr n"
  shows "if \<not> valid_strategy buyer \<or> rs_target_price_atomic buyer < rs_target_price_atomic seller \<and> 2 < m \<and> \<not> valid_strategy seller
    then \<exists>e. rule_loop buyer seller n = Inl (NegotiationError e)
    else \<exists>n'. rule_loop buyer seller n = Inr n'
      \<and> (if rs_target_price_atomic buyer \<ge> rs_target_price_atomic seller
         then ng_status n' = ACCEPTED_PENDING_SETTLEMENT \<and> ng_accepted_price_atomic n' = Some (rs_target_price_atomic buyer) \<and> length (ng_turns n') = 2
         else ng_status n' = REJECTED \<and> ng_accepted_price_atomic n' = None \<and> int (length (ng_turns n')) = m)"
proof -
  note open_ok = rule_opening(1) [OF assms, of buyer seller] and open_bad = rule_opening(2) [OF assms, of buyer seller]
  have m: "2 \<le> m" "ng_max_turns n = m"
    using new_inv [OF assms] assms by (auto simp: negotiation_inv_def Negotiation_new_def Negotiation_post_init_def split: if_splits)
  consider (bad) "\<not> valid_strategy buyer" | (reached) "valid_strategy buyer" "rs_target_price_atomic buyer \<ge> rs_target_price_atomic seller"
    | (counter) "valid_strategy buyer" "rs_target_price_atomic buyer < rs_target_price_atomic seller" "2 < m" "\<not> valid_strategy seller"
    | (two) "valid_strategy buyer" "rs_target_price_atomic buyer < rs_target_price_atomic seller" "m = 2"
    | (gap) "valid_strategy buyer" "rs_target_price_atomic buyer < rs_target_price_atomic seller" "valid_strategy seller" using m(1) by linarith
  then show ?thesis
  proof cases
    case reached
    then show ?thesis using open_ok rule_accepts [OF assms reached(2)] by simp
  next
    case counter
    then show ?thesis using open_ok rule_counter_raises [OF assms counter(2-4)] by simp
  next
    case two
    then show ?thesis using open_ok rule_refuses_at_once [OF assms [unfolded two(3)] two(2)] by auto
  next
    case gap
    have "offers buyer seller n" using new_inv [OF assms] by (auto simp: offers_def negotiation_inv_def)
    then show ?thesis using offers_loop_reject [OF _ gap(1,3,2), of n] gap m(2) by auto
  qed (use open_bad in simp)
qed

section \<open>Witnesses\<close>

definition demo_strategy :: "RuleIntent \<Rightarrow> int \<Rightarrow> RuleStrategy" where
  "demo_strategy i p = \<lparr>rs_intent = i, rs_good = ''iron'', rs_target_price_atomic = p, rs_public_message = ascii ''ok''\<rparr>"

lemma demo_strategy_valid: "0 < p \<Longrightarrow> valid_strategy (demo_strategy i p)"
  by (simp add: valid_strategy_def demo_strategy_def blank_def ascii_def py_isspace_def)

definition demo_negotiation :: Negotiation where
  "demo_negotiation = \<lparr>ng_negotiation_id = ''n'', ng_buyer_participant_id = ''b'', ng_seller_participant_id = ''s'', ng_max_turns = 3,
      ng_status = ACTIVE, ng_turns = [], ng_accepted_price_atomic = None\<rparr>"

lemma demo_negotiation_new: "Negotiation_new ''n'' ''b'' ''s'' 3 = Inr demo_negotiation"
  by (simp add: Negotiation_new_def Negotiation_post_init_def demo_negotiation_def)

theorem rule_negotiation_outcome_witness:
  "(\<exists>n'. rule_loop (demo_strategy IntentBuy 5) (demo_strategy IntentSell 4) demo_negotiation = Inr n' \<and> ng_accepted_price_atomic n' = Some 5)
   \<and> (\<exists>n'. rule_loop (demo_strategy IntentBuy 3) (demo_strategy IntentSell 4) demo_negotiation = Inr n' \<and> int (length (ng_turns n')) = 3)
   \<and> (\<exists>e. rule_loop (demo_strategy IntentBuy 3) ((demo_strategy IntentSell 4)\<lparr>rs_public_message := ascii '' ''\<rparr>) demo_negotiation = Inl (NegotiationError e))"
proof -
  have v: "valid_strategy (demo_strategy IntentBuy 5)" "valid_strategy (demo_strategy IntentBuy 3)" "valid_strategy (demo_strategy IntentSell 4)"
    by (simp_all add: demo_strategy_valid)
  have b: "\<not> valid_strategy ((demo_strategy IntentSell 4)\<lparr>rs_public_message := ascii '' ''\<rparr>)"
    by (simp add: valid_strategy_def demo_strategy_def blank_def ascii_def py_isspace_def)
  show ?thesis
    using rule_negotiation_outcome [OF demo_negotiation_new, of "demo_strategy IntentBuy 5" "demo_strategy IntentSell 4"]
      rule_negotiation_outcome [OF demo_negotiation_new, of "demo_strategy IntentBuy 3" "demo_strategy IntentSell 4"]
      rule_negotiation_outcome [OF demo_negotiation_new, of "demo_strategy IntentBuy 3" "(demo_strategy IntentSell 4)\<lparr>rs_public_message := ascii '' ''\<rparr>"] v b
    by (auto simp: demo_strategy_def)
qed

lemma demo_negotiation_reach: "negotiation_reach demo_negotiation"
  by (rule negotiation_reach.new [OF demo_negotiation_new])

definition demo_accepted :: Negotiation where
  "demo_accepted = demo_negotiation\<lparr>ng_turns :=
      [\<lparr>nt_sequence = 1, nt_role = Buyer, nt_action = rule_offer (demo_strategy IntentBuy 5)\<rparr>,
       \<lparr>nt_sequence = 2, nt_role = Seller, nt_action = \<lparr>na_action = Accept, na_price_atomic = None, na_message = None\<rparr>\<rparr>],
      ng_status := ACCEPTED_PENDING_SETTLEMENT, ng_accepted_price_atomic := Some 5\<rparr>"

lemma demo_accepted_reach: "negotiation_reach demo_accepted"
proof -
  let ?n1 = "demo_negotiation\<lparr>ng_turns := [\<lparr>nt_sequence = 1, nt_role = Buyer, nt_action = rule_offer (demo_strategy IntentBuy 5)\<rparr>]\<rparr>"
  have "NegotiationAction_post_init (rule_offer (demo_strategy IntentBuy 5)) = Inr (rule_offer (demo_strategy IntentBuy 5))"
    using rule_propose_ok [OF demo_strategy_valid, of 5 IntentBuy] by (simp add: rule_propose_def rule_offer_def)
  then have "negotiation_step demo_negotiation ?n1"
    by (rule negotiation_step.apply_ok [where role = Buyer])
      (simp add: negotiation_apply_def next_role_def demo_negotiation_def rule_offer_def demo_strategy_def)
  moreover have "negotiation_step ?n1 demo_accepted"
    by (rule negotiation_step.apply_ok [OF accept_ok, where role = Seller])
      (simp add: negotiation_apply_def next_role_def demo_negotiation_def demo_accepted_def rule_offer_def demo_strategy_def Let_def)
  ultimately show ?thesis using demo_negotiation_reach by (blast intro: negotiation_reach.step)
qed

theorem negotiation_transcript_witness: "int (length (ng_turns demo_accepted)) \<le> 3 \<and> turn_ok 1 (ng_turns demo_accepted ! 1)"
  using negotiation_transcript [OF demo_accepted_reach] by (auto simp: demo_accepted_def demo_negotiation_def)

theorem negotiation_accepted_price_witness: "\<exists>ts t u. ng_turns demo_accepted = ts @ [t, u] \<and> na_price_atomic (nt_action t) = Some 5"
  using negotiation_accepted_price [OF demo_accepted_reach] by (auto simp: demo_accepted_def)

theorem negotiation_progress_witness: "\<exists>a n'. negotiation_apply demo_negotiation (next_role demo_negotiation) a = Inr n'"
  using negotiation_progress [OF demo_negotiation_reach] by (auto simp: demo_negotiation_def)

end
