(* ===== verification/Arena_Events.thy ===== *)
theory Arena_Events
  imports Arena_Portfolio
begin

text \<open>
  \<open>arena_game/events.py\<close>: world events with typed effects, the price, supply, bubble and
  royal-order snapshot of a round, the bounded market feedback, and the schedule commitment.
\<close>

section \<open>Effects and events\<close>

datatype EffectKind =
    PRICE_MULTIPLY_BPS | PRICE_RESET_TO_BASE | SUPPLY_INDEX_ADD_BPS | BUBBLE_ADD_BPS | BUBBLE_CLEAR | CREATE_ROYAL_ORDER

fun EffectKind_value :: "EffectKind \<Rightarrow> string" where
  "EffectKind_value PRICE_MULTIPLY_BPS = ''price_multiply_bps''"
| "EffectKind_value PRICE_RESET_TO_BASE = ''price_reset_to_base''"
| "EffectKind_value SUPPLY_INDEX_ADD_BPS = ''supply_index_add_bps''"
| "EffectKind_value BUBBLE_ADD_BPS = ''bubble_add_bps''"
| "EffectKind_value BUBBLE_CLEAR = ''bubble_clear''"
| "EffectKind_value CREATE_ROYAL_ORDER = ''create_royal_order''"

datatype PriceTarget = Market | Final | Both

fun PriceTarget_value :: "PriceTarget \<Rightarrow> string" where
  "PriceTarget_value Market = ''market''"
| "PriceTarget_value Final = ''final''"
| "PriceTarget_value Both = ''both''"

record EventEffect =
  ef_kind :: EffectKind
  ef_good :: string
  ef_target :: PriceTarget
  ef_basis_points :: "int option"
  ef_order_price_atomic :: "int option"
  ef_order_limit :: "int option"

definition needs_bps :: "EffectKind \<Rightarrow> bool" where
  "needs_bps k \<longleftrightarrow> k \<in> {PRICE_MULTIPLY_BPS, SUPPLY_INDEX_ADD_BPS, BUBBLE_ADD_BPS}"

definition missing_or_nonpositive :: "int option \<Rightarrow> bool" where
  "missing_or_nonpositive v = (case v of None \<Rightarrow> True | Some x \<Rightarrow> x \<le> 0)"

definition EventEffect_post_init :: "EventEffect \<Rightarrow> EventEffect result" where
  "EventEffect_post_init e =
     bindR (require_good (ef_good e)) (\<lambda>_.
       if needs_bps (ef_kind e) \<and> ef_basis_points e = None then
         Inl (EventError (EffectKind_value (ef_kind e) @ '' requires basis_points''))
       else if \<not> needs_bps (ef_kind e) \<and> ef_basis_points e \<noteq> None then
         Inl (EventError (EffectKind_value (ef_kind e) @ '' does not accept basis_points''))
       else if ef_kind e = CREATE_ROYAL_ORDER then
         if missing_or_nonpositive (ef_order_price_atomic e) \<or> missing_or_nonpositive (ef_order_limit e) then
           Inl (EventError ''create_royal_order requires a positive price and limit'')
         else Inr e
       else if ef_order_price_atomic e \<noteq> None \<or> ef_order_limit e \<noteq> None then
         Inl (EventError ''only create_royal_order accepts order fields'')
       else Inr e)"

definition optional_field :: "string \<Rightarrow> ('a \<Rightarrow> json) \<Rightarrow> 'a option \<Rightarrow> (string \<times> json) list" where
  "optional_field k f v = (case v of None \<Rightarrow> [] | Some x \<Rightarrow> [(k, f x)])"

definition EventEffect_to_wire :: "EventEffect \<Rightarrow> json" where
  "EventEffect_to_wire e = JObj
     ([(''kind'', JStr (ascii (EffectKind_value (ef_kind e)))),
       (''good'', JStr (ascii (ef_good e))),
       (''target'', JStr (ascii (PriceTarget_value (ef_target e))))]
      @ optional_field ''basisPoints'' JInt (ef_basis_points e)
      @ optional_field ''orderPriceAtomic'' (\<lambda>p. JStr (ascii (show_int p))) (ef_order_price_atomic e)
      @ optional_field ''orderLimit'' JInt (ef_order_limit e))"

record WorldEvent =
  we_event_id :: string
  we_display_name :: utext
  we_narrative :: utext
  we_reveal_round :: int
  we_duration_rounds :: "int option"
  we_effects :: "EventEffect list"
  we_schema_version :: string

definition is_lower :: "char \<Rightarrow> bool" where
  "is_lower c \<longleftrightarrow> 97 \<le> (of_char c :: nat) \<and> (of_char c :: nat) \<le> 122"

text \<open>\<open>^[a-z][a-z0-9-]{2,63}$\<close>\<close>

definition event_id_ok :: "string \<Rightarrow> bool" where
  "event_id_ok s = (case s of [] \<Rightarrow> False
     | c # cs \<Rightarrow> is_lower c \<and> list_all (\<lambda>x. is_lower x \<or> is_digit x \<or> x = CHR ''-'') cs
                 \<and> 2 \<le> length cs \<and> length cs \<le> 63)"

definition WorldEvent_post_init :: "WorldEvent \<Rightarrow> WorldEvent result" where
  "WorldEvent_post_init e =
     (if \<not> event_id_ok (we_event_id e) then Inl (EventError ''event_id must be a lowercase kebab identifier'')
      else if blank (we_display_name e) \<or> length (we_display_name e) > 100 then
        Inl (EventError ''event display name is required'')
      else if length (we_narrative e) > 1000 then Inl (EventError ''event narrative is too long'')
      else if we_reveal_round e < 1 then Inl (EventError ''reveal_round must be positive'')
      else if (case we_duration_rounds e of None \<Rightarrow> False | Some d \<Rightarrow> d < 1) then
        Inl (EventError ''duration_rounds must be positive or null'')
      else if we_effects e = [] then Inl (EventError ''an event must contain at least one effect'')
      else Inr e)"

definition active_in_round :: "WorldEvent \<Rightarrow> int \<Rightarrow> bool" where
  "active_in_round e round_index =
     (if round_index < we_reveal_round e then False
      else case we_duration_rounds e of None \<Rightarrow> True | Some d \<Rightarrow> round_index < we_reveal_round e + d)"

definition WorldEvent_to_wire :: "WorldEvent \<Rightarrow> json" where
  "WorldEvent_to_wire e = JObj
     [(''eventId'', JStr (ascii (we_event_id e))),
      (''displayName'', JStr (we_display_name e)),
      (''narrative'', JStr (we_narrative e)),
      (''revealRound'', JInt (we_reveal_round e)),
      (''durationRounds'', case we_duration_rounds e of None \<Rightarrow> JNull | Some d \<Rightarrow> JInt d),
      (''effects'', JArr (map EventEffect_to_wire (we_effects e))),
      (''schemaVersion'', JStr (ascii (we_schema_version e)))]"

section \<open>Snapshots\<close>

record RoyalOrder =
  ro_event_id :: string
  ro_good :: string
  ro_price_atomic :: int
  ro_quantity_limit :: int

record WorldSnapshot =
  ws_round_index :: int
  ws_market_prices :: "(string, int) dict"
  ws_final_prices :: "(string, int) dict"
  ws_supply_index_bps :: "(string, int) dict"
  ws_bubble_premium_bps :: "(string, int) dict"
  ws_royal_orders :: "RoyalOrder list"
  ws_revealed_event_ids :: "string list"

record WorldState =
  wo_event_catalog :: "(string, WorldEvent) dict"
  wo_base_prices :: "(string, int) dict"
  wo_revealed_event_ids :: "string list"

definition WorldState_post_init :: "WorldState \<Rightarrow> WorldState result" where
  "WorldState_post_init w =
     (if set (dkeys (wo_base_prices w)) \<noteq> set GOOD_IDS then
        Inl (EventError ''base prices require exactly the canonical goods'')
      else if list_ex (\<lambda>v. v \<le> 0) (dvalues (wo_base_prices w)) then
        Inl (EventError ''base prices must be positive integers'')
      else Inr w)"

text \<open>The four mutable tables that \<open>snapshot\<close> threads through \<open>_apply_market_effect\<close>.\<close>

record market_tables =
  mt_market :: "(string, int) dict"
  mt_supply :: "(string, int) dict"
  mt_bubble :: "(string, int) dict"
  mt_orders :: "RoyalOrder list"

definition lookup :: "(string, int) dict \<Rightarrow> string \<Rightarrow> int result" where
  "lookup d k = (case dget d k of None \<Rightarrow> Inl (KeyError k) | Some v \<Rightarrow> Inr v)"

definition or_zero :: "int option \<Rightarrow> int" where
  "or_zero v = (case v of None \<Rightarrow> 0 | Some x \<Rightarrow> x)"

definition apply_market_effect ::
    "string \<Rightarrow> (string, int) dict \<Rightarrow> EventEffect \<Rightarrow> market_tables \<Rightarrow> market_tables result" where
  "apply_market_effect event_id base_prices e t =
     (if ef_target e \<notin> {Market, Both} then Inr t
      else case ef_kind e of
        PRICE_MULTIPLY_BPS \<Rightarrow>
          bindR (lookup (mt_market t) (ef_good e)) (\<lambda>p.
            bindR (apply_basis_points p (or_zero (ef_basis_points e))) (\<lambda>q.
              Inr (t\<lparr>mt_market := dput (mt_market t) (ef_good e) q\<rparr>)))
      | PRICE_RESET_TO_BASE \<Rightarrow>
          bindR (lookup base_prices (ef_good e)) (\<lambda>p.
            Inr (t\<lparr>mt_market := dput (mt_market t) (ef_good e) p\<rparr>))
      | SUPPLY_INDEX_ADD_BPS \<Rightarrow>
          bindR (lookup (mt_supply t) (ef_good e)) (\<lambda>s.
            Inr (t\<lparr>mt_supply := dput (mt_supply t) (ef_good e) (max 0 (s + or_zero (ef_basis_points e)))\<rparr>))
      | BUBBLE_ADD_BPS \<Rightarrow>
          bindR (lookup (mt_bubble t) (ef_good e)) (\<lambda>b.
            Inr (t\<lparr>mt_bubble := dput (mt_bubble t) (ef_good e) (b + or_zero (ef_basis_points e))\<rparr>))
      | BUBBLE_CLEAR \<Rightarrow> Inr (t\<lparr>mt_bubble := dput (mt_bubble t) (ef_good e) 0\<rparr>)
      | CREATE_ROYAL_ORDER \<Rightarrow>
          (case (ef_order_price_atomic e, ef_order_limit e) of
             (Some p, Some l) \<Rightarrow>
               Inr (t\<lparr>mt_orders := mt_orders t @ [\<lparr>ro_event_id = event_id, ro_good = ef_good e,
                                                  ro_price_atomic = p, ro_quantity_limit = l\<rparr>]\<rparr>)
           | _ \<Rightarrow> Inl AssertionError))"

definition apply_final_effect ::
    "(string, int) dict \<Rightarrow> EventEffect \<Rightarrow> (string, int) dict \<Rightarrow> (string, int) dict result" where
  "apply_final_effect base_prices e final =
     (if ef_target e \<notin> {Final, Both} then Inr final
      else case ef_kind e of
        PRICE_MULTIPLY_BPS \<Rightarrow>
          bindR (lookup final (ef_good e)) (\<lambda>p.
            bindR (apply_basis_points p (or_zero (ef_basis_points e))) (\<lambda>q. Inr (dput final (ef_good e) q)))
      | PRICE_RESET_TO_BASE \<Rightarrow>
          bindR (lookup base_prices (ef_good e)) (\<lambda>p. Inr (dput final (ef_good e) p))
      | _ \<Rightarrow> Inr final)"

definition apply_event ::
    "int \<Rightarrow> (string, int) dict \<Rightarrow> WorldEvent \<Rightarrow> market_tables \<times> (string, int) dict
     \<Rightarrow> (market_tables \<times> (string, int) dict) result" where
  "apply_event round_index base_prices ev s =
     bindR (if active_in_round ev round_index
            then foldR (apply_market_effect (we_event_id ev) base_prices) (we_effects ev) (fst s)
            else Inr (fst s))
       (\<lambda>t. bindR (foldR (apply_final_effect base_prices) (we_effects ev) (snd s)) (\<lambda>f. Inr (t, f)))"

definition catalog_event :: "WorldState \<Rightarrow> string \<Rightarrow> WorldEvent result" where
  "catalog_event w i = (case dget (wo_event_catalog w) i of None \<Rightarrow> Inl (KeyError i) | Some e \<Rightarrow> Inr e)"

definition initial_tables :: "WorldState \<Rightarrow> market_tables" where
  "initial_tables w = \<lparr>mt_market = wo_base_prices w, mt_supply = map (\<lambda>g. (g, 10000)) GOOD_IDS,
                       mt_bubble = map (\<lambda>g. (g, 0)) GOOD_IDS, mt_orders = []\<rparr>"

definition snapshot :: "WorldState \<Rightarrow> int \<Rightarrow> WorldSnapshot result" where
  "snapshot w round_index =
     (if round_index < 0 then Inl (EventError ''round_index cannot be negative'')
      else bindR (mapR (catalog_event w) (wo_revealed_event_ids w)) (\<lambda>events.
        let revealed = filter (\<lambda>e. we_reveal_round e \<le> round_index) events
        in bindR (foldR (apply_event round_index (wo_base_prices w)) revealed (initial_tables w, wo_base_prices w))
             (\<lambda>(t, final). Inr
                \<lparr>ws_round_index = round_index, ws_market_prices = mt_market t, ws_final_prices = final,
                 ws_supply_index_bps = mt_supply t, ws_bubble_premium_bps = mt_bubble t,
                 ws_royal_orders = mt_orders t, ws_revealed_event_ids = wo_revealed_event_ids w\<rparr>)))"

text \<open>\<open>reveal\<close> records the event before it takes the snapshot, so the state change stays even when
  the snapshot raises.\<close>

definition reveal :: "WorldState \<Rightarrow> string \<Rightarrow> int \<Rightarrow> WorldSnapshot result \<times> WorldState" where
  "reveal w event_id round_index =
     (case dget (wo_event_catalog w) event_id of
        None \<Rightarrow> (Inl (EventError (''unknown event: '' @ event_id)), w)
      | Some ev \<Rightarrow>
          if we_reveal_round ev \<noteq> round_index then
            (Inl (EventError ''event cannot be revealed outside its scheduled round''), w)
          else if event_id \<in> set (wo_revealed_event_ids w) then
            (Inl (EventError ''event was already revealed''), w)
          else let w' = w\<lparr>wo_revealed_event_ids := wo_revealed_event_ids w @ [event_id]\<rparr>
               in (snapshot w' round_index, w'))"

section \<open>Market feedback\<close>

definition feedback_price :: "int \<Rightarrow> int option \<Rightarrow> int \<Rightarrow> int result" where
  "feedback_price event_price last_price raw_pressure =
     (let pressure = max (- 10000) (min 10000 raw_pressure);
          anchored = (case last_price of Some l \<Rightarrow> if l > 0 then (event_price * 3 + l) div 4 else event_price
                      | None \<Rightarrow> event_price);
          pressure_effect = max (- 2000) (min 2000 (pressure div 5))
      in bindR (apply_basis_points anchored pressure_effect) (\<lambda>v. Inr (max 1 v)))"

fun feedback_loop :: "(string, int) dict \<Rightarrow> (string, int) dict \<Rightarrow> string list \<Rightarrow> (string, int) dict
    \<Rightarrow> (string, int) dict result" where
  "feedback_loop last_clearing_prices buy_pressure_bps [] market = Inr market"
| "feedback_loop last_clearing_prices buy_pressure_bps (good # goods) market =
     bindR (lookup market good) (\<lambda>event_price.
       bindR (feedback_price event_price (dget last_clearing_prices good) (or_zero (dget buy_pressure_bps good))) (\<lambda>v.
         feedback_loop last_clearing_prices buy_pressure_bps goods (dput market good v)))"

definition apply_market_feedback ::
    "WorldSnapshot \<Rightarrow> (string, int) dict \<Rightarrow> (string, int) dict \<Rightarrow> WorldSnapshot result" where
  "apply_market_feedback s last_clearing_prices buy_pressure_bps =
     bindR (feedback_loop last_clearing_prices buy_pressure_bps GOOD_IDS (ws_market_prices s))
       (\<lambda>market. Inr (s\<lparr>ws_market_prices := market\<rparr>))"

section \<open>Commitment\<close>

definition schedule_payload :: "WorldEvent list \<Rightarrow> string \<Rightarrow> json" where
  "schedule_payload events seed =
     JObj [(''seed'', JStr (ascii seed)), (''events'', JArr (map WorldEvent_to_wire events)),
           (''schemaVersion'', JStr (ascii ''arena.event-schedule.v1''))]"

definition schedule_commitment :: "WorldEvent list \<Rightarrow> string \<Rightarrow> string result" where
  "schedule_commitment events seed =
     (if seed = [] then Inl (EventError ''event seed is required'')
      else sha256_identifier (schedule_payload events seed))"

section \<open>Snapshots of a well-formed world\<close>

definition good_table :: "(int \<Rightarrow> bool) \<Rightarrow> (string, int) dict \<Rightarrow> bool" where
  "good_table P d \<longleftrightarrow> distinct (dkeys d) \<and> set (dkeys d) = set GOOD_IDS \<and> (\<forall>v \<in> set (dvalues d). P v)"

lemma good_table_put:
  assumes "good_table P d" "g \<in> set GOOD_IDS" "P v"
  shows "good_table P (dput d g v)"
proof -
  have "\<forall>v \<in> set (dvalues (dput d g v)). P v"
    using assms by (intro dict.all_vals_put) (auto simp: good_table_def)
  then show ?thesis
    unfolding good_table_def set_dkeys_put using assms by (auto simp: good_table_def distinct_update)
qed

lemma good_table_lookup: "good_table P d \<Longrightarrow> g \<in> set GOOD_IDS \<Longrightarrow> \<exists>v. lookup d g = Inr v \<and> P v"
proof -
  assume d: "good_table P d" and "g \<in> set GOOD_IDS"
  then have "g \<in> dom (map_of d)" by (simp add: good_table_def dom_map_of_conv_image_fst)
  then obtain v where v: "dget d g = Some v" by blast
  then have "v \<in> set (dvalues d)" using map_of_SomeD [OF v] by force
  then show ?thesis using d v by (auto simp: lookup_def good_table_def)
qed

definition money_error :: "py_error \<Rightarrow> bool" where
  "money_error e \<longleftrightarrow> (\<exists>m. e = MoneyError m)"

lemma apply_basis_points_sat: "sat (\<lambda>v. 0 \<le> v) money_error (apply_basis_points p b)"
  by (auto simp: apply_basis_points_def Let_def money_error_def)

definition valid_effect :: "EventEffect \<Rightarrow> bool" where
  "valid_effect e \<longleftrightarrow> EventEffect_post_init e = Inr e"

definition valid_world :: "WorldState \<Rightarrow> bool" where
  "valid_world w \<longleftrightarrow> WorldState_post_init w = Inr w \<and> distinct (dkeys (wo_base_prices w))
     \<and> set (wo_revealed_event_ids w) \<subseteq> set (dkeys (wo_event_catalog w))
     \<and> (\<forall>ev \<in> set (dvalues (wo_event_catalog w)). \<forall>e \<in> set (we_effects ev). valid_effect e)"

definition tables_ok :: "market_tables \<Rightarrow> bool" where
  "tables_ok t \<longleftrightarrow> good_table (\<lambda>v. 0 \<le> v) (mt_market t) \<and> good_table (\<lambda>v. 0 \<le> v) (mt_supply t)
     \<and> good_table (\<lambda>_. True) (mt_bubble t) \<and> (\<forall>x \<in> set (mt_orders t). 0 < ro_price_atomic x \<and> 0 < ro_quantity_limit x)"

lemma valid_effect_good: "valid_effect e \<Longrightarrow> ef_good e \<in> set GOOD_IDS"
  by (auto simp: valid_effect_def EventEffect_post_init_def bindR_Inr_iff require_good_iff)

lemma valid_effect_order:
  "valid_effect e \<Longrightarrow> ef_kind e = CREATE_ROYAL_ORDER \<Longrightarrow>
   \<exists>p l. ef_order_price_atomic e = Some p \<and> 0 < p \<and> ef_order_limit e = Some l \<and> 0 < l"
  by (auto simp: valid_effect_def EventEffect_post_init_def bindR_Inr_iff missing_or_nonpositive_def needs_bps_def
      split: if_splits option.splits)

lemma market_effect_sat:
  assumes e: "valid_effect e" and t: "tables_ok t" and b: "good_table (\<lambda>v. 0 < v) base"
  shows "sat tables_ok money_error (apply_market_effect i base e t)"
proof -
  note g = valid_effect_good [OF e]
  have m: "good_table (\<lambda>v. 0 \<le> v) (mt_market t)" and s: "good_table (\<lambda>v. 0 \<le> v) (mt_supply t)"
    and u: "good_table (\<lambda>_. True) (mt_bubble t)" using t by (simp_all add: tables_ok_def)
  obtain p q r c where l: "lookup (mt_market t) (ef_good e) = Inr p" "lookup base (ef_good e) = Inr q" "0 < q"
      "lookup (mt_supply t) (ef_good e) = Inr r" "lookup (mt_bubble t) (ef_good e) = Inr c"
    using good_table_lookup [OF m g] good_table_lookup [OF b g] good_table_lookup [OF s g] good_table_lookup [OF u g] by blast
  have price: "tables_ok (t\<lparr>mt_market := dput (mt_market t) (ef_good e) v\<rparr>)" if "0 \<le> v" for v
    using t good_table_put [OF m g] that by (simp add: tables_ok_def)
  have sup: "tables_ok (t\<lparr>mt_supply := dput (mt_supply t) (ef_good e) (max 0 v)\<rparr>)" for v
    using t good_table_put [OF s g] by (simp add: tables_ok_def)
  have bub: "tables_ok (t\<lparr>mt_bubble := dput (mt_bubble t) (ef_good e) v\<rparr>)" for v
    using t good_table_put [OF u g] by (simp add: tables_ok_def)
  show ?thesis
  proof (cases "ef_target e \<in> {Market, Both}")
    case True
    have mul: "sat tables_ok money_error (bindR (apply_basis_points p (or_zero (ef_basis_points e)))
        (\<lambda>q. Inr (t\<lparr>mt_market := dput (mt_market t) (ef_good e) q\<rparr>)))"
      by (rule sat_bindR [OF apply_basis_points_sat]) (simp add: price)
    show ?thesis
    proof (cases "ef_kind e")
      case CREATE_ROYAL_ORDER
      then show ?thesis using valid_effect_order [OF e] t True by (auto simp: apply_market_effect_def tables_ok_def)
    qed (use True l mul in \<open>auto simp: apply_market_effect_def price sup bub\<close>)
  qed (simp add: apply_market_effect_def t)
qed

lemma final_effect_sat:
  assumes e: "valid_effect e" and f: "good_table (\<lambda>v. 0 \<le> v) f" and b: "good_table (\<lambda>v. 0 < v) base"
  shows "sat (good_table (\<lambda>v. 0 \<le> v)) money_error (apply_final_effect base e f)"
proof -
  note g = valid_effect_good [OF e]
  obtain p q where l: "lookup f (ef_good e) = Inr p" "lookup base (ef_good e) = Inr q" "0 < q"
    using good_table_lookup [OF f g] good_table_lookup [OF b g] by blast
  note put = good_table_put [OF f g]
  have "sat (good_table (\<lambda>v. 0 \<le> v)) money_error (bindR (apply_basis_points p (or_zero (ef_basis_points e)))
        (\<lambda>q. Inr (dput f (ef_good e) q)))"
    by (rule sat_bindR [OF apply_basis_points_sat]) (simp add: put)
  then show ?thesis
    using l f by (cases "ef_kind e") (auto simp: apply_final_effect_def put)
qed

lemma event_sat:
  assumes "\<forall>e \<in> set (we_effects ev). valid_effect e" and "good_table (\<lambda>v. 0 < v) base"
    and "tables_ok (fst s) \<and> good_table (\<lambda>v. 0 \<le> v) (snd s)"
  shows "sat (\<lambda>s. tables_ok (fst s) \<and> good_table (\<lambda>v. 0 \<le> v) (snd s)) money_error (apply_event r base ev s)"
  unfolding apply_event_def
proof (rule sat_bindR [where P = tables_ok], goal_cases)
  case 1
  then show ?case using assms by (auto intro!: sat_foldR market_effect_sat)
next
  case (2 t)
  show ?case
    by (rule sat_bindR [where P = "good_table (\<lambda>v. 0 \<le> v)"], rule sat_foldR)
      (use assms 2 in \<open>auto intro: final_effect_sat\<close>)
qed

lemma mapR_catalog:
  "set is \<subseteq> set (dkeys (wo_event_catalog w)) \<Longrightarrow>
   mapR (catalog_event w) is = Inr (map (\<lambda>i. the (dget (wo_event_catalog w) i)) is)"
proof (intro mapR_all_ok)
  fix i assume "set is \<subseteq> set (dkeys (wo_event_catalog w))" "i \<in> set is"
  then have "i \<in> dom (map_of (wo_event_catalog w))" by (auto simp: dom_map_of_conv_image_fst)
  then show "catalog_event w i = Inr (the (dget (wo_event_catalog w) i))" by (auto simp: catalog_event_def)
qed

text \<open>The revealed events that count in a round, in order of revelation.\<close>

definition counted :: "WorldState \<Rightarrow> int \<Rightarrow> WorldEvent list" where
  "counted w r = filter (\<lambda>e. we_reveal_round e \<le> r) (map (\<lambda>i. the (dget (wo_event_catalog w) i)) (wo_revealed_event_ids w))"

lemma valid_world_base: "valid_world w \<Longrightarrow> good_table (\<lambda>v. 0 < v) (wo_base_prices w)"
  by (auto simp: valid_world_def WorldState_post_init_def good_table_def list_ex_iff not_le split: if_splits)

lemma good_table_mono: "good_table P d \<Longrightarrow> (\<And>v. P v \<Longrightarrow> Q v) \<Longrightarrow> good_table Q d"
  by (auto simp: good_table_def)

lemma initial_tables_ok: "valid_world w \<Longrightarrow> tables_ok (initial_tables w)"
  using good_table_mono [OF valid_world_base, of w "\<lambda>v. 0 \<le> v"]
  by (auto simp: tables_ok_def initial_tables_def good_table_def comp_def) (simp_all add: GOOD_IDS_eq)

lemma counted_valid: "valid_world w \<Longrightarrow> ev \<in> set (counted w r) \<Longrightarrow> \<forall>e \<in> set (we_effects ev). valid_effect e"
proof -
  assume w: "valid_world w" and "ev \<in> set (counted w r)"
  then obtain i where i: "i \<in> set (wo_revealed_event_ids w)" "ev = the (dget (wo_event_catalog w) i)"
    by (auto simp: counted_def)
  then have "i \<in> dom (map_of (wo_event_catalog w))" using w by (auto simp: valid_world_def dom_map_of_conv_image_fst)
  then have "(i, ev) \<in> set (wo_event_catalog w)" using i(2) by (auto dest: map_of_SomeD)
  then show ?thesis using w by (force simp: valid_world_def)
qed

lemma snapshot_eq:
  assumes "valid_world w" "0 \<le> r"
  shows "snapshot w r = bindR (foldR (apply_event r (wo_base_prices w)) (counted w r) (initial_tables w, wo_base_prices w))
             (\<lambda>(t, final). Inr
                \<lparr>ws_round_index = r, ws_market_prices = mt_market t, ws_final_prices = final,
                 ws_supply_index_bps = mt_supply t, ws_bubble_premium_bps = mt_bubble t,
                 ws_royal_orders = mt_orders t, ws_revealed_event_ids = wo_revealed_event_ids w\<rparr>)"
  using assms mapR_catalog [of "wo_revealed_event_ids w" w] by (simp add: snapshot_def counted_def Let_def valid_world_def)

lemma snapshot_sat:
  assumes "valid_world w" "0 \<le> r"
  shows "case snapshot w r of
      Inl e \<Rightarrow> \<exists>m. e = MoneyError m
    | Inr s \<Rightarrow> good_table (\<lambda>v. 0 \<le> v) (ws_market_prices s) \<and> good_table (\<lambda>v. 0 \<le> v) (ws_final_prices s)
        \<and> good_table (\<lambda>v. 0 \<le> v) (ws_supply_index_bps s) \<and> good_table (\<lambda>_. True) (ws_bubble_premium_bps s)
        \<and> (\<forall>x \<in> set (ws_royal_orders s). 0 < ro_price_atomic x \<and> 0 < ro_quantity_limit x)"
proof -
  have "sat (\<lambda>s. tables_ok (fst s) \<and> good_table (\<lambda>v. 0 \<le> v) (snd s)) money_error
      (foldR (apply_event r (wo_base_prices w)) (counted w r) (initial_tables w, wo_base_prices w))"
    using initial_tables_ok [OF assms(1)] good_table_mono [OF valid_world_base [OF assms(1)], of "\<lambda>v. 0 \<le> v"]
    by (intro sat_foldR event_sat counted_valid [OF assms(1)] valid_world_base [OF assms(1)]) auto
  then show ?thesis
    unfolding snapshot_eq [OF assms]
    by (cases "foldR (apply_event r (wo_base_prices w)) (counted w r) (initial_tables w, wo_base_prices w)")
      (auto simp: money_error_def tables_ok_def)
qed


text \<open>Property C34: in a validated world a snapshot of a non-negative round either raises the money
  bound error or has a non-negative market price, final price and supply index for exactly the
  four goods, a bubble premium for exactly the four goods, and only royal orders with a positive price
  and a positive limit; no other exception is possible.\<close>

theorem snapshot_wellformed:
  assumes "valid_world w" "0 \<le> r"
  shows "case snapshot w r of
      Inl e \<Rightarrow> \<exists>m. e = MoneyError m
    | Inr s \<Rightarrow> good_table (\<lambda>v. 0 \<le> v) (ws_market_prices s) \<and> good_table (\<lambda>v. 0 \<le> v) (ws_final_prices s)
        \<and> good_table (\<lambda>v. 0 \<le> v) (ws_supply_index_bps s) \<and> good_table (\<lambda>_. True) (ws_bubble_premium_bps s)
        \<and> (\<forall>x \<in> set (ws_royal_orders s). 0 < ro_price_atomic x \<and> 0 < ro_quantity_limit x)"
  using assms by (rule snapshot_sat)

lemma inactive_event: "\<not> active_in_round ev r \<Longrightarrow> apply_event r base ev s = Inr (t, f) \<Longrightarrow> t = fst s"
  by (auto simp: apply_event_def bindR_Inr_iff)

lemma inactive_events:
  "\<forall>ev \<in> set evs. \<not> active_in_round ev r \<Longrightarrow> foldR (apply_event r base) evs s = Inr (t, f) \<Longrightarrow> t = fst s"
proof (induction evs arbitrary: s)
  case (Cons ev evs)
  then obtain s' where "apply_event r base ev s = Inr s'" "foldR (apply_event r base) evs s' = Inr (t, f)"
    by (auto simp: bindR_Inr_iff)
  moreover obtain t' f' where "s' = (t', f')" by (cases s')
  ultimately show ?case using Cons inactive_event [of ev r base s t' f'] Cons.IH [of s'] by force
qed simp

text \<open>Expired events leave no trace on the market: in a round in which none of the
  revealed events is active, the snapshot has the base prices, the neutral supply index, no bubble
  and no royal order.\<close>

theorem snapshot_quiet_round:
  assumes "valid_world w" "snapshot w r = Inr s" "\<forall>ev \<in> set (counted w r). \<not> active_in_round ev r"
  shows "ws_market_prices s = wo_base_prices w \<and> ws_supply_index_bps s = map (\<lambda>g. (g, 10000)) GOOD_IDS
     \<and> ws_bubble_premium_bps s = map (\<lambda>g. (g, 0)) GOOD_IDS \<and> ws_royal_orders s = []"
proof -
  have r: "0 \<le> r" using assms(2) by (auto simp: snapshot_def split: if_splits)
  then obtain t f where f: "foldR (apply_event r (wo_base_prices w)) (counted w r) (initial_tables w, wo_base_prices w) = Inr (t, f)"
    and s: "ws_market_prices s = mt_market t" "ws_supply_index_bps s = mt_supply t" "ws_bubble_premium_bps s = mt_bubble t"
      "ws_royal_orders s = mt_orders t"
    using assms(2) by (auto simp: snapshot_eq [OF assms(1)] bindR_Inr_iff)
  have "t = initial_tables w" using inactive_events [OF assms(3) f] by simp
  then show ?thesis using s by (simp add: initial_tables_def)
qed

text \<open>The final prices are the fold of all revealed effects, whatever the round.\<close>

lemma final_of_events:
  "foldR (apply_event r base) evs s = Inr (t, f) \<Longrightarrow>
   foldR (apply_final_effect base) (concat (map we_effects evs)) (snd s) = Inr f"
proof (induction evs arbitrary: s)
  case (Cons ev evs)
  then obtain s' where 1: "apply_event r base ev s = Inr s'" and 2: "foldR (apply_event r base) evs s' = Inr (t, f)"
    by (auto simp: bindR_Inr_iff)
  from 1 have "foldR (apply_final_effect base) (we_effects ev) (snd s) = Inr (snd s')"
    by (auto simp: apply_event_def bindR_Inr_iff)
  then show ?case using Cons.IH [OF 2] by (simp add: foldR_append)
qed simp

text \<open>Final prices do not depend on event durations or on the round in which they are
  read: two snapshots of the same world taken after every revealed event's round agree on
  the final prices.\<close>

theorem snapshot_final_prices_stable:
  assumes "valid_world w" "snapshot w r = Inr s" "snapshot w r' = Inr s'"
    and "\<forall>i \<in> set (wo_revealed_event_ids w). we_reveal_round (the (dget (wo_event_catalog w) i)) \<le> min r r'"
  shows "ws_final_prices s = ws_final_prices s'"
proof -
  have c: "counted w r = counted w r'" using assms(4) by (auto simp: counted_def filter_id_conv intro: filter_cong)
  have fin: "foldR (apply_final_effect (wo_base_prices w)) (concat (map we_effects (counted w q))) (wo_base_prices w)
      = Inr (ws_final_prices z)" if "snapshot w q = Inr z" for q z
  proof -
    have q: "0 \<le> q" using that by (auto simp: snapshot_def split: if_splits)
    then show ?thesis using that final_of_events by (fastforce simp: snapshot_eq [OF assms(1)] bindR_Inr_iff)
  qed
  from fin [OF assms(2)] fin [OF assms(3)] show ?thesis by (simp add: c)
qed

section \<open>Revealing events\<close>

definition reveal_log_ok :: "WorldState \<Rightarrow> bool" where
  "reveal_log_ok w \<longleftrightarrow> distinct (wo_revealed_event_ids w) \<and> set (wo_revealed_event_ids w) \<subseteq> set (dkeys (wo_event_catalog w))"

definition reveal_step :: "string \<times> int \<Rightarrow> WorldState \<Rightarrow> WorldState" where
  "reveal_step req w = snd (reveal w (fst req) (snd req))"

lemma reveal_cases:
  "reveal_step req w = w \<or>
   (\<exists>ev. dget (wo_event_catalog w) (fst req) = Some ev \<and> we_reveal_round ev = snd req \<and> fst req \<notin> set (wo_revealed_event_ids w)
      \<and> reveal_step req w = w\<lparr>wo_revealed_event_ids := wo_revealed_event_ids w @ [fst req]\<rparr>)"
  by (auto simp: reveal_step_def reveal_def Let_def split: option.splits)

lemma reveal_step_inv:
  assumes "reveal_log_ok w"
  shows "reveal_log_ok (reveal_step req w)"
  using reveal_cases [of req w]
proof
  assume "\<exists>ev. dget (wo_event_catalog w) (fst req) = Some ev \<and> we_reveal_round ev = snd req \<and> fst req \<notin> set (wo_revealed_event_ids w)
      \<and> reveal_step req w = w\<lparr>wo_revealed_event_ids := wo_revealed_event_ids w @ [fst req]\<rparr>"
  then obtain ev where ev: "dget (wo_event_catalog w) (fst req) = Some ev" "fst req \<notin> set (wo_revealed_event_ids w)"
    "reveal_step req w = w\<lparr>wo_revealed_event_ids := wo_revealed_event_ids w @ [fst req]\<rparr>" by blast
  have "fst req \<in> set (dkeys (wo_event_catalog w))" using map_of_SomeD [OF ev(1)] by force
  then show ?thesis using assms ev by (simp add: reveal_log_ok_def)
qed (simp add: assms)

interpretation world: invariant_machine reveal_step "\<lambda>_ _. True" reveal_log_ok
  by unfold_locales (rule reveal_step_inv)

lemma reveal_run_catalog: "wo_event_catalog (fold reveal_step reqs w) = wo_event_catalog w"
proof (induction reqs arbitrary: w)
  case (Cons r reqs)
  then show ?case using reveal_cases [of r w] by auto
qed simp

text \<open>Whatever sequence of reveal requests arrives, each event is revealed at most once
  and only events of the catalog are revealed; each single request either leaves the world
  as it was or reveals an event in exactly its scheduled round, and the catalog never changes.\<close>

theorem reveal_at_most_once:
  assumes "reveal_log_ok w"
  shows "distinct (wo_revealed_event_ids (fold reveal_step reqs w))
    \<and> set (wo_revealed_event_ids (fold reveal_step reqs w)) \<subseteq> set (dkeys (wo_event_catalog w))
    \<and> (reveal_step req w \<noteq> w \<longrightarrow> (\<exists>ev. dget (wo_event_catalog w) (fst req) = Some ev \<and> we_reveal_round ev = snd req
         \<and> wo_revealed_event_ids (reveal_step req w) = wo_revealed_event_ids w @ [fst req]))"
  using world.run_always [OF assms, of reqs] reveal_cases [of req w] reveal_run_catalog [of reqs w]
  by (auto simp: reveal_log_ok_def)

section \<open>Market feedback\<close>

definition anchored_price :: "int \<Rightarrow> int option \<Rightarrow> int" where
  "anchored_price p l = (case l of Some x \<Rightarrow> if x > 0 then (p * 3 + x) div 4 else p | None \<Rightarrow> p)"

lemma feedback_price_exact:
  assumes "feedback_price p l q = Inr v"
  shows "0 \<le> anchored_price p l" "v = max 1 ((anchored_price p l * (10000 + max (- 2000) (min 2000 (q div 5))) + 5000) div 10000)"
proof -
  define e where "e = max (- 2000) (min 2000 (q div 5))"
  have c: "max (- 2000) (min 2000 (max (- 10000) (min 10000 q) div 5)) = e" unfolding e_def by (simp add: max_def min_def) linarith
  obtain w where w: "apply_basis_points (anchored_price p l) e = Inr w" "v = max 1 w"
    using assms unfolding feedback_price_def Let_def c anchored_price_def [symmetric] bindR_Inr_iff by blast
  then have "0 \<le> anchored_price p l" "w = (anchored_price p l * (10000 + e) + 5000) div 10000" unfolding apply_basis_points_Inr_iff by blast+
  then show "0 \<le> anchored_price p l" "v = max 1 ((anchored_price p l * (10000 + max (- 2000) (min 2000 (q div 5))) + 5000) div 10000)"
    using w(2) unfolding e_def by blast+
qed

text \<open>What the formula means: the nearest atomic price, its direction and its bounds.\<close>

lemma feedback_price_bound:
  fixes a q :: int
  defines "e \<equiv> max (- 2000) (min 2000 (q div 5))"
  assumes "0 \<le> a" "v = max 1 ((a * (10000 + e) + 5000) div 10000)"
  shows "1 \<le> v" "a * (10000 + e) < 10000 * v + 5000" "v = 1 \<or> 10000 * v \<le> a * (10000 + e) + 5000" "q = 0 \<Longrightarrow> v = max 1 a" "0 \<le> q \<Longrightarrow> a \<le> v"
    "q \<le> 0 \<Longrightarrow> v \<le> max 1 a" "8 * a - 5 \<le> 10 * v" "v = 1 \<or> 10 * v \<le> 12 * a + 5"
proof -
  have e: "- 2000 \<le> e" "e \<le> 2000" "q = 0 \<Longrightarrow> e = 0" "0 \<le> q \<Longrightarrow> 0 \<le> e" "q \<le> 0 \<Longrightarrow> e \<le> 0" by (auto simp: e_def)
  have b: "a * 8000 \<le> a * (10000 + e)" "a * (10000 + e) \<le> a * 12000" "0 \<le> q \<Longrightarrow> a * 10000 \<le> a * (10000 + e)" "q \<le> 0 \<Longrightarrow> a * (10000 + e) \<le> a * 10000"
    using assms(2) e by (intro mult_left_mono; simp)+
  show "1 \<le> v" "a * (10000 + e) < 10000 * v + 5000" "v = 1 \<or> 10000 * v \<le> a * (10000 + e) + 5000" "q = 0 \<Longrightarrow> v = max 1 a"
    "8 * a - 5 \<le> 10 * v" "v = 1 \<or> 10 * v \<le> 12 * a + 5"
    using assms(3) b(1,2) e(3) by auto
  show "0 \<le> q \<Longrightarrow> a \<le> v" "q \<le> 0 \<Longrightarrow> v \<le> max 1 a" using assms(3) b(3,4) by linarith+
qed

lemma feedback_loop_bound:
  assumes "feedback_loop lp bp gs m = Inr m'" "distinct gs"
  shows "(\<forall>g. g \<notin> set gs \<longrightarrow> dget m' g = dget m g)
    \<and> (\<forall>g \<in> set gs. \<exists>p v. dget m g = Some p \<and> dget m' g = Some v \<and> feedback_price p (dget lp g) (or_zero (dget bp g)) = Inr v)"
  using assms
proof (induction gs arbitrary: m)
  case (Cons g gs)
  from Cons.prems(1) obtain p v where pv: "dget m g = Some p" "feedback_price p (dget lp g) (or_zero (dget bp g)) = Inr v"
    "feedback_loop lp bp gs (dput m g v) = Inr m'"
    by (auto simp: bindR_Inr_iff lookup_def split: option.splits)
  from Cons.IH [OF pv(3)] Cons.prems(2) pv show ?case
    by (auto simp: dict.get_put) metis
qed simp


text \<open>Full buy pressure moves the price by twenty percent, ten times the two percent that the
  documentation of the function states.\<close>

lemma feedback_pressure_twenty_percent: "feedback_price 1000000 None 10000 = Inr 1200000"
  by (simp add: feedback_price_def apply_basis_points_def MAX_GOLD_ATOMIC_def)

section \<open>Witnesses\<close>

definition demo_effect :: EventEffect where
  "demo_effect = \<lparr>ef_kind = PRICE_MULTIPLY_BPS, ef_good = ''iron'', ef_target = Both, ef_basis_points = Some 1000,
                  ef_order_price_atomic = None, ef_order_limit = None\<rparr>"

definition demo_event :: WorldEvent where
  "demo_event = \<lparr>we_event_id = ''iron-rush'', we_display_name = ascii ''Rush'', we_narrative = [], we_reveal_round = 1,
                 we_duration_rounds = Some 1, we_effects = [demo_effect], we_schema_version = ''arena.world-event.v1''\<rparr>"

definition demo_world :: WorldState where
  "demo_world = \<lparr>wo_event_catalog = [(''iron-rush'', demo_event)], wo_base_prices = INITIAL_PRICES,
                 wo_revealed_event_ids = [''iron-rush'']\<rparr>"

lemma demo_world_valid: "valid_world demo_world"
  by (simp add: valid_world_def demo_world_def demo_event_def demo_effect_def WorldState_post_init_def INITIAL_PRICES_eq
      GOOD_IDS_eq valid_effect_def EventEffect_post_init_def require_good_def GOODS_def needs_bps_def)

lemmas demo_snapshot_defs = snapshot_def mapR_catalog apply_event_def apply_market_effect_def apply_final_effect_def
  active_in_round_def catalog_event_def lookup_def or_zero_def apply_basis_points_def MAX_GOLD_ATOMIC_def
  demo_world_def demo_event_def demo_effect_def initial_tables_def INITIAL_PRICES_eq GOOD_IDS_eq

definition demo_snapshot :: "int \<Rightarrow> int \<Rightarrow> WorldSnapshot" where
  "demo_snapshot r market_iron = \<lparr>ws_round_index = r,
     ws_market_prices = [(''grain'', 2000000), (''iron'', market_iron), (''warhorse'', 8000000), (''gems'', 3000000)],
     ws_final_prices = [(''grain'', 2000000), (''iron'', 5500000), (''warhorse'', 8000000), (''gems'', 3000000)],
     ws_supply_index_bps = map (\<lambda>g. (g, 10000)) GOOD_IDS, ws_bubble_premium_bps = map (\<lambda>g. (g, 0)) GOOD_IDS,
     ws_royal_orders = [], ws_revealed_event_ids = [''iron-rush'']\<rparr>"

lemma demo_snapshots: "snapshot demo_world 1 = Inr (demo_snapshot 1 5500000)" "snapshot demo_world 2 = Inr (demo_snapshot 2 5000000)"
  by (simp_all add: demo_snapshot_defs demo_snapshot_def)

theorem snapshot_wellformed_witness: "good_table (\<lambda>v. 0 \<le> v) (ws_final_prices (demo_snapshot 1 5500000))"
  using snapshot_wellformed [OF demo_world_valid, of 1] by (simp add: demo_snapshots)

theorem snapshot_quiet_round_witness: "ws_market_prices (demo_snapshot 2 5000000) = INITIAL_PRICES"
  using snapshot_quiet_round [OF demo_world_valid demo_snapshots(2)]
  by (simp add: counted_def demo_world_def demo_event_def active_in_round_def)

theorem snapshot_final_prices_stable_witness:
  "ws_final_prices (demo_snapshot 1 5500000) = ws_final_prices (demo_snapshot 2 5000000)"
  using snapshot_final_prices_stable [OF demo_world_valid demo_snapshots] by (simp add: demo_world_def demo_event_def)

theorem reveal_at_most_once_witness:
  "distinct (wo_revealed_event_ids (fold reveal_step [(''iron-rush'', 1), (''iron-rush'', 1)] demo_world))"
  using reveal_at_most_once [of demo_world "[(''iron-rush'', 1), (''iron-rush'', 1)]"]
  by (simp add: reveal_log_ok_def demo_world_def)


section \<open>The commitment is binding\<close>

lemma EffectKind_value_inj [simp]: "EffectKind_value k = EffectKind_value k' \<longleftrightarrow> k = k'"
  by (cases k; cases k') auto

lemma PriceTarget_value_inj [simp]: "PriceTarget_value k = PriceTarget_value k' \<longleftrightarrow> k = k'"
  by (cases k; cases k') auto

lemma effect_wire_canon:
  "canon (EventEffect_to_wire e) = JObj
     (optional_field ''basisPoints'' JInt (ef_basis_points e) @ [(''good'', JStr (ascii (ef_good e))), (''kind'', JStr (ascii (EffectKind_value (ef_kind e))))]
      @ optional_field ''orderLimit'' JInt (ef_order_limit e)
      @ optional_field ''orderPriceAtomic'' (\<lambda>p. JStr (ascii (show_int p))) (ef_order_price_atomic e)
      @ [(''target'', JStr (ascii (PriceTarget_value (ef_target e))))])"
  by (cases "ef_basis_points e"; cases "ef_order_limit e"; cases "ef_order_price_atomic e")
    (simp_all add: EventEffect_to_wire_def optional_field_def)

lemma effect_wire_inj: "canon (EventEffect_to_wire e) = canon (EventEffect_to_wire e') \<Longrightarrow> e = e'"
  unfolding effect_wire_canon
  by (cases e; cases e') (auto simp: optional_field_def split: option.splits)

lemma event_wire_canon:
  "canon (WorldEvent_to_wire e) = JObj
     [(''displayName'', JStr (we_display_name e)),
      (''durationRounds'', case we_duration_rounds e of None \<Rightarrow> JNull | Some d \<Rightarrow> JInt d),
      (''effects'', JArr (map (\<lambda>x. canon (EventEffect_to_wire x)) (we_effects e))),
      (''eventId'', JStr (ascii (we_event_id e))),
      (''narrative'', JStr (we_narrative e)),
      (''revealRound'', JInt (we_reveal_round e)),
      (''schemaVersion'', JStr (ascii (we_schema_version e)))]"
  by (cases "we_duration_rounds e") (simp_all add: WorldEvent_to_wire_def)

lemma event_wire_inj: "canon (WorldEvent_to_wire e) = canon (WorldEvent_to_wire e') \<Longrightarrow> e = e'"
proof -
  assume eq: "canon (WorldEvent_to_wire e) = canon (WorldEvent_to_wire e')"
  have inj: "inj (\<lambda>x. canon (EventEffect_to_wire x))" by (rule injI) (rule effect_wire_inj)
  have "we_effects e = we_effects e'"
    using eq unfolding event_wire_canon by (auto simp: inj_map_eq_map [OF inj])
  then show ?thesis using eq unfolding event_wire_canon
    by (cases e; cases e') (auto split: option.splits)
qed

lemma schedule_payload_inj:
  assumes "canon (schedule_payload evs seed) = canon (schedule_payload evs' seed')"
  shows "evs = evs' \<and> seed = seed'"
proof -
  have inj: "inj (\<lambda>x. canon (WorldEvent_to_wire x))" by (rule injI) (rule event_wire_inj)
  then show ?thesis using assms by (simp add: schedule_payload_def inj_map_eq_map [OF inj] comp_def)
qed

definition unicode_event :: "WorldEvent \<Rightarrow> bool" where
  "unicode_event e \<longleftrightarrow> unicode (we_display_name e) \<and> clean_text (we_display_name e) \<and> unicode (we_narrative e) \<and> clean_text (we_narrative e)"

lemma unicode_payload: "\<forall>e \<in> set evs. unicode_event e \<Longrightarrow> unicode_json (schedule_payload evs seed)"
  by (auto simp: schedule_payload_def WorldEvent_to_wire_def EventEffect_to_wire_def optional_field_def unicode_event_def list_all_iff
      split: option.splits)

text \<open>The schedule commitment is binding: two different pairs of schedule and seed are
  hashed from different byte strings, so they have the same commitment only if SHA-256 maps these
  two byte strings to the same digest.\<close>

theorem schedule_commitment_binding:
  assumes "\<forall>e \<in> set evs. unicode_event e" "\<forall>e \<in> set evs'. unicode_event e" "seed \<noteq> []" "seed' \<noteq> []"
    and "(evs, seed) \<noteq> (evs', seed')"
  shows "\<exists>b b'. canonical_json_bytes (schedule_payload evs seed) = Inr b \<and> canonical_json_bytes (schedule_payload evs' seed') = Inr b'
     \<and> b \<noteq> b' \<and> (schedule_commitment evs seed = schedule_commitment evs' seed' \<longleftrightarrow> sha256 b = sha256 b')"
proof -
  have "canon (schedule_payload evs seed) \<noteq> canon (schedule_payload evs' seed')"
    using schedule_payload_inj assms(5) by blast
  from identifier_collision [OF unicode_payload unicode_payload this] assms(1,2) show ?thesis
    using assms(3,4) by (simp add: schedule_commitment_def)
qed

theorem schedule_commitment_binding_witness:
  "\<exists>b b'. canonical_json_bytes (schedule_payload [demo_event] ''a'') = Inr b
     \<and> canonical_json_bytes (schedule_payload [demo_event] ''b'') = Inr b' \<and> b \<noteq> b'"
  using schedule_commitment_binding [of "[demo_event]" "[demo_event]" "''a''" "''b''"]
  by (auto simp: unicode_event_def demo_event_def)

end
