(* ===== verification/Arena_EventDeck.thy ===== *)
theory Arena_EventDeck
  imports Arena_Events
begin

text \<open>
  \<open>arena_game/presets.py\<close> and \<open>arena_game/event_deck.py\<close>: the two built-in event catalogs, with every
  display name and narrative as its code points, and the one-event-per-round schedule that is either
  the fixed demonstration or a shuffle ordered by SHA-256.
\<close>

section \<open>The catalogs\<close>

definition ev_palace_requisition :: WorldEvent where
  "ev_palace_requisition = \<lparr>
     we_event_id = ''palace-requisition'',
     we_display_name = [29579, 23467, 24449, 21484],
     we_narrative = [21271, 22659, 25112, 20107, 20877, 36215, 12290, 29579, 23467, 24449, 21484, 25512, 39640, 31934,
       38081, 29616, 36135, 38656, 27714, 65292, 32456, 22330, 20272, 20540, 28201, 21644, 19978, 21319,
       12290],
     we_reveal_round = 1,
     we_duration_rounds = Some 1,
     we_effects = [
        \<lparr>ef_kind = PRICE_MULTIPLY_BPS, ef_good = ''iron'', ef_target = Market, ef_basis_points = Some 10000,
          ef_order_price_atomic = None, ef_order_limit = None\<rparr>,
        \<lparr>ef_kind = PRICE_MULTIPLY_BPS, ef_good = ''iron'', ef_target = Final, ef_basis_points = Some 1000,
          ef_order_price_atomic = None, ef_order_limit = None\<rparr>],
     we_schema_version = ''arena.world-event.v1''\<rparr>"

definition ev_new_iron_mine :: WorldEvent where
  "ev_new_iron_mine = \<lparr>
     we_event_id = ''new-iron-mine'',
     we_display_name = [26032, 30719, 24320, 37319],
     we_narrative = [29579, 22478, 22806, 21457, 29616, 26032, 38081, 30719, 65292, 31934, 38081, 27969, 36890, 39588,
       22686, 65292, 26087, 24211, 23384, 20215, 26684, 25215, 21387, 12290],
     we_reveal_round = 2,
     we_duration_rounds = None,
     we_effects = [
        \<lparr>ef_kind = SUPPLY_INDEX_ADD_BPS, ef_good = ''iron'', ef_target = Market, ef_basis_points = Some 3000,
          ef_order_price_atomic = None, ef_order_limit = None\<rparr>,
        \<lparr>ef_kind = PRICE_MULTIPLY_BPS, ef_good = ''iron'', ef_target = Market, ef_basis_points = Some (- 2000),
          ef_order_price_atomic = None, ef_order_limit = None\<rparr>,
        \<lparr>ef_kind = PRICE_MULTIPLY_BPS, ef_good = ''iron'', ef_target = Final, ef_basis_points = Some (- 1000),
          ef_order_price_atomic = None, ef_order_limit = None\<rparr>],
     we_schema_version = ''arena.world-event.v1''\<rparr>"

definition ev_granary_fire :: WorldEvent where
  "ev_granary_fire = \<lparr>
     we_event_id = ''granary-fire'',
     we_display_name = [31918, 20179, 22833, 28779],
     we_narrative = [29579, 22478, 31918, 20179, 21270, 20026, 28784, 28908, 65292, 31918, 33609, 27969, 36890, 25910,
       32553, 65292, 39269, 39295, 25512, 39640, 20102, 27599, 34955, 31918, 30340, 20215, 26684, 12290],
     we_reveal_round = 3,
     we_duration_rounds = None,
     we_effects = [
        \<lparr>ef_kind = SUPPLY_INDEX_ADD_BPS, ef_good = ''grain'', ef_target = Market, ef_basis_points = Some (- 2500),
          ef_order_price_atomic = None, ef_order_limit = None\<rparr>,
        \<lparr>ef_kind = PRICE_MULTIPLY_BPS, ef_good = ''grain'', ef_target = Market, ef_basis_points = Some 3000,
          ef_order_price_atomic = None, ef_order_limit = None\<rparr>,
        \<lparr>ef_kind = PRICE_MULTIPLY_BPS, ef_good = ''grain'', ef_target = Final, ef_basis_points = Some 1500,
          ef_order_price_atomic = None, ef_order_limit = None\<rparr>],
     we_schema_version = ''arena.world-event.v1''\<rparr>"

definition ev_noble_gem_fever :: WorldEvent where
  "ev_noble_gem_fever = \<lparr>
     we_event_id = ''noble-gem-fever'',
     we_display_name = [36149, 26063, 29378, 28909],
     we_narrative = [20256, 35328, 26032, 29579, 23558, 20197, 23453, 30707, 38138, 28385, 29579, 24231, 65292, 36149,
       26063, 20105, 30456, 22244, 31215, 65292, 27873, 27819, 24320, 22987, 33192, 32960, 12290],
     we_reveal_round = 2,
     we_duration_rounds = None,
     we_effects = [
        \<lparr>ef_kind = BUBBLE_ADD_BPS, ef_good = ''gems'', ef_target = Market, ef_basis_points = Some 2500,
          ef_order_price_atomic = None, ef_order_limit = None\<rparr>,
        \<lparr>ef_kind = PRICE_MULTIPLY_BPS, ef_good = ''gems'', ef_target = Both, ef_basis_points = Some 2500,
          ef_order_price_atomic = None, ef_order_limit = None\<rparr>],
     we_schema_version = ''arena.world-event.v1''\<rparr>"

definition ev_coronation_cancelled :: WorldEvent where
  "ev_coronation_cancelled = \<lparr>
     we_event_id = ''coronation-cancelled'',
     we_display_name = [21152, 20885, 21462, 28040],
     we_narrative = [26032, 29579, 27515, 20110, 23467, 21464, 12290, 23453, 30707, 29579, 24231, 26080, 20154, 38382,
       27941, 65292, 27873, 27819, 39031, 21051, 22238, 24402, 22522, 26412, 38754, 12290],
     we_reveal_round = 5,
     we_duration_rounds = None,
     we_effects = [
        \<lparr>ef_kind = BUBBLE_CLEAR, ef_good = ''gems'', ef_target = Market, ef_basis_points = None,
          ef_order_price_atomic = None, ef_order_limit = None\<rparr>,
        \<lparr>ef_kind = PRICE_RESET_TO_BASE, ef_good = ''gems'', ef_target = Both, ef_basis_points = None,
          ef_order_price_atomic = None, ef_order_limit = None\<rparr>],
     we_schema_version = ''arena.world-event.v1''\<rparr>"

definition ev_barbarian_siege :: WorldEvent where
  "ev_barbarian_siege = \<lparr>
     we_event_id = ''barbarian-siege'',
     we_display_name = [34542, 26063, 22260, 22478],
     we_narrative = [34917, 32473, 32447, 34987, 20999, 26029, 65292, 31918, 33609, 25104, 20026, 27963, 21629, 20043,
       29289, 65292, 23453, 30707, 21364, 20877, 20063, 25442, 19981, 26469, 19968, 22359, 38754, 21253,
       12290],
     we_reveal_round = 4,
     we_duration_rounds = None,
     we_effects = [
        \<lparr>ef_kind = PRICE_MULTIPLY_BPS, ef_good = ''grain'', ef_target = Market, ef_basis_points = Some 5000,
          ef_order_price_atomic = None, ef_order_limit = None\<rparr>,
        \<lparr>ef_kind = PRICE_MULTIPLY_BPS, ef_good = ''grain'', ef_target = Final, ef_basis_points = Some 3000,
          ef_order_price_atomic = None, ef_order_limit = None\<rparr>,
        \<lparr>ef_kind = PRICE_MULTIPLY_BPS, ef_good = ''gems'', ef_target = Market, ef_basis_points = Some (- 4000),
          ef_order_price_atomic = None, ef_order_limit = None\<rparr>,
        \<lparr>ef_kind = PRICE_MULTIPLY_BPS, ef_good = ''gems'', ef_target = Final, ef_basis_points = Some (- 2500),
          ef_order_price_atomic = None, ef_order_limit = None\<rparr>],
     we_schema_version = ''arena.world-event.v1''\<rparr>"

definition ev_peace_rumor :: WorldEvent where
  "ev_peace_rumor = \<lparr>
     we_event_id = ''peace-rumor'',
     we_display_name = [35758, 21644, 20256, 38395],
     we_narrative = [19977, 20301, 29579, 23376, 25110, 23558, 20572, 25112, 12290, 20891, 38656, 20215, 26684, 22238,
       33853, 65292, 36149, 26063, 37325, 26032, 35848, 36215, 22882, 20360, 21644, 20307, 38754, 12290],
     we_reveal_round = 4,
     we_duration_rounds = None,
     we_effects = [
        \<lparr>ef_kind = PRICE_MULTIPLY_BPS, ef_good = ''iron'', ef_target = Market, ef_basis_points = Some (- 2000),
          ef_order_price_atomic = None, ef_order_limit = None\<rparr>,
        \<lparr>ef_kind = PRICE_MULTIPLY_BPS, ef_good = ''iron'', ef_target = Final, ef_basis_points = Some (- 1000),
          ef_order_price_atomic = None, ef_order_limit = None\<rparr>,
        \<lparr>ef_kind = PRICE_MULTIPLY_BPS, ef_good = ''warhorse'', ef_target = Market, ef_basis_points = Some (- 2000),
          ef_order_price_atomic = None, ef_order_limit = None\<rparr>,
        \<lparr>ef_kind = PRICE_MULTIPLY_BPS, ef_good = ''warhorse'', ef_target = Final, ef_basis_points = Some (- 1000),
          ef_order_price_atomic = None, ef_order_limit = None\<rparr>,
        \<lparr>ef_kind = PRICE_MULTIPLY_BPS, ef_good = ''gems'', ef_target = Market, ef_basis_points = Some 2500,
          ef_order_price_atomic = None, ef_order_limit = None\<rparr>,
        \<lparr>ef_kind = PRICE_MULTIPLY_BPS, ef_good = ''gems'', ef_target = Final, ef_basis_points = Some 1000,
          ef_order_price_atomic = None, ef_order_limit = None\<rparr>],
     we_schema_version = ''arena.world-event.v1''\<rparr>"

definition ev_merchant_caravan :: WorldEvent where
  "ev_merchant_caravan = \<lparr>
     we_event_id = ''merchant-caravan'',
     we_display_name = [21830, 38431, 20837, 22478],
     we_narrative = [21335, 26041, 21830, 38431, 31359, 36807, 23553, 38145, 25269, 36798, 29579, 22478, 65292, 31918,
       33609, 19982, 23453, 30707, 30340, 30701, 26399, 20379, 32473, 21516, 26102, 22686, 21152, 12290],
     we_reveal_round = 1,
     we_duration_rounds = Some 1,
     we_effects = [
        \<lparr>ef_kind = SUPPLY_INDEX_ADD_BPS, ef_good = ''grain'', ef_target = Market, ef_basis_points = Some 2000,
          ef_order_price_atomic = None, ef_order_limit = None\<rparr>,
        \<lparr>ef_kind = PRICE_MULTIPLY_BPS, ef_good = ''grain'', ef_target = Market, ef_basis_points = Some (- 1000),
          ef_order_price_atomic = None, ef_order_limit = None\<rparr>,
        \<lparr>ef_kind = PRICE_MULTIPLY_BPS, ef_good = ''gems'', ef_target = Market, ef_basis_points = Some (- 1000),
          ef_order_price_atomic = None, ef_order_limit = None\<rparr>],
     we_schema_version = ''arena.world-event.v1''\<rparr>"

definition ev_royal_wedding :: WorldEvent where
  "ev_royal_wedding = \<lparr>
     we_event_id = ''royal-wedding'',
     we_display_name = [29579, 23460, 23130, 31036],
     we_narrative = [29579, 23460, 31361, 28982, 23459, 24067, 32852, 23035, 65292, 36149, 26063, 20105, 36141, 23453,
       30707, 19982, 25112, 39532, 20197, 36214, 36212, 30427, 20856, 12290],
     we_reveal_round = 1,
     we_duration_rounds = None,
     we_effects = [
        \<lparr>ef_kind = PRICE_MULTIPLY_BPS, ef_good = ''gems'', ef_target = Both, ef_basis_points = Some 2000,
          ef_order_price_atomic = None, ef_order_limit = None\<rparr>,
        \<lparr>ef_kind = PRICE_MULTIPLY_BPS, ef_good = ''warhorse'', ef_target = Both, ef_basis_points = Some 1500,
          ef_order_price_atomic = None, ef_order_limit = None\<rparr>],
     we_schema_version = ''arena.world-event.v1''\<rparr>"

definition ev_stable_plague :: WorldEvent where
  "ev_stable_plague = \<lparr>
     we_event_id = ''stable-plague'',
     we_display_name = [39532, 21417, 30123, 30149],
     we_narrative = [29579, 22478, 39532, 21417, 29190, 21457, 30123, 30149, 65292, 25112, 39532, 20132, 26131, 39588,
       20919, 65292, 24184, 23384, 39532, 21305, 30340, 32456, 22330, 20272, 20540, 25215, 21387, 12290],
     we_reveal_round = 1,
     we_duration_rounds = None,
     we_effects = [
        \<lparr>ef_kind = SUPPLY_INDEX_ADD_BPS, ef_good = ''warhorse'', ef_target = Market, ef_basis_points = Some (- 2000),
          ef_order_price_atomic = None, ef_order_limit = None\<rparr>,
        \<lparr>ef_kind = PRICE_MULTIPLY_BPS, ef_good = ''warhorse'', ef_target = Both, ef_basis_points = Some (- 2000),
          ef_order_price_atomic = None, ef_order_limit = None\<rparr>],
     we_schema_version = ''arena.world-event.v1''\<rparr>"

definition MVP_EVENT_CATALOG :: "(string, WorldEvent) dict" where
  "MVP_EVENT_CATALOG =
     [(''palace-requisition'', ev_palace_requisition),
      (''new-iron-mine'', ev_new_iron_mine),
      (''granary-fire'', ev_granary_fire),
      (''noble-gem-fever'', ev_noble_gem_fever),
      (''coronation-cancelled'', ev_coronation_cancelled),
      (''barbarian-siege'', ev_barbarian_siege),
      (''peace-rumor'', ev_peace_rumor),
      (''merchant-caravan'', ev_merchant_caravan),
      (''royal-wedding'', ev_royal_wedding),
      (''stable-plague'', ev_stable_plague)]"

definition ev_grain_shortage_rumor_v2 :: WorldEvent where
  "ev_grain_shortage_rumor_v2 = \<lparr>
     we_event_id = ''grain-shortage-rumor-v2'',
     we_display_name = [31918, 33618, 20256, 38395],
     we_narrative = [31918, 20179, 30424, 28857, 20256, 20986, 32570, 21475, 65292, 20294, 32456, 22330, 22522, 26412,
       38754, 21482, 21463, 21040, 28201, 21644, 24433, 21709, 12290],
     we_reveal_round = 1,
     we_duration_rounds = Some 1,
     we_effects = [
        \<lparr>ef_kind = PRICE_MULTIPLY_BPS, ef_good = ''grain'', ef_target = Market, ef_basis_points = Some 900,
          ef_order_price_atomic = None, ef_order_limit = None\<rparr>,
        \<lparr>ef_kind = PRICE_MULTIPLY_BPS, ef_good = ''grain'', ef_target = Final, ef_basis_points = Some 200,
          ef_order_price_atomic = None, ef_order_limit = None\<rparr>],
     we_schema_version = ''arena.world-event.v1''\<rparr>"

definition ev_harvest_relief_v2 :: WorldEvent where
  "ev_harvest_relief_v2 = \<lparr>
     we_event_id = ''harvest-relief-v2'',
     we_display_name = [20016, 25910, 32531, 35299],
     we_narrative = [26089, 29087, 20316, 29289, 21040, 28207, 65292, 31918, 20215, 30701, 26399, 22238, 33853, 65292,
       38271, 26399, 20379, 32473, 20165, 23567, 24133, 25913, 21892, 12290],
     we_reveal_round = 1,
     we_duration_rounds = Some 1,
     we_effects = [
        \<lparr>ef_kind = PRICE_MULTIPLY_BPS, ef_good = ''grain'', ef_target = Market, ef_basis_points = Some (- 800),
          ef_order_price_atomic = None, ef_order_limit = None\<rparr>,
        \<lparr>ef_kind = PRICE_MULTIPLY_BPS, ef_good = ''grain'', ef_target = Final, ef_basis_points = Some (- 200),
          ef_order_price_atomic = None, ef_order_limit = None\<rparr>],
     we_schema_version = ''arena.world-event.v1''\<rparr>"

definition ev_iron_order_rumor_v2 :: WorldEvent where
  "ev_iron_order_rumor_v2 = \<lparr>
     we_event_id = ''iron-order-rumor-v2'',
     we_display_name = [20891, 26800, 35746, 21333, 20256, 38395],
     we_narrative = [20891, 26800, 35746, 21333, 25512, 39640, 31934, 38081, 29616, 36135, 65292, 32456, 22330, 38656,
       27714, 39044, 26399, 21482, 28201, 21644, 19978, 20462, 12290],
     we_reveal_round = 1,
     we_duration_rounds = Some 1,
     we_effects = [
        \<lparr>ef_kind = PRICE_MULTIPLY_BPS, ef_good = ''iron'', ef_target = Market, ef_basis_points = Some 900,
          ef_order_price_atomic = None, ef_order_limit = None\<rparr>,
        \<lparr>ef_kind = PRICE_MULTIPLY_BPS, ef_good = ''iron'', ef_target = Final, ef_basis_points = Some 200,
          ef_order_price_atomic = None, ef_order_limit = None\<rparr>],
     we_schema_version = ''arena.world-event.v1''\<rparr>"

definition ev_mine_output_revision_v2 :: WorldEvent where
  "ev_mine_output_revision_v2 = \<lparr>
     we_event_id = ''mine-output-revision-v2'',
     we_display_name = [30719, 20135, 39044, 26399, 19978, 35843],
     we_narrative = [26032, 30719, 35797, 20135, 21387, 20302, 31934, 38081, 29616, 36135, 65292, 38271, 26399, 20379,
       32473, 39044, 26399, 20165, 23567, 24133, 19978, 21319, 12290],
     we_reveal_round = 1,
     we_duration_rounds = Some 1,
     we_effects = [
        \<lparr>ef_kind = PRICE_MULTIPLY_BPS, ef_good = ''iron'', ef_target = Market, ef_basis_points = Some (- 800),
          ef_order_price_atomic = None, ef_order_limit = None\<rparr>,
        \<lparr>ef_kind = PRICE_MULTIPLY_BPS, ef_good = ''iron'', ef_target = Final, ef_basis_points = Some (- 200),
          ef_order_price_atomic = None, ef_order_limit = None\<rparr>],
     we_schema_version = ''arena.world-event.v1''\<rparr>"

definition ev_cavalry_review_v2 :: WorldEvent where
  "ev_cavalry_review_v2 = \<lparr>
     we_event_id = ''cavalry-review-v2'',
     we_display_name = [39569, 20853, 26816, 38405],
     we_narrative = [20020, 26102, 26816, 38405, 25260, 39640, 25112, 39532, 29616, 36135, 38656, 27714, 65292, 32456,
       22330, 20272, 20540, 21482, 23567, 24133, 19978, 21319, 12290],
     we_reveal_round = 1,
     we_duration_rounds = Some 1,
     we_effects = [
        \<lparr>ef_kind = PRICE_MULTIPLY_BPS, ef_good = ''warhorse'', ef_target = Market, ef_basis_points = Some 900,
          ef_order_price_atomic = None, ef_order_limit = None\<rparr>,
        \<lparr>ef_kind = PRICE_MULTIPLY_BPS, ef_good = ''warhorse'', ef_target = Final, ef_basis_points = Some 200,
          ef_order_price_atomic = None, ef_order_limit = None\<rparr>],
     we_schema_version = ''arena.world-event.v1''\<rparr>"

definition ev_stable_recovery_v2 :: WorldEvent where
  "ev_stable_recovery_v2 = \<lparr>
     we_event_id = ''stable-recovery-v2'',
     we_display_name = [39532, 21417, 22797, 20135],
     we_narrative = [39532, 21417, 24674, 22797, 20379, 24212, 20351, 25112, 39532, 29616, 36135, 22238, 33853, 65292,
       38271, 26399, 24433, 21709, 20445, 25345, 28201, 21644, 12290],
     we_reveal_round = 1,
     we_duration_rounds = Some 1,
     we_effects = [
        \<lparr>ef_kind = PRICE_MULTIPLY_BPS, ef_good = ''warhorse'', ef_target = Market, ef_basis_points = Some (- 800),
          ef_order_price_atomic = None, ef_order_limit = None\<rparr>,
        \<lparr>ef_kind = PRICE_MULTIPLY_BPS, ef_good = ''warhorse'', ef_target = Final, ef_basis_points = Some (- 200),
          ef_order_price_atomic = None, ef_order_limit = None\<rparr>],
     we_schema_version = ''arena.world-event.v1''\<rparr>"

definition ev_jewel_auction_v2 :: WorldEvent where
  "ev_jewel_auction_v2 = \<lparr>
     we_event_id = ''jewel-auction-v2'',
     we_display_name = [29664, 23453, 25293, 21334],
     we_narrative = [29579, 22478, 25293, 21334, 25260, 39640, 23453, 30707, 29616, 36135, 28909, 24230, 65292, 32456,
       22330, 25910, 34255, 20215, 20540, 23567, 24133, 19978, 20462, 12290],
     we_reveal_round = 1,
     we_duration_rounds = Some 1,
     we_effects = [
        \<lparr>ef_kind = PRICE_MULTIPLY_BPS, ef_good = ''gems'', ef_target = Market, ef_basis_points = Some 900,
          ef_order_price_atomic = None, ef_order_limit = None\<rparr>,
        \<lparr>ef_kind = PRICE_MULTIPLY_BPS, ef_good = ''gems'', ef_target = Final, ef_basis_points = Some 200,
          ef_order_price_atomic = None, ef_order_limit = None\<rparr>],
     we_schema_version = ''arena.world-event.v1''\<rparr>"

definition ev_gem_shipment_v2 :: WorldEvent where
  "ev_gem_shipment_v2 = \<lparr>
     we_event_id = ''gem-shipment-v2'',
     we_display_name = [23453, 30707, 21040, 28207],
     we_narrative = [26032, 21040, 36135, 21387, 20302, 23453, 30707, 29616, 36135, 65292, 32456, 22330, 31232, 32570,
       24615, 20165, 23567, 24133, 19979, 38477, 12290],
     we_reveal_round = 1,
     we_duration_rounds = Some 1,
     we_effects = [
        \<lparr>ef_kind = PRICE_MULTIPLY_BPS, ef_good = ''gems'', ef_target = Market, ef_basis_points = Some (- 800),
          ef_order_price_atomic = None, ef_order_limit = None\<rparr>,
        \<lparr>ef_kind = PRICE_MULTIPLY_BPS, ef_good = ''gems'', ef_target = Final, ef_basis_points = Some (- 200),
          ef_order_price_atomic = None, ef_order_limit = None\<rparr>],
     we_schema_version = ''arena.world-event.v1''\<rparr>"

definition ev_military_procurement_shift_v2 :: WorldEvent where
  "ev_military_procurement_shift_v2 = \<lparr>
     we_event_id = ''military-procurement-shift-v2'',
     we_display_name = [20891, 38656, 35843, 25972],
     we_narrative = [20891, 38656, 39044, 31639, 36716, 21521, 35013, 22791, 19982, 39569, 20853, 65292, 31918, 33609,
       29616, 36135, 38656, 27714, 26242, 26102, 25918, 32531, 12290],
     we_reveal_round = 1,
     we_duration_rounds = Some 1,
     we_effects = [
        \<lparr>ef_kind = PRICE_MULTIPLY_BPS, ef_good = ''iron'', ef_target = Market, ef_basis_points = Some 600,
          ef_order_price_atomic = None, ef_order_limit = None\<rparr>,
        \<lparr>ef_kind = PRICE_MULTIPLY_BPS, ef_good = ''warhorse'', ef_target = Market, ef_basis_points = Some 600,
          ef_order_price_atomic = None, ef_order_limit = None\<rparr>,
        \<lparr>ef_kind = PRICE_MULTIPLY_BPS, ef_good = ''grain'', ef_target = Market, ef_basis_points = Some (- 400),
          ef_order_price_atomic = None, ef_order_limit = None\<rparr>],
     we_schema_version = ''arena.world-event.v1''\<rparr>"

definition ev_court_festival_budget_v2 :: WorldEvent where
  "ev_court_festival_budget_v2 = \<lparr>
     we_event_id = ''court-festival-budget-v2'',
     we_display_name = [23467, 24311, 24198, 20856, 39044, 31639],
     we_narrative = [23467, 24311, 39044, 31639, 36716, 21521, 23476, 24109, 19982, 29664, 23453, 65292, 20891, 38656,
       29616, 36135, 30701, 26399, 38477, 28201, 12290],
     we_reveal_round = 1,
     we_duration_rounds = Some 1,
     we_effects = [
        \<lparr>ef_kind = PRICE_MULTIPLY_BPS, ef_good = ''gems'', ef_target = Market, ef_basis_points = Some 600,
          ef_order_price_atomic = None, ef_order_limit = None\<rparr>,
        \<lparr>ef_kind = PRICE_MULTIPLY_BPS, ef_good = ''grain'', ef_target = Market, ef_basis_points = Some 400,
          ef_order_price_atomic = None, ef_order_limit = None\<rparr>,
        \<lparr>ef_kind = PRICE_MULTIPLY_BPS, ef_good = ''iron'', ef_target = Market, ef_basis_points = Some (- 400),
          ef_order_price_atomic = None, ef_order_limit = None\<rparr>,
        \<lparr>ef_kind = PRICE_MULTIPLY_BPS, ef_good = ''warhorse'', ef_target = Market, ef_basis_points = Some (- 400),
          ef_order_price_atomic = None, ef_order_limit = None\<rparr>],
     we_schema_version = ''arena.world-event.v1''\<rparr>"

definition EXPERIMENTAL_EVENT_CATALOG_V2 :: "(string, WorldEvent) dict" where
  "EXPERIMENTAL_EVENT_CATALOG_V2 =
     [(''grain-shortage-rumor-v2'', ev_grain_shortage_rumor_v2),
      (''harvest-relief-v2'', ev_harvest_relief_v2),
      (''iron-order-rumor-v2'', ev_iron_order_rumor_v2),
      (''mine-output-revision-v2'', ev_mine_output_revision_v2),
      (''cavalry-review-v2'', ev_cavalry_review_v2),
      (''stable-recovery-v2'', ev_stable_recovery_v2),
      (''jewel-auction-v2'', ev_jewel_auction_v2),
      (''gem-shipment-v2'', ev_gem_shipment_v2),
      (''military-procurement-shift-v2'', ev_military_procurement_shift_v2),
      (''court-festival-budget-v2'', ev_court_festival_budget_v2)]"

lemmas preset_defs = ev_palace_requisition_def ev_new_iron_mine_def ev_granary_fire_def ev_noble_gem_fever_def
  ev_coronation_cancelled_def ev_barbarian_siege_def ev_peace_rumor_def ev_merchant_caravan_def
  ev_royal_wedding_def ev_stable_plague_def ev_grain_shortage_rumor_v2_def ev_harvest_relief_v2_def
  ev_iron_order_rumor_v2_def ev_mine_output_revision_v2_def ev_cavalry_review_v2_def ev_stable_recovery_v2_def
  ev_jewel_auction_v2_def ev_gem_shipment_v2_def ev_military_procurement_shift_v2_def ev_court_festival_budget_v2_def

definition DEMO_EVENT_IDS :: "string list" where
  "DEMO_EVENT_IDS = [''palace-requisition'', ''noble-gem-fever'', ''granary-fire'', ''peace-rumor'', ''coronation-cancelled'']"

definition demo_events :: "WorldEvent list result" where
  "demo_events = mapR (\<lambda>i. case dget MVP_EVENT_CATALOG i of None \<Rightarrow> Inl (KeyError i) | Some e \<Rightarrow> Inr e) DEMO_EVENT_IDS"

section \<open>Schedules\<close>

definition STANDARD_EVENT_DECK_ID :: string where
  "STANDARD_EVENT_DECK_ID = ''pawnhouse-standard-v1''"

definition EXPERIMENTAL_EVENT_DECK_ID_V2 :: string where
  "EXPERIMENTAL_EVENT_DECK_ID_V2 = ''pawnhouse-standard-v2''"

definition event_catalogs :: "(string, (string, WorldEvent) dict) dict" where
  "event_catalogs = [(STANDARD_EVENT_DECK_ID, MVP_EVENT_CATALOG),
                     (EXPERIMENTAL_EVENT_DECK_ID_V2, EXPERIMENTAL_EVENT_CATALOG_V2)]"

definition shuffle_key :: "string \<Rightarrow> string \<Rightarrow> WorldEvent \<Rightarrow> nat list" where
  "shuffle_key deck_id seed ev = sha256 (utf8_string
     ((if deck_id = STANDARD_EVENT_DECK_ID then ''arena.event-deck.v1'' else ''arena.event-deck.v2'') @ [CHR 0x00]
      @ deck_id @ [CHR 0x00] @ seed @ [CHR 0x00] @ we_event_id ev))"

text \<open>\<open>replace(event, reveal_round=round_index)\<close> runs the event's validation again.\<close>

fun number_rounds :: "int \<Rightarrow> WorldEvent list \<Rightarrow> WorldEvent list result" where
  "number_rounds i [] = Inr []"
| "number_rounds i (e # es) =
     bindR (WorldEvent_post_init (e\<lparr>we_reveal_round := i\<rparr>)) (\<lambda>e'.
       bindR (number_rounds (i + 1) es) (\<lambda>es'. Inr (e' # es')))"

definition build_event_schedule :: "int \<Rightarrow> string \<Rightarrow> string \<Rightarrow> string \<Rightarrow> WorldEvent list result" where
  "build_event_schedule round_count seed deck_id mode =
     (case dget event_catalogs deck_id of
        None \<Rightarrow> Inl (EventDeckError ''unknown event deck'')
      | Some catalog \<Rightarrow>
          if round_count < 1 \<or> round_count > int (length catalog) then
            Inl (EventDeckError (''round_count must be between 1 and '' @ show_nat (length catalog)))
          else if seed = [] then Inl (EventDeckError ''event seed is required'')
          else if mode = ''fixed_demo'' then
            if deck_id \<noteq> STANDARD_EVENT_DECK_ID then Inl (EventDeckError ''fixed_demo_requires_standard_v1_deck'')
            else if round_count \<noteq> 5 then Inl (EventDeckError ''fixed_demo_requires_exactly_five_rounds'')
            else demo_events
          else if mode \<noteq> ''seeded_shuffle'' then Inl (EventDeckError ''unknown event mode'')
          else number_rounds 1 (take (nat round_count) (sort_key (shuffle_key deck_id seed) (dvalues catalog))))"

section \<open>Every preset is valid\<close>

definition valid_event :: "WorldEvent \<Rightarrow> bool" where
  "valid_event ev \<longleftrightarrow> WorldEvent_post_init ev = Inr ev \<and> list_all valid_effect (we_effects ev)"

text \<open>An effect that at most doubles a price.\<close>

definition mild_effect :: "EventEffect \<Rightarrow> bool" where
  "mild_effect e \<longleftrightarrow> valid_effect e \<and> (ef_kind e = PRICE_MULTIPLY_BPS \<longrightarrow> - 10000 \<le> or_zero (ef_basis_points e) \<and> or_zero (ef_basis_points e) \<le> 10000)"

definition preset_ok :: "WorldEvent \<Rightarrow> bool" where
  "preset_ok ev \<longleftrightarrow> valid_event ev \<and> list_all mild_effect (we_effects ev) \<and> length (we_effects ev) \<le> 6"

lemmas event_validation = valid_event_def preset_ok_def mild_effect_def or_zero_def WorldEvent_post_init_def event_id_ok_def is_lower_def is_digit_def
  blank_def py_isspace_def valid_effect_def EventEffect_post_init_def require_good_def GOODS_def needs_bps_def
  missing_or_nonpositive_def

lemma mvp_valid: "list_all (\<lambda>(i, e). preset_ok e \<and> we_event_id e = i) MVP_EVENT_CATALOG"
  by (simp add: MVP_EVENT_CATALOG_def preset_defs event_validation)

lemma v2_valid: "list_all (\<lambda>(i, e). preset_ok e \<and> we_event_id e = i) EXPERIMENTAL_EVENT_CATALOG_V2"
  by (simp add: EXPERIMENTAL_EVENT_CATALOG_V2_def preset_defs event_validation)

lemma catalog_keys: "distinct (dkeys MVP_EVENT_CATALOG)" "distinct (dkeys EXPERIMENTAL_EVENT_CATALOG_V2)"
  "length MVP_EVENT_CATALOG = 10" "length EXPERIMENTAL_EVENT_CATALOG_V2 = 10"
  by (simp_all add: MVP_EVENT_CATALOG_def EXPERIMENTAL_EVENT_CATALOG_V2_def)

lemma deck_catalog:
  assumes "dget event_catalogs deck_id = Some catalog"
  shows "distinct (dkeys catalog)" "length catalog = 10" "\<forall>(i, e) \<in> set catalog. preset_ok e \<and> we_event_id e = i"
  using assms mvp_valid v2_valid catalog_keys
  by (auto simp: event_catalogs_def list_all_iff split: if_splits)

lemma number_rounds_ok:
  "1 \<le> i \<Longrightarrow> \<forall>e \<in> set es. valid_event e \<Longrightarrow>
   number_rounds i es = Inr (map (\<lambda>(j, e). e\<lparr>we_reveal_round := j\<rparr>) (zip [i..i + int (length es) - 1] es))"
proof (induction es arbitrary: i)
  case (Cons e es)
  have "WorldEvent_post_init (e\<lparr>we_reveal_round := i\<rparr>) = Inr (e\<lparr>we_reveal_round := i\<rparr>)"
    using Cons.prems by (auto simp: valid_event_def WorldEvent_post_init_def split: if_splits)
  moreover have "[i..i + int (length (e # es)) - 1] = i # [i + 1..(i + 1) + int (length es) - 1]"
    by (subst upto_rec1) (simp_all add: algebra_simps)
  ultimately show ?case using Cons by simp
qed simp

lemma demo_events_eq:
  "demo_events = Inr [ev_palace_requisition, ev_noble_gem_fever, ev_granary_fire, ev_peace_rumor, ev_coronation_cancelled]"
  by (simp add: demo_events_def DEMO_EVENT_IDS_def MVP_EVENT_CATALOG_def)

lemma demo_rounds: "map we_reveal_round [ev_palace_requisition, ev_noble_gem_fever, ev_granary_fire, ev_peace_rumor, ev_coronation_cancelled]
   = [1..5]"
  "distinct (map we_event_id [ev_palace_requisition, ev_noble_gem_fever, ev_granary_fire, ev_peace_rumor, ev_coronation_cancelled])"
  by (simp_all add: preset_defs upto_rec1)


text \<open>What a schedule must be to drive a game of \<open>n\<close> rounds: one valid event per round, in order,
  with different ids.\<close>

definition full_schedule :: "int \<Rightarrow> WorldEvent list \<Rightarrow> bool" where
  "full_schedule n evs \<longleftrightarrow> map we_reveal_round evs = [1..n] \<and> distinct (map we_event_id evs) \<and> (\<forall>ev \<in> set evs. preset_ok ev)"

lemma zip_rounds:
  assumes "length rs = length es"
  shows "map we_reveal_round (map (\<lambda>(j, e). e\<lparr>we_reveal_round := j\<rparr>) (zip rs es)) = rs"
    "map we_event_id (map (\<lambda>(j, e). e\<lparr>we_reveal_round := j\<rparr>) (zip rs es)) = map we_event_id es"
  using assms by (induction rs es rule: list_induct2) simp_all

lemma preset_ok_round: "preset_ok e \<Longrightarrow> 1 \<le> j \<Longrightarrow> preset_ok (e\<lparr>we_reveal_round := j\<rparr>)"
  by (auto simp: preset_ok_def valid_event_def WorldEvent_post_init_def split: if_splits)

lemma shuffle_schedule:
  fixes seed :: string
  assumes c: "dget event_catalogs deck_id = Some catalog" and n: "1 \<le> n" "n \<le> int (length catalog)"
  defines "es \<equiv> take (nat n) (sort_key (shuffle_key deck_id seed) (dvalues catalog))"
  shows "number_rounds 1 es = Inr (map (\<lambda>(j, e). e\<lparr>we_reveal_round := j\<rparr>) (zip [1..n] es))"
    "full_schedule n (map (\<lambda>(j, e). e\<lparr>we_reveal_round := j\<rparr>) (zip [1..n] es))"
    "set es \<subseteq> set (dvalues catalog)"
proof -
  note d = deck_catalog [OF c]
  show sub: "set es \<subseteq> set (dvalues catalog)" unfolding es_def using set_take_subset by fastforce
  have len: "length es = nat n" using n by (simp add: es_def)
  have ok: "\<forall>e \<in> set es. preset_ok e" using sub d(3) by fastforce
  then show "number_rounds 1 es = Inr (map (\<lambda>(j, e). e\<lparr>we_reveal_round := j\<rparr>) (zip [1..n] es))"
    using number_rounds_ok [of 1 es] len n by (simp add: preset_ok_def)
  have ids: "map we_event_id (dvalues catalog) = dkeys catalog" using d(3) by auto
  have "mset (map we_event_id (sort_key (shuffle_key deck_id seed) (dvalues catalog))) = mset (dkeys catalog)"
    using ids by (metis mset_map mset_sort)
  then have "distinct (map we_event_id (sort_key (shuffle_key deck_id seed) (dvalues catalog)))"
    using d(1) by (metis mset_eq_imp_distinct_iff)
  then have "distinct (map we_event_id es)" by (simp add: es_def flip: take_map)
  moreover have "length [1..n] = length es" using n len by simp
  moreover have "preset_ok ev" if "ev \<in> set (map (\<lambda>(j, e). e\<lparr>we_reveal_round := j\<rparr>) (zip [1..n] es))" for ev
  proof -
    from that obtain j e where z: "(j, e) \<in> set (zip [1..n] es)" "ev = e\<lparr>we_reveal_round := j\<rparr>" by auto
    from z(1) have "1 \<le> j" "e \<in> set es" by (auto elim: in_set_zipE)
    then show ?thesis using z(2) ok preset_ok_round by blast
  qed
  ultimately show "full_schedule n (map (\<lambda>(j, e). e\<lparr>we_reveal_round := j\<rparr>) (zip [1..n] es))"
    unfolding full_schedule_def using zip_rounds [of "[1..n]" es] by simp
qed

lemma build_event_schedule_cases:
  "case build_event_schedule n seed deck_id mode of
     Inl e \<Rightarrow> deck_id \<notin> {STANDARD_EVENT_DECK_ID, EXPERIMENTAL_EVENT_DECK_ID_V2} \<or> n < 1 \<or> 10 < n \<or> seed = []
       \<or> mode \<noteq> ''seeded_shuffle'' \<and> \<not> (mode = ''fixed_demo'' \<and> deck_id = STANDARD_EVENT_DECK_ID \<and> n = 5)
   | Inr evs \<Rightarrow> full_schedule n evs \<and> (\<exists>catalog. dget event_catalogs deck_id = Some catalog
       \<and> (\<forall>ev \<in> set evs. \<exists>r. ev\<lparr>we_reveal_round := r\<rparr> \<in> set (dvalues catalog)))"
proof (cases "dget event_catalogs deck_id")
  case None
  then show ?thesis by (auto simp: build_event_schedule_def event_catalogs_def split: if_splits)
next
  case (Some catalog)
  note d = deck_catalog [OF Some]
  let ?es = "take (nat n) (sort_key (shuffle_key deck_id seed) (dvalues catalog))"
  let ?evs = "map (\<lambda>(j, e). e\<lparr>we_reveal_round := j\<rparr>) (zip [1..n] ?es)"
  let ?demo = "[ev_palace_requisition, ev_noble_gem_fever, ev_granary_fire, ev_peace_rumor, ev_coronation_cancelled]"
  consider (bad) "n < 1 \<or> 10 < n \<or> seed = []" | (shuffle) "1 \<le> n" "n \<le> 10" "seed \<noteq> []" "mode = ''seeded_shuffle''"
    | (fixed) "1 \<le> n" "n \<le> 10" "seed \<noteq> []" "mode \<noteq> ''seeded_shuffle''" by linarith
  then show ?thesis
  proof cases
    case bad
    then show ?thesis using Some d(2) by (auto simp: build_event_schedule_def)
  next
    case shuffle
    note s = shuffle_schedule [OF Some shuffle(1), of seed]
    have "\<exists>r. ev\<lparr>we_reveal_round := r\<rparr> \<in> set (dvalues catalog)" if "ev \<in> set ?evs" for ev
    proof -
      from that obtain j e where e: "e \<in> set ?es" "ev = e\<lparr>we_reveal_round := j\<rparr>" by (auto dest: set_zip_rightD)
      then have "ev\<lparr>we_reveal_round := we_reveal_round e\<rparr> = e" by simp
      then show ?thesis using s(3) shuffle d(2) e(1) by fastforce
    qed
    then show ?thesis using s Some shuffle d(2) by (simp add: build_event_schedule_def)
  next
    case fixed
    show ?thesis
    proof (cases "mode = ''fixed_demo'' \<and> deck_id = STANDARD_EVENT_DECK_ID \<and> n = 5")
      case True
      then have cat: "catalog = MVP_EVENT_CATALOG" using Some by (simp add: event_catalogs_def)
      have sub: "set ?demo \<subseteq> set (dvalues MVP_EVENT_CATALOG)" by (simp add: MVP_EVENT_CATALOG_def)
      then have "\<forall>ev \<in> set ?demo. preset_ok ev" using d(3) cat by fastforce
      then have "full_schedule 5 ?demo" using demo_rounds by (simp add: full_schedule_def del: list.map)
      moreover have "\<exists>r. ev\<lparr>we_reveal_round := r\<rparr> \<in> set (dvalues catalog)" if "ev \<in> set ?demo" for ev
        using that sub cat by (intro exI [of _ "we_reveal_round ev"]) auto
      moreover have "build_event_schedule n seed deck_id mode = Inr ?demo"
        using True fixed Some d(2) by (simp add: build_event_schedule_def demo_events_eq)
      ultimately show ?thesis using True Some by (simp del: set_simps)
    next
      case False
      then show ?thesis using fixed Some d(2) by (auto simp: build_event_schedule_def)
    qed
  qed
qed


lemma build_event_schedule_sound:
  "build_event_schedule n seed deck_id mode = Inr evs \<Longrightarrow> full_schedule n evs \<and> (\<exists>catalog. dget event_catalogs deck_id = Some catalog
       \<and> (\<forall>ev \<in> set evs. \<exists>r. ev\<lparr>we_reveal_round := r\<rparr> \<in> set (dvalues catalog)))"
  using build_event_schedule_cases [where n = n and seed = seed and deck_id = deck_id and mode = mode] by simp

text \<open>An event schedule is built exactly when the deck is known, the number of rounds is
  between one and the deck's ten events, the seed is not empty, and the mode is a shuffle or the
  five-round demonstration of the standard deck; the schedule then has exactly one valid event for each
  round, in order, no event twice, and every event is one of the deck's with only its round
  changed.\<close>

theorem build_event_schedule_complete:
  "case build_event_schedule n seed deck_id mode of
     Inl e \<Rightarrow> deck_id \<notin> {STANDARD_EVENT_DECK_ID, EXPERIMENTAL_EVENT_DECK_ID_V2} \<or> n < 1 \<or> 10 < n \<or> seed = []
       \<or> mode \<noteq> ''seeded_shuffle'' \<and> \<not> (mode = ''fixed_demo'' \<and> deck_id = STANDARD_EVENT_DECK_ID \<and> n = 5)
   | Inr evs \<Rightarrow> full_schedule n evs \<and> (\<exists>catalog. dget event_catalogs deck_id = Some catalog
       \<and> (\<forall>ev \<in> set evs. \<exists>r. ev\<lparr>we_reveal_round := r\<rparr> \<in> set (dvalues catalog)))"
  by (rule build_event_schedule_cases)

theorem build_event_schedule_complete_witness:
  "\<exists>evs. build_event_schedule 5 ''s'' STANDARD_EVENT_DECK_ID ''fixed_demo'' = Inr evs \<and> full_schedule 5 evs"
  using build_event_schedule_complete [where n = 5 and seed = "''s''" and deck_id = STANDARD_EVENT_DECK_ID and mode = "''fixed_demo''"]
  by (cases "build_event_schedule 5 ''s'' STANDARD_EVENT_DECK_ID ''fixed_demo''") auto

section \<open>Snapshots of preset schedules never fail\<close>

definition capped :: "int \<Rightarrow> (string, int) dict \<Rightarrow> bool" where
  "capped m = good_table (\<lambda>v. 0 \<le> v \<and> v \<le> m)"

definition tables_capped :: "int \<Rightarrow> market_tables \<Rightarrow> bool" where
  "tables_capped m t \<longleftrightarrow> capped m (mt_market t) \<and> tables_ok t"

lemma capped_mono: "capped m d \<Longrightarrow> m \<le> m' \<Longrightarrow> capped m' d"
  unfolding capped_def by (erule good_table_mono) simp

lemma mild_price:
  assumes "0 \<le> p" "p \<le> m" "2 * m \<le> MAX_GOLD_ATOMIC" "- 10000 \<le> b" "b \<le> 10000"
  shows "\<exists>q. apply_basis_points p b = Inr q \<and> 0 \<le> q \<and> q \<le> 2 * m"
proof -
  define q where "q = (p * (10000 + b) + 5000) div 10000"
  have "p * (10000 + b) \<le> p * 20000" "0 \<le> p * (10000 + b)" using assms by (auto intro: mult_left_mono)
  then have "0 \<le> q" "q \<le> 2 * p" unfolding q_def by linarith+
  then show ?thesis using assms by (intro exI [of _ q]) (auto simp: apply_basis_points_Inr_iff q_def)
qed

lemma never_sat: "sat P (\<lambda>_. False) r \<longleftrightarrow> (\<exists>x. r = Inr x \<and> P x)"
  by (cases r) auto

lemma mild_market_effect:
  assumes e: "mild_effect e" and t: "tables_capped m t" and b: "capped m base" "good_table (\<lambda>v. 0 < v) base"
    and m: "2 * m \<le> MAX_GOLD_ATOMIC" "0 \<le> m"
  shows "sat (tables_capped (2 * m)) (\<lambda>_. False) (apply_market_effect i base e t)"
proof -
  have v: "valid_effect e" using e by (simp add: mild_effect_def)
  note g = valid_effect_good [OF v]
  have c: "capped m (mt_market t)" and ok: "tables_ok t" using t by (simp_all add: tables_capped_def)
  have c2: "capped (2 * m) (mt_market t)" using capped_mono [OF c] m by simp
  obtain p where p: "lookup (mt_market t) (ef_good e) = Inr p" "0 \<le> p" "p \<le> m"
    using good_table_lookup [OF c [unfolded capped_def] g] by blast
  have "apply_market_effect i base e t \<in> range Inr"
  proof (cases "ef_target e \<in> {Market, Both} \<and> ef_kind e = PRICE_MULTIPLY_BPS")
    case True
    then show ?thesis using p mild_price [OF p(2,3) m(1), of "or_zero (ef_basis_points e)"] e
      by (auto simp: apply_market_effect_def mild_effect_def)
  next
    case False
    have "apply_market_effect i base e t \<noteq> Inl (MoneyError x)" for x
      using False by (cases "ef_kind e") (auto simp: apply_market_effect_def bindR_Inl_iff lookup_def split: option.splits)
    then show ?thesis using market_effect_sat [OF v ok b(2), of i]
      by (cases "apply_market_effect i base e t") (auto simp: money_error_def)
  qed
  then obtain t' where t': "apply_market_effect i base e t = Inr t'" by blast
  have "capped (2 * m) (mt_market t')"
  proof (cases "ef_target e \<in> {Market, Both} \<and> ef_kind e \<in> {PRICE_MULTIPLY_BPS, PRICE_RESET_TO_BASE}")
    case True
    obtain q where q: "mt_market t' = dput (mt_market t) (ef_good e) q" "0 \<le> q" "q \<le> 2 * m"
    proof (cases "ef_kind e = PRICE_MULTIPLY_BPS")
      case mul: True
      then show ?thesis using that True t' p mild_price [OF p(2,3) m(1), of "or_zero (ef_basis_points e)"] e
        by (auto simp: apply_market_effect_def mild_effect_def)
    next
      case False
      obtain c where c: "lookup base (ef_good e) = Inr c" "0 \<le> c" "c \<le> m"
        using good_table_lookup [OF b(1) [unfolded capped_def] g] by blast
      then show ?thesis using that [of c] False True t' m by (auto simp: apply_market_effect_def)
    qed
    then show ?thesis using good_table_put [OF c2 [unfolded capped_def] g] by (simp add: capped_def)
  next
    case False
    then have "mt_market t' = mt_market t"
      using t' by (cases "ef_kind e") (auto simp: apply_market_effect_def bindR_Inr_iff split: option.splits if_splits)
    then show ?thesis using c2 by simp
  qed
  moreover have "tables_ok t'" using market_effect_sat [OF v ok b(2), of i] t' by simp
  ultimately show ?thesis by (simp add: t' tables_capped_def)
qed

lemma mild_final_effect:
  assumes e: "mild_effect e" and f: "capped m f" and b: "capped m base" and m: "2 * m \<le> MAX_GOLD_ATOMIC" "0 \<le> m"
  shows "sat (capped (2 * m)) (\<lambda>_. False) (apply_final_effect base e f)"
proof -
  have g: "ef_good e \<in> set GOOD_IDS" using e valid_effect_good by (simp add: mild_effect_def)
  have f2: "capped (2 * m) f" using capped_mono [OF f] m by simp
  note put = good_table_put [OF f2 [unfolded capped_def] g, folded capped_def]
  obtain p q where p: "lookup f (ef_good e) = Inr p" "0 \<le> p" "p \<le> m" and q: "lookup base (ef_good e) = Inr q" "0 \<le> q" "q \<le> m"
    using good_table_lookup [OF f [unfolded capped_def] g] good_table_lookup [OF b [unfolded capped_def] g] by blast
  show ?thesis
    using p q f2 put mild_price [OF p(2,3) m(1), of "or_zero (ef_basis_points e)"] e m
    by (cases "ef_kind e") (auto simp: apply_final_effect_def mild_effect_def)
qed

text \<open>A fold whose every step multiplies a bound by at most \<open>c\<close>.\<close>

lemma sat_foldR_grow:
  fixes k c B M :: int
  assumes step: "\<And>x s k. x \<in> set xs \<Longrightarrow> B \<le> k \<Longrightarrow> c * k \<le> M \<Longrightarrow> P k s \<Longrightarrow> sat (P (c * k)) Q (f x s)"
    and "P k s" "B \<le> k" "0 \<le> k" "1 \<le> c" "k * c ^ length xs \<le> M"
  shows "sat (P (k * c ^ length xs)) Q (foldR f xs s)"
  using assms
proof (induction xs arbitrary: s k)
  case (Cons x xs)
  have "1 \<le> c ^ length xs" using Cons.prems(5) by simp
  then have "c * k * 1 \<le> c * k * c ^ length xs" using Cons.prems(4,5) by (intro mult_left_mono) simp_all
  then have two: "c * k \<le> M" "c * k * c ^ length xs \<le> M" using Cons.prems(6) by (simp_all add: algebra_simps)
  have "1 * k \<le> c * k" using Cons.prems(4,5) by (intro mult_right_mono) simp_all
  then have ge: "k \<le> c * k" by simp
  have e: "k * c ^ length (x # xs) = c * k * c ^ length xs" by simp
  show ?case
    unfolding foldR.simps e
  proof (rule sat_bindR [where P = "P (c * k)"])
    show "sat (P (c * k)) Q (f x s)" using Cons.prems two by (intro Cons.prems(1)) simp_all
  next
    fix t assume "P (c * k) t"
    then show "sat (P (c * k * c ^ length xs)) Q (foldR f xs t)"
      using Cons.prems two ge by (intro Cons.IH Cons.prems(1)) auto
  qed
qed simp

lemma mild_event:
  assumes ev: "preset_ok ev" and b: "capped B base" "good_table (\<lambda>v. 0 < v) base" and k: "B \<le> k" "0 \<le> B" "64 * k \<le> MAX_GOLD_ATOMIC"
    and s: "tables_capped k (fst s) \<and> capped k (snd s)"
  shows "sat (\<lambda>s. tables_capped (64 * k) (fst s) \<and> capped (64 * k) (snd s)) (\<lambda>_. False) (apply_event r base ev s)"
proof -
  let ?n = "length (we_effects ev)"
  have n: "?n \<le> 6" and mild: "\<And>e. e \<in> set (we_effects ev) \<Longrightarrow> mild_effect e"
    using ev by (auto simp: preset_ok_def list_all_iff)
  have "(2::int) ^ ?n \<le> 2 ^ 6" using n by (intro power_increasing) simp_all
  then have le: "k * 2 ^ ?n \<le> 64 * k" using k by (auto intro: mult_mono simp: mult.commute)
  have bk: "capped m base" if "B \<le> m" for m using capped_mono [OF b(1) that] .
  have up: "tables_capped m t \<Longrightarrow> m \<le> 64 * k \<Longrightarrow> tables_capped (64 * k) t" for m t
    using capped_mono by (auto simp: tables_capped_def)
  have "sat (tables_capped (k * 2 ^ ?n)) (\<lambda>_. False) (foldR (apply_market_effect (we_event_id ev) base) (we_effects ev) (fst s))"
    using s k le mild
    by (intro sat_foldR_grow [where B = B and M = MAX_GOLD_ATOMIC] mild_market_effect bk b(2)) auto
  then have m: "sat (tables_capped (64 * k)) (\<lambda>_. False) (if active_in_round ev r
      then foldR (apply_market_effect (we_event_id ev) base) (we_effects ev) (fst s) else Inr (fst s))"
    using up le s up [of k "fst s"] k by (auto simp: never_sat)
  have "sat (capped (k * 2 ^ ?n)) (\<lambda>_. False) (foldR (apply_final_effect base) (we_effects ev) (snd s))"
    using s k le mild
    by (intro sat_foldR_grow [where B = B and M = MAX_GOLD_ATOMIC] mild_final_effect bk) auto
  then have f: "sat (capped (64 * k)) (\<lambda>_. False) (foldR (apply_final_effect base) (we_effects ev) (snd s))"
    using capped_mono le by (auto simp: never_sat)
  show ?thesis using m f by (auto simp: apply_event_def never_sat)
qed

lemma preset_snapshot_ok:
  assumes w: "valid_world w" and p: "\<forall>ev \<in> set (dvalues (wo_event_catalog w)). preset_ok ev"
    and n: "length (wo_revealed_event_ids w) \<le> 10" and b: "\<forall>v \<in> set (dvalues (wo_base_prices w)). v \<le> 1000 * int GOLD_SCALE" and r: "0 \<le> r"
  shows "\<exists>s. snapshot w r = Inr s"
proof -
  let ?B = "1000 * int GOLD_SCALE"
  note base = valid_world_base [OF w]
  have cb: "capped ?B (wo_base_prices w)" using base b by (auto simp: capped_def good_table_def)
  have t: "tables_capped ?B (initial_tables w)"
    using cb initial_tables_ok [OF w] by (simp add: tables_capped_def initial_tables_def)
  have l: "length (counted w r) \<le> 10"
    unfolding counted_def using n by (metis length_filter_le length_map order_trans)
  have "(64::int) ^ length (counted w r) \<le> 64 ^ 10" using l by (intro power_increasing) simp_all
  then have "?B * 64 ^ length (counted w r) \<le> ?B * 64 ^ 10" by (simp add: GOLD_SCALE_def)
  also have "\<dots> \<le> MAX_GOLD_ATOMIC" by (simp add: GOLD_SCALE_def MAX_GOLD_ATOMIC_def)
  finally have M: "?B * 64 ^ length (counted w r) \<le> MAX_GOLD_ATOMIC" .
  have ok: "preset_ok ev" if ev: "ev \<in> set (counted w r)" for ev
  proof -
    from ev obtain i where i: "i \<in> set (wo_revealed_event_ids w)" "ev = the (dget (wo_event_catalog w) i)" by (auto simp: counted_def)
    then have "i \<in> dom (map_of (wo_event_catalog w))" using w by (auto simp: valid_world_def dom_map_of_conv_image_fst)
    then have "(i, ev) \<in> set (wo_event_catalog w)" using i(2) by (auto dest: map_of_SomeD)
    then show ?thesis using p by force
  qed
  have "sat (\<lambda>s. tables_capped (?B * 64 ^ length (counted w r)) (fst s) \<and> capped (?B * 64 ^ length (counted w r)) (snd s)) (\<lambda>_. False)
     (foldR (apply_event r (wo_base_prices w)) (counted w r) (initial_tables w, wo_base_prices w))"
    by (rule sat_foldR_grow [where B = ?B and M = MAX_GOLD_ATOMIC and P = "\<lambda>k s. tables_capped k (fst s) \<and> capped k (snd s)"])
      (use M t cb ok base in \<open>auto intro!: mild_event simp: GOLD_SCALE_def\<close>)
  then show ?thesis unfolding snapshot_eq [OF w r] by (auto simp: never_sat)
qed


text \<open>A world that plays at most ten events of the built-in catalogs over base prices
  of at most a thousand gold has a snapshot for every round, whatever events were revealed and in
  which order: the money bound is never reached, so the game never raises there.\<close>

theorem preset_snapshot_total:
  assumes "valid_world w" and "\<forall>ev \<in> set (dvalues (wo_event_catalog w)). preset_ok ev"
    and "length (wo_revealed_event_ids w) \<le> 10" and "\<forall>v \<in> set (dvalues (wo_base_prices w)). v \<le> 1000 * int GOLD_SCALE" and "0 \<le> r"
  shows "\<exists>s. snapshot w r = Inr s"
  using assms by (rule preset_snapshot_ok)

theorem preset_snapshot_total_witness:
  "\<exists>s. snapshot \<lparr>wo_event_catalog = MVP_EVENT_CATALOG, wo_base_prices = INITIAL_PRICES,
                 wo_revealed_event_ids = dkeys MVP_EVENT_CATALOG\<rparr> 7 = Inr s"
proof (rule preset_snapshot_total)
  have p: "preset_ok ev" if "ev \<in> set (dvalues MVP_EVENT_CATALOG)" for ev using that mvp_valid by (auto simp: list_all_iff)
  then show "valid_world \<lparr>wo_event_catalog = MVP_EVENT_CATALOG, wo_base_prices = INITIAL_PRICES,
                 wo_revealed_event_ids = dkeys MVP_EVENT_CATALOG\<rparr>"
    using canonical_catalogs(1)
    by (auto simp: valid_world_def WorldState_post_init_def canonical_prices_def INITIAL_PRICES_eq preset_ok_def valid_event_def list_all_iff)
  show "\<forall>ev \<in> set (dvalues (wo_event_catalog \<lparr>wo_event_catalog = MVP_EVENT_CATALOG, wo_base_prices = INITIAL_PRICES,
                 wo_revealed_event_ids = dkeys MVP_EVENT_CATALOG\<rparr>)). preset_ok ev" using p by simp
qed (simp_all add: catalog_keys INITIAL_PRICES_eq GOLD_SCALE_def)

end
