(* ===== verification/Arena_Game.thy ===== *)
theory Arena_Game
  imports Arena_EventDeck
begin

text \<open>
  \<open>arena_game/ranking.py\<close> and \<open>arena_game/game.py\<close>: the terminal ranking and the game aggregate
  with its phases. An operation returns its result together with the game afterwards, because
  \<open>start\<close> and \<open>next_round\<close> change the game before the event they reveal may raise.
\<close>

section \<open>Ranking\<close>

record RankingEntry =
  rk_rank :: nat
  rk_agent_id :: string
  rk_net_worth_atomic :: int
  rk_tier :: utext

definition DUKE :: utext where "DUKE = [20844, 29237]"

definition ROYAL_MERCHANT :: utext where "ROYAL_MERCHANT = [24481, 29992, 21830, 20154]"

definition CITY_TRADER :: utext where "CITY_TRADER = [29579, 22478, 34892, 21830]"

definition PEDDLER :: utext where "PEDDLER = [27969, 28010, 21830, 36137]"

text \<open>The source divides in floating point and compares with \<open>0.25\<close> and \<open>0.6\<close>. Division
  rounds correctly, and the quotient of two counts below \<open>2 ^ 50\<close> that differs from a
  quarter or from three fifths differs by far more than one unit in the last place, so the comparisons
  are the exact ones written here.\<close>

definition promotion_tier :: "nat \<Rightarrow> nat \<Rightarrow> utext result" where
  "promotion_tier rank participant_count =
     (if rank = 1 then Inr DUKE
      else if participant_count = 0 then Inl ZeroDivisionError
      else if 4 * rank \<le> participant_count then Inr ROYAL_MERCHANT
      else if 5 * rank \<le> 3 * participant_count then Inr CITY_TRADER
      else Inr PEDDLER)"

definition ranking_key :: "string \<times> int \<Rightarrow> int \<times> string" where
  "ranking_key item = (- snd item, fst item)"

fun rank_entries :: "nat \<Rightarrow> nat \<Rightarrow> (string \<times> int) list \<Rightarrow> RankingEntry list result" where
  "rank_entries n index [] = Inr []"
| "rank_entries n index ((agent_id, worth) # rest) =
     bindR (promotion_tier index n) (\<lambda>tier.
       bindR (rank_entries n (Suc index) rest) (\<lambda>es.
         Inr (\<lparr>rk_rank = index, rk_agent_id = agent_id, rk_net_worth_atomic = worth, rk_tier = tier\<rparr> # es)))"

definition calculate_rankings :: "(string, Portfolio) dict \<Rightarrow> (string, int) dict \<Rightarrow> RankingEntry list result" where
  "calculate_rankings portfolios final_prices =
     (if portfolios = [] then Inr []
      else bindR (mapR (\<lambda>(agent_id, p). bindR (net_worth p final_prices) (\<lambda>v. Inr (agent_id, v))) portfolios) (\<lambda>items.
        let ordered = sort_key ranking_key items in rank_entries (length ordered) 1 ordered))"

section \<open>The game aggregate\<close>

datatype GamePhase = REGISTRATION | PORTFOLIO_SETUP | PORTFOLIO_LOCKED | RUNNING | FINAL_VALUATION | COMPLETED | CANCELLED

datatype RoundPhase = EVENT_REVEAL | DECIDE | MATCH | NEGOTIATE | SETTLE | ROUND_CLOSE | ROUND_COMPLETED

record GameConfig =
  gc_round_count :: int
  gc_action_timeout_ms :: int
  gc_max_negotiation_turns :: int
  gc_min_participants :: int
  gc_max_participants :: int
  gc_portfolio_mode :: string

definition GameConfig_post_init :: "GameConfig \<Rightarrow> GameConfig result" where
  "GameConfig_post_init c =
     (if gc_round_count c < 1 \<or> gc_round_count c > 20 then Inl (GameError ''round_count must be between 1 and 20'')
      else if gc_action_timeout_ms c < 100 \<or> gc_action_timeout_ms c > 900000 then
        Inl (GameError ''action_timeout_ms is outside the Arena bound'')
      else if gc_max_negotiation_turns c < 2 \<or> gc_max_negotiation_turns c > 6 then
        Inl (GameError ''max_negotiation_turns must be between 2 and 6'')
      else if gc_min_participants c < 2 \<or> gc_max_participants c < gc_min_participants c then
        Inl (GameError ''invalid participant bounds'')
      else if gc_portfolio_mode c \<notin> {''manual'', ''balanced_auto''} then Inl (GameError ''invalid portfolio_mode'')
      else Inr c)"

record GameParticipant =
  gp_user_id :: string
  gp_agent_id :: string
  gp_portfolio :: "Portfolio option"

record PawnhouseGame =
  pg_game_id :: string
  pg_config :: GameConfig
  pg_events :: "WorldEvent list"
  pg_event_seed :: string
  pg_phase :: GamePhase
  pg_current_round :: int
  pg_round_phase :: "RoundPhase option"
  pg_participants :: "(string, GameParticipant) dict"
  pg_users :: "string set"
  pg_world :: WorldState
  pg_event_commitment :: string
  pg_rankings :: "RankingEntry list"

text \<open>\<open>{event.event_id: event for event in events}\<close>\<close>

definition event_dict :: "WorldEvent list \<Rightarrow> (string, WorldEvent) dict" where
  "event_dict evs = fold (\<lambda>e d. dput d (we_event_id e) e) evs []"

definition PawnhouseGame_new :: "string \<Rightarrow> GameConfig \<Rightarrow> WorldEvent list \<Rightarrow> string \<Rightarrow> PawnhouseGame result" where
  "PawnhouseGame_new game_id config events event_seed =
     (if game_id = [] then Inl (GameError ''game_id is required'')
      else if event_seed = [] then Inl (GameError ''event seed is required'')
      else if int (length events) \<noteq> gc_round_count config then
        Inl (GameError ''one scheduled event is required for every round'')
      else if map we_reveal_round events \<noteq> [1..gc_round_count config] then
        Inl (GameError ''event schedule must cover each round exactly once'')
      else let catalog = event_dict events
           in if length catalog \<noteq> length events then
                Inl (GameError ''event schedule cannot contain duplicate event ids'')
              else bindR (WorldState_post_init \<lparr>wo_event_catalog = catalog, wo_base_prices = INITIAL_PRICES,
                                               wo_revealed_event_ids = []\<rparr>) (\<lambda>world.
                   bindR (schedule_commitment events event_seed) (\<lambda>commitment.
                     Inr \<lparr>pg_game_id = game_id, pg_config = config, pg_events = events, pg_event_seed = event_seed,
                          pg_phase = REGISTRATION, pg_current_round = 0, pg_round_phase = None,
                          pg_participants = [], pg_users = {}, pg_world = world,
                          pg_event_commitment = commitment, pg_rankings = []\<rparr>)))"

type_synonym 'a game_op = "PawnhouseGame \<Rightarrow> 'a result \<times> PawnhouseGame"

definition join_game :: "string \<Rightarrow> string \<Rightarrow> unit game_op" where
  "join_game user_id agent_id g =
     (if pg_phase g \<notin> {REGISTRATION, PORTFOLIO_SETUP} then (Inl (GameError ''game no longer accepts participants''), g)
      else if user_id = [] \<or> agent_id = [] then (Inl (GameError ''user_id and agent_id are required''), g)
      else if user_id \<in> pg_users g then (Inl (GameError ''one user may join a game only once''), g)
      else if dget (pg_participants g) agent_id \<noteq> None then (Inl (GameError ''an agent may join a game only once''), g)
      else if int (length (pg_participants g)) \<ge> gc_max_participants (pg_config g) then
        (Inl (GameError ''game participant limit reached''), g)
      else (Inr (), g\<lparr>pg_users := insert user_id (pg_users g),
                      pg_participants := dput (pg_participants g) agent_id
                        \<lparr>gp_user_id = user_id, gp_agent_id = agent_id, gp_portfolio = None\<rparr>,
                      pg_phase := PORTFOLIO_SETUP\<rparr>))"

definition set_portfolio :: "string \<Rightarrow> Portfolio \<Rightarrow> (string, GameParticipant) dict \<Rightarrow> (string, GameParticipant) dict" where
  "set_portfolio agent_id p d =
     (case dget d agent_id of None \<Rightarrow> d | Some q \<Rightarrow> dput d agent_id (q\<lparr>gp_portfolio := Some p\<rparr>))"

definition configure_portfolio :: "string \<Rightarrow> Portfolio \<Rightarrow> unit game_op" where
  "configure_portfolio agent_id portfolio g =
     (if pg_phase g \<noteq> PORTFOLIO_SETUP then (Inl (GameError ''portfolios can only change during setup''), g)
      else if dget (pg_participants g) agent_id = None then (Inl (GameError ''agent is not a game participant''), g)
      else (Inr (), g\<lparr>pg_participants := set_portfolio agent_id portfolio (pg_participants g)\<rparr>))"

definition lock_portfolios :: "unit game_op" where
  "lock_portfolios g =
     (if pg_phase g \<noteq> PORTFOLIO_SETUP then (Inl (GameError ''game is not in portfolio setup''), g)
      else if int (length (pg_participants g)) < gc_min_participants (pg_config g) then
        (Inl (GameError ''not enough participants''), g)
      else case (if gc_portfolio_mode (pg_config g) = ''balanced_auto''
                 then bindR (distribute_balanced_portfolios (dkeys (pg_participants g)) (pg_event_seed g) INITIAL_PRICES)
                        (\<lambda>ps. Inr (fold (\<lambda>(a, p). set_portfolio a p) ps (pg_participants g)))
                 else Inr (pg_participants g)) of
             Inl e \<Rightarrow> (Inl e, g)
           | Inr participants \<Rightarrow>
               let g' = g\<lparr>pg_participants := participants\<rparr>
               in if list_ex (\<lambda>q. gp_portfolio q = None) (dvalues participants) then
                    (Inl (GameError ''every participant must configure a portfolio''), g')
                  else (Inr (), g'\<lparr>pg_phase := PORTFOLIO_LOCKED\<rparr>))"

text \<open>Python's tuple index, where a negative index counts from the end.\<close>

definition py_index :: "'a list \<Rightarrow> int \<Rightarrow> 'a result" where
  "py_index xs i =
     (if 0 \<le> i \<and> i < int (length xs) then Inr (xs ! nat i)
      else if i < 0 \<and> - int (length xs) \<le> i then Inr (xs ! nat (int (length xs) + i))
      else Inl IndexError)"

definition reveal_current_event :: "WorldSnapshot game_op" where
  "reveal_current_event g =
     (if pg_phase g \<noteq> RUNNING \<or> pg_round_phase g \<noteq> Some EVENT_REVEAL then
        (Inl (GameError ''game is not ready to reveal an event''), g)
      else case py_index (pg_events g) (pg_current_round g - 1) of
        Inl e \<Rightarrow> (Inl e, g)
      | Inr event \<Rightarrow>
          case reveal (pg_world g) (we_event_id event) (pg_current_round g) of
            (Inl e, w) \<Rightarrow> (Inl e, g\<lparr>pg_world := w\<rparr>)
          | (Inr s, w) \<Rightarrow> (Inr s, g\<lparr>pg_world := w, pg_round_phase := Some DECIDE\<rparr>))"

definition start :: "WorldSnapshot game_op" where
  "start g =
     (if pg_phase g \<noteq> PORTFOLIO_LOCKED then (Inl (GameError ''portfolios must be locked before start''), g)
      else reveal_current_event (g\<lparr>pg_phase := RUNNING, pg_current_round := 1, pg_round_phase := Some EVENT_REVEAL\<rparr>))"

fun allowed_target :: "RoundPhase \<Rightarrow> RoundPhase option" where
  "allowed_target DECIDE = Some MATCH"
| "allowed_target MATCH = Some NEGOTIATE"
| "allowed_target NEGOTIATE = Some SETTLE"
| "allowed_target SETTLE = Some ROUND_CLOSE"
| "allowed_target ROUND_CLOSE = Some ROUND_COMPLETED"
| "allowed_target _ = None"

definition move_round_phase :: "RoundPhase \<Rightarrow> RoundPhase \<Rightarrow> unit game_op" where
  "move_round_phase expected target g =
     (if pg_phase g \<noteq> RUNNING \<or> pg_round_phase g \<noteq> Some expected then
        (Inl (GameError ''invalid round phase transition''), g)
      else if allowed_target expected \<noteq> Some target then (Inl (GameError ''invalid round phase transition''), g)
      else (Inr (), g\<lparr>pg_round_phase := Some target\<rparr>))"

definition next_round :: "WorldSnapshot option game_op" where
  "next_round g =
     (if pg_phase g \<noteq> RUNNING \<or> pg_round_phase g \<noteq> Some ROUND_COMPLETED then
        (Inl (GameError ''current round is not complete''), g)
      else if pg_current_round g \<ge> gc_round_count (pg_config g) then
        (Inr None, g\<lparr>pg_phase := FINAL_VALUATION, pg_round_phase := None\<rparr>)
      else let (r, g') = reveal_current_event (g\<lparr>pg_current_round := pg_current_round g + 1,
                                                 pg_round_phase := Some EVENT_REVEAL\<rparr>)
           in (bindR r (\<lambda>s. Inr (Some s)), g'))"

definition complete_game :: "RankingEntry list game_op" where
  "complete_game g =
     (if pg_phase g \<noteq> FINAL_VALUATION then (Inl (GameError ''game is not ready for final valuation''), g)
      else case bindR (snapshot (pg_world g) (gc_round_count (pg_config g))) (\<lambda>s.
                  bindR (mapR (\<lambda>(a, q). case gp_portfolio q of None \<Rightarrow> Inl (GameError ''participant portfolio is missing'')
                                         | Some p \<Rightarrow> Inr (a, p)) (pg_participants g)) (\<lambda>portfolios.
                    calculate_rankings portfolios (ws_final_prices s))) of
             Inl e \<Rightarrow> (Inl e, g)
           | Inr rs \<Rightarrow> (Inr rs, g\<lparr>pg_rankings := rs, pg_phase := COMPLETED\<rparr>))"

definition portfolio_snapshot :: "PawnhouseGame \<Rightarrow> (string, Portfolio) dict" where
  "portfolio_snapshot g =
     concat (map (\<lambda>(a, q). case gp_portfolio q of None \<Rightarrow> [] | Some p \<Rightarrow> [(a, p)]) (pg_participants g))"

section \<open>Rankings\<close>

definition tier_of :: "nat \<Rightarrow> nat \<Rightarrow> utext" where
  "tier_of n r = (if r = 1 then DUKE else if 4 * r \<le> n then ROYAL_MERCHANT else if 5 * r \<le> 3 * n then CITY_TRADER else PEDDLER)"

lemma promotion_tier_of: "0 < n \<Longrightarrow> promotion_tier r n = Inr (tier_of n r)"
  by (simp add: promotion_tier_def tier_of_def)

lemma rank_entries_eq:
  "0 < n \<Longrightarrow> rank_entries n i xs = Inr (map (\<lambda>(j, (a, w)).
     \<lparr>rk_rank = j, rk_agent_id = a, rk_net_worth_atomic = w, rk_tier = tier_of n j\<rparr>) (enumerate i xs))"
  by (induction n i xs rule: rank_entries.induct) (simp_all add: promotion_tier_of)

definition worths :: "(string, Portfolio) dict \<Rightarrow> (string, int) dict \<Rightarrow> (string \<times> int) list" where
  "worths portfolios prices = map (\<lambda>(a, p). (a, projr (net_worth p prices))) portfolios"

lemma calculate_rankings_eq:
  assumes "\<forall>p \<in> set (dvalues portfolios). \<exists>w. net_worth p prices = Inr w"
  shows "calculate_rankings portfolios prices = Inr (map (\<lambda>(j, (a, w)).
     \<lparr>rk_rank = j, rk_agent_id = a, rk_net_worth_atomic = w, rk_tier = tier_of (length portfolios) j\<rparr>)
       (enumerate 1 (sort_key ranking_key (worths portfolios prices))))"
proof (cases "portfolios = []")
  case False
  have "mapR (\<lambda>(agent_id, p). bindR (net_worth p prices) (\<lambda>v. Inr (agent_id, v))) portfolios = Inr (worths portfolios prices)"
    unfolding worths_def using assms by (intro mapR_all_ok) force
  then show ?thesis using False rank_entries_eq [of "length portfolios" 1 "sort_key ranking_key (worths portfolios prices)"]
    by (simp add: calculate_rankings_def worths_def)
qed (simp add: calculate_rankings_def worths_def)

lemma calculate_rankings_worths:
  "calculate_rankings portfolios prices = Inr rs \<Longrightarrow> \<forall>p \<in> set (dvalues portfolios). \<exists>w. net_worth p prices = Inr w"
proof (cases "portfolios = []")
  case False
  assume "calculate_rankings portfolios prices = Inr rs"
  then obtain ys where "list_all2 (\<lambda>x y. (case x of (a, p) \<Rightarrow> bindR (net_worth p prices) (\<lambda>v. Inr (a, v))) = Inr y) portfolios ys"
    using False by (auto simp: calculate_rankings_def bindR_Inr_iff mapR_Inr_iff)
  then show ?thesis by (induction rule: list_all2_induct) (auto simp: bindR_Inr_iff)
qed simp

text \<open>Property C38: a ranking succeeds exactly when every portfolio can be valued; it then lists every
  agent once with its net worth, ranks are one to the number of agents, the list is strictly ordered by
  higher net worth and then by agent id, and each tier is that of the rank's percentile.\<close>

theorem calculate_rankings_correct:
  assumes "distinct (dkeys portfolios)"
  shows "case calculate_rankings portfolios prices of
      Inl _ \<Rightarrow> \<exists>p \<in> set (dvalues portfolios). \<exists>e. net_worth p prices = Inl e
    | Inr rs \<Rightarrow> mset (map (\<lambda>e. (rk_agent_id e, Inr (rk_net_worth_atomic e))) rs) = mset (map (\<lambda>(a, p). (a, net_worth p prices)) portfolios)
        \<and> map rk_rank rs = [1..<Suc (length portfolios)]
        \<and> sorted_wrt (\<lambda>x y. rk_net_worth_atomic x > rk_net_worth_atomic y
            \<or> rk_net_worth_atomic x = rk_net_worth_atomic y \<and> rk_agent_id x < rk_agent_id y) rs
        \<and> (\<forall>e \<in> set rs. promotion_tier (rk_rank e) (length portfolios) = Inr (rk_tier e))"
proof (cases "\<forall>p \<in> set (dvalues portfolios). \<exists>w. net_worth p prices = Inr w")
  case False
  then have "\<exists>p \<in> set (dvalues portfolios). \<exists>e. net_worth p prices = Inl e" by (metis sum.exhaust)
  moreover have "calculate_rankings portfolios prices \<noteq> Inr rs" for rs using False calculate_rankings_worths by blast
  ultimately show ?thesis by (cases "calculate_rankings portfolios prices") auto
next
  case True
  let ?ws = "worths portfolios prices"
  let ?o = "sort_key ranking_key ?ws"
  let ?rs = "map (\<lambda>(j, (a, w)). \<lparr>rk_rank = j, rk_agent_id = a, rk_net_worth_atomic = w, rk_tier = tier_of (length portfolios) j\<rparr>)
       (enumerate 1 ?o)"
  have len: "length ?o = length portfolios" by (simp add: worths_def)
  have items: "map (\<lambda>e. (rk_agent_id e, rk_net_worth_atomic e)) ?rs = ?o"
    by (simp add: comp_def case_prod_beta)
  have "mset (map (\<lambda>e. (rk_agent_id e, Inr (rk_net_worth_atomic e) :: int result)) ?rs)
      = mset (map (\<lambda>(a, w). (a, Inr w)) (map (\<lambda>e. (rk_agent_id e, rk_net_worth_atomic e)) ?rs))" by (simp add: comp_def)
  also have "\<dots> = image_mset (\<lambda>(a, w). (a, Inr w)) (mset ?ws)" unfolding items by simp
  also have "\<dots> = mset (map (\<lambda>(a, p). (a, net_worth p prices)) portfolios)"
  proof -
    have "Inr (projr (net_worth b prices)) = net_worth b prices" if "(a, b) \<in> set portfolios" for a b
      using True that by force
    then show ?thesis by (auto simp: worths_def comp_def simp flip: mset_map intro!: arg_cong [of _ _ mset])
  qed
  finally have m: "mset (map (\<lambda>e. (rk_agent_id e, Inr (rk_net_worth_atomic e) :: int result)) ?rs)
      = mset (map (\<lambda>(a, p). (a, net_worth p prices)) portfolios)" .
  have ranks: "map rk_rank ?rs = [1..<Suc (length portfolios)]"
    using len by (simp add: comp_def case_prod_beta)
  have "distinct (map fst ?ws)" using assms by (simp add: worths_def comp_def case_prod_beta)
  then have "distinct ?ws" "inj_on ranking_key (set ?ws)"
    by (auto simp: distinct_map inj_on_def ranking_key_def)
  then have "distinct (map ranking_key ?o)" by (simp add: distinct_map)
  then have "sorted_wrt (<) (map ranking_key ?o)" by (simp add: strict_sorted_iff)
  then have "sorted_wrt (\<lambda>x y. snd x > snd y \<or> snd x = snd y \<and> fst x < fst y) ?o"
    by (simp add: sorted_wrt_map ranking_key_def less_prod_def' order.order_iff_strict conj_disj_distribL)
  then have "sorted_wrt (\<lambda>x y. snd x > snd y \<or> snd x = snd y \<and> fst x < fst y)
      (map (\<lambda>e. (rk_agent_id e, rk_net_worth_atomic e)) ?rs)" unfolding items .
  then have s: "sorted_wrt (\<lambda>x y. rk_net_worth_atomic x > rk_net_worth_atomic y
            \<or> rk_net_worth_atomic x = rk_net_worth_atomic y \<and> rk_agent_id x < rk_agent_id y) ?rs"
    unfolding sorted_wrt_map [of _ "\<lambda>e. (rk_agent_id e, rk_net_worth_atomic e)"] by simp
  have "\<forall>e \<in> set ?rs. promotion_tier (rk_rank e) (length portfolios) = Inr (rk_tier e)"
  proof (cases "portfolios = []")
    case False
    then show ?thesis by (auto simp: promotion_tier_of)
  qed (simp add: worths_def)
  then show ?thesis using calculate_rankings_eq [OF True] m ranks s by simp
qed

text \<open>The ranking does not depend on the order in which participants joined: two
  dictionaries with the same entries give the same ranking.\<close>

theorem calculate_rankings_order_independent:
  assumes "distinct (dkeys ps)" "mset ps = mset qs" "calculate_rankings ps prices = Inr rs"
  shows "calculate_rankings qs prices = Inr rs"
proof -
  note ok = calculate_rankings_worths [OF assms(3)]
  have ok': "\<forall>p \<in> set (dvalues qs). \<exists>w. net_worth p prices = Inr w"
    using ok assms(2) by (metis mset_map set_mset_mset)
  have d: "distinct (map fst (worths ps prices))" using assms(1) by (simp add: worths_def comp_def case_prod_beta)
  then have inj: "inj_on ranking_key (set (worths ps prices))"
    by (auto simp: distinct_map inj_on_def ranking_key_def)
  have m: "mset (worths ps prices) = mset (worths qs prices)" unfolding worths_def using assms(2) by simp
  have k: "map ranking_key (sort_key ranking_key xs) = sort (map ranking_key xs)" for xs
    by (rule properties_for_sort [symmetric]) simp_all
  have "sort (map ranking_key (worths ps prices)) = sort (map ranking_key (worths qs prices))"
    by (rule properties_for_sort) (simp_all add: m)
  then have "map ranking_key (sort_key ranking_key (worths ps prices)) = map ranking_key (sort_key ranking_key (worths qs prices))"
    by (simp add: k)
  moreover have "set (worths qs prices) = set (worths ps prices)" using m by (metis set_mset_mset)
  ultimately have "sort_key ranking_key (worths ps prices) = sort_key ranking_key (worths qs prices)"
    using inj by (subst (asm) inj_on_map_eq_map) simp_all
  moreover have "length ps = length qs" using assms(2) by (rule mset_eq_length)
  ultimately show ?thesis using assms(3) by (simp add: calculate_rankings_eq [OF ok] calculate_rankings_eq [OF ok'])
qed

section \<open>The game's invariant\<close>

datatype game_call =
    OpJoin string string | OpConfigure string Portfolio | OpLock | OpStart | OpReveal
  | OpMove RoundPhase RoundPhase | OpNext | OpComplete

fun game_step :: "game_call \<Rightarrow> PawnhouseGame \<Rightarrow> PawnhouseGame" where
  "game_step (OpJoin u a) g = snd (join_game u a g)"
| "game_step (OpConfigure a p) g = snd (configure_portfolio a p g)"
| "game_step OpLock g = snd (lock_portfolios g)"
| "game_step OpStart g = snd (start g)"
| "game_step OpReveal g = snd (reveal_current_event g)"
| "game_step (OpMove e t) g = snd (move_round_phase e t g)"
| "game_step OpNext g = snd (next_round g)"
| "game_step OpComplete g = snd (complete_game g)"

text \<open>The schedule part never changes after creation.\<close>

definition schedule_inv :: "PawnhouseGame \<Rightarrow> bool" where
  "schedule_inv g \<longleftrightarrow> int (length (pg_events g)) = gc_round_count (pg_config g)
     \<and> map we_reveal_round (pg_events g) = [1..gc_round_count (pg_config g)]
     \<and> distinct (map we_event_id (pg_events g))
     \<and> wo_event_catalog (pg_world g) = map (\<lambda>e. (we_event_id e, e)) (pg_events g)
     \<and> wo_base_prices (pg_world g) = INITIAL_PRICES"

definition roster :: "PawnhouseGame \<Rightarrow> (string \<times> string) list" where
  "roster g = map (\<lambda>(a, q). (a, gp_user_id q)) (pg_participants g)"

text \<open>Every agent and every user takes part at most once, within the limit.\<close>

definition roster_inv :: "PawnhouseGame \<Rightarrow> bool" where
  "roster_inv g \<longleftrightarrow> distinct (map fst (roster g)) \<and> distinct (map snd (roster g))
     \<and> pg_users g = set (map snd (roster g)) \<and> int (length (roster g)) \<le> max 0 (gc_max_participants (pg_config g))"

definition revealed_upto :: "PawnhouseGame \<Rightarrow> nat \<Rightarrow> bool" where
  "revealed_upto g k \<longleftrightarrow> wo_revealed_event_ids (pg_world g) = map we_event_id (take k (pg_events g))"

definition all_configured :: "PawnhouseGame \<Rightarrow> bool" where
  "all_configured g \<longleftrightarrow> (\<forall>q \<in> set (dvalues (pg_participants g)). gp_portfolio q \<noteq> None)
     \<and> gc_min_participants (pg_config g) \<le> int (length (pg_participants g))"

definition phase_inv :: "PawnhouseGame \<Rightarrow> bool" where
  "phase_inv g = (case pg_phase g of
       REGISTRATION \<Rightarrow> pg_participants g = [] \<and> revealed_upto g 0 \<and> pg_round_phase g = None \<and> pg_rankings g = []
     | PORTFOLIO_SETUP \<Rightarrow> revealed_upto g 0 \<and> pg_round_phase g = None \<and> pg_rankings g = []
     | PORTFOLIO_LOCKED \<Rightarrow> all_configured g \<and> revealed_upto g 0 \<and> pg_round_phase g = None \<and> pg_rankings g = []
     | RUNNING \<Rightarrow> all_configured g \<and> 1 \<le> pg_current_round g \<and> pg_current_round g \<le> gc_round_count (pg_config g)
         \<and> revealed_upto g (nat (pg_current_round g)) \<and> pg_round_phase g \<noteq> None \<and> pg_rankings g = []
     | FINAL_VALUATION \<Rightarrow> all_configured g \<and> revealed_upto g (length (pg_events g)) \<and> pg_round_phase g = None \<and> pg_rankings g = []
     | COMPLETED \<Rightarrow> all_configured g \<and> revealed_upto g (length (pg_events g)) \<and> pg_round_phase g = None
         \<and> (\<exists>s. snapshot (pg_world g) (gc_round_count (pg_config g)) = Inr s
              \<and> calculate_rankings (portfolio_snapshot g) (ws_final_prices s) = Inr (pg_rankings g))
     | CANCELLED \<Rightarrow> False)"

definition game_inv :: "PawnhouseGame \<Rightarrow> bool" where
  "game_inv g \<longleftrightarrow> 1 \<le> gc_round_count (pg_config g) \<and> schedule_inv g \<and> roster_inv g \<and> phase_inv g"

lemma length_dput: "length (dput d k v) = (if k \<in> set (dkeys d) then length d else Suc (length d))"
  by (induction d) auto

lemma event_dict_distinct:
  "length (fold (\<lambda>e d. dput d (we_event_id e) e) evs d) \<le> length d + length evs \<and>
   (length (fold (\<lambda>e d. dput d (we_event_id e) e) evs d) = length d + length evs \<longrightarrow>
     distinct (map we_event_id evs) \<and> set (map we_event_id evs) \<inter> set (dkeys d) = {}
     \<and> fold (\<lambda>e d. dput d (we_event_id e) e) evs d = d @ map (\<lambda>e. (we_event_id e, e)) evs)"
proof (induction evs arbitrary: d)
  case (Cons e evs)
  let ?d = "dput d (we_event_id e) e"
  show ?case
  proof (cases "we_event_id e \<in> set (dkeys d)")
    case True
    then have "length ?d = length d" by (simp add: length_dput)
    with Cons [of ?d] show ?thesis by auto
  next
    case False
    then have "length ?d = Suc (length d)" "?d = d @ [(we_event_id e, e)]" by (simp_all add: length_dput update_new)
    with Cons [of ?d] False show ?thesis by auto
  qed
qed simp

lemma new_game_inv:
  assumes "PawnhouseGame_new i c evs seed = Inr g" "GameConfig_post_init c = Inr c"
  shows "game_inv g"
proof -
  have c: "1 \<le> gc_round_count c" using assms(2) by (auto simp: GameConfig_post_init_def split: if_splits)
  from assms(1) have g: "pg_config g = c" "pg_events g = evs" "pg_phase g = REGISTRATION" "pg_participants g = []" "pg_users g = {}"
     "pg_round_phase g = None" "pg_rankings g = []" "wo_event_catalog (pg_world g) = event_dict evs"
     "wo_base_prices (pg_world g) = INITIAL_PRICES" "wo_revealed_event_ids (pg_world g) = []"
    and e: "int (length evs) = gc_round_count c" "map we_reveal_round evs = [1..gc_round_count c]" "length (event_dict evs) = length evs"
    by (auto simp: PawnhouseGame_new_def Let_def bindR_Inr_iff WorldState_post_init_def split: if_splits)
  have "distinct (map we_event_id evs)" "event_dict evs = map (\<lambda>e. (we_event_id e, e)) evs"
    using event_dict_distinct [of evs "[]"] e(3) by (simp_all add: event_dict_def)
  then show ?thesis using g e c
    by (simp add: game_inv_def schedule_inv_def roster_inv_def roster_def phase_inv_def revealed_upto_def)
qed

lemma join_inv: "game_inv g \<Longrightarrow> game_inv (snd (join_game u a g))"
proof -
  assume inv: "game_inv g"
  show ?thesis
  proof (cases "snd (join_game u a g) = g")
    case False
    let ?q = "\<lparr>gp_user_id = u, gp_agent_id = a, gp_portfolio = None\<rparr>"
    from False have j: "pg_phase g \<in> {REGISTRATION, PORTFOLIO_SETUP}" "u \<notin> pg_users g" "dget (pg_participants g) a = None"
      "int (length (pg_participants g)) < gc_max_participants (pg_config g)"
      and g': "snd (join_game u a g) = g\<lparr>pg_users := insert u (pg_users g), pg_participants := dput (pg_participants g) a ?q, pg_phase := PORTFOLIO_SETUP\<rparr>"
      by (auto simp: join_game_def split: if_splits)
    have n: "a \<notin> set (dkeys (pg_participants g))" using j(3) by (simp add: map_of_eq_None_iff)
    then have p: "dput (pg_participants g) a ?q = pg_participants g @ [(a, ?q)]" by (rule update_new)
    show ?thesis unfolding g' p
      using inv j n by (auto simp: game_inv_def schedule_inv_def roster_inv_def roster_def phase_inv_def revealed_upto_def comp_def case_prod_beta)
  qed (simp add: inv)
qed

lemma set_portfolio_roster: "map (\<lambda>(a, q). (a, gp_user_id q)) (set_portfolio a p d) = map (\<lambda>(a, q). (a, gp_user_id q)) d"
proof -
  have "dget d a = Some q \<Longrightarrow> map (\<lambda>(a, q). (a, gp_user_id q)) (dput d a (q\<lparr>gp_portfolio := Some p\<rparr>)) = map (\<lambda>(a, q). (a, gp_user_id q)) d" for q
    by (induction d) (auto split: if_splits)
  then show ?thesis by (auto simp: set_portfolio_def split: option.splits)
qed

lemma set_portfolios_roster:
  "map (\<lambda>(a, q). (a, gp_user_id q)) (fold (\<lambda>(a, p). set_portfolio a p) ps d) = map (\<lambda>(a, q). (a, gp_user_id q)) d"
  by (induction ps arbitrary: d) (auto simp: set_portfolio_roster)

lemma participants_update_inv:
  assumes "game_inv g" "map (\<lambda>(a, q). (a, gp_user_id q)) ps = map (\<lambda>(a, q). (a, gp_user_id q)) (pg_participants g)" "pg_phase g = PORTFOLIO_SETUP"
  shows "game_inv (g\<lparr>pg_participants := ps\<rparr>)"
  using assms by (simp add: game_inv_def schedule_inv_def roster_inv_def roster_def phase_inv_def revealed_upto_def)

lemma configure_inv: "game_inv g \<Longrightarrow> game_inv (snd (configure_portfolio a p g))"
  by (auto simp: configure_portfolio_def intro!: participants_update_inv set_portfolio_roster)

lemma lock_inv:
  assumes "game_inv g"
  shows "game_inv (snd (lock_portfolios g))"
proof -
  let ?r = "if gc_portfolio_mode (pg_config g) = ''balanced_auto''
                 then bindR (distribute_balanced_portfolios (dkeys (pg_participants g)) (pg_event_seed g) INITIAL_PRICES)
                        (\<lambda>ps. Inr (fold (\<lambda>(a, p). set_portfolio a p) ps (pg_participants g)))
                 else Inr (pg_participants g)"
  have "game_inv (g\<lparr>pg_participants := ps\<rparr>)" "length ps = length (pg_participants g)" if "?r = Inr ps" "pg_phase g = PORTFOLIO_SETUP" for ps
  proof -
    have m: "map (\<lambda>(a, q). (a, gp_user_id q)) ps = map (\<lambda>(a, q). (a, gp_user_id q)) (pg_participants g)"
      using that(1) by (auto simp: bindR_Inr_iff set_portfolios_roster split: if_splits)
    show "game_inv (g\<lparr>pg_participants := ps\<rparr>)" by (rule participants_update_inv [OF assms m that(2)])
    show "length ps = length (pg_participants g)" using m by (rule map_eq_imp_length_eq)
  qed
  then show ?thesis using assms
    by (auto simp: lock_portfolios_def Let_def list_ex_iff split: sum.splits)
      (auto simp: game_inv_def schedule_inv_def roster_inv_def roster_def phase_inv_def revealed_upto_def all_configured_def)
qed

lemma scheduled_event:
  assumes "schedule_inv g" "1 \<le> c" "c \<le> gc_round_count (pg_config g)"
  shows "py_index (pg_events g) (c - 1) = Inr (pg_events g ! nat (c - 1))"
    "dget (wo_event_catalog (pg_world g)) (we_event_id (pg_events g ! nat (c - 1))) = Some (pg_events g ! nat (c - 1))"
    "we_reveal_round (pg_events g ! nat (c - 1)) = c"
    "take (nat c) (pg_events g) = take (nat (c - 1)) (pg_events g) @ [pg_events g ! nat (c - 1)]"
    "we_event_id (pg_events g ! nat (c - 1)) \<notin> set (map we_event_id (take (nat (c - 1)) (pg_events g)))"
proof -
  let ?k = "nat (c - 1)" and ?es = "pg_events g"
  have l: "int (length ?es) = gc_round_count (pg_config g)" and r: "map we_reveal_round ?es = [1..gc_round_count (pg_config g)]"
    and d: "distinct (map we_event_id ?es)" and cat: "wo_event_catalog (pg_world g) = map (\<lambda>e. (we_event_id e, e)) ?es"
    using assms(1) by (simp_all add: schedule_inv_def)
  have k: "?k < length ?es" using l assms by linarith
  show "py_index ?es (c - 1) = Inr (?es ! ?k)" using assms l by (simp add: py_index_def)
  show "dget (wo_event_catalog (pg_world g)) (we_event_id (?es ! ?k)) = Some (?es ! ?k)"
    unfolding cat using d k by (intro map_of_is_SomeI) (auto simp: comp_def)
  have "map we_reveal_round ?es ! ?k = [1..gc_round_count (pg_config g)] ! ?k" using r by simp
  then show "we_reveal_round (?es ! ?k) = c" using k l assms by simp
  have "nat c = Suc ?k" using assms(2) by simp
  then show t: "take (nat c) ?es = take ?k ?es @ [?es ! ?k]" using k by (simp add: take_Suc_conv_app_nth)
  have "distinct (map we_event_id (take (nat c) ?es))" using d by (simp add: distinct_take flip: take_map)
  then show "we_event_id (?es ! ?k) \<notin> set (map we_event_id (take ?k ?es))" unfolding t by simp
qed

text \<open>Revealing the event of a round whose predecessors have been revealed.\<close>

lemma reveal_current_fresh:
  assumes s: "schedule_inv g" and c: "1 \<le> pg_current_round g" "pg_current_round g \<le> gc_round_count (pg_config g)"
    and g: "pg_phase g = RUNNING" "pg_round_phase g = Some EVENT_REVEAL" "revealed_upto g (nat (pg_current_round g - 1))"
  defines "w' \<equiv> (pg_world g)\<lparr>wo_revealed_event_ids := map we_event_id (take (nat (pg_current_round g)) (pg_events g))\<rparr>"
  shows "reveal_current_event g = (case snapshot w' (pg_current_round g) of
      Inl e \<Rightarrow> (Inl e, g\<lparr>pg_world := w'\<rparr>) | Inr z \<Rightarrow> (Inr z, g\<lparr>pg_world := w', pg_round_phase := Some DECIDE\<rparr>))"
proof -
  note e = scheduled_event [OF s c]
  let ?ev = "pg_events g ! nat (pg_current_round g - 1)"
  have w: "(pg_world g)\<lparr>wo_revealed_event_ids := wo_revealed_event_ids (pg_world g) @ [we_event_id ?ev]\<rparr> = w'"
    using g(3) e(4) by (simp add: w'_def revealed_upto_def)
  have "reveal (pg_world g) (we_event_id ?ev) (pg_current_round g) = (snapshot w' (pg_current_round g), w')"
    using e(2,3,5) g(3) unfolding w [symmetric] by (simp add: reveal_def revealed_upto_def Let_def)
  then show ?thesis using g(1,2) e(1) by (simp add: reveal_current_event_def split: sum.splits)
qed

lemma reveal_current_fresh_inv:
  assumes "schedule_inv g" "1 \<le> pg_current_round g" "pg_current_round g \<le> gc_round_count (pg_config g)"
    "pg_phase g = RUNNING" "pg_round_phase g = Some EVENT_REVEAL" "revealed_upto g (nat (pg_current_round g - 1))"
    and r: "1 \<le> gc_round_count (pg_config g)" "roster_inv g" "all_configured g" "pg_rankings g = []"
  shows "game_inv (snd (reveal_current_event g))"
  unfolding reveal_current_fresh [OF assms(1-6)]
  using assms
  by (auto simp: game_inv_def phase_inv_def schedule_inv_def roster_inv_def roster_def revealed_upto_def all_configured_def split: sum.splits)

lemma start_inv: "game_inv g \<Longrightarrow> game_inv (snd (start g))"
  unfolding start_def
  by (auto intro!: reveal_current_fresh_inv)
    (auto simp: game_inv_def phase_inv_def schedule_inv_def roster_inv_def roster_def revealed_upto_def all_configured_def)

lemma next_round_inv:
  assumes "game_inv g"
  shows "game_inv (snd (next_round g))"
proof -
  let ?g = "g\<lparr>pg_current_round := pg_current_round g + 1, pg_round_phase := Some EVENT_REVEAL\<rparr>"
  consider (refused) "pg_phase g \<noteq> RUNNING \<or> pg_round_phase g \<noteq> Some ROUND_COMPLETED"
    | (last) "pg_phase g = RUNNING" "pg_round_phase g = Some ROUND_COMPLETED" "pg_current_round g \<ge> gc_round_count (pg_config g)"
    | (more) "pg_phase g = RUNNING" "pg_round_phase g = Some ROUND_COMPLETED" "pg_current_round g < gc_round_count (pg_config g)"
    by linarith
  then show ?thesis
  proof cases
    case last
    then have "nat (pg_current_round g) = length (pg_events g)"
      using assms by (auto simp: game_inv_def phase_inv_def schedule_inv_def)
    then show ?thesis using assms last
      by (simp add: next_round_def game_inv_def phase_inv_def schedule_inv_def roster_inv_def roster_def revealed_upto_def all_configured_def)
  next
    case more
    have "game_inv (snd (reveal_current_event ?g))"
      by (rule reveal_current_fresh_inv)
        (use assms more in \<open>auto simp: game_inv_def phase_inv_def schedule_inv_def roster_inv_def roster_def revealed_upto_def all_configured_def\<close>)
    then show ?thesis using more by (simp add: next_round_def case_prod_beta)
  qed (use assms in \<open>auto simp: next_round_def\<close>)
qed

text \<open>In the invariant an event to be revealed has already been revealed: the game is in this phase
  between two calls only after a snapshot raised.\<close>

lemma reveal_again:
  assumes "game_inv g" "pg_phase g = RUNNING" "pg_round_phase g = Some EVENT_REVEAL"
  shows "reveal_current_event g = (Inl (EventError ''event was already revealed''), g)"
proof -
  have i: "schedule_inv g" "1 \<le> pg_current_round g" "pg_current_round g \<le> gc_round_count (pg_config g)" "revealed_upto g (nat (pg_current_round g))"
    using assms by (auto simp: game_inv_def phase_inv_def)
  note e = scheduled_event [OF i(1-3)]
  let ?ev = "pg_events g ! nat (pg_current_round g - 1)"
  have "we_event_id ?ev \<in> set (wo_revealed_event_ids (pg_world g))" using i(4) e(4) by (simp add: revealed_upto_def)
  then have "reveal (pg_world g) (we_event_id ?ev) (pg_current_round g) = (Inl (EventError ''event was already revealed''), pg_world g)"
    using e(2,3) by (simp add: reveal_def)
  then show ?thesis using assms(2,3) e(1) by (simp add: reveal_current_event_def)
qed

lemma reveal_inv: "game_inv g \<Longrightarrow> game_inv (snd (reveal_current_event g))"
  using reveal_again [of g]
  by (cases "pg_phase g = RUNNING \<and> pg_round_phase g = Some EVENT_REVEAL") (auto simp: reveal_current_event_def)

lemma move_inv: "game_inv g \<Longrightarrow> game_inv (snd (move_round_phase e t g))"
  by (cases "pg_phase g = RUNNING")
    (auto simp: move_round_phase_def game_inv_def phase_inv_def schedule_inv_def roster_inv_def roster_def revealed_upto_def all_configured_def)

lemma portfolios_of_participants:
  assumes "\<forall>q \<in> set (dvalues ps). gp_portfolio q \<noteq> None"
  shows "mapR (\<lambda>(a, q). case gp_portfolio q of None \<Rightarrow> Inl e | Some p \<Rightarrow> Inr (a, p)) ps
     = Inr (concat (map (\<lambda>(a, q). case gp_portfolio q of None \<Rightarrow> [] | Some p \<Rightarrow> [(a, p)]) ps))"
  using assms by (induction ps) auto

lemma complete_inv:
  assumes "game_inv g"
  shows "game_inv (snd (complete_game g))"
proof (cases "\<exists>rs. fst (complete_game g) = Inr rs")
  case True
  then obtain rs where rs: "fst (complete_game g) = Inr rs" ..
  then have f: "pg_phase g = FINAL_VALUATION" by (auto simp: complete_game_def split: if_splits)
  then have "\<forall>q \<in> set (dvalues (pg_participants g)). gp_portfolio q \<noteq> None"
    using assms by (simp add: game_inv_def phase_inv_def all_configured_def)
  note ps = portfolios_of_participants [OF this, folded portfolio_snapshot_def]
  from rs f obtain s where "snapshot (pg_world g) (gc_round_count (pg_config g)) = Inr s"
    "calculate_rankings (portfolio_snapshot g) (ws_final_prices s) = Inr rs"
    "snd (complete_game g) = g\<lparr>pg_rankings := rs, pg_phase := COMPLETED\<rparr>"
    by (auto simp: complete_game_def ps bindR_Inr_iff split: sum.splits)
  then show ?thesis using assms f
    by (auto simp: game_inv_def phase_inv_def schedule_inv_def roster_inv_def roster_def revealed_upto_def all_configured_def portfolio_snapshot_def)
next
  case False
  then have "snd (complete_game g) = g" by (auto simp: complete_game_def split: if_splits sum.splits)
  then show ?thesis using assms by simp
qed

lemma game_step_inv: "game_inv g \<Longrightarrow> game_inv (game_step op g)"
  by (cases op) (simp_all add: join_inv configure_inv lock_inv start_inv reveal_inv move_inv next_round_inv complete_inv)

interpretation game: invariant_machine game_step "\<lambda>_ _. True" game_inv
  by unfold_locales (rule game_step_inv)

text \<open>Property C11: whatever sequence of calls a game receives after its creation, successful or refused,
  it keeps its schedule and world consistent, no user and no agent takes part twice, the limit on
  participants holds, the events revealed are exactly those of the rounds reached, nobody plays without a
  portfolio, and the rankings of a completed game are those of its portfolios at the final prices.\<close>

theorem game_run_invariant:
  assumes "PawnhouseGame_new i c evs seed = Inr g" "GameConfig_post_init c = Inr c"
  shows "game_inv (fold game_step ops g)"
  using game.run_always [OF new_game_inv [OF assms]] by simp

fun phase_rank :: "GamePhase \<Rightarrow> nat" where
  "phase_rank REGISTRATION = 0"
| "phase_rank PORTFOLIO_SETUP = 1"
| "phase_rank PORTFOLIO_LOCKED = 2"
| "phase_rank RUNNING = 3"
| "phase_rank FINAL_VALUATION = 4"
| "phase_rank COMPLETED = 5"
| "phase_rank CANCELLED = 6"

definition no_going_back :: "PawnhouseGame \<Rightarrow> PawnhouseGame \<Rightarrow> bool" where
  "no_going_back g g' \<longleftrightarrow> phase_rank (pg_phase g) \<le> phase_rank (pg_phase g')
     \<and> (2 \<le> phase_rank (pg_phase g) \<longrightarrow> pg_participants g' = pg_participants g)
     \<and> (pg_phase g = COMPLETED \<longrightarrow> g' = g)
     \<and> pg_events g' = pg_events g \<and> pg_config g' = pg_config g \<and> pg_event_commitment g' = pg_event_commitment g"

lemma reveal_current_frame:
  "snd (reveal_current_event g) = g \<or> pg_phase g = RUNNING \<and>
     (\<exists>w rp. snd (reveal_current_event g) = g\<lparr>pg_world := w, pg_round_phase := rp\<rparr>)"
proof -
  have e: "g\<lparr>pg_world := w\<rparr> = g\<lparr>pg_world := w, pg_round_phase := pg_round_phase g\<rparr>" for w by simp
  show ?thesis
    unfolding reveal_current_event_def by (auto split: sum.splits prod.splits) (metis e)+
qed

lemma game_step_forward: "no_going_back g (game_step op g)"
proof (cases op)
  case OpLock
  then show ?thesis by (auto simp: no_going_back_def lock_portfolios_def Let_def split: sum.splits)
next
  case OpStart
  then show ?thesis
    using reveal_current_frame [of "g\<lparr>pg_phase := RUNNING, pg_current_round := 1, pg_round_phase := Some EVENT_REVEAL\<rparr>"]
    by (auto simp: no_going_back_def start_def)
next
  case OpReveal
  then show ?thesis using reveal_current_frame [of g] by (auto simp: no_going_back_def)
next
  case OpNext
  then show ?thesis
    using reveal_current_frame [of "g\<lparr>pg_current_round := pg_current_round g + 1, pg_round_phase := Some EVENT_REVEAL\<rparr>"]
    by (auto simp: no_going_back_def next_round_def case_prod_beta)
next
  case (OpJoin u a)
  then show ?thesis by (auto simp: no_going_back_def join_game_def)
next
  case (OpConfigure a p)
  then show ?thesis by (auto simp: no_going_back_def configure_portfolio_def)
next
  case (OpMove e t)
  then show ?thesis by (auto simp: no_going_back_def move_round_phase_def)
next
  case OpComplete
  then show ?thesis by (auto simp: no_going_back_def complete_game_def split: sum.splits)
qed

lemma no_going_back_trans: "no_going_back a b \<Longrightarrow> no_going_back b c \<Longrightarrow> no_going_back a c"
  unfolding no_going_back_def by (metis order_trans)

lemma no_going_back_fold: "no_going_back g (fold game_step ops g)"
proof (induction ops arbitrary: g)
  case (Cons op ops)
  show ?case using no_going_back_trans [OF game_step_forward [of g op] Cons.IH [of "game_step op g"]] by simp
qed (simp add: no_going_back_def)

text \<open>Property C37: a game never moves back to an earlier phase, its configuration, schedule and
  commitment never change, its participants and their portfolios are fixed once locked, and a
  completed game never changes again, whatever calls it receives.\<close>

theorem game_never_goes_back: "no_going_back g (fold game_step ops g)"
  by (rule no_going_back_fold)

section \<open>A full game always completes\<close>

definition round_calls :: "game_call list" where
  "round_calls = [OpMove DECIDE MATCH, OpMove MATCH NEGOTIATE, OpMove NEGOTIATE SETTLE, OpMove SETTLE ROUND_CLOSE,
                  OpMove ROUND_CLOSE ROUND_COMPLETED, OpNext]"

definition full_game :: "nat \<Rightarrow> game_call list" where
  "full_game n = OpStart # concat (replicate n round_calls) @ [OpComplete]"

definition preset_game :: "PawnhouseGame \<Rightarrow> bool" where
  "preset_game g \<longleftrightarrow> game_inv g \<and> gc_round_count (pg_config g) \<le> 10 \<and> (\<forall>ev \<in> set (pg_events g). preset_ok ev)"

lemma preset_world_snapshot:
  assumes "preset_game g" "0 \<le> r" "wo_event_catalog w = wo_event_catalog (pg_world g)" "wo_base_prices w = INITIAL_PRICES"
    "wo_revealed_event_ids w = map we_event_id (take k (pg_events g))"
  shows "\<exists>s. snapshot w r = Inr s" "valid_world w"
proof -
  have s: "schedule_inv g" and n: "gc_round_count (pg_config g) \<le> 10" and p: "\<forall>ev \<in> set (pg_events g). preset_ok ev"
    using assms(1) by (auto simp: preset_game_def game_inv_def)
  have cat: "wo_event_catalog w = map (\<lambda>e. (we_event_id e, e)) (pg_events g)" and l: "length (pg_events g) \<le> 10"
    using s n assms(3) by (auto simp: schedule_inv_def)
  show w: "valid_world w"
    using p assms(4,5) canonical_catalogs(1) cat set_take_subset [of k "pg_events g"]
    by (auto simp: valid_world_def WorldState_post_init_def canonical_prices_def INITIAL_PRICES_eq preset_ok_def valid_event_def list_all_iff comp_def)
  show "\<exists>s. snapshot w r = Inr s"
    by (rule preset_snapshot_ok [OF w]) (use p cat l assms in \<open>auto simp: INITIAL_PRICES_eq GOLD_SCALE_def comp_def\<close>)
qed

definition deciding :: "PawnhouseGame \<Rightarrow> int \<Rightarrow> PawnhouseGame \<Rightarrow> bool" where
  "deciding g0 c g \<longleftrightarrow> preset_game g \<and> pg_phase g = RUNNING \<and> pg_round_phase g = Some DECIDE \<and> pg_current_round g = c
     \<and> pg_config g = pg_config g0 \<and> pg_events g = pg_events g0 \<and> pg_participants g = pg_participants g0"

lemma preset_game_step: "preset_game g \<Longrightarrow> preset_game (game_step op g)"
  using game_step_inv [of g op] game_step_forward [of g op] by (auto simp: preset_game_def no_going_back_def)

lemma reveal_preset:
  assumes p: "schedule_inv g" "\<forall>ev \<in> set (pg_events g). preset_ok ev" "gc_round_count (pg_config g) \<le> 10"
    and c: "1 \<le> pg_current_round g" "pg_current_round g \<le> gc_round_count (pg_config g)"
    and g: "pg_phase g = RUNNING" "pg_round_phase g = Some EVENT_REVEAL" "revealed_upto g (nat (pg_current_round g - 1))"
    and h: "preset_game h" "pg_events h = pg_events g" "wo_event_catalog (pg_world h) = wo_event_catalog (pg_world g)"
  shows "\<exists>w. snd (reveal_current_event g) = g\<lparr>pg_world := w, pg_round_phase := Some DECIDE\<rparr>"
proof -
  let ?w = "(pg_world g)\<lparr>wo_revealed_event_ids := map we_event_id (take (nat (pg_current_round g)) (pg_events g))\<rparr>"
  have "\<exists>s. snapshot ?w (pg_current_round g) = Inr s"
    by (rule preset_world_snapshot(1) [OF h(1)]) (use p c h in \<open>auto simp: schedule_inv_def\<close>)
  then show ?thesis unfolding reveal_current_fresh [OF p(1) c g] by auto
qed

lemma start_deciding:
  assumes "preset_game g" "pg_phase g = PORTFOLIO_LOCKED"
  shows "deciding g 1 (game_step OpStart g)"
proof -
  let ?g = "g\<lparr>pg_phase := RUNNING, pg_current_round := 1, pg_round_phase := Some EVENT_REVEAL\<rparr>"
  have "\<exists>w. snd (reveal_current_event ?g) = ?g\<lparr>pg_world := w, pg_round_phase := Some DECIDE\<rparr>"
    by (rule reveal_preset [where h = g])
      (use assms in \<open>auto simp: preset_game_def game_inv_def phase_inv_def schedule_inv_def revealed_upto_def\<close>)
  then show ?thesis using preset_game_step [OF assms(1), of OpStart] assms(2) by (auto simp: deciding_def start_def)
qed

lemma round_moves:
  assumes "deciding g0 c g"
  shows "fold game_step round_calls g = game_step OpNext (g\<lparr>pg_round_phase := Some ROUND_COMPLETED\<rparr>)"
  using assms by (simp add: round_calls_def deciding_def move_round_phase_def)

lemma preset_round_done: "preset_game g \<Longrightarrow> pg_phase g = RUNNING \<Longrightarrow> preset_game (g\<lparr>pg_round_phase := Some r\<rparr>)"
  by (auto simp: preset_game_def game_inv_def phase_inv_def schedule_inv_def roster_inv_def roster_def revealed_upto_def all_configured_def)

lemma round_next:
  assumes "deciding g0 c g" "c < gc_round_count (pg_config g0)"
  shows "deciding g0 (c + 1) (fold game_step round_calls g)"
proof -
  let ?d = "g\<lparr>pg_round_phase := Some ROUND_COMPLETED\<rparr>"
  let ?g = "?d\<lparr>pg_current_round := c + 1, pg_round_phase := Some EVENT_REVEAL\<rparr>"
  have p: "preset_game ?d" using assms(1) preset_round_done by (simp add: deciding_def)
  have "\<exists>w. snd (reveal_current_event ?g) = ?g\<lparr>pg_world := w, pg_round_phase := Some DECIDE\<rparr>"
    by (rule reveal_preset [OF _ _ _ _ _ _ _ _ p])
      (use assms in \<open>auto simp: deciding_def preset_game_def game_inv_def phase_inv_def schedule_inv_def revealed_upto_def\<close>)
  then show ?thesis using preset_game_step [OF p, of OpNext] assms
    by (auto simp: round_moves [OF assms(1)] deciding_def next_round_def case_prod_beta)
qed

lemma rounds_to_end:
  assumes "deciding g0 c g" "c + int k = gc_round_count (pg_config g0)"
  shows "preset_game (fold game_step (concat (replicate (Suc k) round_calls)) g)
    \<and> pg_phase (fold game_step (concat (replicate (Suc k) round_calls)) g) = FINAL_VALUATION
    \<and> pg_participants (fold game_step (concat (replicate (Suc k) round_calls)) g) = pg_participants g0"
  using assms
proof (induction k arbitrary: c g)
  case 0
  let ?d = "g\<lparr>pg_round_phase := Some ROUND_COMPLETED\<rparr>"
  have p: "preset_game ?d" using 0(1) preset_round_done by (simp add: deciding_def)
  show ?case using preset_game_step [OF p, of OpNext] 0
    by (simp add: round_moves [OF 0(1)] next_round_def) (simp add: deciding_def)
next
  case (Suc k)
  have "deciding g0 (c + 1) (fold game_step round_calls g)" using Suc.prems by (intro round_next) auto
  from Suc.IH [OF this] Suc.prems(2) show ?case by (simp add: algebra_simps)
qed

definition valued_portfolio :: "Portfolio \<Rightarrow> bool" where
  "valued_portfolio p \<longleftrightarrow> 0 \<le> cash_atomic p \<and> (\<exists>d. normalize_holdings (holdings p) = Inr d)"

lemma complete_preset:
  assumes "preset_game g" "pg_phase g = FINAL_VALUATION"
    and v: "\<forall>q \<in> set (dvalues (pg_participants g)). \<forall>p. gp_portfolio q = Some p \<longrightarrow> valued_portfolio p"
  shows "\<exists>rs. game_step OpComplete g = g\<lparr>pg_rankings := rs, pg_phase := COMPLETED\<rparr> \<and> length rs = length (pg_participants g)"
proof -
  have i: "game_inv g" using assms(1) by (simp add: preset_game_def)
  then have cfg: "\<forall>q \<in> set (dvalues (pg_participants g)). gp_portfolio q \<noteq> None" and r: "revealed_upto g (length (pg_events g))"
    and sc: "schedule_inv g" and n: "1 \<le> gc_round_count (pg_config g)"
    using assms(2) by (auto simp: game_inv_def phase_inv_def all_configured_def)
  note w = preset_world_snapshot [OF assms(1), of "gc_round_count (pg_config g)" "pg_world g" "length (pg_events g)"]
  obtain s where s: "snapshot (pg_world g) (gc_round_count (pg_config g)) = Inr s"
    using w(1) r sc n by (auto simp: revealed_upto_def schedule_inv_def)
  have "valid_world (pg_world g)" using w(2) r sc n by (auto simp: revealed_upto_def schedule_inv_def)
  from snapshot_sat [OF this, of "gc_round_count (pg_config g)"] n s
  have fin: "set (dkeys (ws_final_prices s)) = set GOOD_IDS" by (simp add: good_table_def)
  have mem: "(\<exists>a. (a, p) \<in> set (portfolio_snapshot g)) \<Longrightarrow> valued_portfolio p" for p
    using v by (auto simp: portfolio_snapshot_def split: option.splits)
  have "\<forall>p \<in> set (dvalues (portfolio_snapshot g)). \<exists>x. net_worth p (ws_final_prices s) = Inr x"
    using mem fin by (force simp: net_worth_def portfolio_value_iff valued_portfolio_def)
  note rk = calculate_rankings_eq [OF this]
  have "length (portfolio_snapshot g) = length (pg_participants g)"
  proof -
    have "length (concat (map (\<lambda>(a, q). case gp_portfolio q of None \<Rightarrow> [] | Some p \<Rightarrow> [(a, p)]) ps)) = length ps"
      if "\<forall>q \<in> set (dvalues ps). gp_portfolio q \<noteq> None" for ps :: "(string, GameParticipant) dict"
      using that by (induction ps) auto
    then show ?thesis using cfg by (simp add: portfolio_snapshot_def)
  qed
  then show ?thesis
    using assms(2) s rk portfolios_of_participants [OF cfg, folded portfolio_snapshot_def]
    by (auto simp: complete_game_def worths_def)
qed

text \<open>Property C33: a game with locked portfolios over a schedule of at most ten preset events can
  always be played to the end, provided that its portfolios can be valued, as those of \<open>Portfolio.initial\<close> can: starting it, taking every round through its phases and completing
  it succeeds at each call and leaves a completed game that ranks every participant.\<close>

theorem full_game_completes:
  assumes "game_inv g" "pg_phase g = PORTFOLIO_LOCKED" "gc_round_count (pg_config g) = int n" "n \<le> 10"
    "\<forall>ev \<in> set (pg_events g). preset_ok ev"
    "\<forall>q \<in> set (dvalues (pg_participants g)). \<forall>p. gp_portfolio q = Some p \<longrightarrow> valued_portfolio p"
  shows "pg_phase (fold game_step (full_game n) g) = COMPLETED
     \<and> length (pg_rankings (fold game_step (full_game n) g)) = length (pg_participants g)"
proof -
  have p: "preset_game g" using assms by (simp add: preset_game_def)
  have "1 \<le> gc_round_count (pg_config g)" using assms(1) by (simp add: game_inv_def)
  then obtain k where k: "n = Suc k" using assms(3) by (cases n) auto
  have d: "deciding g 1 (game_step OpStart g)" by (rule start_deciding [OF p assms(2)])
  from rounds_to_end [OF d, of k] assms(3) k have e: "preset_game (fold game_step (concat (replicate n round_calls)) (game_step OpStart g))"
    "pg_phase (fold game_step (concat (replicate n round_calls)) (game_step OpStart g)) = FINAL_VALUATION"
    "pg_participants (fold game_step (concat (replicate n round_calls)) (game_step OpStart g)) = pg_participants g" by auto
  from complete_preset [OF e(1,2)] assms(6) e(3) show ?thesis by (auto simp: full_game_def)
qed

section \<open>Every built schedule makes a game\<close>

definition clean_event :: "WorldEvent \<Rightarrow> bool" where
  "clean_event ev \<longleftrightarrow> clean_text (we_display_name ev) \<and> clean_text (we_narrative ev)"

lemma clean_event_wire: "clean_event ev \<Longrightarrow> clean_json (WorldEvent_to_wire ev)"
  by (auto simp: clean_event_def WorldEvent_to_wire_def EventEffect_to_wire_def optional_field_def list_all_iff split: option.splits)

lemma commitment_ok: "seed \<noteq> [] \<Longrightarrow> \<forall>ev \<in> set evs. clean_event ev \<Longrightarrow> \<exists>h. schedule_commitment evs seed = Inr h"
  using clean_identifier [of "schedule_payload evs seed"] clean_event_wire
  by (auto simp: schedule_commitment_def schedule_payload_def list_all_iff)

lemma preset_clean:
  "list_all clean_event (dvalues MVP_EVENT_CATALOG)" "list_all clean_event (dvalues EXPERIMENTAL_EVENT_CATALOG_V2)"
  by (simp_all add: MVP_EVENT_CATALOG_def EXPERIMENTAL_EVENT_CATALOG_V2_def preset_defs clean_event_def clean_text_def is_surrogate_def)

lemma new_game_ok:
  assumes "full_schedule n evs" "\<forall>ev \<in> set evs. clean_event ev" "gc_round_count c = n" "1 \<le> n" "i \<noteq> []" "seed \<noteq> []"
  shows "\<exists>g. PawnhouseGame_new i c evs seed = Inr g"
proof -
  have r: "map we_reveal_round evs = [1..n]" and d: "distinct (map we_event_id evs)" using assms(1) by (auto simp: full_schedule_def)
  then have l: "length evs = nat n" by (metis length_map length_upto add_diff_cancel_right' diff_add_cancel)
  have "fold (\<lambda>e d. dput d (we_event_id e) e) evs acc = acc @ map (\<lambda>e. (we_event_id e, e)) evs"
    if "distinct (map we_event_id evs)" "set (map we_event_id evs) \<inter> set (dkeys acc) = {}" for evs acc
    using that
  proof (induction evs arbitrary: acc)
    case (Cons e evs)
    then have "dput acc (we_event_id e) e = acc @ [(we_event_id e, e)]" by (intro update_new) auto
    with Cons show ?case by simp
  qed simp
  from this [of evs "[]"] d have "length (event_dict evs) = length evs" by (simp add: event_dict_def)
  moreover obtain h where "schedule_commitment evs seed = Inr h" using commitment_ok assms by blast
  ultimately show ?thesis using assms l r canonical_catalogs(1)
    by (simp add: PawnhouseGame_new_def WorldState_post_init_def canonical_prices_def) (simp add: INITIAL_PRICES_eq)
qed

text \<open>Every schedule that the event deck builds is accepted by the game: with a
  configuration for that many rounds and a non-empty id the game is created, starts in
  registration with no participants, and carries the SHA-256 commitment of exactly that schedule
  and seed.\<close>

theorem built_schedule_makes_game:
  assumes "build_event_schedule n seed deck_id mode = Inr evs" "gc_round_count c = n" "game_id \<noteq> []"
  shows "\<exists>g. PawnhouseGame_new game_id c evs seed = Inr g \<and> pg_phase g = REGISTRATION \<and> pg_participants g = []
     \<and> Inr (pg_event_commitment g) = sha256_identifier (schedule_payload evs seed)"
proof -
  obtain catalog where cat: "dget event_catalogs deck_id = Some catalog"
    using assms(1) by (auto simp: build_event_schedule_def split: option.splits)
  have sc: "full_schedule n evs" "\<forall>ev \<in> set evs. \<exists>r. ev\<lparr>we_reveal_round := r\<rparr> \<in> set (dvalues catalog)"
    using build_event_schedule_sound [OF assms(1)] cat by auto
  have "clean_event (ev\<lparr>we_reveal_round := r\<rparr>) \<longleftrightarrow> clean_event ev" for ev r by (simp add: clean_event_def)
  moreover have "\<forall>ev \<in> set (dvalues catalog). clean_event ev"
    using cat preset_clean by (auto simp: event_catalogs_def list_all_iff split: if_splits)
  ultimately have "\<forall>ev \<in> set evs. clean_event ev" using sc(2) by metis
  moreover have "1 \<le> n" "seed \<noteq> []" using assms(1) by (auto simp: build_event_schedule_def split: option.splits if_splits)
  ultimately obtain g where g: "PawnhouseGame_new game_id c evs seed = Inr g"
    using new_game_ok [OF sc(1) _ assms(2) _ assms(3)] by blast
  then show ?thesis
    by (auto simp: PawnhouseGame_new_def Let_def bindR_Inr_iff schedule_commitment_def split: if_splits)
qed

section \<open>Witnesses for rankings and games\<close>

definition demo_portfolio :: "int \<Rightarrow> Portfolio" where
  "demo_portfolio c = \<lparr>cash_atomic = c, holdings = []\<rparr>"

lemma demo_net_worth: "0 \<le> c \<Longrightarrow> net_worth (demo_portfolio c) INITIAL_PRICES = Inr c"
  by (simp add: net_worth_def demo_portfolio_def portfolio_value_iff normalize_holdings_iff qty_def INITIAL_PRICES_eq GOOD_IDS_eq)

lemma demo_rankings:
  "calculate_rankings [(''a'', demo_portfolio 3), (''b'', demo_portfolio 7)] INITIAL_PRICES =
     Inr [\<lparr>rk_rank = 1, rk_agent_id = ''b'', rk_net_worth_atomic = 7, rk_tier = DUKE\<rparr>,
          \<lparr>rk_rank = 2, rk_agent_id = ''a'', rk_net_worth_atomic = 3, rk_tier = PEDDLER\<rparr>]"
  by (simp add: calculate_rankings_def demo_net_worth ranking_key_def promotion_tier_def)

theorem calculate_rankings_correct_witness:
  "map rk_rank [\<lparr>rk_rank = 1, rk_agent_id = ''b'', rk_net_worth_atomic = 7, rk_tier = DUKE\<rparr>,
          \<lparr>rk_rank = 2, rk_agent_id = ''a'', rk_net_worth_atomic = 3, rk_tier = PEDDLER\<rparr>] = [1..<Suc 2]"
  using calculate_rankings_correct [of "[(''a'', demo_portfolio 3), (''b'', demo_portfolio 7)]" INITIAL_PRICES]
  by (simp add: demo_rankings upt_rec)

theorem calculate_rankings_order_independent_witness:
  "calculate_rankings [(''b'', demo_portfolio 7), (''a'', demo_portfolio 3)] INITIAL_PRICES =
     Inr [\<lparr>rk_rank = 1, rk_agent_id = ''b'', rk_net_worth_atomic = 7, rk_tier = DUKE\<rparr>,
          \<lparr>rk_rank = 2, rk_agent_id = ''a'', rk_net_worth_atomic = 3, rk_tier = PEDDLER\<rparr>]"
  by (rule calculate_rankings_order_independent [OF _ _ demo_rankings]) simp_all

definition demo_config :: GameConfig where
  "demo_config = \<lparr>gc_round_count = 5, gc_action_timeout_ms = 90000, gc_max_negotiation_turns = 3,
     gc_min_participants = 2, gc_max_participants = 16, gc_portfolio_mode = ''manual''\<rparr>"

lemma demo_config_ok: "GameConfig_post_init demo_config = Inr demo_config"
  by (simp add: GameConfig_post_init_def demo_config_def)

definition demo_schedule :: "WorldEvent list" where
  "demo_schedule = [ev_palace_requisition, ev_noble_gem_fever, ev_granary_fire, ev_peace_rumor, ev_coronation_cancelled]"

lemma demo_schedule_built: "build_event_schedule 5 ''s'' STANDARD_EVENT_DECK_ID ''fixed_demo'' = Inr demo_schedule"
  by (simp add: build_event_schedule_def event_catalogs_def demo_events_eq catalog_keys demo_schedule_def)

lemma demo_schedule_full: "full_schedule 5 demo_schedule" "\<forall>ev \<in> set demo_schedule. clean_event ev"
proof -
  show "full_schedule 5 demo_schedule" using build_event_schedule_sound [OF demo_schedule_built] by simp
  have "set demo_schedule \<subseteq> set (dvalues MVP_EVENT_CATALOG)" by (simp add: demo_schedule_def MVP_EVENT_CATALOG_def)
  then show "\<forall>ev \<in> set demo_schedule. clean_event ev" using preset_clean(1) by (auto simp: list_all_iff)
qed

lemma demo_game_exists: "\<exists>g. PawnhouseGame_new ''g'' demo_config demo_schedule ''s'' = Inr g"
  by (rule new_game_ok [OF demo_schedule_full]) (simp_all add: demo_config_def)

theorem built_schedule_makes_game_witness:
  "\<exists>g. PawnhouseGame_new ''g'' demo_config demo_schedule ''s'' = Inr g \<and> pg_phase g = REGISTRATION"
  using built_schedule_makes_game [OF demo_schedule_built, of demo_config "''g''"] by (auto simp: demo_config_def)

theorem game_run_invariant_witness:
  "\<exists>g. PawnhouseGame_new ''g'' demo_config demo_schedule ''s'' = Inr g \<and> game_inv (fold game_step [OpJoin ''u'' ''a'', OpLock] g)"
  using demo_game_exists game_run_invariant [OF _ demo_config_ok] by blast

definition demo_setup :: "game_call list" where
  "demo_setup = [OpJoin ''u1'' ''a1'', OpJoin ''u2'' ''a2'', OpConfigure ''a1'' (demo_portfolio 20000000),
                 OpConfigure ''a2'' (demo_portfolio 20000000), OpLock]"

lemma demo_game_locked:
  assumes "PawnhouseGame_new ''g'' demo_config demo_schedule ''s'' = Inr g"
  defines "h \<equiv> fold game_step demo_setup g"
  shows "pg_phase h = PORTFOLIO_LOCKED \<and> dvalues (pg_participants h) =
      [\<lparr>gp_user_id = ''u1'', gp_agent_id = ''a1'', gp_portfolio = Some (demo_portfolio 20000000)\<rparr>,
       \<lparr>gp_user_id = ''u2'', gp_agent_id = ''a2'', gp_portfolio = Some (demo_portfolio 20000000)\<rparr>]"
proof -
  have "pg_phase g = REGISTRATION" "pg_participants g = []" "pg_users g = {}" "pg_config g = demo_config"
    using assms(1) by (auto simp: PawnhouseGame_new_def Let_def bindR_Inr_iff split: if_splits)
  then show ?thesis
    by (simp add: h_def demo_setup_def join_game_def configure_portfolio_def set_portfolio_def lock_portfolios_def demo_config_def)
qed

theorem full_game_completes_witness:
  "\<exists>g. PawnhouseGame_new ''g'' demo_config demo_schedule ''s'' = Inr g
     \<and> pg_phase (fold game_step (full_game 5) (fold game_step demo_setup g)) = COMPLETED
     \<and> length (pg_rankings (fold game_step (full_game 5) (fold game_step demo_setup g))) = 2"
proof -
  obtain g where g: "PawnhouseGame_new ''g'' demo_config demo_schedule ''s'' = Inr g" using demo_game_exists by blast
  let ?h = "fold game_step demo_setup g"
  have i: "game_inv ?h" using game.run_always [OF new_game_inv [OF g demo_config_ok]] by simp
  have n: "no_going_back g ?h" using no_going_back_fold .
  have cfg: "pg_config g = demo_config" "pg_events g = demo_schedule"
    using g by (auto simp: PawnhouseGame_new_def Let_def bindR_Inr_iff split: if_splits)
  note l = demo_game_locked [OF g]
  have v: "valued_portfolio (demo_portfolio 20000000)"
    by (simp add: valued_portfolio_def demo_portfolio_def normalize_holdings_iff qty_def)
  have "pg_phase (fold game_step (full_game 5) ?h) = COMPLETED
     \<and> length (pg_rankings (fold game_step (full_game 5) ?h)) = length (pg_participants ?h)"
    by (rule full_game_completes [OF i])
      (use n cfg l v demo_schedule_full(1) in \<open>auto simp: no_going_back_def demo_config_def full_schedule_def\<close>)
  moreover have "length (pg_participants ?h) = 2" using l by (metis length_map length_Cons list.size(3) One_nat_def Suc_1)
  ultimately show ?thesis using g by auto
qed

end
