(* ===== verification/Arena_Contracts.thy ===== *)
theory Arena_Contracts
  imports Arena_Market
begin

text \<open>
  \<open>arena_agent_contracts/actions.py\<close> and \<open>market.py\<close>: identifiers, fixed-point decimal strings and
  the public market directory, the part of the wire contract that the market and the task envelopes use.
  A pydantic model is a validator on a record of its (strictly typed) fields. Pydantic collects the errors
  of all fields into one \<open>ValidationError\<close>; the model returns the first of them.
\<close>

section \<open>Identifiers\<close>

definition is_alnum :: "char \<Rightarrow> bool" where
  "is_alnum c \<longleftrightarrow> is_digit c \<or> (65 \<le> (of_char c :: nat) \<and> (of_char c :: nat) \<le> 90)
     \<or> (97 \<le> (of_char c :: nat) \<and> (of_char c :: nat) \<le> 122)"

definition identifier_char :: "char \<Rightarrow> bool" where
  "identifier_char c \<longleftrightarrow> is_alnum c \<or> c \<in> set ''._:-''"

text \<open>\<open>^[A-Za-z0-9][A-Za-z0-9._:-]*$\<close> with a length bound\<close>

definition wire_identifier :: "nat \<Rightarrow> string \<Rightarrow> bool" where
  "wire_identifier bound s \<longleftrightarrow>
     s \<noteq> [] \<and> length s \<le> bound \<and> is_alnum (hd s) \<and> list_all identifier_char (tl s)"

definition Identifier :: "string \<Rightarrow> bool" where
  "Identifier s \<longleftrightarrow> wire_identifier 256 s"

definition GoodId :: "string \<Rightarrow> bool" where
  "GoodId s \<longleftrightarrow> wire_identifier 128 s"

section \<open>Fixed-point decimal strings\<close>

definition MAX_DECIMAL_DIGITS :: nat where "MAX_DECIMAL_DIGITS = 38"
definition MAX_DECIMAL_PLACES :: nat where "MAX_DECIMAL_PLACES = 18"
definition MAX_PUBLIC_MESSAGE_LENGTH :: nat where "MAX_PUBLIC_MESSAGE_LENGTH = 100"

text \<open>\<open>value.partition(".")\<close>, with \<open>None\<close> when there is no separator\<close>

definition partition_point :: "string \<Rightarrow> string \<times> string option" where
  "partition_point v =
     (takeWhile (\<lambda>c. c \<noteq> CHR ''.'') v,
      case dropWhile (\<lambda>c. c \<noteq> CHR ''.'') v of [] \<Rightarrow> None | _ # f \<Rightarrow> Some f)"

text \<open>\<open>^(?:0|[1-9][0-9]*)(?:\.[0-9]+)?$\<close>\<close>

definition fixed_decimal_pattern :: "string \<Rightarrow> bool" where
  "fixed_decimal_pattern v =
     (let (i, f) = partition_point v in
        (i = ''0'' \<or> (i \<noteq> [] \<and> hd i \<noteq> CHR ''0'' \<and> list_all is_digit i))
        \<and> (case f of None \<Rightarrow> True | Some d \<Rightarrow> d \<noteq> [] \<and> list_all is_digit d))"

definition parse_fixed_decimal :: "string \<Rightarrow> decimal result" where
  "parse_fixed_decimal v =
     (if \<not> fixed_decimal_pattern v then Inl (ValueError ''value must be a non-negative fixed-point decimal string'')
      else let (integer_part, fraction) = partition_point v;
               fractional_part = (case fraction of None \<Rightarrow> [] | Some d \<Rightarrow> d) in
        if length integer_part + length fractional_part > MAX_DECIMAL_DIGITS then
          Inl (ValueError ''value must contain at most 38 decimal digits'')
        else if fraction \<noteq> None \<and> length fractional_part > MAX_DECIMAL_PLACES then
          Inl (ValueError ''value must contain at most 18 decimal places'')
        else case decimal_of_string v of
          None \<Rightarrow> Inl (ValueError ''value must be a valid fixed-point decimal'')
        | Some (Dec s c e) \<Rightarrow> Inr (Dec s c e)
        | Some _ \<Rightarrow> Inl (ValueError ''value must be finite''))"

text \<open>\<open>format(value, "f")\<close>\<close>

fun serialize_fixed_decimal :: "decimal \<Rightarrow> string" where
  "serialize_fixed_decimal (Dec s c e) =
     (if s then ''-'' else [])
     @ (if e \<ge> 0 then show_nat (if c = 0 then 0 else c * 10 ^ nat e)
        else let k = nat (- e); d = show_nat c; padded = replicate (Suc k - length d) (CHR ''0'') @ d in
          take (length padded - k) padded @ ''.'' @ drop (length padded - k) padded)"
| "serialize_fixed_decimal _ = ''''"

fun decimal_positive :: "decimal \<Rightarrow> bool" where
  "decimal_positive (Dec s c e) = (\<not> s \<and> c \<noteq> 0)"
| "decimal_positive _ = False"

definition PositiveFixedDecimal :: "string \<Rightarrow> decimal result" where
  "PositiveFixedDecimal v =
     bindR (parse_fixed_decimal v) (\<lambda>d.
       if decimal_positive d then Inr d else Inl (ValidationError ''Input should be greater than 0''))"

section \<open>The public directory\<close>

definition ARENA_MARKET_PROTOCOL_VERSION_V1 :: string where
  "ARENA_MARKET_PROTOCOL_VERSION_V1 = ''arena.market.v1''"

text \<open>The fields a caller passes, and the validated entry, whose price is a decimal.\<close>

record MarketDirectoryEntryV1 =
  de_intent_id :: string
  de_agent_id :: string
  de_display_name :: utext
  de_side :: MarketSide
  de_good :: string
  de_quantity :: int
  de_public_price :: decimal
  de_failed_negotiations :: int
  de_expires_at :: datetime

text \<open>\<open>Annotated[str, StringConstraints(min_length=1, max_length=n)]\<close> with the visible-text validator\<close>

definition visible_text :: "nat \<Rightarrow> utext \<Rightarrow> bool" where
  "visible_text bound t \<longleftrightarrow> t \<noteq> [] \<and> length t \<le> bound \<and> \<not> blank t"

definition MarketDirectoryEntryV1_new ::
  "string \<Rightarrow> string \<Rightarrow> utext \<Rightarrow> MarketSide \<Rightarrow> string \<Rightarrow> int \<Rightarrow> string \<Rightarrow> int \<Rightarrow> datetime \<Rightarrow> MarketDirectoryEntryV1 result" where
  "MarketDirectoryEntryV1_new intent_id agent_id display_name side good quantity public_price failed_negotiations expires_at =
     (if \<not> Identifier intent_id then Inl (ValidationError ''intentId'')
      else if \<not> Identifier agent_id then Inl (ValidationError ''agentId'')
      else if \<not> visible_text 100 display_name then Inl (ValidationError ''displayName'')
      else if \<not> GoodId good then Inl (ValidationError ''good'')
      else if quantity \<noteq> 1 then Inl (ValidationError ''quantity'')
      else bindR (PositiveFixedDecimal public_price) (\<lambda>price.
        if failed_negotiations < 0 then Inl (ValidationError ''failedNegotiations'')
        else if \<not> is_aware expires_at then Inl (ValidationError ''expiresAt'')
        else Inr \<lparr>de_intent_id = intent_id, de_agent_id = agent_id, de_display_name = display_name, de_side = side,
                  de_good = good, de_quantity = quantity, de_public_price = price,
                  de_failed_negotiations = failed_negotiations, de_expires_at = expires_at\<rparr>))"

record MarketDirectoryV1 =
  md_schema_version :: string
  md_market_session_id :: string
  md_game_id :: string
  md_round_id :: string
  md_entries :: "MarketDirectoryEntryV1 list"
  md_expires_at :: datetime

definition MarketDirectoryV1_validate :: "MarketDirectoryV1 \<Rightarrow> MarketDirectoryV1 result" where
  "MarketDirectoryV1_validate d =
     (if md_schema_version d \<noteq> ARENA_MARKET_PROTOCOL_VERSION_V1 then Inl (ValidationError ''schemaVersion'')
      else if \<not> Identifier (md_market_session_id d) then Inl (ValidationError ''marketSessionId'')
      else if \<not> Identifier (md_game_id d) then Inl (ValidationError ''gameId'')
      else if \<not> Identifier (md_round_id d) then Inl (ValidationError ''roundId'')
      else if \<not> distinct (map de_intent_id (md_entries d)) then Inl (ValidationError ''directory intent IDs must be unique'')
      else if \<not> is_aware (md_expires_at d) then Inl (ValidationError ''expiresAt'')
      else Inr d)"

section \<open>Decimal strings\<close>

lemma partition_point_simps:
  "list_all is_digit i \<Longrightarrow> partition_point i = (i, None)"
  "list_all is_digit i \<Longrightarrow> partition_point (i @ ''.'' @ f) = (i, Some f)"
proof -
  assume "list_all is_digit i"
  then have "\<forall>c \<in> set i. c \<noteq> CHR ''.''" by (auto simp: list_all_iff is_digit_def)
  then show "partition_point i = (i, None)" "partition_point (i @ ''.'' @ f) = (i, Some f)"
    by (simp_all add: partition_point_def takeWhile_append2 dropWhile_append2 takeWhile_eq_all_conv [THEN iffD2] dropWhile_eq_Nil_conv [THEN iffD2])
qed

text \<open>The canonical integer parts are the ones \<open>str\<close> prints.\<close>

lemma show_nat_head: "n \<noteq> 0 \<Longrightarrow> hd (show_nat n) \<noteq> CHR ''0''"
proof (induction n rule: show_nat.induct)
  case (1 n)
  show ?case
  proof (cases "n < 10")
    case True
    then have "n \<in> {1,2,3,4,5,6,7,8,9}" using 1(2) by auto
    then show ?thesis by (auto simp: show_nat.simps [of n])
  next
    case False
    then show ?thesis using 1 by (simp add: show_nat.simps [of n] hd_append)
  qed
qed

lemma show_nat_canonical: "show_nat n = ''0'' \<or> (show_nat n \<noteq> [] \<and> hd (show_nat n) \<noteq> CHR ''0'' \<and> list_all is_digit (show_nat n))"
  using show_nat_head [of n] show_nat_digits [of n] by (cases "n = 0") (auto simp: show_nat.simps [of 0])

lemma canonical_show_nat:
  assumes "i = ''0'' \<or> (i \<noteq> [] \<and> hd i \<noteq> CHR ''0'' \<and> list_all is_digit i)"
  shows "show_nat (nat_of_digits i) = i"
  using assms
proof (induction i rule: rev_induct)
  case (snoc c i)
  show ?case
  proof (cases "i = []")
    case True
    have "is_digit c" using snoc.prems True by (auto simp: is_digit_def)
    then have "digit_val c < 10" "digit_char (digit_val c) = c" by (auto simp: is_digit_def digit_val_def digit_char_def)
    then show ?thesis using True nat_of_digits_simps(2) [of "[]" c] by (simp add: show_nat.simps [of "digit_val c"])
  next
    case False
    then have i: "hd i \<noteq> CHR ''0''" "list_all is_digit i" "is_digit c" using snoc.prems by (auto simp: hd_append)
    then have d: "digit_val c < 10" "digit_char (digit_val c) = c" by (auto simp: is_digit_def digit_val_def digit_char_def)
    have IH: "show_nat (nat_of_digits i) = i" using snoc.IH False i by blast
    have "nat_of_digits i \<noteq> 0" using IH False i by (metis show_nat.simps digit_char_table(1) list.sel(1) zero_less_numeral)
    then show ?thesis using d IH by (simp add: show_nat.simps [of "10 * nat_of_digits i + digit_val c"])
  qed
qed auto

lemma fixed_decimal_parts:
  assumes "fixed_decimal_pattern v"
  obtains (whole) i where "v = i" "i = ''0'' \<or> (i \<noteq> [] \<and> hd i \<noteq> CHR ''0'' \<and> list_all is_digit i)" "partition_point v = (i, None)"
  | (fraction) i f where "v = i @ ''.'' @ f" "i = ''0'' \<or> (i \<noteq> [] \<and> hd i \<noteq> CHR ''0'' \<and> list_all is_digit i)" "f \<noteq> []" "list_all is_digit f"
      "partition_point v = (i, Some f)"
proof -
  obtain i fo where p: "partition_point v = (i, fo)" by (cases "partition_point v")
  have c: "i = ''0'' \<or> (i \<noteq> [] \<and> hd i \<noteq> CHR ''0'' \<and> list_all is_digit i)" and d: "case fo of None \<Rightarrow> True | Some d \<Rightarrow> d \<noteq> [] \<and> list_all is_digit d"
    using assms p by (auto simp: fixed_decimal_pattern_def split: if_splits)
  have i: "i = takeWhile (\<lambda>c. c \<noteq> CHR ''.'') v" and fo: "fo = (case dropWhile (\<lambda>c. c \<noteq> CHR ''.'') v of [] \<Rightarrow> None | _ # f \<Rightarrow> Some f)"
    using p by (auto simp: partition_point_def)
  show thesis
  proof (cases "dropWhile (\<lambda>c. c \<noteq> CHR ''.'') v")
    case Nil
    then have "v = i" using i takeWhile_dropWhile_id [of "\<lambda>c. c \<noteq> CHR ''.''" v] by (metis append_Nil2)
    moreover have "fo = None" using fo Nil by (simp only: list.case)
    ultimately show ?thesis using whole c p by simp
  next
    case (Cons a f)
    have "a = CHR ''.''" using hd_dropWhile [of "\<lambda>c. c \<noteq> CHR ''.''" v] Cons by simp
    then have "v = i @ ''.'' @ f" using i takeWhile_dropWhile_id [of "\<lambda>c. c \<noteq> CHR ''.''" v] Cons by simp
    then show ?thesis using fraction c d p Cons fo by simp
  qed
qed

lemma canonical_digits: "i = ''0'' \<or> (i \<noteq> [] \<and> hd i \<noteq> CHR ''0'' \<and> list_all is_digit i) \<Longrightarrow> list_all is_digit i \<and> i \<noteq> []"
  by (auto simp: is_digit_def)

lemma digits_storable:
  assumes "list_all is_digit s" "length s \<le> 38" "k \<le> 38" "s \<noteq> []"
  shows "dec_storable (nat_of_digits s) (- int k)"
proof -
  have "nat_of_digits s < 10 ^ length s" using assms(1) by (rule nat_of_digits_less)
  then have "ndigits (nat_of_digits s) \<le> length s" using assms(4) by (intro ndigits_le) auto
  then show ?thesis using assms(2,3) by (simp add: dec_storable_def)
qed

lemma parse_whole:
  assumes "i = ''0'' \<or> (i \<noteq> [] \<and> hd i \<noteq> CHR ''0'' \<and> list_all is_digit i)" "length i \<le> 38"
  shows "parse_fixed_decimal i = Inr (Dec False (nat_of_digits i) 0)"
proof -
  note d = canonical_digits [OF assms(1)]
  have "fixed_decimal_pattern i" using assms(1) d by (auto simp: fixed_decimal_pattern_def partition_point_simps)
  moreover have "decimal_of_string i = Some (Dec False (nat_of_digits i) 0)"
    using decimal_of_fixed(2) [of i "[]"] d digits_storable [of i 0] assms(2) by simp
  ultimately show ?thesis using assms(2) d by (simp add: parse_fixed_decimal_def partition_point_simps MAX_DECIMAL_DIGITS_def)
qed

lemma parse_fraction:
  assumes "i = ''0'' \<or> (i \<noteq> [] \<and> hd i \<noteq> CHR ''0'' \<and> list_all is_digit i)" "f \<noteq> []" "list_all is_digit f"
    "length i + length f \<le> 38" "length f \<le> 18"
  shows "parse_fixed_decimal (i @ ''.'' @ f) = Inr (Dec False (nat_of_digits (i @ f)) (- int (length f)))"
proof -
  note d = canonical_digits [OF assms(1)]
  have p: "partition_point (i @ ''.'' @ f) = (i, Some f)" using d by (intro partition_point_simps) simp
  have "fixed_decimal_pattern (i @ ''.'' @ f)" using assms(1-3) by (auto simp: fixed_decimal_pattern_def p simp del: append.simps)
  moreover have "decimal_of_string (i @ ''.'' @ f) = Some (Dec False (nat_of_digits (i @ f)) (- int (length f)))"
    using decimal_of_fixed(1) [of i f] d assms digits_storable [of "i @ f" "length f"] by simp
  ultimately show ?thesis using assms(4,5)
    by (simp add: parse_fixed_decimal_def p MAX_DECIMAL_DIGITS_def MAX_DECIMAL_PLACES_def del: append.simps)
qed

text \<open>Padding a printed number with zeros gives back any digit string of that value and length.\<close>

lemma pad_digits:
  "list_all is_digit s \<Longrightarrow> s \<noteq> [] \<Longrightarrow> replicate (length s - length (show_nat (nat_of_digits s))) (CHR ''0'') @ show_nat (nat_of_digits s) = s"
proof (induction s)
  case (Cons c s)
  show ?case
  proof (cases "c = CHR ''0''")
    case True
    have v: "nat_of_digits (c # s) = nat_of_digits s" using nat_of_digits_append [of "[c]" s] nat_of_digits_simps(2) [of "[]" c] by (simp add: True digit_val_def)
    show ?thesis
    proof (cases "s = []")
      case True
      then show ?thesis using v \<open>c = CHR ''0''\<close> by (simp add: show_nat.simps [of 0])
    next
      case False
      have "ndigits (nat_of_digits s) \<le> length s" using Cons.prems False nat_of_digits_less [of s] by (intro ndigits_le) auto
      then show ?thesis using Cons False v True by (simp add: ndigits_def Suc_diff_le)
    qed
  next
    case False
    then have "show_nat (nat_of_digits (c # s)) = c # s" using Cons.prems by (intro canonical_show_nat) auto
    then show ?thesis by simp
  qed
qed simp

lemma serialize_fraction:
  assumes "i = ''0'' \<or> (i \<noteq> [] \<and> hd i \<noteq> CHR ''0'' \<and> list_all is_digit i)" "f \<noteq> []" "list_all is_digit f"
  shows "serialize_fixed_decimal (Dec False (nat_of_digits (i @ f)) (- int (length f))) = i @ ''.'' @ f"
proof -
  let ?d = "show_nat (nat_of_digits (i @ f))"
  note d = canonical_digits [OF assms(1)]
  have all: "list_all is_digit (i @ f)" "i @ f \<noteq> []" using d assms(2,3) by auto
  have pad: "replicate (Suc (length f) - length ?d) (CHR ''0'') @ ?d = i @ f"
  proof (cases "i = ''0''")
    case True
    then show ?thesis using pad_digits [OF all] by simp
  next
    case False
    then have "?d = i @ f" using assms(1) all by (intro canonical_show_nat) auto
    moreover have "Suc (length f) - length (i @ f) = 0" using d by (cases i) auto
    ultimately show ?thesis by (simp only: replicate_0 append_Nil)
  qed
  have "\<not> (- int (length f) \<ge> 0)" using assms(2) by simp
  then show ?thesis unfolding serialize_fixed_decimal.simps Let_def minus_minus nat_int pad by (simp del: append.simps)
qed

lemma serialize_parse:
  assumes "parse_fixed_decimal v = Inr d"
  shows "serialize_fixed_decimal d = v"
proof -
  have pat: "fixed_decimal_pattern v" using assms by (auto simp: parse_fixed_decimal_def split: if_splits)
  from pat show ?thesis
  proof (cases rule: fixed_decimal_parts)
    case (whole i)
    then have "length i \<le> 38" using assms by (auto simp: parse_fixed_decimal_def MAX_DECIMAL_DIGITS_def Let_def split: if_splits)
    then have "d = Dec False (nat_of_digits i) 0" using assms parse_whole [OF whole(2)] whole(1) by simp
    then show ?thesis using canonical_show_nat [OF whole(2)] whole(1) by auto
  next
    case (fraction i f)
    then have "length i + length f \<le> 38" "length f \<le> 18"
      using assms by (auto simp: parse_fixed_decimal_def MAX_DECIMAL_DIGITS_def MAX_DECIMAL_PLACES_def Let_def simp del: append.simps split: if_splits)
    then have "d = Dec False (nat_of_digits (i @ f)) (- int (length f))" using assms parse_fraction [OF fraction(2-4)] fraction(1) by simp
    then show ?thesis using serialize_fraction [OF fraction(2-4)] fraction(1) by simp
  qed
qed

interpretation decimal_codec: codec "\<lambda>d. Inr (serialize_fixed_decimal d)" parse_fixed_decimal "\<lambda>d. \<exists>v. parse_fixed_decimal v = Inr d"
  by unfold_locales (auto simp: serialize_parse)

text \<open>Printing a gold amount gives a price string that every consumer of the wire contract accepts.\<close>

lemma parse_format_gold:
  assumes "0 \<le> x" "x \<le> MAX_GOLD_ATOMIC"
  obtains v c k where "format_gold x = Inr v" "parse_fixed_decimal v = Inr (Dec False c (- int k))" "k \<le> 6" "c * 10 ^ (6 - k) = nat x"
proof -
  obtain ip fp where f: "format_gold x = Inr (if fp = [] then ip else ip @ ''.'' @ fp)" "ip = show_nat (nat x div 1000000)"
    and d: "list_all is_digit ip" "ip \<noteq> []" "list_all is_digit fp" "length fp \<le> 6"
    and v: "nat_of_digits (ip @ fp) * 10 ^ (6 - length fp) = nat x"
    by (rule format_gold_parts [OF assms])
  have "nat x < 10 ^ 38" using assms by (simp add: MAX_GOLD_ATOMIC_def nat_less_iff)
  then have "nat x div 1000000 < 10 ^ 32" by (simp add: div_less_iff_less_mult)
  then have "ndigits (nat x div 1000000) \<le> 32" by (intro ndigits_le) simp_all
  then have l: "length ip \<le> 32" by (simp add: f(2) ndigits_def)
  have c: "ip = ''0'' \<or> (ip \<noteq> [] \<and> hd ip \<noteq> CHR ''0'' \<and> list_all is_digit ip)" unfolding f(2) by (rule show_nat_canonical)
  show thesis
  proof (cases "fp = []")
    case True
    then show ?thesis using that [OF f(1), of "nat_of_digits ip" 0] parse_whole [OF c] l v by simp
  next
    case False
    then show ?thesis using that [OF f(1), of "nat_of_digits (ip @ fp)" "length fp"] parse_fraction [OF c False d(3)] l d(4) v by simp
  qed
qed

text \<open>The decimal strings of the wire contract round-trip: an accepted string is printed back
  character by character, and every gold amount, up to the largest, is printed as a string that is accepted
  and denotes the same number of atomic units.\<close>

theorem fixed_decimal_roundtrip:
  "(parse_fixed_decimal v = Inr d \<longrightarrow> serialize_fixed_decimal d = v)
   \<and> (0 \<le> x \<and> x \<le> MAX_GOLD_ATOMIC \<longrightarrow> (\<exists>v c k. format_gold x = Inr v \<and> parse_fixed_decimal v = Inr (Dec False c (- int k))
        \<and> k \<le> 6 \<and> int c * 10 ^ (6 - k) = x))"
proof (intro conjI impI)
  assume x: "0 \<le> x \<and> x \<le> MAX_GOLD_ATOMIC"
  obtain v c k where "format_gold x = Inr v" "parse_fixed_decimal v = Inr (Dec False c (- int k))" "k \<le> 6" "c * 10 ^ (6 - k) = nat x"
    using x parse_format_gold by blast
  moreover from this have "int c * 10 ^ (6 - k) = x" using x by (metis nat_0_le of_nat_mult of_nat_numeral of_nat_power)
  ultimately show "\<exists>v c k. format_gold x = Inr v \<and> parse_fixed_decimal v = Inr (Dec False c (- int k)) \<and> k \<le> 6 \<and> int c * 10 ^ (6 - k) = x" by blast
qed (rule serialize_parse)

theorem fixed_decimal_roundtrip_witness:
  "parse_fixed_decimal ''1.50'' = Inr (Dec False 150 (- 2)) \<and> serialize_fixed_decimal (Dec False 150 (- 2)) = ''1.50''
   \<and> (\<exists>v c k. format_gold 1500000 = Inr v \<and> parse_fixed_decimal v = Inr (Dec False c (- int k)) \<and> k \<le> 6 \<and> int c * 10 ^ (6 - k) = 1500000)"
proof -
  have p: "parse_fixed_decimal ''1.50'' = Inr (Dec False 150 (- 2))" by code_simp
  show ?thesis using p fixed_decimal_roundtrip [of "''1.50''" "Dec False 150 (- 2)" 1500000] by (simp add: MAX_GOLD_ATOMIC_def)
qed

end
