(* ===== verification/Arena_A2A.thy ===== *)
theory Arena_A2A
  imports Arena_Contracts
begin

text \<open>
  \<open>arena_game/a2a_market.py\<close>: the protocol oracle of the agent-driven market. Agents publish intents,
  buyers send requests, sellers engage one of them, and an engagement ends in a rejection, a timeout
  or a frozen deal. A method that mutates the market returns its result, which may be an exception,
  together with the market it leaves behind, because one of them writes before it raises.
\<close>

section \<open>Values\<close>

definition MAX_OUTBOUND_RFQ :: nat where "MAX_OUTBOUND_RFQ = 3"
definition MAX_NEGOTIATION_ACTIONS :: nat where "MAX_NEGOTIATION_ACTIONS = 3"

definition NEGOTIATE_STAGE_ACTION_SLOTS :: nat where
  "NEGOTIATE_STAGE_ACTION_SLOTS = MAX_OUTBOUND_RFQ * MAX_NEGOTIATION_ACTIONS + (MAX_OUTBOUND_RFQ - 1)"

definition MARKET_AFTER_DECIDE_ACTION_SLOTS :: nat where
  "MARKET_AFTER_DECIDE_ACTION_SLOTS = 1 + NEGOTIATE_STAGE_ACTION_SLOTS"

datatype RequestStatus = Pending | Engaged | RequestRejected | CounterpartyBusy

datatype EngagementStatus = EActive | AcceptedPendingSettlement | EngagementRejected | TimedOut

definition require_identifier :: "string \<Rightarrow> string \<Rightarrow> unit result" where
  "require_identifier v field =
     (if v = [] \<or> length v > 512 then Inl (AgentMarketError (field @ '' must be a non-empty bounded identifier'')) else Inr ())"

definition require_aware :: "datetime \<Rightarrow> string \<Rightarrow> unit result" where
  "require_aware t field = (if is_aware t then Inr () else Inl (AgentMarketError (field @ '' must be timezone-aware'')))"

text \<open>The loop \<open>for field in (...): _require_identifier(...)\<close>\<close>

definition require_identifiers :: "(string \<times> string) list \<Rightarrow> unit result" where
  "require_identifiers fs = foldR (\<lambda>(field, v) _. require_identifier v field) fs ()"

record AgentMarketIntent =
  ami_intent_id :: string
  ami_source_result_id :: string
  ami_game_id :: string
  ami_round_id :: string
  ami_participant_id :: string
  ami_agent_id :: string
  ami_display_name :: utext
  ami_side :: MarketSide
  ami_good :: string
  ami_public_price_atomic :: int
  ami_limit_price_atomic :: int
  ami_expires_at :: datetime
  ami_public_message :: "utext option"
  ami_failed_negotiations :: int
  ami_quantity :: int

definition AgentMarketIntent_post_init :: "AgentMarketIntent \<Rightarrow> AgentMarketIntent result" where
  "AgentMarketIntent_post_init i =
     bindR (require_identifiers
       [(''intent_id'', ami_intent_id i), (''source_result_id'', ami_source_result_id i), (''game_id'', ami_game_id i),
        (''round_id'', ami_round_id i), (''participant_id'', ami_participant_id i), (''agent_id'', ami_agent_id i)]) (\<lambda>_.
     if blank (ami_display_name i) \<or> length (ami_display_name i) > 100 then
       Inl (AgentMarketError ''display_name must contain 1-100 visible characters'')
     else if ami_quantity i \<noteq> 1 then Inl (AgentMarketError ''Agent-driven market quantity must be exactly 1'')
     else if ami_public_price_atomic i \<le> 0 \<or> ami_limit_price_atomic i \<le> 0 then
       Inl (AgentMarketError ''public and limit prices must be positive'')
     else if ami_side i = Buy \<and> ami_public_price_atomic i > ami_limit_price_atomic i then
       Inl (AgentMarketError ''buyer public price cannot exceed its private ceiling'')
     else if ami_side i = Sell \<and> ami_public_price_atomic i < ami_limit_price_atomic i then
       Inl (AgentMarketError ''seller public price cannot be below its private floor'')
     else if ami_failed_negotiations i < 0 then Inl (AgentMarketError ''failed_negotiations cannot be negative'')
     else bindR (require_aware (ami_expires_at i) ''expires_at'') (\<lambda>_.
       case ami_public_message i of
         None \<Rightarrow> Inr i
       | Some t \<Rightarrow> if blank t \<or> length t > 100 then Inl (AgentMarketError ''public_message must contain 1-100 visible characters'')
                   else Inr i))"

record AgentNegotiationRequest =
  anr_request_id :: string
  anr_source_result_id :: string
  anr_buyer_intent_id :: string
  anr_seller_intent_id :: string
  anr_opening_price_atomic :: int
  anr_public_message :: utext
  anr_created_at :: datetime

definition AgentNegotiationRequest_post_init :: "AgentNegotiationRequest \<Rightarrow> AgentNegotiationRequest result" where
  "AgentNegotiationRequest_post_init q =
     bindR (require_identifiers
       [(''request_id'', anr_request_id q), (''source_result_id'', anr_source_result_id q),
        (''buyer_intent_id'', anr_buyer_intent_id q), (''seller_intent_id'', anr_seller_intent_id q)]) (\<lambda>_.
     if anr_opening_price_atomic q \<le> 0 then Inl (AgentMarketError ''opening price must be positive'')
     else if blank (anr_public_message q) \<or> length (anr_public_message q) > 100 then
       Inl (AgentMarketError ''public_message must contain 1-100 visible characters'')
     else bindR (require_aware (anr_created_at q) ''created_at'') (\<lambda>_. Inr q))"

record AgentMarketEngagement =
  ame_engagement_id :: string
  ame_negotiation_id :: string
  ame_request_id :: string
  ame_buyer_intent_id :: string
  ame_seller_intent_id :: string
  ame_buyer_participant_id :: string
  ame_seller_participant_id :: string
  ame_good :: string
  ame_selection_result_id :: string
  ame_status :: EngagementStatus
  ame_terminal_source_result_id :: "string option"

record AgentMarketDeal =
  amd_deal_id :: string
  amd_engagement_id :: string
  amd_request_id :: string
  amd_buyer_participant_id :: string
  amd_seller_participant_id :: string
  amd_good :: string
  amd_quantity :: int
  amd_unit_price_atomic :: int
  amd_latest_proposal_result_id :: string
  amd_acceptance_result_id :: string
  amd_accepted_by_participant_id :: string

record RequestRecord =
  rr_request :: AgentNegotiationRequest
  rr_status :: RequestStatus
  rr_engagement_id :: "string option"

type_synonym slot = "string \<times> string \<times> string"

record AgentDrivenMarket =
  adm_max_outbound_rfq :: nat
  adm_result_claims :: "(string, string \<times> string) dict"
  adm_intents :: "(string, AgentMarketIntent) dict"
  adm_intent_by_participant_round :: "(slot, string) dict"
  adm_intent_by_result :: "(string, string) dict"
  adm_requests :: "(string, RequestRecord) dict"
  adm_request_ids_by_result :: "(string, string list) dict"
  adm_request_targets_by_buyer :: "(string, string set) dict"
  adm_engagements :: "(string, AgentMarketEngagement) dict"
  adm_engagement_by_selection_result :: "(string, string) dict"
  adm_reserved_slots :: "(slot, string) dict"
  adm_deals :: "(string, AgentMarketDeal) dict"

definition AgentDrivenMarket_new :: "int \<Rightarrow> AgentDrivenMarket result" where
  "AgentDrivenMarket_new max_outbound_rfq =
     (if max_outbound_rfq < 1 \<or> max_outbound_rfq > int MAX_OUTBOUND_RFQ then
        Inl (AgentMarketError ''max_outbound_rfq must be between 1 and 3'')
      else Inr \<lparr>adm_max_outbound_rfq = nat max_outbound_rfq, adm_result_claims = [], adm_intents = [],
                adm_intent_by_participant_round = [], adm_intent_by_result = [], adm_requests = [],
                adm_request_ids_by_result = [], adm_request_targets_by_buyer = [], adm_engagements = [],
                adm_engagement_by_selection_result = [], adm_reserved_slots = [], adm_deals = []\<rparr>)"

section \<open>Helpers\<close>

definition require_intent :: "AgentDrivenMarket \<Rightarrow> string \<Rightarrow> AgentMarketIntent result" where
  "require_intent m intent_id =
     (case dget (adm_intents m) intent_id of None \<Rightarrow> Inl (AgentMarketError ''market intent not found'') | Some i \<Rightarrow> Inr i)"

definition require_request_record :: "AgentDrivenMarket \<Rightarrow> string \<Rightarrow> RequestRecord result" where
  "require_request_record m request_id =
     (case dget (adm_requests m) request_id of None \<Rightarrow> Inl (AgentMarketError ''negotiation request not found'') | Some r \<Rightarrow> Inr r)"

definition require_engagement :: "AgentDrivenMarket \<Rightarrow> string \<Rightarrow> AgentMarketEngagement result" where
  "require_engagement m engagement_id =
     (case dget (adm_engagements m) engagement_id of None \<Rightarrow> Inl (AgentMarketError ''engagement not found'') | Some e \<Rightarrow> Inr e)"

definition slot_key :: "AgentMarketIntent \<Rightarrow> slot" where
  "slot_key i = (ami_game_id i, ami_round_id i, ami_participant_id i)"

definition is_reserved :: "AgentDrivenMarket \<Rightarrow> AgentMarketIntent \<Rightarrow> bool" where
  "is_reserved m i \<longleftrightarrow> dget (adm_reserved_slots m) (slot_key i) \<noteq> None"

definition validate_counterparties :: "AgentMarketIntent \<Rightarrow> AgentMarketIntent \<Rightarrow> unit result" where
  "validate_counterparties buyer seller =
     (if ami_side buyer \<noteq> Buy \<or> ami_side seller \<noteq> Sell then Inl (AgentMarketError ''RFQ must target buy and sell intents'')
      else if ami_participant_id buyer = ami_participant_id seller then
        Inl (AgentMarketError ''a Participant cannot negotiate with itself'')
      else if ami_game_id buyer \<noteq> ami_game_id seller \<or> ami_round_id buyer \<noteq> ami_round_id seller then
        Inl (AgentMarketError ''counterparty intents must share one Game round'')
      else if ami_good buyer \<noteq> ami_good seller \<or> ami_quantity buyer \<noteq> ami_quantity seller then
        Inl (AgentMarketError ''counterparty intents must share good and quantity'')
      else if ami_limit_price_atomic buyer < ami_limit_price_atomic seller then
        Inl (AgentMarketError ''counterparty private limits do not overlap'')
      else Inr ())"

text \<open>The loop of \<open>_claim_results\<close>: it builds \<open>pending\<close> and writes it only when every claim is free.\<close>

definition claim_step :: "AgentDrivenMarket \<Rightarrow> string \<times> string \<times> string \<Rightarrow> (string, string \<times> string) dict
    \<Rightarrow> (string, string \<times> string) dict result" where
  "claim_step m c pending =
     (case c of (result_id, claim) \<Rightarrow>
        if (case dget pending result_id of None \<Rightarrow> False | Some p \<Rightarrow> p \<noteq> claim) then
          Inl (AgentMarketError ''one source Result cannot author multiple market actions'')
        else if (case dget (adm_result_claims m) result_id of None \<Rightarrow> False | Some p \<Rightarrow> p \<noteq> claim) then
          Inl (AgentMarketError ''source Result already authored another market action'')
        else Inr (dput pending result_id claim))"

definition claim_results :: "(string \<times> string \<times> string) list \<Rightarrow> AgentDrivenMarket \<Rightarrow> AgentDrivenMarket result" where
  "claim_results claims m =
     bindR (foldR (claim_step m) claims []) (\<lambda>pending.
       Inr (m\<lparr>adm_result_claims := fold (\<lambda>(k, v) d. dput d k v) pending (adm_result_claims m)\<rparr>))"

section \<open>Operations\<close>

type_synonym 'a market_call = "AgentDrivenMarket \<Rightarrow> 'a result \<times> AgentDrivenMarket"

definition publish_intent :: "AgentMarketIntent \<Rightarrow> AgentMarketIntent market_call" where
  "publish_intent intent m =
     (case dget (adm_intent_by_result m) (ami_source_result_id intent) of
        Some existing_id \<Rightarrow>
          (case dget (adm_intents m) existing_id of
             None \<Rightarrow> (Inl (KeyError existing_id), m)
           | Some existing \<Rightarrow>
               if existing \<noteq> intent then (Inl (AgentMarketError ''source Result already published another intent''), m)
               else (Inr existing, m))
      | None \<Rightarrow>
          (case dget (adm_intents m) (ami_intent_id intent) of
             Some existing \<Rightarrow>
               if existing \<noteq> intent then (Inl (AgentMarketError ''intent ID already exists with another payload''), m)
               else (Inr existing, m)
           | None \<Rightarrow>
               if dget (adm_intent_by_participant_round m) (slot_key intent) \<noteq> None then
                 (Inl (AgentMarketError ''Participant already published a round intent''), m)
               else attempt (claim_results [(ami_source_result_id intent, ''intent'', ami_intent_id intent)] m) m (\<lambda>m1.
                 (Inr intent,
                  m1\<lparr>adm_intents := dput (adm_intents m1) (ami_intent_id intent) intent,
                     adm_intent_by_result := dput (adm_intent_by_result m1) (ami_source_result_id intent) (ami_intent_id intent),
                     adm_intent_by_participant_round :=
                       dput (adm_intent_by_participant_round m1) (slot_key intent) (ami_intent_id intent)\<rparr>))))"

text \<open>The test of the directory loop, with the requester and the time of the observation.\<close>

definition directory_eligible :: "AgentDrivenMarket \<Rightarrow> AgentMarketIntent \<Rightarrow> datetime \<Rightarrow> AgentMarketIntent \<Rightarrow> bool" where
  "directory_eligible m requester observed_at candidate \<longleftrightarrow>
     ami_side candidate = Sell \<and> ami_game_id candidate = ami_game_id requester
     \<and> ami_round_id candidate = ami_round_id requester
     \<and> ami_participant_id candidate \<noteq> ami_participant_id requester
     \<and> ami_good candidate = ami_good requester
     \<and> instant (ami_expires_at candidate) > instant observed_at
     \<and> ami_limit_price_atomic requester \<ge> ami_limit_price_atomic candidate
     \<and> \<not> is_reserved m candidate"

definition directory_entry :: "AgentMarketIntent \<Rightarrow> MarketDirectoryEntryV1 result" where
  "directory_entry candidate =
     bindR (format_gold (ami_public_price_atomic candidate)) (\<lambda>public_price.
       MarketDirectoryEntryV1_new (ami_intent_id candidate) (ami_agent_id candidate) (ami_display_name candidate) Sell
         (ami_good candidate) 1 public_price (ami_failed_negotiations candidate) (ami_expires_at candidate))"

text \<open>\<open>min\<close> over a non-empty list of timestamps\<close>

definition earliest :: "datetime \<Rightarrow> datetime list \<Rightarrow> datetime" where
  "earliest t ts = fold (\<lambda>x best. if instant x < instant best then x else best) ts t"

definition public_directory :: "AgentDrivenMarket \<Rightarrow> string \<Rightarrow> datetime \<Rightarrow> MarketDirectoryV1 result" where
  "public_directory m requester_intent_id observed_at =
     bindR (require_aware observed_at ''observed_at'') (\<lambda>_.
     bindR (require_intent m requester_intent_id) (\<lambda>requester.
       if ami_side requester \<noteq> Buy then Inl (AgentMarketError ''only a buyer intent can discover sell intents in v1'')
       else if instant (ami_expires_at requester) \<le> instant observed_at then Inl (AgentMarketError ''requester intent is expired'')
       else bindR (mapR directory_entry (filter (directory_eligible m requester observed_at) (dvalues (adm_intents m)))) (\<lambda>es.
         let entries = sort_key de_intent_id es in
         MarketDirectoryV1_validate
           \<lparr>md_schema_version = ARENA_MARKET_PROTOCOL_VERSION_V1,
            md_market_session_id = ''market:'' @ ami_game_id requester @ '':'' @ ami_round_id requester,
            md_game_id = ami_game_id requester, md_round_id = ami_round_id requester, md_entries = entries,
            md_expires_at = earliest (ami_expires_at requester) (map de_expires_at entries)\<rparr>)))"

text \<open>The checks of one request against the market before anything is written.\<close>

definition check_request :: "AgentDrivenMarket \<Rightarrow> AgentMarketIntent \<Rightarrow> string set \<Rightarrow> AgentNegotiationRequest \<Rightarrow> unit result" where
  "check_request m buyer targets request =
     (case dget (adm_requests m) (anr_request_id request) of
        Some existing_record \<Rightarrow>
          if rr_request existing_record \<noteq> request then Inl (AgentMarketError ''request ID already exists with another payload'')
          else Inl (AgentMarketError ''request ID belongs to another source Result'')
      | None \<Rightarrow>
          bindR (require_intent m (anr_seller_intent_id request)) (\<lambda>seller.
          bindR (validate_counterparties buyer seller) (\<lambda>_.
            if instant (anr_created_at request) \<ge> instant (ami_expires_at buyer)
               \<or> instant (anr_created_at request) \<ge> instant (ami_expires_at seller) then
              Inl (AgentMarketError ''RFQ targets an expired intent'')
            else if anr_opening_price_atomic request > ami_limit_price_atomic buyer then
              Inl (AgentMarketError ''opening price exceeds the buyer private ceiling'')
            else if is_reserved m buyer \<or> is_reserved m seller then Inl (AgentMarketError ''counterparty_busy'')
            else if ami_intent_id seller \<in> targets then Inl (AgentMarketError ''buyer already requested this seller intent'')
            else Inr ())))"

definition unresolved :: "RequestStatus \<Rightarrow> bool" where
  "unresolved st \<longleftrightarrow> st = Pending \<or> st = Engaged"

definition targets_of :: "AgentDrivenMarket \<Rightarrow> string \<Rightarrow> string set" where
  "targets_of m buyer_intent_id = (case dget (adm_request_targets_by_buyer m) buyer_intent_id of None \<Rightarrow> {} | Some t \<Rightarrow> t)"

definition stored_requests :: "AgentDrivenMarket \<Rightarrow> string list \<Rightarrow> AgentNegotiationRequest list result" where
  "stored_requests m ids =
     mapR (\<lambda>i. case dget (adm_requests m) i of None \<Rightarrow> Inl (KeyError i) | Some r \<Rightarrow> Inr (rr_request r)) ids"

definition submit_requests :: "AgentNegotiationRequest list \<Rightarrow> AgentNegotiationRequest list market_call" where
  "submit_requests requests m =
     (if length requests \<noteq> 1 then (Inl (AgentMarketError ''one RFQ Task must target exactly one seller''), m)
      else if length (remdups (map anr_source_result_id requests)) \<noteq> 1 then
        (Inl (AgentMarketError ''one RFQ batch requires one source Result''), m)
      else if length (remdups (map anr_buyer_intent_id requests)) \<noteq> 1 then
        (Inl (AgentMarketError ''one RFQ batch requires one buyer intent''), m)
      else if \<not> distinct (map anr_request_id requests) then
        (Inl (AgentMarketError ''RFQ batch request IDs must be unique''), m)
      else if \<not> distinct (map anr_seller_intent_id requests) then
        (Inl (AgentMarketError ''RFQ batch seller targets must be unique''), m)
      else
        let source_result_id = anr_source_result_id (hd requests) in
        case dget (adm_request_ids_by_result m) source_result_id of
          Some existing_ids \<Rightarrow>
            attempt (stored_requests m existing_ids) m (\<lambda>existing.
              if existing \<noteq> requests then (Inl (AgentMarketError ''source Result already submitted another RFQ batch''), m)
              else (Inr existing, m))
        | None \<Rightarrow>
            attempt (require_intent m (anr_buyer_intent_id (hd requests))) m (\<lambda>buyer.
              if list_ex (\<lambda>r. anr_buyer_intent_id (rr_request r) = ami_intent_id buyer \<and> unresolved (rr_status r))
                   (dvalues (adm_requests m)) then
                (Inl (AgentMarketError ''buyer has an unresolved RFQ''), m)
              else
                let targets = targets_of m (ami_intent_id buyer) in
                if card targets + length requests > adm_max_outbound_rfq m then
                  (Inl (AgentMarketError ''buyer exhausted the outbound RFQ budget''), m)
                else
                  attempt (foldR (\<lambda>q _. check_request m buyer targets q) requests ()) m (\<lambda>_.
                  attempt (claim_results [(source_result_id, ''rfq'', ''rfq-batch:'' @ source_result_id)] m) m (\<lambda>m1.
                    (Inr requests,
                     m1\<lparr>adm_requests := fold (\<lambda>q d. dput d (anr_request_id q)
                            \<lparr>rr_request = q, rr_status = Pending, rr_engagement_id = None\<rparr>) requests (adm_requests m1),
                        adm_request_targets_by_buyer := dput (adm_request_targets_by_buyer m1) (ami_intent_id buyer)
                            (targets \<union> set (map anr_seller_intent_id requests)),
                        adm_request_ids_by_result := dput (adm_request_ids_by_result m1) source_result_id
                            (map anr_request_id requests)\<rparr>)))))"

definition submit_request :: "AgentNegotiationRequest \<Rightarrow> AgentNegotiationRequest market_call" where
  "submit_request request m =
     (case submit_requests [request] m of
        (Inl e, m1) \<Rightarrow> (Inl e, m1)
      | (Inr rs, m1) \<Rightarrow> (case rs of [] \<Rightarrow> (Inl IndexError, m1) | r # _ \<Rightarrow> (Inr r, m1)))"

text \<open>The comprehension of \<open>inbound_requests\<close>; looking up the seller may raise.\<close>

fun inbound_loop :: "AgentDrivenMarket \<Rightarrow> string \<Rightarrow> RequestRecord list \<Rightarrow> AgentNegotiationRequest list result" where
  "inbound_loop m seller_participant_id [] = Inr []"
| "inbound_loop m seller_participant_id (r # rs) =
     (if rr_status r = Pending then
        bindR (require_intent m (anr_seller_intent_id (rr_request r))) (\<lambda>seller.
        bindR (inbound_loop m seller_participant_id rs) (\<lambda>qs.
          Inr (if ami_participant_id seller = seller_participant_id then rr_request r # qs else qs)))
      else inbound_loop m seller_participant_id rs)"

definition inbound_requests :: "AgentDrivenMarket \<Rightarrow> string \<Rightarrow> AgentNegotiationRequest list result" where
  "inbound_requests m seller_participant_id =
     bindR (inbound_loop m seller_participant_id (dvalues (adm_requests m))) (\<lambda>qs. Inr (sort_key anr_request_id qs))"

definition engage_request :: "string \<Rightarrow> string \<Rightarrow> string \<Rightarrow> AgentMarketEngagement market_call" where
  "engage_request actor_participant_id request_id selection_result_id m =
     attempt (require_identifier selection_result_id ''selection_result_id'') m (\<lambda>_.
     case dget (adm_engagement_by_selection_result m) selection_result_id of
       Some selected_engagement_id \<Rightarrow>
         (case dget (adm_engagements m) selected_engagement_id of
            None \<Rightarrow> (Inl (KeyError selected_engagement_id), m)
          | Some engagement \<Rightarrow>
              if ame_request_id engagement \<noteq> request_id \<or> ame_seller_participant_id engagement \<noteq> actor_participant_id then
                (Inl (AgentMarketError ''selection Result already engaged another request''), m)
              else (Inr engagement, m))
     | None \<Rightarrow>
         attempt (require_request_record m request_id) m (\<lambda>rec.
         if rr_status rec \<noteq> Pending then (Inl (AgentMarketError ''request is no longer pending''), m)
         else
         attempt (require_intent m (anr_buyer_intent_id (rr_request rec))) m (\<lambda>buyer.
         attempt (require_intent m (anr_seller_intent_id (rr_request rec))) m (\<lambda>seller.
         if ami_participant_id seller \<noteq> actor_participant_id then
           (Inl (AgentMarketError ''only the target seller Agent can engage an RFQ''), m)
         else if is_reserved m buyer \<or> is_reserved m seller then
           (Inl (AgentMarketError ''counterparty_busy''),
            m\<lparr>adm_requests := dput (adm_requests m) request_id (rec\<lparr>rr_status := CounterpartyBusy\<rparr>)\<rparr>)
         else
           let engagement_id = ''engagement:'' @ request_id;
               engagement = \<lparr>ame_engagement_id = engagement_id, ame_negotiation_id = ''negotiation:'' @ request_id,
                  ame_request_id = request_id, ame_buyer_intent_id = ami_intent_id buyer,
                  ame_seller_intent_id = ami_intent_id seller, ame_buyer_participant_id = ami_participant_id buyer,
                  ame_seller_participant_id = ami_participant_id seller, ame_good = ami_good buyer,
                  ame_selection_result_id = selection_result_id, ame_status = EActive,
                  ame_terminal_source_result_id = None\<rparr> in
           attempt (claim_results [(selection_result_id, ''engage'', engagement_id)] m) m (\<lambda>m1.
             (Inr engagement,
              m1\<lparr>adm_engagements := dput (adm_engagements m1) engagement_id engagement,
                 adm_engagement_by_selection_result :=
                   dput (adm_engagement_by_selection_result m1) selection_result_id engagement_id,
                 adm_reserved_slots :=
                   dput (dput (adm_reserved_slots m1) (slot_key buyer) engagement_id) (slot_key seller) engagement_id,
                 adm_requests := dput (adm_requests m1) request_id
                   (rec\<lparr>rr_status := Engaged, rr_engagement_id := Some engagement_id\<rparr>)\<rparr>))))))"

definition release_slot :: "string \<Rightarrow> slot \<Rightarrow> (slot, string) dict \<Rightarrow> (slot, string) dict" where
  "release_slot engagement_id s d = (if dget d s = Some engagement_id then ddel d s else d)"

definition release_slots :: "AgentMarketEngagement \<Rightarrow> unit market_call" where
  "release_slots engagement m =
     attempt (require_intent m (ame_buyer_intent_id engagement)) m (\<lambda>buyer.
     attempt (require_intent m (ame_seller_intent_id engagement)) m (\<lambda>seller.
       (Inr (), m\<lparr>adm_reserved_slots :=
          release_slot (ame_engagement_id engagement) (slot_key seller)
            (release_slot (ame_engagement_id engagement) (slot_key buyer) (adm_reserved_slots m))\<rparr>)))"

datatype CloseStatus = CloseRejected | CloseTimedOut

fun close_status :: "CloseStatus \<Rightarrow> EngagementStatus" where
  "close_status CloseRejected = EngagementRejected"
| "close_status CloseTimedOut = TimedOut"

text \<open>The writes of \<open>close_engagement\<close>, once the closing is accepted.\<close>

definition write_closed :: "string \<Rightarrow> AgentMarketEngagement \<Rightarrow> EngagementStatus \<Rightarrow> string option \<Rightarrow> AgentMarketEngagement market_call" where
  "write_closed engagement_id engagement status source_result_id m =
     (let closed = engagement\<lparr>ame_status := status, ame_terminal_source_result_id := source_result_id\<rparr>;
          m1 = m\<lparr>adm_engagements := dput (adm_engagements m) engagement_id closed\<rparr> in
      case dget (adm_requests m1) (ame_request_id engagement) of
        None \<Rightarrow> (Inl (KeyError (ame_request_id engagement)), m1)
      | Some rec \<Rightarrow>
          let m2 = m1\<lparr>adm_requests := dput (adm_requests m1) (ame_request_id engagement) (rec\<lparr>rr_status := RequestRejected\<rparr>)\<rparr> in
          case release_slots engagement m2 of
            (Inl e, m3) \<Rightarrow> (Inl e, m3)
          | (Inr _, m3) \<Rightarrow> (Inr closed, m3))"

definition close_engagement :: "string \<Rightarrow> CloseStatus \<Rightarrow> string option \<Rightarrow> AgentMarketEngagement market_call" where
  "close_engagement engagement_id status source_result_id m =
     attempt (require_engagement m engagement_id) m (\<lambda>engagement.
       if ame_status engagement \<noteq> EActive then
         if ame_status engagement = close_status status \<and> ame_terminal_source_result_id engagement = source_result_id then
           (Inr engagement, m)
         else (Inl (AgentMarketError ''engagement is already terminal''), m)
       else if status = CloseRejected \<and> source_result_id = None then
         (Inl (AgentMarketError ''Agent rejection requires a source Result''), m)
       else if status = CloseTimedOut \<and> source_result_id \<noteq> None then
         (Inl (AgentMarketError ''timeout must come from the Arena Finalizer''), m)
       else case source_result_id of
         None \<Rightarrow> write_closed engagement_id engagement (close_status status) None m
       | Some r \<Rightarrow>
           attempt (require_identifier r ''source_result_id'') m (\<lambda>_.
           attempt (claim_results [(r, ''reject'', engagement_id)] m) m (\<lambda>m1.
             write_closed engagement_id engagement (close_status status) (Some r) m1)))"

definition freeze_deal :: "string \<Rightarrow> string \<Rightarrow> string \<Rightarrow> string \<Rightarrow> string \<Rightarrow> int \<Rightarrow> AgentMarketDeal market_call" where
  "freeze_deal engagement_id latest_proposal_result_id latest_proposal_actor_id acceptance_result_id
       accepted_by_participant_id unit_price_atomic m =
     attempt (require_identifiers
        [(''latest_proposal_result_id'', latest_proposal_result_id), (''latest_proposal_actor_id'', latest_proposal_actor_id),
         (''acceptance_result_id'', acceptance_result_id), (''accepted_by_participant_id'', accepted_by_participant_id)]) m (\<lambda>_.
     if latest_proposal_result_id = acceptance_result_id then
       (Inl (AgentMarketError ''proposal and acceptance require distinct Results''), m)
     else attempt (require_engagement m engagement_id) m (\<lambda>engagement.
       let deal_id = ''deal:'' @ engagement_id in
       case dget (adm_deals m) deal_id of
         Some existing \<Rightarrow>
           if amd_latest_proposal_result_id existing \<noteq> latest_proposal_result_id
              \<or> amd_acceptance_result_id existing \<noteq> acceptance_result_id
              \<or> amd_unit_price_atomic existing \<noteq> unit_price_atomic
              \<or> amd_accepted_by_participant_id existing \<noteq> accepted_by_participant_id then
             (Inl (AgentMarketError ''Deal is immutable''), m)
           else (Inr existing, m)
       | None \<Rightarrow>
           if ame_status engagement \<noteq> EActive then
             (Inl (AgentMarketError ''only an active engagement can freeze a Deal''), m)
           else if {latest_proposal_actor_id, accepted_by_participant_id}
                   \<noteq> {ame_buyer_participant_id engagement, ame_seller_participant_id engagement} then
             (Inl (AgentMarketError ''proposal and acceptance must come from opposite counterparties''), m)
           else
             attempt (require_intent m (ame_buyer_intent_id engagement)) m (\<lambda>buyer.
             attempt (require_intent m (ame_seller_intent_id engagement)) m (\<lambda>seller.
             attempt (require_request_record m (ame_request_id engagement)) m (\<lambda>rec.
             let request = rr_request rec;
                 binding_opening = (latest_proposal_result_id = anr_source_result_id request) in
             if binding_opening \<and> (latest_proposal_actor_id \<noteq> ami_participant_id buyer
                                   \<or> unit_price_atomic \<noteq> anr_opening_price_atomic request) then
               (Inl (AgentMarketError ''binding RFQ proposal must preserve its buyer and opening price''), m)
             else if unit_price_atomic \<le> 0 \<or> unit_price_atomic > ami_limit_price_atomic buyer
                     \<or> unit_price_atomic < ami_limit_price_atomic seller then
               (Inl (AgentMarketError ''accepted price violates a private hard limit''), m)
             else
               attempt (claim_results
                 ((if binding_opening then [] else [(latest_proposal_result_id, ''proposal'', engagement_id)])
                  @ [(acceptance_result_id, ''acceptance'', engagement_id)]) m) m (\<lambda>m1.
               let deal = \<lparr>amd_deal_id = deal_id, amd_engagement_id = engagement_id, amd_request_id = ame_request_id engagement,
                     amd_buyer_participant_id = ame_buyer_participant_id engagement,
                     amd_seller_participant_id = ame_seller_participant_id engagement, amd_good = ame_good engagement,
                     amd_quantity = 1, amd_unit_price_atomic = unit_price_atomic,
                     amd_latest_proposal_result_id = latest_proposal_result_id,
                     amd_acceptance_result_id = acceptance_result_id,
                     amd_accepted_by_participant_id = accepted_by_participant_id\<rparr> in
               (Inr deal,
                m1\<lparr>adm_deals := dput (adm_deals m1) deal_id deal,
                   adm_engagements := dput (adm_engagements m1) engagement_id
                     (engagement\<lparr>ame_status := AcceptedPendingSettlement,
                                ame_terminal_source_result_id := Some acceptance_result_id\<rparr>)\<rparr>)))))))"

definition request_status :: "AgentDrivenMarket \<Rightarrow> string \<Rightarrow> RequestStatus result" where
  "request_status m request_id = bindR (require_request_record m request_id) (\<lambda>r. Inr (rr_status r))"

definition slot_engagement :: "AgentDrivenMarket \<Rightarrow> string \<Rightarrow> string \<Rightarrow> string \<Rightarrow> string option" where
  "slot_engagement m game_id round_id participant_id = dget (adm_reserved_slots m) (game_id, round_id, participant_id)"

section \<open>Claims\<close>

text \<open>A ledger of claims \<open>d'\<close> that extends \<open>d\<close> by exactly the claims \<open>cs\<close>.\<close>

definition claims_ext :: "(string, string \<times> string) dict \<Rightarrow> (string \<times> string \<times> string) list \<Rightarrow> (string, string \<times> string) dict \<Rightarrow> bool" where
  "claims_ext d cs d' \<longleftrightarrow> (\<forall>r c. dget d' r = Some c \<longleftrightarrow> dget d r = Some c \<or> (r, c) \<in> set cs)"

lemma claims_ext_mono: "claims_ext d cs d' \<Longrightarrow> dget d r = Some c \<Longrightarrow> dget d' r = Some c"
  unfolding claims_ext_def by blast

lemma claims_ext_new: "claims_ext d cs d' \<Longrightarrow> (r, c) \<in> set cs \<Longrightarrow> dget d' r = Some c"
  unfolding claims_ext_def by blast

lemma fold_dput_get: "distinct (map fst p) \<Longrightarrow> dget (fold (\<lambda>(k, v) d. dput d k v) p d) r = (case dget p r of None \<Rightarrow> dget d r | Some c \<Rightarrow> Some c)"
proof (induction p arbitrary: d)
  case (Cons x p)
  then show ?case by (cases x) (auto simp: dict_get map_of_eq_None_iff [THEN iffD2] split: option.splits)
qed simp

lemma claim_step_Inr:
  "claim_step m (r, c) p = Inr q \<longleftrightarrow> dget p r \<in> {None, Some c} \<and> dget (adm_result_claims m) r \<in> {None, Some c} \<and> q = dput p r c"
  by (auto simp: claim_step_def split: option.splits if_splits)

lemma claim_loop:
  assumes "foldR (claim_step m) cs p = Inr q" "distinct (map fst p)"
    "\<And>r c c'. dget p r = Some c \<Longrightarrow> dget (adm_result_claims m) r = Some c' \<Longrightarrow> c = c'"
  shows "distinct (map fst q) \<and> (\<forall>r c. dget q r = Some c \<longleftrightarrow> dget p r = Some c \<or> (r, c) \<in> set cs)
     \<and> (\<forall>r c c'. dget q r = Some c \<longrightarrow> dget (adm_result_claims m) r = Some c' \<longrightarrow> c = c')"
  using assms
proof (induction cs arbitrary: p)
  case Nil
  then show ?case by auto
next
  case (Cons x cs)
  obtain r c where x: "x = (r, c)" by (cases x) auto
  have guards: "\<And>c'. dget p r = Some c' \<Longrightarrow> c' = c" "\<And>c'. dget (adm_result_claims m) r = Some c' \<Longrightarrow> c' = c"
    and rest: "foldR (claim_step m) cs (dput p r c) = Inr q"
    using Cons.prems(1) by (auto simp: x claim_step_Inr bindR_Inr_iff)
  have IH: "distinct (map fst q) \<and> (\<forall>s d. dget q s = Some d \<longleftrightarrow> dget (dput p r c) s = Some d \<or> (s, d) \<in> set cs)
     \<and> (\<forall>s d d'. dget q s = Some d \<longrightarrow> dget (adm_result_claims m) s = Some d' \<longrightarrow> d = d')"
  proof (rule Cons.IH [OF rest])
    show "distinct (map fst (dput p r c))" using Cons.prems(2) by (rule dict.wf_put)
  next
    fix s d d' assume "dget (dput p r c) s = Some d" "dget (adm_result_claims m) s = Some d'"
    then show "d = d'" using guards(2) Cons.prems(3) by (auto simp: dict_get split: if_splits)
  qed
  have "dget q s = Some d \<longleftrightarrow> dget p s = Some d \<or> (s, d) \<in> set (x # cs)" for s d
    using IH [THEN conjunct2, THEN conjunct1, rule_format, of s d] guards(1) [of d] by (cases "s = r") (auto simp: x dict_get)
  then show ?case using IH by blast
qed

lemma claim_results_ext:
  assumes "claim_results cs m = Inr m'"
  obtains d where "m' = m\<lparr>adm_result_claims := d\<rparr>" "claims_ext (adm_result_claims m) cs d"
proof -
  obtain q where q: "foldR (claim_step m) cs [] = Inr q"
    and m': "m' = m\<lparr>adm_result_claims := fold (\<lambda>(k, v) d. dput d k v) q (adm_result_claims m)\<rparr>"
    using assms by (auto simp: claim_results_def bindR_Inr_iff)
  have l: "distinct (map fst q)" "\<And>r c. dget q r = Some c \<longleftrightarrow> (r, c) \<in> set cs"
      "\<And>r c c'. dget q r = Some c \<Longrightarrow> dget (adm_result_claims m) r = Some c' \<Longrightarrow> c = c'"
    using claim_loop [OF q] by auto
  have "claims_ext (adm_result_claims m) cs (fold (\<lambda>(k, v) d. dput d k v) q (adm_result_claims m))"
    unfolding claims_ext_def fold_dput_get [OF l(1)]
  proof (intro allI)
    fix r c
    show "(case dget q r of None \<Rightarrow> dget (adm_result_claims m) r | Some c \<Rightarrow> Some c) = Some c
        \<longleftrightarrow> dget (adm_result_claims m) r = Some c \<or> (r, c) \<in> set cs"
    proof (cases "dget q r")
      case None
      then show ?thesis using l(2) [of r c] by simp
    next
      case (Some c')
      then show ?thesis using l(2) [of r c] l(3) [OF Some, of c] by (simp only: option.case option.inject) blast
    qed
  qed
  with m' show ?thesis by (rule that)
qed

section \<open>Transitions\<close>

text \<open>What a call can do to the market: the six ways in which it changes.\<close>

definition opened :: "AgentNegotiationRequest \<Rightarrow> RequestRecord" where
  "opened q = \<lparr>rr_request = q, rr_status = Pending, rr_engagement_id = None\<rparr>"

definition engagement_of :: "string \<Rightarrow> string \<Rightarrow> AgentMarketIntent \<Rightarrow> AgentMarketIntent \<Rightarrow> AgentMarketEngagement" where
  "engagement_of k r b s = \<lparr>ame_engagement_id = ''engagement:'' @ k, ame_negotiation_id = ''negotiation:'' @ k, ame_request_id = k,
     ame_buyer_intent_id = ami_intent_id b, ame_seller_intent_id = ami_intent_id s, ame_buyer_participant_id = ami_participant_id b,
     ame_seller_participant_id = ami_participant_id s, ame_good = ami_good b, ame_selection_result_id = r, ame_status = EActive,
     ame_terminal_source_result_id = None\<rparr>"

inductive market_effect :: "AgentDrivenMarket \<Rightarrow> AgentDrivenMarket \<Rightarrow> bool" where
  published: "AgentMarketIntent_post_init i = Inr i \<Longrightarrow> dget (adm_intents m) (ami_intent_id i) = None
    \<Longrightarrow> dget (adm_intent_by_result m) (ami_source_result_id i) = None
    \<Longrightarrow> dget (adm_intent_by_participant_round m) (slot_key i) = None
    \<Longrightarrow> claims_ext (adm_result_claims m) [(ami_source_result_id i, ''intent'', ami_intent_id i)] d
    \<Longrightarrow> market_effect m (m\<lparr>adm_result_claims := d, adm_intents := dput (adm_intents m) (ami_intent_id i) i,
          adm_intent_by_result := dput (adm_intent_by_result m) (ami_source_result_id i) (ami_intent_id i),
          adm_intent_by_participant_round := dput (adm_intent_by_participant_round m) (slot_key i) (ami_intent_id i)\<rparr>)"
| requested: "AgentNegotiationRequest_post_init q = Inr q \<Longrightarrow> dget (adm_request_ids_by_result m) (anr_source_result_id q) = None
    \<Longrightarrow> dget (adm_intents m) (anr_buyer_intent_id q) = Some b \<Longrightarrow> check_request m b (targets_of m (ami_intent_id b)) q = Inr ()
    \<Longrightarrow> \<not> list_ex (\<lambda>r. anr_buyer_intent_id (rr_request r) = ami_intent_id b \<and> unresolved (rr_status r)) (dvalues (adm_requests m))
    \<Longrightarrow> card (targets_of m (ami_intent_id b)) < adm_max_outbound_rfq m
    \<Longrightarrow> claims_ext (adm_result_claims m) [(anr_source_result_id q, ''rfq'', ''rfq-batch:'' @ anr_source_result_id q)] d
    \<Longrightarrow> market_effect m (m\<lparr>adm_result_claims := d, adm_requests := dput (adm_requests m) (anr_request_id q) (opened q),
          adm_request_targets_by_buyer := dput (adm_request_targets_by_buyer m) (ami_intent_id b)
             (insert (anr_seller_intent_id q) (targets_of m (ami_intent_id b))),
          adm_request_ids_by_result := dput (adm_request_ids_by_result m) (anr_source_result_id q) [anr_request_id q]\<rparr>)"
| busied: "dget (adm_requests m) k = Some rec \<Longrightarrow> rr_status rec = Pending
    \<Longrightarrow> dget (adm_intents m) (anr_buyer_intent_id (rr_request rec)) = Some b
    \<Longrightarrow> dget (adm_intents m) (anr_seller_intent_id (rr_request rec)) = Some s \<Longrightarrow> is_reserved m b \<or> is_reserved m s
    \<Longrightarrow> market_effect m (m\<lparr>adm_requests := dput (adm_requests m) k (rec\<lparr>rr_status := CounterpartyBusy\<rparr>)\<rparr>)"
| engaged: "dget (adm_requests m) k = Some rec \<Longrightarrow> rr_status rec = Pending
    \<Longrightarrow> dget (adm_intents m) (anr_buyer_intent_id (rr_request rec)) = Some b
    \<Longrightarrow> dget (adm_intents m) (anr_seller_intent_id (rr_request rec)) = Some s \<Longrightarrow> \<not> is_reserved m b \<Longrightarrow> \<not> is_reserved m s
    \<Longrightarrow> dget (adm_engagement_by_selection_result m) r = None
    \<Longrightarrow> claims_ext (adm_result_claims m) [(r, ''engage'', ''engagement:'' @ k)] d
    \<Longrightarrow> market_effect m (m\<lparr>adm_result_claims := d, adm_engagements := dput (adm_engagements m) (''engagement:'' @ k) (engagement_of k r b s),
          adm_engagement_by_selection_result := dput (adm_engagement_by_selection_result m) r (''engagement:'' @ k),
          adm_reserved_slots := dput (dput (adm_reserved_slots m) (slot_key b) (''engagement:'' @ k)) (slot_key s) (''engagement:'' @ k),
          adm_requests := dput (adm_requests m) k (rec\<lparr>rr_status := Engaged, rr_engagement_id := Some (''engagement:'' @ k)\<rparr>)\<rparr>)"
| closed: "dget (adm_engagements m) k = Some e \<Longrightarrow> ame_status e = EActive \<Longrightarrow> ame_engagement_id e = k
    \<Longrightarrow> dget (adm_requests m) (ame_request_id e) = Some rec
    \<Longrightarrow> dget (adm_intents m) (ame_buyer_intent_id e) = Some b \<Longrightarrow> dget (adm_intents m) (ame_seller_intent_id e) = Some s
    \<Longrightarrow> st = EngagementRejected \<and> src = Some r \<or> st = TimedOut \<and> src = None
    \<Longrightarrow> claims_ext (adm_result_claims m) (case src of None \<Rightarrow> [] | Some r \<Rightarrow> [(r, ''reject'', k)]) d
    \<Longrightarrow> market_effect m (m\<lparr>adm_result_claims := d,
          adm_engagements := dput (adm_engagements m) k (e\<lparr>ame_status := st, ame_terminal_source_result_id := src\<rparr>),
          adm_requests := dput (adm_requests m) (ame_request_id e) (rec\<lparr>rr_status := RequestRejected\<rparr>),
          adm_reserved_slots := release_slot k (slot_key s) (release_slot k (slot_key b) (adm_reserved_slots m))\<rparr>)"
| frozen: "dget (adm_engagements m) k = Some e \<Longrightarrow> ame_status e = EActive \<Longrightarrow> dget (adm_deals m) (''deal:'' @ k) = None
    \<Longrightarrow> dget (adm_requests m) (ame_request_id e) = Some rec
    \<Longrightarrow> dget (adm_intents m) (ame_buyer_intent_id e) = Some b \<Longrightarrow> dget (adm_intents m) (ame_seller_intent_id e) = Some s
    \<Longrightarrow> {actor, acc} = {ame_buyer_participant_id e, ame_seller_participant_id e}
    \<Longrightarrow> 0 < p \<Longrightarrow> p \<le> ami_limit_price_atomic b \<Longrightarrow> ami_limit_price_atomic s \<le> p \<Longrightarrow> pr \<noteq> ar
    \<Longrightarrow> pr = anr_source_result_id (rr_request rec) \<longrightarrow> p = anr_opening_price_atomic (rr_request rec) \<and> actor = ami_participant_id b
    \<Longrightarrow> claims_ext (adm_result_claims m)
          ((if pr = anr_source_result_id (rr_request rec) then [] else [(pr, ''proposal'', k)]) @ [(ar, ''acceptance'', k)]) d
    \<Longrightarrow> market_effect m (m\<lparr>adm_result_claims := d,
          adm_deals := dput (adm_deals m) (''deal:'' @ k) \<lparr>amd_deal_id = ''deal:'' @ k, amd_engagement_id = k, amd_request_id = ame_request_id e,
                     amd_buyer_participant_id = ame_buyer_participant_id e,
                     amd_seller_participant_id = ame_seller_participant_id e, amd_good = ame_good e,
                     amd_quantity = 1, amd_unit_price_atomic = p,
                     amd_latest_proposal_result_id = pr, amd_acceptance_result_id = ar,
                     amd_accepted_by_participant_id = acc\<rparr>,
          adm_engagements := dput (adm_engagements m) k
             (e\<lparr>ame_status := AcceptedPendingSettlement, ame_terminal_source_result_id := Some ar\<rparr>)\<rparr>)"

inductive_cases market_effectE: "market_effect m m'"

lemma require_intent_iff [result_simps]: "require_intent m k = Inr i \<longleftrightarrow> dget (adm_intents m) k = Some i"
  by (simp add: require_intent_def split: option.splits)

lemma require_request_record_iff [result_simps]: "require_request_record m k = Inr i \<longleftrightarrow> dget (adm_requests m) k = Some i"
  by (simp add: require_request_record_def split: option.splits)

lemma require_engagement_iff [result_simps]: "require_engagement m k = Inr i \<longleftrightarrow> dget (adm_engagements m) k = Some i"
  by (simp add: require_engagement_def split: option.splits)

text \<open>Every intent is stored under its own id; every engagement has its request and its two intents.\<close>

definition links_ok :: "AgentDrivenMarket \<Rightarrow> bool" where
  "links_ok m \<longleftrightarrow> (\<forall>k i. dget (adm_intents m) k = Some i \<longrightarrow> ami_intent_id i = k)
     \<and> (\<forall>k e. dget (adm_engagements m) k = Some e \<longrightarrow> ame_engagement_id e = k \<and> dget (adm_requests m) (ame_request_id e) \<noteq> None
          \<and> dget (adm_intents m) (ame_buyer_intent_id e) \<noteq> None \<and> dget (adm_intents m) (ame_seller_intent_id e) \<noteq> None)"

lemma publish_intent_effect:
  assumes "publish_intent i m = (x, m')" "AgentMarketIntent_post_init i = Inr i"
  shows "m' = m \<or> x = Inr i \<and> market_effect m m'"
proof (cases "m' = m")
  case False
  then have g: "dget (adm_intents m) (ami_intent_id i) = None" "dget (adm_intent_by_result m) (ami_source_result_id i) = None"
      "dget (adm_intent_by_participant_round m) (slot_key i) = None"
    and "\<exists>m1. claim_results [(ami_source_result_id i, ''intent'', ami_intent_id i)] m = Inr m1"
    using assms(1) by (auto simp: publish_intent_def attempt_def split: option.splits if_splits sum.splits)
  then obtain m1 where m1: "claim_results [(ami_source_result_id i, ''intent'', ami_intent_id i)] m = Inr m1" by blast
  then obtain d where d: "m1 = m\<lparr>adm_result_claims := d\<rparr>" "claims_ext (adm_result_claims m) [(ami_source_result_id i, ''intent'', ami_intent_id i)] d"
    by (rule claim_results_ext)
  show ?thesis using assms(1) g m1 d(1) market_effect.published [OF assms(2) g d(2)]
    by (auto simp: publish_intent_def attempt_def)
qed simp

lemma submit_requests_effect:
  assumes "submit_requests qs m = (x, m')" "list_all (\<lambda>q. AgentNegotiationRequest_post_init q = Inr q) qs" "links_ok m"
  shows "m' = m \<or> x = Inr qs \<and> market_effect m m'"
proof (cases "m' = m")
  case False
  then have "length qs = 1" using assms(1) by (auto simp: submit_requests_def split: if_splits)
  then obtain q where q: "qs = [q]" by (auto simp: length_Suc_conv)
  let ?c = "[(anr_source_result_id q, ''rfq'', ''rfq-batch:'' @ anr_source_result_id q)]"
  have "\<exists>b m1. dget (adm_request_ids_by_result m) (anr_source_result_id q) = None \<and> dget (adm_intents m) (anr_buyer_intent_id q) = Some b
      \<and> check_request m b (targets_of m (ami_intent_id b)) q = Inr ()
      \<and> \<not> list_ex (\<lambda>r. anr_buyer_intent_id (rr_request r) = ami_intent_id b \<and> unresolved (rr_status r)) (dvalues (adm_requests m))
      \<and> card (targets_of m (ami_intent_id b)) < adm_max_outbound_rfq m \<and> claim_results ?c m = Inr m1"
    using assms(1) False
    by (auto simp: q submit_requests_def Let_def result_simps elim!: attempt_cases split: option.splits if_splits)
  then obtain b m1 where b: "dget (adm_request_ids_by_result m) (anr_source_result_id q) = None"
      "dget (adm_intents m) (anr_buyer_intent_id q) = Some b" "check_request m b (targets_of m (ami_intent_id b)) q = Inr ()"
      "\<not> list_ex (\<lambda>r. anr_buyer_intent_id (rr_request r) = ami_intent_id b \<and> unresolved (rr_status r)) (dvalues (adm_requests m))"
      "card (targets_of m (ami_intent_id b)) < adm_max_outbound_rfq m" and m1: "claim_results ?c m = Inr m1" by blast
  obtain d where d: "m1 = m\<lparr>adm_result_claims := d\<rparr>" "claims_ext (adm_result_claims m) ?c d" using m1 by (rule claim_results_ext)
  have v: "AgentNegotiationRequest_post_init q = Inr q" using assms(2) by (simp add: q)
  have r: "require_intent m (anr_buyer_intent_id q) = Inr b" using b(2) by (simp add: result_simps)
  show ?thesis using assms(1) b m1 d(1) r market_effect.requested [OF v b d(2)]
    by (simp add: q submit_requests_def Let_def attempt_def opened_def)
qed simp

lemma engage_request_effect:
  assumes "engage_request a k r m = (x, m')" "links_ok m"
  shows "m' = m \<or> market_effect m m'"
proof (cases "m' = m")
  case False
  show ?thesis
    using assms(1) False unfolding engage_request_def
    by (auto simp: Let_def result_simps simp flip: engagement_of_def simp del: append.simps elim!: attempt_cases claim_results_ext
        split: option.splits if_splits) (blast intro: market_effect.busied market_effect.engaged)+
qed simp

lemma write_closed_links:
  assumes l: "links_ok m" and e: "dget (adm_engagements m) k = Some e"
  obtains rec b s where "dget (adm_requests m) (ame_request_id e) = Some rec" "dget (adm_intents m) (ame_buyer_intent_id e) = Some b"
    "dget (adm_intents m) (ame_seller_intent_id e) = Some s" "ame_engagement_id e = k"
    "\<And>d st src. write_closed k e st src (m\<lparr>adm_result_claims := d\<rparr>) =
      (Inr (e\<lparr>ame_status := st, ame_terminal_source_result_id := src\<rparr>),
       m\<lparr>adm_result_claims := d,
          adm_engagements := dput (adm_engagements m) k (e\<lparr>ame_status := st, ame_terminal_source_result_id := src\<rparr>),
          adm_requests := dput (adm_requests m) (ame_request_id e) (rec\<lparr>rr_status := RequestRejected\<rparr>),
          adm_reserved_slots := release_slot k (slot_key s) (release_slot k (slot_key b) (adm_reserved_slots m))\<rparr>)"
proof -
  obtain rec b s where p: "dget (adm_requests m) (ame_request_id e) = Some rec" "dget (adm_intents m) (ame_buyer_intent_id e) = Some b"
    "dget (adm_intents m) (ame_seller_intent_id e) = Some s" "ame_engagement_id e = k"
    using l e unfolding links_ok_def by blast
  show thesis
    by (rule that [OF p]) (simp add: write_closed_def release_slots_def attempt_def require_intent_def Let_def p)
qed

lemma close_engagement_effect:
  assumes "close_engagement k st src m = (x, m')" "links_ok m"
  shows "m' = m \<or> (\<exists>y. x = Inr y) \<and> market_effect m m'"
proof (cases "m' = m")
  case False
  then obtain e where e: "dget (adm_engagements m) k = Some e" "ame_status e = EActive"
    using assms(1) by (auto simp: close_engagement_def result_simps elim!: attempt_cases split: if_splits)
  obtain rec b s where p: "dget (adm_requests m) (ame_request_id e) = Some rec" "dget (adm_intents m) (ame_buyer_intent_id e) = Some b"
    "dget (adm_intents m) (ame_seller_intent_id e) = Some s" "ame_engagement_id e = k"
    and w: "\<And>d st src. write_closed k e st src (m\<lparr>adm_result_claims := d\<rparr>) =
      (Inr (e\<lparr>ame_status := st, ame_terminal_source_result_id := src\<rparr>),
       m\<lparr>adm_result_claims := d,
          adm_engagements := dput (adm_engagements m) k (e\<lparr>ame_status := st, ame_terminal_source_result_id := src\<rparr>),
          adm_requests := dput (adm_requests m) (ame_request_id e) (rec\<lparr>rr_status := RequestRejected\<rparr>),
          adm_reserved_slots := release_slot k (slot_key s) (release_slot k (slot_key b) (adm_reserved_slots m))\<rparr>)"
    using assms(2) e(1) by (rule write_closed_links) blast
  have "\<exists>d. claims_ext (adm_result_claims m) (case src of None \<Rightarrow> [] | Some r \<Rightarrow> [(r, ''reject'', k)]) d
      \<and> write_closed k e (close_status st) src (m\<lparr>adm_result_claims := d\<rparr>) = (x, m')
      \<and> ((\<exists>r. close_status st = EngagementRejected \<and> src = Some r) \<or> close_status st = TimedOut \<and> src = None)"
  proof (cases src)
    case None
    then have "write_closed k e (close_status st) src (m\<lparr>adm_result_claims := adm_result_claims m\<rparr>) = (x, m')" "st = CloseTimedOut"
      using assms(1) e False by (auto simp: close_engagement_def attempt_def require_engagement_def split: if_splits) (cases st; simp)
    moreover have "claims_ext (adm_result_claims m) [] (adm_result_claims m)" by (simp add: claims_ext_def)
    ultimately show ?thesis using None by auto
  next
    case (Some r)
    then show ?thesis
      using assms(1) e False unfolding close_engagement_def
      by (cases st) (auto simp: result_simps elim!: attempt_cases claim_results_ext split: if_splits)
  qed
  then obtain d where d: "claims_ext (adm_result_claims m) (case src of None \<Rightarrow> [] | Some r \<Rightarrow> [(r, ''reject'', k)]) d"
    and x: "write_closed k e (close_status st) src (m\<lparr>adm_result_claims := d\<rparr>) = (x, m')"
    and st: "(\<exists>r. close_status st = EngagementRejected \<and> src = Some r) \<or> close_status st = TimedOut \<and> src = None" by blast
  then show ?thesis using x w market_effect.closed [OF e p(4,1-3) _ d] by auto
qed simp

lemma freeze_deal_effect:
  assumes "freeze_deal k pr actor ar acc p m = (x, m')"
  shows "m' = m \<or> (\<exists>y. x = Inr y) \<and> market_effect m m'"
proof (cases "m' = m")
  case ch: False
  have n: "dget (adm_deals m) (''deal:'' @ k) = None"
  proof (rule ccontr)
    assume "dget (adm_deals m) (''deal:'' @ k) \<noteq> None"
    then obtain old where old: "dget (adm_deals m) (''deal:'' @ k) = Some old" by blast
    from assms show False
      unfolding freeze_deal_def Let_def attempt_changes [OF ch] guard_changes [OF ch] old option.case using ch by blast
  qed
  obtain e b s rec m1 where e: "dget (adm_engagements m) k = Some e" "ame_status e = EActive"
    and p: "dget (adm_requests m) (ame_request_id e) = Some rec" "dget (adm_intents m) (ame_buyer_intent_id e) = Some b"
      "dget (adm_intents m) (ame_seller_intent_id e) = Some s"
      "{actor, acc} = {ame_buyer_participant_id e, ame_seller_participant_id e}"
      "0 < p" "p \<le> ami_limit_price_atomic b" "ami_limit_price_atomic s \<le> p" "pr \<noteq> ar"
      "pr = anr_source_result_id (rr_request rec) \<longrightarrow> p = anr_opening_price_atomic (rr_request rec) \<and> actor = ami_participant_id b"
    and m1: "claim_results ((if pr = anr_source_result_id (rr_request rec) then [] else [(pr, ''proposal'', k)]) @ [(ar, ''acceptance'', k)]) m = Inr m1"
    and m': "(x, m') = (Inr \<lparr>amd_deal_id = ''deal:'' @ k, amd_engagement_id = k, amd_request_id = ame_request_id e,
                     amd_buyer_participant_id = ame_buyer_participant_id e,
                     amd_seller_participant_id = ame_seller_participant_id e, amd_good = ame_good e,
                     amd_quantity = 1, amd_unit_price_atomic = p,
                     amd_latest_proposal_result_id = pr, amd_acceptance_result_id = ar,
                     amd_accepted_by_participant_id = acc\<rparr>,
        m1\<lparr>adm_deals := dput (adm_deals m1) (''deal:'' @ k) \<lparr>amd_deal_id = ''deal:'' @ k, amd_engagement_id = k, amd_request_id = ame_request_id e,
                     amd_buyer_participant_id = ame_buyer_participant_id e,
                     amd_seller_participant_id = ame_seller_participant_id e, amd_good = ame_good e,
                     amd_quantity = 1, amd_unit_price_atomic = p,
                     amd_latest_proposal_result_id = pr, amd_acceptance_result_id = ar,
                     amd_accepted_by_participant_id = acc\<rparr>,
          adm_engagements := dput (adm_engagements m1) k
             (e\<lparr>ame_status := AcceptedPendingSettlement, ame_terminal_source_result_id := Some ar\<rparr>)\<rparr>)"
    using assms unfolding freeze_deal_def Let_def attempt_changes [OF ch] guard_changes [OF ch] n option.case result_simps not_less not_le de_Morgan_disj not_not
    by blast
  obtain d where d: "m1 = m\<lparr>adm_result_claims := d\<rparr>" "claims_ext (adm_result_claims m)
      ((if pr = anr_source_result_id (rr_request rec) then [] else [(pr, ''proposal'', k)]) @ [(ar, ''acceptance'', k)]) d"
    using m1 by (rule claim_results_ext)
  show ?thesis using m' d(1) market_effect.frozen [OF e n p d(2)] by simp
qed simp

end
