(* ===== verification/Arena_A2A_Invariant.thy ===== *)
theory Arena_A2A_Invariant
  imports Arena_A2A
begin

text \<open>
  The invariant of the agent-driven market: indexes agree with the records they index, requests join
  valid counterparties within the buyer's budget, engagements follow their requests, the reserved slots are
  those of the live engagements, and deals respect both limits. Each transition keeps it, so every
  sequence of calls does.
\<close>

section \<open>The invariant\<close>

declare map_of_eq_Some_iff [simp del] Some_eq_map_of_iff [simp del]

definition live :: "AgentMarketEngagement \<Rightarrow> bool" where
  "live e \<longleftrightarrow> ame_status e = EActive \<or> ame_status e = AcceptedPendingSettlement"

definition intents_ok :: "AgentDrivenMarket \<Rightarrow> bool" where
  "intents_ok m \<longleftrightarrow> (\<forall>k i. dget (adm_intents m) k = Some i \<longrightarrow> ami_intent_id i = k \<and> AgentMarketIntent_post_init i = Inr i
          \<and> dget (adm_intent_by_result m) (ami_source_result_id i) = Some k
          \<and> dget (adm_intent_by_participant_round m) (slot_key i) = Some k
          \<and> dget (adm_result_claims m) (ami_source_result_id i) = Some (''intent'', k))
     \<and> (\<forall>r k. dget (adm_intent_by_result m) r = Some k \<longrightarrow> (\<exists>i. dget (adm_intents m) k = Some i \<and> ami_source_result_id i = r))"

text \<open>What a stored request promises: two valid counterparties, and a price the buyer can pay.\<close>

definition request_ok :: "AgentDrivenMarket \<Rightarrow> string \<Rightarrow> RequestRecord \<Rightarrow> bool" where
  "request_ok m k rec \<longleftrightarrow> anr_request_id (rr_request rec) = k \<and> AgentNegotiationRequest_post_init (rr_request rec) = Inr (rr_request rec)
     \<and> dget (adm_request_ids_by_result m) (anr_source_result_id (rr_request rec)) = Some [k]
     \<and> dget (adm_result_claims m) (anr_source_result_id (rr_request rec)) = Some (''rfq'', ''rfq-batch:'' @ anr_source_result_id (rr_request rec))
     \<and> (\<exists>b s. dget (adm_intents m) (anr_buyer_intent_id (rr_request rec)) = Some b
          \<and> dget (adm_intents m) (anr_seller_intent_id (rr_request rec)) = Some s
          \<and> validate_counterparties b s = Inr () \<and> anr_opening_price_atomic (rr_request rec) \<le> ami_limit_price_atomic b)"

definition requests_ok :: "AgentDrivenMarket \<Rightarrow> bool" where
  "requests_ok m \<longleftrightarrow> (\<forall>k rec. dget (adm_requests m) k = Some rec \<longrightarrow> request_ok m k rec)
     \<and> (\<forall>r ids. dget (adm_request_ids_by_result m) r = Some ids \<longrightarrow>
          (\<exists>k rec. ids = [k] \<and> dget (adm_requests m) k = Some rec \<and> anr_source_result_id (rr_request rec) = r))"

definition one_at_a_time :: "RequestRecord \<Rightarrow> RequestRecord \<Rightarrow> bool" where
  "one_at_a_time r r' \<longleftrightarrow> anr_buyer_intent_id (rr_request r) = anr_buyer_intent_id (rr_request r') \<longrightarrow>
     anr_seller_intent_id (rr_request r) \<noteq> anr_seller_intent_id (rr_request r')
     \<and> \<not> (unresolved (rr_status r) \<and> unresolved (rr_status r'))"

text \<open>A buyer asks at most \<open>max_outbound_rfq\<close> sellers, each once, one after the other.\<close>

definition budget_ok :: "AgentDrivenMarket \<Rightarrow> bool" where
  "budget_ok m \<longleftrightarrow> adm_max_outbound_rfq m \<le> MAX_OUTBOUND_RFQ
     \<and> (\<forall>b. finite (targets_of m b) \<and> card (targets_of m b) \<le> adm_max_outbound_rfq m)
     \<and> (\<forall>k rec. dget (adm_requests m) k = Some rec \<longrightarrow>
          anr_seller_intent_id (rr_request rec) \<in> targets_of m (anr_buyer_intent_id (rr_request rec)))
     \<and> (\<forall>k k' rec rec'. dget (adm_requests m) k = Some rec \<longrightarrow> dget (adm_requests m) k' = Some rec' \<longrightarrow> k \<noteq> k' \<longrightarrow>
          one_at_a_time rec rec')"

definition engagement_ok :: "AgentDrivenMarket \<Rightarrow> string \<Rightarrow> AgentMarketEngagement \<Rightarrow> bool" where
  "engagement_ok m k e \<longleftrightarrow> ame_engagement_id e = k \<and> k = ''engagement:'' @ ame_request_id e
     \<and> dget (adm_engagement_by_selection_result m) (ame_selection_result_id e) = Some k
     \<and> dget (adm_result_claims m) (ame_selection_result_id e) = Some (''engage'', k)
     \<and> (ame_status e = EngagementRejected \<longrightarrow> (\<exists>r. ame_terminal_source_result_id e = Some r \<and> dget (adm_result_claims m) r = Some (''reject'', k)))
     \<and> (\<exists>rec b s. dget (adm_requests m) (ame_request_id e) = Some rec
          \<and> rr_engagement_id rec = Some k \<and> rr_status rec = (if live e then Engaged else RequestRejected)
          \<and> ame_buyer_intent_id e = anr_buyer_intent_id (rr_request rec) \<and> ame_seller_intent_id e = anr_seller_intent_id (rr_request rec)
          \<and> dget (adm_intents m) (ame_buyer_intent_id e) = Some b \<and> dget (adm_intents m) (ame_seller_intent_id e) = Some s
          \<and> ame_buyer_participant_id e = ami_participant_id b \<and> ame_seller_participant_id e = ami_participant_id s
          \<and> ame_good e = ami_good b)"

definition engagements_ok :: "AgentDrivenMarket \<Rightarrow> bool" where
  "engagements_ok m \<longleftrightarrow> (\<forall>k e. dget (adm_engagements m) k = Some e \<longrightarrow> engagement_ok m k e)
     \<and> (\<forall>k rec. dget (adm_requests m) k = Some rec \<longrightarrow> rr_status rec = Pending \<longrightarrow> dget (adm_engagements m) (''engagement:'' @ k) = None)
     \<and> (\<forall>r k. dget (adm_engagement_by_selection_result m) r = Some k \<longrightarrow> (\<exists>e. dget (adm_engagements m) k = Some e \<and> ame_selection_result_id e = r))"

text \<open>The two participant slots an engagement occupies.\<close>

definition engagement_slots :: "AgentDrivenMarket \<Rightarrow> AgentMarketEngagement \<Rightarrow> slot set" where
  "engagement_slots m e = {slot_key i | i. dget (adm_intents m) (ame_buyer_intent_id e) = Some i \<or> dget (adm_intents m) (ame_seller_intent_id e) = Some i}"

definition slots_ok :: "AgentDrivenMarket \<Rightarrow> bool" where
  "slots_ok m \<longleftrightarrow> (\<forall>p k. dget (adm_reserved_slots m) p = Some k \<longleftrightarrow>
     (\<exists>e. dget (adm_engagements m) k = Some e \<and> live e \<and> p \<in> engagement_slots m e))"

definition deal_ok :: "AgentDrivenMarket \<Rightarrow> string \<Rightarrow> AgentMarketDeal \<Rightarrow> bool" where
  "deal_ok m k d \<longleftrightarrow> amd_deal_id d = k \<and> k = ''deal:'' @ amd_engagement_id d \<and> amd_quantity d = 1
     \<and> amd_latest_proposal_result_id d \<noteq> amd_acceptance_result_id d
     \<and> dget (adm_result_claims m) (amd_acceptance_result_id d) = Some (''acceptance'', amd_engagement_id d)
     \<and> (\<exists>e rec b s. dget (adm_engagements m) (amd_engagement_id d) = Some e \<and> ame_status e = AcceptedPendingSettlement
          \<and> ame_terminal_source_result_id e = Some (amd_acceptance_result_id d)
          \<and> dget (adm_requests m) (ame_request_id e) = Some rec \<and> amd_request_id d = ame_request_id e
          \<and> dget (adm_intents m) (ame_buyer_intent_id e) = Some b \<and> dget (adm_intents m) (ame_seller_intent_id e) = Some s
          \<and> amd_buyer_participant_id d = ami_participant_id b \<and> amd_seller_participant_id d = ami_participant_id s
          \<and> amd_good d = ami_good b \<and> amd_accepted_by_participant_id d \<in> {ami_participant_id b, ami_participant_id s}
          \<and> 0 < amd_unit_price_atomic d \<and> ami_limit_price_atomic s \<le> amd_unit_price_atomic d
          \<and> amd_unit_price_atomic d \<le> ami_limit_price_atomic b
          \<and> (if amd_latest_proposal_result_id d = anr_source_result_id (rr_request rec)
             then amd_unit_price_atomic d = anr_opening_price_atomic (rr_request rec) \<and> amd_accepted_by_participant_id d = ami_participant_id s
             else dget (adm_result_claims m) (amd_latest_proposal_result_id d) = Some (''proposal'', amd_engagement_id d)))"

definition deals_ok :: "AgentDrivenMarket \<Rightarrow> bool" where
  "deals_ok m \<longleftrightarrow> (\<forall>k d. dget (adm_deals m) k = Some d \<longrightarrow> deal_ok m k d)
     \<and> (\<forall>k e. dget (adm_engagements m) k = Some e \<longrightarrow> ame_status e = AcceptedPendingSettlement \<longrightarrow> dget (adm_deals m) (''deal:'' @ k) \<noteq> None)"

definition keys_ok :: "AgentDrivenMarket \<Rightarrow> bool" where
  "keys_ok m \<longleftrightarrow> distinct (dkeys (adm_intents m)) \<and> distinct (dkeys (adm_requests m))"

definition market_inv :: "AgentDrivenMarket \<Rightarrow> bool" where
  "market_inv m \<longleftrightarrow> keys_ok m \<and> intents_ok m \<and> requests_ok m \<and> budget_ok m \<and> engagements_ok m \<and> slots_ok m \<and> deals_ok m"

lemmas market_inv_defs = intents_ok_def requests_ok_def request_ok_def budget_ok_def engagements_ok_def engagement_ok_def
  slots_ok_def engagement_slots_def deals_ok_def deal_ok_def

lemma market_inv_links: "market_inv m \<Longrightarrow> links_ok m"
  unfolding market_inv_def links_ok_def intents_ok_def engagements_ok_def engagement_ok_def by blast

lemma new_market_inv: "AgentDrivenMarket_new n = Inr m \<Longrightarrow> market_inv m"
  by (auto simp: AgentDrivenMarket_new_def market_inv_def market_inv_defs keys_ok_def targets_of_def MAX_OUTBOUND_RFQ_def split: if_splits)

lemma keys_ok_effect: "market_effect m m' \<Longrightarrow> keys_ok m \<Longrightarrow> keys_ok m'"
  unfolding keys_ok_def by (erule market_effectE) (simp_all add: distinct_update)

lemma intents_ok_effect: "market_effect m m' \<Longrightarrow> intents_ok m \<Longrightarrow> intents_ok m'"
proof (induction rule: market_effect.induct)
  case (published i m d)
  show ?case using published.prems published.hyps unfolding intents_ok_def
    by (simp add: dict_get claims_ext_mono claims_ext_new) (metis option.distinct(1) option.inject)
qed (simp_all add: intents_ok_def claims_ext_mono)

lemma check_request_ok:
  "check_request m b t q = Inr () \<longleftrightarrow> dget (adm_requests m) (anr_request_id q) = None
     \<and> (\<exists>s. dget (adm_intents m) (anr_seller_intent_id q) = Some s \<and> validate_counterparties b s = Inr ()
        \<and> instant (anr_created_at q) < instant (ami_expires_at b) \<and> instant (anr_created_at q) < instant (ami_expires_at s)
        \<and> anr_opening_price_atomic q \<le> ami_limit_price_atomic b \<and> \<not> is_reserved m b \<and> \<not> is_reserved m s \<and> ami_intent_id s \<notin> t)"
  by (auto simp: check_request_def result_simps not_le not_less split: option.splits)

text \<open>Changing the status of one request keeps what the requests promise.\<close>

lemma requests_ok_settle:
  assumes "requests_ok m" "dget (adm_requests m) k = Some rec" "rr_request rec' = rr_request rec"
    "adm_requests m' = dput (adm_requests m) k rec'" "adm_intents m' = adm_intents m"
    "adm_request_ids_by_result m' = adm_request_ids_by_result m"
    "\<And>r c. dget (adm_result_claims m) r = Some c \<Longrightarrow> dget (adm_result_claims m') r = Some c"
  shows "requests_ok m'"
proof -
  have g: "dget (adm_requests m') j = (if j = k then Some rec' else dget (adm_requests m) j)" for j using assms(4) by (simp add: dict_get)
  have ok: "request_ok m' j r'" if "rr_request r' = rr_request r" "dget (adm_requests m) j = Some r" for j r r'
    using assms(1) that assms(5-7) by (simp add: requests_ok_def request_ok_def)
  have "\<exists>j r'. ids = [j] \<and> dget (adm_requests m') j = Some r' \<and> anr_source_result_id (rr_request r') = s"
    if i: "dget (adm_request_ids_by_result m) s = Some ids" for s ids
  proof -
    obtain j r where "ids = [j]" "dget (adm_requests m) j = Some r" "anr_source_result_id (rr_request r) = s"
      using assms(1) i unfolding requests_ok_def by blast
    then show ?thesis using assms(2,3) by (cases "j = k") (simp_all add: g)
  qed
  then show ?thesis using ok assms(2,3,6) unfolding requests_ok_def by (auto simp: g split: if_split_asm)
qed

lemma requests_ok_effect: "market_effect m m' \<Longrightarrow> intents_ok m \<Longrightarrow> engagements_ok m \<Longrightarrow> requests_ok m \<Longrightarrow> requests_ok m'"
proof (induction rule: market_effect.induct)
  case (published i m d)
  then have "dget (adm_intents m) k = Some j \<Longrightarrow> k \<noteq> ami_intent_id i" for k j by auto
  then show ?case using published.prems(3) published.hyps unfolding requests_ok_def request_ok_def
    by (simp add: dict_get claims_ext_mono) blast
next
  case (requested q m b d)
  then have n: "dget (adm_requests m) (anr_request_id q) = None" by (simp add: check_request_ok)
  let ?m = "m\<lparr>adm_result_claims := d, adm_requests := dput (adm_requests m) (anr_request_id q) (opened q),
          adm_request_targets_by_buyer := dput (adm_request_targets_by_buyer m) (ami_intent_id b)
             (insert (anr_seller_intent_id q) (targets_of m (ami_intent_id b))),
          adm_request_ids_by_result := dput (adm_request_ids_by_result m) (anr_source_result_id q) [anr_request_id q]\<rparr>"
  have new: "request_ok ?m (anr_request_id q) (opened q)"
    using requested.hyps by (auto simp: request_ok_def opened_def dict_get claims_ext_new check_request_ok)
  have old: "request_ok ?m k rec" if "dget (adm_requests m) k = Some rec" for k rec
  proof -
    have ok: "request_ok m k rec" using requested.prems(3) that by (simp add: requests_ok_def)
    then have "anr_source_result_id (rr_request rec) \<noteq> anr_source_result_id q" using requested.hyps(2) by (auto simp: request_ok_def)
    then show ?thesis using ok by (simp add: request_ok_def dict_get claims_ext_mono [OF requested.hyps(7)])
  qed
  have ids: "\<exists>k rec. ids = [k] \<and> dget (adm_requests ?m) k = Some rec \<and> anr_source_result_id (rr_request rec) = r"
    if i: "dget (adm_request_ids_by_result ?m) r = Some ids" for r ids
  proof (cases "r = anr_source_result_id q")
    case True
    then show ?thesis using i by (auto simp: dict_get opened_def)
  next
    case False
    then have "dget (adm_request_ids_by_result m) r = Some ids" using i by (simp add: dict_get)
    then obtain k rec where "ids = [k]" "dget (adm_requests m) k = Some rec" "anr_source_result_id (rr_request rec) = r"
      using requested.prems(3) unfolding requests_ok_def by blast
    then show ?thesis using n by (intro exI [of _ k] exI [of _ rec]) (auto simp: dict_get)
  qed
  show ?case unfolding requests_ok_def using new old ids by (auto simp: dict_get split: if_split_asm)
next
  case (closed m k e rec b s st src r d)
  show ?case by (rule requests_ok_settle [OF closed.prems(3) closed.hyps(4)]) (simp_all add: claims_ext_mono [OF closed.hyps(8)])
next
  case (frozen m k e rec b s actor acc p pr ar d)
  then show ?case unfolding requests_ok_def request_ok_def by (simp add: claims_ext_mono)
next
  case (busied m k rec b s)
  show ?case by (rule requests_ok_settle [OF busied.prems(3) busied.hyps(1)]) simp_all
next
  case (engaged m k rec b s r d)
  show ?case by (rule requests_ok_settle [OF engaged.prems(3) engaged.hyps(1)]) (simp_all add: claims_ext_mono [OF engaged.hyps(8)])
qed

lemma targets_of_cong: "adm_request_targets_by_buyer m' = adm_request_targets_by_buyer m \<Longrightarrow> targets_of m' = targets_of m"
  by (intro ext) (simp add: targets_of_def)

text \<open>Changing a request's status to something no less settled keeps the budget.\<close>

lemma budget_ok_settle:
  assumes "budget_ok m" "dget (adm_requests m) k = Some rec" "rr_request rec' = rr_request rec"
    "unresolved (rr_status rec') \<longrightarrow> unresolved (rr_status rec)"
    "adm_requests m' = dput (adm_requests m) k rec'" "adm_request_targets_by_buyer m' = adm_request_targets_by_buyer m"
    "adm_max_outbound_rfq m' = adm_max_outbound_rfq m"
  shows "budget_ok m'"
proof -
  have t: "targets_of m' = targets_of m" using assms(6) by (rule targets_of_cong)
  have g: "dget (adm_requests m') j = (if j = k then Some rec' else dget (adm_requests m) j)" for j using assms(5) by (simp add: dict_get)
  have "one_at_a_time rec' r" if "one_at_a_time rec r" for r using that assms(3,4) by (auto simp: one_at_a_time_def)
  moreover have "one_at_a_time r rec'" if "one_at_a_time r rec" for r using that assms(3,4) by (auto simp: one_at_a_time_def)
  ultimately show ?thesis using assms(1-3) unfolding budget_ok_def t g assms(7) by (auto split: if_split_asm)
qed

lemma no_unresolved:
  "keys_ok m \<Longrightarrow> \<not> list_ex P (dvalues (adm_requests m)) \<longleftrightarrow> (\<forall>k rec. dget (adm_requests m) k = Some rec \<longrightarrow> \<not> P rec)"
  using dict.vals_get [of "adm_requests m"] unfolding list_ex_iff keys_ok_def by blast

lemma budget_ok_effect: "market_effect m m' \<Longrightarrow> keys_ok m \<Longrightarrow> intents_ok m \<Longrightarrow> engagements_ok m \<Longrightarrow> budget_ok m \<Longrightarrow> budget_ok m'"
proof (induction rule: market_effect.induct)
  case (requested q m b d)
  let ?m = "m\<lparr>adm_result_claims := d, adm_requests := dput (adm_requests m) (anr_request_id q) (opened q),
          adm_request_targets_by_buyer := dput (adm_request_targets_by_buyer m) (ami_intent_id b)
             (insert (anr_seller_intent_id q) (targets_of m (ami_intent_id b))),
          adm_request_ids_by_result := dput (adm_request_ids_by_result m) (anr_source_result_id q) [anr_request_id q]\<rparr>"
  have n: "dget (adm_requests m) (anr_request_id q) = None" using requested.hyps by (simp add: check_request_ok)
  have ids: "ami_intent_id b = anr_buyer_intent_id q" using requested.hyps(3) requested.prems(2) by (auto simp: intents_ok_def)
  have fresh: "anr_seller_intent_id q \<notin> targets_of m (anr_buyer_intent_id q)"
    using requested.hyps(4) requested.prems(2) by (auto simp: check_request_ok intents_ok_def ids)
  have t: "targets_of ?m c = (if c = anr_buyer_intent_id q then insert (anr_seller_intent_id q) (targets_of m c) else targets_of m c)" for c
    by (simp add: targets_of_def dict_get ids)
  have g: "dget (adm_requests ?m) k = (if k = anr_request_id q then Some (opened q) else dget (adm_requests m) k)" for k
    by (simp add: dict_get)
  have old: "\<And>k rec. dget (adm_requests m) k = Some rec \<Longrightarrow> anr_seller_intent_id (rr_request rec) \<in> targets_of m (anr_buyer_intent_id (rr_request rec))"
    using requested.prems(4) by (simp add: budget_ok_def)
  have free: "one_at_a_time rec (opened q) \<and> one_at_a_time (opened q) rec" if "dget (adm_requests m) k = Some rec" for k rec
    using requested.hyps(5) old [OF that] fresh that unfolding no_unresolved [OF requested.prems(1)] ids one_at_a_time_def opened_def by auto
  have card: "finite (targets_of ?m c) \<and> card (targets_of ?m c) \<le> adm_max_outbound_rfq m" for c
    using requested.prems(4) requested.hyps(6) fresh unfolding t by (auto simp: budget_ok_def ids)
  have tgt: "dget (adm_requests m) k = Some rec \<Longrightarrow> anr_buyer_intent_id (rr_request rec) = anr_buyer_intent_id q
      \<Longrightarrow> anr_seller_intent_id (rr_request rec) \<in> targets_of m (anr_buyer_intent_id q)" for k rec
    using old by force
  show ?case
    using requested.prems(4) card free old tgt
    unfolding budget_ok_def g t by (auto simp: opened_def split: if_split_asm)
next
  case (busied m k rec b s)
  show ?case by (rule budget_ok_settle [OF busied.prems(4) busied.hyps(1)]) (simp_all add: busied.hyps unresolved_def)
next
  case (engaged m k rec b s r d)
  show ?case by (rule budget_ok_settle [OF engaged.prems(4) engaged.hyps(1)]) (simp_all add: engaged.hyps unresolved_def)
next
  case (closed m k e rec b s st src r d)
  show ?case by (rule budget_ok_settle [OF closed.prems(4) closed.hyps(4)]) (simp_all add: unresolved_def)
qed (simp_all add: budget_ok_def targets_of_def)

text \<open>An engagement stays consistent while the records it refers to stay.\<close>

lemma engagement_ok_frame:
  assumes "engagement_ok m k e"
    "\<And>r j. dget (adm_engagement_by_selection_result m) r = Some j \<Longrightarrow> dget (adm_engagement_by_selection_result m') r = Some j"
    "\<And>r c. dget (adm_result_claims m) r = Some c \<Longrightarrow> dget (adm_result_claims m') r = Some c"
    "\<And>j i. dget (adm_intents m) j = Some i \<Longrightarrow> dget (adm_intents m') j = Some i"
    "dget (adm_requests m') (ame_request_id e) = dget (adm_requests m) (ame_request_id e)"
  shows "engagement_ok m' k e"
  using assms(1) unfolding engagement_ok_def by (auto simp: assms(2-5))

text \<open>No engagement refers to a request that is still pending or unknown.\<close>

lemma engagement_request:
  assumes "engagements_ok m" "dget (adm_engagements m) k = Some e"
  shows "dget (adm_requests m) (ame_request_id e) \<noteq> None"
    "dget (adm_requests m) (ame_request_id e) = Some rec \<Longrightarrow> rr_status rec \<noteq> Pending"
    "k = ''engagement:'' @ ame_request_id e"
proof -
  have ok: "engagement_ok m k e" using assms by (simp add: engagements_ok_def)
  then show "dget (adm_requests m) (ame_request_id e) \<noteq> None" "k = ''engagement:'' @ ame_request_id e"
    by (auto simp: engagement_ok_def)
  assume "dget (adm_requests m) (ame_request_id e) = Some rec"
  then show "rr_status rec \<noteq> Pending" using ok by (auto simp add: engagement_ok_def split: if_splits)
qed

lemma engagements_ok_effect:
  "market_effect m m' \<Longrightarrow> intents_ok m \<Longrightarrow> requests_ok m \<Longrightarrow> engagements_ok m \<Longrightarrow> engagements_ok m'"
proof (induction rule: market_effect.induct)
  case (published i m d)
  let ?m = "m\<lparr>adm_result_claims := d, adm_intents := dput (adm_intents m) (ami_intent_id i) i,
          adm_intent_by_result := dput (adm_intent_by_result m) (ami_source_result_id i) (ami_intent_id i),
          adm_intent_by_participant_round := dput (adm_intent_by_participant_round m) (slot_key i) (ami_intent_id i)\<rparr>"
  have "engagement_ok ?m k e" if "engagement_ok m k e" for k e
    using that by (rule engagement_ok_frame) (use published.hyps in \<open>auto simp: dict_get claims_ext_mono\<close>)
  then show ?case using published.prems(3) by (simp add: engagements_ok_def)
next
  case (requested q m b d)
  let ?m = "m\<lparr>adm_result_claims := d, adm_requests := dput (adm_requests m) (anr_request_id q) (opened q),
          adm_request_targets_by_buyer := dput (adm_request_targets_by_buyer m) (ami_intent_id b)
             (insert (anr_seller_intent_id q) (targets_of m (ami_intent_id b))),
          adm_request_ids_by_result := dput (adm_request_ids_by_result m) (anr_source_result_id q) [anr_request_id q]\<rparr>"
  have n: "dget (adm_requests m) (anr_request_id q) = None" using requested.hyps by (simp add: check_request_ok)
  have r: "ame_request_id e \<noteq> anr_request_id q" if "dget (adm_engagements m) k = Some e" for k e
    using engagement_request(1) [OF requested.prems(3) that] n by auto
  have "engagement_ok ?m k e" if "dget (adm_engagements m) k = Some e" for k e
  proof (rule engagement_ok_frame)
    show "engagement_ok m k e" using requested.prems(3) that by (simp add: engagements_ok_def)
  qed (use requested.hyps r [OF that] in \<open>auto simp: dict_get claims_ext_mono\<close>)
  moreover have "dget (adm_engagements m) (''engagement:'' @ anr_request_id q) = None"
  proof (rule ccontr)
    assume "dget (adm_engagements m) (''engagement:'' @ anr_request_id q) \<noteq> None"
    then obtain e where e: "dget (adm_engagements m) (''engagement:'' @ anr_request_id q) = Some e" by blast
    show False using engagement_request(3) [OF requested.prems(3) e] r [OF e] by simp
  qed
  ultimately show ?case using requested.prems(3) by (simp add: engagements_ok_def dict_get)
next
  case (busied m k rec b s)
  let ?m = "m\<lparr>adm_requests := dput (adm_requests m) k (rec\<lparr>rr_status := CounterpartyBusy\<rparr>)\<rparr>"
  have "engagement_ok ?m j e" if "dget (adm_engagements m) j = Some e" for j e
  proof (rule engagement_ok_frame)
    show "engagement_ok m j e" using busied.prems(3) that by (simp add: engagements_ok_def)
    have "ame_request_id e \<noteq> k" using engagement_request(2) [OF busied.prems(3) that] busied.hyps by auto
    then show "dget (adm_requests ?m) (ame_request_id e) = dget (adm_requests m) (ame_request_id e)" by (simp add: dict_get)
  qed simp_all
  then show ?case using busied.prems(3) by (simp add: engagements_ok_def dict_get)
next
  case (engaged m k rec b s r d)
  let ?k = "''engagement:'' @ k"
  let ?m = "m\<lparr>adm_result_claims := d, adm_engagements := dput (adm_engagements m) ?k (engagement_of k r b s),
          adm_engagement_by_selection_result := dput (adm_engagement_by_selection_result m) r ?k,
          adm_reserved_slots := dput (dput (adm_reserved_slots m) (slot_key b) ?k) (slot_key s) ?k,
          adm_requests := dput (adm_requests m) k (rec\<lparr>rr_status := Engaged, rr_engagement_id := Some ?k\<rparr>)\<rparr>"
  have ids: "ami_intent_id b = anr_buyer_intent_id (rr_request rec)" "ami_intent_id s = anr_seller_intent_id (rr_request rec)"
    using engaged.prems(1) engaged.hyps by (auto simp: intents_ok_def)
  have new: "engagement_ok ?m ?k (engagement_of k r b s)"
    using engaged.hyps by (simp add: engagement_ok_def engagement_of_def live_def ids dict_get claims_ext_new)
  have old: "engagement_ok ?m j e" if "dget (adm_engagements m) j = Some e" for j e
  proof (rule engagement_ok_frame)
    show "engagement_ok m j e" using engaged.prems(3) that by (simp add: engagements_ok_def)
    have "ame_request_id e \<noteq> k" using engagement_request(2) [OF engaged.prems(3) that] engaged.hyps by auto
    then show "dget (adm_requests ?m) (ame_request_id e) = dget (adm_requests m) (ame_request_id e)" by (simp add: dict_get)
  qed (use engaged.hyps in \<open>auto simp: dict_get claims_ext_mono\<close>)
  have none: "dget (adm_engagements m) ?k = None" using engaged.prems(3) engaged.hyps(1,2) by (simp add: engagements_ok_def)
  show ?case unfolding engagements_ok_def
  proof (intro conjI allI impI)
    fix j e assume "dget (adm_engagements ?m) j = Some e"
    then show "engagement_ok ?m j e" using new old by (cases "j = ?k") (auto simp: dict_get)
  next
    fix j rec' assume "dget (adm_requests ?m) j = Some rec'" "rr_status rec' = Pending"
    then show "dget (adm_engagements ?m) (''engagement:'' @ j) = None"
      using engaged.prems(3) by (auto simp: engagements_ok_def dict_get split: if_split_asm)
  next
    fix r' j assume j: "dget (adm_engagement_by_selection_result ?m) r' = Some j"
    show "\<exists>e. dget (adm_engagements ?m) j = Some e \<and> ame_selection_result_id e = r'"
    proof (cases "r' = r")
      case True
      then show ?thesis using j by (auto simp: dict_get engagement_of_def)
    next
      case False
      then have "dget (adm_engagement_by_selection_result m) r' = Some j" using j by (simp add: dict_get)
      then obtain e where "dget (adm_engagements m) j = Some e" "ame_selection_result_id e = r'"
        using engaged.prems(3) unfolding engagements_ok_def by blast
      then show ?thesis using none by (intro exI [of _ e]) (auto simp: dict_get)
    qed
  qed
next
  case (closed m k e rec b s st src r d)
  let ?e = "e\<lparr>ame_status := st, ame_terminal_source_result_id := src\<rparr>"
  let ?m = "m\<lparr>adm_result_claims := d, adm_engagements := dput (adm_engagements m) k ?e,
          adm_requests := dput (adm_requests m) (ame_request_id e) (rec\<lparr>rr_status := RequestRejected\<rparr>),
          adm_reserved_slots := release_slot k (slot_key s) (release_slot k (slot_key b) (adm_reserved_slots m))\<rparr>"
  have ok: "engagement_ok m k e" using closed.prems(3) closed.hyps(1) by (simp add: engagements_ok_def)
  have new: "engagement_ok ?m k ?e"
    using ok closed.hyps(4,7) claims_ext_new [OF closed.hyps(8)]
    by (auto simp: engagement_ok_def live_def dict_get claims_ext_mono [OF closed.hyps(8)])
  have old: "engagement_ok ?m j x" if "dget (adm_engagements m) j = Some x" "j \<noteq> k" for j x
  proof (rule engagement_ok_frame)
    show "engagement_ok m j x" using closed.prems(3) that by (simp add: engagements_ok_def)
    have "ame_request_id x \<noteq> ame_request_id e"
      using engagement_request(3) [OF closed.prems(3)] that closed.hyps(1) by metis
    then show "dget (adm_requests ?m) (ame_request_id x) = dget (adm_requests m) (ame_request_id x)" by (simp add: dict_get)
  qed (use closed.hyps in \<open>auto simp: dict_get claims_ext_mono\<close>)
  show ?case unfolding engagements_ok_def
  proof (intro conjI allI impI)
    fix j x assume "dget (adm_engagements ?m) j = Some x"
    then show "engagement_ok ?m j x" using new old by (cases "j = k") (auto simp: dict_get)
  next
    fix j rec' assume j: "dget (adm_requests ?m) j = Some rec'" "rr_status rec' = Pending"
    then have "j \<noteq> ame_request_id e" by (auto simp: dict_get)
    then have "''engagement:'' @ j \<noteq> k" using engagement_request(3) [OF closed.prems(3) closed.hyps(1)] by simp
    moreover have "dget (adm_engagements m) (''engagement:'' @ j) = None"
      using j \<open>j \<noteq> ame_request_id e\<close> closed.prems(3) by (simp add: engagements_ok_def dict_get)
    ultimately show "dget (adm_engagements ?m) (''engagement:'' @ j) = None" by (simp add: dict_get)
  next
    fix r' j assume "dget (adm_engagement_by_selection_result ?m) r' = Some j"
    then have "dget (adm_engagement_by_selection_result m) r' = Some j" by simp
    then obtain x where "dget (adm_engagements m) j = Some x" "ame_selection_result_id x = r'"
      using closed.prems(3) unfolding engagements_ok_def by blast
    then show "\<exists>x. dget (adm_engagements ?m) j = Some x \<and> ame_selection_result_id x = r'"
      using closed.hyps(1) by (cases "j = k") (simp_all add: dict_get)
  qed
next
  case (frozen m k e rec b s actor acc p pr ar d)
  let ?e = "e\<lparr>ame_status := AcceptedPendingSettlement, ame_terminal_source_result_id := Some ar\<rparr>"
  have ok: "engagement_ok m k e" using frozen.prems(3) frozen.hyps(1) by (simp add: engagements_ok_def)
  have other: "engagement_ok m' j x" if "engagement_ok m j x" "adm_intents m' = adm_intents m" "adm_requests m' = adm_requests m"
    "adm_engagement_by_selection_result m' = adm_engagement_by_selection_result m" "adm_result_claims m' = d" for j x m'
    using that(1) by (rule engagement_ok_frame) (use that frozen.hyps in \<open>auto simp: claims_ext_mono\<close>)
  have new: "engagement_ok m' k ?e" if "engagement_ok m' k e" for m'
    using that frozen.hyps(2) by (auto simp: engagement_ok_def live_def)
  show ?case unfolding engagements_ok_def
  proof (intro conjI allI impI, goal_cases)
    case (1 j x)
    then show ?case
    proof (cases "j = k")
      case True
      then have "x = ?e" using 1 by (simp add: dict_get)
      then show ?thesis using True by (simp only:) (rule new, rule other [OF ok], simp_all)
    next
      case False
      then have "engagement_ok m j x" using 1 frozen.prems(3) by (simp add: engagements_ok_def dict_get)
      then show ?thesis by (rule other) simp_all
    qed
  next
    case (2 j rec')
    then have "dget (adm_engagements m) (''engagement:'' @ j) = None" using frozen.prems(3) by (simp add: engagements_ok_def)
    then show ?case using frozen.hyps(1) by (auto simp: dict_get)
  next
    case (3 r' j)
    then have "dget (adm_engagement_by_selection_result m) r' = Some j" by simp
    then obtain x where "dget (adm_engagements m) j = Some x" "ame_selection_result_id x = r'"
      using frozen.prems(3) unfolding engagements_ok_def by blast
    then show ?case using frozen.hyps(1) by (cases "j = k") (simp_all add: dict_get)
  qed
qed

lemma engagement_slots_two:
  "dget (adm_intents m) (ame_buyer_intent_id e) = Some b \<Longrightarrow> dget (adm_intents m) (ame_seller_intent_id e) = Some s
   \<Longrightarrow> engagement_slots m e = {slot_key b, slot_key s}"
  by (auto simp: engagement_slots_def)

lemma engagement_slots_cong:
  "adm_intents m' = adm_intents m \<Longrightarrow> ame_buyer_intent_id e' = ame_buyer_intent_id e \<Longrightarrow> ame_seller_intent_id e' = ame_seller_intent_id e
   \<Longrightarrow> engagement_slots m' e' = engagement_slots m e"
  by (simp add: engagement_slots_def)

lemma release_slot_get: "dget (release_slot k p d) q = (if q = p \<and> dget d p = Some k then None else dget d q)"
  by (simp add: release_slot_def dict_get)

lemma slots_ok_effect:
  "market_effect m m' \<Longrightarrow> engagements_ok m \<Longrightarrow> slots_ok m \<Longrightarrow> intents_ok m \<Longrightarrow> slots_ok m'"
proof (induction rule: market_effect.induct)
  case (published i m d)
  let ?m = "m\<lparr>adm_result_claims := d, adm_intents := dput (adm_intents m) (ami_intent_id i) i,
          adm_intent_by_result := dput (adm_intent_by_result m) (ami_source_result_id i) (ami_intent_id i),
          adm_intent_by_participant_round := dput (adm_intent_by_participant_round m) (slot_key i) (ami_intent_id i)\<rparr>"
  have "engagement_slots ?m e = engagement_slots m e" if e: "dget (adm_engagements m) k = Some e" for k e
  proof -
    obtain b s where "dget (adm_intents m) (ame_buyer_intent_id e) = Some b" "dget (adm_intents m) (ame_seller_intent_id e) = Some s"
      using e published.prems(1) unfolding engagements_ok_def engagement_ok_def by blast
    moreover from this have "dget (adm_intents ?m) (ame_buyer_intent_id e) = Some b" "dget (adm_intents ?m) (ame_seller_intent_id e) = Some s"
      using published.hyps(2) by (auto simp: dict_get)
    ultimately show ?thesis by (simp only: engagement_slots_two)
  qed
  then show ?case using published.prems(2) unfolding slots_ok_def by auto
next
  case (engaged m k rec b s r d)
  let ?k = "''engagement:'' @ k"
  let ?m = "m\<lparr>adm_result_claims := d, adm_engagements := dput (adm_engagements m) ?k (engagement_of k r b s),
          adm_engagement_by_selection_result := dput (adm_engagement_by_selection_result m) r ?k,
          adm_reserved_slots := dput (dput (adm_reserved_slots m) (slot_key b) ?k) (slot_key s) ?k,
          adm_requests := dput (adm_requests m) k (rec\<lparr>rr_status := Engaged, rr_engagement_id := Some ?k\<rparr>)\<rparr>"
  have none: "dget (adm_engagements m) ?k = None" using engaged.prems(1) engaged.hyps(1,2) by (simp add: engagements_ok_def)
  have free: "dget (adm_reserved_slots m) (slot_key b) = None" "dget (adm_reserved_slots m) (slot_key s) = None"
    using engaged.hyps(5,6) by (simp_all add: is_reserved_def)
  have sl: "engagement_slots ?m e = engagement_slots m e" for e by (rule engagement_slots_cong) simp_all
  have nk: "dget (adm_reserved_slots m) p \<noteq> Some ?k" for p using engaged.prems(2) none unfolding slots_ok_def by (metis option.distinct(1))
  have new: "engagement_slots m (engagement_of k r b s) = {slot_key b, slot_key s}"
    using engaged.hyps engaged.prems(3) by (intro engagement_slots_two) (auto simp: engagement_of_def intents_ok_def)
  have old: "dget (adm_reserved_slots m) p = Some j \<longleftrightarrow> (\<exists>e. dget (adm_engagements m) j = Some e \<and> live e \<and> p \<in> engagement_slots m e)" for p j
    using engaged.prems(2) unfolding slots_ok_def by blast
  have lv: "live (engagement_of k r b s)" by (simp add: live_def engagement_of_def)
  show ?case unfolding slots_ok_def sl
  proof (intro allI)
    fix p j
    show "dget (adm_reserved_slots ?m) p = Some j \<longleftrightarrow> (\<exists>e. dget (adm_engagements ?m) j = Some e \<and> live e \<and> p \<in> engagement_slots m e)"
      using old [of p j] new lv free nk [of p] by (cases "j = ?k") (auto simp: dict_get simp del: append.simps)
  qed
next
  case (closed m k e rec b s st src r d)
  let ?e = "e\<lparr>ame_status := st, ame_terminal_source_result_id := src\<rparr>"
  let ?m = "m\<lparr>adm_result_claims := d, adm_engagements := dput (adm_engagements m) k ?e,
          adm_requests := dput (adm_requests m) (ame_request_id e) (rec\<lparr>rr_status := RequestRejected\<rparr>),
          adm_reserved_slots := release_slot k (slot_key s) (release_slot k (slot_key b) (adm_reserved_slots m))\<rparr>"
  have sl: "engagement_slots ?m x = engagement_slots m x" for x by (rule engagement_slots_cong) simp_all
  have dead: "\<not> live ?e" using closed.hyps(7) by (auto simp: live_def)
  have two: "engagement_slots m e = {slot_key b, slot_key s}" using closed.hyps by (intro engagement_slots_two)
  have old: "dget (adm_reserved_slots m) p = Some j \<longleftrightarrow> (\<exists>x. dget (adm_engagements m) j = Some x \<and> live x \<and> p \<in> engagement_slots m x)" for p j
    using closed.prems(2) unfolding slots_ok_def by blast
  show ?case unfolding slots_ok_def sl
  proof (intro allI)
    fix p j
    show "dget (adm_reserved_slots ?m) p = Some j \<longleftrightarrow> (\<exists>x. dget (adm_engagements ?m) j = Some x \<and> live x \<and> p \<in> engagement_slots m x)"
    proof (cases "j = k")
      case True
      then show ?thesis using dead old [of p k] closed.hyps(1) two by (auto simp: dict_get release_slot_get)
    next
      case False
      then show ?thesis using old [of p j] by (auto simp: dict_get release_slot_get)
    qed
  qed
next
  case (frozen m k e rec b s actor acc p pr ar d)
  have old: "dget (adm_reserved_slots m) p = Some j \<longleftrightarrow> (\<exists>x. dget (adm_engagements m) j = Some x \<and> live x \<and> p \<in> engagement_slots m x)" for p j
    using frozen.prems(2) unfolding slots_ok_def by blast
  show ?case using old frozen.hyps(1,2) unfolding slots_ok_def by (auto simp: dict_get live_def engagement_slots_def)
qed (simp_all add: slots_ok_def engagement_slots_def)

lemma deal_ok_frame:
  assumes "deal_ok m k d"
    "\<And>r c. dget (adm_result_claims m) r = Some c \<Longrightarrow> dget (adm_result_claims m') r = Some c"
    "\<And>j i. dget (adm_intents m) j = Some i \<Longrightarrow> dget (adm_intents m') j = Some i"
    "\<And>e. dget (adm_engagements m) (amd_engagement_id d) = Some e \<Longrightarrow> ame_status e = AcceptedPendingSettlement \<Longrightarrow> dget (adm_engagements m') (amd_engagement_id d) = Some e"
    "\<And>j rec. dget (adm_requests m) j = Some rec \<Longrightarrow> \<exists>rec'. dget (adm_requests m') j = Some rec' \<and> rr_request rec' = rr_request rec"
  shows "deal_ok m' k d"
proof -
  obtain e rec b s where f: "dget (adm_engagements m) (amd_engagement_id d) = Some e" "ame_status e = AcceptedPendingSettlement"
      "dget (adm_requests m) (ame_request_id e) = Some rec" "dget (adm_intents m) (ame_buyer_intent_id e) = Some b"
      "dget (adm_intents m) (ame_seller_intent_id e) = Some s"
    using assms(1) unfolding deal_ok_def by blast
  obtain rec' where rec': "dget (adm_requests m') (ame_request_id e) = Some rec'" "rr_request rec' = rr_request rec" using assms(5) [OF f(3)] by blast
  show ?thesis using assms(1) f rec' unfolding deal_ok_def by (simp add: assms(2-4) split: if_splits)
qed

lemma deals_ok_effect:
  "market_effect m m' \<Longrightarrow> engagements_ok m \<Longrightarrow> deals_ok m \<Longrightarrow> deals_ok m'"
proof (induction rule: market_effect.induct)
  case (published i m d)
  have "deal_ok (m\<lparr>adm_result_claims := d, adm_intents := dput (adm_intents m) (ami_intent_id i) i,
          adm_intent_by_result := dput (adm_intent_by_result m) (ami_source_result_id i) (ami_intent_id i),
          adm_intent_by_participant_round := dput (adm_intent_by_participant_round m) (slot_key i) (ami_intent_id i)\<rparr>) k x"
    if "deal_ok m k x" for k x
    using that by (rule deal_ok_frame) (use published.hyps in \<open>auto simp: dict_get claims_ext_mono\<close>)
  then show ?case using published.prems(2) by (simp add: deals_ok_def)
next
  case (requested q m b d)
  have n: "dget (adm_requests m) (anr_request_id q) = None" using requested.hyps by (simp add: check_request_ok)
  have "deal_ok (m\<lparr>adm_result_claims := d, adm_requests := dput (adm_requests m) (anr_request_id q) (opened q),
          adm_request_targets_by_buyer := dput (adm_request_targets_by_buyer m) (ami_intent_id b)
             (insert (anr_seller_intent_id q) (targets_of m (ami_intent_id b))),
          adm_request_ids_by_result := dput (adm_request_ids_by_result m) (anr_source_result_id q) [anr_request_id q]\<rparr>) k x"
    if "deal_ok m k x" for k x
    using that by (rule deal_ok_frame) (use requested.hyps n in \<open>auto simp: dict_get claims_ext_mono\<close>)
  then show ?case using requested.prems(2) by (simp add: deals_ok_def)
next
  case (busied m k rec b s)
  have "deal_ok (m\<lparr>adm_requests := dput (adm_requests m) k (rec\<lparr>rr_status := CounterpartyBusy\<rparr>)\<rparr>) j x" if "deal_ok m j x" for j x
    using that by (rule deal_ok_frame) (use busied.hyps in \<open>auto simp: dict_get\<close>)
  then show ?case using busied.prems(2) by (simp add: deals_ok_def)
next
  case (engaged m k rec b s r d)
  let ?k = "''engagement:'' @ k"
  have none: "dget (adm_engagements m) ?k = None" using engaged.prems(1) engaged.hyps(1,2) by (simp add: engagements_ok_def)
  have "deal_ok (m\<lparr>adm_result_claims := d, adm_engagements := dput (adm_engagements m) ?k (engagement_of k r b s),
          adm_engagement_by_selection_result := dput (adm_engagement_by_selection_result m) r ?k,
          adm_reserved_slots := dput (dput (adm_reserved_slots m) (slot_key b) ?k) (slot_key s) ?k,
          adm_requests := dput (adm_requests m) k (rec\<lparr>rr_status := Engaged, rr_engagement_id := Some ?k\<rparr>)\<rparr>) j x"
    if "deal_ok m j x" for j x
    using that by (rule deal_ok_frame) (use engaged.hyps none in \<open>auto simp: dict_get claims_ext_mono\<close>)
  then show ?case using engaged.prems(2) by (auto simp: deals_ok_def dict_get engagement_of_def split: if_split_asm)
next
  case (closed m k e rec b s st src r d)
  have "deal_ok (m\<lparr>adm_result_claims := d, adm_engagements := dput (adm_engagements m) k (e\<lparr>ame_status := st, ame_terminal_source_result_id := src\<rparr>),
          adm_requests := dput (adm_requests m) (ame_request_id e) (rec\<lparr>rr_status := RequestRejected\<rparr>),
          adm_reserved_slots := release_slot k (slot_key s) (release_slot k (slot_key b) (adm_reserved_slots m))\<rparr>) j x"
    if "deal_ok m j x" for j x
    using that by (rule deal_ok_frame) (use closed.hyps in \<open>auto simp: dict_get claims_ext_mono\<close>)
  then show ?case using closed.prems(2) closed.hyps(7) by (auto simp: deals_ok_def dict_get split: if_split_asm)
next
  case (frozen m k e rec b s actor acc p pr ar d)
  let ?e = "e\<lparr>ame_status := AcceptedPendingSettlement, ame_terminal_source_result_id := Some ar\<rparr>"
  let ?d = "\<lparr>amd_deal_id = ''deal:'' @ k, amd_engagement_id = k, amd_request_id = ame_request_id e,
                     amd_buyer_participant_id = ame_buyer_participant_id e,
                     amd_seller_participant_id = ame_seller_participant_id e, amd_good = ame_good e,
                     amd_quantity = 1, amd_unit_price_atomic = p,
                     amd_latest_proposal_result_id = pr, amd_acceptance_result_id = ar,
                     amd_accepted_by_participant_id = acc\<rparr>"
  let ?m = "m\<lparr>adm_result_claims := d, adm_deals := dput (adm_deals m) (''deal:'' @ k) ?d,
          adm_engagements := dput (adm_engagements m) k ?e\<rparr>"
  have "engagement_ok m k e" using frozen.prems(1) frozen.hyps(1) by (simp add: engagements_ok_def)
  then have parties: "ame_buyer_participant_id e = ami_participant_id b" "ame_seller_participant_id e = ami_participant_id s" "ame_good e = ami_good b"
    using frozen.hyps(5,6) by (auto simp: engagement_ok_def)
  have acc: "acc \<in> {ami_participant_id b, ami_participant_id s}" "actor = ami_participant_id b \<Longrightarrow> acc = ami_participant_id s"
    using frozen.hyps(7) parties by (auto simp: doubleton_eq_iff)
  have ext: "dget d ar = Some (''acceptance'', k)" "pr \<noteq> anr_source_result_id (rr_request rec) \<Longrightarrow> dget d pr = Some (''proposal'', k)"
    using claims_ext_new [OF frozen.hyps(13)] by simp_all
  have new: "deal_ok ?m (''deal:'' @ k) ?d"
    using frozen.hyps(4-6,8-12) parties acc ext by (auto simp: deal_ok_def dict_get)
  have old: "deal_ok ?m j x" if "deal_ok m j x" "j \<noteq> ''deal:'' @ k" for j x
    using that(1) by (rule deal_ok_frame) (use frozen.hyps that in \<open>auto simp: dict_get claims_ext_mono deal_ok_def\<close>)
  show ?case using new old frozen.prems(2) unfolding deals_ok_def by (auto simp: dict_get split: if_split_asm)
qed

lemma market_inv_effect: "market_effect m m' \<Longrightarrow> market_inv m \<Longrightarrow> market_inv m'"
  unfolding market_inv_def
  using keys_ok_effect intents_ok_effect requests_ok_effect budget_ok_effect engagements_ok_effect slots_ok_effect deals_ok_effect by blast

section \<open>Runs\<close>

datatype market_op =
    PublishIntent AgentMarketIntent
  | SubmitRequests "AgentNegotiationRequest list"
  | EngageRequest string string string
  | CloseEngagement string CloseStatus "string option"
  | FreezeDeal string string string string string int

text \<open>A call on the market, and the market it leaves behind, whether or not it raises. Intents and requests
  are objects that their constructors accepted.\<close>

fun market_step :: "market_op \<Rightarrow> AgentDrivenMarket \<Rightarrow> AgentDrivenMarket" where
  "market_step (PublishIntent i) m = snd (publish_intent i m)"
| "market_step (SubmitRequests qs) m = snd (submit_requests qs m)"
| "market_step (EngageRequest actor k r) m = snd (engage_request actor k r m)"
| "market_step (CloseEngagement k st src) m = snd (close_engagement k st src m)"
| "market_step (FreezeDeal k pr actor ar acc p) m = snd (freeze_deal k pr actor ar acc p m)"

fun constructed :: "market_op \<Rightarrow> bool" where
  "constructed (PublishIntent i) = (AgentMarketIntent_post_init i = Inr i)"
| "constructed (SubmitRequests qs) = list_all (\<lambda>q. AgentNegotiationRequest_post_init q = Inr q) qs"
| "constructed _ = True"

lemma market_step_effect: "constructed c \<Longrightarrow> market_inv m \<Longrightarrow> market_step c m = m \<or> market_effect m (market_step c m)"
proof (cases c)
  case (PublishIntent i)
  then show "constructed c \<Longrightarrow> market_inv m \<Longrightarrow> ?thesis" using publish_intent_effect [of i m "fst (publish_intent i m)" "snd (publish_intent i m)"] by auto
next
  case (SubmitRequests qs)
  then show "constructed c \<Longrightarrow> market_inv m \<Longrightarrow> ?thesis"
    using submit_requests_effect [of qs m "fst (submit_requests qs m)" "snd (submit_requests qs m)"] market_inv_links by auto
next
  case (EngageRequest a k r)
  then show "constructed c \<Longrightarrow> market_inv m \<Longrightarrow> ?thesis"
    using engage_request_effect [of a k r m "fst (engage_request a k r m)" "snd (engage_request a k r m)"] market_inv_links by auto
next
  case (CloseEngagement k st src)
  then show "constructed c \<Longrightarrow> market_inv m \<Longrightarrow> ?thesis"
    using close_engagement_effect [of k st src m "fst (close_engagement k st src m)" "snd (close_engagement k st src m)"] market_inv_links by auto
next
  case (FreezeDeal k pr a ar acc p)
  then show "constructed c \<Longrightarrow> market_inv m \<Longrightarrow> ?thesis"
    using freeze_deal_effect [of k pr a ar acc p m "fst (freeze_deal k pr a ar acc p m)" "snd (freeze_deal k pr a ar acc p m)"] by auto
qed

interpretation market: invariant_machine market_step "\<lambda>c _. constructed c" market_inv
  using market_step_effect market_inv_effect by unfold_locales metis

lemma market_admissible: "list_all constructed cs \<Longrightarrow> market.admissible cs m"
  by (induction cs arbitrary: m) auto

definition market_after :: "int \<Rightarrow> market_op list \<Rightarrow> AgentDrivenMarket result" where
  "market_after n cs = bindR (AgentDrivenMarket_new n) (\<lambda>m. Inr (fold market_step cs m))"

lemma market_after_inv: "market_after n cs = Inr m \<Longrightarrow> list_all constructed cs \<Longrightarrow> market_inv m"
  unfolding market_after_def bindR_Inr_iff using new_market_inv market.run_inv market_admissible by blast

end
