(* ===== verification/Arena_A2A_Properties.thy ===== *)
theory Arena_A2A_Properties
  imports Arena_A2A_Invariant
begin

text \<open>
  What the invariant gives for every market that calls can reach: exclusive slots, fair deals, one
  action per result, the request budget, harmless errors, safe repetition, the exact public directory, and
  the refinement of a reservation book.
\<close>

section \<open>Properties of every reachable market\<close>

lemma live_slots_unique:
  assumes "market_inv m" "dget (adm_engagements m) k = Some e" "live e" "dget (adm_engagements m) k' = Some e'" "live e'"
    "p \<in> engagement_slots m e" "p \<in> engagement_slots m e'"
  shows "k = k'"
proof -
  have "slots_ok m" using assms(1) by (simp add: market_inv_def)
  then have "dget (adm_reserved_slots m) p = Some k" "dget (adm_reserved_slots m) p = Some k'"
    using assms(2-7) unfolding slots_ok_def by blast+
  then show ?thesis by simp
qed

text \<open>Property C1: in every market reached by any sequence of calls, a participant's round slot shows an engagement
  exactly when that engagement is active or accepted and the participant is its buyer or seller; two
  live engagements never share a participant in a round.\<close>

theorem market_slots_exclusive:
  assumes "market_after n cs = Inr m" "list_all constructed cs"
  shows "(\<forall>g r p k. slot_engagement m g r p = Some k \<longleftrightarrow>
       (\<exists>e. dget (adm_engagements m) k = Some e \<and> live e \<and> (g, r, p) \<in> engagement_slots m e))
     \<and> (\<forall>k e k' e'. dget (adm_engagements m) k = Some e \<and> live e \<and> dget (adm_engagements m) k' = Some e' \<and> live e' \<and> k \<noteq> k' \<longrightarrow>
          engagement_slots m e \<inter> engagement_slots m e' = {})"
proof -
  have inv: "market_inv m" using assms by (rule market_after_inv)
  then have "slots_ok m" by (simp add: market_inv_def)
  then show ?thesis using live_slots_unique [OF inv] unfolding slots_ok_def slot_engagement_def by blast
qed

lemma counterparties_differ: "validate_counterparties b s = Inr () \<longleftrightarrow> ami_side b = Buy \<and> ami_side s = Sell
    \<and> ami_participant_id b \<noteq> ami_participant_id s \<and> ami_game_id b = ami_game_id s \<and> ami_round_id b = ami_round_id s
    \<and> ami_good b = ami_good s \<and> ami_quantity b = ami_quantity s \<and> ami_limit_price_atomic s \<le> ami_limit_price_atomic b"
  by (auto simp: validate_counterparties_def split: if_splits)

lemma deal_parties:
  assumes inv: "market_inv m" and d: "dget (adm_deals m) k = Some d"
  obtains b s where "b \<in> set (dvalues (adm_intents m))" "s \<in> set (dvalues (adm_intents m))" "validate_counterparties b s = Inr ()"
    "amd_buyer_participant_id d = ami_participant_id b" "amd_seller_participant_id d = ami_participant_id s" "amd_good d = ami_good b"
    "ami_limit_price_atomic s \<le> amd_unit_price_atomic d" "amd_unit_price_atomic d \<le> ami_limit_price_atomic b"
    "amd_accepted_by_participant_id d \<in> {ami_participant_id b, ami_participant_id s}"
proof -
  have ok: "deal_ok m k d" "engagements_ok m" "requests_ok m" "keys_ok m" using inv d by (simp_all add: market_inv_def deals_ok_def)
  then obtain e rec b s where f: "dget (adm_engagements m) (amd_engagement_id d) = Some e"
      "dget (adm_requests m) (ame_request_id e) = Some rec" "dget (adm_intents m) (ame_buyer_intent_id e) = Some b"
      "dget (adm_intents m) (ame_seller_intent_id e) = Some s" "amd_buyer_participant_id d = ami_participant_id b"
      "amd_seller_participant_id d = ami_participant_id s" "amd_good d = ami_good b" "ami_limit_price_atomic s \<le> amd_unit_price_atomic d"
      "amd_unit_price_atomic d \<le> ami_limit_price_atomic b" "amd_accepted_by_participant_id d \<in> {ami_participant_id b, ami_participant_id s}"
    unfolding deal_ok_def by blast
  have "engagement_ok m (amd_engagement_id d) e" using f(1) ok(2) by (simp add: engagements_ok_def)
  then have "ame_buyer_intent_id e = anr_buyer_intent_id (rr_request rec)" "ame_seller_intent_id e = anr_seller_intent_id (rr_request rec)"
    using f(2) by (auto simp: engagement_ok_def)
  moreover have "request_ok m (ame_request_id e) rec" using f(2) ok(3) by (simp add: requests_ok_def)
  ultimately have "validate_counterparties b s = Inr ()" using f(3,4) by (auto simp: request_ok_def)
  moreover have "b \<in> set (dvalues (adm_intents m))" "s \<in> set (dvalues (adm_intents m))"
    using f(3,4) ok(4) dict.vals_get [of "adm_intents m"] unfolding keys_ok_def by blast+
  ultimately show ?thesis using that f(5-10) by blast
qed

text \<open>Property C10: every frozen deal is between two intents of the market that share game, round and good, one buying
  and one selling, of different participants; its positive price lies within both private limits, one
  of the two parties accepted it, and the proposal and the acceptance come from different results.\<close>

theorem market_deals_fair:
  assumes "market_after n cs = Inr m" "list_all constructed cs" "dget (adm_deals m) k = Some d"
  shows "\<exists>b s. b \<in> set (dvalues (adm_intents m)) \<and> s \<in> set (dvalues (adm_intents m)) \<and> ami_side b = Buy \<and> ami_side s = Sell
     \<and> ami_game_id b = ami_game_id s \<and> ami_round_id b = ami_round_id s \<and> amd_good d = ami_good b \<and> amd_good d = ami_good s
     \<and> amd_buyer_participant_id d = ami_participant_id b \<and> amd_seller_participant_id d = ami_participant_id s
     \<and> amd_buyer_participant_id d \<noteq> amd_seller_participant_id d
     \<and> 0 < amd_unit_price_atomic d \<and> ami_limit_price_atomic s \<le> amd_unit_price_atomic d \<and> amd_unit_price_atomic d \<le> ami_limit_price_atomic b
     \<and> amd_accepted_by_participant_id d \<in> {amd_buyer_participant_id d, amd_seller_participant_id d}
     \<and> amd_latest_proposal_result_id d \<noteq> amd_acceptance_result_id d"
proof -
  have inv: "market_inv m" using assms(1,2) by (rule market_after_inv)
  obtain b s where p: "b \<in> set (dvalues (adm_intents m))" "s \<in> set (dvalues (adm_intents m))" "validate_counterparties b s = Inr ()"
    "amd_buyer_participant_id d = ami_participant_id b" "amd_seller_participant_id d = ami_participant_id s" "amd_good d = ami_good b"
    "ami_limit_price_atomic s \<le> amd_unit_price_atomic d" "amd_unit_price_atomic d \<le> ami_limit_price_atomic b"
    "amd_accepted_by_participant_id d \<in> {ami_participant_id b, ami_participant_id s}"
    using inv assms(3) by (rule deal_parties)
  have "deal_ok m k d" using inv assms(3) by (simp add: market_inv_def deals_ok_def)
  then have "0 < amd_unit_price_atomic d" "amd_latest_proposal_result_id d \<noteq> amd_acceptance_result_id d" unfolding deal_ok_def by blast+
  then show ?thesis using p by (intro exI [of _ b] exI [of _ s]) (simp add: counterparties_differ)
qed

subsection \<open>One result authors one action\<close>

text \<open>The actions on record, with the result that authored them.\<close>

inductive authored :: "AgentDrivenMarket \<Rightarrow> string \<Rightarrow> string \<times> string \<Rightarrow> bool" for m where
  by_intent: "dget (adm_intents m) k = Some i \<Longrightarrow> authored m (ami_source_result_id i) (''intent'', k)"
| by_request: "dget (adm_requests m) k = Some rec \<Longrightarrow> authored m (anr_source_result_id (rr_request rec)) (''rfq'', k)"
| by_selection: "dget (adm_engagements m) k = Some e \<Longrightarrow> authored m (ame_selection_result_id e) (''engage'', k)"
| by_rejection: "dget (adm_engagements m) k = Some e \<Longrightarrow> ame_status e = EngagementRejected \<Longrightarrow> ame_terminal_source_result_id e = Some r
    \<Longrightarrow> authored m r (''reject'', k)"
| by_acceptance: "dget (adm_deals m) k = Some d \<Longrightarrow> authored m (amd_acceptance_result_id d) (''acceptance'', amd_engagement_id d)"

lemma authored_claim:
  assumes "authored m r a" "market_inv m"
  shows "dget (adm_result_claims m) r = Some (case a of (act, k) \<Rightarrow> (act, if act = ''rfq'' then ''rfq-batch:'' @ r else k))
     \<and> (fst a = ''rfq'' \<longrightarrow> dget (adm_request_ids_by_result m) r = Some [snd a])"
  using assms
proof (induction rule: authored.induct)
  case (by_request k rec)
  then have "request_ok m k rec" by (simp add: market_inv_def requests_ok_def)
  then show ?case by (simp add: request_ok_def)
next
  case (by_selection k e)
  then have "engagement_ok m k e" by (simp add: market_inv_def engagements_ok_def)
  then show ?case by (simp add: engagement_ok_def)
next
  case (by_rejection k e r)
  then have "engagement_ok m k e" by (simp add: market_inv_def engagements_ok_def)
  then show ?case using by_rejection by (simp add: engagement_ok_def)
next
  case (by_acceptance k d)
  then have "deal_ok m k d" by (simp add: market_inv_def deals_ok_def)
  then show ?case by (simp add: deal_ok_def)
next
  case (by_intent k i)
  then show ?case by (simp add: market_inv_def intents_ok_def)
qed

text \<open>One agent result authors at most one action: no two recorded intents, requests, selections,
  rejections or acceptances of a reachable market share their source result.\<close>

theorem one_result_one_action:
  assumes "market_after n cs = Inr m" "list_all constructed cs" "authored m r a" "authored m r a'"
  shows "a = a'"
proof -
  have "market_inv m" using assms(1,2) by (rule market_after_inv)
  note c = authored_claim [OF assms(3) this] authored_claim [OF assms(4) this]
  obtain act k act' k' where a: "a = (act, k)" "a' = (act', k')" by (cases a, cases a') simp
  show ?thesis using c by (simp add: a split: if_splits)
qed

text \<open>A buyer intent asks at most \<open>max_outbound_rfq\<close> (never more than three) different sellers, never the
  same seller twice, and has at most one request pending or engaged at any time.\<close>

theorem rfq_budget:
  assumes "market_after n cs = Inr m" "list_all constructed cs"
  shows "card {k. \<exists>rec. dget (adm_requests m) k = Some rec \<and> anr_buyer_intent_id (rr_request rec) = b} \<le> adm_max_outbound_rfq m
     \<and> adm_max_outbound_rfq m \<le> 3
     \<and> (\<forall>k k' rec rec'. dget (adm_requests m) k = Some rec \<and> dget (adm_requests m) k' = Some rec' \<and> k \<noteq> k'
          \<and> anr_buyer_intent_id (rr_request rec) = b \<and> anr_buyer_intent_id (rr_request rec') = b \<longrightarrow>
          anr_seller_intent_id (rr_request rec) \<noteq> anr_seller_intent_id (rr_request rec')
          \<and> \<not> (unresolved (rr_status rec) \<and> unresolved (rr_status rec')))"
proof -
  have "market_inv m" using assms by (rule market_after_inv)
  then have ok: "budget_ok m" by (simp add: market_inv_def)
  have pair: "one_at_a_time rec rec'" if "dget (adm_requests m) k = Some rec" "dget (adm_requests m) k' = Some rec'" "k \<noteq> k'" for k k' rec rec'
    using ok that unfolding budget_ok_def by blast
  let ?S = "{k. \<exists>rec. dget (adm_requests m) k = Some rec \<and> anr_buyer_intent_id (rr_request rec) = b}"
  let ?f = "\<lambda>k. anr_seller_intent_id (rr_request (the (dget (adm_requests m) k)))"
  have "inj_on ?f ?S"
  proof (rule inj_onI)
    fix x y assume "x \<in> ?S" "y \<in> ?S" and eq: "?f x = ?f y"
    then obtain r r' where r: "dget (adm_requests m) x = Some r" "dget (adm_requests m) y = Some r'"
      "anr_buyer_intent_id (rr_request r) = b" "anr_buyer_intent_id (rr_request r') = b" by blast
    show "x = y"
    proof (rule ccontr)
      assume "x \<noteq> y"
      with pair [OF r(1,2)] show False using r eq by (simp add: one_at_a_time_def)
    qed
  qed
  moreover have "?f ` ?S \<subseteq> targets_of m b" using ok by (auto simp: budget_ok_def)
  moreover have "finite (targets_of m b)" "card (targets_of m b) \<le> adm_max_outbound_rfq m" using ok by (simp_all add: budget_ok_def)
  ultimately have "card ?S \<le> adm_max_outbound_rfq m" using card_inj_on_le [of ?f ?S "targets_of m b"] by linarith
  moreover have "adm_max_outbound_rfq m \<le> 3" using ok by (simp add: budget_ok_def MAX_OUTBOUND_RFQ_def)
  moreover have "anr_seller_intent_id (rr_request rec) \<noteq> anr_seller_intent_id (rr_request rec')
      \<and> \<not> (unresolved (rr_status rec) \<and> unresolved (rr_status rec'))"
    if "dget (adm_requests m) k = Some rec" "dget (adm_requests m) k' = Some rec'" "k \<noteq> k'"
      "anr_buyer_intent_id (rr_request rec) = b" "anr_buyer_intent_id (rr_request rec') = b" for k k' rec rec'
    using pair [OF that(1-3)] that(4,5) by (simp add: one_at_a_time_def)
  ultimately show ?thesis by blast
qed

subsection \<open>Errors\<close>

text \<open>A call that raises leaves the market exactly as it was, with one exception: a seller who engages a
  request whose buyer or seller is already taken marks this request, and nothing else, as
  \<open>counterparty_busy\<close>.\<close>

theorem failed_calls_harmless:
  assumes "market_after n cs = Inr m" "list_all constructed cs"
  shows "(AgentMarketIntent_post_init i = Inr i \<and> publish_intent i m = (Inl e1, m1) \<longrightarrow> m1 = m)
    \<and> (list_all (\<lambda>q. AgentNegotiationRequest_post_init q = Inr q) qs \<and> submit_requests qs m = (Inl e2, m2) \<longrightarrow> m2 = m)
    \<and> (close_engagement k st src m = (Inl e3, m3) \<longrightarrow> m3 = m)
    \<and> (freeze_deal k pr actor ar acc p m = (Inl e4, m4) \<longrightarrow> m4 = m)
    \<and> (engage_request actor q r m = (Inl e5, m5) \<longrightarrow> m5 = m \<or> (\<exists>rec. dget (adm_requests m) q = Some rec \<and> rr_status rec = Pending
         \<and> e5 = AgentMarketError ''counterparty_busy''
         \<and> m5 = m\<lparr>adm_requests := dput (adm_requests m) q (rec\<lparr>rr_status := CounterpartyBusy\<rparr>)\<rparr>))"
proof (intro conjI impI; (elim conjE)?)
  have l: "links_ok m" using assms market_after_inv market_inv_links by blast
  show "m1 = m" if "publish_intent i m = (Inl e1, m1)" "AgentMarketIntent_post_init i = Inr i" using publish_intent_effect [OF that] by simp
  show "m2 = m" if "submit_requests qs m = (Inl e2, m2)" "list_all (\<lambda>q. AgentNegotiationRequest_post_init q = Inr q) qs"
    using submit_requests_effect [OF that l] by simp
  show "m3 = m" if "close_engagement k st src m = (Inl e3, m3)" using close_engagement_effect [OF that l] by simp
  show "m4 = m" if "freeze_deal k pr actor ar acc p m = (Inl e4, m4)" using freeze_deal_effect [OF that] by simp
  show "m5 = m \<or> (\<exists>rec. dget (adm_requests m) q = Some rec \<and> rr_status rec = Pending \<and> e5 = AgentMarketError ''counterparty_busy''
         \<and> m5 = m\<lparr>adm_requests := dput (adm_requests m) q (rec\<lparr>rr_status := CounterpartyBusy\<rparr>)\<rparr>)" if "engage_request actor q r m = (Inl e5, m5)"
    using that unfolding engage_request_def
    by (auto simp: Let_def result_simps elim!: attempt_cases split: option.splits if_splits)
qed

section \<open>Refinement of a reservation book\<close>

text \<open>
  What the market promises about engagements, without intents, requests or prices: a book that maps participant
  slots to engagements. An engagement enters the book by taking two free, different slots at once and
  leaves it by freeing exactly these two.
\<close>

type_synonym reservation_book = "slot \<Rightarrow> string option"

inductive book_step :: "reservation_book \<Rightarrow> reservation_book \<Rightarrow> bool" where
  reserve: "p \<noteq> q \<Longrightarrow> bk p = None \<Longrightarrow> bk q = None \<Longrightarrow> k \<notin> ran bk \<Longrightarrow> book_step bk (bk(p \<mapsto> k, q \<mapsto> k))"
| release: "k \<in> ran bk \<Longrightarrow> book_step bk (\<lambda>p. if bk p = Some k then None else bk p)"

definition book :: "AgentDrivenMarket \<Rightarrow> reservation_book" where
  "book m p = dget (adm_reserved_slots m) p"

lemma two_sets: "{x. x = p \<or> x = q} = {p, q}"
  by auto

text \<open>In every reachable book an engagement holds exactly two slots or none.\<close>

lemma book_two_slots:
  assumes "rtranclp book_step (\<lambda>_. None) bk" "k \<in> ran bk"
  shows "card {p. bk p = Some k} = 2"
  using assms
proof (induction arbitrary: k rule: rtranclp_induct)
  case (step bk bk')
  from step.hyps(2) show ?case
  proof cases
    case (reserve p q j)
    show ?thesis
    proof (cases "k = j")
      case True
      then have "{x. bk' x = Some k} = {p, q}" using reserve by (auto simp: ran_def split: if_splits)
      then show ?thesis using reserve(2) by simp
    next
      case False
      then have "{x. bk' x = Some k} = {x. bk x = Some k}" using reserve by (auto split: if_splits)
      moreover have "k \<in> ran bk" using step.prems False reserve by (auto simp: ran_def split: if_splits)
      ultimately show ?thesis using step.IH by simp
    qed
  next
    case (release j)
    then have "k \<noteq> j" "k \<in> ran bk" using step.prems by (auto simp: ran_def split: if_splits)
    moreover from this have "{x. bk' x = Some k} = {x. bk x = Some k}" using release by auto
    ultimately show ?thesis using step.IH by simp
  qed
qed (simp add: ran_def)

lemma market_effect_book:
  assumes "market_effect m m'" "market_inv m"
  shows "book m' = book m \<or> book_step (book m) (book m')"
  using assms
proof (induction rule: market_effect.induct)
  case (engaged m k rec b s r d)
  let ?k = "''engagement:'' @ k"
  have inv: "requests_ok m" "engagements_ok m" "slots_ok m" using engaged.prems by (simp_all add: market_inv_def)
  have "request_ok m k rec" using engaged.hyps(1) inv(1) by (simp add: requests_ok_def)
  then have "validate_counterparties b s = Inr ()" using engaged.hyps(3,4) by (auto simp: request_ok_def)
  then have "slot_key b \<noteq> slot_key s" by (simp add: counterparties_differ slot_key_def)
  moreover have "book m (slot_key b) = None" "book m (slot_key s) = None" using engaged.hyps(5,6) by (simp_all add: book_def is_reserved_def)
  moreover have "?k \<notin> ran (book m)"
  proof
    assume "?k \<in> ran (book m)"
    then obtain e where "dget (adm_engagements m) ?k = Some e" using inv(3) unfolding ran_def book_def slots_ok_def by blast
    then show False using inv(2) engaged.hyps(1,2) unfolding engagements_ok_def by (metis option.distinct(1))
  qed
  ultimately have "book_step (book m) ((book m)(slot_key b \<mapsto> ?k, slot_key s \<mapsto> ?k))" by (rule book_step.reserve)
  moreover have "book (m\<lparr>adm_result_claims := d, adm_engagements := dput (adm_engagements m) ?k (engagement_of k r b s),
          adm_engagement_by_selection_result := dput (adm_engagement_by_selection_result m) r ?k,
          adm_reserved_slots := dput (dput (adm_reserved_slots m) (slot_key b) ?k) (slot_key s) ?k,
          adm_requests := dput (adm_requests m) k (rec\<lparr>rr_status := Engaged, rr_engagement_id := Some ?k\<rparr>)\<rparr>)
      = (book m)(slot_key b \<mapsto> ?k, slot_key s \<mapsto> ?k)"
    by (intro ext) (simp add: book_def dict_get)
  ultimately show ?case by (simp only: simp_thms)
next
  case (closed m k e rec b s st src r d)
  have inv: "slots_ok m" using closed.prems by (simp add: market_inv_def)
  have sl: "book m p = Some k \<longleftrightarrow> p = slot_key b \<or> p = slot_key s" for p
    using inv closed.hyps(1,2) engagement_slots_two [OF closed.hyps(5,6)] unfolding slots_ok_def book_def live_def by (metis insert_iff option.inject singletonD)
  have "k \<in> ran (book m)" using sl [of "slot_key b"] by (intro ranI [of _ "slot_key b"]) simp
  then have "book_step (book m) (\<lambda>p. if book m p = Some k then None else book m p)" by (rule book_step.release)
  moreover have "dget (release_slot k (slot_key s) (release_slot k (slot_key b) (adm_reserved_slots m))) p
      = (if book m p = Some k then None else book m p)" for p
    using sl by (auto simp: release_slot_get book_def)
  ultimately show ?case by (simp add: book_def [abs_def])
qed (simp_all add: book_def [abs_def])

text \<open>Property C14: the market refines the reservation book: every call on a reachable market either leaves the book
  alone, reserves two free slots of different participants for a new engagement, or releases both slots of one.
  Hence the slots shown by \<open>slot_engagement\<close> follow the book from empty, and every engagement in it holds
  exactly two slots.\<close>

theorem market_refines_book:
  assumes "market_after n cs = Inr m" "list_all constructed cs"
  shows "rtranclp book_step (\<lambda>_. None) (book m) \<and> (\<forall>c. constructed c \<longrightarrow> book (market_step c m) = book m \<or> book_step (book m) (book (market_step c m)))
     \<and> (\<forall>k g r p. slot_engagement m g r p = Some k \<longrightarrow> card {(g, r, p). slot_engagement m g r p = Some k} = 2)"
proof -
  have step: "book (market_step c m) = book m \<or> book_step (book m) (book (market_step c m))" if "market_inv m" "constructed c" for c m
    using market_step_effect [OF that(2,1)] market_effect_book that(1) by fastforce
  obtain m0 where m0: "AgentDrivenMarket_new n = Inr m0" "m = fold market_step cs m0" using assms(1) by (auto simp: market_after_def bindR_Inr_iff)
  have "book m0 = (\<lambda>_. None)" using m0(1) by (auto simp: AgentDrivenMarket_new_def book_def split: if_splits)
  moreover have "rtranclp book_step (book m1) (book (fold market_step cs m1))" if "market_inv m1" for m1
    using assms(2) that
  proof (induction cs arbitrary: m1)
    case (Cons c cs)
    then have "market_inv (market_step c m1)" using market.step_inv by simp
    then have "rtranclp book_step (book (market_step c m1)) (book (fold market_step (c # cs) m1))" using Cons by simp
    moreover have "book (market_step c m1) = book m1 \<or> book_step (book m1) (book (market_step c m1))" using step Cons.prems by simp
    ultimately show ?case using converse_rtranclp_into_rtranclp by metis
  qed simp
  ultimately have r: "rtranclp book_step (\<lambda>_. None) (book m)" using new_market_inv [OF m0(1)] m0(2) by metis
  moreover have "card {(g, r, p). slot_engagement m g r p = Some k} = 2" if "slot_engagement m g r p = Some k" for k g r p
  proof -
    have "k \<in> ran (book m)" using that by (auto simp: ran_def book_def slot_engagement_def)
    then have "card {x. book m x = Some k} = 2" by (rule book_two_slots [OF r])
    moreover have "{x. book m x = Some k} = {(g, r, p). slot_engagement m g r p = Some k}" by (auto simp: book_def slot_engagement_def)
    ultimately show ?thesis by simp
  qed
  ultimately show ?thesis using step market_after_inv [OF assms] by blast
qed

section \<open>The public directory\<close>

lemma directory_entry_ok:
  assumes "directory_entry i = Inr e" "AgentMarketIntent_post_init i = Inr i"
  obtains c k where "e = \<lparr>de_intent_id = ami_intent_id i, de_agent_id = ami_agent_id i, de_display_name = ami_display_name i, de_side = Sell,
     de_good = ami_good i, de_quantity = 1, de_public_price = Dec False c (- int k), de_failed_negotiations = ami_failed_negotiations i,
     de_expires_at = ami_expires_at i\<rparr>" "k \<le> 6" "int c * 10 ^ (6 - k) = ami_public_price_atomic i"
proof -
  let ?x = "ami_public_price_atomic i"
  obtain v where v: "format_gold ?x = Inr v" using assms(1) by (auto simp: directory_entry_def bindR_Inr_iff)
  have x: "0 \<le> ?x" "?x \<le> MAX_GOLD_ATOMIC" using v by (auto simp: format_gold_def split: if_splits)
  obtain c k where p: "parse_fixed_decimal v = Inr (Dec False c (- int k))" "k \<le> 6" "c * 10 ^ (6 - k) = nat ?x"
    using parse_format_gold [OF x] v by (metis sum.inject(2))
  have "e = \<lparr>de_intent_id = ami_intent_id i, de_agent_id = ami_agent_id i, de_display_name = ami_display_name i, de_side = Sell,
     de_good = ami_good i, de_quantity = 1, de_public_price = Dec False c (- int k), de_failed_negotiations = ami_failed_negotiations i,
     de_expires_at = ami_expires_at i\<rparr>"
    using assms(1) v p(1) by (auto simp: directory_entry_def MarketDirectoryEntryV1_new_def PositiveFixedDecimal_def bindR_Inr_iff split: if_splits)
  moreover have "int c * 10 ^ (6 - k) = ?x" using p(3) x(1) by (metis nat_0_le of_nat_mult of_nat_numeral of_nat_power)
  ultimately show ?thesis using that p(2) by blast
qed

lemma earliest_min: "instant (earliest t ts) = Min (set (map instant (t # ts)))"
proof (induction ts arbitrary: t)
  case (Cons a ts)
  have "instant (earliest t (a # ts)) = instant (earliest (if instant a < instant t then a else t) ts)" by (simp add: earliest_def)
  then show ?case using Cons.IH [of "if instant a < instant t then a else t"]
    by (cases "ts = []") (auto simp: min_def)
qed (simp add: earliest_def)

lemma MarketDirectoryV1_validateD:
  assumes "MarketDirectoryV1_validate r = Inr d"
  shows "d = r" "distinct (map de_intent_id (md_entries d))"
  using assms by (auto simp: MarketDirectoryV1_validate_def split: if_splits)

text \<open>A directory that is returned lists exactly the eligible sellers of the requester's round and good,
  each once, in the order of their intent ids; every entry repeats the public facts of its intent with the
  exact public price, and the directory expires when the first of its intents does.\<close>

theorem public_directory_exact:
  assumes "market_after n cs = Inr m" "list_all constructed cs" "public_directory m rid now = Inr d"
  shows "\<exists>req. dget (adm_intents m) rid = Some req \<and> ami_side req = Buy \<and> instant now < instant (ami_expires_at req)
     \<and> set (map de_intent_id (md_entries d)) = {k. \<exists>i. dget (adm_intents m) k = Some i \<and> directory_eligible m req now i}
     \<and> sorted (map de_intent_id (md_entries d)) \<and> distinct (map de_intent_id (md_entries d))
     \<and> (\<forall>e \<in> set (md_entries d). \<exists>i c k. dget (adm_intents m) (de_intent_id e) = Some i \<and> de_agent_id e = ami_agent_id i \<and> de_good e = ami_good req
          \<and> de_display_name e = ami_display_name i \<and> de_expires_at e = ami_expires_at i \<and> de_failed_negotiations e = ami_failed_negotiations i
          \<and> de_public_price e = Dec False c (- int k) \<and> k \<le> 6 \<and> int c * 10 ^ (6 - k) = ami_public_price_atomic i)
     \<and> instant (md_expires_at d) = Min (insert (instant (ami_expires_at req)) (instant ` de_expires_at ` set (md_entries d)))"
proof -
  have inv: "keys_ok m" "intents_ok m" using market_after_inv [OF assms(1,2)] by (simp_all add: market_inv_def)
  obtain req es where req: "dget (adm_intents m) rid = Some req" "ami_side req = Buy" "instant now < instant (ami_expires_at req)"
    and es: "mapR directory_entry (filter (directory_eligible m req now) (dvalues (adm_intents m))) = Inr es"
    and val: "MarketDirectoryV1_validate \<lparr>md_schema_version = ARENA_MARKET_PROTOCOL_VERSION_V1,
            md_market_session_id = ''market:'' @ ami_game_id req @ '':'' @ ami_round_id req,
            md_game_id = ami_game_id req, md_round_id = ami_round_id req, md_entries = sort_key de_intent_id es,
            md_expires_at = earliest (ami_expires_at req) (map de_expires_at (sort_key de_intent_id es))\<rparr> = Inr d"
    using assms(3) unfolding public_directory_def Let_def bindR_Inr_iff if_raise_Inr require_intent_iff not_le not_not by blast
  note dr = MarketDirectoryV1_validateD [OF val]
  have d: "distinct (map de_intent_id (md_entries d))" "md_entries d = sort_key de_intent_id es"
      "md_expires_at d = earliest (ami_expires_at req) (map de_expires_at (md_entries d))"
    using dr by (simp_all only: MarketDirectoryV1.select_convs)
  have vals: "i \<in> set (dvalues (adm_intents m)) \<longleftrightarrow> (\<exists>k. dget (adm_intents m) k = Some i)" for i
    using dict.vals_get [of "adm_intents m" i] inv(1) by (simp add: keys_ok_def)
  have id: "dget (adm_intents m) k = Some i \<Longrightarrow> ami_intent_id i = k \<and> AgentMarketIntent_post_init i = Inr i" for k i using inv(2) by (simp add: intents_ok_def)
  have rel: "list_all2 (\<lambda>i e. directory_entry i = Inr e) (filter (directory_eligible m req now) (dvalues (adm_intents m))) es"
    using es by (simp add: mapR_Inr_iff)
  have entry: "\<exists>i c k. dget (adm_intents m) (de_intent_id e) = Some i \<and> directory_eligible m req now i \<and> de_agent_id e = ami_agent_id i \<and> de_good e = ami_good req
          \<and> de_display_name e = ami_display_name i \<and> de_expires_at e = ami_expires_at i \<and> de_failed_negotiations e = ami_failed_negotiations i
          \<and> de_public_price e = Dec False c (- int k) \<and> k \<le> 6 \<and> int c * 10 ^ (6 - k) = ami_public_price_atomic i" if "e \<in> set es" for e
  proof -
    obtain i where i: "i \<in> set (dvalues (adm_intents m))" "directory_eligible m req now i" "directory_entry i = Inr e"
      using list_all2_member [OF rel] \<open>e \<in> set es\<close> unfolding set_filter by blast
    then obtain k where k: "dget (adm_intents m) k = Some i" using vals by blast
    obtain c q where "e = \<lparr>de_intent_id = ami_intent_id i, de_agent_id = ami_agent_id i, de_display_name = ami_display_name i, de_side = Sell,
       de_good = ami_good i, de_quantity = 1, de_public_price = Dec False c (- int q), de_failed_negotiations = ami_failed_negotiations i,
       de_expires_at = ami_expires_at i\<rparr>" "q \<le> 6" "int c * 10 ^ (6 - q) = ami_public_price_atomic i"
      using directory_entry_ok [OF i(3)] id [OF k] by blast
    then show ?thesis using k id [OF k] i(2) by (intro exI [of _ i] exI [of _ c] exI [of _ q]) (simp add: directory_eligible_def)
  qed
  have "de_intent_id ` set es = {k. \<exists>i. dget (adm_intents m) k = Some i \<and> directory_eligible m req now i}"
  proof (intro equalityI subsetI)
    fix k assume "k \<in> de_intent_id ` set es"
    then show "k \<in> {k. \<exists>i. dget (adm_intents m) k = Some i \<and> directory_eligible m req now i}" using entry by blast
  next
    fix k assume "k \<in> {k. \<exists>i. dget (adm_intents m) k = Some i \<and> directory_eligible m req now i}"
    then obtain i where i: "dget (adm_intents m) k = Some i" "directory_eligible m req now i" by blast
    then have "i \<in> set (filter (directory_eligible m req now) (dvalues (adm_intents m)))" using vals by auto
    then obtain e where e: "e \<in> set es" "directory_entry i = Inr e" using list_all2_member [OF rel] by blast
    then have "de_intent_id e = k" using directory_entry_ok [OF e(2)] id [OF i(1)] by (metis MarketDirectoryEntryV1.select_convs(1))
    then show "k \<in> de_intent_id ` set es" using e(1) by blast
  qed
  moreover have "sorted (map de_intent_id (md_entries d))" "set (md_entries d) = set es" using d(2) by simp_all
  moreover have "instant (md_expires_at d) = Min (insert (instant (ami_expires_at req)) (instant ` de_expires_at ` set (md_entries d)))"
    unfolding d(3) earliest_min by (simp add: image_image)
  ultimately show ?thesis using req d(1) entry by (intro exI [of _ req]) (simp, blast)
qed

section \<open>Repeated calls\<close>

lemma claim_results_frame:
  assumes "claim_results cs m = Inr m1"
  shows "\<exists>d. m1 = m\<lparr>adm_result_claims := d\<rparr>"
  using assms by (auto simp: claim_results_def bindR_Inr_iff)

lemma publish_intent_again:
  assumes "publish_intent i m = (Inr x, m')" "intents_ok m"
  shows "publish_intent i m' = (Inr x, m')"
proof (cases "m' = m")
  case False
  then show ?thesis using assms(1)
    by (auto simp: publish_intent_def dict_get attempt_def split: option.splits if_splits sum.splits dest!: claim_results_frame)
qed (use assms in simp)

lemma submit_requests_again:
  assumes "submit_requests qs m = (Inr x, m')"
  shows "submit_requests qs m' = (Inr x, m')"
proof (cases "m' = m")
  case ch: False
  have l: "length qs = 1" using assms ch unfolding submit_requests_def by (auto split: if_splits)
  then obtain q where q: "qs = [q]" by (auto simp: length_Suc_conv)
  have "x = [q] \<and> dget (adm_request_ids_by_result m') (anr_source_result_id q) = Some [anr_request_id q]
      \<and> dget (adm_requests m') (anr_request_id q) = Some (opened q)"
    using assms ch unfolding q submit_requests_def
    by (auto simp: Let_def dict_get opened_def elim!: attempt_cases split: option.splits if_splits dest!: claim_results_frame)
  then show ?thesis by (simp add: q submit_requests_def stored_requests_def attempt_def opened_def Let_def)
qed (use assms in simp)

lemma engage_request_again:
  assumes "engage_request a k r m = (Inr x, m')"
  shows "engage_request a k r m' = (Inr x, m')"
proof (cases "m' = m")
  case ch: False
  have "require_identifier r ''selection_result_id'' = Inr () \<and> dget (adm_engagement_by_selection_result m') r = Some (''engagement:'' @ k)
      \<and> dget (adm_engagements m') (''engagement:'' @ k) = Some x \<and> ame_request_id x = k \<and> ame_seller_participant_id x = a"
    using assms ch unfolding engage_request_def
    by (auto simp: Let_def dict_get elim!: attempt_cases split: option.splits if_splits dest!: claim_results_frame)
  then show ?thesis by (simp add: engage_request_def attempt_def)
qed (use assms in simp)

lemma close_engagement_again:
  assumes "close_engagement k st src m = (Inr x, m')" "links_ok m"
  shows "close_engagement k st src m' = (Inr x, m')"
proof (cases "m' = m")
  case ch: False
  then obtain e where e: "dget (adm_engagements m) k = Some e" "ame_status e = EActive"
    using assms(1) by (auto simp: close_engagement_def result_simps elim!: attempt_cases split: if_splits)
  obtain rec b s where w: "\<And>d st src. write_closed k e st src (m\<lparr>adm_result_claims := d\<rparr>) =
      (Inr (e\<lparr>ame_status := st, ame_terminal_source_result_id := src\<rparr>),
       m\<lparr>adm_result_claims := d,
          adm_engagements := dput (adm_engagements m) k (e\<lparr>ame_status := st, ame_terminal_source_result_id := src\<rparr>),
          adm_requests := dput (adm_requests m) (ame_request_id e) (rec\<lparr>rr_status := RequestRejected\<rparr>),
          adm_reserved_slots := release_slot k (slot_key s) (release_slot k (slot_key b) (adm_reserved_slots m))\<rparr>)"
    using assms(2) e(1) by (rule write_closed_links) blast
  have "\<exists>d. write_closed k e (close_status st) src (m\<lparr>adm_result_claims := d\<rparr>) = (Inr x, m')"
  proof (cases src)
    case None
    then have "write_closed k e (close_status st) src (m\<lparr>adm_result_claims := adm_result_claims m\<rparr>) = (Inr x, m')"
      using assms(1) e ch by (auto simp: close_engagement_def attempt_def require_engagement_def split: if_splits)
    then show ?thesis by blast
  next
    case (Some r)
    then show ?thesis using assms(1) e ch unfolding close_engagement_def
      by (auto simp: result_simps elim!: attempt_cases split: if_splits dest!: claim_results_frame)
  qed
  then have "dget (adm_engagements m') k = Some (e\<lparr>ame_status := close_status st, ame_terminal_source_result_id := src\<rparr>)"
      "x = e\<lparr>ame_status := close_status st, ame_terminal_source_result_id := src\<rparr>"
    using w by (auto simp: dict_get)
  then show ?thesis by (cases st) (simp_all add: close_engagement_def attempt_def require_engagement_def)
qed (use assms in simp)

lemma freeze_deal_again:
  assumes "freeze_deal k pr actor ar acc p m = (Inr x, m')"
  shows "freeze_deal k pr actor ar acc p m' = (Inr x, m')"
proof (cases "m' = m")
  case ch: False
  have r: "require_identifiers [(''latest_proposal_result_id'', pr), (''latest_proposal_actor_id'', actor),
      (''acceptance_result_id'', ar), (''accepted_by_participant_id'', acc)] = Inr ()" "pr \<noteq> ar"
    using assms unfolding freeze_deal_def attempt_changes [OF ch] guard_changes [OF ch] by auto
  obtain e m1 where m': "m' = m1\<lparr>adm_deals := dput (adm_deals m1) (''deal:'' @ k) x,
      adm_engagements := dput (adm_engagements m1) k (e\<lparr>ame_status := AcceptedPendingSettlement, ame_terminal_source_result_id := Some ar\<rparr>)\<rparr>"
    "amd_latest_proposal_result_id x = pr" "amd_acceptance_result_id x = ar" "amd_unit_price_atomic x = p" "amd_accepted_by_participant_id x = acc"
  proof (cases "dget (adm_deals m) (''deal:'' @ k)")
    case None
    show thesis using assms that
      unfolding freeze_deal_def Let_def attempt_changes [OF ch] guard_changes [OF ch] None option.case by fastforce
  next
    case (Some old)
    have False using assms unfolding freeze_deal_def Let_def attempt_changes [OF ch] guard_changes [OF ch] Some option.case using ch by blast
    then show thesis ..
  qed
  have "dget (adm_deals m') (''deal:'' @ k) = Some x" "\<exists>e. dget (adm_engagements m') k = Some e" using m'(1) by (simp_all add: dict_get)
  then show ?thesis using r m'(2-5) by (auto simp: freeze_deal_def attempt_def require_engagement_def Let_def simp del: append.simps)
qed (use assms in simp)

text \<open>Every call can be delivered again: repeating a successful call on the market it left behind returns
  the same value and changes nothing.\<close>

theorem calls_idempotent:
  assumes "market_after n cs = Inr m" "list_all constructed cs"
  shows "(publish_intent i m = (Inr x1, m1) \<longrightarrow> publish_intent i m1 = (Inr x1, m1))
    \<and> (submit_requests qs m = (Inr x2, m2) \<longrightarrow> submit_requests qs m2 = (Inr x2, m2))
    \<and> (engage_request actor q r m = (Inr x3, m3) \<longrightarrow> engage_request actor q r m3 = (Inr x3, m3))
    \<and> (close_engagement k st src m = (Inr x4, m4) \<longrightarrow> close_engagement k st src m4 = (Inr x4, m4))
    \<and> (freeze_deal k pr proposer ar acc p m = (Inr x5, m5) \<longrightarrow> freeze_deal k pr proposer ar acc p m5 = (Inr x5, m5))"
proof -
  have inv: "intents_ok m" "links_ok m" using market_after_inv [OF assms] market_inv_links by (simp_all add: market_inv_def)
  show ?thesis
    by (intro conjI impI)
      (erule publish_intent_again [OF _ inv(1)] submit_requests_again engage_request_again close_engagement_again [OF _ inv(2)] freeze_deal_again)+
qed

section \<open>Witnesses\<close>

definition demo_agent_intent :: "string \<Rightarrow> string \<Rightarrow> string \<Rightarrow> MarketSide \<Rightarrow> int \<Rightarrow> int \<Rightarrow> AgentMarketIntent" where
  "demo_agent_intent k r p side public lim = \<lparr>ami_intent_id = k, ami_source_result_id = r, ami_game_id = ''g'', ami_round_id = ''1'', ami_participant_id = p,
     ami_agent_id = ''a'', ami_display_name = [65], ami_side = side, ami_good = ''iron'', ami_public_price_atomic = public, ami_limit_price_atomic = lim,
     ami_expires_at = Aware 100, ami_public_message = None, ami_failed_negotiations = 0, ami_quantity = 1\<rparr>"

definition demo_request :: AgentNegotiationRequest where
  "demo_request = \<lparr>anr_request_id = ''q'', anr_source_result_id = ''r3'', anr_buyer_intent_id = ''b'', anr_seller_intent_id = ''s'',
     anr_opening_price_atomic = 4500000, anr_public_message = [72], anr_created_at = Aware 10\<rparr>"

definition demo_open :: "market_op list" where
  "demo_open = [PublishIntent (demo_agent_intent ''s'' ''r1'' ''x'' Sell 5000000 4000000), PublishIntent (demo_agent_intent ''b'' ''r2'' ''y'' Buy 4500000 6000000)]"

definition demo_engaged :: "market_op list" where
  "demo_engaged = demo_open @ [SubmitRequests [demo_request], EngageRequest ''x'' ''q'' ''r4'']"

definition demo_calls :: "market_op list" where
  "demo_calls = demo_engaged @ [FreezeDeal ''engagement:q'' ''r3'' ''y'' ''r5'' ''x'' 4500000]"

definition market_of :: "market_op list \<Rightarrow> AgentDrivenMarket" where
  "market_of cs = (case market_after 3 cs of Inr m \<Rightarrow> m | Inl _ \<Rightarrow> undefined)"

lemma market_of: "market_after 3 cs = Inr (market_of cs)"
  by (simp add: market_of_def market_after_def AgentDrivenMarket_new_def MAX_OUTBOUND_RFQ_def)

lemma market_of_snoc: "market_of (cs @ [c]) = market_step c (market_of cs)"
  by (simp add: market_of_def market_after_def AgentDrivenMarket_new_def MAX_OUTBOUND_RFQ_def)

lemmas market_eval = market_step.simps publish_intent_def submit_requests_def engage_request_def freeze_deal_def attempt_def require_identifiers_def
  require_identifier_def require_engagement_def require_intent_def require_request_record_def claim_results_def claim_step_def check_request_def
  validate_counterparties_def is_reserved_def slot_key_def targets_of_def unresolved_def

lemma demo_intent_constructed: "AgentMarketIntent_post_init (demo_agent_intent [c] [d, e] [f] side x y) = Inr (demo_agent_intent [c] [d, e] [f] side x y) \<longleftrightarrow>
    0 < x \<and> 0 < y \<and> (side = Buy \<longrightarrow> x \<le> y) \<and> (side = Sell \<longrightarrow> y \<le> x)"
  by (auto simp: AgentMarketIntent_post_init_def demo_agent_intent_def require_identifiers_def require_identifier_def require_aware_def blank_def py_isspace_def)

lemma demo_request_constructed: "AgentNegotiationRequest_post_init demo_request = Inr demo_request"
  by (simp add: AgentNegotiationRequest_post_init_def demo_request_def require_identifiers_def require_identifier_def require_aware_def blank_def py_isspace_def)

lemma demo_constructed: "list_all constructed demo_open" "list_all constructed demo_engaged" "list_all constructed demo_calls"
  by (simp_all add: demo_open_def demo_engaged_def demo_calls_def demo_intent_constructed demo_request_constructed)

definition demo_seller :: AgentMarketIntent where "demo_seller = demo_agent_intent ''s'' ''r1'' ''x'' Sell 5000000 4000000"
definition demo_buyer :: AgentMarketIntent where "demo_buyer = demo_agent_intent ''b'' ''r2'' ''y'' Buy 4500000 6000000"

lemma demo_open_market:
  "market_of demo_open = \<lparr>adm_max_outbound_rfq = 3, adm_result_claims = [(''r1'', ''intent'', ''s''), (''r2'', ''intent'', ''b'')],
     adm_intents = [(''s'', demo_seller), (''b'', demo_buyer)],
     adm_intent_by_participant_round = [((''g'', ''1'', ''x''), ''s''), ((''g'', ''1'', ''y''), ''b'')],
     adm_intent_by_result = [(''r1'', ''s''), (''r2'', ''b'')], adm_requests = [], adm_request_ids_by_result = [],
     adm_request_targets_by_buyer = [], adm_engagements = [], adm_engagement_by_selection_result = [], adm_reserved_slots = [], adm_deals = []\<rparr>"
  by (simp add: market_of_def market_after_def demo_open_def AgentDrivenMarket_new_def MAX_OUTBOUND_RFQ_def market_eval demo_seller_def demo_buyer_def demo_agent_intent_def)

lemma demo_engaged_market:
  "market_of demo_engaged = \<lparr>adm_max_outbound_rfq = 3,
     adm_result_claims = [(''r1'', ''intent'', ''s''), (''r2'', ''intent'', ''b''), (''r3'', ''rfq'', ''rfq-batch:r3''), (''r4'', ''engage'', ''engagement:q'')],
     adm_intents = [(''s'', demo_seller), (''b'', demo_buyer)],
     adm_intent_by_participant_round = [((''g'', ''1'', ''x''), ''s''), ((''g'', ''1'', ''y''), ''b'')],
     adm_intent_by_result = [(''r1'', ''s''), (''r2'', ''b'')],
     adm_requests = [(''q'', \<lparr>rr_request = demo_request, rr_status = Engaged, rr_engagement_id = Some ''engagement:q''\<rparr>)],
     adm_request_ids_by_result = [(''r3'', [''q''])],
     adm_request_targets_by_buyer = [(''b'', {''s''})], adm_engagements = [(''engagement:q'', engagement_of ''q'' ''r4'' demo_buyer demo_seller)],
     adm_engagement_by_selection_result = [(''r4'', ''engagement:q'')],
     adm_reserved_slots = [((''g'', ''1'', ''y''), ''engagement:q''), ((''g'', ''1'', ''x''), ''engagement:q'')], adm_deals = []\<rparr>"
proof -
  have "market_of demo_engaged = market_step (EngageRequest ''x'' ''q'' ''r4'') (market_step (SubmitRequests [demo_request]) (market_of demo_open))"
    using market_of_snoc [of "demo_open @ [SubmitRequests [demo_request]]"] market_of_snoc [of demo_open] by (simp add: demo_engaged_def)
  then show ?thesis unfolding demo_open_market
    by (simp add: market_eval demo_seller_def demo_buyer_def demo_agent_intent_def demo_request_def engagement_of_def Let_def)
qed

lemma demo_deal: "map_option amd_unit_price_atomic (dget (adm_deals (market_of demo_calls)) ''deal:engagement:q'') = Some 4500000"
  unfolding demo_calls_def market_of_snoc demo_engaged_market
  by (simp add: market_eval Let_def demo_seller_def demo_buyer_def engagement_of_def demo_agent_intent_def demo_request_def)

lemma demo_error:
  "fst (publish_intent (demo_agent_intent ''s'' ''r9'' ''x'' Sell 5000000 4000000) (market_of demo_open))
    = Inl (AgentMarketError ''intent ID already exists with another payload'')"
  by (simp add: demo_open_market publish_intent_def demo_seller_def demo_agent_intent_def)

lemma demo_directory: "\<exists>d. public_directory (market_of demo_open) ''b'' (Aware 5) = Inr d \<and> map de_intent_id (md_entries d) = [''s'']"
proof -
  have f: "format_gold 5000000 = Inr ''5''" by (simp add: format_gold_def GOLD_SCALE_def MAX_GOLD_ATOMIC_def show_nat.simps)
  have p: "parse_fixed_decimal ''5'' = Inr (Dec False 5 0)" using parse_whole [of "''5''"] by (simp add: is_digit_def nat_of_digits_def digit_val_def)
  have i: "Identifier ''s''" "Identifier ''a''" "GoodId ''iron''" "Identifier ''g''" "Identifier ''1''" "Identifier ''market:g:1''" by code_simp+
  show ?thesis
    by (simp add: public_directory_def require_aware_def require_intent_def demo_open_market demo_seller_def demo_buyer_def demo_agent_intent_def directory_eligible_def is_reserved_def
        directory_entry_def f MarketDirectoryEntryV1_new_def PositiveFixedDecimal_def p i visible_text_def blank_def py_isspace_def
        MarketDirectoryV1_validate_def Let_def earliest_def ARENA_MARKET_PROTOCOL_VERSION_V1_def)
qed

lemma demo_engaged_slot: "slot_engagement (market_of demo_engaged) ''g'' ''1'' ''x'' = Some ''engagement:q''"
  by (simp add: demo_engaged_market slot_engagement_def)

lemma demo_engaged_engagement:
  "dget (adm_engagements (market_of demo_engaged)) ''engagement:q'' = Some (engagement_of ''q'' ''r4'' demo_buyer demo_seller)"
  by (simp add: demo_engaged_market)

theorem market_slots_exclusive_witness:
  "slot_engagement (market_of demo_engaged) ''g'' ''1'' ''x'' = Some ''engagement:q''
   \<and> (\<exists>e. dget (adm_engagements (market_of demo_engaged)) ''engagement:q'' = Some e \<and> live e \<and> (''g'', ''1'', ''x'') \<in> engagement_slots (market_of demo_engaged) e)"
  using market_slots_exclusive [OF market_of demo_constructed(2)] demo_engaged_slot by blast

theorem market_deals_fair_witness:
  "\<exists>d. dget (adm_deals (market_of demo_calls)) ''deal:engagement:q'' = Some d \<and> amd_buyer_participant_id d \<noteq> amd_seller_participant_id d"
proof -
  obtain d where d: "dget (adm_deals (market_of demo_calls)) ''deal:engagement:q'' = Some d" using demo_deal by auto
  show ?thesis using market_deals_fair [OF market_of demo_constructed(3) d] d by blast
qed

theorem one_result_one_action_witness:
  "{a. authored (market_of demo_engaged) ''r4'' a} = {(''engage'', ''engagement:q'')}"
proof (intro equalityI subsetI)
  have e: "authored (market_of demo_engaged) ''r4'' (''engage'', ''engagement:q'')"
    using authored.by_selection [OF demo_engaged_engagement] by (simp add: engagement_of_def)
  fix a
  show "a \<in> {a. authored (market_of demo_engaged) ''r4'' a}" if "a \<in> {(''engage'', ''engagement:q'')}" using e that by simp
  show "a \<in> {(''engage'', ''engagement:q'')}" if "a \<in> {a. authored (market_of demo_engaged) ''r4'' a}"
    using one_result_one_action [OF market_of demo_constructed(2) _ e, of a] that by simp
qed

theorem rfq_budget_witness:
  "card {k. \<exists>rec. dget (adm_requests (market_of demo_engaged)) k = Some rec \<and> anr_buyer_intent_id (rr_request rec) = ''b''}
     \<le> adm_max_outbound_rfq (market_of demo_engaged)"
  using rfq_budget [OF market_of demo_constructed(2), of "''b''"] by blast

theorem failed_calls_harmless_witness:
  "snd (publish_intent (demo_agent_intent ''s'' ''r9'' ''x'' Sell 5000000 4000000) (market_of demo_open)) = market_of demo_open"
proof -
  let ?i = "demo_agent_intent ''s'' ''r9'' ''x'' Sell 5000000 4000000"
  obtain m1 where m1: "publish_intent ?i (market_of demo_open) = (Inl (AgentMarketError ''intent ID already exists with another payload''), m1)"
    using demo_error by (cases "publish_intent ?i (market_of demo_open)") simp
  have "AgentMarketIntent_post_init ?i = Inr ?i" by (simp add: demo_intent_constructed)
  then show ?thesis using failed_calls_harmless [OF market_of demo_constructed(1), of ?i] m1 by auto
qed

theorem market_refines_book_witness:
  "rtranclp book_step (\<lambda>_. None) (book (market_of demo_engaged)) \<and> card {(g, r, p). slot_engagement (market_of demo_engaged) g r p = Some ''engagement:q''} = 2"
  by (intro conjI market_refines_book [OF market_of demo_constructed(2), THEN conjunct1]
      market_refines_book [OF market_of demo_constructed(2), THEN conjunct2, THEN conjunct2, rule_format, OF demo_engaged_slot])

theorem public_directory_exact_witness:
  "\<exists>d. public_directory (market_of demo_open) ''b'' (Aware 5) = Inr d \<and> sorted (map de_intent_id (md_entries d)) \<and> map de_intent_id (md_entries d) = [''s'']"
proof -
  obtain d where d: "public_directory (market_of demo_open) ''b'' (Aware 5) = Inr d" "map de_intent_id (md_entries d) = [''s'']"
    using demo_directory by (elim exE conjE) (rule that)
  have "sorted (map de_intent_id (md_entries d))" using public_directory_exact [OF market_of demo_constructed(1) d(1)] by (elim exE conjE)
  then show ?thesis by (intro exI [of _ d] conjI d)
qed

theorem calls_idempotent_witness:
  "\<exists>x m'. engage_request ''x'' ''q'' ''r4'' (market_of demo_engaged) = (Inr x, m') \<and> engage_request ''x'' ''q'' ''r4'' m' = (Inr x, m')"
proof -
  have "engage_request ''x'' ''q'' ''r4'' (market_of demo_engaged) = (Inr (engagement_of ''q'' ''r4'' demo_buyer demo_seller), market_of demo_engaged)"
    by (simp add: demo_engaged_market engage_request_def attempt_def require_identifier_def)
      (simp add: engagement_of_def demo_buyer_def demo_seller_def demo_agent_intent_def)
  then show ?thesis using calls_idempotent [OF market_of demo_constructed(2)] by blast
qed

end
