(* ===== verification/Arena_Settlement.thy ===== *)
theory Arena_Settlement
  imports Arena_Portfolio
begin

text \<open>
  \<open>arena_game/settlement.py\<close>: frozen settlement intents and the validation of chain evidence
  against them. A frozen dataclass that normalises its own fields is a validator from raw field values to
  the normal form, so each is an instance of the \<open>normalizer\<close> contract.
\<close>

section \<open>Hex strings\<close>

definition is_hex :: "char \<Rightarrow> bool" where
  "is_hex c \<longleftrightarrow> is_digit c \<or> c \<in> set ''abcdefABCDEF''"

text \<open>\<open>^0x[0-9a-fA-F]{n}$\<close>\<close>

definition hex_string :: "nat \<Rightarrow> string \<Rightarrow> bool" where
  "hex_string n s \<longleftrightarrow> take 2 s = ''0x'' \<and> length s = n + 2 \<and> list_all is_hex (drop 2 s)"

definition normalize_evm_address :: "string \<Rightarrow> string result" where
  "normalize_evm_address v = (if hex_string 40 v then Inr (lower v) else Inl (SettlementError ''invalid_evm_address''))"

definition normalize_tx_hash :: "string \<Rightarrow> string result" where
  "normalize_tx_hash v = (if hex_string 64 v then Inr (lower v) else Inl (SettlementError ''invalid_transaction_hash''))"

definition normalize_authorization_nonce :: "string \<Rightarrow> string result" where
  "normalize_authorization_nonce v =
     (if hex_string 64 v then Inr (lower v) else Inl (SettlementError ''invalid_authorization_nonce''))"

section \<open>Configuration\<close>

record SettlementConfig =
  sc_authorization_mode :: string
  sc_chain_id :: "int option"
  sc_token_address :: "string option"
  sc_token_symbol :: "utext option"
  sc_token_decimals :: "int option"
  sc_token_eip712_name :: "utext option"
  sc_token_eip712_version :: "utext option"
  sc_required_confirmations :: int

text \<open>\<open>value is None or not value or len(value) > n\<close>\<close>

definition bad_text :: "nat \<Rightarrow> utext option \<Rightarrow> bool" where
  "bad_text n v = (case v of None \<Rightarrow> True | Some t \<Rightarrow> t = [] \<or> length t > n)"

definition SettlementConfig_post_init :: "SettlementConfig \<Rightarrow> SettlementConfig result" where
  "SettlementConfig_post_init c =
     (if sc_authorization_mode c = ''none'' then
        if sc_chain_id c \<noteq> None \<or> sc_token_address c \<noteq> None \<or> sc_token_symbol c \<noteq> None \<or> sc_token_decimals c \<noteq> None
           \<or> sc_token_eip712_name c \<noteq> None \<or> sc_token_eip712_version c \<noteq> None then
          Inl (SettlementError ''disabled_settlement_has_chain_config'')
        else Inr c
      else if sc_authorization_mode c \<noteq> ''single_eip3009'' then Inl (SettlementError ''unsupported_authorization_mode'')
      else if (case sc_chain_id c of None \<Rightarrow> True | Some i \<Rightarrow> i \<le> 0) then Inl (SettlementError ''invalid_chain_id'')
      else case sc_token_address c of
        None \<Rightarrow> Inl (SettlementError ''token_address_required'')
      | Some a \<Rightarrow>
          bindR (normalize_evm_address a) (\<lambda>address.
            if bad_text 20 (sc_token_symbol c) then Inl (SettlementError ''invalid_token_symbol'')
            else if sc_token_decimals c \<noteq> Some 6 then Inl (SettlementError ''token_decimals_must_match_gold_scale'')
            else if bad_text 128 (sc_token_eip712_name c) then Inl (SettlementError ''invalid_token_eip712_name'')
            else if bad_text 32 (sc_token_eip712_version c) then Inl (SettlementError ''invalid_token_eip712_version'')
            else if \<not> (1 \<le> sc_required_confirmations c \<and> sc_required_confirmations c \<le> 100) then
              Inl (SettlementError ''invalid_required_confirmations'')
            else Inr (c\<lparr>sc_token_address := Some address\<rparr>)))"

definition jopt :: "('a \<Rightarrow> json) \<Rightarrow> 'a option \<Rightarrow> json" where
  "jopt f v = (case v of None \<Rightarrow> JNull | Some x \<Rightarrow> f x)"

definition jid :: "string \<Rightarrow> json" where
  "jid s = JStr (ascii s)"

definition SettlementConfig_to_snapshot :: "SettlementConfig \<Rightarrow> json" where
  "SettlementConfig_to_snapshot c =
     (if sc_authorization_mode c = ''none'' then JObj [(''authorizationMode'', jid ''none'')]
      else JObj [(''authorizationMode'', jid (sc_authorization_mode c)),
                 (''chainId'', jopt JInt (sc_chain_id c)),
                 (''tokenAddress'', jopt jid (sc_token_address c)),
                 (''tokenSymbol'', jopt JStr (sc_token_symbol c)),
                 (''tokenDecimals'', jopt JInt (sc_token_decimals c)),
                 (''tokenEip712Name'', jopt JStr (sc_token_eip712_name c)),
                 (''tokenEip712Version'', jopt JStr (sc_token_eip712_version c)),
                 (''requiredConfirmations'', JInt (sc_required_confirmations c))])"

record SettlementAccount =
  sa_chain_id :: int
  sa_address :: string
  sa_custody_mode :: string

definition SettlementAccount_post_init :: "SettlementAccount \<Rightarrow> SettlementAccount result" where
  "SettlementAccount_post_init a =
     (if sa_chain_id a \<le> 0 then Inl (SettlementError ''invalid_chain_id'')
      else bindR (normalize_evm_address (sa_address a)) (\<lambda>address.
        if sa_custody_mode a \<notin> {''wallet'', ''sandbox_guest''} then Inl (SettlementError ''invalid_custody_mode'')
        else Inr (a\<lparr>sa_address := address\<rparr>)))"

section \<open>Intents\<close>

record SettlementIntent =
  si_settlement_intent_id :: string
  si_game_id :: string
  si_round_id :: string
  si_pairing_id :: string
  si_negotiation_id :: string
  si_buyer_participant_id :: string
  si_seller_participant_id :: string
  si_buyer_agent_id :: string
  si_seller_agent_id :: string
  si_buyer_account :: string
  si_seller_account :: string
  si_good :: string
  si_quantity :: int
  si_unit_price_atomic :: int
  si_amount_atomic :: int
  si_chain_id :: int
  si_token_address :: string
  si_token_symbol :: utext
  si_token_decimals :: int
  si_required_confirmations :: int
  si_authorization_mode :: string
  si_idempotency_key :: string
  si_token_eip712_name :: "utext option"
  si_token_eip712_version :: "utext option"

definition intent_identifiers :: "SettlementIntent \<Rightarrow> string list" where
  "intent_identifiers i =
     [si_settlement_intent_id i, si_game_id i, si_round_id i, si_pairing_id i, si_negotiation_id i,
      si_buyer_participant_id i, si_seller_participant_id i, si_buyer_agent_id i, si_seller_agent_id i,
      si_good i, si_idempotency_key i]"

definition SettlementIntent_post_init :: "SettlementIntent \<Rightarrow> SettlementIntent result" where
  "SettlementIntent_post_init i =
     (if list_ex (\<lambda>v. v = []) (intent_identifiers i) then Inl (SettlementError ''settlement_identifier_required'')
      else
        bindR (normalize_evm_address (si_buyer_account i)) (\<lambda>buyer.
        bindR (normalize_evm_address (si_seller_account i)) (\<lambda>seller.
        bindR (normalize_evm_address (si_token_address i)) (\<lambda>token.
          if buyer = seller then Inl (SettlementError ''buyer_and_seller_accounts_must_differ'')
          else if si_quantity i \<le> 0 then Inl (SettlementError ''settlement_quantity_must_be_positive'')
          else if si_unit_price_atomic i \<le> 0 then Inl (SettlementError ''settlement_price_must_be_positive'')
          else if si_amount_atomic i \<noteq> si_unit_price_atomic i * si_quantity i then
            Inl (SettlementError ''settlement_amount_mismatch'')
          else if si_chain_id i \<le> 0 then Inl (SettlementError ''invalid_chain_id'')
          else if si_token_decimals i \<noteq> 6 then Inl (SettlementError ''token_decimals_must_match_gold_scale'')
          else if \<not> (1 \<le> si_required_confirmations i \<and> si_required_confirmations i \<le> 100) then
            Inl (SettlementError ''invalid_required_confirmations'')
          else if si_authorization_mode i \<noteq> ''single_eip3009'' then Inl (SettlementError ''unsupported_authorization_mode'')
          else if (si_token_eip712_name i = None) \<noteq> (si_token_eip712_version i = None) then
            Inl (SettlementError ''incomplete_token_eip712_domain'')
          else if si_token_eip712_name i \<noteq> None
                  \<and> (bad_text 128 (si_token_eip712_name i) \<or> bad_text 32 (si_token_eip712_version i)) then
            Inl (SettlementError ''invalid_token_eip712_domain'')
          else Inr (i\<lparr>si_buyer_account := buyer, si_seller_account := seller, si_token_address := token\<rparr>)))))"

definition SettlementIntent_to_snapshot :: "SettlementIntent \<Rightarrow> json" where
  "SettlementIntent_to_snapshot i = JObj
     ([(''schemaVersion'', jid ''arena402.settlement-intent.v1''),
       (''settlementIntentId'', jid (si_settlement_intent_id i)),
       (''gameId'', jid (si_game_id i)),
       (''roundId'', jid (si_round_id i)),
       (''pairingId'', jid (si_pairing_id i)),
       (''negotiationId'', jid (si_negotiation_id i)),
       (''buyerParticipantId'', jid (si_buyer_participant_id i)),
       (''sellerParticipantId'', jid (si_seller_participant_id i)),
       (''buyerAgentId'', jid (si_buyer_agent_id i)),
       (''sellerAgentId'', jid (si_seller_agent_id i)),
       (''buyerAccount'', jid (si_buyer_account i)),
       (''sellerAccount'', jid (si_seller_account i)),
       (''good'', jid (si_good i)),
       (''quantity'', JInt (si_quantity i)),
       (''unitPriceAtomic'', jid (show_int (si_unit_price_atomic i))),
       (''amountAtomic'', jid (show_int (si_amount_atomic i))),
       (''chainId'', JInt (si_chain_id i)),
       (''tokenAddress'', jid (si_token_address i)),
       (''tokenSymbol'', JStr (si_token_symbol i)),
       (''tokenDecimals'', JInt (si_token_decimals i)),
       (''requiredConfirmations'', JInt (si_required_confirmations i)),
       (''authorizationMode'', jid (si_authorization_mode i)),
       (''idempotencyKey'', jid (si_idempotency_key i))]
      @ (case si_token_eip712_name i of None \<Rightarrow> []
         | Some n \<Rightarrow> [(''tokenEip712Name'', JStr n), (''tokenEip712Version'', jopt JStr (si_token_eip712_version i))]))"

definition intent_hash :: "SettlementIntent \<Rightarrow> string result" where
  "intent_hash i = sha256_identifier (SettlementIntent_to_snapshot i)"

section \<open>Chain evidence\<close>

record ChainConfirmation =
  cc_tx_hash :: string
  cc_chain_id :: int
  cc_facilitator_address :: string
  cc_token_address :: string
  cc_from_account :: string
  cc_to_account :: string
  cc_amount_atomic :: int
  cc_block_number :: int
  cc_block_hash :: string
  cc_confirmation_count :: int
  cc_success :: bool

definition ChainConfirmation_post_init :: "ChainConfirmation \<Rightarrow> ChainConfirmation result" where
  "ChainConfirmation_post_init c =
     bindR (normalize_tx_hash (cc_tx_hash c)) (\<lambda>tx.
     bindR (normalize_evm_address (cc_facilitator_address c)) (\<lambda>facilitator.
     bindR (normalize_evm_address (cc_token_address c)) (\<lambda>token.
     bindR (normalize_evm_address (cc_from_account c)) (\<lambda>payer.
     bindR (normalize_evm_address (cc_to_account c)) (\<lambda>payee.
       if \<not> hex_string 64 (cc_block_hash c) then Inl (SettlementError ''invalid_block_hash'')
       else if cc_chain_id c \<le> 0 then Inl (SettlementError ''invalid_chain_id'')
       else if cc_amount_atomic c \<le> 0 then Inl (SettlementError ''invalid_confirmation_amount'')
       else if cc_block_number c < 0 \<or> cc_confirmation_count c < 0 then Inl (SettlementError ''invalid_confirmation_height'')
       else Inr (c\<lparr>cc_tx_hash := tx, cc_facilitator_address := facilitator, cc_token_address := token,
                   cc_from_account := payer, cc_to_account := payee, cc_block_hash := lower (cc_block_hash c)\<rparr>))))))"

definition ChainConfirmation_to_snapshot :: "ChainConfirmation \<Rightarrow> json" where
  "ChainConfirmation_to_snapshot c = JObj
     [(''schemaVersion'', jid ''arena402.chain-confirmation.v2''),
      (''txHash'', jid (cc_tx_hash c)),
      (''chainId'', JInt (cc_chain_id c)),
      (''facilitatorAddress'', jid (cc_facilitator_address c)),
      (''tokenAddress'', jid (cc_token_address c)),
      (''from'', jid (cc_from_account c)),
      (''to'', jid (cc_to_account c)),
      (''amountAtomic'', jid (show_int (cc_amount_atomic c))),
      (''blockNumber'', JInt (cc_block_number c)),
      (''blockHash'', jid (cc_block_hash c)),
      (''confirmationCount'', JInt (cc_confirmation_count c)),
      (''success'', JBool (cc_success c))]"

definition evidence_hash :: "ChainConfirmation \<Rightarrow> string result" where
  "evidence_hash c = sha256_identifier (ChainConfirmation_to_snapshot c)"

definition validate_chain_confirmation :: "SettlementIntent \<Rightarrow> ChainConfirmation \<Rightarrow> unit result" where
  "validate_chain_confirmation intent confirmation =
     (if \<not> cc_success confirmation then Inl (SettlementError ''chain_transaction_failed'')
      else if cc_chain_id confirmation \<noteq> si_chain_id intent then Inl (SettlementError ''chain_id_mismatch'')
      else if cc_token_address confirmation \<noteq> si_token_address intent then Inl (SettlementError ''token_mismatch'')
      else if cc_from_account confirmation \<noteq> si_buyer_account intent then Inl (SettlementError ''payer_mismatch'')
      else if cc_to_account confirmation \<noteq> si_seller_account intent then Inl (SettlementError ''payee_mismatch'')
      else if cc_amount_atomic confirmation \<noteq> si_amount_atomic intent then Inl (SettlementError ''amount_mismatch'')
      else if cc_confirmation_count confirmation < si_required_confirmations intent then
        Inl (SettlementError ''insufficient_confirmations'')
      else Inr ())"

section \<open>Normal forms\<close>

lemma hex_letter_table: "char_of (97::nat) = CHR ''a''" "char_of (98::nat) = CHR ''b''" "char_of (99::nat) = CHR ''c''"
    "char_of (100::nat) = CHR ''d''" "char_of (101::nat) = CHR ''e''" "char_of (102::nat) = CHR ''f''"
  by code_simp+

lemma lower_char_idem: "lower_char (lower_char c) = lower_char c"
  using nat_of_char_less_256 [of c] by (auto simp: lower_char_def)

lemma lower_idem [simp]: "lower (lower s) = lower s"
  by (simp add: lower_def lower_char_idem)

lemma is_hex_lower: "is_hex c \<Longrightarrow> is_hex (lower_char c)"
  by (auto simp: is_hex_def is_digit_def lower_char_def hex_letter_table)

lemma hex_string_lower: "hex_string n s \<Longrightarrow> hex_string n (lower s)"
proof -
  assume h: "hex_string n s"
  have "take 2 (lower s) = lower ''0x''" using h by (simp add: hex_string_def lower_def take_map)
  moreover have "lower ''0x'' = ''0x''" by (simp add: lower_def lower_char_def)
  ultimately show ?thesis using h is_hex_lower
    by (auto simp: hex_string_def lower_def list_all_iff drop_map)
qed

interpretation address_norm: normalizer normalize_evm_address
  by unfold_locales (auto simp: normalize_evm_address_def hex_string_lower split: if_splits)

interpretation tx_norm: normalizer normalize_tx_hash
  by unfold_locales (auto simp: normalize_tx_hash_def hex_string_lower split: if_splits)

interpretation nonce_norm: normalizer normalize_authorization_nonce
  by unfold_locales (auto simp: normalize_authorization_nonce_def hex_string_lower split: if_splits)

lemma normalize_evm_address_iff: "normalize_evm_address v = Inr a \<longleftrightarrow> hex_string 40 v \<and> a = lower v"
  by (auto simp: normalize_evm_address_def)

lemma normalize_tx_hash_iff: "normalize_tx_hash v = Inr a \<longleftrightarrow> hex_string 64 v \<and> a = lower v"
  by (auto simp: normalize_tx_hash_def)

interpretation config_norm: normalizer SettlementConfig_post_init
proof
  fix c d assume "SettlementConfig_post_init c = Inr d"
  then show "SettlementConfig_post_init d = Inr d"
    by (auto simp: SettlementConfig_post_init_def bindR_Inr_iff normalize_evm_address_iff hex_string_lower
        split: if_splits option.splits)
qed

interpretation account_norm: normalizer SettlementAccount_post_init
proof
  fix c d assume "SettlementAccount_post_init c = Inr d"
  then show "SettlementAccount_post_init d = Inr d"
    by (auto simp: SettlementAccount_post_init_def bindR_Inr_iff normalize_evm_address_iff hex_string_lower split: if_splits)
qed

lemma SettlementIntent_post_init_iff:
  "SettlementIntent_post_init i = Inr j \<longleftrightarrow>
     (\<forall>v \<in> set (intent_identifiers i). v \<noteq> []) \<and> hex_string 40 (si_buyer_account i) \<and> hex_string 40 (si_seller_account i)
     \<and> hex_string 40 (si_token_address i) \<and> lower (si_buyer_account i) \<noteq> lower (si_seller_account i)
     \<and> 0 < si_quantity i \<and> 0 < si_unit_price_atomic i \<and> si_amount_atomic i = si_unit_price_atomic i * si_quantity i
     \<and> 0 < si_chain_id i \<and> si_token_decimals i = 6 \<and> 1 \<le> si_required_confirmations i \<and> si_required_confirmations i \<le> 100
     \<and> si_authorization_mode i = ''single_eip3009'' \<and> (si_token_eip712_name i = None \<longleftrightarrow> si_token_eip712_version i = None)
     \<and> (si_token_eip712_name i \<noteq> None \<longrightarrow> \<not> bad_text 128 (si_token_eip712_name i) \<and> \<not> bad_text 32 (si_token_eip712_version i))
     \<and> j = i\<lparr>si_buyer_account := lower (si_buyer_account i), si_seller_account := lower (si_seller_account i),
             si_token_address := lower (si_token_address i)\<rparr>"
proof -
  have "(\<forall>v \<in> set (intent_identifiers i). v \<noteq> []) \<longleftrightarrow> \<not> list_ex (\<lambda>v. v = []) (intent_identifiers i)" by (auto simp: list_ex_iff)
  then show ?thesis
    unfolding SettlementIntent_post_init_def if_raise_Inr bindR_Inr_iff normalize_evm_address_iff not_le not_less by auto
qed

lemma ChainConfirmation_post_init_iff:
  "ChainConfirmation_post_init c = Inr d \<longleftrightarrow>
     hex_string 64 (cc_tx_hash c) \<and> hex_string 40 (cc_facilitator_address c) \<and> hex_string 40 (cc_token_address c)
     \<and> hex_string 40 (cc_from_account c) \<and> hex_string 40 (cc_to_account c) \<and> hex_string 64 (cc_block_hash c)
     \<and> 0 < cc_chain_id c \<and> 0 < cc_amount_atomic c \<and> 0 \<le> cc_block_number c \<and> 0 \<le> cc_confirmation_count c
     \<and> d = c\<lparr>cc_tx_hash := lower (cc_tx_hash c), cc_facilitator_address := lower (cc_facilitator_address c),
             cc_token_address := lower (cc_token_address c), cc_from_account := lower (cc_from_account c),
             cc_to_account := lower (cc_to_account c), cc_block_hash := lower (cc_block_hash c)\<rparr>"
  unfolding ChainConfirmation_post_init_def if_raise_Inr bindR_Inr_iff normalize_evm_address_iff normalize_tx_hash_iff not_le not_less
  by auto

interpretation intent_norm: normalizer SettlementIntent_post_init
  by unfold_locales (auto simp: SettlementIntent_post_init_iff hex_string_lower intent_identifiers_def)

interpretation confirmation_norm: normalizer ChainConfirmation_post_init
  by unfold_locales (auto simp: ChainConfirmation_post_init_iff hex_string_lower)

text \<open>Every settlement value is stored in a normal form: validating an already validated
  configuration, account, intent or confirmation accepts it and changes nothing.\<close>

theorem settlement_values_normal:
  "(SettlementConfig_post_init c = Inr c' \<longrightarrow> SettlementConfig_post_init c' = Inr c')
   \<and> (SettlementAccount_post_init a = Inr a' \<longrightarrow> SettlementAccount_post_init a' = Inr a')
   \<and> (SettlementIntent_post_init i = Inr i' \<longrightarrow> SettlementIntent_post_init i' = Inr i')
   \<and> (ChainConfirmation_post_init d = Inr d' \<longrightarrow> ChainConfirmation_post_init d' = Inr d')"
  by (intro conjI impI config_norm.norm_idem account_norm.norm_idem intent_norm.norm_idem confirmation_norm.norm_idem)

section \<open>Confirmation\<close>

text \<open>Property C40: chain evidence confirms an intent exactly when the transaction succeeded on the intent's
  chain, moved the intent's token from the buyer's to the seller's account (whatever the case of
  the hexadecimal letters), moved exactly the unit price times the quantity, and has the required
  confirmations; it then pays a positive amount between two different accounts.\<close>

theorem chain_confirmation_exact:
  assumes "SettlementIntent_post_init ri = Inr i" "ChainConfirmation_post_init rc = Inr c"
  shows "(validate_chain_confirmation i c = Inr () \<longleftrightarrow>
      cc_success rc \<and> cc_chain_id rc = si_chain_id ri \<and> lower (cc_token_address rc) = lower (si_token_address ri)
      \<and> lower (cc_from_account rc) = lower (si_buyer_account ri) \<and> lower (cc_to_account rc) = lower (si_seller_account ri)
      \<and> cc_amount_atomic rc = si_unit_price_atomic ri * si_quantity ri \<and> si_required_confirmations ri \<le> cc_confirmation_count rc)
    \<and> (validate_chain_confirmation i c = Inr () \<longrightarrow> cc_from_account c \<noteq> cc_to_account c \<and> 0 < cc_amount_atomic c \<and> 1 \<le> cc_confirmation_count c)"
  using assms
  by (auto simp: validate_chain_confirmation_def SettlementIntent_post_init_iff ChainConfirmation_post_init_iff split: if_splits)

section \<open>The intent hash is binding\<close>

lemma domain_complete: "SettlementIntent_post_init i = Inr j \<Longrightarrow> (si_token_eip712_name i = None) = (si_token_eip712_version i = None)"
  by (simp add: SettlementIntent_post_init_iff)

lemma snapshot_lookups:
  assumes i: "SettlementIntent_post_init i = Inr i" and j: "SettlementIntent_post_init j = Inr j"
    and eq: "canon (SettlementIntent_to_snapshot i) = canon (SettlementIntent_to_snapshot j)"
  shows "i = j"
proof -
  let ?kv = "\<lambda>i. [(''schemaVersion'', jid ''arena402.settlement-intent.v1''),
       (''settlementIntentId'', jid (si_settlement_intent_id i)), (''gameId'', jid (si_game_id i)), (''roundId'', jid (si_round_id i)),
       (''pairingId'', jid (si_pairing_id i)), (''negotiationId'', jid (si_negotiation_id i)),
       (''buyerParticipantId'', jid (si_buyer_participant_id i)), (''sellerParticipantId'', jid (si_seller_participant_id i)),
       (''buyerAgentId'', jid (si_buyer_agent_id i)), (''sellerAgentId'', jid (si_seller_agent_id i)),
       (''buyerAccount'', jid (si_buyer_account i)), (''sellerAccount'', jid (si_seller_account i)),
       (''good'', jid (si_good i)), (''quantity'', JInt (si_quantity i)), (''unitPriceAtomic'', jid (show_int (si_unit_price_atomic i))),
       (''amountAtomic'', jid (show_int (si_amount_atomic i))), (''chainId'', JInt (si_chain_id i)),
       (''tokenAddress'', jid (si_token_address i)), (''tokenSymbol'', JStr (si_token_symbol i)), (''tokenDecimals'', JInt (si_token_decimals i)),
       (''requiredConfirmations'', JInt (si_required_confirmations i)), (''authorizationMode'', jid (si_authorization_mode i)),
       (''idempotencyKey'', jid (si_idempotency_key i))]
      @ (case si_token_eip712_name i of None \<Rightarrow> []
         | Some n \<Rightarrow> [(''tokenEip712Name'', JStr n), (''tokenEip712Version'', jopt JStr (si_token_eip712_version i))])"
  have d: "distinct (map fst (?kv k))" for k by (cases "si_token_eip712_name k") simp_all
  have l: "map_option canon (map_of (?kv i) x) = map_option canon (map_of (?kv j) x)" for x
    using eq unfolding SettlementIntent_to_snapshot_def by (rule canon_lookup [OF d d])
  have f0: "si_settlement_intent_id i = si_settlement_intent_id j" using l [of "''settlementIntentId''"] by (simp add: jid_def)
  have f1: "si_game_id i = si_game_id j" using l [of "''gameId''"] by (simp add: jid_def)
  have f2: "si_round_id i = si_round_id j" using l [of "''roundId''"] by (simp add: jid_def)
  have f3: "si_pairing_id i = si_pairing_id j" using l [of "''pairingId''"] by (simp add: jid_def)
  have f4: "si_negotiation_id i = si_negotiation_id j" using l [of "''negotiationId''"] by (simp add: jid_def)
  have f5: "si_buyer_participant_id i = si_buyer_participant_id j" using l [of "''buyerParticipantId''"] by (simp add: jid_def)
  have f6: "si_seller_participant_id i = si_seller_participant_id j" using l [of "''sellerParticipantId''"] by (simp add: jid_def)
  have f7: "si_buyer_agent_id i = si_buyer_agent_id j" using l [of "''buyerAgentId''"] by (simp add: jid_def)
  have f8: "si_seller_agent_id i = si_seller_agent_id j" using l [of "''sellerAgentId''"] by (simp add: jid_def)
  have f9: "si_buyer_account i = si_buyer_account j" using l [of "''buyerAccount''"] by (simp add: jid_def)
  have f10: "si_seller_account i = si_seller_account j" using l [of "''sellerAccount''"] by (simp add: jid_def)
  have f11: "si_good i = si_good j" using l [of "''good''"] by (simp add: jid_def)
  have f12: "si_idempotency_key i = si_idempotency_key j" using l [of "''idempotencyKey''"] by (simp add: jid_def)
  have f13: "si_quantity i = si_quantity j" using l [of "''quantity''"] by (simp add: jid_def)
  have f14: "si_unit_price_atomic i = si_unit_price_atomic j" using l [of "''unitPriceAtomic''"] by (simp add: jid_def)
  have f15: "si_amount_atomic i = si_amount_atomic j" using l [of "''amountAtomic''"] by (simp add: jid_def)
  have f16: "si_chain_id i = si_chain_id j" using l [of "''chainId''"] by (simp add: jid_def)
  have f17: "si_token_address i = si_token_address j" using l [of "''tokenAddress''"] by (simp add: jid_def)
  have f18: "si_token_symbol i = si_token_symbol j" using l [of "''tokenSymbol''"] by (simp add: jid_def)
  have f19: "si_token_decimals i = si_token_decimals j" using l [of "''tokenDecimals''"] by (simp add: jid_def)
  have f20: "si_required_confirmations i = si_required_confirmations j" using l [of "''requiredConfirmations''"] by (simp add: jid_def)
  have f21: "si_authorization_mode i = si_authorization_mode j" using l [of "''authorizationMode''"] by (simp add: jid_def)
  have "si_token_eip712_name i = si_token_eip712_name j"
    using l [of "''tokenEip712Name''"] by (auto split: option.splits)
  moreover have "(si_token_eip712_name i = None) = (si_token_eip712_version i = None)" using i by (rule domain_complete)
  moreover have "(si_token_eip712_name j = None) = (si_token_eip712_version j = None)" using j by (rule domain_complete)
  ultimately have nv: "si_token_eip712_name i = si_token_eip712_name j" "si_token_eip712_version i = si_token_eip712_version j"
    using l [of "''tokenEip712Version''"] by (auto simp: jopt_def split: option.splits)
  show ?thesis
    using nv f0 f1 f2 f3 f4 f5 f6 f7 f8 f9 f10 f11 f12 f13 f14 f15 f16 f17 f18 f19 f20 f21 by (intro SettlementIntent.equality) simp_all
qed

definition unicode_intent :: "SettlementIntent \<Rightarrow> bool" where
  "unicode_intent i \<longleftrightarrow> unicode_json (SettlementIntent_to_snapshot i)"

text \<open>The intent hash binds every field: two different validated intents are hashed from
  different byte strings, so their hashes agree only if SHA-256 maps these two byte strings to the
  same digest.\<close>

theorem intent_hash_binding:
  assumes "SettlementIntent_post_init i = Inr i" "SettlementIntent_post_init j = Inr j" "i \<noteq> j" "unicode_intent i" "unicode_intent j"
  shows "\<exists>b b'. canonical_json_bytes (SettlementIntent_to_snapshot i) = Inr b \<and> canonical_json_bytes (SettlementIntent_to_snapshot j) = Inr b'
     \<and> b \<noteq> b' \<and> (intent_hash i = intent_hash j \<longleftrightarrow> sha256 b = sha256 b')"
  using identifier_collision [of "SettlementIntent_to_snapshot i" "SettlementIntent_to_snapshot j"] snapshot_lookups assms
  unfolding intent_hash_def unicode_intent_def by blast

section \<open>Witnesses\<close>

definition demo_address :: "char \<Rightarrow> string" where
  "demo_address c = ''0x'' @ replicate 40 c"

lemma demo_address_hex: "is_hex c \<Longrightarrow> hex_string 40 (demo_address c)"
  by (auto simp add: hex_string_def demo_address_def numeral_2_eq_2 list_all_iff)

definition demo_intent :: "string \<Rightarrow> char \<Rightarrow> SettlementIntent" where
  "demo_intent key b = \<lparr>si_settlement_intent_id = ''s'', si_game_id = ''g'', si_round_id = ''r'', si_pairing_id = ''p'', si_negotiation_id = ''n'',
     si_buyer_participant_id = ''b'', si_seller_participant_id = ''t'', si_buyer_agent_id = ''x'', si_seller_agent_id = ''y'',
     si_buyer_account = demo_address b, si_seller_account = demo_address (CHR ''1''), si_good = ''iron'', si_quantity = 1,
     si_unit_price_atomic = 5, si_amount_atomic = 5, si_chain_id = 7, si_token_address = demo_address (CHR ''2''), si_token_symbol = ascii ''USD'',
     si_token_decimals = 6, si_required_confirmations = 2, si_authorization_mode = ''single_eip3009'', si_idempotency_key = key,
     si_token_eip712_name = None, si_token_eip712_version = None\<rparr>"

lemma demo_lower: "lower (demo_address (CHR ''A'')) = demo_address (CHR ''a'')" "lower (demo_address (CHR ''a'')) = demo_address (CHR ''a'')"
    "lower (demo_address (CHR ''1'')) = demo_address (CHR ''1'')" "lower (demo_address (CHR ''2'')) = demo_address (CHR ''2'')"
  by (simp_all add: lower_def demo_address_def lower_char_def hex_letter_table)

lemma demo_address_neq: "demo_address (CHR ''a'') \<noteq> demo_address (CHR ''1'')"
  by (simp add: demo_address_def)

lemma demo_hex: "is_hex (CHR ''A'')" "is_hex (CHR ''a'')" "is_hex (CHR ''1'')" "is_hex (CHR ''2'')"
  by (simp_all add: is_hex_def is_digit_def)

lemma demo_intent_valid: "key \<noteq> [] \<Longrightarrow> SettlementIntent_post_init (demo_intent key (CHR ''A'')) = Inr (demo_intent key (CHR ''a''))"
    "key \<noteq> [] \<Longrightarrow> SettlementIntent_post_init (demo_intent key (CHR ''a'')) = Inr (demo_intent key (CHR ''a''))"
  by (simp_all add: SettlementIntent_post_init_iff demo_intent_def intent_identifiers_def demo_address_hex demo_hex demo_lower demo_address_neq)

definition demo_confirmation :: "char \<Rightarrow> ChainConfirmation" where
  "demo_confirmation b = \<lparr>cc_tx_hash = ''0x'' @ replicate 64 (CHR ''1''), cc_chain_id = 7, cc_facilitator_address = demo_address (CHR ''2''),
     cc_token_address = demo_address (CHR ''2''), cc_from_account = demo_address b, cc_to_account = demo_address (CHR ''1''),
     cc_amount_atomic = 5, cc_block_number = 3, cc_block_hash = ''0x'' @ replicate 64 (CHR ''1''), cc_confirmation_count = 2, cc_success = True\<rparr>"

lemma demo_confirmation_valid: "ChainConfirmation_post_init (demo_confirmation (CHR ''a'')) = Inr (demo_confirmation (CHR ''a''))"
proof -
  have h: "hex_string 64 (''0x'' @ replicate 64 (CHR ''1''))"
    using demo_hex by (auto simp add: hex_string_def numeral_2_eq_2 list_all_iff)
  have l: "lower (''0x'' @ replicate 64 (CHR ''1'')) = ''0x'' @ replicate 64 (CHR ''1'')"
    by (simp add: lower_def lower_char_def)
  show ?thesis unfolding ChainConfirmation_post_init_iff using h l
    by (simp add: demo_confirmation_def demo_address_hex demo_hex demo_lower)
qed

theorem chain_confirmation_exact_witness:
  "validate_chain_confirmation (demo_intent ''k'' (CHR ''a'')) (demo_confirmation (CHR ''a'')) = Inr ()"
  using chain_confirmation_exact [OF demo_intent_valid(1) demo_confirmation_valid, of "''k''"]
  by (simp add: demo_intent_def demo_confirmation_def demo_lower)

theorem settlement_values_normal_witness:
  "SettlementIntent_post_init (demo_intent ''k'' (CHR ''a'')) = Inr (demo_intent ''k'' (CHR ''a''))"
proof -
  have "SettlementIntent_post_init (demo_intent ''k'' (CHR ''A'')) = Inr (demo_intent ''k'' (CHR ''a''))"
    by (rule demo_intent_valid) simp
  then show ?thesis using settlement_values_normal by blast
qed

theorem intent_hash_binding_witness:
  "\<exists>b b'. canonical_json_bytes (SettlementIntent_to_snapshot (demo_intent ''k'' (CHR ''a''))) = Inr b
     \<and> canonical_json_bytes (SettlementIntent_to_snapshot (demo_intent ''l'' (CHR ''a''))) = Inr b' \<and> b \<noteq> b'"
proof -
  have "unicode_intent (demo_intent k (CHR ''a''))" for k
    by (simp add: unicode_intent_def SettlementIntent_to_snapshot_def demo_intent_def jid_def)
  moreover have "demo_intent ''k'' (CHR ''a'') \<noteq> demo_intent ''l'' (CHR ''a'')" by (simp add: demo_intent_def)
  ultimately show ?thesis
    using intent_hash_binding [OF demo_intent_valid(2) demo_intent_valid(2), of "''k''" "''l''"] by auto
qed

end
