(* ===== verification/Arena_Payments.thy ===== *)
theory Arena_Payments
  imports Arena_Settlement
begin

text \<open>
  \<open>arena_payments/models.py\<close> and the in-memory adapter of \<open>arena_payments/repository.py\<close>: custodial wallets,
  bounded payment mandates and the reservations that spend them. Every method holds the adapter's lock,
  so a call is one atomic step: it returns its result, which may be an exception, with the repository it leaves
  behind. Comparing a naive with an aware \<open>datetime\<close> raises, so comparisons with the caller's clock may.
\<close>

section \<open>Clocks and identifiers\<close>

definition dt_less :: "datetime \<Rightarrow> datetime \<Rightarrow> bool result" where
  "dt_less a b = (if is_aware a = is_aware b then Inr (instant a < instant b)
     else Inl (TypeError ''can't compare offset-naive and offset-aware datetimes''))"

definition dt_le :: "datetime \<Rightarrow> datetime \<Rightarrow> bool result" where
  "dt_le a b = (if is_aware a = is_aware b then Inr (instant a \<le> instant b)
     else Inl (TypeError ''can't compare offset-naive and offset-aware datetimes''))"

definition address :: "string \<Rightarrow> string result" where
  "address v = (if hex_string 40 v then Inr (lower v) else Inl (ValueError ''invalid_evm_address''))"

text \<open>\<open>^sha256:[0-9a-f]{64}$\<close>\<close>

definition intent_hash_pattern :: "string \<Rightarrow> bool" where
  "intent_hash_pattern s \<longleftrightarrow> take 7 s = ''sha256:'' \<and> length s = 71 \<and> list_all (\<lambda>c. is_digit c \<or> c \<in> set ''abcdef'') (drop 7 s)"

text \<open>\<open>str.isdigit\<close>, which also accepts the superscript digits\<close>

definition py_isdigit :: "string \<Rightarrow> bool" where
  "py_isdigit s \<longleftrightarrow> s \<noteq> [] \<and> list_all (\<lambda>c. is_digit c \<or> (of_char c :: nat) \<in> {178, 179, 185}) s"

text \<open>\<open>json.dumps(value, sort_keys=True, separators=(",", ":"), ensure_ascii=True)\<close> for a dictionary of strings\<close>

definition json_escape_ascii :: "char \<Rightarrow> utext" where
  "json_escape_ascii c = (if (of_char c :: nat) > 126 then [92, 117] @ hex4 (of_char c) else json_escape (of_char c))"

definition json_string_ascii :: "string \<Rightarrow> utext" where
  "json_string_ascii s = [34] @ concat (map json_escape_ascii s) @ [34]"

definition payment_identifier :: "(string, string) dict \<Rightarrow> string" where
  "payment_identifier value =
     ''sha256:'' @ hexdigest (sha256
       ([123] @ join [44] (map (\<lambda>(k, v). json_string_ascii k @ [58] @ json_string_ascii v) (sort_key fst value)) @ [125]))"

section \<open>Models\<close>

datatype WalletStatus = Available | Bound | Disabled

record WalletInventoryItem =
  wi_wallet_id :: string
  wi_chain_id :: int
  wi_address :: string
  wi_secret_ref :: string
  wi_status :: WalletStatus

definition WalletInventoryItem_post_init :: "WalletInventoryItem \<Rightarrow> WalletInventoryItem result" where
  "WalletInventoryItem_post_init w =
     (if wi_wallet_id w = [] \<or> length (wi_wallet_id w) > 128 then Inl (ValueError ''invalid_wallet_id'')
      else if wi_chain_id w \<le> 0 then Inl (ValueError ''invalid_chain_id'')
      else bindR (address (wi_address w)) (\<lambda>a.
        if wi_secret_ref w = [] \<or> length (wi_secret_ref w) > 512
           \<or> list_ex (\<lambda>c. (of_char c :: nat) \<in> {0, 10, 13}) (wi_secret_ref w) then Inl (ValueError ''invalid_secret_ref'')
        else Inr (w\<lparr>wi_address := a\<rparr>)))"

record UserWalletBinding =
  wb_user_id :: string
  wb_github_subject :: "string option"
  wb_wallet_id :: string
  wb_chain_id :: int
  wb_address :: string
  wb_bound_at :: datetime

definition UserWalletBinding_post_init :: "UserWalletBinding \<Rightarrow> UserWalletBinding result" where
  "UserWalletBinding_post_init b =
     (if wb_user_id b = [] \<or> (case wb_github_subject b of None \<Rightarrow> False | Some s \<Rightarrow> \<not> py_isdigit s) then
        Inl (ValueError ''invalid_wallet_binding'')
      else bindR (address (wb_address b)) (\<lambda>a. Inr (b\<lparr>wb_address := a\<rparr>)))"

record MandateLimits =
  ml_max_per_payment_atomic :: int
  ml_max_cumulative_atomic :: int

definition MandateLimits_post_init :: "MandateLimits \<Rightarrow> MandateLimits result" where
  "MandateLimits_post_init l =
     (if ml_max_per_payment_atomic l \<le> 0 then Inl (ValueError ''invalid_per_payment_limit'')
      else if ml_max_cumulative_atomic l < ml_max_per_payment_atomic l then Inl (ValueError ''invalid_cumulative_limit'')
      else Inr l)"

datatype AllowedPayeeRule = SameGameSettlementAccount

record PaymentMandate =
  pm_mandate_id :: string
  pm_user_id :: string
  pm_wallet_id :: string
  pm_game_id :: string
  pm_chain_id :: int
  pm_token_address :: string
  pm_limits :: MandateLimits
  pm_allowed_payees :: "string list"
  pm_valid_from :: datetime
  pm_expires_at :: datetime
  pm_reserved_atomic :: int
  pm_consumed_atomic :: int
  pm_revoked_at :: "datetime option"
  pm_allowed_payee_rule :: "AllowedPayeeRule option"
  pm_join_authorization_id :: "string option"

text \<open>The check of the payees: a fixed list without a rule, or a rule without a list.\<close>

definition payees_invalid :: "string list \<Rightarrow> PaymentMandate \<Rightarrow> py_error option" where
  "payees_invalid normalized_payees m =
     (case pm_allowed_payee_rule m of
        None \<Rightarrow>
          if normalized_payees = [] \<or> length (remdups normalized_payees) \<noteq> length normalized_payees
             \<or> pm_join_authorization_id m \<noteq> None then Some (ValueError ''invalid_allowed_payees'') else None
      | Some SameGameSettlementAccount \<Rightarrow>
          if normalized_payees \<noteq> [] \<or> pm_join_authorization_id m = None \<or> pm_join_authorization_id m = Some [] then
            Some (ValueError ''invalid_dynamic_payee_rule'') else None)"

definition PaymentMandate_post_init :: "PaymentMandate \<Rightarrow> PaymentMandate result" where
  "PaymentMandate_post_init m =
     (if pm_mandate_id m = [] \<or> pm_user_id m = [] \<or> pm_wallet_id m = [] \<or> pm_game_id m = [] then
        Inl (ValueError ''mandate_identifier_required'')
      else if pm_chain_id m \<le> 0 then Inl (ValueError ''invalid_chain_id'')
      else bindR (address (pm_token_address m)) (\<lambda>token.
           bindR (mapR address (pm_allowed_payees m)) (\<lambda>normalized_payees.
           case payees_invalid normalized_payees m of
             Some e \<Rightarrow> Inl e
           | None \<Rightarrow>
               bindR (dt_le (pm_expires_at m) (pm_valid_from m)) (\<lambda>ends_early.
                 if ends_early then Inl (ValueError ''invalid_mandate_window'')
                 else if \<not> is_aware (pm_valid_from m) \<or> \<not> is_aware (pm_expires_at m) then
                   Inl (ValueError ''mandate_timezone_required'')
                 else if pm_reserved_atomic m < 0 \<or> pm_consumed_atomic m < 0 then
                   Inl (ValueError ''invalid_mandate_accounting'')
                 else if pm_reserved_atomic m + pm_consumed_atomic m > ml_max_cumulative_atomic (pm_limits m) then
                   Inl (ValueError ''mandate_cumulative_limit'')
                 else Inr (m\<lparr>pm_token_address := token, pm_allowed_payees := normalized_payees\<rparr>)))))"

definition with_accounting :: "PaymentMandate \<Rightarrow> int \<Rightarrow> int \<Rightarrow> PaymentMandate result" where
  "with_accounting m reserved_atomic consumed_atomic =
     PaymentMandate_post_init (m\<lparr>pm_reserved_atomic := reserved_atomic, pm_consumed_atomic := consumed_atomic\<rparr>)"

record SettlementTerms =
  st_settlement_intent_id :: string
  st_intent_hash :: string
  st_game_id :: string
  st_payer :: string
  st_payee :: string
  st_chain_id :: int
  st_token_address :: string
  st_token_symbol :: utext
  st_token_decimals :: int
  st_token_eip712_name :: utext
  st_token_eip712_version :: utext
  st_amount_atomic :: int
  st_resource_url :: string

definition starts_with :: "string \<Rightarrow> string \<Rightarrow> bool" where
  "starts_with s p \<longleftrightarrow> take (length p) s = p"

definition SettlementTerms_post_init :: "SettlementTerms \<Rightarrow> SettlementTerms result" where
  "SettlementTerms_post_init t =
     (if st_settlement_intent_id t = [] \<or> st_game_id t = [] then Inl (ValueError ''settlement_identifier_required'')
      else if \<not> intent_hash_pattern (st_intent_hash t) then Inl (ValueError ''invalid_intent_hash'')
      else bindR (address (st_payer t)) (\<lambda>payer.
           bindR (address (st_payee t)) (\<lambda>payee.
           bindR (address (st_token_address t)) (\<lambda>token.
             if payer = payee then Inl (ValueError ''payer_and_payee_must_differ'')
             else if st_chain_id t \<le> 0 \<or> st_token_decimals t < 0 then Inl (ValueError ''invalid_token_config'')
             else if st_token_symbol t = [] \<or> st_amount_atomic t \<le> 0 then Inl (ValueError ''invalid_payment_amount'')
             else if st_token_eip712_name t = [] \<or> length (st_token_eip712_name t) > 128
                     \<or> st_token_eip712_version t = [] \<or> length (st_token_eip712_version t) > 32 then
               Inl (ValueError ''invalid_token_eip712_domain'')
             else if \<not> (starts_with (st_resource_url t) ''https://'' \<or> starts_with (st_resource_url t) ''http://localhost'') then
               Inl (ValueError ''invalid_resource_url'')
             else Inr (t\<lparr>st_payer := payer, st_payee := payee, st_token_address := token\<rparr>)))))"

datatype ReservationStatus = Reserved | Submitted | Consumed | Released

record PaymentReservation =
  rv_reservation_id :: string
  rv_mandate_id :: string
  rv_settlement_intent_id :: string
  rv_intent_hash :: string
  rv_amount_atomic :: int
  rv_payee :: string
  rv_status :: ReservationStatus
  rv_reserved_at :: datetime
  rv_finalized_at :: "datetime option"
  rv_tx_hash :: "string option"
  rv_release_reason :: "string option"

text \<open>The fields that must be set or unset in each status.\<close>

definition status_fields_error :: "PaymentReservation \<Rightarrow> py_error option" where
  "status_fields_error r =
     (case rv_status r of
        Reserved \<Rightarrow> if rv_finalized_at r \<noteq> None \<or> rv_tx_hash r \<noteq> None \<or> rv_release_reason r \<noteq> None then
                      Some (ValueError ''invalid_reserved_payment'') else None
      | Submitted \<Rightarrow> if rv_finalized_at r \<noteq> None \<or> rv_tx_hash r = None \<or> rv_release_reason r \<noteq> None then
                       Some (ValueError ''invalid_submitted_payment'') else None
      | Consumed \<Rightarrow> if rv_finalized_at r = None \<or> rv_tx_hash r = None \<or> rv_release_reason r \<noteq> None then
                      Some (ValueError ''invalid_consumed_payment'') else None
      | Released \<Rightarrow> if rv_finalized_at r = None \<or> rv_tx_hash r \<noteq> None \<or> rv_release_reason r = None \<or> rv_release_reason r = Some [] then
                      Some (ValueError ''invalid_released_payment'') else None)"

definition PaymentReservation_post_init :: "PaymentReservation \<Rightarrow> PaymentReservation result" where
  "PaymentReservation_post_init r =
     bindR (address (rv_payee r)) (\<lambda>payee.
       if (case rv_tx_hash r of None \<Rightarrow> False | Some t \<Rightarrow> \<not> hex_string 64 t) then Inl (ValueError ''invalid_transaction_hash'')
       else case status_fields_error r of Some e \<Rightarrow> Inl e | None \<Rightarrow> Inr (r\<lparr>rv_payee := payee\<rparr>))"

section \<open>The repository\<close>

record InMemoryPaymentRepository =
  ipr_wallet_inventory :: "(string, WalletInventoryItem) dict"
  ipr_wallet_bindings :: "(string, UserWalletBinding) dict"
  ipr_bindings_by_subject :: "(string, string) dict"
  ipr_mandates :: "(string, PaymentMandate) dict"
  ipr_reservations :: "(string, PaymentReservation) dict"
  ipr_reservations_by_intent :: "(string, string) dict"

definition InMemoryPaymentRepository_new :: "WalletInventoryItem list \<Rightarrow> InMemoryPaymentRepository" where
  "InMemoryPaymentRepository_new wallet_inventory =
     \<lparr>ipr_wallet_inventory = fold (\<lambda>w d. dput d (wi_wallet_id w) w) wallet_inventory [],
      ipr_wallet_bindings = [], ipr_bindings_by_subject = [], ipr_mandates = [], ipr_reservations = [], ipr_reservations_by_intent = []\<rparr>"

type_synonym 'a payment_call = "InMemoryPaymentRepository \<Rightarrow> 'a result \<times> InMemoryPaymentRepository"

definition identity_error :: "string \<Rightarrow> string option \<Rightarrow> py_error option" where
  "identity_error identity_provider provider_subject =
     (if identity_provider = ''github'' then
        if provider_subject = None \<or> provider_subject = Some [] then Some (WalletUnavailable ''platform_identity_required'') else None
      else if identity_provider = ''password'' then
        if provider_subject \<noteq> None then Some (WalletUnavailable ''platform_identity_conflict'') else None
      else Some (WalletUnavailable ''platform_identity_required''))"

definition available_wallets :: "InMemoryPaymentRepository \<Rightarrow> WalletInventoryItem list" where
  "available_wallets s =
     sort_key wi_wallet_id (filter (\<lambda>w. wi_status w = Available) (dvalues (ipr_wallet_inventory s)))"

definition get_or_bind_wallet :: "string \<Rightarrow> string \<Rightarrow> string option \<Rightarrow> datetime \<Rightarrow> UserWalletBinding payment_call" where
  "get_or_bind_wallet user_id identity_provider provider_subject now s =
     (case identity_error identity_provider provider_subject of
        Some e \<Rightarrow> (Inl e, s)
      | None \<Rightarrow>
        (case dget (ipr_wallet_bindings s) user_id of
           Some existing \<Rightarrow>
             if wb_github_subject existing \<noteq> provider_subject then (Inl (WalletUnavailable ''platform_identity_conflict''), s)
             else (Inr existing, s)
         | None \<Rightarrow>
             if (case provider_subject of None \<Rightarrow> False
                 | Some subject \<Rightarrow> (case dget (ipr_bindings_by_subject s) subject of None \<Rightarrow> False | Some u \<Rightarrow> u \<noteq> user_id)) then
               (Inl (WalletUnavailable ''platform_identity_conflict''), s)
             else (case available_wallets s of
                [] \<Rightarrow> (Inl (WalletUnavailable ''wallet_pool_exhausted''), s)
              | wallet # _ \<Rightarrow>
                  attempt (UserWalletBinding_post_init
                    \<lparr>wb_user_id = user_id, wb_github_subject = provider_subject, wb_wallet_id = wi_wallet_id wallet,
                     wb_chain_id = wi_chain_id wallet, wb_address = wi_address wallet, wb_bound_at = now\<rparr>) s (\<lambda>binding.
                  attempt (WalletInventoryItem_post_init (wallet\<lparr>wi_status := Bound\<rparr>)) s (\<lambda>bound.
                    (Inr binding,
                     s\<lparr>ipr_wallet_inventory := dput (ipr_wallet_inventory s) (wi_wallet_id wallet) bound,
                       ipr_wallet_bindings := dput (ipr_wallet_bindings s) user_id binding,
                       ipr_bindings_by_subject := (case provider_subject of None \<Rightarrow> ipr_bindings_by_subject s
                          | Some subject \<Rightarrow> dput (ipr_bindings_by_subject s) subject user_id)\<rparr>))))))"

definition wallet_for_user :: "InMemoryPaymentRepository \<Rightarrow> string \<Rightarrow> UserWalletBinding option" where
  "wallet_for_user s user_id = dget (ipr_wallet_bindings s) user_id"

definition same_game_user :: "PaymentMandate \<Rightarrow> PaymentMandate \<Rightarrow> bool" where
  "same_game_user value mandate \<longleftrightarrow> pm_user_id value = pm_user_id mandate \<and> pm_game_id value = pm_game_id mandate
     \<and> pm_revoked_at value = None \<and> pm_mandate_id value \<noteq> pm_mandate_id mandate"

text \<open>The first loop of \<open>create_mandate\<close>, over the items as they were when it started. Stored mandates and
  \<open>datetime.now(timezone.utc)\<close> are aware, so their comparison is one of instants.\<close>

fun revoke_expired :: "PaymentMandate \<Rightarrow> datetime \<Rightarrow> (string \<times> PaymentMandate) list \<Rightarrow> (string, PaymentMandate) dict
    \<Rightarrow> unit result \<times> (string, PaymentMandate) dict" where
  "revoke_expired mandate observed_at [] d = (Inr (), d)"
| "revoke_expired mandate observed_at ((mandate_id, value) # items) d =
     (if same_game_user value mandate \<and> instant (pm_expires_at value) \<le> instant observed_at then
        attempt (PaymentMandate_post_init (value\<lparr>pm_revoked_at := Some observed_at\<rparr>)) d (\<lambda>revoked.
          revoke_expired mandate observed_at items (dput d mandate_id revoked))
      else revoke_expired mandate observed_at items d)"

definition create_mandate :: "datetime \<Rightarrow> PaymentMandate \<Rightarrow> PaymentMandate payment_call" where
  "create_mandate observed_at mandate s =
     (if (case dget (ipr_mandates s) (pm_mandate_id mandate) of None \<Rightarrow> False | Some current \<Rightarrow> current \<noteq> mandate) then
        (Inl (MandateRejected ''mandate_conflict''), s)
      else (case revoke_expired mandate observed_at (ipr_mandates s) (ipr_mandates s) of
          (Inl e, d) \<Rightarrow> (Inl e, s\<lparr>ipr_mandates := d\<rparr>)
        | (Inr _, d) \<Rightarrow>
            if list_ex (\<lambda>value. same_game_user value mandate) (dvalues d) then
              (Inl (MandateRejected ''active_game_mandate_exists''), s\<lparr>ipr_mandates := d\<rparr>)
            else (Inr mandate, s\<lparr>ipr_mandates := dput d (pm_mandate_id mandate) mandate\<rparr>)))"

text \<open>The loop of \<open>active_mandate\<close>; the chained comparison stops at the first false one.\<close>

fun active_loop :: "string \<Rightarrow> string \<Rightarrow> datetime \<Rightarrow> PaymentMandate list \<Rightarrow> PaymentMandate option result" where
  "active_loop user_id game_id now [] = Inr None"
| "active_loop user_id game_id now (m # ms) =
     (if pm_user_id m = user_id \<and> pm_game_id m = game_id \<and> pm_revoked_at m = None then
        bindR (dt_le (pm_valid_from m) now) (\<lambda>started.
          if started then bindR (dt_less now (pm_expires_at m)) (\<lambda>running.
            if running then Inr (Some m) else active_loop user_id game_id now ms)
          else active_loop user_id game_id now ms)
      else active_loop user_id game_id now ms)"

definition active_mandate :: "InMemoryPaymentRepository \<Rightarrow> string \<Rightarrow> string \<Rightarrow> datetime \<Rightarrow> PaymentMandate option result" where
  "active_mandate s user_id game_id now = active_loop user_id game_id now (dvalues (ipr_mandates s))"

definition validate_mandate :: "PaymentMandate \<Rightarrow> SettlementTerms \<Rightarrow> datetime \<Rightarrow> unit result" where
  "validate_mandate mandate terms now =
     (if pm_revoked_at mandate \<noteq> None then Inl (MandateRejected ''mandate_revoked'')
      else bindR (dt_less now (pm_valid_from mandate)) (\<lambda>early.
        if early then Inl (MandateRejected ''mandate_not_yet_valid'')
        else bindR (dt_le (pm_expires_at mandate) now) (\<lambda>late.
          if late then Inl (MandateRejected ''mandate_expired'')
          else if pm_game_id mandate \<noteq> st_game_id terms then Inl (MandateRejected ''mandate_game_mismatch'')
          else if pm_chain_id mandate \<noteq> st_chain_id terms then Inl (MandateRejected ''mandate_chain_mismatch'')
          else if pm_token_address mandate \<noteq> st_token_address terms then Inl (MandateRejected ''mandate_token_mismatch'')
          else if st_payee terms \<notin> set (pm_allowed_payees mandate) then Inl (MandateRejected ''mandate_payee_not_allowed'')
          else if st_amount_atomic terms > ml_max_per_payment_atomic (pm_limits mandate) then
            Inl (MandateRejected ''mandate_per_payment_limit'')
          else if pm_reserved_atomic mandate + pm_consumed_atomic mandate + st_amount_atomic terms
                  > ml_max_cumulative_atomic (pm_limits mandate) then
            Inl (MandateRejected ''mandate_cumulative_limit'')
          else Inr ())))"

definition reservation_identifier :: "string \<Rightarrow> SettlementTerms \<Rightarrow> string" where
  "reservation_identifier mandate_id terms =
     payment_identifier [(''kind'', ''arena402.payment-reservation.v1''), (''mandateId'', mandate_id),
                 (''settlementIntentId'', st_settlement_intent_id terms), (''intentHash'', st_intent_hash terms)]"

definition reserve_mandate :: "string \<Rightarrow> SettlementTerms \<Rightarrow> datetime \<Rightarrow> PaymentReservation payment_call" where
  "reserve_mandate mandate_id terms now s =
     (case dget (ipr_reservations_by_intent s) (st_settlement_intent_id terms) of
        Some existing_id \<Rightarrow>
          (case dget (ipr_reservations s) existing_id of
             None \<Rightarrow> (Inl (KeyError existing_id), s)
           | Some existing \<Rightarrow>
               if rv_mandate_id existing \<noteq> mandate_id \<or> rv_intent_hash existing \<noteq> st_intent_hash terms
                  \<or> rv_amount_atomic existing \<noteq> st_amount_atomic terms \<or> rv_payee existing \<noteq> st_payee terms then
                 (Inl (MandateRejected ''reservation_intent_conflict''), s)
               else (Inr existing, s))
      | None \<Rightarrow>
          (case dget (ipr_mandates s) mandate_id of
             None \<Rightarrow> (Inl (MandateRejected ''mandate_not_found''), s)
           | Some mandate \<Rightarrow>
               attempt (validate_mandate mandate terms now) s (\<lambda>_.
               let reservation_id = reservation_identifier mandate_id terms in
               attempt (PaymentReservation_post_init
                 \<lparr>rv_reservation_id = reservation_id, rv_mandate_id = mandate_id,
                  rv_settlement_intent_id = st_settlement_intent_id terms, rv_intent_hash = st_intent_hash terms,
                  rv_amount_atomic = st_amount_atomic terms, rv_payee = st_payee terms, rv_status = Reserved,
                  rv_reserved_at = now, rv_finalized_at = None, rv_tx_hash = None, rv_release_reason = None\<rparr>) s (\<lambda>reservation.
               attempt (with_accounting mandate (pm_reserved_atomic mandate + st_amount_atomic terms) (pm_consumed_atomic mandate)) s (\<lambda>charged.
                 (Inr reservation,
                  s\<lparr>ipr_mandates := dput (ipr_mandates s) mandate_id charged,
                    ipr_reservations := dput (ipr_reservations s) reservation_id reservation,
                    ipr_reservations_by_intent := dput (ipr_reservations_by_intent s) (st_settlement_intent_id terms) reservation_id\<rparr>))))))"

definition reservation_of :: "InMemoryPaymentRepository \<Rightarrow> string \<Rightarrow> PaymentReservation result" where
  "reservation_of s reservation_id =
     (case dget (ipr_reservations s) reservation_id of None \<Rightarrow> Inl (MandateRejected ''reservation_not_found'') | Some r \<Rightarrow> Inr r)"

text \<open>The shared end of \<open>consume_reservation\<close> and \<open>release_reservation\<close>: adjust the mandate, then store the reservation.\<close>

definition finalize :: "string \<Rightarrow> PaymentReservation \<Rightarrow> PaymentReservation \<Rightarrow> int \<Rightarrow> PaymentReservation payment_call" where
  "finalize reservation_id reservation final consumed s =
     (case dget (ipr_mandates s) (rv_mandate_id reservation) of
        None \<Rightarrow> (Inl (KeyError (rv_mandate_id reservation)), s)
      | Some mandate \<Rightarrow>
          attempt (with_accounting mandate (pm_reserved_atomic mandate - rv_amount_atomic reservation)
                     (pm_consumed_atomic mandate + consumed)) s (\<lambda>charged.
            (Inr final,
             s\<lparr>ipr_mandates := dput (ipr_mandates s) (pm_mandate_id mandate) charged,
               ipr_reservations := dput (ipr_reservations s) reservation_id final\<rparr>)))"

definition consume_reservation :: "string \<Rightarrow> string \<Rightarrow> datetime \<Rightarrow> PaymentReservation payment_call" where
  "consume_reservation reservation_id tx_hash now s =
     attempt (reservation_of s reservation_id) s (\<lambda>reservation.
       if rv_status reservation = Consumed then
         if rv_tx_hash reservation \<noteq> Some (lower tx_hash) then (Inl (MandateRejected ''reservation_tx_conflict''), s)
         else (Inr reservation, s)
       else if rv_status reservation \<noteq> Reserved \<and> rv_status reservation \<noteq> Submitted then
         (Inl (MandateRejected ''reservation_not_consumable''), s)
       else attempt (PaymentReservation_post_init
              (reservation\<lparr>rv_status := Consumed, rv_finalized_at := Some now, rv_tx_hash := Some (lower tx_hash)\<rparr>)) s (\<lambda>consumed.
              finalize reservation_id reservation consumed (rv_amount_atomic reservation) s))"

definition submit_reservation :: "string \<Rightarrow> string \<Rightarrow> datetime \<Rightarrow> PaymentReservation payment_call" where
  "submit_reservation reservation_id tx_hash now s =
     attempt (reservation_of s reservation_id) s (\<lambda>reservation.
       if rv_status reservation = Submitted \<or> rv_status reservation = Consumed then
         if rv_tx_hash reservation \<noteq> Some (lower tx_hash) then (Inl (MandateRejected ''reservation_tx_conflict''), s)
         else (Inr reservation, s)
       else if rv_status reservation \<noteq> Reserved then (Inl (MandateRejected ''reservation_not_submittable''), s)
       else attempt (PaymentReservation_post_init (reservation\<lparr>rv_status := Submitted, rv_tx_hash := Some (lower tx_hash)\<rparr>)) s (\<lambda>submitted.
              (Inr submitted, s\<lparr>ipr_reservations := dput (ipr_reservations s) reservation_id submitted\<rparr>)))"

definition release_reservation :: "string \<Rightarrow> string \<Rightarrow> datetime \<Rightarrow> PaymentReservation payment_call" where
  "release_reservation reservation_id reason now s =
     (if reason = [] \<or> length reason > 100 then (Inl (MandateRejected ''invalid_release_reason''), s)
      else attempt (reservation_of s reservation_id) s (\<lambda>reservation.
        if rv_status reservation = Released then
          if rv_release_reason reservation \<noteq> Some reason then (Inl (MandateRejected ''reservation_release_conflict''), s)
          else (Inr reservation, s)
        else if rv_status reservation \<noteq> Reserved then (Inl (MandateRejected ''reservation_not_releasable''), s)
        else attempt (PaymentReservation_post_init
               (reservation\<lparr>rv_status := Released, rv_finalized_at := Some now, rv_release_reason := Some reason\<rparr>)) s (\<lambda>released.
               finalize reservation_id reservation released 0 s)))"

definition revoke_mandate :: "string \<Rightarrow> string \<Rightarrow> datetime \<Rightarrow> PaymentMandate payment_call" where
  "revoke_mandate mandate_id user_id now s =
     (case dget (ipr_mandates s) mandate_id of
        None \<Rightarrow> (Inl (MandateRejected ''mandate_not_found''), s)
      | Some mandate \<Rightarrow>
          if pm_user_id mandate \<noteq> user_id then (Inl (MandateRejected ''mandate_not_found''), s)
          else if pm_revoked_at mandate = None then
            attempt (PaymentMandate_post_init (mandate\<lparr>pm_revoked_at := Some now\<rparr>)) s (\<lambda>revoked.
              (Inr revoked, s\<lparr>ipr_mandates := dput (ipr_mandates s) mandate_id revoked\<rparr>))
          else (Inr mandate, s))"

end
