(* ===== verification/Arena_X402.thy ===== *)
theory Arena_X402
  imports Arena_Payments
begin

text \<open>
  The x402 settlement: the declaration and the check of a payment in \<open>arena_payments/service.py\<close>, the facilitator
  clients of \<open>facilitator.py\<close> and the coordinator of \<open>coordinator.py\<close>, which spends a reservation of the payment repository.
  What the facilitator and the Arena recorder answer are arguments, and so is what other calls do to the repository
  while the coordinator waits. The answer of an HTTP call is a status with a body. JSON numbers are integers.
\<close>

section \<open>Declaring a payment\<close>

definition network_of :: "SettlementTerms \<Rightarrow> string" where
  "network_of terms = ''eip155:'' @ show_int (st_chain_id terms)"

definition payment_resource :: "SettlementTerms \<Rightarrow> json" where
  "payment_resource terms =
     JObj [(''url'', JStr (ascii (st_resource_url terms))),
           (''description'', JStr (ascii (''Arena 402 settlement '' @ st_settlement_intent_id terms))),
           (''mimeType'', JStr (ascii ''application/json''))]"

definition payment_requirement :: "SettlementTerms \<Rightarrow> json" where
  "payment_requirement terms =
     JObj [(''scheme'', JStr (ascii ''exact'')), (''network'', JStr (ascii (network_of terms))),
           (''asset'', JStr (ascii (st_token_address terms))), (''amount'', JStr (ascii (show_int (st_amount_atomic terms)))),
           (''payTo'', JStr (ascii (st_payee terms))), (''maxTimeoutSeconds'', JInt 600),
           (''extra'', JObj [(''name'', JStr (st_token_eip712_name terms)), (''version'', JStr (st_token_eip712_version terms)),
              (''arena402IntentHash'', JStr (ascii (st_intent_hash terms))),
              (''arena402SettlementIntentId'', JStr (ascii (st_settlement_intent_id terms)))])]"

definition payment_required :: "SettlementTerms \<Rightarrow> json" where
  "payment_required terms =
     JObj [(''x402Version'', JInt 2), (''resource'', payment_resource terms), (''accepts'', JArr [payment_requirement terms])]"

section \<open>Checking a payment\<close>

text \<open>\<open>json.dumps(value, sort_keys=True, separators=(",", ":"), ensure_ascii=True)\<close>: the text without \<open>ensure_ascii\<close>, in which a
  character that is not printable ASCII occurs only inside of strings, with each such character escaped.\<close>

definition ascii_unit :: "nat \<Rightarrow> utext" where
  "ascii_unit c =
     (if c \<le> 126 then [c]
      else if c < 65536 then [92, 117] @ hex4 c
      else [92, 117] @ hex4 (55296 + (c - 65536) div 1024) @ [92, 117] @ hex4 (56320 + (c - 65536) mod 1024))"

definition json_dumps_ascii :: "json \<Rightarrow> utext" where
  "json_dumps_ascii j = concat (map ascii_unit (json_dumps j))"

fun is_dict :: "json \<Rightarrow> bool" where
  "is_dict (JObj _) = True"
| "is_dict _ = False"

definition same_json :: "json option \<Rightarrow> json \<Rightarrow> bool" where
  "same_json left right =
     (case left of None \<Rightarrow> False | Some l \<Rightarrow> is_dict l \<and> is_dict right \<and> json_dumps_ascii l = json_dumps_ascii right)"

definition hex_text :: "nat \<Rightarrow> utext \<Rightarrow> bool" where
  "hex_text n t \<longleftrightarrow> take 2 t = ascii ''0x'' \<and> length t = n + 2 \<and> list_all (\<lambda>c. c < 256 \<and> is_hex (char_of c)) (drop 2 t)"

text \<open>\<open>str.lower\<close>, as far as a comparison with a lower-case ASCII text sees it\<close>

definition lower_text :: "utext \<Rightarrow> utext" where
  "lower_text t = map (\<lambda>c. if 65 \<le> c \<and> c \<le> 90 then c + 32 else c) t"

definition same_hex :: "json option \<Rightarrow> string \<Rightarrow> bool" where
  "same_hex supplied value = (case supplied of Some (JStr t) \<Rightarrow> lower_text t = ascii (lower value) | _ \<Rightarrow> False)"

text \<open>\<open>int(value)\<close>: a text may have blanks around it, a sign and single underscores between its digits, which can be digits of
  any script; \<open>digit\<close> is the value that the Unicode database gives a digit.\<close>

fun int_digits :: "(nat \<Rightarrow> nat option) \<Rightarrow> nat \<Rightarrow> nat \<Rightarrow> bool \<Rightarrow> utext \<Rightarrow> (nat \<times> nat) option" where
  "int_digits digit acc n after [] = (if after then Some (acc, n) else None)"
| "int_digits digit acc n after (c # cs) =
     (if c = 95 then (if after then int_digits digit acc n False cs else None)
      else case digit c of None \<Rightarrow> None | Some d \<Rightarrow> int_digits digit (acc * 10 + d) (Suc n) True cs)"

definition MAX_STR_DIGITS :: nat where "MAX_STR_DIGITS = 4300"

definition int_text :: "(nat \<Rightarrow> nat option) \<Rightarrow> utext \<Rightarrow> int option" where
  "int_text digit t =
     (let u = rev (dropWhile py_isspace (rev (dropWhile py_isspace t)));
          (negative, v) = (case u of c # cs \<Rightarrow> if c = 45 then (True, cs) else if c = 43 then (False, cs) else (False, u) | [] \<Rightarrow> (False, [])) in
      case int_digits digit 0 0 False v of
        None \<Rightarrow> None
      | Some (m, n) \<Rightarrow> if n > MAX_STR_DIGITS then None else Some (if negative then - int m else int m))"

fun int_of_json :: "(nat \<Rightarrow> nat option) \<Rightarrow> json \<Rightarrow> int option" where
  "int_of_json digit (JInt i) = Some i"
| "int_of_json digit (JBool b) = Some (if b then 1 else 0)"
| "int_of_json digit (JStr t) = int_text digit t"
| "int_of_json digit _ = None"

definition int_member :: "(nat \<Rightarrow> nat option) \<Rightarrow> (string, json) dict \<Rightarrow> string \<Rightarrow> int option" where
  "int_member digit d k = (case dget d k of None \<Rightarrow> None | Some v \<Rightarrow> int_of_json digit v)"

text \<open>\<open>int(now.timestamp())\<close>\<close>

definition timestamp :: "datetime \<Rightarrow> int" where
  "timestamp now = (if instant now \<ge> 0 then instant now div 1000000 else - ((- instant now) div 1000000))"

definition expected_nonce :: "SettlementTerms \<Rightarrow> string" where
  "expected_nonce terms = ''0x'' @ (if take 7 (st_intent_hash terms) = ''sha256:'' then drop 7 (st_intent_hash terms) else st_intent_hash terms)"

definition authorization_matches :: "SettlementTerms \<Rightarrow> (string, json) dict \<Rightarrow> bool" where
  "authorization_matches terms authorization \<longleftrightarrow>
     same_hex (dget authorization ''from'') (st_payer terms) \<and> same_hex (dget authorization ''to'') (st_payee terms)
     \<and> dget authorization ''value'' = Some (JStr (ascii (show_int (st_amount_atomic terms))))
     \<and> same_hex (dget authorization ''nonce'') (expected_nonce terms)"

definition check_window :: "(nat \<Rightarrow> nat option) \<Rightarrow> (string, json) dict \<Rightarrow> datetime \<Rightarrow> unit result" where
  "check_window digit authorization now =
     (case (int_member digit authorization ''validAfter'', int_member digit authorization ''validBefore'') of
        (Some valid_after, Some valid_before) \<Rightarrow>
          if valid_after > timestamp now \<or> valid_before \<le> timestamp now then Inl (X402ProtocolError ''authorization_outside_valid_window'')
          else if valid_before - timestamp now > 600 then Inl (X402ProtocolError ''authorization_window_too_long'')
          else Inr ()
      | _ \<Rightarrow> Inl (X402ProtocolError ''invalid_authorization_window''))"

definition check_scheme_payload :: "(nat \<Rightarrow> nat option) \<Rightarrow> SettlementTerms \<Rightarrow> (string, json) dict \<Rightarrow> datetime \<Rightarrow> (string, json) dict result" where
  "check_scheme_payload digit terms scheme_payload now =
     (case (dget scheme_payload ''signature'', dget scheme_payload ''authorization'') of
        (Some (JStr signature), Some (JObj authorization)) \<Rightarrow>
          if \<not> hex_text 130 signature then Inl (X402ProtocolError ''invalid_payment_payload'')
          else if \<not> authorization_matches terms authorization then Inl (X402ProtocolError ''authorization_intent_mismatch'')
          else bindR (check_window digit authorization now) (\<lambda>_. Inr scheme_payload)
      | _ \<Rightarrow> Inl (X402ProtocolError ''invalid_payment_payload''))"

definition validate_payment_payload :: "(nat \<Rightarrow> nat option) \<Rightarrow> SettlementTerms \<Rightarrow> (string, json) dict \<Rightarrow> datetime \<Rightarrow> (string, json) dict result" where
  "validate_payment_payload digit terms payload now =
     (if dget payload ''x402Version'' \<noteq> Some (JInt 2) then Inl (X402ProtocolError ''unsupported_x402_version'')
      else if \<not> same_json (dget payload ''resource'') (payment_resource terms) then Inl (X402ProtocolError ''payment_resource_mismatch'')
      else if \<not> same_json (dget payload ''accepted'') (payment_requirement terms) then Inl (X402ProtocolError ''payment_requirement_mismatch'')
      else case dget payload ''payload'' of
        Some (JObj scheme_payload) \<Rightarrow> check_scheme_payload digit terms scheme_payload now
      | _ \<Rightarrow> Inl (X402ProtocolError ''invalid_payment_payload''))"

section \<open>Facilitators\<close>

text \<open>What an awaited call gives: a value, a classified \<open>FacilitatorError\<close> with its code and whether the outcome is ambiguous, or
  any other exception.\<close>

datatype 'a outcome = Returned 'a | FacilitatorRaised string bool | OtherRaised py_error

record FacilitatorSettlement =
  fs_success :: bool
  fs_transaction :: "utext option"
  fs_network :: utext
  fs_payer :: "utext option"
  fs_error_reason :: "utext option"
  fs_facilitator_id :: string

text \<open>The answer to a request: none in time or over the network, another exception of the HTTP library, or a status with a body
  that may be no JSON.\<close>

datatype http_reply = Unreachable | Interrupted py_error | Reply int "json option"

datatype facilitator_path = Verify | Settle

definition facilitator_post :: "facilitator_path \<Rightarrow> http_reply \<Rightarrow> (string, json) dict outcome" where
  "facilitator_post path reply =
     (case reply of
        Unreachable \<Rightarrow> FacilitatorRaised ''facilitator_unreachable'' (path = Settle)
      | Interrupted e \<Rightarrow> OtherRaised e
      | Reply status body \<Rightarrow>
          if status \<ge> 500 then FacilitatorRaised ''facilitator_unavailable'' (path = Settle)
          else if status \<ge> 400 then FacilitatorRaised ''facilitator_rejected'' False
          else (case body of
              Some (JObj value) \<Rightarrow> Returned value
            | _ \<Rightarrow> FacilitatorRaised ''facilitator_invalid_response'' (path = Settle)))"

fun map_outcome :: "('a \<Rightarrow> 'b) \<Rightarrow> 'a outcome \<Rightarrow> 'b outcome" where
  "map_outcome f (Returned x) = Returned (f x)"
| "map_outcome f (FacilitatorRaised c a) = FacilitatorRaised c a"
| "map_outcome f (OtherRaised e) = OtherRaised e"

fun bind_outcome :: "'a outcome \<Rightarrow> ('a \<Rightarrow> 'b outcome) \<Rightarrow> 'b outcome" where
  "bind_outcome (Returned x) f = f x"
| "bind_outcome (FacilitatorRaised c a) f = FacilitatorRaised c a"
| "bind_outcome (OtherRaised e) f = OtherRaised e"

definition http_verify :: "http_reply \<Rightarrow> bool outcome" where
  "http_verify reply = map_outcome (\<lambda>value. dget value ''isValid'' = Some (JBool True)) (facilitator_post Verify reply)"

text \<open>\<open>str(value)\<close>; \<open>py_repr\<close> is the notation of Python for arrays and objects.\<close>

definition str_of :: "(json \<Rightarrow> utext) \<Rightarrow> json \<Rightarrow> utext" where
  "str_of py_repr v =
     (case v of JStr t \<Rightarrow> t | JNull \<Rightarrow> ascii ''None'' | JBool b \<Rightarrow> ascii (if b then ''True'' else ''False'') | JInt i \<Rightarrow> ascii (show_int i)
      | _ \<Rightarrow> py_repr v)"

definition optional_str :: "(json \<Rightarrow> utext) \<Rightarrow> json option \<Rightarrow> utext option" where
  "optional_str py_repr v = (case v of None \<Rightarrow> None | Some JNull \<Rightarrow> None | Some j \<Rightarrow> Some (str_of py_repr j))"

fun json_true :: "json \<Rightarrow> bool" where
  "json_true JNull = False"
| "json_true (JBool b) = b"
| "json_true (JInt i) = (i \<noteq> 0)"
| "json_true (JStr t) = (t \<noteq> [])"
| "json_true (JArr xs) = (xs \<noteq> [])"
| "json_true (JObj kvs) = (kvs \<noteq> [])"

definition settlement_of :: "(json \<Rightarrow> utext) \<Rightarrow> string \<Rightarrow> string \<Rightarrow> (string, json) dict \<Rightarrow> FacilitatorSettlement" where
  "settlement_of py_repr facilitator_id network value =
     \<lparr>fs_success = (dget value ''success'' = Some (JBool True)),
      fs_transaction = (case dget value ''transaction'' of Some (JStr t) \<Rightarrow> Some t | _ \<Rightarrow> None),
      fs_network = (case dget value ''network'' of None \<Rightarrow> ascii network | Some v \<Rightarrow> if json_true v then str_of py_repr v else ascii network),
      fs_payer = optional_str py_repr (dget value ''payer''), fs_error_reason = optional_str py_repr (dget value ''errorReason''),
      fs_facilitator_id = facilitator_id\<rparr>"

definition http_settle :: "(json \<Rightarrow> utext) \<Rightarrow> string \<Rightarrow> string \<Rightarrow> http_reply \<Rightarrow> FacilitatorSettlement outcome" where
  "http_settle py_repr facilitator_id network reply =
     map_outcome (settlement_of py_repr facilitator_id network) (facilitator_post Settle reply)"

text \<open>\<open>ShardedFacilitatorClient\<close>: an intent goes to the shard that its hash selects.\<close>

definition facilitator_id_ok :: "string \<Rightarrow> bool" where
  "facilitator_id_ok k \<longleftrightarrow> k \<noteq> [] \<and> length k \<le> 128
     \<and> list_all (\<lambda>c. is_digit c \<or> (97 \<le> (of_char (lower_char c) :: nat) \<and> (of_char (lower_char c) :: nat) \<le> 122) \<or> c \<in> set ''._:-'') k"

definition ShardedFacilitatorClient_new :: "(string, 'c) dict \<Rightarrow> (string \<times> 'c) list result" where
  "ShardedFacilitatorClient_new shards =
     (if length shards < 2 \<or> length shards > 64 then Inl (ValueError ''facilitator_shard_count_must_be_between_2_and_64'')
      else if \<not> list_all (\<lambda>(k, c). facilitator_id_ok k) shards then Inl (ValueError ''invalid_facilitator_id'')
      else Inr (sort_key fst shards))"

definition route_key :: "(string, json) dict \<Rightarrow> string outcome" where
  "route_key payment_requirements =
     (case dget payment_requirements ''extra'' of
        Some (JObj extra) \<Rightarrow>
          (case dget extra ''arena402IntentHash'' of
             Some (JStr t) \<Rightarrow>
               if list_all (\<lambda>c. c < 256) t \<and> intent_hash_pattern (map char_of t) then Returned (map char_of t)
               else FacilitatorRaised ''facilitator_route_key_invalid'' False
           | _ \<Rightarrow> FacilitatorRaised ''facilitator_route_key_invalid'' False)
      | _ \<Rightarrow> FacilitatorRaised ''facilitator_route_key_invalid'' False)"

definition from_bytes_big :: "bytes \<Rightarrow> nat" where
  "from_bytes_big bs = foldl (\<lambda>n b. n * 256 + b) 0 bs"

definition shard_for :: "(string \<times> 'c) list \<Rightarrow> (string, json) dict \<Rightarrow> (string \<times> 'c) outcome" where
  "shard_for shards payment_requirements =
     map_outcome (\<lambda>key. shards ! (from_bytes_big (take 8 (sha256 (ascii key))) mod length shards)) (route_key payment_requirements)"

text \<open>A client: its answers to one payment and its own identity, where it has one.\<close>

record facilitator_client =
  cl_verify :: "bool outcome"
  cl_settle :: "FacilitatorSettlement outcome"
  cl_facilitator_id_for :: "string option"

definition sharded_facilitator_id_for :: "(string \<times> facilitator_client) list \<Rightarrow> (string, json) dict \<Rightarrow> string outcome" where
  "sharded_facilitator_id_for shards req =
     map_outcome (\<lambda>(route_id, client). case cl_facilitator_id_for client of None \<Rightarrow> route_id | Some i \<Rightarrow> i) (shard_for shards req)"

definition sharded_verify :: "(string \<times> facilitator_client) list \<Rightarrow> (string, json) dict \<Rightarrow> bool outcome" where
  "sharded_verify shards req = bind_outcome (shard_for shards req) (\<lambda>(_, client). cl_verify client)"

definition sharded_settle :: "(string \<times> facilitator_client) list \<Rightarrow> (string, json) dict \<Rightarrow> FacilitatorSettlement outcome" where
  "sharded_settle shards req =
     bind_outcome (shard_for shards req) (\<lambda>(_, client).
     bind_outcome (cl_settle client) (\<lambda>result.
     map_outcome (\<lambda>i. result\<lparr>fs_facilitator_id := i\<rparr>) (sharded_facilitator_id_for shards req)))"

definition DisabledFacilitatorClient :: facilitator_client where
  "DisabledFacilitatorClient =
     \<lparr>cl_verify = FacilitatorRaised ''facilitator_disabled'' False, cl_settle = FacilitatorRaised ''facilitator_disabled'' False,
      cl_facilitator_id_for = None\<rparr>"

text \<open>The client of one HTTP facilitator that answers the two requests with \<open>v\<close> and \<open>r\<close>.\<close>

definition HttpX402FacilitatorClient :: "(json \<Rightarrow> utext) \<Rightarrow> string \<Rightarrow> string \<Rightarrow> string \<Rightarrow> http_reply \<Rightarrow> http_reply \<Rightarrow> facilitator_client" where
  "HttpX402FacilitatorClient py_repr facilitator_id broadcast_identity network v r =
     \<lparr>cl_verify = http_verify v, cl_settle = http_settle py_repr facilitator_id network r, cl_facilitator_id_for = Some broadcast_identity\<rparr>"

section \<open>The coordinator\<close>

datatype execution_status = ExSubmitted | ExUnknown | ExFailed

record X402ExecutionResult =
  er_success :: bool
  er_status :: execution_status
  er_transaction :: "utext option"
  er_network :: utext
  er_payer :: "utext option"
  er_error_reason :: "utext option"

fun execution_status_value :: "execution_status \<Rightarrow> string" where
  "execution_status_value ExSubmitted = ''submitted''"
| "execution_status_value ExUnknown = ''unknown''"
| "execution_status_value ExFailed = ''failed''"

definition to_response :: "X402ExecutionResult \<Rightarrow> (string, json) dict" where
  "to_response r =
     [(''success'', JBool (er_success r)), (''status'', JStr (ascii (execution_status_value (er_status r)))),
      (''transaction'', JStr (case er_transaction r of None \<Rightarrow> [] | Some t \<Rightarrow> t)), (''network'', JStr (er_network r))]
     @ (case er_payer r of None \<Rightarrow> [] | Some p \<Rightarrow> [(''payer'', JStr p)])
     @ (case er_error_reason r of None \<Rightarrow> [] | Some e \<Rightarrow> [(''errorReason'', JStr e)])"

text \<open>
  The other parties of one execution: the answers of the facilitator and of the Arena recorder, and what other calls do to
  the repository during each of the four waits.
\<close>

record parties =
  pt_verify :: "bool outcome"
  pt_approval :: "unit outcome"
  pt_settle :: "FacilitatorSettlement outcome"
  pt_submission :: "unit outcome"
  pt_others :: "facilitator_path \<Rightarrow> bool \<Rightarrow> InMemoryPaymentRepository \<Rightarrow> InMemoryPaymentRepository"

text \<open>What the coordinator asked of them, in order.\<close>

datatype external_call =
    AskVerify
  | AskApproval string string utext
  | AskSettle
  | AskSubmission string utext utext string

text \<open>\<open>str(payment_payload["payload"]["authorization"]["nonce"])\<close> of a payload that passed its check\<close>

definition authorization_nonce :: "(string, json) dict \<Rightarrow> utext" where
  "authorization_nonce payload =
     (case dget payload ''payload'' of
        Some (JObj p) \<Rightarrow>
          (case dget p ''authorization'' of
             Some (JObj a) \<Rightarrow> (case dget a ''nonce'' of Some (JStr t) \<Rightarrow> t | _ \<Rightarrow> [])
           | _ \<Rightarrow> [])
      | _ \<Rightarrow> [])"

text \<open>The body of the \<open>try\<close>: how it ends, whether the settlement had started, the calls it made and the repository it leaves.\<close>

type_synonym try_body = "X402ExecutionResult outcome \<times> bool \<times> external_call list \<times> InMemoryPaymentRepository"

definition failed_execution :: "utext \<Rightarrow> utext option \<Rightarrow> utext \<Rightarrow> X402ExecutionResult" where
  "failed_execution network payer reason =
     \<lparr>er_success = False, er_status = ExFailed, er_transaction = None, er_network = network, er_payer = payer, er_error_reason = Some reason\<rparr>"

definition unknown_execution :: "utext \<Rightarrow> utext \<Rightarrow> X402ExecutionResult" where
  "unknown_execution network reason =
     \<lparr>er_success = False, er_status = ExUnknown, er_transaction = None, er_network = network, er_payer = None, er_error_reason = Some reason\<rparr>"

text \<open>A call of the repository inside of the \<open>try\<close>.\<close>

definition release_then :: "string \<Rightarrow> string \<Rightarrow> datetime \<Rightarrow> X402ExecutionResult \<Rightarrow> bool \<Rightarrow> external_call list \<Rightarrow> InMemoryPaymentRepository \<Rightarrow> try_body" where
  "release_then reservation_id reason now r started calls s =
     (case release_reservation reservation_id reason now s of
        (Inl e, s') \<Rightarrow> (OtherRaised e, started, calls, s')
      | (Inr _, s') \<Rightarrow> (Returned r, started, calls, s'))"

text \<open>A transaction that is no ASCII text is no hash: the constructor of the reservation raises.\<close>

definition submit_text :: "string \<Rightarrow> utext \<Rightarrow> datetime \<Rightarrow> PaymentReservation payment_call" where
  "submit_text reservation_id tx now s =
     (if list_all (\<lambda>c. c < 128) tx then submit_reservation reservation_id (map char_of tx) now s
      else (Inl (ValueError ''invalid_transaction_hash''), s))"

definition settle_part :: "SettlementTerms \<Rightarrow> string \<Rightarrow> utext \<Rightarrow> datetime \<Rightarrow> parties \<Rightarrow> external_call list \<Rightarrow> InMemoryPaymentRepository \<Rightarrow> try_body" where
  "settle_part terms reservation_id nonce now w calls s =
     (let calls = calls @ [AskSettle]; s = pt_others w Settle False s in
      case pt_settle w of
        FacilitatorRaised c a \<Rightarrow> (FacilitatorRaised c a, True, calls, s)
      | OtherRaised e \<Rightarrow> (OtherRaised e, True, calls, s)
      | Returned settled \<Rightarrow>
          (case (fs_success settled, fs_transaction settled) of
             (True, Some tx) \<Rightarrow>
               (let calls = calls @ [AskSubmission (st_settlement_intent_id terms) tx nonce (st_intent_hash terms)]; s = pt_others w Settle True s in
                case pt_submission w of
                  FacilitatorRaised c a \<Rightarrow> (FacilitatorRaised c a, True, calls, s)
                | OtherRaised e \<Rightarrow> (OtherRaised e, True, calls, s)
                | Returned _ \<Rightarrow>
                    (case submit_text reservation_id tx now s of
                       (Inl e, s') \<Rightarrow> (OtherRaised e, True, calls, s')
                     | (Inr _, s') \<Rightarrow>
                         (Returned \<lparr>er_success = True, er_status = ExSubmitted, er_transaction = Some tx, er_network = fs_network settled,
                                    er_payer = fs_payer settled, er_error_reason = None\<rparr>, True, calls, s')))
           | _ \<Rightarrow>
               release_then reservation_id ''facilitator_settlement_rejected'' now
                 (failed_execution (fs_network settled) (fs_payer settled)
                   (case fs_error_reason settled of None \<Rightarrow> ascii ''payment_settlement_failed''
                    | Some r \<Rightarrow> if r = [] then ascii ''payment_settlement_failed'' else r)) True calls s))"

definition execute_body :: "(nat \<Rightarrow> nat option) \<Rightarrow> SettlementTerms \<Rightarrow> string \<Rightarrow> (string, json) dict \<Rightarrow> datetime \<Rightarrow> parties \<Rightarrow> InMemoryPaymentRepository \<Rightarrow> try_body" where
  "execute_body digit terms reservation_id payload now w s =
     (case validate_payment_payload digit terms payload now of
        Inl e \<Rightarrow> (OtherRaised e, False, [], s)
      | Inr _ \<Rightarrow>
          let s = pt_others w Verify False s in
          (case pt_verify w of
             FacilitatorRaised c a \<Rightarrow> (FacilitatorRaised c a, False, [AskVerify], s)
           | OtherRaised e \<Rightarrow> (OtherRaised e, False, [AskVerify], s)
           | Returned False \<Rightarrow>
               release_then reservation_id ''facilitator_verification_rejected'' now
                 (failed_execution (ascii (network_of terms)) None (ascii ''payment_verification_failed'')) False [AskVerify] s
           | Returned True \<Rightarrow>
               (let nonce = authorization_nonce payload;
                    calls = [AskVerify, AskApproval (st_settlement_intent_id terms) (st_intent_hash terms) nonce]; s = pt_others w Verify True s in
                case pt_approval w of
                  FacilitatorRaised c a \<Rightarrow> (FacilitatorRaised c a, False, calls, s)
                | OtherRaised e \<Rightarrow> (OtherRaised e, False, calls, s)
                | Returned _ \<Rightarrow> settle_part terms reservation_id nonce now w calls s)))"

text \<open>The \<open>except\<close> clauses.\<close>

definition handle_outcome :: "utext \<Rightarrow> string \<Rightarrow> datetime \<Rightarrow> try_body \<Rightarrow> X402ExecutionResult result \<times> external_call list \<times> InMemoryPaymentRepository" where
  "handle_outcome network reservation_id now body =
     (case body of (out, started, calls, s) \<Rightarrow>
        case out of
          Returned r \<Rightarrow> (Inr r, calls, s)
        | FacilitatorRaised code ambiguous \<Rightarrow>
            if ambiguous then (Inr (unknown_execution network (ascii code)), calls, s)
            else (case release_reservation reservation_id code now s of
                (Inl e, s') \<Rightarrow> (Inl e, calls, s')
              | (Inr _, s') \<Rightarrow> (Inr (failed_execution network None (ascii code)), calls, s'))
        | OtherRaised e \<Rightarrow>
            if started then (Inr (unknown_execution network (ascii ''payment_submission_unknown'')), calls, s)
            else (case release_reservation reservation_id ''payment_pre_submission_failed'' now s of
                (Inl e', s') \<Rightarrow> (Inl e', calls, s')
              | (Inr _, s') \<Rightarrow> (Inl e, calls, s')))"

definition execute :: "(nat \<Rightarrow> nat option) \<Rightarrow> SettlementTerms \<Rightarrow> string \<Rightarrow> (string, json) dict \<Rightarrow> datetime \<Rightarrow> parties \<Rightarrow> InMemoryPaymentRepository
    \<Rightarrow> X402ExecutionResult result \<times> external_call list \<times> InMemoryPaymentRepository" where
  "execute digit terms mandate_id payload now w s =
     (case reserve_mandate mandate_id terms now s of
        (Inl e, s') \<Rightarrow> (Inl e, [], s')
      | (Inr reservation, s') \<Rightarrow>
          let network = ascii (network_of terms) in
          if rv_status reservation = Submitted \<or> rv_status reservation = Consumed then
            (Inr \<lparr>er_success = True, er_status = ExSubmitted, er_transaction = map_option ascii (rv_tx_hash reservation), er_network = network,
                  er_payer = Some (ascii (st_payer terms)), er_error_reason = None\<rparr>, [], s')
          else if rv_status reservation = Released then
            (Inr (failed_execution network None (ascii ''payment_reservation_released'')), [], s')
          else handle_outcome network (rv_reservation_id reservation) now
                 (execute_body digit terms (rv_reservation_id reservation) payload now w s'))"

end
