(* ===== verification/Arena_Payments_Ledger.thy ===== *)
theory Arena_Payments_Ledger
  imports Arena_Payments
begin

text \<open>
  Proofs about the payment repository of \<open>arena_payments/repository.py\<close>: the normal forms its constructors
  return, the six transitions its calls make, the ledger invariant they keep, and for every call the
  transition it takes.
\<close>

section \<open>Validated values\<close>

declare map_of_eq_Some_iff [simp del] Some_eq_map_of_iff [simp del]

lemma address_iff [result_simps]: "address v = Inr a \<longleftrightarrow> hex_string 40 v \<and> a = lower v"
  by (auto simp: address_def)

lemma mapR_address_iff: "mapR address vs = Inr as \<longleftrightarrow> list_all (hex_string 40) vs \<and> as = map lower vs"
proof (induction vs arbitrary: as)
  case (Cons v vs)
  then show ?case by (auto simp: bindR_Inr_iff address_iff)
qed auto

abbreviation valid_mandate :: "PaymentMandate \<Rightarrow> bool" where
  "valid_mandate m \<equiv> PaymentMandate_post_init m = Inr m"

lemma dt_le_iff [result_simps]: "dt_le a b = Inr x \<longleftrightarrow> is_aware a = is_aware b \<and> x = (instant a \<le> instant b)"
  by (auto simp: dt_le_def)

lemma dt_less_iff [result_simps]: "dt_less a b = Inr x \<longleftrightarrow> is_aware a = is_aware b \<and> x = (instant a < instant b)"
  by (auto simp: dt_less_def)

lemma payees_invalid_cong:
  "pm_allowed_payee_rule m' = pm_allowed_payee_rule m \<Longrightarrow> pm_join_authorization_id m' = pm_join_authorization_id m
   \<Longrightarrow> payees_invalid ps m' = payees_invalid ps m"
  by (simp only: payees_invalid_def)

lemma payees_invalid_update [simp]:
  "payees_invalid ps (m\<lparr>pm_revoked_at := x\<rparr>) = payees_invalid ps m" "payees_invalid ps (m\<lparr>pm_reserved_atomic := r\<rparr>) = payees_invalid ps m"
  "payees_invalid ps (m\<lparr>pm_consumed_atomic := c\<rparr>) = payees_invalid ps m" "payees_invalid ps (m\<lparr>pm_token_address := t\<rparr>) = payees_invalid ps m"
  "payees_invalid ps (m\<lparr>pm_allowed_payees := qs\<rparr>) = payees_invalid ps m"
  by (rule payees_invalid_cong; simp)+

lemma PaymentMandate_post_init_iff:
  "PaymentMandate_post_init m = Inr n \<longleftrightarrow>
     pm_mandate_id m \<noteq> [] \<and> pm_user_id m \<noteq> [] \<and> pm_wallet_id m \<noteq> [] \<and> pm_game_id m \<noteq> [] \<and> 0 < pm_chain_id m
     \<and> hex_string 40 (pm_token_address m) \<and> list_all (hex_string 40) (pm_allowed_payees m)
     \<and> payees_invalid (map lower (pm_allowed_payees m)) m = None
     \<and> is_aware (pm_valid_from m) \<and> is_aware (pm_expires_at m) \<and> instant (pm_valid_from m) < instant (pm_expires_at m)
     \<and> 0 \<le> pm_reserved_atomic m \<and> 0 \<le> pm_consumed_atomic m
     \<and> pm_reserved_atomic m + pm_consumed_atomic m \<le> ml_max_cumulative_atomic (pm_limits m)
     \<and> n = m\<lparr>pm_token_address := lower (pm_token_address m), pm_allowed_payees := map lower (pm_allowed_payees m)\<rparr>"
  (is "?l \<longleftrightarrow> ?r")
proof -
  have opt: "(case p of None \<Rightarrow> r | Some e \<Rightarrow> Inl e) = Inr y \<longleftrightarrow> p = None \<and> r = Inr y" for p :: "py_error option" and r and y :: PaymentMandate
    by (cases p) auto
  show ?thesis
    unfolding PaymentMandate_post_init_def if_raise_Inr bindR_Inr_iff address_iff mapR_address_iff opt
    by (auto simp: dt_le_iff not_le not_less if_raise_Inr)
qed

interpretation mandate_norm: normalizer PaymentMandate_post_init
  by unfold_locales (auto simp: PaymentMandate_post_init_iff hex_string_lower list_all_iff comp_def)

lemma valid_mandate_normal:
  assumes "valid_mandate m"
  shows "lower (pm_token_address m) = pm_token_address m" "map lower (pm_allowed_payees m) = pm_allowed_payees m"
proof -
  have eq: "m = m\<lparr>pm_token_address := lower (pm_token_address m), pm_allowed_payees := map lower (pm_allowed_payees m)\<rparr>"
    using assms unfolding PaymentMandate_post_init_iff by blast
  show "lower (pm_token_address m) = pm_token_address m" using arg_cong [OF eq, of pm_token_address] by simp
  show "map lower (pm_allowed_payees m) = pm_allowed_payees m" using arg_cong [OF eq, of pm_allowed_payees] by simp
qed

lemma valid_mandate_conditions:
  "valid_mandate m \<Longrightarrow> pm_mandate_id m \<noteq> [] \<and> pm_user_id m \<noteq> [] \<and> pm_wallet_id m \<noteq> [] \<and> pm_game_id m \<noteq> [] \<and> 0 < pm_chain_id m
    \<and> hex_string 40 (pm_token_address m) \<and> list_all (hex_string 40) (pm_allowed_payees m) \<and> payees_invalid (pm_allowed_payees m) m = None
    \<and> is_aware (pm_valid_from m) \<and> is_aware (pm_expires_at m) \<and> instant (pm_valid_from m) < instant (pm_expires_at m)
    \<and> 0 \<le> pm_reserved_atomic m \<and> 0 \<le> pm_consumed_atomic m \<and> pm_reserved_atomic m + pm_consumed_atomic m \<le> ml_max_cumulative_atomic (pm_limits m)"
proof -
  assume v: "valid_mandate m"
  show ?thesis using v [unfolded PaymentMandate_post_init_iff] unfolding valid_mandate_normal(2) [OF v] by blast
qed

lemma mandate_revoke: "valid_mandate m \<Longrightarrow> PaymentMandate_post_init (m\<lparr>pm_revoked_at := x\<rparr>) = Inr (m\<lparr>pm_revoked_at := x\<rparr>)"
  by (simp add: PaymentMandate_post_init_iff [of "_\<lparr>pm_revoked_at := x\<rparr>"] valid_mandate_normal valid_mandate_conditions)

lemma with_accounting_iff:
  "valid_mandate m \<Longrightarrow> with_accounting m r c = Inr n \<longleftrightarrow>
     0 \<le> r \<and> 0 \<le> c \<and> r + c \<le> ml_max_cumulative_atomic (pm_limits m) \<and> n = m\<lparr>pm_reserved_atomic := r, pm_consumed_atomic := c\<rparr>"
  by (simp add: with_accounting_def PaymentMandate_post_init_iff [of "_\<lparr>pm_reserved_atomic := r, pm_consumed_atomic := c\<rparr>"]
      valid_mandate_normal valid_mandate_conditions)

lemma with_accounting_valid: "with_accounting m r c = Inr n \<Longrightarrow> valid_mandate n"
  unfolding with_accounting_def by (rule mandate_norm.norm_idem)

lemma status_fields_error_payee [simp]: "status_fields_error (r\<lparr>rv_payee := p\<rparr>) = status_fields_error r"
  by (cases "rv_status r") (simp_all add: status_fields_error_def split del: if_split)

lemma PaymentReservation_post_init_iff:
  "PaymentReservation_post_init r = Inr q \<longleftrightarrow> hex_string 40 (rv_payee r) \<and> (\<forall>t. rv_tx_hash r = Some t \<longrightarrow> hex_string 64 t)
     \<and> status_fields_error r = None \<and> q = r\<lparr>rv_payee := lower (rv_payee r)\<rparr>"
  by (auto simp: PaymentReservation_post_init_def bindR_Inr_iff address_iff split: option.splits if_splits)

interpretation reservation_norm: normalizer PaymentReservation_post_init
  by unfold_locales (auto simp: PaymentReservation_post_init_iff hex_string_lower)

abbreviation valid_reservation :: "PaymentReservation \<Rightarrow> bool" where
  "valid_reservation r \<equiv> PaymentReservation_post_init r = Inr r"

lemma valid_payee: "valid_reservation r \<Longrightarrow> lower (rv_payee r) = rv_payee r"
proof -
  assume "valid_reservation r"
  then have eq: "r = r\<lparr>rv_payee := lower (rv_payee r)\<rparr>" unfolding PaymentReservation_post_init_iff by blast
  show ?thesis using arg_cong [OF eq, of rv_payee] by simp
qed

section \<open>Transitions\<close>

text \<open>The mandates may lose their validity in place, and nothing else.\<close>

definition revised :: "(string, PaymentMandate) dict \<Rightarrow> (string, PaymentMandate) dict \<Rightarrow> bool" where
  "revised d d' \<longleftrightarrow> dkeys d' = dkeys d \<and> (\<forall>k m. dget d k = Some m \<longrightarrow> (\<exists>x. dget d' k = Some (m\<lparr>pm_revoked_at := x\<rparr>) \<and> (pm_revoked_at m \<noteq> None \<longrightarrow> x = pm_revoked_at m)))"

text \<open>The six ways in which a call changes mandates and reservations.\<close>

inductive payment_effect :: "InMemoryPaymentRepository \<Rightarrow> InMemoryPaymentRepository \<Rightarrow> bool" where
  wallet_bound: "ipr_mandates s' = ipr_mandates s \<Longrightarrow> ipr_reservations s' = ipr_reservations s
    \<Longrightarrow> ipr_reservations_by_intent s' = ipr_reservations_by_intent s \<Longrightarrow> payment_effect s s'"
| mandates_revised: "revised (ipr_mandates s) d \<Longrightarrow> payment_effect s (s\<lparr>ipr_mandates := d\<rparr>)"
| mandate_created: "revised (ipr_mandates s) d \<Longrightarrow> valid_mandate m \<Longrightarrow> dget d (pm_mandate_id m) \<in> {None, Some m}
    \<Longrightarrow> \<not> list_ex (\<lambda>v. same_game_user v m) (dvalues d) \<Longrightarrow> payment_effect s (s\<lparr>ipr_mandates := dput d (pm_mandate_id m) m\<rparr>)"
| reserved: "dget (ipr_reservations_by_intent s) i = None \<Longrightarrow> dget (ipr_mandates s) k = Some m \<Longrightarrow> valid_reservation r
    \<Longrightarrow> rv_mandate_id r = k \<Longrightarrow> rv_settlement_intent_id r = i \<Longrightarrow> rv_status r = Reserved \<Longrightarrow> 0 < rv_amount_atomic r
    \<Longrightarrow> rv_amount_atomic r \<le> ml_max_per_payment_atomic (pm_limits m) \<Longrightarrow> rv_payee r \<in> set (pm_allowed_payees m) \<Longrightarrow> pm_revoked_at m = None
    \<Longrightarrow> with_accounting m (pm_reserved_atomic m + rv_amount_atomic r) (pm_consumed_atomic m) = Inr m' \<Longrightarrow> dget (ipr_reservations s) (rv_reservation_id r) = None
    \<Longrightarrow> payment_effect s (s\<lparr>ipr_mandates := dput (ipr_mandates s) k m',
          ipr_reservations := dput (ipr_reservations s) (rv_reservation_id r) r,
          ipr_reservations_by_intent := dput (ipr_reservations_by_intent s) i (rv_reservation_id r)\<rparr>)"
| submitted: "dget (ipr_reservations s) k = Some r \<Longrightarrow> rv_status r = Reserved \<Longrightarrow> q = r\<lparr>rv_status := Submitted, rv_tx_hash := Some t\<rparr>
    \<Longrightarrow> valid_reservation q \<Longrightarrow> payment_effect s (s\<lparr>ipr_reservations := dput (ipr_reservations s) k q\<rparr>)"
| finalized: "dget (ipr_reservations s) k = Some r \<Longrightarrow> rv_status r \<in> {Reserved, Submitted} \<Longrightarrow> dget (ipr_mandates s) (rv_mandate_id r) = Some m
    \<Longrightarrow> q = r\<lparr>rv_status := Consumed, rv_finalized_at := Some now, rv_tx_hash := Some t\<rparr> \<and> c = rv_amount_atomic r
        \<or> rv_status r = Reserved \<and> q = r\<lparr>rv_status := Released, rv_finalized_at := Some now, rv_release_reason := Some reason\<rparr> \<and> c = 0
    \<Longrightarrow> valid_reservation q \<Longrightarrow> with_accounting m (pm_reserved_atomic m - rv_amount_atomic r) (pm_consumed_atomic m + c) = Inr m'
    \<Longrightarrow> payment_effect s (s\<lparr>ipr_mandates := dput (ipr_mandates s) (pm_mandate_id m) m', ipr_reservations := dput (ipr_reservations s) k q\<rparr>)"

text \<open>Stored values are the normal forms their constructors return, under their own ids.\<close>

definition stored_ok :: "InMemoryPaymentRepository \<Rightarrow> bool" where
  "stored_ok s \<longleftrightarrow> distinct (dkeys (ipr_mandates s)) \<and> distinct (dkeys (ipr_reservations s))
     \<and> (\<forall>k m. dget (ipr_mandates s) k = Some m \<longrightarrow> pm_mandate_id m = k \<and> valid_mandate m)
     \<and> (\<forall>k r. dget (ipr_reservations s) k = Some r \<longrightarrow> rv_reservation_id r = k \<and> valid_reservation r
          \<and> dget (ipr_reservations_by_intent s) (rv_settlement_intent_id r) = Some k)"

lemma revised_refl: "revised d d"
proof -
  have "m = m\<lparr>pm_revoked_at := pm_revoked_at m\<rparr>" for m :: PaymentMandate by simp
  then show ?thesis unfolding revised_def by metis
qed

lemma revised_put:
  assumes "revised d0 d" "dget d k = Some v" "pm_revoked_at v = None"
  shows "revised d0 (dput d k (v\<lparr>pm_revoked_at := x\<rparr>))"
proof -
  have "dkeys (dput d k (v\<lparr>pm_revoked_at := x\<rparr>)) = dkeys d" using assms(2) by (induction d) (auto split: if_splits)
  moreover have "\<exists>y. dget (dput d k (v\<lparr>pm_revoked_at := x\<rparr>)) j = Some (m\<lparr>pm_revoked_at := y\<rparr>) \<and> (pm_revoked_at m \<noteq> None \<longrightarrow> y = pm_revoked_at m)"
    if m: "dget d0 j = Some m" for j m
  proof -
    obtain y where y: "dget d j = Some (m\<lparr>pm_revoked_at := y\<rparr>)" "pm_revoked_at m \<noteq> None \<longrightarrow> y = pm_revoked_at m"
      using assms(1) m unfolding revised_def by blast
    show ?thesis
    proof (cases "j = k")
      case True
      then have "v = m\<lparr>pm_revoked_at := y\<rparr>" using assms(2) y by simp
      then show ?thesis using True assms(3) y by (intro exI [of _ x]) (auto simp: dict_get)
    qed (use y in \<open>auto simp: dict_get\<close>)
  qed
  ultimately show ?thesis using assms(1) unfolding revised_def by simp
qed

lemma revoke_expired_revised:
  assumes "revoke_expired m t items d = (x, d')" "revised d0 d" "distinct (map fst items)" "\<And>k v. (k, v) \<in> set items \<Longrightarrow> dget d k = Some v \<and> valid_mandate v"
  shows "x = Inr () \<and> revised d0 d'"
  using assms
proof (induction items arbitrary: d)
  case (Cons kv items)
  obtain k v where kv: "kv = (k, v)" by (cases kv)
  have kv': "dget d k = Some v" "valid_mandate v" using Cons.prems(4) kv by auto
  show ?case
  proof (cases "same_game_user v m \<and> instant (pm_expires_at v) \<le> instant t")
    case True
    then have "pm_revoked_at v = None" by (simp add: same_game_user_def)
    then have "revised d0 (dput d k (v\<lparr>pm_revoked_at := Some t\<rparr>))" using revised_put [OF Cons.prems(2) kv'(1)] by simp
    moreover have "revoke_expired m t items (dput d k (v\<lparr>pm_revoked_at := Some t\<rparr>)) = (x, d')"
      using Cons.prems(1) True mandate_revoke [OF kv'(2)] by (simp add: kv attempt_def)
    moreover have "dget (dput d k (v\<lparr>pm_revoked_at := Some t\<rparr>)) j = Some w \<and> valid_mandate w" if "(j, w) \<in> set items" for j w
      using Cons.prems(3,4) that kv by (force simp: dict_get)
    ultimately show ?thesis using Cons.IH [of "dput d k (v\<lparr>pm_revoked_at := Some t\<rparr>)"] Cons.prems(3) by auto
  next
    case False
    then have "revoke_expired m t items d = (x, d')" using Cons.prems(1) kv by (auto split: if_splits)
    then show ?thesis using Cons.IH [of d] Cons.prems by auto
  qed
qed simp

section \<open>The ledger invariant\<close>

text \<open>The total of a mandate's reservations whose status satisfies a test.\<close>

definition tally :: "(ReservationStatus \<Rightarrow> bool) \<Rightarrow> string \<Rightarrow> (string, PaymentReservation) dict \<Rightarrow> int" where
  "tally P k d = dsum (\<lambda>r. if rv_mandate_id r = k \<and> P (rv_status r) then rv_amount_atomic r else 0) d"

definition is_held :: "ReservationStatus \<Rightarrow> bool" where
  "is_held st \<longleftrightarrow> st = Reserved \<or> st = Submitted"

definition is_spent :: "ReservationStatus \<Rightarrow> bool" where
  "is_spent st \<longleftrightarrow> st = Consumed"

definition sums_ok :: "InMemoryPaymentRepository \<Rightarrow> bool" where
  "sums_ok s \<longleftrightarrow> (\<forall>k m. dget (ipr_mandates s) k = Some m \<longrightarrow>
     tally is_held k (ipr_reservations s) \<le> pm_reserved_atomic m \<and> tally is_spent k (ipr_reservations s) \<le> pm_consumed_atomic m)"

definition funded :: "(string, PaymentMandate) dict \<Rightarrow> PaymentReservation \<Rightarrow> bool" where
  "funded d r \<longleftrightarrow> 0 < rv_amount_atomic r \<and> (\<exists>m. dget d (rv_mandate_id r) = Some m
     \<and> rv_amount_atomic r \<le> ml_max_per_payment_atomic (pm_limits m) \<and> rv_payee r \<in> set (pm_allowed_payees m))"

definition money_ok :: "InMemoryPaymentRepository \<Rightarrow> bool" where
  "money_ok s \<longleftrightarrow> (\<forall>k r. dget (ipr_reservations s) k = Some r \<longrightarrow> funded (ipr_mandates s) r)
   \<and> (\<forall>i k. dget (ipr_reservations_by_intent s) i = Some k \<longrightarrow> (\<exists>r. dget (ipr_reservations s) k = Some r \<and> rv_settlement_intent_id r = i))"

text \<open>At most one mandate of a user in a game is not revoked.\<close>

definition one_active :: "(string, PaymentMandate) dict \<Rightarrow> bool" where
  "one_active d \<longleftrightarrow> (\<forall>k m k' m'. dget d k = Some m \<longrightarrow> dget d k' = Some m' \<longrightarrow>
     pm_revoked_at m = None \<longrightarrow> pm_revoked_at m' = None \<longrightarrow> pm_user_id m = pm_user_id m' \<longrightarrow> pm_game_id m = pm_game_id m' \<longrightarrow> k = k')"

definition ledger_inv :: "InMemoryPaymentRepository \<Rightarrow> bool" where
  "ledger_inv s \<longleftrightarrow> stored_ok s \<and> sums_ok s \<and> money_ok s \<and> one_active (ipr_mandates s)"

lemma tally_put_new:
  "distinct (dkeys d) \<Longrightarrow> dget d k = None \<Longrightarrow>
   tally P j (dput d k r) = tally P j d + (if rv_mandate_id r = j \<and> P (rv_status r) then rv_amount_atomic r else 0)"
  unfolding tally_def dsum_def by (rule dict.sum_put_new)

lemma tally_put_old:
  "distinct (dkeys d) \<Longrightarrow> dget d k = Some q \<Longrightarrow>
   tally P j (dput d k r) = tally P j d - (if rv_mandate_id q = j \<and> P (rv_status q) then rv_amount_atomic q else 0)
     + (if rv_mandate_id r = j \<and> P (rv_status r) then rv_amount_atomic r else 0)"
  unfolding tally_def dsum_def by (rule dict.sum_put_old)

lemma tally_none:
  assumes "distinct (dkeys d)" "\<And>k r. dget d k = Some r \<Longrightarrow> rv_mandate_id r \<noteq> j"
  shows "tally P j d = 0"
proof -
  have "\<forall>r \<in> set (dvalues d). rv_mandate_id r \<noteq> j" using dict.vals_get [OF assms(1)] assms(2) by blast
  then have "map (\<lambda>r. if rv_mandate_id r = j \<and> P (rv_status r) then rv_amount_atomic r else 0) (dvalues d) = map (\<lambda>_. 0) (dvalues d)"
    by (intro map_cong) auto
  then show ?thesis unfolding tally_def dsum_def by (simp only: sum_list_0)
qed

text \<open>What a mandate keeps through its life: everything but its accounting and its revocation.\<close>

definition same_terms :: "PaymentMandate \<Rightarrow> PaymentMandate \<Rightarrow> bool" where
  "same_terms m n \<longleftrightarrow> pm_mandate_id n = pm_mandate_id m \<and> pm_user_id n = pm_user_id m \<and> pm_game_id n = pm_game_id m \<and> pm_limits n = pm_limits m
     \<and> pm_allowed_payees n = pm_allowed_payees m \<and> (pm_revoked_at m \<noteq> None \<longrightarrow> pm_revoked_at n = pm_revoked_at m)"

text \<open>The mandates of \<open>d\<close> survive in \<open>d'\<close> with their terms.\<close>

definition carried :: "(string, PaymentMandate) dict \<Rightarrow> (string, PaymentMandate) dict \<Rightarrow> bool" where
  "carried d d' \<longleftrightarrow> (\<forall>k m. dget d k = Some m \<longrightarrow> (\<exists>n. dget d' k = Some n \<and> same_terms m n))"

lemma funded_carried: "funded d r \<Longrightarrow> carried d d' \<Longrightarrow> funded d' r"
  unfolding funded_def carried_def same_terms_def by fastforce

lemma one_active_carried:
  assumes "one_active d" "\<And>k n. dget d' k = Some n \<Longrightarrow> \<exists>m. dget d k = Some m \<and> same_terms m n"
  shows "one_active d'"
  unfolding one_active_def
proof (intro allI impI)
  fix k n k' n' assume n: "dget d' k = Some n" "dget d' k' = Some n'" "pm_revoked_at n = None" "pm_revoked_at n' = None"
    "pm_user_id n = pm_user_id n'" "pm_game_id n = pm_game_id n'"
  obtain m where m: "dget d k = Some m" "same_terms m n" using assms(2) n(1) by blast
  obtain m' where m': "dget d k' = Some m'" "same_terms m' n'" using assms(2) n(2) by blast
  have "pm_revoked_at m = None" "pm_revoked_at m' = None" "pm_user_id m = pm_user_id m'" "pm_game_id m = pm_game_id m'"
    using n(3-6) m(2) m'(2) unfolding same_terms_def by auto
  then show "k = k'" using assms(1) m(1) m'(1) unfolding one_active_def by blast
qed

lemma same_terms_refl [simp]: "same_terms m m"
  by (simp add: same_terms_def)

lemma put_carried:
  assumes "dget d k = Some m" "same_terms m n"
  shows "carried d (dput d k n)" "dget (dput d k n) j = Some v \<Longrightarrow> \<exists>u. dget d j = Some u \<and> same_terms u v"
  using assms by (auto simp: carried_def dict_get split: if_splits)

lemma revisedD:
  assumes "revised d d'" "dget d' k = Some n"
  obtains m where "dget d k = Some m" "n = m\<lparr>pm_revoked_at := pm_revoked_at n\<rparr>" "same_terms m n"
    "pm_reserved_atomic n = pm_reserved_atomic m" "pm_consumed_atomic n = pm_consumed_atomic m"
proof -
  have "k \<in> set (dkeys d')" using assms(2) by (metis map_of_eq_None_iff option.distinct(1) list.set_map)
  moreover have "dkeys d' = dkeys d" using assms(1) unfolding revised_def by (rule conjunct1)
  ultimately have "k \<in> set (dkeys d)" by (simp only:)
  then obtain m where m: "dget d k = Some m" by (metis map_of_eq_None_iff not_None_eq list.set_map)
  then obtain x where "dget d' k = Some (m\<lparr>pm_revoked_at := x\<rparr>)" "pm_revoked_at m \<noteq> None \<longrightarrow> x = pm_revoked_at m"
    using assms(1) unfolding revised_def by blast
  then show ?thesis using that [OF m] assms(2) by (auto simp: same_terms_def)
qed

lemma revised_None: "revised d d' \<Longrightarrow> dget d' k = None \<longleftrightarrow> dget d k = None"
  unfolding revised_def map_of_eq_None_iff by (metis list.set_map)

lemma revised_carried: "revised d d' \<Longrightarrow> carried d d'"
  unfolding revised_def carried_def same_terms_def by fastforce

lemma with_accounting_terms:
  assumes "with_accounting m r c = Inr n" "valid_mandate m"
  shows "n = m\<lparr>pm_reserved_atomic := r, pm_consumed_atomic := c\<rparr>" "same_terms m n" "pm_revoked_at n = pm_revoked_at m"
  using assms by (simp_all add: with_accounting_iff same_terms_def)

lemma stored_ok_effect: "payment_effect s s' \<Longrightarrow> stored_ok s \<Longrightarrow> stored_ok s'"
proof (induction rule: payment_effect.induct)
  case (mandates_revised s d)
  have "dget d k = Some n \<Longrightarrow> pm_mandate_id n = k \<and> valid_mandate n" for k n
    using mandates_revised revisedD [of "ipr_mandates s" d k n] mandate_revoke unfolding stored_ok_def same_terms_def by metis
  then show ?case using mandates_revised by (simp add: stored_ok_def revised_def)
next
  case (mandate_created s d m)
  have "dget d k = Some n \<Longrightarrow> pm_mandate_id n = k \<and> valid_mandate n" for k n
    using mandate_created revisedD [of "ipr_mandates s" d k n] mandate_revoke unfolding stored_ok_def same_terms_def by metis
  then show ?case using mandate_created by (auto simp: stored_ok_def revised_def dict_get distinct_update split: if_splits)
next
  case (reserved s i k m r m')
  have v: "valid_mandate m" "pm_mandate_id m = k" using reserved by (auto simp: stored_ok_def)
  then have m': "valid_mandate m'" "pm_mandate_id m' = k" using with_accounting_valid [OF reserved.hyps(11)] with_accounting_terms(2) [OF reserved.hyps(11)] by (auto simp: same_terms_def)
  have "dget (ipr_reservations s) j = Some q \<Longrightarrow> rv_settlement_intent_id q \<noteq> i" for j q using reserved.prems reserved.hyps(1) by (auto simp: stored_ok_def)
  then show ?case using reserved.prems reserved.hyps(3,5) m' by (auto simp: stored_ok_def dict_get distinct_update split: if_split_asm)
next
  case (submitted s k r q t)
  then have "rv_reservation_id q = k" "rv_settlement_intent_id q = rv_settlement_intent_id r" by (auto simp: stored_ok_def)
  then show ?case using submitted by (auto simp: stored_ok_def dict_get distinct_update split: if_split_asm)
next
  case (finalized s k r m q now t c reason m')
  have v: "valid_mandate m" "pm_mandate_id m = rv_mandate_id r" using finalized by (auto simp: stored_ok_def)
  then have m': "valid_mandate m'" "pm_mandate_id m' = pm_mandate_id m"
    using with_accounting_valid [OF finalized.hyps(6)] with_accounting_terms(2) [OF finalized.hyps(6)] by (auto simp: same_terms_def)
  have "rv_reservation_id q = k" "rv_settlement_intent_id q = rv_settlement_intent_id r"
    using finalized by (auto simp: stored_ok_def)
  then show ?case using finalized.prems finalized.hyps(1,5) m' by (auto simp: stored_ok_def dict_get distinct_update split: if_split_asm)
qed (simp add: stored_ok_def)

lemma sums_ok_effect: "payment_effect s s' \<Longrightarrow> stored_ok s \<Longrightarrow> money_ok s \<Longrightarrow> sums_ok s \<Longrightarrow> sums_ok s'"
proof (induction rule: payment_effect.induct)
  case (wallet_bound s' s)
  then show ?case by (simp add: sums_ok_def)
next
  case (mandates_revised s d)
  have "tally is_held k (ipr_reservations s) \<le> pm_reserved_atomic n \<and> tally is_spent k (ipr_reservations s) \<le> pm_consumed_atomic n" if n: "dget d k = Some n" for k n
  proof -
    obtain m where m: "dget (ipr_mandates s) k = Some m" "pm_reserved_atomic n = pm_reserved_atomic m" "pm_consumed_atomic n = pm_consumed_atomic m"
      using revisedD [OF mandates_revised.hyps n] .
    then show ?thesis using m mandates_revised.prems(3) by (simp add: sums_ok_def)
  qed
  then show ?case by (simp add: sums_ok_def)
next
  case (submitted s k r q t)
  have "distinct (dkeys (ipr_reservations s))" using submitted.prems(1) by (simp add: stored_ok_def)
  then have "tally P j (dput (ipr_reservations s) k q) = tally P j (ipr_reservations s)" if "P Reserved = P Submitted" for P j
    using tally_put_old [OF _ submitted.hyps(1), of P j q] submitted.hyps(2,3) that by simp
  then show ?case using submitted.prems(3) by (simp add: sums_ok_def is_held_def is_spent_def)
next
  case (reserved s i k m r m')
  have v: "valid_mandate m" "distinct (dkeys (ipr_reservations s))" using reserved by (auto simp: stored_ok_def)
  have m': "m' = m\<lparr>pm_reserved_atomic := pm_reserved_atomic m + rv_amount_atomic r, pm_consumed_atomic := pm_consumed_atomic m\<rparr>"
    by (rule with_accounting_terms(1) [OF reserved.hyps(11) v(1)])
  have t: "tally P j (dput (ipr_reservations s) (rv_reservation_id r) r) = tally P j (ipr_reservations s) + (if k = j \<and> P Reserved then rv_amount_atomic r else 0)" for P j
    using tally_put_new [OF v(2) reserved.hyps(12), of P j r] reserved.hyps(4,6) by simp
  show ?case using reserved.prems(3) reserved.hyps(2) unfolding sums_ok_def by (auto simp: t dict_get m' is_held_def is_spent_def)
next
  case (finalized s k r m q now t c reason m')
  have v: "valid_mandate m" "pm_mandate_id m = rv_mandate_id r" "distinct (dkeys (ipr_reservations s))" using finalized by (auto simp: stored_ok_def)
  have m': "m' = m\<lparr>pm_reserved_atomic := pm_reserved_atomic m - rv_amount_atomic r, pm_consumed_atomic := pm_consumed_atomic m + c\<rparr>"
    by (rule with_accounting_terms(1) [OF finalized.hyps(6) v(1)])
  have q: "rv_mandate_id q = rv_mandate_id r" "rv_amount_atomic q = rv_amount_atomic r" "rv_status q = Consumed \<and> c = rv_amount_atomic r \<or> rv_status q = Released \<and> c = 0"
    using finalized.hyps(4) by auto
  have h: "tally is_held j (dput (ipr_reservations s) k q) = tally is_held j (ipr_reservations s) - (if rv_mandate_id r = j then rv_amount_atomic r else 0)" for j
    using tally_put_old [OF v(3) finalized.hyps(1), of is_held j q] q finalized.hyps(2) by (auto simp: is_held_def)
  have sp: "tally is_spent j (dput (ipr_reservations s) k q) = tally is_spent j (ipr_reservations s) + (if rv_mandate_id r = j then c else 0)" for j
    using tally_put_old [OF v(3) finalized.hyps(1), of is_spent j q] q finalized.hyps(2) by (auto simp: is_spent_def)
  show ?case using finalized.prems(3) finalized.hyps(3) unfolding sums_ok_def v(2) by (auto simp: h sp dict_get m')
next
  case (mandate_created s d m)
  have old: "tally is_held k (ipr_reservations s) \<le> pm_reserved_atomic n \<and> tally is_spent k (ipr_reservations s) \<le> pm_consumed_atomic n" if n: "dget d k = Some n" for k n
  proof -
    obtain m where m: "dget (ipr_mandates s) k = Some m" "pm_reserved_atomic n = pm_reserved_atomic m" "pm_consumed_atomic n = pm_consumed_atomic m"
      using revisedD [OF mandate_created.hyps(1) n] .
    then show ?thesis using m mandate_created.prems(3) by (simp add: sums_ok_def)
  qed
  have new: "tally is_held (pm_mandate_id m) (ipr_reservations s) \<le> pm_reserved_atomic m \<and> tally is_spent (pm_mandate_id m) (ipr_reservations s) \<le> pm_consumed_atomic m"
  proof (cases "dget d (pm_mandate_id m)")
    case None
    then have "dget (ipr_mandates s) (pm_mandate_id m) = None" using revised_None [OF mandate_created.hyps(1)] by simp
    then have "rv_mandate_id r \<noteq> pm_mandate_id m" if "dget (ipr_reservations s) k = Some r" for k r
      using mandate_created.prems(2) that unfolding money_ok_def funded_def by (metis option.distinct(1))
    moreover have "distinct (dkeys (ipr_reservations s))" using mandate_created.prems(1) by (simp add: stored_ok_def)
    ultimately show ?thesis using tally_none valid_mandate_conditions [OF mandate_created.hyps(2)] by simp
  next
    case (Some n)
    then show ?thesis using old mandate_created.hyps(3) by simp
  qed
  show ?case using old new by (simp add: sums_ok_def dict_get)
qed

lemma money_ok_effect: "payment_effect s s' \<Longrightarrow> stored_ok s \<Longrightarrow> money_ok s \<Longrightarrow> money_ok s'"
proof (induction rule: payment_effect.induct)
  case (wallet_bound s' s)
  then show ?case by (simp add: money_ok_def)
next
  case (mandates_revised s d)
  then show ?case using funded_carried revised_carried unfolding money_ok_def by (simp, blast)
next
  case (mandate_created s d m)
  have "carried d (dput d (pm_mandate_id m) m)" using mandate_created.hyps(3) by (auto simp: carried_def dict_get)
  then show ?case using mandate_created.prems(2) funded_carried revised_carried [OF mandate_created.hyps(1)] unfolding money_ok_def by (simp, blast)
next
  case (reserved s i k m r m')
  have v: "valid_mandate m" using reserved by (auto simp: stored_ok_def)
  note t = with_accounting_terms(2) [OF reserved.hyps(11) v]
  have new: "funded (dput (ipr_mandates s) k m') r"
    using reserved.hyps t by (auto simp: funded_def dict_get same_terms_def)
  have old: "funded (dput (ipr_mandates s) k m') q" if "dget (ipr_reservations s) j = Some q" for j q
    using that reserved.prems(2) funded_carried put_carried(1) [OF reserved.hyps(2) t] unfolding money_ok_def by blast
  have ix: "\<exists>q. dget (ipr_reservations s) j = Some q \<and> rv_settlement_intent_id q = h" if "dget (ipr_reservations_by_intent s) h = Some j" for h j
    using that reserved.prems(2) unfolding money_ok_def by blast
  show ?case using new old ix reserved.hyps(5,12) unfolding money_ok_def by (auto simp: dict_get split: if_split_asm) (metis option.distinct(1))
next
  case (submitted s k r q t)
  have ix: "\<exists>q. dget (ipr_reservations s) j = Some q \<and> rv_settlement_intent_id q = h" if "dget (ipr_reservations_by_intent s) h = Some j" for h j
    using that submitted.prems(2) unfolding money_ok_def by blast
  have q: "funded d q = funded d r" "rv_settlement_intent_id q = rv_settlement_intent_id r" for d using submitted.hyps(3) by (simp_all add: funded_def)
  have old: "funded (ipr_mandates s) p" if "dget (ipr_reservations s) j = Some p" for j p using that submitted.prems(2) unfolding money_ok_def by blast
  show ?case unfolding money_ok_def
  proof (intro conjI allI impI, goal_cases)
    case (1 j p)
    then show ?case using old [of j p] old [OF submitted.hyps(1)] q by (auto simp: dict_get split: if_split_asm)
  next
    case (2 h j)
    then show ?case using ix [of h j] submitted.hyps(1) q by (cases "j = k") (auto simp: dict_get)
  qed
next
  case (finalized s k r m q now t c reason m')
  have v: "valid_mandate m" "pm_mandate_id m = rv_mandate_id r" using finalized by (auto simp: stored_ok_def)
  note t = with_accounting_terms(2) [OF finalized.hyps(6) v(1)]
  have q: "funded d q = funded d r" "rv_settlement_intent_id q = rv_settlement_intent_id r" for d using finalized.hyps(4) by (auto simp: funded_def)
  have old: "funded (dput (ipr_mandates s) (rv_mandate_id r) m') p" if "dget (ipr_reservations s) j = Some p" for j p
    using that finalized.prems(2) funded_carried put_carried(1) [OF finalized.hyps(3) t] unfolding money_ok_def by blast
  have ix: "\<exists>q. dget (ipr_reservations s) j = Some q \<and> rv_settlement_intent_id q = h" if "dget (ipr_reservations_by_intent s) h = Some j" for h j
    using that finalized.prems(2) unfolding money_ok_def by blast
  show ?case unfolding money_ok_def v(2)
  proof (intro conjI allI impI, goal_cases)
    case (1 j p)
    then show ?case using old [of j p] old [OF finalized.hyps(1)] q by (auto simp: dict_get split: if_split_asm)
  next
    case (2 h j)
    then show ?case using ix [of h j] finalized.hyps(1) q by (cases "j = k") (auto simp: dict_get)
  qed
qed

lemma one_active_effect: "payment_effect s s' \<Longrightarrow> stored_ok s \<Longrightarrow> one_active (ipr_mandates s) \<Longrightarrow> one_active (ipr_mandates s')"
proof (induction rule: payment_effect.induct)
  case (mandates_revised s d)
  have "one_active d" by (rule one_active_carried [OF mandates_revised.prems(2)]) (use revisedD [OF mandates_revised.hyps] in blast)
  then show ?case by simp
next
  case (mandate_created s d m)
  have act: "one_active d" by (rule one_active_carried [OF mandate_created.prems(2)]) (use revisedD [OF mandate_created.hyps(1)] in blast)
  have "dkeys d = dkeys (ipr_mandates s)" using mandate_created.hyps(1) unfolding revised_def by (rule conjunct1)
  then have "distinct (dkeys d)" using mandate_created.prems(1) by (simp add: stored_ok_def)
  then have none: "\<not> same_game_user n m" if "dget d k = Some n" for k n
    using mandate_created.hyps(4) dict.vals_get [of d n] that unfolding list_ex_iff by blast
  have ids: "pm_mandate_id n = k" if n: "dget d k = Some n" for k n
  proof -
    obtain u where "dget (ipr_mandates s) k = Some u" "same_terms u n" using revisedD [OF mandate_created.hyps(1) n] .
    then show ?thesis using mandate_created.prems(1) by (auto simp: stored_ok_def same_terms_def)
  qed
  have other: "k = pm_mandate_id m" if "dget d k = Some n" "pm_revoked_at n = None" "pm_user_id n = pm_user_id m" "pm_game_id n = pm_game_id m" for k n
    using none [OF that(1)] ids [OF that(1)] that(2-4) by (simp add: same_game_user_def)
  have "one_active (dput d (pm_mandate_id m) m)" unfolding one_active_def
  proof (intro allI impI, goal_cases)
    case (1 k n k' n')
    show ?case
    proof (cases "k = pm_mandate_id m \<or> k' = pm_mandate_id m")
      case True
      then show ?thesis using 1 other [of k n] other [of k' n'] by (auto simp: dict_get split: if_split_asm)
    next
      case False
      then show ?thesis using 1 act unfolding one_active_def by (auto simp: dict_get split: if_split_asm)
    qed
  qed
  then show ?case by simp
next
  case (reserved s i k m r m')
  have v: "valid_mandate m" using reserved by (auto simp: stored_ok_def)
  have "one_active (dput (ipr_mandates s) k m')"
    using reserved.prems(2) put_carried(2) [OF reserved.hyps(2) with_accounting_terms(2) [OF reserved.hyps(11) v]] by (rule one_active_carried)
  then show ?case by simp
next
  case (finalized s k r m q now t c reason m')
  have v: "valid_mandate m" "pm_mandate_id m = rv_mandate_id r" using finalized by (auto simp: stored_ok_def)
  have "one_active (dput (ipr_mandates s) (rv_mandate_id r) m')"
    using finalized.prems(2) put_carried(2) [OF finalized.hyps(3) with_accounting_terms(2) [OF finalized.hyps(6) v(1)]] by (rule one_active_carried)
  then show ?case using v(2) by simp
qed simp_all

lemma ledger_inv_effect: "payment_effect s s' \<Longrightarrow> ledger_inv s \<Longrightarrow> ledger_inv s'"
  unfolding ledger_inv_def using stored_ok_effect sums_ok_effect money_ok_effect one_active_effect by blast

section \<open>Calls\<close>

lemma get_or_bind_wallet_effect: "get_or_bind_wallet u ip ps now s = (x, s') \<Longrightarrow> s' = s \<or> (\<exists>y. x = Inr y) \<and> payment_effect s s'"
  unfolding get_or_bind_wallet_def
  by (auto elim!: attempt_cases intro!: payment_effect.wallet_bound split: option.splits if_splits list.splits)

lemma revoke_expired_keeps:
  assumes "revoke_expired m t items d = (x, d')" "\<And>k v. (k, v) \<in> set items \<Longrightarrow> pm_mandate_id v = k"
  shows "dget d' (pm_mandate_id m) = dget d (pm_mandate_id m)"
  using assms
proof (induction items arbitrary: d)
  case (Cons kv items)
  obtain k v where kv: "kv = (k, v)" by (cases kv)
  have id: "pm_mandate_id v = k" using Cons.prems(2) kv by simp
  show ?case
  proof (cases "same_game_user v m \<and> instant (pm_expires_at v) \<le> instant t")
    case True
    then have "k \<noteq> pm_mandate_id m" using id by (simp add: same_game_user_def)
    from True Cons.prems(1) have "attempt (PaymentMandate_post_init (v\<lparr>pm_revoked_at := Some t\<rparr>)) d
        (\<lambda>w. revoke_expired m t items (dput d k w)) = (x, d')" by (simp add: kv)
    then show ?thesis
    proof (cases rule: attempt_cases)
      case (ok y)
      then show ?thesis using Cons.IH [OF ok(2)] Cons.prems(2) \<open>k \<noteq> pm_mandate_id m\<close> by (simp add: dict_get)
    qed simp
  next
    case False
    then have "revoke_expired m t items d = (x, d')" using Cons.prems(1) kv by (auto split: if_splits)
    then show ?thesis using Cons.IH [of d] Cons.prems(2) by auto
  qed
qed simp

lemma create_mandate_effect:
  assumes "create_mandate t m s = (x, s')" "stored_ok s" "valid_mandate m"
  shows "s' = s \<or> (\<exists>y. x = Inr y) \<and> payment_effect s s' \<or> x = Inl (MandateRejected ''active_game_mandate_exists'')
     \<and> revised (ipr_mandates s) (ipr_mandates s') \<and> s' = s\<lparr>ipr_mandates := ipr_mandates s'\<rparr>"
proof (cases "case dget (ipr_mandates s) (pm_mandate_id m) of None \<Rightarrow> False | Some current \<Rightarrow> current \<noteq> m")
  case True
  then show ?thesis using assms(1) by (simp add: create_mandate_def)
next
  case False
  obtain y d where r: "revoke_expired m t (ipr_mandates s) (ipr_mandates s) = (y, d)" by (cases "revoke_expired m t (ipr_mandates s) (ipr_mandates s)")
  have k: "distinct (dkeys (ipr_mandates s))" using assms(2) by (simp add: stored_ok_def)
  have it: "dget (ipr_mandates s) j = Some v \<and> valid_mandate v" "pm_mandate_id v = j" if "(j, v) \<in> set (ipr_mandates s)" for j v
    using that k assms(2) map_of_eq_Some_iff [OF k] by (auto simp: stored_ok_def)
  have rv: "y = Inr ()" "revised (ipr_mandates s) d" using revoke_expired_revised [OF r revised_refl k] it(1) by auto
  have "dget d (pm_mandate_id m) = dget (ipr_mandates s) (pm_mandate_id m)" using revoke_expired_keeps [OF r] it(2) by blast
  then have id: "dget d (pm_mandate_id m) \<in> {None, Some m}" using False by (auto split: option.splits)
  show ?thesis
  proof (cases "list_ex (\<lambda>v. same_game_user v m) (dvalues d)")
    case True
    then show ?thesis using assms(1) False r rv by (auto simp: create_mandate_def)
  next
    case act: False
    then show ?thesis using assms(1) False r rv payment_effect.mandate_created [OF rv(2) assms(3) id act] by (auto simp: create_mandate_def)
  qed
qed

lemma validate_mandate_iff:
  "validate_mandate m t now = Inr () \<longleftrightarrow> pm_revoked_at m = None \<and> is_aware now = is_aware (pm_valid_from m) \<and> instant (pm_valid_from m) \<le> instant now
     \<and> is_aware (pm_expires_at m) = is_aware now \<and> instant now < instant (pm_expires_at m) \<and> pm_game_id m = st_game_id t \<and> pm_chain_id m = st_chain_id t
     \<and> pm_token_address m = st_token_address t \<and> st_payee t \<in> set (pm_allowed_payees m) \<and> st_amount_atomic t \<le> ml_max_per_payment_atomic (pm_limits m)
     \<and> pm_reserved_atomic m + pm_consumed_atomic m + st_amount_atomic t \<le> ml_max_cumulative_atomic (pm_limits m)"
  unfolding validate_mandate_def if_raise_Inr bindR_Inr_iff dt_le_iff dt_less_iff by auto

lemma terms_normal:
  assumes "SettlementTerms_post_init t = Inr t"
  shows "0 < st_amount_atomic t" "lower (st_payee t) = st_payee t" "hex_string 40 (st_payee t)"
proof -
  have c: "0 < st_amount_atomic t \<and> hex_string 40 (st_payee t) \<and> t = t\<lparr>st_payer := lower (st_payer t), st_payee := lower (st_payee t), st_token_address := lower (st_token_address t)\<rparr>"
    using assms unfolding SettlementTerms_post_init_def if_raise_Inr bindR_Inr_iff address_iff by auto
  then show "0 < st_amount_atomic t" "hex_string 40 (st_payee t)" by blast+
  show "lower (st_payee t) = st_payee t" using arg_cong [OF c [THEN conjunct2, THEN conjunct2], of st_payee] by simp
qed

text \<open>No two reservations of different mandates, intents or hashes share their SHA-256 identifier.\<close>

definition no_collision :: "string \<Rightarrow> SettlementTerms \<Rightarrow> InMemoryPaymentRepository \<Rightarrow> bool" where
  "no_collision k t s \<longleftrightarrow> (case dget (ipr_reservations s) (reservation_identifier k t) of None \<Rightarrow> True
     | Some r \<Rightarrow> rv_mandate_id r = k \<and> rv_settlement_intent_id r = st_settlement_intent_id t \<and> rv_intent_hash r = st_intent_hash t)"

lemma reserve_mandate_effect:
  assumes "reserve_mandate k t now s = (x, s')" "stored_ok s" "SettlementTerms_post_init t = Inr t" "no_collision k t s"
  shows "s' = s \<or> (\<exists>y. x = Inr y) \<and> payment_effect s s'"
proof (cases "s' = s")
  case ch: False
  have n: "dget (ipr_reservations_by_intent s) (st_settlement_intent_id t) = None"
    using assms(1) ch by (auto simp: reserve_mandate_def split: option.splits if_splits)
  obtain m where m: "dget (ipr_mandates s) k = Some m" using assms(1) ch n by (auto simp: reserve_mandate_def split: option.splits)
  let ?id = "reservation_identifier k t"
  let ?r = "\<lparr>rv_reservation_id = ?id, rv_mandate_id = k, rv_settlement_intent_id = st_settlement_intent_id t, rv_intent_hash = st_intent_hash t,
        rv_amount_atomic = st_amount_atomic t, rv_payee = st_payee t, rv_status = Reserved, rv_reserved_at = now, rv_finalized_at = None,
        rv_tx_hash = None, rv_release_reason = None\<rparr>"
  note tn = terms_normal [OF assms(3)]
  have r: "PaymentReservation_post_init ?r = Inr ?r" using tn by (simp add: PaymentReservation_post_init_iff status_fields_error_def)
  obtain m' where v: "validate_mandate m t now = Inr ()" and w: "with_accounting m (pm_reserved_atomic m + st_amount_atomic t) (pm_consumed_atomic m) = Inr m'"
    and s': "(x, s') = (Inr ?r, s\<lparr>ipr_mandates := dput (ipr_mandates s) k m', ipr_reservations := dput (ipr_reservations s) ?id ?r,
       ipr_reservations_by_intent := dput (ipr_reservations_by_intent s) (st_settlement_intent_id t) ?id\<rparr>)"
    using assms(1) unfolding reserve_mandate_def n m option.case Let_def attempt_changes [OF ch] r by auto
  have f: "dget (ipr_reservations s) ?id = None"
  proof (cases "dget (ipr_reservations s) ?id")
    case (Some q)
    then have "dget (ipr_reservations_by_intent s) (rv_settlement_intent_id q) = Some ?id" using assms(2) by (simp add: stored_ok_def)
    then show ?thesis using assms(4) Some n by (simp add: no_collision_def)
  qed
  have "payment_effect s (s\<lparr>ipr_mandates := dput (ipr_mandates s) k m', ipr_reservations := dput (ipr_reservations s) (rv_reservation_id ?r) ?r,
       ipr_reservations_by_intent := dput (ipr_reservations_by_intent s) (st_settlement_intent_id t) (rv_reservation_id ?r)\<rparr>)"
    using v unfolding validate_mandate_iff by (intro payment_effect.reserved [OF n m r]) (use tn w f in auto)
  then show ?thesis using s' by simp
qed simp

lemma finalize_effect:
  assumes "finalize k r q c s = (x, s')" "dget (ipr_reservations s) k = Some r" "rv_status r \<in> {Reserved, Submitted}" "valid_reservation q" "s' \<noteq> s"
    "q = r\<lparr>rv_status := Consumed, rv_finalized_at := Some now, rv_tx_hash := Some t\<rparr> \<and> c = rv_amount_atomic r
     \<or> rv_status r = Reserved \<and> q = r\<lparr>rv_status := Released, rv_finalized_at := Some now, rv_release_reason := Some reason\<rparr> \<and> c = 0"
  shows "(\<exists>y. x = Inr y) \<and> payment_effect s s'"
proof -
  obtain m m' where m: "dget (ipr_mandates s) (rv_mandate_id r) = Some m"
    and w: "with_accounting m (pm_reserved_atomic m - rv_amount_atomic r) (pm_consumed_atomic m + c) = Inr m'"
    and s': "x = Inr q" "s' = s\<lparr>ipr_mandates := dput (ipr_mandates s) (pm_mandate_id m) m', ipr_reservations := dput (ipr_reservations s) k q\<rparr>"
    using assms(1,5) by (auto simp: finalize_def elim!: attempt_cases split: option.splits)
  show ?thesis using s' payment_effect.finalized [OF assms(2,3) m assms(6,4) w] by simp
qed

lemma reservation_of_iff [result_simps]: "reservation_of s k = Inr r \<longleftrightarrow> dget (ipr_reservations s) k = Some r"
  by (simp add: reservation_of_def split: option.splits)

lemma post_init_same_payee: "valid_reservation r \<Longrightarrow> PaymentReservation_post_init q = Inr p \<Longrightarrow> rv_payee q = rv_payee r \<Longrightarrow> p = q"
  using valid_payee [of r] unfolding PaymentReservation_post_init_iff by simp

lemma consume_reservation_effect:
  assumes "consume_reservation k t now s = (x, s')" "stored_ok s"
  shows "s' = s \<or> (\<exists>y. x = Inr y) \<and> payment_effect s s'"
proof (cases "s' = s")
  case ch: False
  obtain r where r: "dget (ipr_reservations s) k = Some r" "rv_status r \<in> {Reserved, Submitted}"
    using assms(1) ch by (auto simp: consume_reservation_def result_simps elim!: attempt_cases split: if_splits)
  let ?q = "r\<lparr>rv_status := Consumed, rv_finalized_at := Some now, rv_tx_hash := Some (lower t)\<rparr>"
  obtain p where p: "PaymentReservation_post_init ?q = Inr p" "finalize k r p (rv_amount_atomic r) s = (x, s')"
    using assms(1) ch r by (auto simp: consume_reservation_def result_simps elim!: attempt_cases split: if_splits)
  have "valid_reservation r" using r assms(2) by (simp add: stored_ok_def)
  then have "p = ?q" using p(1) by (rule post_init_same_payee [where q = ?q]) simp
  then show ?thesis using finalize_effect [OF p(2) r _ ch] p(1) by blast
qed simp

lemma release_reservation_effect:
  assumes "release_reservation k reason now s = (x, s')" "stored_ok s"
  shows "s' = s \<or> (\<exists>y. x = Inr y) \<and> payment_effect s s'"
proof (cases "s' = s")
  case ch: False
  obtain r where r: "dget (ipr_reservations s) k = Some r" "rv_status r = Reserved"
    using assms(1) ch by (auto simp: release_reservation_def result_simps elim!: attempt_cases split: if_splits)
  let ?q = "r\<lparr>rv_status := Released, rv_finalized_at := Some now, rv_release_reason := Some reason\<rparr>"
  obtain p where p: "PaymentReservation_post_init ?q = Inr p" "finalize k r p 0 s = (x, s')"
    using assms(1) ch r by (auto simp: release_reservation_def result_simps elim!: attempt_cases split: if_splits)
  have "valid_reservation r" using r assms(2) by (simp add: stored_ok_def)
  then have "p = ?q" using p(1) by (rule post_init_same_payee [where q = ?q]) simp
  then show ?thesis using finalize_effect [OF p(2) r(1) _ _ ch] p(1) r(2) by blast
qed simp

lemma submit_reservation_effect:
  assumes "submit_reservation k t now s = (x, s')" "stored_ok s"
  shows "s' = s \<or> (\<exists>y. x = Inr y) \<and> payment_effect s s'"
proof (cases "s' = s")
  case ch: False
  obtain r where r: "dget (ipr_reservations s) k = Some r" "rv_status r = Reserved"
    using assms(1) ch by (auto simp: submit_reservation_def result_simps elim!: attempt_cases split: if_splits)
  let ?q = "r\<lparr>rv_status := Submitted, rv_tx_hash := Some (lower t)\<rparr>"
  obtain p where p: "PaymentReservation_post_init ?q = Inr p" "x = Inr p" "s' = s\<lparr>ipr_reservations := dput (ipr_reservations s) k p\<rparr>"
    using assms(1) ch r by (auto simp: submit_reservation_def result_simps elim!: attempt_cases split: if_splits)
  have "valid_reservation r" using r assms(2) by (simp add: stored_ok_def)
  then have "p = ?q" using p(1) by (rule post_init_same_payee [where q = ?q]) simp
  then show ?thesis using payment_effect.submitted [OF r, of ?q "lower t"] p by simp
qed simp

lemma revoke_mandate_effect:
  assumes "revoke_mandate k u now s = (x, s')" "stored_ok s"
  shows "s' = s \<or> (\<exists>y. x = Inr y) \<and> payment_effect s s'"
proof (cases "s' = s")
  case ch: False
  obtain m where m: "dget (ipr_mandates s) k = Some m" "pm_revoked_at m = None"
    using assms(1) ch by (auto simp: revoke_mandate_def split: option.splits if_splits)
  have "valid_mandate m" using m(1) assms(2) by (simp add: stored_ok_def)
  then have "PaymentMandate_post_init (m\<lparr>pm_revoked_at := Some now\<rparr>) = Inr (m\<lparr>pm_revoked_at := Some now\<rparr>)" by (rule mandate_revoke)
  then have "x = Inr (m\<lparr>pm_revoked_at := Some now\<rparr>)" "s' = s\<lparr>ipr_mandates := dput (ipr_mandates s) k (m\<lparr>pm_revoked_at := Some now\<rparr>)\<rparr>"
    using assms(1) ch m by (auto simp: revoke_mandate_def attempt_def split: if_splits)
  then show ?thesis using payment_effect.mandates_revised [OF revised_put [OF revised_refl m]] by simp
qed simp

end
