(* ===== verification/Arena_Payments_Properties.thy ===== *)
theory Arena_Payments_Properties
  imports Arena_Payments_Ledger
begin

text \<open>
  Runs of payment calls and what holds after them: spending limits, the life of a reservation, harmless
  errors, exclusive wallet bindings and the completion of held payments, with a concrete run as witness.
\<close>

section \<open>Runs\<close>

datatype payment_op =
    BindWallet string string "string option" datetime
  | CreateMandate datetime PaymentMandate
  | ReserveMandate string SettlementTerms datetime
  | ConsumeReservation string string datetime
  | SubmitReservation string string datetime
  | ReleaseReservation string string datetime
  | RevokeMandate string string datetime

text \<open>A call on the repository, and the repository it leaves behind, whether or not it raises.\<close>

fun payment_step :: "payment_op \<Rightarrow> InMemoryPaymentRepository \<Rightarrow> InMemoryPaymentRepository" where
  "payment_step (BindWallet u ip ps now) s = snd (get_or_bind_wallet u ip ps now s)"
| "payment_step (CreateMandate t m) s = snd (create_mandate t m s)"
| "payment_step (ReserveMandate k t now) s = snd (reserve_mandate k t now s)"
| "payment_step (ConsumeReservation k t now) s = snd (consume_reservation k t now s)"
| "payment_step (SubmitReservation k t now) s = snd (submit_reservation k t now s)"
| "payment_step (ReleaseReservation k reason now) s = snd (release_reservation k reason now s)"
| "payment_step (RevokeMandate k u now) s = snd (revoke_mandate k u now s)"

text \<open>Mandates and terms are objects that their constructors returned, and reservation identifiers do not collide.\<close>

fun payment_ok :: "payment_op \<Rightarrow> InMemoryPaymentRepository \<Rightarrow> bool" where
  "payment_ok (CreateMandate t m) s = valid_mandate m"
| "payment_ok (ReserveMandate k t now) s = (SettlementTerms_post_init t = Inr t \<and> no_collision k t s)"
| "payment_ok _ s = True"

lemma payment_step_effect:
  assumes "payment_ok p s" "stored_ok s"
  shows "payment_step p s = s \<or> payment_effect s (payment_step p s)"
proof (cases p)
  case (BindWallet u ip ps now)
  then show ?thesis using get_or_bind_wallet_effect [OF prod.collapse [symmetric], where u = u and ip = ip and ps = ps and now = now and s = s] by auto
next
  case (CreateMandate t m)
  obtain x s' where c: "create_mandate t m s = (x, s')" by (cases "create_mandate t m s")
  show ?thesis
    using create_mandate_effect [OF c assms(2)] payment_effect.mandates_revised [of s "ipr_mandates s'"] assms(1) CreateMandate c by auto
next
  case (ReserveMandate k t now)
  then show ?thesis using reserve_mandate_effect [OF prod.collapse [symmetric], where k = k and t = t and now = now and s = s] assms by auto
next
  case (ConsumeReservation k t now)
  then show ?thesis using consume_reservation_effect [OF prod.collapse [symmetric], where k = k and t = t and now = now and s = s] assms by auto
next
  case (SubmitReservation k t now)
  then show ?thesis using submit_reservation_effect [OF prod.collapse [symmetric], where k = k and t = t and now = now and s = s] assms by auto
next
  case (ReleaseReservation k reason now)
  then show ?thesis using release_reservation_effect [OF prod.collapse [symmetric], where k = k and reason = reason and now = now and s = s] assms by auto
next
  case (RevokeMandate k u now)
  then show ?thesis using revoke_mandate_effect [OF prod.collapse [symmetric], where k = k and u = u and now = now and s = s] assms by auto
qed

interpretation payments: invariant_machine payment_step payment_ok ledger_inv
proof unfold_locales
  fix s p assume "ledger_inv s" "payment_ok p s"
  then show "ledger_inv (payment_step p s)" using payment_step_effect [of p s] ledger_inv_effect [of s] by (auto simp: ledger_inv_def)
qed

lemma new_repository_inv: "ledger_inv (InMemoryPaymentRepository_new ws)"
  by (simp add: ledger_inv_def stored_ok_def sums_ok_def money_ok_def one_active_def InMemoryPaymentRepository_new_def)

definition payments_after :: "WalletInventoryItem list \<Rightarrow> payment_op list \<Rightarrow> InMemoryPaymentRepository" where
  "payments_after ws ps = fold payment_step ps (InMemoryPaymentRepository_new ws)"

abbreviation payments_run :: "WalletInventoryItem list \<Rightarrow> payment_op list \<Rightarrow> bool" where
  "payments_run ws ps \<equiv> payments.admissible ps (InMemoryPaymentRepository_new ws)"

lemma payments_after_inv: "payments_run ws ps \<Longrightarrow> ledger_inv (payments_after ws ps)"
  unfolding payments_after_def using new_repository_inv by (rule payments.run_inv)

section \<open>Spending\<close>

text \<open>Property C2: in every repository reached by any calls, what a mandate has in reserved, submitted and consumed
  payments never exceeds its cumulative limit; each payment is positive, within the per-payment limit and
  to a payee the mandate allows; an intent has at most one reservation; and a user has at most one mandate
  in a game that is not revoked.\<close>

theorem mandate_never_overspent:
  assumes "payments_run ws ps" "s = payments_after ws ps"
  shows "(\<forall>k m. dget (ipr_mandates s) k = Some m \<longrightarrow>
            tally is_held k (ipr_reservations s) + tally is_spent k (ipr_reservations s) \<le> ml_max_cumulative_atomic (pm_limits m))
     \<and> (\<forall>k r. dget (ipr_reservations s) k = Some r \<longrightarrow> 0 < rv_amount_atomic r \<and> (\<exists>m. dget (ipr_mandates s) (rv_mandate_id r) = Some m
          \<and> rv_amount_atomic r \<le> ml_max_per_payment_atomic (pm_limits m) \<and> rv_payee r \<in> set (pm_allowed_payees m)))
     \<and> (\<forall>k r k' r'. dget (ipr_reservations s) k = Some r \<and> dget (ipr_reservations s) k' = Some r'
          \<and> rv_settlement_intent_id r = rv_settlement_intent_id r' \<longrightarrow> k = k')
     \<and> (\<forall>k m k' m'. dget (ipr_mandates s) k = Some m \<and> dget (ipr_mandates s) k' = Some m' \<and> pm_revoked_at m = None \<and> pm_revoked_at m' = None
          \<and> pm_user_id m = pm_user_id m' \<and> pm_game_id m = pm_game_id m' \<longrightarrow> k = k')"
proof -
  have inv: "stored_ok s" "sums_ok s" "money_ok s" "one_active (ipr_mandates s)"
    using payments_after_inv [OF assms(1)] assms(2) by (simp_all add: ledger_inv_def)
  have "tally is_held k (ipr_reservations s) + tally is_spent k (ipr_reservations s) \<le> ml_max_cumulative_atomic (pm_limits m)"
    if m: "dget (ipr_mandates s) k = Some m" for k m
  proof -
    have "valid_mandate m" using inv(1) m unfolding stored_ok_def by blast
    moreover have "tally is_held k (ipr_reservations s) \<le> pm_reserved_atomic m" "tally is_spent k (ipr_reservations s) \<le> pm_consumed_atomic m"
      using inv(2) m unfolding sums_ok_def by blast+
    ultimately show ?thesis using valid_mandate_conditions [of m] by linarith
  qed
  moreover have "\<forall>k r k' r'. dget (ipr_reservations s) k = Some r \<and> dget (ipr_reservations s) k' = Some r'
          \<and> rv_settlement_intent_id r = rv_settlement_intent_id r' \<longrightarrow> k = k'"
    using inv(1) unfolding stored_ok_def by (metis option.inject)
  ultimately show ?thesis using inv(3,4) unfolding money_ok_def one_active_def funded_def by blast
qed

section \<open>The life of a reservation\<close>

fun status_next :: "ReservationStatus \<Rightarrow> ReservationStatus \<Rightarrow> bool" where
  "status_next Reserved x = True"
| "status_next Submitted x = (x = Submitted \<or> x = Consumed)"
| "status_next Consumed x = (x = Consumed)"
| "status_next Released x = (x = Released)"

lemma status_next_refl [simp]: "status_next x x"
  by (cases x) simp_all

definition same_payment :: "PaymentReservation \<Rightarrow> PaymentReservation \<Rightarrow> bool" where
  "same_payment r q \<longleftrightarrow> rv_reservation_id q = rv_reservation_id r \<and> rv_mandate_id q = rv_mandate_id r
     \<and> rv_settlement_intent_id q = rv_settlement_intent_id r \<and> rv_intent_hash q = rv_intent_hash r \<and> rv_amount_atomic q = rv_amount_atomic r
     \<and> rv_payee q = rv_payee r \<and> rv_reserved_at q = rv_reserved_at r"

definition reservation_next :: "PaymentReservation \<Rightarrow> PaymentReservation \<Rightarrow> bool" where
  "reservation_next r q \<longleftrightarrow> same_payment r q \<and> status_next (rv_status r) (rv_status q) \<and> (rv_status q = rv_status r \<longrightarrow> q = r)"

lemma reservation_next_refl [simp]: "reservation_next r r"
  by (simp add: reservation_next_def same_payment_def)

lemma reservation_next_effect:
  assumes "payment_effect s s'" "dget (ipr_reservations s) k = Some r"
  shows "\<exists>q. dget (ipr_reservations s') k = Some q \<and> reservation_next r q"
  using assms
proof (induction rule: payment_effect.induct)
  case (submitted s j r' q t)
  then show ?case by (cases "j = k") (auto simp: dict_get reservation_next_def same_payment_def)
next
  case (finalized s j r' m q now t c reason m')
  then show ?case by (cases "j = k") (auto simp: dict_get reservation_next_def same_payment_def)
qed (auto simp: dict_get)

text \<open>Property C13: a reservation is never lost and never changes its mandate, intent, amount or payee; its status moves
  only from reserved to submitted, consumed or released and from submitted to consumed; in between, and
  once consumed or released, it does not change at all. Its transaction hash and its release reason are
  those its status calls for.\<close>

theorem reservation_lifecycle:
  assumes "payments_run ws ps" "s = payments_after ws ps" "payment_ok p s" "dget (ipr_reservations s) k = Some r"
  shows "\<exists>q. dget (ipr_reservations (payment_step p s)) k = Some q \<and> same_payment r q \<and> status_next (rv_status r) (rv_status q)
     \<and> (rv_status q = rv_status r \<longrightarrow> q = r)
     \<and> (rv_tx_hash q \<noteq> None \<longleftrightarrow> rv_status q = Submitted \<or> rv_status q = Consumed)
     \<and> (rv_finalized_at q \<noteq> None \<longleftrightarrow> rv_status q = Consumed \<or> rv_status q = Released)
     \<and> (rv_release_reason q \<noteq> None \<longleftrightarrow> rv_status q = Released)"
proof -
  have inv: "ledger_inv s" using payments_after_inv [OF assms(1)] assms(2) by simp
  then have eff: "payment_step p s = s \<or> payment_effect s (payment_step p s)" using payment_step_effect [OF assms(3)] by (simp add: ledger_inv_def)
  then obtain q where q: "dget (ipr_reservations (payment_step p s)) k = Some q" "reservation_next r q"
    using reservation_next_effect [of s "payment_step p s" k r] assms(4) reservation_next_refl [of r] by metis
  have "stored_ok (payment_step p s)" using payments.step_inv [OF inv assms(3)] by (simp add: ledger_inv_def)
  then have "valid_reservation q" using q(1) unfolding stored_ok_def by blast
  then have "status_fields_error q = None" by (simp add: PaymentReservation_post_init_iff)
  then have "(rv_tx_hash q \<noteq> None \<longleftrightarrow> rv_status q = Submitted \<or> rv_status q = Consumed)
     \<and> (rv_finalized_at q \<noteq> None \<longleftrightarrow> rv_status q = Consumed \<or> rv_status q = Released) \<and> (rv_release_reason q \<noteq> None \<longleftrightarrow> rv_status q = Released)"
    unfolding status_fields_error_def by (cases "rv_status q") (simp_all split: if_split_asm)
  then show ?thesis using q unfolding reservation_next_def by blast
qed

section \<open>Errors\<close>

text \<open>A call that raises leaves the repository exactly as it was, with one exception: creating a mandate
  while another one is active may have revoked the user's expired mandates before it raises.\<close>

theorem failed_payments_harmless:
  assumes "payments_run ws ps" "s = payments_after ws ps"
  shows "(get_or_bind_wallet u ip sub now s = (Inl e1, s1) \<longrightarrow> s1 = s)
    \<and> (valid_mandate m \<and> create_mandate now m s = (Inl e2, s2) \<longrightarrow>
         s2 = s \<or> e2 = MandateRejected ''active_game_mandate_exists'' \<and> revised (ipr_mandates s) (ipr_mandates s2) \<and> s2 = s\<lparr>ipr_mandates := ipr_mandates s2\<rparr>)
    \<and> (SettlementTerms_post_init t = Inr t \<and> no_collision k t s \<and> reserve_mandate k t now s = (Inl e3, s3) \<longrightarrow> s3 = s)
    \<and> (consume_reservation k tx now s = (Inl e4, s4) \<longrightarrow> s4 = s)
    \<and> (submit_reservation k tx now s = (Inl e5, s5) \<longrightarrow> s5 = s)
    \<and> (release_reservation k reason now s = (Inl e6, s6) \<longrightarrow> s6 = s)
    \<and> (revoke_mandate k u now s = (Inl e7, s7) \<longrightarrow> s7 = s)"
proof -
  have ok: "stored_ok s" using payments_after_inv [OF assms(1)] assms(2) by (simp add: ledger_inv_def)
  have "s2 = s \<or> e2 = MandateRejected ''active_game_mandate_exists'' \<and> revised (ipr_mandates s) (ipr_mandates s2) \<and> s2 = s\<lparr>ipr_mandates := ipr_mandates s2\<rparr>"
    if "create_mandate now m s = (Inl e2, s2)" "valid_mandate m"
    using create_mandate_effect [OF that(1) ok that(2)] by auto
  then show ?thesis
    using get_or_bind_wallet_effect [of u ip sub now s "Inl e1" s1] reserve_mandate_effect [OF _ ok, of k t now "Inl e3" s3]
      consume_reservation_effect [OF _ ok, of k tx now "Inl e4" s4] submit_reservation_effect [OF _ ok, of k tx now "Inl e5" s5]
      release_reservation_effect [OF _ ok, of k reason now "Inl e6" s6] revoke_mandate_effect [OF _ ok, of k u now "Inl e7" s7]
    by blast
qed

section \<open>Wallet bindings\<close>

text \<open>Bound wallets are marked in the inventory, belong to one user, and platform subjects are indexed by user.\<close>

definition wallet_inv :: "InMemoryPaymentRepository \<Rightarrow> bool" where
  "wallet_inv s \<longleftrightarrow> (\<forall>k w. dget (ipr_wallet_inventory s) k = Some w \<longrightarrow> wi_wallet_id w = k)
     \<and> (\<forall>u b. dget (ipr_wallet_bindings s) u = Some b \<longrightarrow> wb_user_id b = u \<and> (\<exists>w. dget (ipr_wallet_inventory s) (wb_wallet_id b) = Some w
          \<and> wi_status w = Bound \<and> wi_chain_id w = wb_chain_id b \<and> wi_address w = wb_address b))
     \<and> (\<forall>u b u' b'. dget (ipr_wallet_bindings s) u = Some b \<longrightarrow> dget (ipr_wallet_bindings s) u' = Some b' \<longrightarrow> wb_wallet_id b = wb_wallet_id b' \<longrightarrow> u = u')
     \<and> (\<forall>x u. dget (ipr_bindings_by_subject s) x = Some u \<longleftrightarrow> (\<exists>b. dget (ipr_wallet_bindings s) u = Some b \<and> wb_github_subject b = Some x))"

lemma inventory_keyed:
  assumes "\<And>k w. dget d k = Some w \<Longrightarrow> wi_wallet_id w = k" "dget (fold (\<lambda>w d. dput d (wi_wallet_id w) w) ws d) k = Some w"
  shows "wi_wallet_id w = k"
  using assms
proof (induction ws arbitrary: d)
  case (Cons v ws)
  have k: "wi_wallet_id u = j" if "dget (dput d (wi_wallet_id v) v) j = Some u" for j u
    using that Cons.prems(1) [of j u] by (cases "j = wi_wallet_id v") (simp_all add: dict_get)
  show ?case by (rule Cons.IH [of "dput d (wi_wallet_id v) v", OF k]) (use Cons.prems(2) in \<open>simp_all only: fold_simps\<close>)
next
  case Nil
  then show ?case by (simp only: fold_simps)
qed

lemma new_wallet_inv: "wallet_inv (InMemoryPaymentRepository_new ws)"
proof -
  have "wi_wallet_id w = k" if "dget (ipr_wallet_inventory (InMemoryPaymentRepository_new ws)) k = Some w" for k w
  proof (rule inventory_keyed [of "[]"])
    show "dget (fold (\<lambda>w d. dput d (wi_wallet_id w) w) ws []) k = Some w" using that by (simp add: InMemoryPaymentRepository_new_def)
  qed simp
  then have k: "\<forall>k w. dget (ipr_wallet_inventory (InMemoryPaymentRepository_new ws)) k = Some w \<longrightarrow> wi_wallet_id w = k" by (intro allI impI)
  show ?thesis unfolding wallet_inv_def by (intro conjI k) (simp_all add: InMemoryPaymentRepository_new_def)
qed

lemma available_wallets_in: "available_wallets s = w # rest \<Longrightarrow> w \<in> set (dvalues (ipr_wallet_inventory s)) \<and> wi_status w = Available"
proof -
  assume "available_wallets s = w # rest"
  then have "w \<in> set (available_wallets s)" by simp
  then show ?thesis by (auto simp: available_wallets_def)
qed

lemma get_or_bind_wallet_new:
  assumes "get_or_bind_wallet u ip ps now s = (x, s')" "s' \<noteq> s"
  obtains w b v where "dget (ipr_wallet_bindings s) u = None" "w \<in> set (dvalues (ipr_wallet_inventory s))" "wi_status w = Available"
    "b = \<lparr>wb_user_id = u, wb_github_subject = ps, wb_wallet_id = wi_wallet_id w, wb_chain_id = wi_chain_id w, wb_address = lower (wi_address w), wb_bound_at = now\<rparr>"
    "v = w\<lparr>wi_status := Bound, wi_address := lower (wi_address w)\<rparr>"
    "\<forall>y. ps = Some y \<longrightarrow> dget (ipr_bindings_by_subject s) y \<in> {None, Some u}"
    "s' = s\<lparr>ipr_wallet_inventory := dput (ipr_wallet_inventory s) (wi_wallet_id w) v, ipr_wallet_bindings := dput (ipr_wallet_bindings s) u b,
       ipr_bindings_by_subject := (case ps of None \<Rightarrow> ipr_bindings_by_subject s | Some y \<Rightarrow> dput (ipr_bindings_by_subject s) y u)\<rparr>"
proof -
  have n: "dget (ipr_wallet_bindings s) u = None" using assms by (auto simp: get_or_bind_wallet_def split: option.splits if_splits)
  have i: "identity_error ip ps = None" using assms by (auto simp: get_or_bind_wallet_def split: option.splits)
  have c: "\<not> (case ps of None \<Rightarrow> False | Some y \<Rightarrow> (case dget (ipr_bindings_by_subject s) y of None \<Rightarrow> False | Some u' \<Rightarrow> u' \<noteq> u))"
    using assms n i by (auto simp: get_or_bind_wallet_def)
  obtain w rest where w: "available_wallets s = w # rest" using assms n i c by (cases "available_wallets s") (auto simp: get_or_bind_wallet_def)
  have "\<exists>b v. UserWalletBinding_post_init \<lparr>wb_user_id = u, wb_github_subject = ps, wb_wallet_id = wi_wallet_id w,
         wb_chain_id = wi_chain_id w, wb_address = wi_address w, wb_bound_at = now\<rparr> = Inr b \<and> WalletInventoryItem_post_init (w\<lparr>wi_status := Bound\<rparr>) = Inr v
       \<and> s' = s\<lparr>ipr_wallet_inventory := dput (ipr_wallet_inventory s) (wi_wallet_id w) v, ipr_wallet_bindings := dput (ipr_wallet_bindings s) u b,
       ipr_bindings_by_subject := (case ps of None \<Rightarrow> ipr_bindings_by_subject s | Some y \<Rightarrow> dput (ipr_bindings_by_subject s) y u)\<rparr>"
    using assms(1) unfolding get_or_bind_wallet_def i n w option.case list.case if_not_P [OF c] attempt_changes [OF assms(2)] by auto
  then obtain b v where b: "UserWalletBinding_post_init \<lparr>wb_user_id = u, wb_github_subject = ps, wb_wallet_id = wi_wallet_id w,
         wb_chain_id = wi_chain_id w, wb_address = wi_address w, wb_bound_at = now\<rparr> = Inr b" and v: "WalletInventoryItem_post_init (w\<lparr>wi_status := Bound\<rparr>) = Inr v"
    and s': "s' = s\<lparr>ipr_wallet_inventory := dput (ipr_wallet_inventory s) (wi_wallet_id w) v, ipr_wallet_bindings := dput (ipr_wallet_bindings s) u b,
       ipr_bindings_by_subject := (case ps of None \<Rightarrow> ipr_bindings_by_subject s | Some y \<Rightarrow> dput (ipr_bindings_by_subject s) y u)\<rparr>"
    by (elim exE conjE)
  have b': "b = \<lparr>wb_user_id = u, wb_github_subject = ps, wb_wallet_id = wi_wallet_id w, wb_chain_id = wi_chain_id w, wb_address = lower (wi_address w), wb_bound_at = now\<rparr>"
    using b by (simp add: UserWalletBinding_post_init_def result_simps split: if_split_asm)
  have v': "v = w\<lparr>wi_status := Bound, wi_address := lower (wi_address w)\<rparr>"
    using v by (simp add: WalletInventoryItem_post_init_def result_simps split: if_split_asm)
  have ps: "\<forall>y. ps = Some y \<longrightarrow> dget (ipr_bindings_by_subject s) y \<in> {None, Some u}"
    using c by (auto split: option.splits)
  show ?thesis using that [OF n available_wallets_in [OF w, THEN conjunct1] available_wallets_in [OF w, THEN conjunct2] b' v' ps s'] .
qed

lemma wallet_invD:
  assumes "wallet_inv s"
  shows "dget (ipr_wallet_inventory s) k = Some w \<Longrightarrow> wi_wallet_id w = k"
    "dget (ipr_wallet_bindings s) u = Some b \<Longrightarrow> wb_user_id b = u"
    "dget (ipr_wallet_bindings s) u = Some b \<Longrightarrow> \<exists>w. dget (ipr_wallet_inventory s) (wb_wallet_id b) = Some w
       \<and> wi_status w = Bound \<and> wi_chain_id w = wb_chain_id b \<and> wi_address w = wb_address b"
    "dget (ipr_wallet_bindings s) u = Some b \<Longrightarrow> dget (ipr_wallet_bindings s) u' = Some b' \<Longrightarrow> wb_wallet_id b = wb_wallet_id b' \<Longrightarrow> u = u'"
    "dget (ipr_bindings_by_subject s) x = Some u \<longleftrightarrow> (\<exists>b. dget (ipr_wallet_bindings s) u = Some b \<and> wb_github_subject b = Some x)"
  using assms unfolding wallet_inv_def by blast+

lemma wallet_inv_bind:
  assumes "get_or_bind_wallet u ip ps now s = (x, s')" "wallet_inv s" "distinct (dkeys (ipr_wallet_inventory s))"
  shows "wallet_inv s'"
proof (cases "s' = s")
  case False
  obtain w b v where n: "dget (ipr_wallet_bindings s) u = None" and w: "w \<in> set (dvalues (ipr_wallet_inventory s))" "wi_status w = Available"
    and b: "b = \<lparr>wb_user_id = u, wb_github_subject = ps, wb_wallet_id = wi_wallet_id w, wb_chain_id = wi_chain_id w, wb_address = lower (wi_address w), wb_bound_at = now\<rparr>"
    and v: "v = w\<lparr>wi_status := Bound, wi_address := lower (wi_address w)\<rparr>"
    and ps: "\<forall>y. ps = Some y \<longrightarrow> dget (ipr_bindings_by_subject s) y \<in> {None, Some u}"
    and s': "s' = s\<lparr>ipr_wallet_inventory := dput (ipr_wallet_inventory s) (wi_wallet_id w) v, ipr_wallet_bindings := dput (ipr_wallet_bindings s) u b,
       ipr_bindings_by_subject := (case ps of None \<Rightarrow> ipr_bindings_by_subject s | Some y \<Rightarrow> dput (ipr_bindings_by_subject s) y u)\<rparr>"
    using get_or_bind_wallet_new [OF assms(1) False] .
  note inv = wallet_invD [OF assms(2)]
  obtain k where "dget (ipr_wallet_inventory s) k = Some w" using w(1) dict.vals_get [OF assms(3)] by blast
  then have w': "dget (ipr_wallet_inventory s) (wi_wallet_id w) = Some w" using inv(1) by blast
  have other: "wb_wallet_id c \<noteq> wi_wallet_id w" if "dget (ipr_wallet_bindings s) u' = Some c" for u' c
    using inv(3) [OF that] w' w(2) by auto
  have none: "dget (ipr_bindings_by_subject s) y = None" if "ps = Some y" for y
  proof -
    have "dget (ipr_bindings_by_subject s) y \<noteq> Some u" using inv(5) [of y u] n by simp
    then show ?thesis using ps that by blast
  qed
  have 1: "wi_wallet_id z = k" if "dget (ipr_wallet_inventory s') k = Some z" for k z
    using that inv(1) [of k z] by (auto simp: s' v dict_get split: if_split_asm)
  have 2: "wb_user_id c = u' \<and> (\<exists>z. dget (ipr_wallet_inventory s') (wb_wallet_id c) = Some z \<and> wi_status z = Bound \<and> wi_chain_id z = wb_chain_id c \<and> wi_address z = wb_address c)"
    if c: "dget (ipr_wallet_bindings s') u' = Some c" for u' c
  proof (cases "u' = u")
    case True
    then show ?thesis using c by (auto simp: s' v b dict_get)
  next
    case False
    then have "dget (ipr_wallet_bindings s) u' = Some c" using c by (simp add: s' dict_get)
    then show ?thesis using inv(2,3) [of u' c] other [of u' c] by (simp add: s' dict_get)
  qed
  have 3: "u1 = u2" if "dget (ipr_wallet_bindings s') u1 = Some c1" "dget (ipr_wallet_bindings s') u2 = Some c2" "wb_wallet_id c1 = wb_wallet_id c2" for u1 c1 u2 c2
    using that inv(4) [of u1 c1 u2 c2] other [of u1 c1] other [of u2 c2] by (auto simp: s' b dict_get split: if_split_asm)
  have 4: "dget (ipr_bindings_by_subject s') y = Some u' \<longleftrightarrow> (\<exists>c. dget (ipr_wallet_bindings s') u' = Some c \<and> wb_github_subject c = Some y)" for y u'
  proof (cases "ps = Some y")
    case True
    then have "\<not> (\<exists>c. dget (ipr_wallet_bindings s) u' = Some c \<and> wb_github_subject c = Some y)" using none inv(5) [of y u'] by auto
    then show ?thesis using True by (auto simp: s' b dict_get)
  next
    case False
    then show ?thesis using inv(5) [of y u'] n by (cases ps) (auto simp: s' b dict_get)
  qed
  show ?thesis unfolding wallet_inv_def using 1 2 3 4 by blast
qed (use assms(2) in simp)

lemma wallets_kept:
  "ipr_wallet_inventory (snd (create_mandate t m s)) = ipr_wallet_inventory s \<and> ipr_wallet_bindings (snd (create_mandate t m s)) = ipr_wallet_bindings s
     \<and> ipr_bindings_by_subject (snd (create_mandate t m s)) = ipr_bindings_by_subject s"
  "ipr_wallet_inventory (snd (reserve_mandate k st now s)) = ipr_wallet_inventory s \<and> ipr_wallet_bindings (snd (reserve_mandate k st now s)) = ipr_wallet_bindings s
     \<and> ipr_bindings_by_subject (snd (reserve_mandate k st now s)) = ipr_bindings_by_subject s"
  "ipr_wallet_inventory (snd (consume_reservation k h now s)) = ipr_wallet_inventory s \<and> ipr_wallet_bindings (snd (consume_reservation k h now s)) = ipr_wallet_bindings s
     \<and> ipr_bindings_by_subject (snd (consume_reservation k h now s)) = ipr_bindings_by_subject s"
  "ipr_wallet_inventory (snd (submit_reservation k h now s)) = ipr_wallet_inventory s \<and> ipr_wallet_bindings (snd (submit_reservation k h now s)) = ipr_wallet_bindings s
     \<and> ipr_bindings_by_subject (snd (submit_reservation k h now s)) = ipr_bindings_by_subject s"
  "ipr_wallet_inventory (snd (release_reservation k h now s)) = ipr_wallet_inventory s \<and> ipr_wallet_bindings (snd (release_reservation k h now s)) = ipr_wallet_bindings s
     \<and> ipr_bindings_by_subject (snd (release_reservation k h now s)) = ipr_bindings_by_subject s"
  "ipr_wallet_inventory (snd (revoke_mandate k h now s)) = ipr_wallet_inventory s \<and> ipr_wallet_bindings (snd (revoke_mandate k h now s)) = ipr_wallet_bindings s
     \<and> ipr_bindings_by_subject (snd (revoke_mandate k h now s)) = ipr_bindings_by_subject s"
  by (auto simp: create_mandate_def reserve_mandate_def consume_reservation_def submit_reservation_def release_reservation_def
      revoke_mandate_def finalize_def attempt_def Let_def split: option.splits sum.splits prod.splits)

definition wallets_ok :: "InMemoryPaymentRepository \<Rightarrow> bool" where
  "wallets_ok s \<longleftrightarrow> wallet_inv s \<and> distinct (dkeys (ipr_wallet_inventory s))"

lemma new_wallets_ok: "wallets_ok (InMemoryPaymentRepository_new ws)"
proof -
  have "distinct (dkeys (fold (\<lambda>w d. dput d (wi_wallet_id w) w) ws d))" if "distinct (dkeys d)" for d
    using that by (induction ws arbitrary: d) (simp_all add: distinct_update)
  then show ?thesis using new_wallet_inv by (simp add: wallets_ok_def) (simp add: InMemoryPaymentRepository_new_def)
qed

lemma wallets_ok_same:
  "wallets_ok s \<Longrightarrow> ipr_wallet_inventory s' = ipr_wallet_inventory s \<and> ipr_wallet_bindings s' = ipr_wallet_bindings s
     \<and> ipr_bindings_by_subject s' = ipr_bindings_by_subject s \<Longrightarrow> wallets_ok s'"
  unfolding wallets_ok_def wallet_inv_def by (elim conjE) (simp only:, blast)

lemma wallets_ok_bind:
  assumes "wallets_ok s"
  shows "wallets_ok (snd (get_or_bind_wallet u ip ps now s))"
proof (cases "snd (get_or_bind_wallet u ip ps now s) = s")
  case False
  obtain x s' where c: "get_or_bind_wallet u ip ps now s = (x, s')" by (cases "get_or_bind_wallet u ip ps now s")
  then have ch: "s' \<noteq> s" using False by simp
  have "distinct (dkeys (ipr_wallet_inventory s'))"
    by (rule get_or_bind_wallet_new [OF c ch]) (use assms in \<open>simp add: wallets_ok_def distinct_update\<close>)
  then show ?thesis using wallet_inv_bind [OF c] assms c by (simp add: wallets_ok_def)
qed (use assms in simp)

interpretation wallets: invariant_machine payment_step "\<lambda>_ _. True" wallets_ok
proof unfold_locales
  fix s p assume "wallets_ok s"
  then show "wallets_ok (payment_step p s)" by (cases p) (auto intro: wallets_ok_bind wallets_ok_same [OF _ wallets_kept(1)] wallets_ok_same [OF _ wallets_kept(2)]
        wallets_ok_same [OF _ wallets_kept(3)] wallets_ok_same [OF _ wallets_kept(4)] wallets_ok_same [OF _ wallets_kept(5)] wallets_ok_same [OF _ wallets_kept(6)])
qed

lemma binding_kept:
  assumes "dget (ipr_wallet_bindings s) u = Some b"
  shows "dget (ipr_wallet_bindings (payment_step p s)) u = Some b"
proof (cases p)
  case (BindWallet u' ip ps now)
  obtain x s' where c: "get_or_bind_wallet u' ip ps now s = (x, s')" by (cases "get_or_bind_wallet u' ip ps now s")
  have "dget (ipr_wallet_bindings s') u = Some b" if "s' \<noteq> s"
    by (rule get_or_bind_wallet_new [OF c that]) (use assms in \<open>auto simp: dict_get\<close>)
  then show ?thesis using c assms BindWallet by (cases "s' = s") simp_all
qed (use assms in \<open>simp_all add: wallets_kept\<close>)

text \<open>After any calls at all, no two users and no two platform subjects share a wallet, every bound wallet
  is marked so in the inventory with the chain and address its user sees, and a further call never changes
  an existing binding.\<close>

theorem wallet_binding_exclusive:
  assumes "s = payments_after ws ps" "dget (ipr_wallet_bindings s) u = Some b"
  shows "wb_user_id b = u
     \<and> (\<exists>w. dget (ipr_wallet_inventory s) (wb_wallet_id b) = Some w \<and> wi_status w = Bound \<and> wi_chain_id w = wb_chain_id b \<and> wi_address w = wb_address b)
     \<and> (\<forall>u' b'. dget (ipr_wallet_bindings s) u' = Some b' \<and> u' \<noteq> u \<longrightarrow> wb_wallet_id b' \<noteq> wb_wallet_id b
          \<and> (wb_github_subject b \<noteq> None \<longrightarrow> wb_github_subject b' \<noteq> wb_github_subject b))
     \<and> dget (ipr_wallet_bindings (payment_step p s)) u = Some b"
proof -
  have "wallets_ok s" unfolding assms(1) payments_after_def using new_wallets_ok by (rule wallets.run_always) simp
  then have inv: "wallet_inv s" by (simp add: wallets_ok_def)
  have "u' = u" if "dget (ipr_wallet_bindings s) u' = Some b'" "wb_github_subject b = Some x" "wb_github_subject b' = Some x" for u' b' x
    using wallet_invD(5) [OF inv, of x u] wallet_invD(5) [OF inv, of x u'] that assms(2) by simp
  then show ?thesis using wallet_invD(2-4) [OF inv] assms(2) binding_kept [OF assms(2), of p] by fastforce
qed

section \<open>Completing a payment\<close>

lemma tally_nonneg: "distinct (dkeys d) \<Longrightarrow> \<forall>k r. dget d k = Some r \<longrightarrow> 0 < rv_amount_atomic r \<Longrightarrow> 0 \<le> tally P j d"
proof -
  assume "distinct (dkeys d)" "\<forall>k r. dget d k = Some r \<longrightarrow> 0 < rv_amount_atomic r"
  then have "\<forall>r \<in> set (dvalues d). 0 < rv_amount_atomic r" using dict.vals_get [of d] by blast
  then show ?thesis unfolding tally_def dsum_def by (intro sum_list_nonneg) auto
qed

lemma held_amount:
  assumes "ledger_inv s" "dget (ipr_reservations s) k = Some r" "is_held (rv_status r)" "dget (ipr_mandates s) (rv_mandate_id r) = Some m"
  shows "rv_amount_atomic r \<le> pm_reserved_atomic m"
proof -
  let ?d = "ipr_reservations s"
  have pos: "\<forall>k r. dget ?d k = Some r \<longrightarrow> 0 < rv_amount_atomic r" and kd: "distinct (dkeys ?d)" and
    sum: "tally is_held (rv_mandate_id r) ?d \<le> pm_reserved_atomic m"
    using assms(1,4) unfolding ledger_inv_def money_ok_def funded_def stored_ok_def sums_ok_def by blast+
  have "0 \<le> tally is_held (rv_mandate_id r) (dput ?d k (r\<lparr>rv_status := Released\<rparr>))"
    by (rule tally_nonneg) (use pos kd assms(2) in \<open>auto simp: dict_get distinct_update split: if_split_asm\<close>)
  then show ?thesis using tally_put_old [OF kd assms(2), of is_held "rv_mandate_id r" "r\<lparr>rv_status := Released\<rparr>"] assms(3) sum
    by (simp add: is_held_def)
qed

lemma finalize_succeeds:
  assumes "ledger_inv s" "dget (ipr_reservations s) k = Some r" "is_held (rv_status r)" "c = 0 \<or> c = rv_amount_atomic r"
  obtains m where "dget (ipr_mandates s) (rv_mandate_id r) = Some m"
    "finalize k r q c s = (Inr q, s\<lparr>ipr_mandates := dput (ipr_mandates s) (rv_mandate_id r)
        (m\<lparr>pm_reserved_atomic := pm_reserved_atomic m - rv_amount_atomic r, pm_consumed_atomic := pm_consumed_atomic m + c\<rparr>),
      ipr_reservations := dput (ipr_reservations s) k q\<rparr>)"
proof -
  obtain m where m: "dget (ipr_mandates s) (rv_mandate_id r) = Some m" and p: "0 < rv_amount_atomic r"
    using assms(1,2) unfolding ledger_inv_def money_ok_def funded_def by blast
  have v: "valid_mandate m" "pm_mandate_id m = rv_mandate_id r" using assms(1) m unfolding ledger_inv_def stored_ok_def by blast+
  have "with_accounting m (pm_reserved_atomic m - rv_amount_atomic r) (pm_consumed_atomic m + c)
      = Inr (m\<lparr>pm_reserved_atomic := pm_reserved_atomic m - rv_amount_atomic r, pm_consumed_atomic := pm_consumed_atomic m + c\<rparr>)"
    using valid_mandate_conditions [OF v(1)] held_amount [OF assms(1-3) m] assms(4) p by (auto simp: with_accounting_iff [OF v(1)])
  then show ?thesis using that [OF m] m v(2) by (simp add: finalize_def attempt_def)
qed

lemma held_reservation:
  assumes "ledger_inv s" "dget (ipr_reservations s) k = Some r"
  shows "hex_string 40 (rv_payee r)" "status_fields_error r = None" "lower (rv_payee r) = rv_payee r"
proof -
  have v: "valid_reservation r" using assms unfolding ledger_inv_def stored_ok_def by blast
  then show "hex_string 40 (rv_payee r)" "status_fields_error r = None" "lower (rv_payee r) = rv_payee r"
    using valid_payee [OF v] by (simp_all add: PaymentReservation_post_init_iff)
qed

lemma consume_held:
  assumes inv: "ledger_inv s" and r: "dget (ipr_reservations s) k = Some r" "is_held (rv_status r)" and "hex_string 64 tx"
    and m: "dget (ipr_mandates s) (rv_mandate_id r) = Some m"
  shows "\<exists>q s'. consume_reservation k tx now s = (Inr q, s') \<and> rv_status q = Consumed \<and> rv_tx_hash q = Some (lower tx)
     \<and> dget (ipr_mandates s') (rv_mandate_id r) =
         Some (m\<lparr>pm_reserved_atomic := pm_reserved_atomic m - rv_amount_atomic r, pm_consumed_atomic := pm_consumed_atomic m + rv_amount_atomic r\<rparr>)"
proof -
  let ?q = "r\<lparr>rv_status := Consumed, rv_finalized_at := Some now, rv_tx_hash := Some (lower tx)\<rparr>"
  have "PaymentReservation_post_init ?q = Inr ?q" using held_reservation [OF inv r(1)] hex_string_lower [OF assms(4)] r(2)
    by (auto simp: PaymentReservation_post_init_iff status_fields_error_def is_held_def split: if_split_asm)
  moreover have "rv_status r \<noteq> Consumed \<and> (rv_status r = Reserved \<or> rv_status r = Submitted)" using r(2) by (auto simp: is_held_def)
  ultimately have "consume_reservation k tx now s = finalize k r ?q (rv_amount_atomic r) s"
    by (auto simp: consume_reservation_def attempt_def reservation_of_def r(1))
  then show ?thesis using finalize_succeeds [OF inv r, of "rv_amount_atomic r" ?q] m by (fastforce simp: dict_get)
qed

lemma release_held:
  assumes inv: "ledger_inv s" and r: "dget (ipr_reservations s) k = Some r" "rv_status r = Reserved" and reason: "reason \<noteq> []" "length reason \<le> 100"
    and m: "dget (ipr_mandates s) (rv_mandate_id r) = Some m"
  shows "\<exists>q s'. release_reservation k reason now s = (Inr q, s') \<and> rv_status q = Released \<and> rv_release_reason q = Some reason
     \<and> dget (ipr_mandates s') (rv_mandate_id r) = Some (m\<lparr>pm_reserved_atomic := pm_reserved_atomic m - rv_amount_atomic r\<rparr>)"
proof -
  let ?p = "r\<lparr>rv_status := Released, rv_finalized_at := Some now, rv_release_reason := Some reason\<rparr>"
  have "PaymentReservation_post_init ?p = Inr ?p" using held_reservation [OF inv r(1)] r(2) reason
    by (auto simp: PaymentReservation_post_init_iff status_fields_error_def split: if_split_asm)
  then have "release_reservation k reason now s = finalize k r ?p 0 s"
    using r reason by (auto simp: release_reservation_def attempt_def reservation_of_def)
  moreover have "is_held (rv_status r)" using r(2) by (simp add: is_held_def)
  ultimately show ?thesis using finalize_succeeds [OF inv r(1), of 0 ?p] m by (fastforce simp: dict_get)
qed

text \<open>Property C15: a reserved or submitted payment can always be completed: consuming it with any well-formed transaction
  hash succeeds and moves exactly its amount from reserved to consumed, and releasing a reserved one with
  any reason of 1 to 100 characters succeeds and frees exactly its amount.\<close>

theorem held_payment_completes:
  assumes "payments_run ws ps" "s = payments_after ws ps" "dget (ipr_reservations s) k = Some r" "is_held (rv_status r)"
  shows "\<exists>m. dget (ipr_mandates s) (rv_mandate_id r) = Some m
     \<and> (hex_string 64 tx \<longrightarrow> (\<exists>q s'. consume_reservation k tx now s = (Inr q, s') \<and> rv_status q = Consumed \<and> rv_tx_hash q = Some (lower tx)
          \<and> dget (ipr_mandates s') (rv_mandate_id r) =
              Some (m\<lparr>pm_reserved_atomic := pm_reserved_atomic m - rv_amount_atomic r, pm_consumed_atomic := pm_consumed_atomic m + rv_amount_atomic r\<rparr>)))
     \<and> (rv_status r = Reserved \<and> reason \<noteq> [] \<and> length reason \<le> 100 \<longrightarrow>
          (\<exists>q s'. release_reservation k reason now s = (Inr q, s') \<and> rv_status q = Released \<and> rv_release_reason q = Some reason
          \<and> dget (ipr_mandates s') (rv_mandate_id r) = Some (m\<lparr>pm_reserved_atomic := pm_reserved_atomic m - rv_amount_atomic r\<rparr>)))"
proof -
  have inv: "ledger_inv s" using payments_after_inv [OF assms(1)] assms(2) by simp
  then obtain m where m: "dget (ipr_mandates s) (rv_mandate_id r) = Some m" using assms(3) unfolding ledger_inv_def money_ok_def funded_def by blast
  show ?thesis using m consume_held [OF inv assms(3,4) _ m] release_held [OF inv assms(3) _ _ _ m] by blast
qed

text \<open>Consuming a submitted payment does not compare the transaction hash with the one submitted: any well-formed
  hash replaces it, although submitting the payment again with another hash is refused.\<close>

lemma consume_replaces_hash:
  assumes "ledger_inv s" "dget (ipr_reservations s) k = Some r" "rv_status r = Submitted" "rv_tx_hash r \<noteq> Some (lower tx)" "hex_string 64 tx"
  shows "(\<exists>q s'. consume_reservation k tx now s = (Inr q, s') \<and> rv_tx_hash q = Some (lower tx))
     \<and> submit_reservation k tx now s = (Inl (MandateRejected ''reservation_tx_conflict''), s)"
proof -
  obtain m where m: "dget (ipr_mandates s) (rv_mandate_id r) = Some m" using assms(1,2) unfolding ledger_inv_def money_ok_def funded_def by blast
  have "is_held (rv_status r)" using assms(3) by (simp add: is_held_def)
  from consume_held [OF assms(1,2) this assms(5) m, of now] have "\<exists>q s'. consume_reservation k tx now s = (Inr q, s') \<and> rv_tx_hash q = Some (lower tx)" by blast
  then show ?thesis using assms(2-4) by (auto simp: submit_reservation_def attempt_def reservation_of_def)
qed

text \<open>A mandate whose payees are given by a rule has no listed payee, so no reservation is ever made under it.\<close>

lemma dynamic_mandate_unusable:
  assumes "valid_mandate m" "pm_allowed_payee_rule m = Some SameGameSettlementAccount" "dget (ipr_mandates s) k = Some m"
    "dget (ipr_reservations_by_intent s) (st_settlement_intent_id t) = None"
  shows "\<exists>e. reserve_mandate k t now s = (Inl e, s)"
proof -
  have "pm_allowed_payees m = []" using valid_mandate_conditions [OF assms(1)] assms(2) by (auto simp: payees_invalid_def split: if_split_asm)
  then have "validate_mandate m t now \<noteq> Inr ()" by (simp add: validate_mandate_iff)
  then obtain e where "validate_mandate m t now = Inl e" by (cases "validate_mandate m t now") auto
  then show ?thesis using assms(3,4) by (simp add: reserve_mandate_def attempt_def)
qed

section \<open>Witnesses\<close>

definition pay_hex :: "nat \<Rightarrow> char \<Rightarrow> string" where
  "pay_hex n c = ''0x'' @ replicate n c"

lemma pay_hex [simp]: "hex_string n (pay_hex n c) \<longleftrightarrow> n = 0 \<or> is_hex c" "lower (pay_hex n c) = ''0x'' @ replicate n (lower_char c)"
  by (auto simp: pay_hex_def hex_string_def list_all_iff lower_def lower_char_def)

definition demo_wallet :: WalletInventoryItem where
  "demo_wallet = \<lparr>wi_wallet_id = ''w1'', wi_chain_id = 1, wi_address = pay_hex 40 CHR ''1'', wi_secret_ref = ''ref'', wi_status = Available\<rparr>"

definition demo_mandate :: PaymentMandate where
  "demo_mandate = \<lparr>pm_mandate_id = ''m1'', pm_user_id = ''u1'', pm_wallet_id = ''w1'', pm_game_id = ''g'', pm_chain_id = 1,
     pm_token_address = pay_hex 40 CHR ''2'', pm_limits = \<lparr>ml_max_per_payment_atomic = 60, ml_max_cumulative_atomic = 100\<rparr>,
     pm_allowed_payees = [pay_hex 40 CHR ''3''], pm_valid_from = Aware 0, pm_expires_at = Aware 100, pm_reserved_atomic = 0,
     pm_consumed_atomic = 0, pm_revoked_at = None, pm_allowed_payee_rule = None, pm_join_authorization_id = None\<rparr>"

definition demo_terms :: SettlementTerms where
  "demo_terms = \<lparr>st_settlement_intent_id = ''i1'', st_intent_hash = ''sha256:'' @ replicate 64 CHR ''0'', st_game_id = ''g'', st_payer = pay_hex 40 CHR ''1'',
     st_payee = pay_hex 40 CHR ''3'', st_chain_id = 1, st_token_address = pay_hex 40 CHR ''2'', st_token_symbol = [71], st_token_decimals = 6,
     st_token_eip712_name = [71], st_token_eip712_version = [49], st_amount_atomic = 50, st_resource_url = ''https://a''\<rparr>"

definition demo_payments :: "payment_op list" where
  "demo_payments = [BindWallet ''u1'' ''password'' None (Aware 1), CreateMandate (Aware 1) demo_mandate, ReserveMandate ''m1'' demo_terms (Aware 2)]"

definition demo_reserved :: PaymentReservation where
  "demo_reserved = \<lparr>rv_reservation_id = reservation_identifier ''m1'' demo_terms, rv_mandate_id = ''m1'', rv_settlement_intent_id = ''i1'',
     rv_intent_hash = st_intent_hash demo_terms, rv_amount_atomic = 50, rv_payee = pay_hex 40 CHR ''3'', rv_status = Reserved,
     rv_reserved_at = Aware 2, rv_finalized_at = None, rv_tx_hash = None, rv_release_reason = None\<rparr>"

definition demo_bound :: UserWalletBinding where
  "demo_bound = \<lparr>wb_user_id = ''u1'', wb_github_subject = None, wb_wallet_id = ''w1'', wb_chain_id = 1, wb_address = pay_hex 40 CHR ''1'', wb_bound_at = Aware 1\<rparr>"

definition demo_repository :: InMemoryPaymentRepository where
  "demo_repository = \<lparr>ipr_wallet_inventory = [(''w1'', demo_wallet\<lparr>wi_status := Bound\<rparr>)], ipr_wallet_bindings = [(''u1'', demo_bound)], ipr_bindings_by_subject = [],
     ipr_mandates = [(''m1'', demo_mandate\<lparr>pm_reserved_atomic := 50\<rparr>)],
     ipr_reservations = [(reservation_identifier ''m1'' demo_terms, demo_reserved)], ipr_reservations_by_intent = [(''i1'', reservation_identifier ''m1'' demo_terms)]\<rparr>"

lemma pay_lower: "lower_char CHR ''1'' = CHR ''1''" "lower_char CHR ''2'' = CHR ''2''" "lower_char CHR ''3'' = CHR ''3''"
  "is_hex CHR ''1''" "is_hex CHR ''2''" "is_hex CHR ''3''" "is_hex CHR ''a''"
  by (simp_all add: lower_char_def is_hex_def is_digit_def)

lemma demo_neq: "pay_hex 40 CHR ''1'' \<noteq> pay_hex 40 CHR ''3''"
  by (simp add: pay_hex_def)

lemma pay_lowers: "lower (pay_hex n CHR ''1'') = pay_hex n CHR ''1''" "lower (pay_hex n CHR ''2'') = pay_hex n CHR ''2''" "lower (pay_hex n CHR ''3'') = pay_hex n CHR ''3''"
  unfolding pay_hex(2) by (simp_all add: pay_lower) (simp_all add: pay_hex_def)

lemma demo_mandate_valid: "valid_mandate demo_mandate"
  by (simp add: PaymentMandate_post_init_iff demo_mandate_def pay_lower pay_lowers payees_invalid_def del: pay_hex(2))

lemma demo_terms_valid: "SettlementTerms_post_init demo_terms = Inr demo_terms"
  by (simp add: SettlementTerms_post_init_def demo_terms_def pay_lower pay_lowers demo_neq intent_hash_pattern_def starts_with_def address_def is_digit_def list_all_iff del: pay_hex(2))

lemma demo_bind: "get_or_bind_wallet ''u1'' ''password'' None (Aware 1) (InMemoryPaymentRepository_new [demo_wallet]) =
    (Inr demo_bound, demo_repository\<lparr>ipr_mandates := [], ipr_reservations := [], ipr_reservations_by_intent := []\<rparr>)"
  by (simp add: get_or_bind_wallet_def identity_error_def InMemoryPaymentRepository_new_def available_wallets_def demo_wallet_def attempt_def
      UserWalletBinding_post_init_def WalletInventoryItem_post_init_def address_def pay_lower pay_lowers demo_bound_def demo_repository_def del: pay_hex(2))

lemma demo_create: "create_mandate (Aware 1) demo_mandate (demo_repository\<lparr>ipr_mandates := [], ipr_reservations := [], ipr_reservations_by_intent := []\<rparr>) =
    (Inr demo_mandate, demo_repository\<lparr>ipr_mandates := [(''m1'', demo_mandate)], ipr_reservations := [], ipr_reservations_by_intent := []\<rparr>)"
  by (simp add: create_mandate_def demo_repository_def) (simp add: demo_mandate_def)

lemma demo_reserve: "reserve_mandate ''m1'' demo_terms (Aware 2) (demo_repository\<lparr>ipr_mandates := [(''m1'', demo_mandate)], ipr_reservations := [], ipr_reservations_by_intent := []\<rparr>)
   = (Inr demo_reserved, demo_repository)"
proof -
  have v: "validate_mandate demo_mandate demo_terms (Aware 2) = Inr ()" unfolding validate_mandate_iff by (simp add: demo_mandate_def demo_terms_def)
  have w: "with_accounting demo_mandate 50 0 = Inr (demo_mandate\<lparr>pm_reserved_atomic := 50\<rparr>)"
    unfolding with_accounting_iff [OF demo_mandate_valid] by (simp add: demo_mandate_def)
  have r: "valid_reservation demo_reserved"
    by (simp add: PaymentReservation_post_init_iff demo_reserved_def status_fields_error_def pay_lower pay_lowers del: pay_hex(2))
  have f: "st_settlement_intent_id demo_terms = ''i1''" "st_amount_atomic demo_terms = 50" "st_payee demo_terms = pay_hex 40 CHR ''3''"
     "pm_reserved_atomic demo_mandate = 0" "pm_consumed_atomic demo_mandate = 0" by (simp_all add: demo_terms_def demo_mandate_def)
  show ?thesis using v w r [unfolded demo_reserved_def] unfolding reserve_mandate_def f
    by (simp add: demo_repository_def attempt_def Let_def demo_reserved_def f)
qed

lemma demo_run: "payments_after [demo_wallet] demo_payments = demo_repository" "payments_run [demo_wallet] demo_payments"
  by (simp_all add: payments_after_def demo_payments_def demo_bind demo_create demo_reserve demo_mandate_valid demo_terms_valid no_collision_def)

lemma demo_lookup: "dget (ipr_reservations demo_repository) (reservation_identifier ''m1'' demo_terms) = Some demo_reserved"
  "dget (ipr_mandates demo_repository) ''m1'' = Some (demo_mandate\<lparr>pm_reserved_atomic := 50\<rparr>)"
  "dget (ipr_wallet_bindings demo_repository) ''u1'' = Some demo_bound"
  "is_held (rv_status demo_reserved)" "rv_status demo_reserved = Reserved" "rv_mandate_id demo_reserved = ''m1''" "wb_wallet_id demo_bound = ''w1''"
  by (simp_all add: demo_repository_def demo_reserved_def demo_bound_def is_held_def)

theorem mandate_never_overspent_witness:
  "tally is_held ''m1'' (ipr_reservations demo_repository) + tally is_spent ''m1'' (ipr_reservations demo_repository) \<le> 100"
  using mandate_never_overspent [OF demo_run(2) refl, THEN conjunct1] demo_lookup(2) unfolding demo_run(1) by (fastforce simp: demo_mandate_def)

theorem reservation_lifecycle_witness:
  "\<exists>q. dget (ipr_reservations (payment_step (ReleaseReservation (reservation_identifier ''m1'' demo_terms) ''late'' (Aware 3)) demo_repository))
          (reservation_identifier ''m1'' demo_terms) = Some q \<and> same_payment demo_reserved q"
proof -
  have "payment_ok (ReleaseReservation (reservation_identifier ''m1'' demo_terms) ''late'' (Aware 3)) (payments_after [demo_wallet] demo_payments)" by simp
  from reservation_lifecycle [OF demo_run(2) refl this] show ?thesis unfolding demo_run(1) using demo_lookup(1) by blast
qed

theorem held_payment_completes_witness:
  "\<exists>q s'. consume_reservation (reservation_identifier ''m1'' demo_terms) (pay_hex 64 CHR ''a'') (Aware 3) demo_repository = (Inr q, s') \<and> rv_status q = Consumed"
proof -
  have "hex_string 64 (pay_hex 64 CHR ''a'')" by (simp add: pay_lower)
  then show ?thesis using held_payment_completes [OF demo_run(2) refl, unfolded demo_run(1), OF demo_lookup(1,4), of "pay_hex 64 CHR ''a''"] by blast
qed

theorem wallet_binding_exclusive_witness:
  "\<exists>w. dget (ipr_wallet_inventory demo_repository) ''w1'' = Some w \<and> wi_status w = Bound"
  using wallet_binding_exclusive [OF refl, of "[demo_wallet]" demo_payments, unfolded demo_run(1), OF demo_lookup(3)] unfolding demo_lookup(7) by blast

theorem failed_payments_harmless_witness:
  "snd (revoke_mandate ''m1'' ''u2'' (Aware 3) demo_repository) = demo_repository"
proof -
  have r: "revoke_mandate ''m1'' ''u2'' (Aware 3) demo_repository = (Inl (MandateRejected ''mandate_not_found''), snd (revoke_mandate ''m1'' ''u2'' (Aware 3) demo_repository))"
    by (simp add: revoke_mandate_def demo_repository_def) (simp add: demo_mandate_def)
  show ?thesis
    by (rule failed_payments_harmless [OF demo_run(2) refl, unfolded demo_run(1), THEN conjunct2, THEN conjunct2, THEN conjunct2, THEN conjunct2,
        THEN conjunct2, THEN conjunct2, rule_format, OF r])
qed

end
