(* ===== verification/Arena_X402_Properties.thy ===== *)
theory Arena_X402_Properties
  imports Arena_X402 Arena_Payments_Properties
begin

text \<open>
  What one execution of the x402 coordinator does to the payment repository: it is a run of repository calls, its answer
  tells what the ledger holds, it does not give back money that may have moved (but for an answer that reports success
  and names no transaction), it asks for at most one settlement and only for a checked payment, and it answers a
  repeated request from the reservation.
\<close>

section \<open>What the coordinator does to the repository\<close>

text \<open>The other calls during the waits are calls of the repository.\<close>

definition others_run :: "parties \<Rightarrow> bool" where
  "others_run w \<longleftrightarrow> (\<forall>p b s. ledger_inv s \<longrightarrow> (\<exists>ps. payments.admissible ps s \<and> pt_others w p b s = fold payment_step ps s))"

text \<open>A repository that calls lead to from another.\<close>

definition payment_path :: "InMemoryPaymentRepository \<Rightarrow> InMemoryPaymentRepository \<Rightarrow> bool" where
  "payment_path s s' \<longleftrightarrow> (\<exists>ps. payments.admissible ps s \<and> s' = fold payment_step ps s)"

lemma path_refl: "payment_path s s"
  unfolding payment_path_def by (rule exI [of _ "[]"]) simp

lemma path_trans: "payment_path s s' \<Longrightarrow> payment_path s' s'' \<Longrightarrow> payment_path s s''"
proof -
  assume "payment_path s s'" "payment_path s' s''"
  then obtain ps qs where "payments.admissible ps s" "s' = fold payment_step ps s" "payments.admissible qs s'" "s'' = fold payment_step qs s'"
    unfolding payment_path_def by blast
  then show ?thesis unfolding payment_path_def by (intro exI [of _ "ps @ qs"]) (simp add: payments.admissible_append)
qed

lemma path_step: "payment_ok p s \<Longrightarrow> payment_path s (payment_step p s)"
  unfolding payment_path_def by (rule exI [of _ "[p]"]) simp

lemma path_inv: "payment_path s s' \<Longrightarrow> ledger_inv s \<Longrightarrow> ledger_inv s'"
  unfolding payment_path_def using payments.run_inv by blast

lemma path_others: "others_run w \<Longrightarrow> ledger_inv s \<Longrightarrow> payment_path s (pt_others w p b s)"
  unfolding others_run_def payment_path_def by blast

lemma path_release: "release_reservation k reason now s = (x, s') \<Longrightarrow> payment_path s s'"
  using path_step [of "ReleaseReservation k reason now" s] by simp

lemma path_submit: "submit_text k tx now s = (x, s') \<Longrightarrow> payment_path s s'"
  using path_step [of "SubmitReservation k (map char_of tx) now" s] path_refl by (auto simp: submit_text_def split: if_splits)

lemma release_then_path: "release_then k reason now r b calls s = (out, b', calls', s') \<Longrightarrow> payment_path s s'"
  using path_release [of k reason now s] by (auto simp: release_then_def split: prod.splits sum.splits)

text \<open>How the settlement can end.\<close>

definition refused :: "FacilitatorSettlement \<Rightarrow> bool" where
  "refused settled \<longleftrightarrow> \<not> fs_success settled \<or> fs_transaction settled = None"

definition raises :: "'a outcome \<Rightarrow> 'b outcome \<Rightarrow> bool" where
  "raises answer out \<longleftrightarrow> (\<exists>c a. answer = FacilitatorRaised c a \<and> out = FacilitatorRaised c a) \<or> (\<exists>e. answer = OtherRaised e \<and> out = OtherRaised e)"

lemma settle_part_cases:
  assumes "settle_part terms k nonce now w calls s = (out, started, calls', s')"
  obtains (raised) "raises (pt_settle w) out" "started" "calls' = calls @ [AskSettle]" "s' = pt_others w Settle False s"
    | (refused) settled r where "pt_settle w = Returned settled" "refused settled" "er_status r = ExFailed \<and> er_transaction r = None"
        "release_then k ''facilitator_settlement_rejected'' now r True (calls @ [AskSettle]) (pt_others w Settle False s) = (out, started, calls', s')"
    | (unrecorded) settled tx where "pt_settle w = Returned settled" "fs_success settled" "fs_transaction settled = Some tx" "raises (pt_submission w) out"
        "started" "calls' = calls @ [AskSettle, AskSubmission (st_settlement_intent_id terms) tx nonce (st_intent_hash terms)]"
        "s' = pt_others w Settle True (pt_others w Settle False s)"
    | (recorded) settled tx x where "pt_settle w = Returned settled" "fs_success settled" "fs_transaction settled = Some tx" "pt_submission w = Returned ()" "started"
        "calls' = calls @ [AskSettle, AskSubmission (st_settlement_intent_id terms) tx nonce (st_intent_hash terms)]"
        "submit_text k tx now (pt_others w Settle True (pt_others w Settle False s)) = (x, s')"
        "out = (case x of Inl e \<Rightarrow> OtherRaised e | Inr _ \<Rightarrow> Returned \<lparr>er_success = True, er_status = ExSubmitted, er_transaction = Some tx,
           er_network = fs_network settled, er_payer = fs_payer settled, er_error_reason = None\<rparr>)"
proof (cases "pt_settle w")
  case (Returned settled)
  show thesis
  proof (cases "refused settled")
    case True
    then have "(case (fs_success settled, fs_transaction settled) of (True, Some tx) \<Rightarrow> f tx | _ \<Rightarrow> g) = g" for f :: "utext \<Rightarrow> try_body" and g
      by (auto simp: refused_def split: bool.splits option.splits)
    with assms Returned True show thesis by (intro refused) (auto simp: settle_part_def Let_def failed_execution_def)
  next
    case False
    then obtain tx where tx: "fs_success settled" "fs_transaction settled = Some tx" by (auto simp: refused_def)
    show thesis
    proof (cases "pt_submission w")
      case (Returned u)
      obtain x s2 where x: "submit_text k tx now (pt_others w Settle True (pt_others w Settle False s)) = (x, s2)" by fastforce
      have "pt_submission w = Returned ()" using Returned by simp
      with recorded [OF \<open>pt_settle w = Returned settled\<close> tx] show thesis
        using assms \<open>pt_settle w = Returned settled\<close> tx x by (cases x) (auto simp: settle_part_def Let_def)
    qed (use assms \<open>pt_settle w = Returned settled\<close> tx in \<open>auto simp: settle_part_def Let_def raises_def intro!: unrecorded\<close>)
  qed
qed (use assms in \<open>auto simp: settle_part_def Let_def raises_def intro!: raised\<close>)

lemma settle_part_path:
  assumes "others_run w" "ledger_inv s" "settle_part terms k nonce now w calls s = (out, b, calls', s')"
  shows "payment_path s s'"
proof -
  let ?s = "pt_others w Settle False s" let ?t = "pt_others w Settle True ?s"
  have p: "payment_path s ?s" using assms(1,2) by (rule path_others)
  then have "payment_path ?s ?t" using path_others [OF assms(1)] path_inv assms(2) by blast
  then have q: "payment_path s ?t" using p path_trans by blast
  from assms(3) show ?thesis
    by (cases rule: settle_part_cases) (use p q release_then_path path_submit path_trans in blast)+
qed


lemma execute_body_cases:
  assumes "execute_body digit terms k payload now w s = (out, started, calls, s')"
  obtains (invalid) e where "validate_payment_payload digit terms payload now = Inl e" "out = OtherRaised e" "\<not> started" "calls = []" "s' = s"
    | (unverified) p where "validate_payment_payload digit terms payload now = Inr p" "raises (pt_verify w) out" "\<not> started" "calls = [AskVerify]"
        "s' = pt_others w Verify False s"
    | (rejected) p r where "validate_payment_payload digit terms payload now = Inr p" "pt_verify w = Returned False" "er_status r = ExFailed \<and> er_transaction r = None"
        "release_then k ''facilitator_verification_rejected'' now r False [AskVerify] (pt_others w Verify False s) = (out, started, calls, s')"
    | (unapproved) p where "validate_payment_payload digit terms payload now = Inr p" "raises (pt_approval w) out" "\<not> started"
        "calls = [AskVerify, AskApproval (st_settlement_intent_id terms) (st_intent_hash terms) (authorization_nonce payload)]"
        "s' = pt_others w Verify True (pt_others w Verify False s)"
    | (settling) p where "validate_payment_payload digit terms payload now = Inr p" "pt_verify w = Returned True" "pt_approval w = Returned ()"
        "settle_part terms k (authorization_nonce payload) now w [AskVerify, AskApproval (st_settlement_intent_id terms) (st_intent_hash terms) (authorization_nonce payload)]
           (pt_others w Verify True (pt_others w Verify False s)) = (out, started, calls, s')"
proof (cases "validate_payment_payload digit terms payload now")
  case (Inr p)
  show thesis
  proof (cases "pt_verify w")
    case (Returned v)
    show thesis
    proof (cases v)
      case True
      show thesis using unapproved [OF Inr] settling [OF Inr] assms Inr Returned True
        by (cases "pt_approval w") (auto simp: execute_body_def Let_def raises_def)
    next
      case False
      let ?r = "failed_execution (ascii (network_of terms)) None (ascii ''payment_verification_failed'')"
      have "release_then k ''facilitator_verification_rejected'' now ?r False [AskVerify] (pt_others w Verify False s) = (out, started, calls, s')"
        using assms Inr Returned False by (simp add: execute_body_def Let_def)
      moreover have "er_status ?r = ExFailed \<and> er_transaction ?r = None" by (simp add: failed_execution_def)
      moreover have "pt_verify w = Returned False" using Returned False by simp
      ultimately show thesis using rejected [OF Inr] by blast
    qed
  qed (use assms Inr in \<open>auto simp: execute_body_def Let_def raises_def intro!: unverified\<close>)
qed (use assms in \<open>auto simp: execute_body_def intro!: invalid\<close>)

lemma execute_body_path:
  assumes "others_run w" "ledger_inv s" "execute_body digit terms k payload now w s = (out, started, calls, s')"
  shows "payment_path s s'"
proof -
  let ?s = "pt_others w Verify False s" let ?t = "pt_others w Verify True ?s"
  have p: "payment_path s ?s" using assms(1,2) by (rule path_others)
  then have inv: "ledger_inv ?s" "ledger_inv ?t" using path_others [OF assms(1)] path_inv assms(2) by blast+
  have q: "payment_path s ?t" using p path_others [OF assms(1) inv(1)] path_trans by blast
  from assms(3) show ?thesis
  proof (cases rule: execute_body_cases)
    case (rejected p' r)
    then show ?thesis using p release_then_path path_trans by blast
  next
    case (settling p')
    then show ?thesis using q settle_part_path [OF assms(1) inv(2)] path_trans by blast
  qed (use p q path_refl in simp_all)
qed

lemma handle_outcome_path: "handle_outcome network k now (out, started, calls, s) = (x, calls', s') \<Longrightarrow> payment_path s s'"
  using path_refl [of s] path_release [of k _ now s]
  by (auto simp: handle_outcome_def split: outcome.splits if_splits prod.splits sum.splits)

lemma execute_cases:
  assumes "execute digit terms mandate_id payload now w s = (x, calls, s')"
  obtains (refused) e where "reserve_mandate mandate_id terms now s = (Inl e, s')" "x = Inl e" "calls = []"
    | (paid) r where "reserve_mandate mandate_id terms now s = (Inr r, s')" "rv_status r = Submitted \<or> rv_status r = Consumed" "calls = []"
        "x = Inr \<lparr>er_success = True, er_status = ExSubmitted, er_transaction = map_option ascii (rv_tx_hash r), er_network = ascii (network_of terms),
                  er_payer = Some (ascii (st_payer terms)), er_error_reason = None\<rparr>"
    | (released) r where "reserve_mandate mandate_id terms now s = (Inr r, s')" "rv_status r = Released" "calls = []"
        "x = Inr (failed_execution (ascii (network_of terms)) None (ascii ''payment_reservation_released''))"
    | (attempted) r t out started calls' t' where "reserve_mandate mandate_id terms now s = (Inr r, t)" "rv_status r = Reserved"
        "execute_body digit terms (rv_reservation_id r) payload now w t = (out, started, calls', t')"
        "handle_outcome (ascii (network_of terms)) (rv_reservation_id r) now (out, started, calls', t') = (x, calls, s')"
proof (cases "reserve_mandate mandate_id terms now s")
  case (Pair y t)
  show thesis
  proof (cases y)
    case (Inr r)
    obtain out started calls' t' where b: "execute_body digit terms (rv_reservation_id r) payload now w t = (out, started, calls', t')"
      by (cases "execute_body digit terms (rv_reservation_id r) payload now w t")
    show thesis
      using assms Pair Inr b attempted [OF _ _ b] paid [of r] released [of r] by (cases "rv_status r") (auto simp: execute_def Let_def)
  qed (use assms Pair in \<open>auto simp: execute_def intro!: refused\<close>)
qed

text \<open>One execution is a run of calls of the repository, so every guarantee about runs of calls holds after it.\<close>

lemma execute_path:
  assumes "others_run w" "ledger_inv s" "SettlementTerms_post_init terms = Inr terms" "no_collision mandate_id terms s"
    "execute digit terms mandate_id payload now w s = (x, calls, s')"
  shows "payment_path s s'"
proof -
  have r: "payment_path s t" if "reserve_mandate mandate_id terms now s = (y, t)" for y t
    using path_step [of "ReserveMandate mandate_id terms now" s] assms(3,4) that by simp
  from assms(5) show ?thesis
  proof (cases rule: execute_cases)
    case (attempted q t out started calls' t')
    have "ledger_inv t" using path_inv [OF r [OF attempted(1)] assms(2)] .
    from execute_body_path [OF assms(1) this attempted(3)] show ?thesis
      using r [OF attempted(1)] handle_outcome_path [OF attempted(4)] path_trans by blast
  qed (use r in blast)+
qed

section \<open>Money that may have moved\<close>

lemma reserve_found:
  assumes "reserve_mandate mandate_id terms now s = (Inr r, t)" "ledger_inv s" "SettlementTerms_post_init terms = Inr terms"
  shows "dget (ipr_reservations t) (rv_reservation_id r) = Some r" "rv_settlement_intent_id r = st_settlement_intent_id terms"
    "rv_mandate_id r = mandate_id" "rv_intent_hash r = st_intent_hash terms" "rv_amount_atomic r = st_amount_atomic terms" "rv_payee r = st_payee terms"
proof -
  have "dget (ipr_reservations t) (rv_reservation_id r) = Some r \<and> rv_settlement_intent_id r = st_settlement_intent_id terms
    \<and> rv_mandate_id r = mandate_id \<and> rv_intent_hash r = st_intent_hash terms \<and> rv_amount_atomic r = st_amount_atomic terms \<and> rv_payee r = st_payee terms"
  proof (cases "dget (ipr_reservations_by_intent s) (st_settlement_intent_id terms)")
    case None
    then show ?thesis using assms(1) terms_normal [OF assms(3)]
      by (auto simp: reserve_mandate_def Let_def PaymentReservation_post_init_iff dict_get elim!: attempt_cases split: option.splits)
  next
    case (Some k)
    then obtain q where q: "dget (ipr_reservations s) k = Some q" "rv_settlement_intent_id q = st_settlement_intent_id terms"
      using assms(2) unfolding ledger_inv_def money_ok_def by blast
    then have "rv_reservation_id q = k" using assms(2) unfolding ledger_inv_def stored_ok_def by blast
    then show ?thesis using assms(1) Some q by (auto simp: reserve_mandate_def split: if_splits)
  qed
  then show "dget (ipr_reservations t) (rv_reservation_id r) = Some r" "rv_settlement_intent_id r = st_settlement_intent_id terms"
    "rv_mandate_id r = mandate_id" "rv_intent_hash r = st_intent_hash terms" "rv_amount_atomic r = st_amount_atomic terms" "rv_payee r = st_payee terms" by blast+
qed

text \<open>The repository after the first \<open>n\<close> waits, as the other calls leave it; every call of the coordinator to another party is one wait.\<close>

definition others_after :: "parties \<Rightarrow> nat \<Rightarrow> InMemoryPaymentRepository \<Rightarrow> InMemoryPaymentRepository" where
  "others_after w n s = fold (\<lambda>(p, b). pt_others w p b) (take n [(Verify, False), (Verify, True), (Settle, False), (Settle, True)]) s"

lemma submit_text_stored:
  assumes "submit_text k tx now s = (Inr q, s')" "ledger_inv s"
  shows "dget (ipr_reservations s') k = Some q" "rv_status q = Submitted \<or> rv_status q = Consumed" "rv_tx_hash q = Some (lower (map char_of tx))"
    "list_all (\<lambda>c. c < 128) tx" "is_held (rv_status q) \<or> dget (ipr_reservations s) k = Some q"
proof -
  have a: "list_all (\<lambda>c. c < 128) tx" and sub: "submit_reservation k (map char_of tx) now s = (Inr q, s')"
    using assms(1) by (simp_all add: submit_text_def split: if_splits)
  obtain r where r: "dget (ipr_reservations s) k = Some r" using sub by (auto simp: submit_reservation_def attempt_def reservation_of_def split: option.splits)
  have v: "valid_reservation r" using r assms(2) unfolding ledger_inv_def stored_ok_def by blast
  let ?q = "r\<lparr>rv_status := Submitted, rv_tx_hash := Some (lower (map char_of tx))\<rparr>"
  have "rv_status r = Reserved \<and> q = ?q \<and> s' = s\<lparr>ipr_reservations := dput (ipr_reservations s) k q\<rparr>
      \<or> (rv_status r = Submitted \<or> rv_status r = Consumed) \<and> rv_tx_hash r = Some (lower (map char_of tx)) \<and> q = r \<and> s' = s"
  proof (cases "rv_status r = Reserved")
    case True
    then obtain p where p: "PaymentReservation_post_init ?q = Inr p" "q = p" "s' = s\<lparr>ipr_reservations := dput (ipr_reservations s) k p\<rparr>"
      using sub r by (cases "PaymentReservation_post_init ?q") (auto simp: submit_reservation_def attempt_def reservation_of_def)
    then show ?thesis using True post_init_same_payee [OF v p(1)] by simp
  qed (use sub r in \<open>auto simp: submit_reservation_def attempt_def reservation_of_def split: if_splits\<close>)
  then show "dget (ipr_reservations s') k = Some q" "rv_status q = Submitted \<or> rv_status q = Consumed" "rv_tx_hash q = Some (lower (map char_of tx))"
    "is_held (rv_status q) \<or> dget (ipr_reservations s) k = Some q"
    using r by (auto simp: dict_get is_held_def)
  show "list_all (\<lambda>c. c < 128) tx" by (rule a)
qed

lemma submit_text_error: "submit_text k tx now s = (Inl e, s') \<Longrightarrow> s' = s"
  by (auto simp: submit_text_def submit_reservation_def attempt_def split: if_splits sum.splits)

lemma release_stored: "release_reservation k reason now s = (Inr q, s') \<Longrightarrow> dget (ipr_reservations s') k = Some q \<and> rv_status q = Released"
  by (auto simp: release_reservation_def finalize_def reservation_of_def PaymentReservation_post_init_iff dict_get elim!: attempt_cases split: option.splits if_splits)

lemma release_then_calls: "release_then k reason now r b calls s = (out, b', calls', s') \<Longrightarrow> calls' = calls \<and> b' = b"
  by (auto simp: release_then_def split: prod.splits sum.splits)

lemma handle_outcome_calls: "handle_outcome network k now (out, started, calls, s) = (x, calls', s') \<Longrightarrow> calls' = calls"
  by (auto simp: handle_outcome_def split: outcome.splits if_splits prod.splits sum.splits)

text \<open>A settlement is asked for in one place only.\<close>

lemma asked_settle:
  assumes "execute digit terms mandate_id payload now w s = (x, calls, s')" "AskSettle \<in> set calls"
  obtains r t p out started t' where "reserve_mandate mandate_id terms now s = (Inr r, t)" "rv_status r = Reserved"
    "validate_payment_payload digit terms payload now = Inr p" "pt_verify w = Returned True" "pt_approval w = Returned ()"
    "settle_part terms (rv_reservation_id r) (authorization_nonce payload) now w
       [AskVerify, AskApproval (st_settlement_intent_id terms) (st_intent_hash terms) (authorization_nonce payload)]
       (pt_others w Verify True (pt_others w Verify False t)) = (out, started, calls, t')"
    "handle_outcome (ascii (network_of terms)) (rv_reservation_id r) now (out, started, calls, t') = (x, calls, s')"
  using assms(1)
proof (cases rule: execute_cases)
  case (attempted r t out started calls' t')
  have c: "calls' = calls" using handle_outcome_calls [OF attempted(4)] by simp
  from attempted(3) [unfolded c] show ?thesis
  proof (cases rule: execute_body_cases)
    case (rejected p r')
    then show ?thesis using release_then_calls [OF rejected(4)] assms(2) by simp
  next
    case (settling p)
    then show ?thesis using that attempted c by blast
  qed (use assms(2) in simp_all)
qed (use assms(2) in simp_all)

lemma settle_part_calls:
  assumes "settle_part terms k nonce now w calls s = (out, started, calls', s')"
  shows "calls' = calls @ [AskSettle] \<or> (\<exists>tx. calls' = calls @ [AskSettle, AskSubmission (st_settlement_intent_id terms) tx nonce (st_intent_hash terms)])"
  using assms
proof (cases rule: settle_part_cases)
  case (refused settled r)
  then show ?thesis using release_then_calls [OF refused(4)] by simp
qed simp_all

lemma validate_payment_payload_Inr:
  assumes "validate_payment_payload digit terms payload now = Inr p"
  obtains a signature valid_after valid_before where "dget payload ''payload'' = Some (JObj p)" "dget p ''authorization'' = Some (JObj a)"
    "dget p ''signature'' = Some (JStr signature)" "hex_text 130 signature" "authorization_matches terms a"
    "int_member digit a ''validAfter'' = Some valid_after" "int_member digit a ''validBefore'' = Some valid_before"
    "valid_after \<le> timestamp now" "timestamp now < valid_before" "valid_before \<le> timestamp now + 600"
    "same_json (dget payload ''accepted'') (payment_requirement terms)" "same_json (dget payload ''resource'') (payment_resource terms)"
proof -
  from assms obtain q where q: "dget payload ''payload'' = Some (JObj q)" "check_scheme_payload digit terms q now = Inr p"
    and j: "same_json (dget payload ''accepted'') (payment_requirement terms)" "same_json (dget payload ''resource'') (payment_resource terms)"
    by (auto simp: validate_payment_payload_def split: if_splits option.splits json.splits)
  from q(2) obtain a g where a: "dget q ''signature'' = Some (JStr g)" "dget q ''authorization'' = Some (JObj a)" "hex_text 130 g"
    "authorization_matches terms a" "check_window digit a now = Inr ()" "p = q"
    by (auto simp: check_scheme_payload_def result_simps split: if_splits option.splits json.splits)
  from a(5) obtain u v where "int_member digit a ''validAfter'' = Some u" "int_member digit a ''validBefore'' = Some v"
    "u \<le> timestamp now" "timestamp now < v" "v \<le> timestamp now + 600"
    by (auto simp: check_window_def split: if_splits option.splits)
  with that q(1) a j show thesis by blast
qed

lemma nonce_of:
  assumes "dget payload ''payload'' = Some (JObj p)" "dget p ''authorization'' = Some (JObj a)" "authorization_matches terms a"
  shows "lower_text (authorization_nonce payload) = ascii (lower (expected_nonce terms))"
  using assms by (auto simp: authorization_nonce_def authorization_matches_def same_hex_def split: option.splits json.splits)

text \<open>
  Property C18: a settlement is requested only for the payment that the intent calls for. When the coordinator asks the
  facilitator to settle, the intent has a reservation under the mandate for exactly the amount and the payee of the terms; the signed authorization pays
  that amount from the payer to the payee, its nonce is the hash of the intent, it is valid now and for ten minutes at most;
  the facilitator verified it and Arena recorded the approval, in this order, and the settlement is asked for once.
\<close>

theorem settlement_only_for_checked_payment:
  assumes "payments_run ws ps" and "SettlementTerms_post_init terms = Inr terms"
    and "execute digit terms mandate_id payload now w (payments_after ws ps) = (x, calls, s')" and "AskSettle \<in> set calls"
  shows "(\<exists>r t. reserve_mandate mandate_id terms now (payments_after ws ps) = (Inr r, t) \<and> rv_status r = Reserved \<and> rv_mandate_id r = mandate_id
        \<and> rv_settlement_intent_id r = st_settlement_intent_id terms \<and> rv_amount_atomic r = st_amount_atomic terms \<and> rv_payee r = st_payee terms)
    \<and> (\<exists>p a valid_after valid_before. dget payload ''payload'' = Some (JObj p) \<and> dget p ''authorization'' = Some (JObj a)
        \<and> same_hex (dget a ''from'') (st_payer terms) \<and> same_hex (dget a ''to'') (st_payee terms)
        \<and> dget a ''value'' = Some (JStr (ascii (show_int (st_amount_atomic terms))))
        \<and> int_member digit a ''validAfter'' = Some valid_after \<and> int_member digit a ''validBefore'' = Some valid_before
        \<and> valid_after \<le> timestamp now \<and> timestamp now < valid_before \<and> valid_before \<le> timestamp now + 600)
    \<and> pt_verify w = Returned True \<and> pt_approval w = Returned () \<and> count_list calls AskSettle = 1
    \<and> (\<exists>nonce. lower_text nonce = ascii (lower (expected_nonce terms))
        \<and> take 3 calls = [AskVerify, AskApproval (st_settlement_intent_id terms) (st_intent_hash terms) nonce, AskSettle])"
proof -
  from asked_settle [OF assms(3,4)] obtain r t p out started t' where
    r: "reserve_mandate mandate_id terms now (payments_after ws ps) = (Inr r, t)" "rv_status r = Reserved"
    and v: "validate_payment_payload digit terms payload now = Inr p" "pt_verify w = Returned True" "pt_approval w = Returned ()"
    and c: "settle_part terms (rv_reservation_id r) (authorization_nonce payload) now w
       [AskVerify, AskApproval (st_settlement_intent_id terms) (st_intent_hash terms) (authorization_nonce payload)]
       (pt_others w Verify True (pt_others w Verify False t)) = (out, started, calls, t')" by metis
  have f: "rv_mandate_id r = mandate_id \<and> rv_settlement_intent_id r = st_settlement_intent_id terms \<and> rv_amount_atomic r = st_amount_atomic terms \<and> rv_payee r = st_payee terms"
    using reserve_found [OF r(1) payments_after_inv [OF assms(1)] assms(2)] by blast
  have calls: "count_list calls AskSettle = 1" "take 3 calls = [AskVerify, AskApproval (st_settlement_intent_id terms) (st_intent_hash terms) (authorization_nonce payload), AskSettle]"
    using settle_part_calls [OF c] by auto
  from v(1) obtain a g u z where p: "dget payload ''payload'' = Some (JObj p)" "dget p ''authorization'' = Some (JObj a)" "authorization_matches terms a"
    "int_member digit a ''validAfter'' = Some u" "int_member digit a ''validBefore'' = Some z" "u \<le> timestamp now" "timestamp now < z" "z \<le> timestamp now + 600"
    by (rule validate_payment_payload_Inr)
  have m: "same_hex (dget a ''from'') (st_payer terms)" "same_hex (dget a ''to'') (st_payee terms)" "dget a ''value'' = Some (JStr (ascii (show_int (st_amount_atomic terms))))"
    using p(3) by (simp_all add: authorization_matches_def)
  have "\<exists>p a u z. dget payload ''payload'' = Some (JObj p) \<and> dget p ''authorization'' = Some (JObj a)
        \<and> same_hex (dget a ''from'') (st_payer terms) \<and> same_hex (dget a ''to'') (st_payee terms)
        \<and> dget a ''value'' = Some (JStr (ascii (show_int (st_amount_atomic terms))))
        \<and> int_member digit a ''validAfter'' = Some u \<and> int_member digit a ''validBefore'' = Some z
        \<and> u \<le> timestamp now \<and> timestamp now < z \<and> z \<le> timestamp now + 600"
    by (intro exI conjI) (rule p m)+
  moreover have "\<exists>nonce. lower_text nonce = ascii (lower (expected_nonce terms))
        \<and> take 3 calls = [AskVerify, AskApproval (st_settlement_intent_id terms) (st_intent_hash terms) nonce, AskSettle]"
    by (intro exI conjI) (rule nonce_of [OF p(1-3)] calls(2))+
  ultimately show ?thesis using r f v(2,3) calls(1) by simp
qed

text \<open>A reservation is never lost, and its status moves forward only.\<close>

lemma status_next_trans: "status_next a b \<Longrightarrow> status_next b c \<Longrightarrow> status_next a c"
  by (cases a; cases b) simp_all

lemma path_reservation:
  assumes "payment_path s s'" "ledger_inv s" "dget (ipr_reservations s) k = Some r"
  shows "\<exists>q. dget (ipr_reservations s') k = Some q \<and> same_payment r q \<and> status_next (rv_status r) (rv_status q)"
proof -
  from assms(1) obtain ps where ps: "payments.admissible ps s" "s' = fold payment_step ps s" unfolding payment_path_def by blast
  have "payments.admissible ps s \<Longrightarrow> ledger_inv s \<Longrightarrow> dget (ipr_reservations s) k = Some r
      \<Longrightarrow> \<exists>q. dget (ipr_reservations (fold payment_step ps s)) k = Some q \<and> same_payment r q \<and> status_next (rv_status r) (rv_status q)" for s r
  proof (induction ps arbitrary: s r)
    case Nil
    then show ?case by (simp add: same_payment_def)
  next
    case (Cons p ps)
    have ok: "payment_ok p s" and rest: "payments.admissible ps (payment_step p s)" using Cons.prems(1) by simp_all
    have "payment_step p s = s \<or> payment_effect s (payment_step p s)" using payment_step_effect [OF ok] Cons.prems(2) by (simp add: ledger_inv_def)
    then obtain q where q: "dget (ipr_reservations (payment_step p s)) k = Some q" "reservation_next r q"
      using reservation_next_effect [of s "payment_step p s" k r] Cons.prems(3) reservation_next_refl [of r] by (elim disjE) auto
    from Cons.IH [OF rest payments.step_inv [OF Cons.prems(2) ok] q(1)] obtain q' where
      q': "dget (ipr_reservations (fold payment_step ps (payment_step p s))) k = Some q'" "same_payment q q'" "status_next (rv_status q) (rv_status q')" by blast
    have "same_payment r q'" using q(2) q'(2) by (simp add: reservation_next_def same_payment_def)
    moreover have "status_next (rv_status r) (rv_status q')" using status_next_trans q(2) q'(3) unfolding reservation_next_def by blast
    ultimately show ?case using q'(1) by simp
  qed
  then show ?thesis using ps assms(2,3) by blast
qed

lemma execute_finished:
  assumes "ledger_inv s" "dget (ipr_reservations s) k = Some q" "rv_settlement_intent_id q = st_settlement_intent_id terms" "rv_status q \<noteq> Reserved"
  shows "execute digit terms mandate_id payload now w s =
    (if rv_mandate_id q \<noteq> mandate_id \<or> rv_intent_hash q \<noteq> st_intent_hash terms \<or> rv_amount_atomic q \<noteq> st_amount_atomic terms \<or> rv_payee q \<noteq> st_payee terms
     then Inl (MandateRejected ''reservation_intent_conflict'')
     else if rv_status q = Released then Inr (failed_execution (ascii (network_of terms)) None (ascii ''payment_reservation_released''))
     else Inr \<lparr>er_success = True, er_status = ExSubmitted, er_transaction = map_option ascii (rv_tx_hash q), er_network = ascii (network_of terms),
               er_payer = Some (ascii (st_payer terms)), er_error_reason = None\<rparr>, [], s)"
proof -
  have "dget (ipr_reservations_by_intent s) (st_settlement_intent_id terms) = Some k"
    using assms(1-3) unfolding ledger_inv_def stored_ok_def by metis
  then have r: "reserve_mandate mandate_id terms now s =
    (if rv_mandate_id q \<noteq> mandate_id \<or> rv_intent_hash q \<noteq> st_intent_hash terms \<or> rv_amount_atomic q \<noteq> st_amount_atomic terms \<or> rv_payee q \<noteq> st_payee terms
     then (Inl (MandateRejected ''reservation_intent_conflict''), s) else (Inr q, s))"
    using assms(2) by (simp add: reserve_mandate_def)
  show ?thesis unfolding execute_def r using assms(4) by (cases "rv_status q") (simp_all add: Let_def)
qed

text \<open>
  Property C20: a payment that was submitted, consumed or released is never attempted again. Whatever calls ran since, a
  later execution for its intent, with any mandate, payload and answers, asks nothing of the facilitator or of Arena and
  leaves the repository as it is; it answers with the conflict of other terms, with the submitted transaction, or with the failure of the released payment.
\<close>

theorem finished_payment_not_repeated:
  assumes "payments_run ws (ps @ qs)" and "dget (ipr_reservations (payments_after ws ps)) k = Some r" and "rv_status r \<noteq> Reserved"
    and "rv_settlement_intent_id r = st_settlement_intent_id terms"
  shows "\<exists>x. execute digit terms mandate_id payload now w (payments_after ws (ps @ qs)) = (x, [], payments_after ws (ps @ qs))
    \<and> (x = Inl (MandateRejected ''reservation_intent_conflict'')
       \<or> (\<exists>res q. x = Inr res \<and> dget (ipr_reservations (payments_after ws (ps @ qs))) k = Some q
            \<and> (if rv_status r = Released then er_status res = ExFailed \<and> er_transaction res = None
               else er_status res = ExSubmitted \<and> er_transaction res = map_option ascii (rv_tx_hash q))))"
proof -
  have run: "payments_run ws ps" using assms(1) by (simp add: payments.admissible_append)
  have "payment_path (payments_after ws ps) (payments_after ws (ps @ qs))"
    using assms(1) unfolding payment_path_def by (intro exI [of _ qs]) (simp add: payments.admissible_append payments_after_def)
  from path_reservation [OF this payments_after_inv [OF run] assms(2)] obtain q where
    q: "dget (ipr_reservations (payments_after ws (ps @ qs))) k = Some q" "same_payment r q" "status_next (rv_status r) (rv_status q)" by blast
  have i: "rv_settlement_intent_id q = st_settlement_intent_id terms" using q(2) assms(4) by (simp add: same_payment_def)
  have n: "rv_status q \<noteq> Reserved" "rv_status q = Released \<longleftrightarrow> rv_status r = Released" using q(3) assms(3) by (cases "rv_status r"; auto)+
  show ?thesis
    unfolding execute_finished [OF payments_after_inv [OF assms(1)] q(1) i n(1)] using q(1) n(2) by (auto simp: failed_execution_def)
qed

lemma others_inv: "others_run w \<Longrightarrow> ledger_inv s \<Longrightarrow> ledger_inv (pt_others w p b s)"
  using path_others path_inv by blast

lemma others_after_path: "others_run w \<Longrightarrow> ledger_inv s \<Longrightarrow> payment_path s (others_after w n s)"
proof -
  assume o: "others_run w" and i: "ledger_inv s"
  have "ledger_inv s \<Longrightarrow> payment_path s (fold (\<lambda>(p, b). pt_others w p b) ws s)" for ws s
  proof (induction ws arbitrary: s)
    case (Cons x ws)
    obtain p b where x: "x = (p, b)" by (cases x)
    show ?case using Cons.IH [OF others_inv [OF o Cons.prems, of p b]] path_trans [OF path_others [OF o Cons.prems, of p b]] by (simp add: x)
  qed (simp add: path_refl)
  then show ?thesis using i by (simp add: others_after_def)
qed

text \<open>What the coordinator itself does after the waits: it records the transaction, gives the amount back, or changes nothing.\<close>

definition own_step :: "X402ExecutionResult \<Rightarrow> string \<Rightarrow> datetime \<Rightarrow> InMemoryPaymentRepository \<Rightarrow> InMemoryPaymentRepository \<Rightarrow> bool" where
  "own_step res k now u s' \<longleftrightarrow>
     (case er_status res of
        ExSubmitted \<Rightarrow> \<exists>tx q. er_transaction res = Some tx \<and> submit_text k tx now u = (Inr q, s')
      | ExFailed \<Rightarrow> er_transaction res = None \<and> (\<exists>reason q. release_reservation k reason now u = (Inr q, s'))
      | ExUnknown \<Rightarrow> er_transaction res = None \<and> s' = u)"

lemma handle_raised:
  assumes "handle_outcome network k now (out, started, calls, u) = (Inr res, calls', s')" "raises answer out"
  shows "own_step res k now u s'"
  using assms by (auto simp: handle_outcome_def raises_def own_step_def failed_execution_def unknown_execution_def split: if_splits prod.splits sum.splits)
    blast

lemma release_error: "release_reservation k reason now s = (Inl e, s') \<Longrightarrow> s' = s"
  by (auto simp: release_reservation_def finalize_def attempt_def split: if_splits sum.splits option.splits)

lemma handle_released:
  assumes "release_then k reason now r b calls u = (out, b', calls', t)" "er_status r = ExFailed \<and> er_transaction r = None"
    and "handle_outcome network k now (out, b', calls', t) = (Inr res, calls'', s')"
  shows "own_step res k now u s'"
proof (cases "release_reservation k reason now u")
  case (Pair y v)
  show ?thesis
  proof (cases y)
    case (Inl e)
    then show ?thesis using assms Pair release_error [OF Pair [unfolded Inl]]
      by (auto simp: release_then_def handle_outcome_def own_step_def unknown_execution_def split: if_splits prod.splits sum.splits)
  next
    case (Inr q)
    then show ?thesis using assms Pair by (auto simp: release_then_def handle_outcome_def own_step_def) blast+
  qed
qed

lemma settle_part_own:
  assumes "settle_part terms k nonce now w calls u = (out, started, calls', t)" "handle_outcome network k now (out, started, calls', t) = (Inr res, calls'', s')"
    and "length calls = 2" "u = others_after w 2 s"
  shows "own_step res k now (others_after w (length calls') s) s'"
proof -
  have u: "pt_others w Settle False u = others_after w 3 s" "pt_others w Settle True (pt_others w Settle False u) = others_after w 4 s"
    using assms(4) by (simp_all add: others_after_def numeral_eq_Suc)
  from assms(1) show ?thesis
  proof (cases rule: settle_part_cases)
    case raised
    then show ?thesis using handle_raised [OF assms(2)] assms(3) u(1) by (simp add: numeral_eq_Suc)
  next
    case (refused settled r)
    then show ?thesis using handle_released [OF refused(4,3) assms(2)] release_then_calls [OF refused(4)] assms(3) u(1) by (simp add: numeral_eq_Suc)
  next
    case (unrecorded settled tx)
    then show ?thesis using handle_raised [OF assms(2)] assms(3) u(2) by (simp add: numeral_eq_Suc)
  next
    case (recorded settled tx x)
    then have n: "length calls' = 4" using assms(3) by simp
    show ?thesis
    proof (cases x)
      case (Inl e)
      then show ?thesis using recorded(5,7,8) assms(2) u(2) submit_text_error n
        by (auto simp: handle_outcome_def own_step_def unknown_execution_def)
    next
      case (Inr q)
      then show ?thesis using recorded(7,8) assms(2) u(2) n by (auto simp: handle_outcome_def own_step_def)
    qed
  qed
qed

lemma execute_body_own:
  assumes "execute_body digit terms k payload now w s = (out, started, calls, t)" "handle_outcome network k now (out, started, calls, t) = (Inr res, calls', s')"
  shows "own_step res k now (others_after w (length calls) s) s' \<and> calls \<noteq> []"
proof -
  have u: "others_after w 1 s = pt_others w Verify False s" "others_after w 2 s = pt_others w Verify True (pt_others w Verify False s)"
    by (simp_all add: others_after_def numeral_eq_Suc)
  from assms(1) show ?thesis
  proof (cases rule: execute_body_cases)
    case (invalid e)
    then show ?thesis using assms(2) by (auto simp: handle_outcome_def split: prod.splits sum.splits)
  next
    case (unverified p)
    then show ?thesis using handle_raised [OF assms(2)] u(1) by simp
  next
    case (rejected p r)
    then show ?thesis using handle_released [OF rejected(4,3) assms(2)] release_then_calls [OF rejected(4)] u(1) by simp
  next
    case (unapproved p)
    then show ?thesis using handle_raised [OF assms(2)] u(2) by (simp add: numeral_eq_Suc)
  next
    case (settling p)
    then show ?thesis using settle_part_own [OF settling(4) assms(2) _ u(2) [symmetric]] settle_part_calls [OF settling(4)] by auto
  qed
qed

lemma lower_text_ascii: "lower_text (ascii s) = ascii (lower s)"
  by (induction s) (auto simp: lower_text_def ascii_def lower_def lower_char_def of_char_of)

lemma ascii_chars: "list_all (\<lambda>c. c < 128) t \<Longrightarrow> ascii (map char_of t) = t"
  by (induction t) (auto simp: ascii_def of_char_of)

lemma own_step_recorded:
  assumes "own_step res k now u s'" "ledger_inv u" "dget (ipr_reservations u) k = Some r" "er_status res \<noteq> ExUnknown"
  obtains q where "dget (ipr_reservations s') k = Some q" "er_status res = ExFailed \<Longrightarrow> rv_status q = Released"
    "er_status res = ExSubmitted \<Longrightarrow> (rv_status q = Submitted \<or> rv_status q = Consumed) \<and> (is_held (rv_status q) \<or> dget (ipr_reservations u) k = Some q)
       \<and> (\<exists>tx h. er_transaction res = Some tx \<and> rv_tx_hash q = Some h \<and> lower_text tx = ascii (lower h))"
proof (cases "er_status res")
  case ExSubmitted
  then obtain tx q where q: "er_transaction res = Some tx" "submit_text k tx now u = (Inr q, s')" using assms(1) by (auto simp: own_step_def)
  note st = submit_text_stored [OF q(2) assms(2)]
  have "lower_text tx = ascii (lower (lower (map char_of tx)))"
    using st(4) lower_text_ascii [of "map char_of tx"] by (simp add: lower_idem ascii_chars)
  then show thesis using that [OF st(1)] ExSubmitted st q(1) by auto
next
  case ExFailed
  then obtain reason q where "release_reservation k reason now u = (Inr q, s')" using assms(1) by (auto simp: own_step_def)
  then show thesis using release_stored that ExFailed by fastforce
qed (use assms(4) in simp)

text \<open>
  Property C19: the answer of an execution is the truth about the ledger, whatever the other parties answer and whatever other calls
  do while the coordinator waits. An execution that returns has a reservation for the terms under the mandate. If it returns submitted, the
  reservation is submitted or consumed and holds the transaction it returns; if it returns failed, the reservation is released, so the
  amount can be spent again; if it returns unknown, the coordinator itself changed nothing: the repository is the one the other calls left after the last wait.
\<close>

theorem execution_result_recorded:
  assumes "payments_run ws ps" and "others_run w" and "SettlementTerms_post_init terms = Inr terms" and "no_collision mandate_id terms (payments_after ws ps)"
    and "execute digit terms mandate_id payload now w (payments_after ws ps) = (Inr res, calls, s')"
  shows "\<exists>r t q. reserve_mandate mandate_id terms now (payments_after ws ps) = (Inr r, t) \<and> dget (ipr_reservations s') (rv_reservation_id r) = Some q
    \<and> rv_settlement_intent_id q = st_settlement_intent_id terms \<and> rv_mandate_id q = mandate_id \<and> rv_amount_atomic q = st_amount_atomic terms
    \<and> rv_payee q = st_payee terms
    \<and> (case er_status res of
         ExSubmitted \<Rightarrow> (rv_status q = Submitted \<or> rv_status q = Consumed)
           \<and> (\<exists>tx h. er_transaction res = Some tx \<and> rv_tx_hash q = Some h \<and> lower_text tx = ascii (lower h))
       | ExFailed \<Rightarrow> rv_status q = Released \<and> er_transaction res = None
       | ExUnknown \<Rightarrow> er_transaction res = None \<and> calls \<noteq> [] \<and> s' = others_after w (length calls) t)"
proof -
  let ?s = "payments_after ws ps" and ?C = "\<lambda>q t. case er_status res of
         ExSubmitted \<Rightarrow> (rv_status q = Submitted \<or> rv_status q = Consumed)
           \<and> (\<exists>tx h. er_transaction res = Some tx \<and> rv_tx_hash q = Some h \<and> lower_text tx = ascii (lower h))
       | ExFailed \<Rightarrow> rv_status q = Released \<and> er_transaction res = None
       | ExUnknown \<Rightarrow> er_transaction res = None \<and> calls \<noteq> [] \<and> s' = others_after w (length calls) t"
  note inv = payments_after_inv [OF assms(1)]
  have t: "ledger_inv t" if "reserve_mandate mandate_id terms now ?s = (y, t)" for y t
    using path_step [of "ReserveMandate mandate_id terms now" ?s] assms(3,4) that path_inv [OF _ inv] by auto
  have stored: "?thesis" if r: "reserve_mandate mandate_id terms now ?s = (Inr r, t)" and p: "payment_path t s'" and
      c: "\<And>q. dget (ipr_reservations s') (rv_reservation_id r) = Some q \<Longrightarrow> ?C q t" for r t
  proof -
    note f = reserve_found [OF r inv assms(3)]
    obtain q where q: "dget (ipr_reservations s') (rv_reservation_id r) = Some q" "same_payment r q"
      using path_reservation [OF p t [OF r] f(1)] by blast
    show ?thesis using r q(1) f(2-6) q(2) c [OF q(1)] unfolding same_payment_def by (intro exI [of _ r] exI [of _ t] exI [of _ q]) simp
  qed
  from assms(5) show ?thesis
  proof (cases rule: execute_cases)
    case (paid r)
    note f = reserve_found [OF paid(1) inv assms(3)]
    have "valid_reservation r" using t [OF paid(1)] f(1) unfolding ledger_inv_def stored_ok_def by blast
    then have "status_fields_error r = None" unfolding PaymentReservation_post_init_iff by blast
    then obtain h where h: "rv_tx_hash r = Some h" using paid(2) by (auto simp: status_fields_error_def split: if_splits)
    show ?thesis by (rule stored [OF paid(1) path_refl]) (use f(1) h paid in \<open>auto simp: lower_text_ascii\<close>)
  next
    case (released r)
    note f = reserve_found [OF released(1) inv assms(3)]
    show ?thesis by (rule stored [OF released(1) path_refl]) (use f(1) released in \<open>auto simp: failed_execution_def\<close>)
  next
    case (attempted r t out started calls' t')
    have c: "calls' = calls" using handle_outcome_calls [OF attempted(4)] by simp
    let ?u = "others_after w (length calls) t"
    have own: "own_step res (rv_reservation_id r) now ?u s'" "calls \<noteq> []" using execute_body_own [OF attempted(3,4)] c by simp_all
    have path: "payment_path t s'" using execute_body_path [OF assms(2) t [OF attempted(1)] attempted(3)] handle_outcome_path [OF attempted(4)] path_trans by blast
    have u: "payment_path t ?u" using others_after_path [OF assms(2) t [OF attempted(1)]] .
    obtain p where p: "dget (ipr_reservations ?u) (rv_reservation_id r) = Some p"
      using path_reservation [OF u t [OF attempted(1)] reserve_found(1) [OF attempted(1) inv assms(3)]] by blast
    show ?thesis
    proof (cases "er_status res = ExUnknown")
      case True
      then show ?thesis using own by (intro stored [OF attempted(1) path]) (simp add: own_step_def)
    next
      case False
      obtain q where q: "dget (ipr_reservations s') (rv_reservation_id r) = Some q" "er_status res = ExFailed \<Longrightarrow> rv_status q = Released"
        "er_status res = ExSubmitted \<Longrightarrow> (rv_status q = Submitted \<or> rv_status q = Consumed)
           \<and> (\<exists>tx h. er_transaction res = Some tx \<and> rv_tx_hash q = Some h \<and> lower_text tx = ascii (lower h))"
        using own_step_recorded [OF own(1) path_inv [OF u t [OF attempted(1)]] p False] by metis
      then show ?thesis using own(1) False by (intro stored [OF attempted(1) path]) (cases "er_status res"; simp add: own_step_def)
    qed
  qed simp
qed

lemma settle_part_paid:
  assumes "settle_part terms k nonce now w calls u = (out, started, calls', t)" "handle_outcome network k now (out, started, calls', t) = (x, calls'', s')"
    and "\<forall>code. pt_settle w \<noteq> FacilitatorRaised code False" "\<forall>settled. pt_settle w = Returned settled \<longrightarrow> fs_success settled \<and> fs_transaction settled \<noteq> None"
    "\<forall>code ambiguous. pt_submission w \<noteq> FacilitatorRaised code ambiguous"
  shows "\<exists>res. x = Inr res \<and> er_status res \<noteq> ExFailed"
  using assms(1)
proof (cases rule: settle_part_cases)
  case (refused settled r)
  then show ?thesis using assms(4) by (auto simp: refused_def)
next
  case (recorded settled tx y)
  then show ?thesis using assms(2) by (cases y) (auto simp: handle_outcome_def unknown_execution_def)
qed (use assms in \<open>auto simp: raises_def handle_outcome_def unknown_execution_def split: if_splits\<close>)

text \<open>
  Property C17: money that may have moved stays reserved. Once the coordinator has asked for a settlement, and unless the facilitator
  refused it (a definite error, or an answer that does not report success) or reported success without naming a transaction (the code then
  releases the amount although the money may have moved), the execution returns submitted or unknown, even if Arena or the repository
  fails afterwards; the reservation of the terms is still held under the mandate for the payee, or it is as another call left it
  during the last wait (another call may consume it, or release it): the execution itself never gives the amount back. When it returns submitted, the reservation holds the transaction.
\<close>

theorem settled_payment_stays_held:
  assumes "payments_run ws ps" and "others_run w" and "SettlementTerms_post_init terms = Inr terms" and "no_collision mandate_id terms (payments_after ws ps)"
    and "execute digit terms mandate_id payload now w (payments_after ws ps) = (x, calls, s')" and "AskSettle \<in> set calls"
    and "\<forall>code. pt_settle w \<noteq> FacilitatorRaised code False"
    and "\<forall>settled. pt_settle w = Returned settled \<longrightarrow> fs_success settled \<and> fs_transaction settled \<noteq> None"
    and "\<forall>code ambiguous. pt_submission w \<noteq> FacilitatorRaised code ambiguous"
  shows "\<exists>res r t q. x = Inr res \<and> (er_status res = ExSubmitted \<or> er_status res = ExUnknown)
    \<and> reserve_mandate mandate_id terms now (payments_after ws ps) = (Inr r, t) \<and> dget (ipr_reservations s') (rv_reservation_id r) = Some q
    \<and> rv_settlement_intent_id q = st_settlement_intent_id terms \<and> rv_mandate_id q = mandate_id \<and> rv_amount_atomic q = st_amount_atomic terms
    \<and> rv_payee q = st_payee terms
    \<and> (is_held (rv_status q) \<or> dget (ipr_reservations (others_after w (length calls) t)) (rv_reservation_id r) = Some q)
    \<and> (er_status res = ExSubmitted \<longrightarrow> (rv_status q = Submitted \<or> rv_status q = Consumed)
         \<and> (\<exists>tx h. er_transaction res = Some tx \<and> rv_tx_hash q = Some h \<and> lower_text tx = ascii (lower h)))"
proof -
  let ?s = "payments_after ws ps"
  note inv = payments_after_inv [OF assms(1)]
  from asked_settle [OF assms(5,6)] obtain r t p out started t' where
    r: "reserve_mandate mandate_id terms now ?s = (Inr r, t)"
    and c: "settle_part terms (rv_reservation_id r) (authorization_nonce payload) now w
       [AskVerify, AskApproval (st_settlement_intent_id terms) (st_intent_hash terms) (authorization_nonce payload)]
       (pt_others w Verify True (pt_others w Verify False t)) = (out, started, calls, t')"
    and h: "handle_outcome (ascii (network_of terms)) (rv_reservation_id r) now (out, started, calls, t') = (x, calls, s')" by metis
  have t: "ledger_inv t" using path_step [of "ReserveMandate mandate_id terms now" ?s] assms(3,4) r path_inv [OF _ inv] by auto
  obtain res where x: "x = Inr res" "er_status res \<noteq> ExFailed" using settle_part_paid [OF c h assms(7-9)] by blast
  let ?u = "others_after w (length calls) t"
  have u: "payment_path t ?u" using others_after_path [OF assms(2) t] .
  note f = reserve_found [OF r inv assms(3)]
  obtain q' where q': "dget (ipr_reservations ?u) (rv_reservation_id r) = Some q'" using path_reservation [OF u t f(1)] by blast
  have own: "own_step res (rv_reservation_id r) now ?u s'"
    by (rule settle_part_own [OF c h [unfolded x(1)]]) (simp_all add: others_after_def numeral_eq_Suc)
  obtain q where q: "dget (ipr_reservations s') (rv_reservation_id r) = Some q" "is_held (rv_status q) \<or> dget (ipr_reservations ?u) (rv_reservation_id r) = Some q"
    "er_status res = ExSubmitted \<longrightarrow> (rv_status q = Submitted \<or> rv_status q = Consumed)
         \<and> (\<exists>tx h. er_transaction res = Some tx \<and> rv_tx_hash q = Some h \<and> lower_text tx = ascii (lower h))"
  proof (cases "er_status res")
    case ExUnknown
    then show thesis using own q' that by (simp add: own_step_def)
  next
    case ExSubmitted
    with own_step_recorded [OF own path_inv [OF u t] q'] that show thesis by fastforce
  qed (use x in simp)
  have two: "pt_others w Verify True (pt_others w Verify False t) = others_after w 2 t" by (simp add: others_after_def numeral_eq_Suc)
  note p2 = others_after_path [OF assms(2) t, of 2]
  have "payment_path t s'"
    using path_trans [OF p2 path_trans [OF settle_part_path [OF assms(2) path_inv [OF p2 t] c [unfolded two]] handle_outcome_path [OF h]]] .
  then have "same_payment r q" using path_reservation [OF _ t f(1)] q(1) by fastforce
  then show ?thesis using x r q f(2-6) unfolding same_payment_def
    by (intro exI [of _ res] exI [of _ r] exI [of _ t] exI [of _ q]) (cases "er_status res"; simp)
qed

text \<open>
  The HTTP client calls a settlement refused only when the facilitator answers with a client error, or with an object that does not
  report success or names no transaction; every lost, late, broken or garbled answer is ambiguous. A failed verification is never ambiguous.
\<close>

lemma http_settle_refusal:
  "(\<exists>code. http_settle py_repr facilitator_id network reply = FacilitatorRaised code False)
     \<or> (\<exists>settled. http_settle py_repr facilitator_id network reply = Returned settled \<and> refused settled) \<longleftrightarrow>
     (\<exists>status body. reply = Reply status body \<and> (400 \<le> status \<and> status < 500
        \<or> status < 400 \<and> (\<exists>value. body = Some (JObj value)
             \<and> (dget value ''success'' \<noteq> Some (JBool True) \<or> (\<forall>tx. dget value ''transaction'' \<noteq> Some (JStr tx))))))"
  by (cases reply) (auto simp: http_settle_def facilitator_post_def settlement_of_def refused_def split: option.splits json.splits)

text \<open>A payload that fails its check ends the payment: its reservation is released, and every later execution fails.\<close>

lemma invalid_payload_blocks_payment:
  assumes "ledger_inv s" "dget (ipr_reservations s) k = Some r" "rv_status r = Reserved" "validate_payment_payload digit terms payload now = Inl e"
    and "rv_settlement_intent_id r = st_settlement_intent_id terms" "rv_mandate_id r = mandate_id" "rv_intent_hash r = st_intent_hash terms"
      "rv_amount_atomic r = st_amount_atomic terms" "rv_payee r = st_payee terms"
  shows "\<exists>s'. execute digit terms mandate_id payload now w s = (Inl e, [], s')
    \<and> (\<forall>payload' now' w'. execute digit terms mandate_id payload' now' w' s'
         = (Inr (failed_execution (ascii (network_of terms)) None (ascii ''payment_reservation_released'')), [], s'))"
proof -
  obtain m where m: "dget (ipr_mandates s) (rv_mandate_id r) = Some m" using assms(1,2) unfolding ledger_inv_def money_ok_def funded_def by blast
  let ?reason = "''payment_pre_submission_failed''"
  let ?q = "r\<lparr>rv_status := Released, rv_finalized_at := Some now, rv_release_reason := Some ?reason\<rparr>"
  obtain p s' where rel: "release_reservation k ?reason now s = (Inr p, s')" "rv_status p = Released"
    using release_held [OF assms(1-3) _ _ m, of ?reason now] by auto
  have p: "dget (ipr_reservations s') k = Some p" using rel assms(2,3)
    by (auto simp: release_reservation_def finalize_def reservation_of_def dict_get elim!: attempt_cases split: option.splits)
  have "reservation_next r p"
    using release_reservation_effect [OF rel(1)] reservation_next_effect [of s s' k r] assms(1-3) p rel(2) by (auto simp: ledger_inv_def)
  then have same: "same_payment r p" by (simp add: reservation_next_def)
  have k: "dget (ipr_reservations_by_intent s) (st_settlement_intent_id terms) = Some k" "rv_reservation_id r = k"
    using assms(1,2,5) unfolding ledger_inv_def stored_ok_def by metis+
  have "reserve_mandate mandate_id terms now s = (Inr r, s)" using k assms(2,6-9) by (simp add: reserve_mandate_def)
  then have "execute digit terms mandate_id payload now w s = (Inl e, [], s')"
    using assms(3,4) rel(1) k(2) by (simp add: execute_def execute_body_def handle_outcome_def Let_def)
  moreover have "execute digit terms mandate_id payload' now' w' s'
         = (Inr (failed_execution (ascii (network_of terms)) None (ascii ''payment_reservation_released'')), [], s')" for payload' now' w'
    using execute_finished [OF path_inv [OF path_release [OF rel(1)] assms(1)] p, of terms digit mandate_id payload' now' w'] same assms(5-9) rel(2)
    by (simp add: same_payment_def)
  ultimately show ?thesis by blast
qed

text \<open>An answer that reports success but names no transaction frees the amount again.\<close>

lemma success_without_transaction_released:
  assumes "ledger_inv s" "dget (ipr_reservations s) k = Some r" "rv_status r = Reserved" "pt_others w Settle False s = s"
    and "pt_settle w = Returned settled" "fs_success settled" "fs_transaction settled = None"
  shows "\<exists>out started calls' t q m m'. settle_part terms k nonce now w calls s = (out, started, calls', t)
    \<and> dget (ipr_reservations t) k = Some q \<and> rv_status q = Released
    \<and> dget (ipr_mandates s) (rv_mandate_id r) = Some m \<and> dget (ipr_mandates t) (rv_mandate_id r) = Some m'
    \<and> pm_reserved_atomic m' = pm_reserved_atomic m - rv_amount_atomic r"
proof -
  obtain m where m: "dget (ipr_mandates s) (rv_mandate_id r) = Some m" using assms(1,2) unfolding ledger_inv_def money_ok_def funded_def by blast
  let ?reason = "''facilitator_settlement_rejected''"
  obtain p s' where rel: "release_reservation k ?reason now s = (Inr p, s')" "rv_status p = Released"
      "dget (ipr_mandates s') (rv_mandate_id r) = Some (m\<lparr>pm_reserved_atomic := pm_reserved_atomic m - rv_amount_atomic r\<rparr>)"
    using release_held [OF assms(1-3) _ _ m, of ?reason now] by auto
  have "dget (ipr_reservations s') k = Some p" using rel(1) assms(2,3)
    by (auto simp: release_reservation_def finalize_def reservation_of_def dict_get elim!: attempt_cases split: option.splits)
  then show ?thesis using rel m assms(4-7) by (auto simp: settle_part_def release_then_def Let_def)
qed

section \<open>Shards\<close>

lemma route_key_terms:
  assumes "SettlementTerms_post_init terms = Inr terms" "payment_requirement terms = JObj req"
  shows "route_key req = Returned (st_intent_hash terms)"
proof -
  have h: "intent_hash_pattern (st_intent_hash terms)"
    using assms(1) unfolding SettlementTerms_post_init_def if_raise_Inr bindR_Inr_iff by auto
  have "list_all (\<lambda>c. c < 256) (ascii (st_intent_hash terms))" "map char_of (ascii (st_intent_hash terms)) = st_intent_hash terms"
    by (simp_all add: ascii_def list_all_iff comp_def)
  then show ?thesis using h assms(2) by (auto simp: payment_requirement_def route_key_def)
qed

lemma ShardedFacilitatorClient_Inr:
  "ShardedFacilitatorClient_new shards = Inr ordered \<longleftrightarrow>
     2 \<le> length shards \<and> length shards \<le> 64 \<and> list_all (\<lambda>(k, c). facilitator_id_ok k) shards \<and> ordered = sort_key fst shards"
  by (auto simp: ShardedFacilitatorClient_new_def split: if_splits)

text \<open>
  Every settlement has one facilitator. For terms that their constructor accepted, the sharded client finds a shard among the configured ones, by
  the hash of the intent alone, whatever the order in which the shards were configured; verifying and settling go to the same shard, so a retry of the same intent does too.
\<close>

theorem one_shard_per_intent:
  assumes "SettlementTerms_post_init terms = Inr terms" and "payment_requirement terms = JObj req" and "ShardedFacilitatorClient_new shards = Inr ordered"
    and "distinct (dkeys shards)" and "mset shards' = mset shards"
  shows "\<exists>i client. (i, client) \<in> set shards \<and> shard_for ordered req = Returned (i, client) \<and> sharded_verify ordered req = cl_verify client
    \<and> (\<forall>s. cl_settle client = Returned s \<longrightarrow> (\<exists>j. sharded_settle ordered req = Returned (s\<lparr>fs_facilitator_id := j\<rparr>)))
    \<and> ShardedFacilitatorClient_new shards' = Inr ordered"
proof -
  note ord = assms(3) [unfolded ShardedFacilitatorClient_Inr]
  obtain i client where e: "ordered ! (from_bytes_big (take 8 (sha256 (ascii (st_intent_hash terms)))) mod length ordered) = (i, client)"
    by (cases "ordered ! (from_bytes_big (take 8 (sha256 (ascii (st_intent_hash terms)))) mod length ordered)")
  have f: "shard_for ordered req = Returned (i, client)" using route_key_terms [OF assms(1,2)] e by (simp add: shard_for_def)
  have "(i, client) \<in> set ordered" using e ord nth_mem [of "from_bytes_big (take 8 (sha256 (ascii (st_intent_hash terms)))) mod length ordered" ordered]
    by (metis length_sort mod_less_divisor not_numeral_le_zero length_greater_0_conv list.size(3))
  then have s: "(i, client) \<in> set shards" using ord by simp
  have len: "length shards' = length shards" using assms(5) by (metis size_mset)
  have "inj_on fst (set shards')" using assms(4) mset_eq_setD [OF assms(5)] by (simp add: distinct_map)
  then have "sort_key fst shards' = sort_key fst shards" using assms(5) by (intro sort_key_inj_key_eq) simp_all
  then have o: "ShardedFacilitatorClient_new shards' = Inr ordered"
    using ord len mset_eq_setD [OF assms(5)] by (simp add: ShardedFacilitatorClient_Inr list_all_iff)
  have v: "sharded_verify ordered req = cl_verify client" using f by (simp add: sharded_verify_def)
  have "\<exists>j. sharded_settle ordered req = Returned (t\<lparr>fs_facilitator_id := j\<rparr>)" if "cl_settle client = Returned t" for t
    using f that by (auto simp: sharded_settle_def sharded_facilitator_id_for_def)
  then show ?thesis using s f v o by blast
qed

section \<open>Witnesses\<close>

definition demo_payload :: "(string, json) dict" where
  "demo_payload =
     [(''x402Version'', JInt 2), (''resource'', payment_resource demo_terms), (''accepted'', payment_requirement demo_terms),
      (''payload'', JObj [(''signature'', JStr (ascii (pay_hex 130 CHR ''0''))), (''authorization'', JObj
         [(''from'', JStr (ascii (st_payer demo_terms))), (''to'', JStr (ascii (st_payee demo_terms))),
          (''value'', JStr (ascii (show_int (st_amount_atomic demo_terms)))), (''nonce'', JStr (ascii (expected_nonce demo_terms))),
          (''validAfter'', JInt 0), (''validBefore'', JInt 100)])])]"

definition demo_settlement :: FacilitatorSettlement where
  "demo_settlement = \<lparr>fs_success = True, fs_transaction = Some (ascii (pay_hex 64 CHR ''a'')), fs_network = ascii ''eip155:1'', fs_payer = None,
     fs_error_reason = None, fs_facilitator_id = ''f''\<rparr>"

text \<open>The facilitator pays, but Arena cannot record the submission.\<close>

definition demo_parties :: parties where
  "demo_parties = \<lparr>pt_verify = Returned True, pt_approval = Returned (), pt_settle = Returned demo_settlement,
     pt_submission = OtherRaised (ValueError ''recorder down''), pt_others = (\<lambda>_ _ s. s)\<rparr>"

lemma demo_parties_ok: "others_run demo_parties" "\<forall>code. pt_settle demo_parties \<noteq> FacilitatorRaised code False"
  "\<forall>settled. pt_settle demo_parties = Returned settled \<longrightarrow> fs_success settled \<and> fs_transaction settled \<noteq> None"
  "\<forall>code ambiguous. pt_submission demo_parties \<noteq> FacilitatorRaised code ambiguous"
  using payments.admissible.simps(1) by (auto simp: others_run_def demo_parties_def demo_settlement_def intro!: exI [of _ "[]"])

lemma hex_text_pay: "is_hex c \<Longrightarrow> hex_text n (ascii (pay_hex n c))"
  by (simp add: hex_text_def pay_hex_def ascii_def list_all_iff)

lemma demo_validate: "validate_payment_payload d demo_terms demo_payload (Aware 2) = Inr
   [(''signature'', JStr (ascii (pay_hex 130 CHR ''0''))), (''authorization'', JObj
         [(''from'', JStr (ascii (st_payer demo_terms))), (''to'', JStr (ascii (st_payee demo_terms))),
          (''value'', JStr (ascii (show_int (st_amount_atomic demo_terms)))), (''nonce'', JStr (ascii (expected_nonce demo_terms))),
          (''validAfter'', JInt 0), (''validBefore'', JInt 100)])]"
proof -
  have "is_hex CHR ''0''" by (simp add: is_hex_def is_digit_def)
  note hex_text_pay [OF this, of 130]
  moreover have "same_json (Some (payment_resource demo_terms)) (payment_resource demo_terms)" "same_json (Some (payment_requirement demo_terms)) (payment_requirement demo_terms)"
    by (simp_all add: same_json_def payment_resource_def payment_requirement_def)
  ultimately show ?thesis
    by (simp add: validate_payment_payload_def demo_payload_def check_scheme_payload_def authorization_matches_def same_hex_def lower_text_ascii
        check_window_def int_member_def timestamp_def result_simps)
qed

lemma demo_again: "reserve_mandate ''m1'' demo_terms (Aware 2) demo_repository = (Inr demo_reserved, demo_repository)"
  by (simp add: reserve_mandate_def demo_repository_def) (simp add: demo_reserved_def demo_terms_def)

lemma demo_execute:
  "execute d demo_terms ''m1'' demo_payload (Aware 2) demo_parties demo_repository =
     (Inr (unknown_execution (ascii (network_of demo_terms)) (ascii ''payment_submission_unknown'')),
      [AskVerify, AskApproval ''i1'' (st_intent_hash demo_terms) (authorization_nonce demo_payload), AskSettle,
       AskSubmission ''i1'' (ascii (pay_hex 64 CHR ''a'')) (authorization_nonce demo_payload) (st_intent_hash demo_terms)], demo_repository)"
proof -
  have "st_settlement_intent_id demo_terms = ''i1''" by (simp add: demo_terms_def)
  then show ?thesis
    by (simp add: execute_def demo_again demo_lookup execute_body_def demo_validate demo_parties_def Let_def settle_part_def demo_settlement_def handle_outcome_def)
qed

lemma demo_free: "no_collision ''m1'' demo_terms demo_repository"
  by (simp add: no_collision_def demo_repository_def) (simp add: demo_reserved_def demo_terms_def)

lemma settlement_only_for_checked_payment_witness:
  "\<exists>nonce. lower_text nonce = ascii (lower (expected_nonce demo_terms)) \<and> nonce = authorization_nonce demo_payload"
  using settlement_only_for_checked_payment [OF demo_run(2) demo_terms_valid, unfolded demo_run(1), OF demo_execute] by auto

lemma settled_payment_stays_held_witness:
  "\<exists>k q. dget (ipr_reservations demo_repository) k = Some q \<and> rv_settlement_intent_id q = ''i1'' \<and> rv_amount_atomic q = 50"
proof -
  have "st_settlement_intent_id demo_terms = ''i1''" "st_amount_atomic demo_terms = 50" by (simp_all add: demo_terms_def)
  then show ?thesis
    using settled_payment_stays_held [OF demo_run(2) demo_parties_ok(1) demo_terms_valid, unfolded demo_run(1), OF demo_free demo_execute _ demo_parties_ok(2-4)] by auto
qed

lemma execution_result_recorded_witness:
  "\<exists>k q. dget (ipr_reservations demo_repository) k = Some q \<and> rv_settlement_intent_id q = ''i1'' \<and> rv_mandate_id q = ''m1''"
proof -
  have "st_settlement_intent_id demo_terms = ''i1''" by (simp add: demo_terms_def)
  then show ?thesis
    using execution_result_recorded [OF demo_run(2) demo_parties_ok(1) demo_terms_valid, unfolded demo_run(1), OF demo_free demo_execute] by auto
qed

lemma demo_submit:
  "submit_reservation (reservation_identifier ''m1'' demo_terms) (pay_hex 64 CHR ''a'') (Aware 3) demo_repository =
     (Inr (demo_reserved\<lparr>rv_status := Submitted, rv_tx_hash := Some (pay_hex 64 CHR ''a'')\<rparr>),
      demo_repository\<lparr>ipr_reservations := [(reservation_identifier ''m1'' demo_terms, demo_reserved\<lparr>rv_status := Submitted, rv_tx_hash := Some (pay_hex 64 CHR ''a'')\<rparr>)]\<rparr>)"
proof -
  have l: "lower (pay_hex 64 CHR ''a'') = pay_hex 64 CHR ''a''" by (simp add: pay_hex_def lower_def lower_char_def)
  have "valid_reservation (demo_reserved\<lparr>rv_status := Submitted, rv_tx_hash := Some (pay_hex 64 CHR ''a'')\<rparr>)"
    by (simp add: PaymentReservation_post_init_iff demo_reserved_def status_fields_error_def pay_lower pay_lowers l del: pay_hex(2))
  then show ?thesis by (simp add: submit_reservation_def reservation_of_def demo_lookup attempt_def l del: pay_hex(2)) (simp add: demo_repository_def)
qed

definition demo_submitted :: "payment_op list" where
  "demo_submitted = demo_payments @ [SubmitReservation (reservation_identifier ''m1'' demo_terms) (pay_hex 64 CHR ''a'') (Aware 3)]"

lemma demo_submitted_run: "payments_run [demo_wallet] demo_submitted"
  "dget (ipr_reservations (payments_after [demo_wallet] demo_submitted)) (reservation_identifier ''m1'' demo_terms)
     = Some (demo_reserved\<lparr>rv_status := Submitted, rv_tx_hash := Some (pay_hex 64 CHR ''a'')\<rparr>)"
  using demo_run unfolding demo_submitted_def by (simp_all add: payments.admissible_append payments_after_def demo_submit del: pay_hex(2))

lemma finished_payment_not_repeated_witness:
  "\<exists>x. execute (\<lambda>_. None) demo_terms ''m1'' demo_payload (Aware 4) demo_parties (payments_after [demo_wallet] (demo_submitted @ [RevokeMandate ''m1'' ''u1'' (Aware 4)]))
     = (x, [], payments_after [demo_wallet] (demo_submitted @ [RevokeMandate ''m1'' ''u1'' (Aware 4)]))"
proof -
  have "payments_run [demo_wallet] (demo_submitted @ [RevokeMandate ''m1'' ''u1'' (Aware 4)])"
    using demo_submitted_run(1) by (simp add: payments.admissible_append)
  moreover have "rv_settlement_intent_id (demo_reserved\<lparr>rv_status := Submitted, rv_tx_hash := Some h\<rparr>) = st_settlement_intent_id demo_terms" for h
    by (simp add: demo_reserved_def demo_terms_def)
  ultimately show ?thesis using finished_payment_not_repeated [OF _ demo_submitted_run(2), where terms = demo_terms] by fastforce
qed

definition demo_shards :: "(string, facilitator_client) dict" where
  "demo_shards = [(''f1'', DisabledFacilitatorClient), (''f2'', DisabledFacilitatorClient\<lparr>cl_settle := Returned demo_settlement\<rparr>)]"

lemma one_shard_per_intent_witness:
  "\<exists>req ordered i client. payment_requirement demo_terms = JObj req \<and> ShardedFacilitatorClient_new (rev demo_shards) = Inr ordered
     \<and> (i, client) \<in> set demo_shards \<and> shard_for ordered req = Returned (i, client)"
proof -
  obtain req where r: "payment_requirement demo_terms = JObj req" by (simp add: payment_requirement_def)
  have s: "ShardedFacilitatorClient_new demo_shards = Inr (sort_key fst demo_shards)" "distinct (dkeys demo_shards)"
    by (simp_all add: ShardedFacilitatorClient_Inr demo_shards_def facilitator_id_ok_def is_digit_def lower_char_def)
  show ?thesis using one_shard_per_intent [OF demo_terms_valid r s, of "rev demo_shards"] r by (auto simp del: rev.simps)
qed

end
