(* ===== verification/Arena_Actions.thy ===== *)
theory Arena_Actions
  imports Arena_Contracts
begin

text \<open>
  The candidate actions of \<open>arena_agent_contracts/actions.py\<close> and \<open>market.py\<close> and the terminal result of
  \<open>results.py\<close>. The nine action classes are the constructors of one datatype, the discriminated union
  \<open>AgentDrivenMarketActionV1\<close>. A validator runs the constraints of the fields in order and then the validator
  methods of the class; a dump is what \<open>model_dump(mode="json", by_alias=True)\<close> gives with the declared aliases,
  serializers and \<open>exclude_if\<close> conditions.
\<close>

section \<open>Decimal fields\<close>

text \<open>The values that \<open>_parse_fixed_decimal\<close> returns: those it reads back from their own rendering.\<close>

definition FixedDecimal :: "decimal \<Rightarrow> bool" where
  "FixedDecimal d \<longleftrightarrow> parse_fixed_decimal (serialize_fixed_decimal d) = Inr d"

definition NonNegativeFixedDecimal_value :: "decimal \<Rightarrow> bool" where
  "NonNegativeFixedDecimal_value d \<longleftrightarrow> FixedDecimal d"

definition PositiveFixedDecimal_value :: "decimal \<Rightarrow> bool" where
  "PositiveFixedDecimal_value d \<longleftrightarrow> FixedDecimal d \<and> decimal_positive d"

definition dump_decimal :: "decimal \<Rightarrow> json" where
  "dump_decimal d = JStr (ascii (serialize_fixed_decimal d))"

definition dump_option :: "('a \<Rightarrow> json) \<Rightarrow> 'a option \<Rightarrow> json" where
  "dump_option f v = (case v of None \<Rightarrow> JNull | Some x \<Rightarrow> f x)"

definition dump_string :: "string \<Rightarrow> json" where
  "dump_string s = JStr (ascii s)"

section \<open>Actions\<close>

definition PublicMessage :: "utext \<Rightarrow> bool" where
  "PublicMessage t \<longleftrightarrow> t \<noteq> [] \<and> length t \<le> MAX_PUBLIC_MESSAGE_LENGTH"

definition MAX_OUTBOUND_RFQ_V1 :: int where "MAX_OUTBOUND_RFQ_V1 = 3"
definition MAX_RFQ_PER_ACTION_V1 :: nat where "MAX_RFQ_PER_ACTION_V1 = 1"

text \<open>The fields \<open>BuyAction\<close> and \<open>SellAction\<close> share.\<close>

record OrderFields =
  of_good :: string
  of_quantity :: int
  of_limit_price :: "decimal option"
  of_public_price :: "decimal option"
  of_message :: "utext option"

record NegotiationRequestCandidateV1 =
  nrc_target_intent_id :: string
  nrc_opening_price :: decimal
  nrc_message :: utext

datatype AgentDrivenMarketActionV1 =
    BuyAction OrderFields
  | SellAction OrderFields
  | PassAction
  | RequestNegotiationsActionV1 "NegotiationRequestCandidateV1 list"
  | EngageRequestActionV1 string
  | RejectAllRequestsActionV1 "utext option"
  | ProposeAction decimal utext
  | AcceptAction
  | RejectAction "utext option"

text \<open>The literal of the discriminator field.\<close>

fun action_name :: "AgentDrivenMarketActionV1 \<Rightarrow> string" where
  "action_name (BuyAction _) = ''buy''"
| "action_name (SellAction _) = ''sell''"
| "action_name PassAction = ''pass''"
| "action_name (RequestNegotiationsActionV1 _) = ''request_negotiations''"
| "action_name (EngageRequestActionV1 _) = ''engage''"
| "action_name (RejectAllRequestsActionV1 _) = ''reject_all''"
| "action_name (ProposeAction _ _) = ''propose''"
| "action_name AcceptAction = ''accept''"
| "action_name (RejectAction _) = ''reject''"

definition check_message :: "utext \<Rightarrow> unit result" where
  "check_message t =
     (if \<not> PublicMessage t then Inl (ValidationError ''message'')
      else if blank t then Inl (ValueError ''message must contain visible text'')
      else Inr ())"

definition check_optional_message :: "utext option \<Rightarrow> unit result" where
  "check_optional_message m = (case m of None \<Rightarrow> Inr () | Some t \<Rightarrow> check_message t)"

definition check_order :: "OrderFields \<Rightarrow> unit result" where
  "check_order f =
     (if \<not> GoodId (of_good f) then Inl (ValidationError ''good'')
      else if of_quantity f \<noteq> 1 then Inl (ValidationError ''quantity'')
      else if \<not> pred_option PositiveFixedDecimal_value (of_limit_price f) then Inl (ValidationError ''limitPrice'')
      else if \<not> pred_option PositiveFixedDecimal_value (of_public_price f) then Inl (ValidationError ''publicPrice'')
      else check_optional_message (of_message f))"

definition check_candidate :: "NegotiationRequestCandidateV1 \<Rightarrow> unit result" where
  "check_candidate c =
     (if \<not> Identifier (nrc_target_intent_id c) then Inl (ValidationError ''targetIntentId'')
      else if \<not> PositiveFixedDecimal_value (nrc_opening_price c) then Inl (ValidationError ''openingPrice'')
      else check_message (nrc_message c))"

fun action_validate :: "AgentDrivenMarketActionV1 \<Rightarrow> unit result" where
  "action_validate (BuyAction f) = check_order f"
| "action_validate (SellAction f) = check_order f"
| "action_validate PassAction = Inr ()"
| "action_validate (RequestNegotiationsActionV1 requests) =
     (if requests = [] \<or> length requests > MAX_RFQ_PER_ACTION_V1 then Inl (ValidationError ''requests'')
      else bindR (mapR check_candidate requests) (\<lambda>_.
        if \<not> distinct (map nrc_target_intent_id requests) then Inl (ValueError ''RFQ target intent IDs must be unique'')
        else Inr ()))"
| "action_validate (EngageRequestActionV1 request_id) =
     (if \<not> Identifier request_id then Inl (ValidationError ''requestId'') else Inr ())"
| "action_validate (RejectAllRequestsActionV1 message) = check_optional_message message"
| "action_validate (ProposeAction price message) =
     (if \<not> PositiveFixedDecimal_value price then Inl (ValidationError ''price'') else check_message message)"
| "action_validate AcceptAction = Inr ()"
| "action_validate (RejectAction message) = check_optional_message message"

text \<open>\<open>exclude_if\<close>: a unit quantity and absent prices and messages are left out of an order.\<close>

definition dump_present :: "string \<Rightarrow> ('a \<Rightarrow> json) \<Rightarrow> 'a option \<Rightarrow> (string \<times> json) list" where
  "dump_present k f v = (case v of None \<Rightarrow> [] | Some x \<Rightarrow> [(k, f x)])"

definition dump_order :: "string \<Rightarrow> OrderFields \<Rightarrow> json" where
  "dump_order name f =
     JObj ([(''action'', dump_string name), (''good'', dump_string (of_good f))]
       @ (if of_quantity f = 1 then [] else [(''quantity'', JInt (of_quantity f))])
       @ dump_present ''limitPrice'' dump_decimal (of_limit_price f)
       @ dump_present ''publicPrice'' dump_decimal (of_public_price f)
       @ dump_present ''message'' JStr (of_message f))"

definition dump_candidate :: "NegotiationRequestCandidateV1 \<Rightarrow> json" where
  "dump_candidate c =
     JObj [(''targetIntentId'', dump_string (nrc_target_intent_id c)), (''openingPrice'', dump_decimal (nrc_opening_price c)),
           (''message'', JStr (nrc_message c))]"

fun dump_action :: "AgentDrivenMarketActionV1 \<Rightarrow> json" where
  "dump_action (BuyAction f) = dump_order ''buy'' f"
| "dump_action (SellAction f) = dump_order ''sell'' f"
| "dump_action PassAction = JObj [(''action'', dump_string ''pass'')]"
| "dump_action (RequestNegotiationsActionV1 requests) =
     JObj [(''action'', dump_string ''request_negotiations''), (''requests'', JArr (map dump_candidate requests))]"
| "dump_action (EngageRequestActionV1 request_id) =
     JObj [(''action'', dump_string ''engage''), (''requestId'', dump_string request_id)]"
| "dump_action (RejectAllRequestsActionV1 message) =
     JObj [(''action'', dump_string ''reject_all''), (''message'', dump_option JStr message)]"
| "dump_action (ProposeAction price message) =
     JObj [(''action'', dump_string ''propose''), (''price'', dump_decimal price), (''message'', JStr message)]"
| "dump_action AcceptAction = JObj [(''action'', dump_string ''accept'')]"
| "dump_action (RejectAction message) =
     JObj [(''action'', dump_string ''reject''), (''message'', dump_option JStr message)]"

section \<open>Terminal results\<close>

definition AGENT_TASK_RESULT_SCHEMA_VERSION_V1 :: string where
  "AGENT_TASK_RESULT_SCHEMA_VERSION_V1 = ''arena.agent-result.v1''"

datatype ResultStatus = RSucceeded | RFailed | RTimedOut | RCancelled

fun ResultStatus_value :: "ResultStatus \<Rightarrow> string" where
  "ResultStatus_value RSucceeded = ''succeeded''"
| "ResultStatus_value RFailed = ''failed''"
| "ResultStatus_value RTimedOut = ''timed_out''"
| "ResultStatus_value RCancelled = ''cancelled''"

record AgentTaskResultV1 =
  re_result_id :: string
  re_task_id :: string
  re_schema_version :: string
  re_status :: ResultStatus
  re_action :: "AgentDrivenMarketActionV1 option"

definition AgentTaskResultV1_validate :: "AgentTaskResultV1 \<Rightarrow> AgentTaskResultV1 result" where
  "AgentTaskResultV1_validate r =
     (if \<not> Identifier (re_result_id r) then Inl (ValidationError ''resultId'')
      else if \<not> Identifier (re_task_id r) then Inl (ValidationError ''taskId'')
      else if re_schema_version r \<noteq> AGENT_TASK_RESULT_SCHEMA_VERSION_V1 then Inl (ValidationError ''schemaVersion'')
      else bindR (case re_action r of None \<Rightarrow> Inr () | Some a \<Rightarrow> action_validate a) (\<lambda>_.
        if re_status r = RSucceeded \<and> re_action r = None then
          Inl (ValueError ''succeeded results require one structured action'')
        else if re_status r \<noteq> RSucceeded \<and> re_action r \<noteq> None then
          Inl (ValueError (ResultStatus_value (re_status r) @ '' results must not include an action''))
        else Inr r))"

definition dump_result :: "AgentTaskResultV1 \<Rightarrow> json" where
  "dump_result r =
     JObj [(''resultId'', dump_string (re_result_id r)), (''taskId'', dump_string (re_task_id r)),
           (''schemaVersion'', dump_string (re_schema_version r)), (''status'', dump_string (ResultStatus_value (re_status r))),
           (''action'', dump_option dump_action (re_action r))]"

end
