(* ===== verification/Arena_Tasks.thy ===== *)
theory Arena_Tasks
  imports Arena_Actions Arena_Negotiation
begin

text \<open>
  \<open>arena_agent_contracts/tasks.py\<close>: the frozen views an agent decides on and the task envelope that carries
  them. Every class is a record of its fields with a validator (field constraints in order, then the
  validator methods) and a dump. A \<open>datetime\<close> is dumped as ISO 8601 in UTC.
\<close>

section \<open>Timestamps\<close>

text \<open>The proleptic Gregorian date of a day, counted from 1970-01-01.\<close>

definition civil_of_days :: "int \<Rightarrow> int \<times> int \<times> int" where
  "civil_of_days days =
     (let z = days + 719468; era = z div 146097; doe = z mod 146097;
          yoe = (doe - doe div 1460 + doe div 36524 - doe div 146096) div 365;
          doy = doe - (365 * yoe + yoe div 4 - yoe div 100);
          mp = (5 * doy + 2) div 153;
          d = doy - (153 * mp + 2) div 5 + 1;
          m = (if mp < 10 then mp + 3 else mp - 9)
      in (yoe + era * 400 + (if m \<le> 2 then 1 else 0), m, d))"

definition zero_padded :: "nat \<Rightarrow> int \<Rightarrow> string" where
  "zero_padded n i = (let d = show_nat (nat i) in replicate (n - length d) (CHR ''0'') @ d)"

definition MICROS_PER_DAY :: int where "MICROS_PER_DAY = 86400000000"

definition serialize_utc_datetime :: "datetime \<Rightarrow> string" where
  "serialize_utc_datetime t =
     (let us = instant t; (y, m, d) = civil_of_days (us div MICROS_PER_DAY); r = us mod MICROS_PER_DAY;
          secs = r div 1000000; frac = r mod 1000000
      in zero_padded 4 y @ ''-'' @ zero_padded 2 m @ ''-'' @ zero_padded 2 d @ ''T''
         @ zero_padded 2 (secs div 3600) @ '':'' @ zero_padded 2 (secs div 60 mod 60) @ '':'' @ zero_padded 2 (secs mod 60)
         @ (if frac = 0 then '''' else ''.'' @ zero_padded 6 frac) @ ''Z'')"

definition dump_datetime :: "datetime \<Rightarrow> json" where
  "dump_datetime t = dump_string (serialize_utc_datetime t)"

definition dump_dict :: "('a \<Rightarrow> json) \<Rightarrow> (string, 'a) dict \<Rightarrow> json" where
  "dump_dict f d = JObj (map (\<lambda>(k, v). (k, f v)) d)"

section \<open>Parts of the views\<close>

definition ShortText :: "utext \<Rightarrow> bool" where
  "ShortText t \<longleftrightarrow> t \<noteq> [] \<and> length t \<le> 256"

text \<open>A field constraint that fails under the name of the field.\<close>

definition field_check :: "bool \<Rightarrow> string \<Rightarrow> unit result" where
  "field_check c name = (if c then Inr () else Inl (ValidationError name))"

definition rule_check :: "bool \<Rightarrow> string \<Rightarrow> unit result" where
  "rule_check c message = (if c then Inr () else Inl (ValueError message))"

definition both :: "unit result \<Rightarrow> unit result \<Rightarrow> unit result" where
  "both a b = bindR a (\<lambda>_. b)"

fun checks :: "unit result list \<Rightarrow> unit result" where
  "checks [] = Inr ()"
| "checks (c # cs) = both c (checks cs)"

definition each :: "('a \<Rightarrow> unit result) \<Rightarrow> 'a list \<Rightarrow> unit result" where
  "each f xs = checks (map f xs)"

record ArenaPublicEventV1 =
  pe_event_id :: string
  pe_event_type :: utext
  pe_occurred_at :: datetime
  pe_summary :: utext
  pe_payload :: "(string, json) dict"

definition ArenaPublicEventV1_check :: "ArenaPublicEventV1 \<Rightarrow> unit result" where
  "ArenaPublicEventV1_check e = checks
     [field_check (Identifier (pe_event_id e)) ''eventId'', field_check (ShortText (pe_event_type e)) ''eventType'',
      field_check (is_aware (pe_occurred_at e)) ''occurredAt'', field_check (length (pe_summary e) \<le> 500) ''summary'']"

definition dump_event :: "ArenaPublicEventV1 \<Rightarrow> json" where
  "dump_event e =
     JObj [(''eventId'', dump_string (pe_event_id e)), (''eventType'', JStr (pe_event_type e)),
           (''occurredAt'', dump_datetime (pe_occurred_at e)), (''summary'', JStr (pe_summary e)), (''payload'', JObj (pe_payload e))]"

record ArenaReputationV1 =
  rep_failed_negotiations :: int

definition dump_reputation :: "ArenaReputationV1 \<Rightarrow> json" where
  "dump_reputation r = JObj [(''failedNegotiations'', JInt (rep_failed_negotiations r))]"

record ArenaGoodRuleV1 =
  gr_good :: string
  gr_fixed_quantity :: int
  gr_price_decimal_places :: int

definition ArenaGoodRuleV1_check :: "ArenaGoodRuleV1 \<Rightarrow> unit result" where
  "ArenaGoodRuleV1_check g = checks
     [field_check (GoodId (gr_good g)) ''good'', field_check (gr_fixed_quantity g > 0) ''fixedQuantity'',
      field_check (0 \<le> gr_price_decimal_places g \<and> gr_price_decimal_places g \<le> 18) ''priceDecimalPlaces'']"

definition dump_good_rule :: "ArenaGoodRuleV1 \<Rightarrow> json" where
  "dump_good_rule g =
     JObj [(''good'', dump_string (gr_good g)), (''fixedQuantity'', JInt (gr_fixed_quantity g)),
           (''priceDecimalPlaces'', JInt (gr_price_decimal_places g))]"

record ArenaMarketActivityV1 =
  ma_good :: string
  ma_last_clearing_price :: "decimal option"
  ma_volume :: int
  ma_buy_pressure_bps :: int
  ma_spread_bps :: "int option"

definition ArenaMarketActivityV1_check :: "ArenaMarketActivityV1 \<Rightarrow> unit result" where
  "ArenaMarketActivityV1_check a = checks
     [field_check (GoodId (ma_good a)) ''good'',
      field_check (pred_option NonNegativeFixedDecimal_value (ma_last_clearing_price a)) ''lastClearingPrice'',
      field_check (ma_volume a \<ge> 0) ''volume'',
      field_check (- 10000 \<le> ma_buy_pressure_bps a \<and> ma_buy_pressure_bps a \<le> 10000) ''buyPressureBps'',
      field_check (pred_option (\<lambda>s. s \<ge> 0) (ma_spread_bps a)) ''spreadBps'']"

definition dump_activity :: "ArenaMarketActivityV1 \<Rightarrow> json" where
  "dump_activity a =
     JObj [(''good'', dump_string (ma_good a)), (''lastClearingPrice'', dump_option dump_decimal (ma_last_clearing_price a)),
           (''volume'', JInt (ma_volume a)), (''buyPressureBps'', JInt (ma_buy_pressure_bps a)),
           (''spreadBps'', dump_option JInt (ma_spread_bps a))]"

record ArenaGoodLiquiditySummaryV1 =
  gl_buy_intent_count :: int
  gl_sell_intent_count :: int
  gl_opposite_side_capacity :: int
  gl_price_compatible_capacity :: int

definition ArenaGoodLiquiditySummaryV1_check :: "ArenaGoodLiquiditySummaryV1 \<Rightarrow> unit result" where
  "ArenaGoodLiquiditySummaryV1_check g = checks
     [field_check (gl_buy_intent_count g \<ge> 0) ''buyIntentCount'', field_check (gl_sell_intent_count g \<ge> 0) ''sellIntentCount'',
      field_check (gl_opposite_side_capacity g \<ge> 0) ''oppositeSideCapacity'',
      field_check (gl_price_compatible_capacity g \<ge> 0) ''priceCompatibleCapacity'']"

definition dump_good_liquidity :: "ArenaGoodLiquiditySummaryV1 \<Rightarrow> json" where
  "dump_good_liquidity g =
     JObj [(''buyIntentCount'', JInt (gl_buy_intent_count g)), (''sellIntentCount'', JInt (gl_sell_intent_count g)),
           (''oppositeSideCapacity'', JInt (gl_opposite_side_capacity g)),
           (''priceCompatibleCapacity'', JInt (gl_price_compatible_capacity g))]"

record ArenaRoundLiquidityV1 =
  rl_schema_version :: string
  rl_round_id :: string
  rl_round_index :: int
  rl_participant_count :: int
  rl_intent_count :: int
  rl_pass_count :: int
  rl_opposite_side_capacity :: int
  rl_price_compatible_capacity :: int
  rl_price_compatibility_gap :: int
  rl_minimum_unmatched_intent_count :: int
  rl_by_good :: "(string, ArenaGoodLiquiditySummaryV1) dict"

definition validate_totals :: "ArenaRoundLiquidityV1 \<Rightarrow> unit result" where
  "validate_totals l = checks
     [rule_check (rl_intent_count l + rl_pass_count l = rl_participant_count l)
        ''intentCount plus passCount must equal participantCount'',
      rule_check (rl_price_compatible_capacity l \<le> rl_opposite_side_capacity l)
        ''priceCompatibleCapacity cannot exceed oppositeSideCapacity'',
      rule_check (rl_price_compatibility_gap l = rl_opposite_side_capacity l - rl_price_compatible_capacity l)
        ''priceCompatibilityGap is inconsistent'',
      rule_check (rl_minimum_unmatched_intent_count l = rl_intent_count l - 2 * rl_price_compatible_capacity l)
        ''minimumUnmatchedIntentCount is inconsistent'']"

definition ArenaRoundLiquidityV1_check :: "ArenaRoundLiquidityV1 \<Rightarrow> unit result" where
  "ArenaRoundLiquidityV1_check l = checks
     [field_check (rl_schema_version l = ''arena.market-liquidity.v1'') ''schemaVersion'',
      field_check (Identifier (rl_round_id l)) ''roundId'', field_check (rl_round_index l > 0) ''roundIndex'',
      field_check (rl_participant_count l \<ge> 0) ''participantCount'', field_check (rl_intent_count l \<ge> 0) ''intentCount'',
      field_check (rl_pass_count l \<ge> 0) ''passCount'', field_check (rl_opposite_side_capacity l \<ge> 0) ''oppositeSideCapacity'',
      field_check (rl_price_compatible_capacity l \<ge> 0) ''priceCompatibleCapacity'',
      field_check (rl_price_compatibility_gap l \<ge> 0) ''priceCompatibilityGap'',
      field_check (rl_minimum_unmatched_intent_count l \<ge> 0) ''minimumUnmatchedIntentCount'',
      each (\<lambda>(g, s). both (field_check (GoodId g) ''byGood'') (ArenaGoodLiquiditySummaryV1_check s)) (rl_by_good l),
      validate_totals l]"

definition dump_liquidity :: "ArenaRoundLiquidityV1 \<Rightarrow> json" where
  "dump_liquidity l =
     JObj [(''schemaVersion'', dump_string (rl_schema_version l)), (''roundId'', dump_string (rl_round_id l)),
           (''roundIndex'', JInt (rl_round_index l)), (''participantCount'', JInt (rl_participant_count l)),
           (''intentCount'', JInt (rl_intent_count l)), (''passCount'', JInt (rl_pass_count l)),
           (''oppositeSideCapacity'', JInt (rl_opposite_side_capacity l)),
           (''priceCompatibleCapacity'', JInt (rl_price_compatible_capacity l)),
           (''priceCompatibilityGap'', JInt (rl_price_compatibility_gap l)),
           (''minimumUnmatchedIntentCount'', JInt (rl_minimum_unmatched_intent_count l)),
           (''byGood'', dump_dict dump_good_liquidity (rl_by_good l))]"

datatype AllowedDecideAction = AllowBuy | AllowSell | AllowPass

fun AllowedDecideAction_value :: "AllowedDecideAction \<Rightarrow> string" where
  "AllowedDecideAction_value AllowBuy = ''buy''"
| "AllowedDecideAction_value AllowSell = ''sell''"
| "AllowedDecideAction_value AllowPass = ''pass''"

record ArenaDecideLimitsV1 =
  dl_allowed_actions :: "AllowedDecideAction list"
  dl_allowed_goods :: "string list"

definition ArenaDecideLimitsV1_check :: "ArenaDecideLimitsV1 \<Rightarrow> unit result" where
  "ArenaDecideLimitsV1_check l = checks
     [field_check (list_all GoodId (dl_allowed_goods l)) ''allowedGoods'',
      rule_check (distinct (dl_allowed_actions l)) ''allowedActions must not contain duplicates'',
      rule_check (distinct (dl_allowed_goods l)) ''allowedGoods must not contain duplicates'']"

definition dump_limits :: "ArenaDecideLimitsV1 \<Rightarrow> json" where
  "dump_limits l =
     JObj [(''allowedActions'', JArr (map (\<lambda>a. dump_string (AllowedDecideAction_value a)) (dl_allowed_actions l))),
           (''allowedGoods'', JArr (map dump_string (dl_allowed_goods l)))]"

record ArenaCompletedActionV1 =
  ca_round_id :: string
  ca_action :: AgentDrivenMarketActionV1

fun is_decide_action :: "AgentDrivenMarketActionV1 \<Rightarrow> bool" where
  "is_decide_action (BuyAction _) = True"
| "is_decide_action (SellAction _) = True"
| "is_decide_action PassAction = True"
| "is_decide_action _ = False"

definition ArenaCompletedActionV1_check :: "ArenaCompletedActionV1 \<Rightarrow> unit result" where
  "ArenaCompletedActionV1_check c = checks
     [field_check (Identifier (ca_round_id c)) ''roundId'', field_check (is_decide_action (ca_action c)) ''action'',
      action_validate (ca_action c)]"

definition dump_completed :: "ArenaCompletedActionV1 \<Rightarrow> json" where
  "dump_completed c = JObj [(''roundId'', dump_string (ca_round_id c)), (''action'', dump_action (ca_action c))]"

fun role_value :: "NegotiationRole \<Rightarrow> string" where
  "role_value Buyer = ''buyer''"
| "role_value Seller = ''seller''"

record ArenaTradeSummaryV1 =
  ts_round_id :: string
  ts_negotiation_id :: string
  ts_role :: NegotiationRole
  ts_good :: string
  ts_quantity :: int
  ts_price :: decimal

definition ArenaTradeSummaryV1_check :: "ArenaTradeSummaryV1 \<Rightarrow> unit result" where
  "ArenaTradeSummaryV1_check t = checks
     [field_check (Identifier (ts_round_id t)) ''roundId'', field_check (Identifier (ts_negotiation_id t)) ''negotiationId'',
      field_check (GoodId (ts_good t)) ''good'', field_check (ts_quantity t > 0) ''quantity'',
      field_check (PositiveFixedDecimal_value (ts_price t)) ''price'']"

definition dump_trade :: "ArenaTradeSummaryV1 \<Rightarrow> json" where
  "dump_trade t =
     JObj [(''roundId'', dump_string (ts_round_id t)), (''negotiationId'', dump_string (ts_negotiation_id t)),
           (''role'', dump_string (role_value (ts_role t))), (''good'', dump_string (ts_good t)),
           (''quantity'', JInt (ts_quantity t)), (''price'', dump_decimal (ts_price t))]"

section \<open>The views\<close>

text \<open>The checks of the round counters, which four validators repeat.\<close>

definition check_rounds :: "int \<Rightarrow> int option \<Rightarrow> int option \<Rightarrow> unit result" where
  "check_rounds round_index round_count rounds_remaining = checks
     [rule_check ((round_count = None) = (rounds_remaining = None)) ''roundCount and roundsRemaining must be provided together'',
      (case round_count of None \<Rightarrow> Inr ()
       | Some n \<Rightarrow> both (rule_check (round_index \<le> n) ''roundIndex cannot exceed roundCount'')
                         (rule_check (rounds_remaining = Some (n - round_index)) ''roundsRemaining is inconsistent''))]"

record ArenaDecideInputV1 =
  di_phase :: string
  di_game_id :: string
  di_round_id :: string
  di_round_index :: int
  di_round_count :: "int option"
  di_rounds_remaining :: "int option"
  di_cash :: decimal
  di_holdings :: "(string, int) dict"
  di_market :: "(string, decimal) dict"
  di_event_implied_final :: "(string, decimal) dict"
  di_events :: "ArenaPublicEventV1 list"
  di_reputation :: ArenaReputationV1
  di_limits :: ArenaDecideLimitsV1
  di_completed_actions :: "ArenaCompletedActionV1 list"
  di_completed_trades :: "ArenaTradeSummaryV1 list"
  di_goods :: "ArenaGoodRuleV1 list"
  di_market_activity :: "ArenaMarketActivityV1 list"
  di_previous_round_liquidity :: "ArenaRoundLiquidityV1 option"
  di_deadline_at :: datetime

definition check_round_fields :: "string \<Rightarrow> string \<Rightarrow> int \<Rightarrow> int option \<Rightarrow> int option \<Rightarrow> unit result" where
  "check_round_fields game_id round_id round_index round_count rounds_remaining = checks
     [field_check (Identifier game_id) ''gameId'', field_check (Identifier round_id) ''roundId'',
      field_check (round_index > 0) ''roundIndex'', field_check (pred_option (\<lambda>n. n > 0) round_count) ''roundCount'',
      field_check (pred_option (\<lambda>n. n \<ge> 0) rounds_remaining) ''roundsRemaining'']"

definition check_table :: "('a \<Rightarrow> bool) \<Rightarrow> string \<Rightarrow> (string, 'a) dict \<Rightarrow> unit result" where
  "check_table P name d = field_check (list_all (\<lambda>(g, v). GoodId g \<and> P v) d) name"

definition decide_fields :: "string \<Rightarrow> 'a ArenaDecideInputV1_scheme \<Rightarrow> unit result" where
  "decide_fields phase i = checks
     [field_check (di_phase i = phase) ''phase'',
      check_round_fields (di_game_id i) (di_round_id i) (di_round_index i) (di_round_count i) (di_rounds_remaining i),
      field_check (NonNegativeFixedDecimal_value (di_cash i)) ''cash'',
      check_table (\<lambda>n. n \<ge> 0) ''holdings'' (di_holdings i), check_table NonNegativeFixedDecimal_value ''market'' (di_market i),
      check_table NonNegativeFixedDecimal_value ''eventImpliedFinal'' (di_event_implied_final i),
      each ArenaPublicEventV1_check (di_events i),
      field_check (rep_failed_negotiations (di_reputation i) \<ge> 0) ''reputation'',
      ArenaDecideLimitsV1_check (di_limits i), each ArenaCompletedActionV1_check (di_completed_actions i),
      each ArenaTradeSummaryV1_check (di_completed_trades i), each ArenaGoodRuleV1_check (di_goods i),
      each ArenaMarketActivityV1_check (di_market_activity i),
      (case di_previous_round_liquidity i of None \<Rightarrow> Inr () | Some l \<Rightarrow> ArenaRoundLiquidityV1_check l),
      field_check (is_aware (di_deadline_at i)) ''deadlineAt'']"

definition reject_duplicate_good_rules :: "'a ArenaDecideInputV1_scheme \<Rightarrow> unit result" where
  "reject_duplicate_good_rules i = checks
     [rule_check (distinct (map gr_good (di_goods i))) ''goods must not contain duplicate good identifiers'',
      rule_check (di_event_implied_final i = [] \<or> set (dkeys (di_event_implied_final i)) = set (dkeys (di_market i)))
        ''eventImpliedFinal must cover the same goods as market'',
      check_rounds (di_round_index i) (di_round_count i) (di_rounds_remaining i),
      (case di_previous_round_liquidity i of None \<Rightarrow> Inr ()
       | Some l \<Rightarrow> rule_check (rl_round_index l = di_round_index i - 1) ''previousRoundLiquidity must describe the prior round'')]"

definition ArenaDecideInputV1_check :: "ArenaDecideInputV1 \<Rightarrow> unit result" where
  "ArenaDecideInputV1_check i = both (decide_fields ''decide'' i) (reject_duplicate_good_rules i)"

definition decide_members :: "'a ArenaDecideInputV1_scheme \<Rightarrow> (string \<times> json) list" where
  "decide_members i =
     [(''phase'', dump_string (di_phase i)), (''gameId'', dump_string (di_game_id i)), (''roundId'', dump_string (di_round_id i)),
      (''roundIndex'', JInt (di_round_index i)), (''roundCount'', dump_option JInt (di_round_count i)),
      (''roundsRemaining'', dump_option JInt (di_rounds_remaining i)), (''cash'', dump_decimal (di_cash i)),
      (''holdings'', dump_dict JInt (di_holdings i)), (''market'', dump_dict dump_decimal (di_market i)),
      (''eventImpliedFinal'', dump_dict dump_decimal (di_event_implied_final i)), (''events'', JArr (map dump_event (di_events i))),
      (''reputation'', dump_reputation (di_reputation i)), (''limits'', dump_limits (di_limits i)),
      (''completedActions'', JArr (map dump_completed (di_completed_actions i))),
      (''completedTrades'', JArr (map dump_trade (di_completed_trades i))), (''goods'', JArr (map dump_good_rule (di_goods i))),
      (''marketActivity'', JArr (map dump_activity (di_market_activity i))),
      (''previousRoundLiquidity'', dump_option dump_liquidity (di_previous_round_liquidity i)),
      (''deadlineAt'', dump_datetime (di_deadline_at i))]"

record ArenaPublicCounterpartyV1 =
  pc_agent_id :: "string option"
  pc_display_name :: "utext option"
  pc_failed_negotiations :: int

definition ArenaPublicCounterpartyV1_check :: "ArenaPublicCounterpartyV1 \<Rightarrow> unit result" where
  "ArenaPublicCounterpartyV1_check c = checks
     [field_check (pred_option Identifier (pc_agent_id c)) ''agentId'',
      field_check (pred_option (\<lambda>n. n \<noteq> [] \<and> length n \<le> 128) (pc_display_name c)) ''displayName'',
      field_check (pc_failed_negotiations c \<ge> 0) ''failedNegotiations'']"

definition dump_counterparty :: "ArenaPublicCounterpartyV1 \<Rightarrow> json" where
  "dump_counterparty c =
     JObj [(''agentId'', dump_option dump_string (pc_agent_id c)), (''displayName'', dump_option JStr (pc_display_name c)),
           (''failedNegotiations'', JInt (pc_failed_negotiations c))]"

fun kind_value :: "NegotiationActionKind \<Rightarrow> string" where
  "kind_value Propose = ''propose''"
| "kind_value Accept = ''accept''"
| "kind_value Reject = ''reject''"

record ArenaNegotiationMessageV1 =
  nm_turn_sequence :: int
  nm_from_role :: NegotiationRole
  nm_action :: NegotiationActionKind
  nm_price :: "decimal option"
  nm_message :: "utext option"

definition enforce_action_shape :: "ArenaNegotiationMessageV1 \<Rightarrow> unit result" where
  "enforce_action_shape m = checks
     [rule_check (nm_action m = Propose \<longrightarrow> nm_price m \<noteq> None) ''propose history entries require price'',
      rule_check (nm_action m \<noteq> Propose \<longrightarrow> nm_price m = None) (kind_value (nm_action m) @ '' history entries must not include price''),
      rule_check (nm_action m = Accept \<longrightarrow> nm_message m = None) ''accept history entries must not include message'',
      rule_check (pred_option (\<lambda>t. \<not> blank t) (nm_message m)) ''message must contain visible text'']"

definition ArenaNegotiationMessageV1_check :: "ArenaNegotiationMessageV1 \<Rightarrow> unit result" where
  "ArenaNegotiationMessageV1_check m = checks
     [field_check (nm_turn_sequence m > 0) ''turnSequence'', field_check (pred_option PositiveFixedDecimal_value (nm_price m)) ''price'',
      field_check (pred_option PublicMessage (nm_message m)) ''message'', enforce_action_shape m]"

definition dump_negotiation_message :: "ArenaNegotiationMessageV1 \<Rightarrow> json" where
  "dump_negotiation_message m =
     JObj [(''turnSequence'', JInt (nm_turn_sequence m)), (''from'', dump_string (role_value (nm_from_role m))),
           (''action'', dump_string (kind_value (nm_action m))), (''price'', dump_option dump_decimal (nm_price m)),
           (''message'', dump_option JStr (nm_message m))]"

record ArenaCounterpartyQuoteV1 =
  cq_turn_sequence :: int
  cq_from_role :: NegotiationRole
  cq_price :: decimal

definition ArenaCounterpartyQuoteV1_check :: "ArenaCounterpartyQuoteV1 \<Rightarrow> unit result" where
  "ArenaCounterpartyQuoteV1_check q = checks
     [field_check (cq_turn_sequence q > 0) ''turnSequence'', field_check (PositiveFixedDecimal_value (cq_price q)) ''price'']"

definition dump_quote :: "ArenaCounterpartyQuoteV1 \<Rightarrow> json" where
  "dump_quote q =
     JObj [(''turnSequence'', JInt (cq_turn_sequence q)), (''from'', dump_string (role_value (cq_from_role q))),
           (''price'', dump_decimal (cq_price q))]"

record ArenaNegotiateInputV1 =
  ni_phase :: string
  ni_game_id :: string
  ni_round_id :: string
  ni_round_index :: int
  ni_round_count :: "int option"
  ni_rounds_remaining :: "int option"
  ni_negotiation_id :: string
  ni_role :: NegotiationRole
  ni_good :: string
  ni_quantity :: int
  ni_limit_price :: "decimal option"
  ni_cash :: decimal
  ni_inventory_available :: int
  ni_counterparty :: ArenaPublicCounterpartyV1
  ni_events :: "ArenaPublicEventV1 list"
  ni_history :: "ArenaNegotiationMessageV1 list"
  ni_latest_counterparty_quote :: "ArenaCounterpartyQuoteV1 option"
  ni_turn_sequence :: int
  ni_remaining_turns :: int
  ni_deadline_at :: datetime

definition validate_turn_context :: "ArenaNegotiateInputV1 \<Rightarrow> unit result" where
  "validate_turn_context i = checks
     [check_rounds (ni_round_index i) (ni_round_count i) (ni_rounds_remaining i),
      (case ni_latest_counterparty_quote i of None \<Rightarrow> Inr ()
       | Some q \<Rightarrow> both (rule_check (cq_from_role q \<noteq> ni_role i) ''latestCounterpartyQuote must come from the counterparty'')
                          (rule_check (cq_turn_sequence q < ni_turn_sequence i) ''latestCounterpartyQuote must precede the current turnSequence''))]"

definition ArenaNegotiateInputV1_check :: "ArenaNegotiateInputV1 \<Rightarrow> unit result" where
  "ArenaNegotiateInputV1_check i = checks
     [field_check (ni_phase i = ''negotiate'') ''phase'',
      check_round_fields (ni_game_id i) (ni_round_id i) (ni_round_index i) (ni_round_count i) (ni_rounds_remaining i),
      field_check (Identifier (ni_negotiation_id i)) ''negotiationId'', field_check (GoodId (ni_good i)) ''good'',
      field_check (ni_quantity i > 0) ''quantity'', field_check (pred_option PositiveFixedDecimal_value (ni_limit_price i)) ''limitPrice'',
      field_check (NonNegativeFixedDecimal_value (ni_cash i)) ''cash'', field_check (ni_inventory_available i \<ge> 0) ''inventoryAvailable'',
      ArenaPublicCounterpartyV1_check (ni_counterparty i), each ArenaPublicEventV1_check (ni_events i),
      each ArenaNegotiationMessageV1_check (ni_history i),
      (case ni_latest_counterparty_quote i of None \<Rightarrow> Inr () | Some q \<Rightarrow> ArenaCounterpartyQuoteV1_check q),
      field_check (ni_turn_sequence i > 0) ''turnSequence'', field_check (ni_remaining_turns i \<ge> 0) ''remainingTurns'',
      field_check (is_aware (ni_deadline_at i)) ''deadlineAt'', validate_turn_context i]"

definition dump_negotiate :: "ArenaNegotiateInputV1 \<Rightarrow> json" where
  "dump_negotiate i =
     JObj [(''phase'', dump_string (ni_phase i)), (''gameId'', dump_string (ni_game_id i)), (''roundId'', dump_string (ni_round_id i)),
      (''roundIndex'', JInt (ni_round_index i)), (''roundCount'', dump_option JInt (ni_round_count i)),
      (''roundsRemaining'', dump_option JInt (ni_rounds_remaining i)), (''negotiationId'', dump_string (ni_negotiation_id i)),
      (''role'', dump_string (role_value (ni_role i))), (''good'', dump_string (ni_good i)), (''quantity'', JInt (ni_quantity i)),
      (''limitPrice'', dump_option dump_decimal (ni_limit_price i)), (''cash'', dump_decimal (ni_cash i)),
      (''inventoryAvailable'', JInt (ni_inventory_available i)), (''counterparty'', dump_counterparty (ni_counterparty i)),
      (''events'', JArr (map dump_event (ni_events i))), (''history'', JArr (map dump_negotiation_message (ni_history i))),
      (''latestCounterpartyQuote'', dump_option dump_quote (ni_latest_counterparty_quote i)),
      (''turnSequence'', JInt (ni_turn_sequence i)), (''remainingTurns'', JInt (ni_remaining_turns i)),
      (''deadlineAt'', dump_datetime (ni_deadline_at i))]"

record ArenaMarketIntentInputV1 = ArenaDecideInputV1 +
  mi_market_protocol :: string
  mi_market_expires_at :: datetime

definition MARKET_PROTOCOL :: string where "MARKET_PROTOCOL = ''agent_a2a.v1''"

definition ArenaMarketIntentInputV1_check :: "ArenaMarketIntentInputV1 \<Rightarrow> unit result" where
  "ArenaMarketIntentInputV1_check i = checks
     [decide_fields ''market_intent'' i, field_check (mi_market_protocol i = MARKET_PROTOCOL) ''marketProtocol'',
      field_check (is_aware (mi_market_expires_at i)) ''marketExpiresAt'', reject_duplicate_good_rules i,
      rule_check (instant (mi_market_expires_at i) > instant (di_deadline_at i)) ''marketExpiresAt must outlive the intent task deadline'']"

record ArenaMarketDirectoryEntryV1 =
  me_intent_id :: string
  me_agent_id :: string
  me_display_name :: utext
  me_good :: string
  me_quantity :: int
  me_public_price :: decimal
  me_failed_negotiations :: int
  me_expires_at :: datetime

definition ArenaMarketDirectoryEntryV1_check :: "ArenaMarketDirectoryEntryV1 \<Rightarrow> unit result" where
  "ArenaMarketDirectoryEntryV1_check e = checks
     [field_check (Identifier (me_intent_id e)) ''intentId'', field_check (Identifier (me_agent_id e)) ''agentId'',
      field_check (me_display_name e \<noteq> [] \<and> length (me_display_name e) \<le> 100) ''displayName'',
      rule_check (\<not> blank (me_display_name e)) ''displayName must contain visible text'',
      field_check (GoodId (me_good e)) ''good'', field_check (me_quantity e = 1) ''quantity'',
      field_check (PositiveFixedDecimal_value (me_public_price e)) ''publicPrice'',
      field_check (me_failed_negotiations e \<ge> 0) ''failedNegotiations'', field_check (is_aware (me_expires_at e)) ''expiresAt'']"

definition dump_directory_entry :: "ArenaMarketDirectoryEntryV1 \<Rightarrow> json" where
  "dump_directory_entry e =
     JObj [(''intentId'', dump_string (me_intent_id e)), (''agentId'', dump_string (me_agent_id e)),
           (''displayName'', JStr (me_display_name e)), (''good'', dump_string (me_good e)), (''quantity'', JInt (me_quantity e)),
           (''publicPrice'', dump_decimal (me_public_price e)), (''failedNegotiations'', JInt (me_failed_negotiations e)),
           (''expiresAt'', dump_datetime (me_expires_at e))]"

datatype PriorStatus = PriorRejected | PriorCounterpartyBusy | PriorExpired | PriorCancelled | PriorTimedOut

fun PriorStatus_value :: "PriorStatus \<Rightarrow> string" where
  "PriorStatus_value PriorRejected = ''rejected''"
| "PriorStatus_value PriorCounterpartyBusy = ''counterparty_busy''"
| "PriorStatus_value PriorExpired = ''expired''"
| "PriorStatus_value PriorCancelled = ''cancelled''"
| "PriorStatus_value PriorTimedOut = ''timed_out''"

record ArenaPriorRfqAttemptV1 =
  pa_attempt_sequence :: int
  pa_target_intent_id :: string
  pa_status :: PriorStatus

definition ArenaPriorRfqAttemptV1_check :: "ArenaPriorRfqAttemptV1 \<Rightarrow> unit result" where
  "ArenaPriorRfqAttemptV1_check a = checks
     [field_check (1 \<le> pa_attempt_sequence a \<and> pa_attempt_sequence a \<le> 3) ''attemptSequence'',
      field_check (Identifier (pa_target_intent_id a)) ''targetIntentId'']"

definition dump_prior :: "ArenaPriorRfqAttemptV1 \<Rightarrow> json" where
  "dump_prior a =
     JObj [(''attemptSequence'', JInt (pa_attempt_sequence a)), (''targetIntentId'', dump_string (pa_target_intent_id a)),
           (''status'', dump_string (PriorStatus_value (pa_status a)))]"

record ArenaMarketRfqInputV1 =
  ri_phase :: string
  ri_market_protocol :: string
  ri_game_id :: string
  ri_round_id :: string
  ri_round_index :: int
  ri_round_count :: "int option"
  ri_rounds_remaining :: "int option"
  ri_buyer_intent_id :: string
  ri_good :: string
  ri_quantity :: int
  ri_public_price :: decimal
  ri_limit_price :: decimal
  ri_cash :: decimal
  ri_directory :: "ArenaMarketDirectoryEntryV1 list"
  ri_max_outbound_rfq :: int
  ri_attempt_sequence :: int
  ri_remaining_rfq_attempts :: int
  ri_prior_attempts :: "ArenaPriorRfqAttemptV1 list"
  ri_events :: "ArenaPublicEventV1 list"
  ri_deadline_at :: datetime

definition validate_directory :: "ArenaMarketRfqInputV1 \<Rightarrow> unit result" where
  "validate_directory i =
     (let intent_ids = map me_intent_id (ri_directory i) in checks
     [check_rounds (ri_round_index i) (ri_round_count i) (ri_rounds_remaining i),
      rule_check (distinct intent_ids) ''directory must not contain duplicate intent IDs'',
      rule_check (list_all (\<lambda>e. me_good e = ri_good i) (ri_directory i)) ''directory entries must match the buyer good'',
      rule_check (ri_remaining_rfq_attempts i = 4 - ri_attempt_sequence i) ''remainingRfqAttempts must include the current bounded attempt'',
      rule_check (int (length (ri_prior_attempts i)) = ri_attempt_sequence i - 1) ''priorAttempts must cover every earlier RFQ attempt'',
      rule_check (map pa_attempt_sequence (ri_prior_attempts i) = [1..ri_attempt_sequence i - 1]) ''priorAttempts must be ordered and contiguous'',
      rule_check (list_all (\<lambda>a. pa_target_intent_id a \<notin> set intent_ids) (ri_prior_attempts i))
        ''directory must contain only unattempted frozen targets''])"

definition ArenaMarketRfqInputV1_check :: "ArenaMarketRfqInputV1 \<Rightarrow> unit result" where
  "ArenaMarketRfqInputV1_check i = checks
     [field_check (ri_phase i = ''market_rfq'') ''phase'', field_check (ri_market_protocol i = MARKET_PROTOCOL) ''marketProtocol'',
      check_round_fields (ri_game_id i) (ri_round_id i) (ri_round_index i) (ri_round_count i) (ri_rounds_remaining i),
      field_check (Identifier (ri_buyer_intent_id i)) ''buyerIntentId'', field_check (GoodId (ri_good i)) ''good'',
      field_check (ri_quantity i = 1) ''quantity'', field_check (PositiveFixedDecimal_value (ri_public_price i)) ''publicPrice'',
      field_check (PositiveFixedDecimal_value (ri_limit_price i)) ''limitPrice'', field_check (NonNegativeFixedDecimal_value (ri_cash i)) ''cash'',
      each ArenaMarketDirectoryEntryV1_check (ri_directory i),
      field_check (1 \<le> ri_max_outbound_rfq i \<and> ri_max_outbound_rfq i \<le> 3) ''maxOutboundRfq'',
      field_check (1 \<le> ri_attempt_sequence i \<and> ri_attempt_sequence i \<le> 3) ''attemptSequence'',
      field_check (1 \<le> ri_remaining_rfq_attempts i \<and> ri_remaining_rfq_attempts i \<le> 3) ''remainingRfqAttempts'',
      each ArenaPriorRfqAttemptV1_check (ri_prior_attempts i), each ArenaPublicEventV1_check (ri_events i),
      field_check (is_aware (ri_deadline_at i)) ''deadlineAt'', validate_directory i]"

definition dump_rfq :: "ArenaMarketRfqInputV1 \<Rightarrow> json" where
  "dump_rfq i =
     JObj [(''phase'', dump_string (ri_phase i)), (''marketProtocol'', dump_string (ri_market_protocol i)),
      (''gameId'', dump_string (ri_game_id i)), (''roundId'', dump_string (ri_round_id i)),
      (''roundIndex'', JInt (ri_round_index i)), (''roundCount'', dump_option JInt (ri_round_count i)),
      (''roundsRemaining'', dump_option JInt (ri_rounds_remaining i)), (''buyerIntentId'', dump_string (ri_buyer_intent_id i)),
      (''good'', dump_string (ri_good i)), (''quantity'', JInt (ri_quantity i)), (''publicPrice'', dump_decimal (ri_public_price i)),
      (''limitPrice'', dump_decimal (ri_limit_price i)), (''cash'', dump_decimal (ri_cash i)),
      (''directory'', JArr (map dump_directory_entry (ri_directory i))), (''maxOutboundRfq'', JInt (ri_max_outbound_rfq i)),
      (''attemptSequence'', JInt (ri_attempt_sequence i)), (''remainingRfqAttempts'', JInt (ri_remaining_rfq_attempts i)),
      (''priorAttempts'', JArr (map dump_prior (ri_prior_attempts i))), (''events'', JArr (map dump_event (ri_events i))),
      (''deadlineAt'', dump_datetime (ri_deadline_at i))]"

record ArenaInboundRfqV1 =
  ib_request_id :: string
  ib_buyer_agent_id :: string
  ib_buyer_display_name :: utext
  ib_opening_price :: decimal
  ib_message :: utext
  ib_received_at :: datetime

definition ArenaInboundRfqV1_check :: "ArenaInboundRfqV1 \<Rightarrow> unit result" where
  "ArenaInboundRfqV1_check r = checks
     [field_check (Identifier (ib_request_id r)) ''requestId'', field_check (Identifier (ib_buyer_agent_id r)) ''buyerAgentId'',
      field_check (ib_buyer_display_name r \<noteq> [] \<and> length (ib_buyer_display_name r) \<le> 100) ''buyerDisplayName'',
      rule_check (\<not> blank (ib_buyer_display_name r)) ''public text must contain visible characters'',
      field_check (PositiveFixedDecimal_value (ib_opening_price r)) ''openingPrice'', field_check (PublicMessage (ib_message r)) ''message'',
      rule_check (\<not> blank (ib_message r)) ''public text must contain visible characters'',
      field_check (is_aware (ib_received_at r)) ''receivedAt'']"

definition dump_inbound :: "ArenaInboundRfqV1 \<Rightarrow> json" where
  "dump_inbound r =
     JObj [(''requestId'', dump_string (ib_request_id r)), (''buyerAgentId'', dump_string (ib_buyer_agent_id r)),
           (''buyerDisplayName'', JStr (ib_buyer_display_name r)), (''openingPrice'', dump_decimal (ib_opening_price r)),
           (''message'', JStr (ib_message r)), (''receivedAt'', dump_datetime (ib_received_at r))]"

record ArenaMarketSelectInputV1 =
  sel_phase :: string
  sel_market_protocol :: string
  sel_game_id :: string
  sel_round_id :: string
  sel_round_index :: int
  sel_round_count :: "int option"
  sel_rounds_remaining :: "int option"
  sel_seller_intent_id :: string
  sel_good :: string
  sel_quantity :: int
  sel_public_price :: decimal
  sel_limit_price :: decimal
  sel_inventory_available :: int
  sel_requests :: "ArenaInboundRfqV1 list"
  sel_max_engagements :: int
  sel_events :: "ArenaPublicEventV1 list"
  sel_deadline_at :: datetime

definition validate_requests :: "ArenaMarketSelectInputV1 \<Rightarrow> unit result" where
  "validate_requests i = checks
     [check_rounds (sel_round_index i) (sel_round_count i) (sel_rounds_remaining i),
      rule_check (distinct (map ib_request_id (sel_requests i))) ''requests must not contain duplicate request IDs'']"

definition ArenaMarketSelectInputV1_check :: "ArenaMarketSelectInputV1 \<Rightarrow> unit result" where
  "ArenaMarketSelectInputV1_check i = checks
     [field_check (sel_phase i = ''market_select'') ''phase'', field_check (sel_market_protocol i = MARKET_PROTOCOL) ''marketProtocol'',
      check_round_fields (sel_game_id i) (sel_round_id i) (sel_round_index i) (sel_round_count i) (sel_rounds_remaining i),
      field_check (Identifier (sel_seller_intent_id i)) ''sellerIntentId'', field_check (GoodId (sel_good i)) ''good'',
      field_check (sel_quantity i = 1) ''quantity'', field_check (PositiveFixedDecimal_value (sel_public_price i)) ''publicPrice'',
      field_check (PositiveFixedDecimal_value (sel_limit_price i)) ''limitPrice'', field_check (sel_inventory_available i \<ge> 0) ''inventoryAvailable'',
      each ArenaInboundRfqV1_check (sel_requests i), field_check (sel_max_engagements i = 1) ''maxEngagements'',
      each ArenaPublicEventV1_check (sel_events i), field_check (is_aware (sel_deadline_at i)) ''deadlineAt'', validate_requests i]"

definition dump_select :: "ArenaMarketSelectInputV1 \<Rightarrow> json" where
  "dump_select i =
     JObj [(''phase'', dump_string (sel_phase i)), (''marketProtocol'', dump_string (sel_market_protocol i)),
      (''gameId'', dump_string (sel_game_id i)), (''roundId'', dump_string (sel_round_id i)),
      (''roundIndex'', JInt (sel_round_index i)), (''roundCount'', dump_option JInt (sel_round_count i)),
      (''roundsRemaining'', dump_option JInt (sel_rounds_remaining i)), (''sellerIntentId'', dump_string (sel_seller_intent_id i)),
      (''good'', dump_string (sel_good i)), (''quantity'', JInt (sel_quantity i)), (''publicPrice'', dump_decimal (sel_public_price i)),
      (''limitPrice'', dump_decimal (sel_limit_price i)), (''inventoryAvailable'', JInt (sel_inventory_available i)),
      (''requests'', JArr (map dump_inbound (sel_requests i))), (''maxEngagements'', JInt (sel_max_engagements i)),
      (''events'', JArr (map dump_event (sel_events i))), (''deadlineAt'', dump_datetime (sel_deadline_at i))]"

section \<open>The task envelope\<close>

datatype ArenaTaskKindV1 = KDecide | KNegotiate | KMarketIntent | KMarketRfq | KMarketSelect

fun kind_name :: "ArenaTaskKindV1 \<Rightarrow> string" where
  "kind_name KDecide = ''arena.decide''"
| "kind_name KNegotiate = ''arena.negotiate''"
| "kind_name KMarketIntent = ''arena.market.intent''"
| "kind_name KMarketRfq = ''arena.market.rfq''"
| "kind_name KMarketSelect = ''arena.market.select''"

datatype ArenaTaskInput =
    DecideInput ArenaDecideInputV1
  | NegotiateInput ArenaNegotiateInputV1
  | MarketIntentInput ArenaMarketIntentInputV1
  | MarketRfqInput ArenaMarketRfqInputV1
  | MarketSelectInput ArenaMarketSelectInputV1

fun input_game_id :: "ArenaTaskInput \<Rightarrow> string" where
  "input_game_id (DecideInput i) = di_game_id i"
| "input_game_id (NegotiateInput i) = ni_game_id i"
| "input_game_id (MarketIntentInput i) = di_game_id i"
| "input_game_id (MarketRfqInput i) = ri_game_id i"
| "input_game_id (MarketSelectInput i) = sel_game_id i"

fun input_round_id :: "ArenaTaskInput \<Rightarrow> string" where
  "input_round_id (DecideInput i) = di_round_id i"
| "input_round_id (NegotiateInput i) = ni_round_id i"
| "input_round_id (MarketIntentInput i) = di_round_id i"
| "input_round_id (MarketRfqInput i) = ri_round_id i"
| "input_round_id (MarketSelectInput i) = sel_round_id i"

fun input_deadline_at :: "ArenaTaskInput \<Rightarrow> datetime" where
  "input_deadline_at (DecideInput i) = di_deadline_at i"
| "input_deadline_at (NegotiateInput i) = ni_deadline_at i"
| "input_deadline_at (MarketIntentInput i) = di_deadline_at i"
| "input_deadline_at (MarketRfqInput i) = ri_deadline_at i"
| "input_deadline_at (MarketSelectInput i) = sel_deadline_at i"

fun input_check :: "ArenaTaskInput \<Rightarrow> unit result" where
  "input_check (DecideInput i) = ArenaDecideInputV1_check i"
| "input_check (NegotiateInput i) = ArenaNegotiateInputV1_check i"
| "input_check (MarketIntentInput i) = ArenaMarketIntentInputV1_check i"
| "input_check (MarketRfqInput i) = ArenaMarketRfqInputV1_check i"
| "input_check (MarketSelectInput i) = ArenaMarketSelectInputV1_check i"

fun dump_input :: "ArenaTaskInput \<Rightarrow> json" where
  "dump_input (DecideInput i) = JObj (decide_members i)"
| "dump_input (NegotiateInput i) = dump_negotiate i"
| "dump_input (MarketIntentInput i) =
     JObj (decide_members i @ [(''marketProtocol'', dump_string (mi_market_protocol i)), (''marketExpiresAt'', dump_datetime (mi_market_expires_at i))])"
| "dump_input (MarketRfqInput i) = dump_rfq i"
| "dump_input (MarketSelectInput i) = dump_select i"

text \<open>\<open>parse_input_for_kind\<close>: the class of the input that a kind calls for.\<close>

fun kind_of_input :: "ArenaTaskInput \<Rightarrow> ArenaTaskKindV1" where
  "kind_of_input (DecideInput _) = KDecide"
| "kind_of_input (NegotiateInput _) = KNegotiate"
| "kind_of_input (MarketIntentInput _) = KMarketIntent"
| "kind_of_input (MarketRfqInput _) = KMarketRfq"
| "kind_of_input (MarketSelectInput _) = KMarketSelect"

definition AGENT_TASK_SCHEMA_VERSION_V1 :: string where
  "AGENT_TASK_SCHEMA_VERSION_V1 = ''arena.agent-task.v1''"

text \<open>The identifiers are ASCII, so their order as strings is that of the characters.\<close>

definition market_select_request_set_token :: "string list \<Rightarrow> string" where
  "market_select_request_set_token request_ids = hexdigest (sha256 (utf8_string (join [CHR 0x00] (sort request_ids))))"

record ArenaAgentTaskV1 =
  at_task_id :: string
  at_kind :: ArenaTaskKindV1
  at_schema_version :: string
  at_game_id :: string
  at_round_id :: string
  at_game_agent_id :: string
  at_negotiation_id :: "string option"
  at_deadline_at :: datetime
  at_idempotency_key :: string
  at_input_hash :: string
  at_input :: ArenaTaskInput

definition joined :: "string list \<Rightarrow> string" where
  "joined parts = join '':'' parts"

text \<open>The idempotency key that the envelope must carry, or the rule it breaks first.\<close>

definition market_base_key :: "ArenaAgentTaskV1 \<Rightarrow> string \<Rightarrow> string" where
  "market_base_key t suffix = joined [at_game_id t, at_round_id t, at_game_agent_id t, ''market-'' @ suffix]"

definition expected_key :: "ArenaAgentTaskV1 \<Rightarrow> string result" where
  "expected_key t =
     (case (at_kind t, at_input t) of
        (KDecide, DecideInput i) \<Rightarrow>
          if at_negotiation_id t \<noteq> None then Inl (ValueError ''arena.decide must not include negotiationId'')
          else Inr (joined [at_game_id t, at_round_id t, at_game_agent_id t, ''decide''])
      | (KNegotiate, NegotiateInput i) \<Rightarrow>
          (case at_negotiation_id t of
             None \<Rightarrow> Inl (ValueError ''arena.negotiate requires negotiationId'')
           | Some n \<Rightarrow>
               if ni_negotiation_id i \<noteq> n then Inl (ValueError ''input.negotiationId must match task negotiationId'')
               else Inr (joined [at_game_id t, at_round_id t, n, show_int (ni_turn_sequence i), at_game_agent_id t, ''negotiate'']))
      | (KMarketIntent, MarketIntentInput i) \<Rightarrow>
          if at_negotiation_id t \<noteq> None then Inl (ValueError ''arena.market.intent must not include negotiationId'')
          else Inr (market_base_key t ''intent'')
      | (KMarketRfq, MarketRfqInput i) \<Rightarrow>
          if at_negotiation_id t \<noteq> None then Inl (ValueError ''arena.market.rfq must not include negotiationId'')
          else if ri_attempt_sequence i = 1 \<and> at_idempotency_key t = market_base_key t ''rfq'' then Inr (market_base_key t ''rfq'')
          else Inr (joined [market_base_key t ''rfq'', show_int (ri_attempt_sequence i)])
      | (KMarketSelect, MarketSelectInput i) \<Rightarrow>
          if at_negotiation_id t \<noteq> None then Inl (ValueError ''arena.market.select must not include negotiationId'')
          else if at_idempotency_key t \<noteq> market_base_key t ''select'' then
            Inr (joined [market_base_key t ''select'', market_select_request_set_token (map ib_request_id (sel_requests i))])
          else Inr (market_base_key t ''select'')
      | (k, _) \<Rightarrow> Inl (ValueError (kind_name k @ '' requires another input'')))"

definition enforce_envelope_consistency :: "ArenaAgentTaskV1 \<Rightarrow> unit result" where
  "enforce_envelope_consistency t = checks
     [rule_check (input_game_id (at_input t) = at_game_id t) ''input.gameId must match task gameId'',
      rule_check (input_round_id (at_input t) = at_round_id t) ''input.roundId must match task roundId'',
      rule_check (input_deadline_at (at_input t) = at_deadline_at t) ''input.deadlineAt must match task deadlineAt'',
      bindR (expected_key t) (\<lambda>k. rule_check (at_idempotency_key t = k) ''idempotencyKey does not match the Arena v1 derivation'')]"

definition sha256_pattern :: "string \<Rightarrow> bool" where
  "sha256_pattern s \<longleftrightarrow> take 7 s = ''sha256:'' \<and> length s = 71 \<and> list_all (\<lambda>c. is_digit c \<or> c \<in> set ''abcdef'') (drop 7 s)"

definition ArenaAgentTaskV1_validate :: "ArenaAgentTaskV1 \<Rightarrow> ArenaAgentTaskV1 result" where
  "ArenaAgentTaskV1_validate t =
     bindR (checks
       [field_check (Identifier (at_task_id t)) ''taskId'',
        field_check (at_schema_version t = AGENT_TASK_SCHEMA_VERSION_V1) ''schemaVersion'',
        field_check (Identifier (at_game_id t)) ''gameId'', field_check (Identifier (at_round_id t)) ''roundId'',
        field_check (Identifier (at_game_agent_id t)) ''gameAgentId'',
        field_check (pred_option Identifier (at_negotiation_id t)) ''negotiationId'',
        field_check (is_aware (at_deadline_at t)) ''deadlineAt'',
        field_check (at_idempotency_key t \<noteq> [] \<and> length (at_idempotency_key t) \<le> 1024) ''idempotencyKey'',
        field_check (sha256_pattern (at_input_hash t)) ''inputHash'',
        field_check (kind_of_input (at_input t) = at_kind t) ''input'', input_check (at_input t),
        enforce_envelope_consistency t]) (\<lambda>_. Inr t)"

end
