(* ===== verification/Arena_Ingress.thy ===== *)
theory Arena_Ingress
  imports Arena_Tasks
begin

text \<open>
  \<open>arena_core/ingress_security.py\<close> and \<open>arena_core/public_output_policy.py\<close>: what may enter the durable
  records. Both modules ask Python's Unicode Character Database (\<open>unicodedata\<close>, \<open>str.casefold\<close>, \<open>str.isalnum\<close>);
  its tables are the argument \<open>u\<close>. The regular expressions are data, matched by the sets of positions at
  which a match may end, which is what \<open>re.search\<close> explores by backtracking.
\<close>

section \<open>Unicode data\<close>

record ucd =
  u_category :: "nat \<Rightarrow> string"
  u_nfkc :: "utext \<Rightarrow> utext"
  u_casefold :: "utext \<Rightarrow> utext"
  u_isalnum :: "nat \<Rightarrow> bool"

section \<open>Regular expressions\<close>

datatype rx =
    Cls "nat \<Rightarrow> bool"
  | Eps
  | Cat rx rx
  | Alt rx rx
  | Rep nat "nat option" rx
  | Wb
  | Ahead "nat \<Rightarrow> bool"

fun iterate :: "nat \<Rightarrow> ('a \<Rightarrow> 'a list) \<Rightarrow> 'a list \<Rightarrow> 'a list" where
  "iterate 0 f xs = xs"
| "iterate (Suc n) f xs = iterate n f (remdups (concat (map f xs)))"

text \<open>The positions at which a match that starts at \<open>i\<close> may end. \<open>Wb\<close> is \<open>\b\<close>; \<open>Ahead P\<close> looks for the end of
  the text or a character that satisfies \<open>P\<close>. The body of an unbounded repetition consumes at least one character,
  so it repeats at most as often as characters are left.\<close>

fun ends :: "(nat \<Rightarrow> bool) \<Rightarrow> utext \<Rightarrow> rx \<Rightarrow> nat \<Rightarrow> nat list" where
  "ends word t (Cls P) i = (if i < length t \<and> P (t ! i) then [Suc i] else [])"
| "ends word t Eps i = [i]"
| "ends word t (Cat a b) i = remdups (concat (map (ends word t b) (ends word t a i)))"
| "ends word t (Alt a b) i = ends word t a i @ ends word t b i"
| "ends word t (Rep lo hi a) i =
     concat (map (\<lambda>k. iterate k (ends word t a) [i])
       [lo..<Suc (case hi of Some n \<Rightarrow> n | None \<Rightarrow> lo + (length t - i))])"
| "ends word t Wb i =
     (if (0 < i \<and> i \<le> length t \<and> word (t ! (i - 1))) \<noteq> (i < length t \<and> word (t ! i)) then [i] else [])"
| "ends word t (Ahead P) i = (if i < length t \<longrightarrow> P (t ! i) then [i] else [])"

definition word_char :: "ucd \<Rightarrow> nat \<Rightarrow> bool" where
  "word_char u c \<longleftrightarrow> u_isalnum u c \<or> c = 95"

definition re_search :: "ucd \<Rightarrow> rx \<Rightarrow> utext \<Rightarrow> bool" where
  "re_search u r t \<longleftrightarrow> list_ex (\<lambda>i. ends (word_char u) t r i \<noteq> []) [0..<Suc (length t)]"

text \<open>Without regard to case: the ASCII letter a code point is compared as, for the three letters with further forms too.\<close>

definition fold_letter :: "nat \<Rightarrow> nat" where
  "fold_letter c = (if 65 \<le> c \<and> c \<le> 90 then c + 32 else if c = 304 \<or> c = 305 then 105
     else if c = 383 then 115 else if c = 8490 then 107 else c)"

definition ci :: "(nat \<Rightarrow> bool) \<Rightarrow> nat \<Rightarrow> bool" where
  "ci P c \<longleftrightarrow> P c \<or> P (fold_letter c)"

definition one_of :: "string \<Rightarrow> nat \<Rightarrow> bool" where
  "one_of s c \<longleftrightarrow> c \<in> set (ascii s)"

definition lower_alpha :: "nat \<Rightarrow> bool" where "lower_alpha c \<longleftrightarrow> 97 \<le> c \<and> c \<le> 122"
definition upper_alpha :: "nat \<Rightarrow> bool" where "upper_alpha c \<longleftrightarrow> 65 \<le> c \<and> c \<le> 90"
definition ascii_digit :: "nat \<Rightarrow> bool" where "ascii_digit c \<longleftrightarrow> 48 \<le> c \<and> c \<le> 57"
definition ascii_alnum :: "nat \<Rightarrow> bool" where "ascii_alnum c \<longleftrightarrow> lower_alpha c \<or> upper_alpha c \<or> ascii_digit c"

fun rx_all :: "rx list \<Rightarrow> rx" where
  "rx_all [] = Eps"
| "rx_all [r] = r"
| "rx_all (r # rs) = Cat r (rx_all rs)"

fun rx_any :: "rx list \<Rightarrow> rx" where
  "rx_any [] = Cls (\<lambda>_. False)"
| "rx_any [r] = r"
| "rx_any (r # rs) = Alt r (rx_any rs)"

definition lit :: "string \<Rightarrow> rx" where "lit s = rx_all (map (\<lambda>c. Cls (\<lambda>x. x = of_char c)) s)"
definition lit_ci :: "string \<Rightarrow> rx" where "lit_ci s = rx_all (map (\<lambda>c. Cls (ci (\<lambda>x. x = of_char c))) s)"
definition lit_text :: "utext \<Rightarrow> rx" where "lit_text t = rx_all (map (\<lambda>c. Cls (\<lambda>x. x = c)) t)"
definition opt :: "rx \<Rightarrow> rx" where "opt r = Rep 0 (Some 1) r"
definition star :: "rx \<Rightarrow> rx" where "star r = Rep 0 None r"
definition at_least :: "nat \<Rightarrow> (nat \<Rightarrow> bool) \<Rightarrow> rx" where "at_least n P = Rep n None (Cls P)"
definition spaces :: rx where "spaces = star (Cls py_isspace)"
definition key_dash :: rx where "key_dash = opt (Cls (one_of ''-_ ''))"

section \<open>Secrets\<close>

definition pat_sk :: rx where
  "pat_sk = rx_all [Wb, lit_ci ''sk-'', at_least 12 (ci (\<lambda>c. lower_alpha c \<or> ascii_digit c \<or> one_of ''_-'' c)),
     Ahead (\<lambda>c. \<not> ci (\<lambda>c. lower_alpha c \<or> ascii_digit c \<or> c = 95) c)]"

definition pat_google :: rx where
  "pat_google = rx_all [Wb, lit ''AIza'', at_least 20 (\<lambda>c. ascii_alnum c \<or> one_of ''_-'' c), Wb]"

definition pat_aws :: rx where
  "pat_aws = rx_all [Wb, Alt (Cat (lit ''AKIA'') (Rep 16 (Some 16) (Cls (\<lambda>c. ascii_digit c \<or> upper_alpha c))))
                             (Cat (lit ''AKID'') (at_least 16 ascii_alnum)), Wb]"

definition pat_github :: rx where
  "pat_github = rx_all [Wb, lit ''gh'', Cls (one_of ''pousr''), lit ''_'', at_least 20 ascii_alnum, Wb]"

definition pat_slack :: rx where
  "pat_slack = rx_all [Wb, lit_ci ''xox'', Cls (ci (one_of ''baprs'')), lit ''-'',
     at_least 10 (ci (\<lambda>c. ascii_alnum c \<or> c = 45)), Wb]"

definition pat_labeled :: rx where
  "pat_labeled = rx_all [Wb,
     rx_any [rx_all [lit_ci ''api'', key_dash, lit_ci ''key''], rx_all [lit_ci ''api'', key_dash, lit_ci ''secret''],
             lit_ci ''authorization'', rx_all [lit_ci ''client'', key_dash, lit_ci ''secret''],
             rx_all [lit_ci ''private'', key_dash, lit_ci ''key''], rx_all [lit_ci ''secret'', key_dash, lit_ci ''key'']],
     Wb, spaces, opt (Cls (one_of '':='')), spaces, opt (Cat (lit_ci ''bearer'') (Rep 1 None (Cls py_isspace))),
     at_least 8 (ci (\<lambda>c. lower_alpha c \<or> ascii_digit c \<or> one_of ''._~+/=-'' c))]"

definition jwt_part :: rx where
  "jwt_part = at_least 8 (\<lambda>c. ascii_alnum c \<or> one_of ''_-'' c)"

definition pat_jwt :: rx where
  "pat_jwt = rx_all [Wb, lit ''eyJ'', jwt_part, lit ''.'', jwt_part, lit ''.'', jwt_part, Wb]"

definition pat_hex_key :: rx where
  "pat_hex_key = rx_all [Wb, opt (lit_ci ''0x''), Rep 64 (Some 64) (Cls (ci (\<lambda>c. (97 \<le> c \<and> c \<le> 102) \<or> ascii_digit c))), Wb]"

text \<open>The last two alternatives are the Chinese words for mnemonic and private key.\<close>

definition pat_phrase :: rx where
  "pat_phrase = rx_all [Wb, rx_any [lit_ci ''seed phrase'', lit_ci ''mnemonic'', lit_ci ''private key'',
     lit_text [21161, 35760, 35789], lit_text [31169, 38053]], Wb]"

definition SECRET_PATTERNS :: "rx list" where
  "SECRET_PATTERNS = [pat_sk, pat_google, pat_aws, pat_github, pat_slack, pat_labeled, pat_jwt, pat_hex_key, pat_phrase]"

definition host_label :: rx where
  "host_label = Cat (Cls (ci (\<lambda>c. lower_alpha c \<or> ascii_digit c)))
     (opt (Cat (Rep 0 (Some 61) (Cls (ci (\<lambda>c. lower_alpha c \<or> ascii_digit c \<or> c = 45))))
               (Cls (ci (\<lambda>c. lower_alpha c \<or> ascii_digit c)))))"

definition pat_email :: rx where
  "pat_email = rx_all [Wb,
     at_least 1 (ci (\<lambda>c. lower_alpha c \<or> ascii_digit c \<or> c \<in> set [46, 33, 35, 36, 37, 38, 39, 42, 43, 47, 61, 63, 94, 95, 96, 123, 124, 125, 126, 45])),
     lit ''@'', host_label, Rep 1 None (Cat (lit ''.'') host_label), Wb]"

definition PII_PATTERNS :: "rx list" where
  "PII_PATTERNS = [pat_email]"

section \<open>Checks of text\<close>

definition BIDI_AND_ZERO_WIDTH :: "nat list" where
  "BIDI_AND_ZERO_WIDTH = [1564, 8203, 8204, 8205, 8206, 8207, 8234, 8235, 8236, 8237, 8238, 8288, 8294, 8295, 8296, 8297, 65279]"

fun unsafe_unicode_reason :: "ucd \<Rightarrow> utext \<Rightarrow> string option" where
  "unsafe_unicode_reason u [] = None"
| "unsafe_unicode_reason u (c # t) =
     (if c \<in> set BIDI_AND_ZERO_WIDTH then Some ''unsafe_unicode_format''
      else if u_category u c \<in> {''Cf'', ''Cs''} then Some ''unsafe_unicode_format''
      else if u_category u c = ''Cc'' then Some ''unsafe_unicode_control''
      else unsafe_unicode_reason u t)"

definition sensitive_text_reason :: "ucd \<Rightarrow> bool \<Rightarrow> utext \<Rightarrow> string option" where
  "sensitive_text_reason u include_pii value =
     (let normalized = u_nfkc u value in
      if list_ex (\<lambda>r. re_search u r normalized) SECRET_PATTERNS then Some ''secret_or_pii''
      else if include_pii \<and> list_ex (\<lambda>r. re_search u r normalized) PII_PATTERNS then Some ''secret_or_pii''
      else None)"

definition validate_runtime_controlled_text :: "ucd \<Rightarrow> bool \<Rightarrow> utext \<Rightarrow> utext result" where
  "validate_runtime_controlled_text u include_pii value =
     (case unsafe_unicode_reason u value of
        Some code \<Rightarrow> Inl (ArenaIngressSecurityError code)
      | None \<Rightarrow> (case sensitive_text_reason u include_pii value of
           Some code \<Rightarrow> Inl (ArenaIngressSecurityError code)
         | None \<Rightarrow> Inr value))"

definition runtime_identifiers :: "AgentTaskResultV1 \<Rightarrow> string list" where
  "runtime_identifiers r = re_result_id r #
     (case re_action r of
        Some (BuyAction f) \<Rightarrow> [of_good f]
      | Some (SellAction f) \<Rightarrow> [of_good f]
      | Some (RequestNegotiationsActionV1 requests) \<Rightarrow> map nrc_target_intent_id requests
      | Some (EngageRequestActionV1 request_id) \<Rightarrow> [request_id]
      | _ \<Rightarrow> [])"

definition validate_runtime_result_identifiers :: "ucd \<Rightarrow> AgentTaskResultV1 \<Rightarrow> AgentTaskResultV1 result" where
  "validate_runtime_result_identifiers u r =
     bindR (mapR (\<lambda>s. validate_runtime_controlled_text u True (ascii s)) (runtime_identifiers r)) (\<lambda>_. Inr r)"

section \<open>Checks of snapshots\<close>

definition MAX_CONFIG_DEPTH :: nat where "MAX_CONFIG_DEPTH = 16"
definition MAX_CONFIG_NODES :: nat where "MAX_CONFIG_NODES = 4096"

definition SAFE_REFERENCE_KEYS :: "string list" where
  "SAFE_REFERENCE_KEYS = [''credentialid'', ''credentialref'', ''credentialreference'', ''secretref'', ''secretreference'']"

definition SECRET_KEY_NAMES :: "string list" where
  "SECRET_KEY_NAMES = [''accesstoken'', ''apikey'', ''apisecret'', ''authorization'', ''bearer'', ''clientsecret'', ''credential'',
     ''password'', ''passwd'', ''privatekey'', ''refreshtoken'', ''seedphrase'', ''secret'', ''secretkey'', ''token'',
     ''walletprivatekey'', ''xapikey'']"

definition SECRET_KEY_SUFFIXES :: "string list" where
  "SECRET_KEY_SUFFIXES = [''accesstoken'', ''apikey'', ''apisecret'', ''authorization'', ''bearer'', ''clientsecret'', ''credential'',
     ''password'', ''privatekey'', ''refreshtoken'', ''secret'', ''seedphrase'', ''secretkey'', ''token'']"

definition normalize_key :: "ucd \<Rightarrow> utext \<Rightarrow> utext" where
  "normalize_key u value = filter (u_isalnum u) (u_casefold u (u_nfkc u value))"

definition ends_with :: "'a list \<Rightarrow> 'a list \<Rightarrow> bool" where
  "ends_with t s \<longleftrightarrow> length s \<le> length t \<and> drop (length t - length s) t = s"

definition is_secret_bearing_key :: "utext \<Rightarrow> bool" where
  "is_secret_bearing_key k \<longleftrightarrow>
     k \<notin> set (map ascii SAFE_REFERENCE_KEYS)
     \<and> (k \<in> set (map ascii SECRET_KEY_NAMES) \<or> list_ex (\<lambda>s. ends_with k (ascii s)) SECRET_KEY_SUFFIXES)"

text \<open>
  A value of a snapshot, by the first test of the scan that it passes: an instance of \<open>str\<close> (a string enumeration is one too), of a binary
  type, of \<open>Mapping\<close> or of \<open>Sequence\<close>, \<open>None\<close>, a number, a date, a member of another enumeration with its value, or any other object, such as a
  float or a set. A key is a string or not.
\<close>

datatype config_key = KText utext | KOther

datatype config_value =
    CText utext
  | CBinary
  | CMapping "(config_key \<times> config_value) list"
  | CSequence "config_value list"
  | CNone
  | CBool bool
  | CInt int
  | CDecimal decimal
  | CDate datetime
  | CEnum config_value
  | COther

definition check_config_key :: "ucd \<Rightarrow> config_key \<Rightarrow> unit result" where
  "check_config_key u key =
     (case key of
        KOther \<Rightarrow> Inl (ArenaIngressSecurityError ''unsafe_config_key'')
      | KText t \<Rightarrow>
          (case unsafe_unicode_reason u t of
             Some code \<Rightarrow> Inl (ArenaIngressSecurityError code)
           | None \<Rightarrow>
               if sensitive_text_reason u True t \<noteq> None then Inl (ArenaIngressSecurityError ''secret_bearing_key'')
               else if is_secret_bearing_key (normalize_key u t) then Inl (ArenaIngressSecurityError ''secret_bearing_key'')
               else Inr ()))"

lemma foldR_cong [fundef_cong]:
  "xs = ys \<Longrightarrow> s = t \<Longrightarrow> (\<And>x a. x \<in> set ys \<Longrightarrow> f x a = g x a) \<Longrightarrow> foldR f xs s = foldR g ys t"
proof (induction xs arbitrary: ys s t)
  case (Cons x xs)
  then show ?case by (cases "g x t") auto
qed simp

text \<open>The scan of a value, with the number of nodes visited so far.\<close>

fun scan_config_value :: "ucd \<Rightarrow> nat \<Rightarrow> config_value \<Rightarrow> nat \<Rightarrow> nat result" where
  "scan_config_value u depth v nodes =
     (if Suc nodes > MAX_CONFIG_NODES then Inl (ArenaIngressSecurityError ''unsafe_config_key'')
      else if depth > MAX_CONFIG_DEPTH then Inl (ArenaIngressSecurityError ''unsafe_config_key'')
      else case v of
        CText t \<Rightarrow> bindR (validate_runtime_controlled_text u True t) (\<lambda>_. Inr (Suc nodes))
      | CBinary \<Rightarrow> Inl (ArenaIngressSecurityError ''unsafe_binary'')
      | CMapping kvs \<Rightarrow> foldR (\<lambda>(k, w) n. bindR (check_config_key u k) (\<lambda>_. scan_config_value u (Suc depth) w n)) kvs (Suc nodes)
      | CSequence vs \<Rightarrow> foldR (\<lambda>w n. scan_config_value u (Suc depth) w n) vs (Suc nodes)
      | CEnum w \<Rightarrow> scan_config_value u (Suc depth) w (Suc nodes)
      | COther \<Rightarrow> Inl (ArenaIngressSecurityError ''unsafe_config_value'')
      | _ \<Rightarrow> Inr (Suc nodes))"

definition secure_config_snapshot :: "ucd \<Rightarrow> config_value \<Rightarrow> config_value result" where
  "secure_config_snapshot u config_snapshot =
     (case config_snapshot of
        CMapping kvs \<Rightarrow> bindR (scan_config_value u 0 (CMapping kvs) 0) (\<lambda>_. Inr (CMapping kvs))
      | _ \<Rightarrow> Inl (ArenaIngressSecurityError ''unsafe_config_key''))"

text \<open>The snapshots of the tasks are JSON objects.\<close>

fun config_of_json :: "json \<Rightarrow> config_value" where
  "config_of_json JNull = CNone"
| "config_of_json (JBool b) = CBool b"
| "config_of_json (JInt i) = CInt i"
| "config_of_json (JStr t) = CText t"
| "config_of_json (JArr vs) = CSequence (map config_of_json vs)"
| "config_of_json (JObj kvs) = CMapping (map (\<lambda>(k, v). (KText (ascii k), config_of_json v)) kvs)"

definition secure_json_snapshot :: "ucd \<Rightarrow> (string, json) dict \<Rightarrow> (string, json) dict result" where
  "secure_json_snapshot u config_snapshot = bindR (secure_config_snapshot u (config_of_json (JObj config_snapshot))) (\<lambda>_. Inr config_snapshot)"

section \<open>Public messages\<close>

definition PUBLIC_OUTPUT_POLICY_VERSION :: string where
  "PUBLIC_OUTPUT_POLICY_VERSION = ''arena.public-output.v1''"

definition MAX_PUBLIC_MESSAGE_CHARS :: nat where "MAX_PUBLIC_MESSAGE_CHARS = 100"
definition MIN_STRATEGY_MATCH_CHARS :: nat where "MIN_STRATEGY_MATCH_CHARS = 12"
definition MAX_STRATEGY_SCAN_CHARS :: nat where "MAX_STRATEGY_SCAN_CHARS = 32000"

definition HTML_PATTERN :: "ucd \<Rightarrow> rx" where
  "HTML_PATTERN u =
     Alt (rx_all [lit ''<'', opt (lit ''/''), Cls (ci lower_alpha), star (Cls (\<lambda>c. c \<noteq> 62)), lit ''>''])
         (rx_all [lit ''&'', opt (Cls (\<lambda>c. c = 35)), at_least 1 (word_char u), lit '';''])"

record PublicOutputDecision =
  pod_message :: "utext option"
  pod_message_replaced :: bool
  pod_policy_version :: string
  pod_replacement_reason :: "string option"

definition text_strip :: "utext \<Rightarrow> utext" where
  "text_strip t = rev (dropWhile py_isspace (rev (dropWhile py_isspace t)))"

definition compact :: "ucd \<Rightarrow> utext \<Rightarrow> utext" where
  "compact u t = filter (u_isalnum u) (u_casefold u (u_nfkc u t))"

fun contains :: "'a list \<Rightarrow> 'a list \<Rightarrow> bool" where
  "contains [] p = (p = [])"
| "contains (x # xs) p = (take (length p) (x # xs) = p \<or> contains xs p)"

definition copies_strategy :: "ucd \<Rightarrow> utext \<Rightarrow> utext \<Rightarrow> bool" where
  "copies_strategy u message strategy =
     (let compact_message = compact u message; compact_strategy = compact u strategy in
      if length compact_message < MIN_STRATEGY_MATCH_CHARS then False
      else if length compact_strategy < MIN_STRATEGY_MATCH_CHARS then False
      else if length compact_strategy > MAX_STRATEGY_SCAN_CHARS then True
      else if contains compact_strategy compact_message then True
      else list_ex (\<lambda>offset. contains compact_strategy (take MIN_STRATEGY_MATCH_CHARS (drop offset compact_message)))
             [0..<length compact_message - MIN_STRATEGY_MATCH_CHARS + 1])"

definition replacement_reason :: "ucd \<Rightarrow> utext \<Rightarrow> utext option \<Rightarrow> string option" where
  "replacement_reason u message strategy_instructions =
     (if message = [] then Some ''empty''
      else if length message > MAX_PUBLIC_MESSAGE_CHARS then Some ''length''
      else if unsafe_unicode_reason u message = Some ''unsafe_unicode_control'' then Some ''control_character''
      else if unsafe_unicode_reason u message = Some ''unsafe_unicode_format'' then Some ''format_character''
      else if re_search u (HTML_PATTERN u) message then Some ''markup''
      else if sensitive_text_reason u True message \<noteq> None then Some ''secret_or_pii''
      else if (case strategy_instructions of None \<Rightarrow> False | Some s \<Rightarrow> s \<noteq> [] \<and> copies_strategy u message s) then Some ''strategy_copy''
      else None)"

definition neutral_message :: "string \<Rightarrow> decimal option \<Rightarrow> string option \<Rightarrow> string" where
  "neutral_message action price role =
     (let safe_role = (if role = Some ''buyer'' then ''buyer'' else if role = Some ''seller'' then ''seller'' else ''agent'') in
      case (action = ''propose'', price) of
        (True, Some p) \<Rightarrow> safe_role @ '' proposes '' @ serialize_fixed_decimal p @ ''.''
      | _ \<Rightarrow>
          if action = ''accept'' then safe_role @ '' accepts the latest offer.''
          else if action = ''reject'' then safe_role @ '' rejects the latest offer.''
          else if action \<in> {''buy'', ''sell'', ''pass''} then safe_role @ '' submitted a '' @ action @ '' action.''
          else ''The agent submitted an Arena action.'')"

definition sanitize :: "ucd \<Rightarrow> utext option \<Rightarrow> string \<Rightarrow> decimal option \<Rightarrow> string option \<Rightarrow> utext option \<Rightarrow> PublicOutputDecision" where
  "sanitize u message action price role strategy_instructions =
     (case message of
        None \<Rightarrow> \<lparr>pod_message = None, pod_message_replaced = False, pod_policy_version = PUBLIC_OUTPUT_POLICY_VERSION, pod_replacement_reason = None\<rparr>
      | Some m \<Rightarrow>
          let normalized = text_strip (u_nfkc u m) in
          (case replacement_reason u normalized strategy_instructions of
             None \<Rightarrow> \<lparr>pod_message = Some normalized, pod_message_replaced = False,
                       pod_policy_version = PUBLIC_OUTPUT_POLICY_VERSION, pod_replacement_reason = None\<rparr>
           | Some reason \<Rightarrow> \<lparr>pod_message = Some (ascii (neutral_message action price role)), pod_message_replaced = True,
                       pod_policy_version = PUBLIC_OUTPUT_POLICY_VERSION, pod_replacement_reason = Some reason\<rparr>))"

end
