(* ===== verification/Arena_Candidates.thy ===== *)
theory Arena_Candidates
  imports Arena_Ingress
begin

text \<open>
  \<open>arena_core/candidate_validation.py\<close> and \<open>arena_core/application_policy.py\<close>: the checks of a candidate action
  against the frozen view its task carries, and the projection of a terminal result to one application.
  Prices are decimals, multiplied under the 28-digit context and compared exactly.
\<close>

section \<open>Decimal comparison\<close>

definition dec_at :: "int \<Rightarrow> bool \<Rightarrow> nat \<Rightarrow> int \<Rightarrow> int" where
  "dec_at m s c e = (if s then - 1 else 1) * (int c * 10 ^ nat (e - m))"

text \<open>\<open>a < b\<close> for finite decimals, which the wire models guarantee\<close>

fun dec_less :: "decimal \<Rightarrow> decimal \<Rightarrow> bool" where
  "dec_less (Dec s c e) (Dec s' c' e') = (dec_at (min e e') s c e < dec_at (min e e') s' c' e')"
| "dec_less _ _ = False"

definition has_arena_money_precision :: "decimal \<Rightarrow> bool result" where
  "has_arena_money_precision value =
     bindR (dec_mult_nat value 1000000) (\<lambda>atomic.
       case atomic of Dec s c e \<Rightarrow> Inr (dec_is_integral c e) | DInf _ \<Rightarrow> Inr True | DNaN \<Rightarrow> Inr False)"

definition price_ok :: "decimal option \<Rightarrow> bool result" where
  "price_ok p = (case p of None \<Rightarrow> Inr True | Some d \<Rightarrow> has_arena_money_precision d)"

section \<open>Violations\<close>

text \<open>A violation that is found stops the search; otherwise it goes on.\<close>

definition violation :: "bool \<Rightarrow> string \<Rightarrow> string option result \<Rightarrow> string option result" where
  "violation c code rest = (if c then Inr (Some code) else rest)"

definition holding :: "'a ArenaDecideInputV1_scheme \<Rightarrow> string \<Rightarrow> int" where
  "holding i good = (case dget (di_holdings i) good of None \<Rightarrow> 0 | Some n \<Rightarrow> n)"

definition action_allowed :: "'a ArenaDecideInputV1_scheme \<Rightarrow> AgentDrivenMarketActionV1 \<Rightarrow> bool" where
  "action_allowed i a \<longleftrightarrow> action_name a \<in> set (map AllowedDecideAction_value (dl_allowed_actions (di_limits i)))"

definition good_allowed :: "'a ArenaDecideInputV1_scheme \<Rightarrow> string \<Rightarrow> bool" where
  "good_allowed i good \<longleftrightarrow> dl_allowed_goods (di_limits i) = [] \<or> good \<in> set (dl_allowed_goods (di_limits i))"

text \<open>The checks on an order that both \<open>decide_candidate_violation\<close> and its caller's action class share.\<close>

definition decide_order_violation :: "'a ArenaDecideInputV1_scheme \<Rightarrow> bool \<Rightarrow> OrderFields \<Rightarrow> string option result" where
  "decide_order_violation i buying f =
     violation (of_public_price f \<noteq> None \<or> of_message f \<noteq> None) ''public_price_not_allowed'' (
     bindR (price_ok (of_limit_price f)) (\<lambda>precise.
     violation (\<not> precise) ''price_precision_exceeded'' (
     violation (\<not> good_allowed i (of_good f)) ''good_not_allowed'' (
     violation (\<not> buying \<and> holding i (of_good f) < of_quantity f) ''insufficient_inventory'' (
       case (buying, of_limit_price f) of
         (True, Some p) \<Rightarrow> bindR (dec_mult_nat p (nat (of_quantity f))) (\<lambda>cost.
            violation (dec_less (di_cash i) cost) ''insufficient_cash'' (Inr None))
       | _ \<Rightarrow> Inr None)))))"

definition decide_candidate_violation :: "'a ArenaDecideInputV1_scheme \<Rightarrow> AgentDrivenMarketActionV1 \<Rightarrow> string option result" where
  "decide_candidate_violation i a =
     violation (\<not> action_allowed i a) ''action_not_allowed'' (
       case a of PassAction \<Rightarrow> Inr None
       | BuyAction f \<Rightarrow> decide_order_violation i True f
       | SellAction f \<Rightarrow> decide_order_violation i False f
       | _ \<Rightarrow> Inl (TypeError ''action must be a decide action''))"

definition intent_order_violation :: "ArenaMarketIntentInputV1 \<Rightarrow> bool \<Rightarrow> OrderFields \<Rightarrow> string option result" where
  "intent_order_violation i buying f =
     violation (\<not> good_allowed i (of_good f)) ''good_not_allowed'' (
       case (of_public_price f, of_limit_price f) of
         (Some public, Some private) \<Rightarrow>
           bindR (has_arena_money_precision public) (\<lambda>p1.
           bindR (if p1 then has_arena_money_precision private else Inr False) (\<lambda>p2.
           violation (\<not> p1 \<or> \<not> p2) ''price_precision_exceeded'' (
             if buying then
               violation (dec_less private public) ''market_price_boundary_violation'' (
               bindR (dec_mult_nat private (nat (of_quantity f))) (\<lambda>cost.
                 violation (dec_less (di_cash i) cost) ''insufficient_cash'' (Inr None)))
             else
               violation (dec_less public private) ''market_price_boundary_violation'' (
               violation (holding i (of_good f) < of_quantity f) ''insufficient_inventory'' (Inr None)))))
       | _ \<Rightarrow> Inr (Some ''market_price_required''))"

definition market_intent_candidate_violation :: "ArenaMarketIntentInputV1 \<Rightarrow> AgentDrivenMarketActionV1 \<Rightarrow> string option result" where
  "market_intent_candidate_violation i a =
     violation (\<not> action_allowed i a) ''action_not_allowed'' (
       case a of PassAction \<Rightarrow> Inr None
       | BuyAction f \<Rightarrow> intent_order_violation i True f
       | SellAction f \<Rightarrow> intent_order_violation i False f
       | _ \<Rightarrow> Inl (TypeError ''action must be a market intent action''))"

fun rfq_loop :: "string set \<Rightarrow> decimal \<Rightarrow> NegotiationRequestCandidateV1 list \<Rightarrow> string option result" where
  "rfq_loop visible limit_price [] = Inr None"
| "rfq_loop visible limit_price (r # rs) =
     violation (nrc_target_intent_id r \<notin> visible) ''rfq_target_not_visible'' (
     bindR (has_arena_money_precision (nrc_opening_price r)) (\<lambda>precise.
     violation (\<not> precise) ''price_precision_exceeded'' (
     violation (dec_less limit_price (nrc_opening_price r)) ''limit_price_violation'' (
       rfq_loop visible limit_price rs))))"

definition market_rfq_candidate_violation :: "ArenaMarketRfqInputV1 \<Rightarrow> AgentDrivenMarketActionV1 \<Rightarrow> string option result" where
  "market_rfq_candidate_violation i a =
     (case a of PassAction \<Rightarrow> Inr None
      | RequestNegotiationsActionV1 requests \<Rightarrow>
          violation (int (length requests) > ri_max_outbound_rfq i) ''rfq_budget_exceeded'' (
            rfq_loop (set (map me_intent_id (ri_directory i))) (ri_limit_price i) requests)
      | _ \<Rightarrow> Inl (TypeError ''action must be a market RFQ action''))"

definition market_select_candidate_violation :: "ArenaMarketSelectInputV1 \<Rightarrow> AgentDrivenMarketActionV1 \<Rightarrow> string option result" where
  "market_select_candidate_violation i a =
     (case a of EngageRequestActionV1 request_id \<Rightarrow>
          violation (request_id \<notin> set (map ib_request_id (sel_requests i))) ''request_not_visible'' (
          violation (sel_inventory_available i < sel_quantity i) ''insufficient_inventory'' (Inr None))
      | _ \<Rightarrow> Inr None)"

text \<open>A price that the role must not propose or accept.\<close>

definition beyond_limit :: "NegotiationRole \<Rightarrow> decimal \<Rightarrow> decimal \<Rightarrow> bool" where
  "beyond_limit role price limit_price \<longleftrightarrow>
     (role = Buyer \<and> dec_less limit_price price) \<or> (role = Seller \<and> dec_less price limit_price)"

fun is_propose :: "AgentDrivenMarketActionV1 \<Rightarrow> bool" where
  "is_propose (ProposeAction _ _) = True"
| "is_propose _ = False"

definition negotiation_candidate_violation :: "ArenaNegotiateInputV1 \<Rightarrow> AgentDrivenMarketActionV1 \<Rightarrow> string option result" where
  "negotiation_candidate_violation i a =
     violation (ni_turn_sequence i = 1 \<and> \<not> is_propose a) ''buyer_opening_proposal_required'' (
     violation (a = AcceptAction \<and> ni_latest_counterparty_quote i = None) ''counterparty_proposal_required'' (
     violation (ni_remaining_turns i \<le> 1 \<and> is_propose a) ''final_turn_must_close'' (
       case a of
         ProposeAction price _ \<Rightarrow>
           bindR (has_arena_money_precision price) (\<lambda>precise.
           violation (\<not> precise) ''price_precision_exceeded'' (
             case ni_limit_price i of None \<Rightarrow> Inr None
             | Some l \<Rightarrow> violation (beyond_limit (ni_role i) price l) ''limit_price_violation'' (Inr None)))
       | AcceptAction \<Rightarrow>
           (case (ni_latest_counterparty_quote i, ni_limit_price i) of
              (Some q, Some l) \<Rightarrow> violation (beyond_limit (ni_role i) (cq_price q) l) ''limit_price_violation'' (Inr None)
            | _ \<Rightarrow> Inr None)
       | _ \<Rightarrow> Inr None)))"

section \<open>The projection\<close>

datatype ApplicationOutcome = Candidate | DefaultPass | NegotiationTimeout | MarketTimeout | CancelledOutcome

record ArenaApplication =
  aa_accepted :: bool
  aa_outcome :: ApplicationOutcome
  aa_action :: "json option"
  aa_rejection_reason :: "string option"

definition default_application :: "ArenaAgentTaskV1 \<Rightarrow> string \<Rightarrow> ArenaApplication" where
  "default_application t reason =
     (if at_kind t \<in> {KDecide, KMarketIntent} then
        \<lparr>aa_accepted = True, aa_outcome = DefaultPass, aa_action = Some (JObj [(''action'', dump_string ''pass'')]), aa_rejection_reason = Some reason\<rparr>
      else
        \<lparr>aa_accepted = True, aa_outcome = (if at_kind t = KNegotiate then NegotiationTimeout else MarketTimeout),
         aa_action = None, aa_rejection_reason = Some reason\<rparr>)"

definition candidate_application :: "ArenaAgentTaskV1 \<Rightarrow> AgentDrivenMarketActionV1 \<Rightarrow> string option result \<Rightarrow> ArenaApplication result" where
  "candidate_application t a checked =
     bindR checked (\<lambda>violation.
       case violation of
         Some code \<Rightarrow> Inr (default_application t code)
       | None \<Rightarrow> Inr \<lparr>aa_accepted = True, aa_outcome = Candidate, aa_action = Some (dump_action a), aa_rejection_reason = None\<rparr>)"

fun is_negotiate_action :: "AgentDrivenMarketActionV1 \<Rightarrow> bool" where
  "is_negotiate_action (ProposeAction _ _) = True"
| "is_negotiate_action AcceptAction = True"
| "is_negotiate_action (RejectAction _) = True"
| "is_negotiate_action _ = False"

fun is_rfq_action :: "AgentDrivenMarketActionV1 \<Rightarrow> bool" where
  "is_rfq_action (RequestNegotiationsActionV1 _) = True"
| "is_rfq_action PassAction = True"
| "is_rfq_action _ = False"

fun is_selection_action :: "AgentDrivenMarketActionV1 \<Rightarrow> bool" where
  "is_selection_action (EngageRequestActionV1 _) = True"
| "is_selection_action (RejectAllRequestsActionV1 _) = True"
| "is_selection_action _ = False"

text \<open>A market intent view is also an \<open>ArenaDecideInputV1\<close>.\<close>

definition checked_action :: "ArenaAgentTaskV1 \<Rightarrow> AgentDrivenMarketActionV1 \<Rightarrow> string option result option" where
  "checked_action t a =
     (case (at_kind t, at_input t) of
        (KDecide, DecideInput i) \<Rightarrow> if is_decide_action a then Some (decide_candidate_violation i a) else None
      | (KDecide, MarketIntentInput i) \<Rightarrow> if is_decide_action a then Some (decide_candidate_violation i a) else None
      | (KNegotiate, NegotiateInput i) \<Rightarrow> if is_negotiate_action a then Some (negotiation_candidate_violation i a) else None
      | (KMarketIntent, MarketIntentInput i) \<Rightarrow> if is_decide_action a then Some (market_intent_candidate_violation i a) else None
      | (KMarketRfq, MarketRfqInput i) \<Rightarrow> if is_rfq_action a then Some (market_rfq_candidate_violation i a) else None
      | (KMarketSelect, MarketSelectInput i) \<Rightarrow> if is_selection_action a then Some (market_select_candidate_violation i a) else None
      | _ \<Rightarrow> None)"

definition derive_application :: "ArenaAgentTaskV1 \<Rightarrow> AgentTaskResultV1 \<Rightarrow> ArenaApplication result" where
  "derive_application t r =
     (if re_status r \<noteq> RSucceeded then Inr (default_application t (''runtime_'' @ ResultStatus_value (re_status r)))
      else case re_action r of
        None \<Rightarrow> Inr (default_application t ''action_kind_mismatch'')
      | Some a \<Rightarrow>
          (case checked_action t a of
             None \<Rightarrow> Inr (default_application t ''action_kind_mismatch'')
           | Some checked \<Rightarrow> candidate_application t a checked))"

end
