(* ===== verification/Arena_Core.thy ===== *)
theory Arena_Core
  imports Arena_Candidates
begin

text \<open>
  The result pipeline of \<open>arena_core\<close>: \<open>models.py\<close>, the in-memory repository of \<open>repository.py\<close>,
  \<open>task_factory.py\<close>, \<open>result_sink.py\<close>, \<open>result_consumer.py\<close> and \<open>finalizer.py\<close>. Every repository method holds one
  lock, so a call is one step that returns its result, which may be an exception, with the repository it
  leaves behind. A clock is the time it shows to the call; \<open>uid\<close> gives the random part of the ids of events.
\<close>

section \<open>Records\<close>

datatype TaskStatus = TQueued | TLeased | TRunning | TCompleted | TDefaulted | TCancelled

definition status_terminal :: "TaskStatus \<Rightarrow> bool" where
  "status_terminal s \<longleftrightarrow> s \<in> {TCompleted, TDefaulted, TCancelled}"

datatype ResultApplyStatus = ApplyPending | ApplyApplied | ApplyRejected

datatype SubmissionDisposition = SubmissionAccepted | SubmissionDuplicate | SubmissionLate

record ArenaTaskRecord =
  tr_task :: ArenaAgentTaskV1
  tr_config_snapshot :: "(string, json) dict"
  tr_config_hash :: string
  tr_status :: TaskStatus
  tr_created_at :: datetime
  tr_attempt_count :: int
  tr_leased_by :: "string option"
  tr_lease_expires_at :: "datetime option"
  tr_completed_at :: "datetime option"

record ArenaResultRecord =
  arr_result :: AgentTaskResultV1
  arr_result_received_at :: datetime
  arr_result_hash :: string
  arr_apply_status :: ResultApplyStatus
  arr_message_replaced :: bool
  arr_public_output_policy_version :: "string option"
  arr_safe_error_class :: "string option"
  arr_arena_applied_at :: "datetime option"
  arr_arena_rejected_at :: "datetime option"
  arr_rejection_reason :: "string option"

record TaskEventRecord =
  te_event_id :: string
  te_task_id :: string
  te_event_type :: string
  te_created_at :: datetime
  te_data :: "(string, json) dict"

record ResultSubmissionReceipt =
  rsr_task_id :: string
  rsr_disposition :: SubmissionDisposition
  rsr_authoritative_result_id :: "string option"
  rsr_task_status :: TaskStatus
  rsr_result_received_at :: datetime

record AppliedArenaAction =
  ap_task_id :: string
  ap_result_id :: string
  ap_kind :: ArenaTaskKindV1
  ap_outcome :: ApplicationOutcome
  ap_action :: "json option"
  ap_entered_at :: datetime
  ap_applied_at :: datetime

record MemoryArenaCoreRepository =
  mcr_tasks :: "(string, ArenaTaskRecord) dict"
  mcr_task_by_idempotency :: "(string \<times> string, string) dict"
  mcr_results :: "(string, ArenaResultRecord) dict"
  mcr_result_by_task :: "(string, string) dict"
  mcr_events :: "TaskEventRecord list"
  mcr_applied_by_task :: "(string, AppliedArenaAction) dict"

definition MemoryArenaCoreRepository_new :: MemoryArenaCoreRepository where
  "MemoryArenaCoreRepository_new =
     \<lparr>mcr_tasks = [], mcr_task_by_idempotency = [], mcr_results = [], mcr_result_by_task = [], mcr_events = [], mcr_applied_by_task = []\<rparr>"

type_synonym 'a core_call = "MemoryArenaCoreRepository \<Rightarrow> 'a result \<times> MemoryArenaCoreRepository"

definition server_now :: "datetime \<Rightarrow> datetime result" where
  "server_now clock = (if is_aware clock then Inr clock else Inl (ValueError ''Arena server clock must return an aware datetime''))"

definition append_event :: "(nat \<Rightarrow> string) \<Rightarrow> string \<Rightarrow> string \<Rightarrow> datetime \<Rightarrow> (string, json) dict
    \<Rightarrow> MemoryArenaCoreRepository \<Rightarrow> MemoryArenaCoreRepository" where
  "append_event uid task_id event_type created_at data s =
     s\<lparr>mcr_events := mcr_events s @ [\<lparr>te_event_id = ''event_'' @ uid (length (mcr_events s)), te_task_id = task_id,
         te_event_type = event_type, te_created_at = created_at, te_data = data\<rparr>]\<rparr>"

section \<open>Creating tasks\<close>

definition input_members :: "ArenaTaskInput \<Rightarrow> (string, json) dict" where
  "input_members i = (case dump_input i of JObj kvs \<Rightarrow> kvs | _ \<Rightarrow> [])"

definition create_task :: "ucd \<Rightarrow> (nat \<Rightarrow> string) \<Rightarrow> ArenaAgentTaskV1 \<Rightarrow> (string, json) dict \<Rightarrow> string \<Rightarrow> datetime \<Rightarrow> ArenaTaskRecord core_call" where
  "create_task u uid task config_snapshot config_hash created_at s =
     attempt (secure_json_snapshot u (input_members (at_input task))) s (\<lambda>_.
     attempt (secure_json_snapshot u config_snapshot) s (\<lambda>config_snapshot_copy.
     attempt (sha256_identifier (dump_input (at_input task))) s (\<lambda>input_hash.
     if input_hash \<noteq> at_input_hash task then
       (Inl (ArenaIdempotencyConflictError ''Arena task input hash does not match its snapshot''), s)
     else attempt (sha256_identifier (JObj config_snapshot_copy)) s (\<lambda>hash.
     if hash \<noteq> config_hash then
       (Inl (ArenaIdempotencyConflictError ''Arena task config hash does not match its snapshot''), s)
     else
       let key = (at_game_agent_id task, at_idempotency_key task) in
       case dget (mcr_task_by_idempotency s) key of
         Some existing_id \<Rightarrow>
           (case dget (mcr_tasks s) existing_id of
              None \<Rightarrow> (Inl (KeyError existing_id), s)
            | Some existing \<Rightarrow>
                if at_input_hash (tr_task existing) \<noteq> at_input_hash task \<or> tr_config_hash existing \<noteq> config_hash
                   \<or> at_kind (tr_task existing) \<noteq> at_kind task then
                  (Inl (ArenaIdempotencyConflictError ''Arena task idempotency key was reused with a different snapshot''), s)
                else (Inr existing, s))
       | None \<Rightarrow>
           if dget (mcr_tasks s) (at_task_id task) \<noteq> None then
             (Inl (ArenaIdempotencyConflictError ''Arena task id already exists''), s)
           else
             let rec = \<lparr>tr_task = task, tr_config_snapshot = config_snapshot_copy, tr_config_hash = config_hash,
                   tr_status = TQueued, tr_created_at = created_at, tr_attempt_count = 0, tr_leased_by = None,
                   tr_lease_expires_at = None, tr_completed_at = None\<rparr> in
             (Inr rec,
              append_event uid (at_task_id task) ''created'' created_at [(''kind'', dump_string (kind_name (at_kind task)))]
                (s\<lparr>mcr_tasks := dput (mcr_tasks s) (at_task_id task) rec,
                   mcr_task_by_idempotency := dput (mcr_task_by_idempotency s) key (at_task_id task)\<rparr>))))))"

definition get_task :: "MemoryArenaCoreRepository \<Rightarrow> string \<Rightarrow> ArenaTaskRecord option" where
  "get_task s task_id = dget (mcr_tasks s) task_id"

definition get_task_by_idempotency :: "MemoryArenaCoreRepository \<Rightarrow> string \<Rightarrow> string \<Rightarrow> ArenaTaskRecord option result" where
  "get_task_by_idempotency s game_agent_id idempotency_key =
     (case dget (mcr_task_by_idempotency s) (game_agent_id, idempotency_key) of
        None \<Rightarrow> Inr None
      | Some task_id \<Rightarrow> (case dget (mcr_tasks s) task_id of None \<Rightarrow> Inl (KeyError task_id) | Some t \<Rightarrow> Inr (Some t)))"

definition get_result_for_task :: "MemoryArenaCoreRepository \<Rightarrow> string \<Rightarrow> ArenaResultRecord option result" where
  "get_result_for_task s task_id =
     (case dget (mcr_result_by_task s) task_id of
        None \<Rightarrow> Inr None
      | Some result_id \<Rightarrow>
          if result_id = [] then Inr None
          else (case dget (mcr_results s) result_id of None \<Rightarrow> Inl (KeyError result_id) | Some r \<Rightarrow> Inr (Some r)))"

fun get_results_for_tasks :: "MemoryArenaCoreRepository \<Rightarrow> string list \<Rightarrow> (string, ArenaResultRecord) dict \<Rightarrow> (string, ArenaResultRecord) dict result" where
  "get_results_for_tasks s [] found = Inr found"
| "get_results_for_tasks s (task_id # ids) found =
     (case dget (mcr_result_by_task s) task_id of
        None \<Rightarrow> get_results_for_tasks s ids found
      | Some result_id \<Rightarrow> (case dget (mcr_results s) result_id of
           None \<Rightarrow> Inl (KeyError result_id)
         | Some r \<Rightarrow> get_results_for_tasks s ids (dput found task_id r)))"

section \<open>Results\<close>

definition default_result_id :: "string \<Rightarrow> string" where
  "default_result_id task_id = ''default:'' @ hexdigest (sha256 (utf8_string task_id))"

definition internal_result_id :: "string \<Rightarrow> string" where
  "internal_result_id result_id = ''runtime:'' @ drop 7 (sha256_text_identifier result_id)"

definition new_result_record :: "AgentTaskResultV1 \<Rightarrow> datetime \<Rightarrow> string \<Rightarrow> bool \<Rightarrow> string option \<Rightarrow> string option \<Rightarrow> ArenaResultRecord" where
  "new_result_record result received_at hash replaced version error_class =
     \<lparr>arr_result = result, arr_result_received_at = received_at, arr_result_hash = hash, arr_apply_status = ApplyPending,
      arr_message_replaced = replaced, arr_public_output_policy_version = version, arr_safe_error_class = error_class,
      arr_arena_applied_at = None, arr_arena_rejected_at = None, arr_rejection_reason = None\<rparr>"

text \<open>A task that has its result: closed and without a lease.\<close>

definition close_task :: "ArenaTaskRecord \<Rightarrow> TaskStatus \<Rightarrow> datetime \<Rightarrow> ArenaTaskRecord" where
  "close_task t status now =
     t\<lparr>tr_status := status, tr_completed_at := Some now, tr_leased_by := None, tr_lease_expires_at := None\<rparr>"

definition create_timeout_result :: "(nat \<Rightarrow> string) \<Rightarrow> ArenaTaskRecord \<Rightarrow> datetime \<Rightarrow> ArenaResultRecord core_call" where
  "create_timeout_result uid t now s =
     (let task_id = at_task_id (tr_task t); result_id = default_result_id task_id in
      attempt (AgentTaskResultV1_validate
        \<lparr>re_result_id = result_id, re_task_id = task_id, re_schema_version = AGENT_TASK_RESULT_SCHEMA_VERSION_V1,
         re_status = RTimedOut, re_action = None\<rparr>) s (\<lambda>result.
      attempt (sha256_identifier (dump_result result)) s (\<lambda>hash.
        let rec = new_result_record result now hash False None (Some ''deadline_elapsed'') in
        (Inr rec,
         append_event uid task_id ''defaulted'' now [(''reason'', dump_string ''deadline_elapsed'')]
           (s\<lparr>mcr_tasks := dput (mcr_tasks s) task_id (close_task t TDefaulted now),
              mcr_results := dput (mcr_results s) result_id rec,
              mcr_result_by_task := dput (mcr_result_by_task s) task_id result_id\<rparr>)))))"

definition receipt :: "string \<Rightarrow> SubmissionDisposition \<Rightarrow> string option \<Rightarrow> TaskStatus \<Rightarrow> datetime \<Rightarrow> ResultSubmissionReceipt" where
  "receipt task_id disposition authoritative_id status at =
     \<lparr>rsr_task_id = task_id, rsr_disposition = disposition, rsr_authoritative_result_id = authoritative_id,
      rsr_task_status = status, rsr_result_received_at = at\<rparr>"

definition submitted_status :: "ResultStatus \<Rightarrow> TaskStatus" where
  "submitted_status st = (if st = RSucceeded then TCompleted else if st = RCancelled then TCancelled else TDefaulted)"

text \<open>The answer to a result whose id is already stored.\<close>

definition replayed_result :: "(nat \<Rightarrow> string) \<Rightarrow> AgentTaskResultV1 \<Rightarrow> datetime \<Rightarrow> string \<Rightarrow> ArenaTaskRecord \<Rightarrow> ArenaResultRecord \<Rightarrow> ResultSubmissionReceipt core_call" where
  "replayed_result uid result received_at incoming_hash t existing s =
     (let task_id = re_task_id result in
      if re_task_id (arr_result existing) \<noteq> task_id then
        (Inl (ArenaResultConflictError ''Result id was reused for a different task''),
         append_event uid task_id ''result_conflict'' received_at [(''incoming_result_hash'', dump_string incoming_hash)] s)
      else if arr_result_hash existing \<noteq> incoming_hash then
        (Inl (ArenaResultConflictError ''Result id was replayed with a different terminal payload''),
         append_event uid task_id ''result_conflict'' received_at
           [(''authoritative_result_hash'', dump_string (arr_result_hash existing)), (''incoming_result_hash'', dump_string incoming_hash)] s)
      else
        (Inr (receipt task_id SubmissionDuplicate (dget (mcr_result_by_task s) task_id) (tr_status t) (arr_result_received_at existing)),
         append_event uid task_id ''duplicate_result_ignored'' received_at [(''result_hash'', dump_string (arr_result_hash existing))] s))"

definition accept_result :: "(nat \<Rightarrow> string) \<Rightarrow> AgentTaskResultV1 \<Rightarrow> datetime \<Rightarrow> string \<Rightarrow> bool \<Rightarrow> string option \<Rightarrow> ArenaTaskRecord \<Rightarrow> ResultSubmissionReceipt core_call" where
  "accept_result uid result received_at incoming_hash message_replaced policy_version t s =
     (let task_id = re_task_id result; result_id = internal_result_id (re_result_id result);
          status = submitted_status (re_status result);
          rec = new_result_record (result\<lparr>re_result_id := result_id\<rparr>) received_at incoming_hash message_replaced policy_version
            (if re_status result = RSucceeded then None else Some (''runtime_'' @ ResultStatus_value (re_status result))) in
      (Inr (receipt task_id SubmissionAccepted (Some result_id) status received_at),
       append_event uid task_id ''result_submitted'' received_at
         [(''result_hash'', dump_string incoming_hash), (''runtime_status'', dump_string (ResultStatus_value (re_status result))),
          (''message_replaced'', JBool message_replaced)]
         (s\<lparr>mcr_tasks := dput (mcr_tasks s) task_id (close_task t status received_at),
            mcr_results := dput (mcr_results s) result_id rec,
            mcr_result_by_task := dput (mcr_result_by_task s) task_id result_id\<rparr>)))"

definition submit_result :: "ucd \<Rightarrow> (nat \<Rightarrow> string) \<Rightarrow> AgentTaskResultV1 \<Rightarrow> datetime \<Rightarrow> bool \<Rightarrow> string option \<Rightarrow> ResultSubmissionReceipt core_call" where
  "submit_result u uid result clock message_replaced policy_version s =
     attempt (server_now clock) s (\<lambda>received_at.
     attempt (validate_runtime_result_identifiers u result) s (\<lambda>_.
     let task_id = re_task_id result in
     case dget (mcr_tasks s) task_id of
       None \<Rightarrow> (Inl (ArenaTaskNotFoundError ''Arena task does not exist''), s)
     | Some t \<Rightarrow>
         attempt (sha256_identifier (dump_result result)) s (\<lambda>incoming_hash.
         case dget (mcr_results s) (internal_result_id (re_result_id result)) of
           Some existing \<Rightarrow> replayed_result uid result received_at incoming_hash t existing s
         | None \<Rightarrow>
             let authoritative_id = dget (mcr_result_by_task s) task_id in
             if authoritative_id \<noteq> None \<or> status_terminal (tr_status t) then
               (Inr (receipt task_id SubmissionLate authoritative_id (tr_status t) received_at),
                append_event uid task_id ''late_result_ignored'' received_at
                  [(''result_hash'', dump_string incoming_hash), (''reason'', dump_string ''task_terminal'')] s)
             else if instant received_at \<ge> instant (at_deadline_at (tr_task t)) then
               (case create_timeout_result uid t received_at s of
                  (Inl e, s') \<Rightarrow> (Inl e, s')
                | (Inr timeout_record, s') \<Rightarrow>
                    (Inr (receipt task_id SubmissionLate (Some (re_result_id (arr_result timeout_record))) TDefaulted received_at),
                     append_event uid task_id ''late_result_ignored'' received_at
                       [(''result_hash'', dump_string incoming_hash), (''reason'', dump_string ''deadline_elapsed'')] s'))
             else accept_result uid result received_at incoming_hash message_replaced policy_version t s)))"

definition expired_tasks :: "datetime \<Rightarrow> MemoryArenaCoreRepository \<Rightarrow> ArenaTaskRecord list" where
  "expired_tasks now s =
     sort_key (\<lambda>t. (instant (at_deadline_at (tr_task t)), at_task_id (tr_task t)))
       (filter (\<lambda>t. \<not> status_terminal (tr_status t) \<and> instant (at_deadline_at (tr_task t)) \<le> instant now
                  \<and> dget (mcr_result_by_task s) (at_task_id (tr_task t)) = None) (dvalues (mcr_tasks s)))"

fun timeout_loop :: "(nat \<Rightarrow> string) \<Rightarrow> datetime \<Rightarrow> ArenaTaskRecord list \<Rightarrow> ArenaResultRecord list core_call" where
  "timeout_loop uid now [] s = (Inr [], s)"
| "timeout_loop uid now (t # ts) s =
     (case create_timeout_result uid t now s of
        (Inl e, s') \<Rightarrow> (Inl e, s')
      | (Inr r, s') \<Rightarrow> (case timeout_loop uid now ts s' of (Inl e, s2) \<Rightarrow> (Inl e, s2) | (Inr rs, s2) \<Rightarrow> (Inr (r # rs), s2)))"

definition finalize_expired :: "(nat \<Rightarrow> string) \<Rightarrow> datetime \<Rightarrow> int \<Rightarrow> ArenaResultRecord list core_call" where
  "finalize_expired uid clock max_count s =
     (if max_count \<le> 0 then (Inr [], s)
      else attempt (server_now clock) s (\<lambda>now. timeout_loop uid now (take (nat max_count) (expired_tasks now s)) s))"

definition pending_results :: "int \<Rightarrow> MemoryArenaCoreRepository \<Rightarrow> ArenaResultRecord list" where
  "pending_results max_count s =
     (if max_count \<le> 0 then []
      else take (nat max_count) (sort_key (\<lambda>r. (instant (arr_result_received_at r), re_result_id (arr_result r)))
             (filter (\<lambda>r. arr_apply_status r = ApplyPending) (dvalues (mcr_results s)))))"

section \<open>Applying results\<close>

definition outcome_value :: "ApplicationOutcome \<Rightarrow> string" where
  "outcome_value out = (case out of Candidate \<Rightarrow> ''candidate'' | DefaultPass \<Rightarrow> ''default_pass''
     | NegotiationTimeout \<Rightarrow> ''negotiation_timeout'' | MarketTimeout \<Rightarrow> ''market_timeout'' | CancelledOutcome \<Rightarrow> ''cancelled'')"

definition apply_accepted :: "(nat \<Rightarrow> string) \<Rightarrow> string \<Rightarrow> datetime \<Rightarrow> ArenaResultRecord \<Rightarrow> ArenaTaskRecord \<Rightarrow> ArenaApplication \<Rightarrow> AppliedArenaAction option core_call" where
  "apply_accepted uid result_id applied_at result t application s =
     (let task_id = at_task_id (tr_task t) in
      case dget (mcr_applied_by_task s) task_id of
        Some existing \<Rightarrow>
          if ap_result_id existing \<noteq> result_id then
            (Inl (ArenaResultConflictError ''Task already has a different applied action''), s)
          else
            (Inr None, s\<lparr>mcr_results := dput (mcr_results s) result_id
               (result\<lparr>arr_apply_status := ApplyApplied, arr_arena_applied_at := Some applied_at\<rparr>)\<rparr>)
      | None \<Rightarrow>
          let applied = \<lparr>ap_task_id = task_id, ap_result_id = result_id, ap_kind = at_kind (tr_task t),
                ap_outcome = aa_outcome application, ap_action = aa_action application,
                ap_entered_at = (if aa_outcome application = Candidate then arr_result_received_at result else applied_at),
                ap_applied_at = applied_at\<rparr> in
          (Inr (Some applied),
           append_event uid task_id ''result_applied'' applied_at
             [(''result_hash'', dump_string (arr_result_hash result)), (''outcome'', dump_string (outcome_value (aa_outcome application))),
              (''reason'', dump_option dump_string (aa_rejection_reason application))]
             (s\<lparr>mcr_applied_by_task := dput (mcr_applied_by_task s) task_id applied,
                mcr_results := dput (mcr_results s) result_id
                  (result\<lparr>arr_apply_status := ApplyApplied, arr_arena_applied_at := Some applied_at,
                          arr_rejection_reason := aa_rejection_reason application\<rparr>)\<rparr>)))"

definition apply_result :: "(nat \<Rightarrow> string) \<Rightarrow> string \<Rightarrow> datetime \<Rightarrow> AppliedArenaAction option core_call" where
  "apply_result uid result_id clock s =
     attempt (server_now clock) s (\<lambda>applied_at.
     case dget (mcr_results s) result_id of
       None \<Rightarrow> (Inl (ArenaResultConflictError ''Arena result does not exist''), s)
     | Some result \<Rightarrow>
         if arr_apply_status result \<noteq> ApplyPending then (Inr None, s)
         else (case dget (mcr_tasks s) (re_task_id (arr_result result)) of
            None \<Rightarrow> (Inl (KeyError (re_task_id (arr_result result))), s)
          | Some t \<Rightarrow>
              attempt (derive_application (tr_task t) (arr_result result)) s (\<lambda>application.
              if \<not> aa_accepted application then
                (Inr None,
                 append_event uid (at_task_id (tr_task t)) ''result_rejected'' applied_at
                   [(''result_hash'', dump_string (arr_result_hash result)),
                    (''reason'', dump_string (case aa_rejection_reason application of None \<Rightarrow> ''invalid_candidate''
                       | Some r \<Rightarrow> if r = [] then ''invalid_candidate'' else r))]
                   (s\<lparr>mcr_results := dput (mcr_results s) result_id
                      (result\<lparr>arr_apply_status := ApplyRejected, arr_arena_rejected_at := Some applied_at,
                              arr_rejection_reason := aa_rejection_reason application\<rparr>)\<rparr>))
              else apply_accepted uid result_id applied_at result t application s)))"

definition list_events :: "MemoryArenaCoreRepository \<Rightarrow> string \<Rightarrow> TaskEventRecord list" where
  "list_events s task_id = filter (\<lambda>e. te_task_id e = task_id) (mcr_events s)"

definition list_applied_actions :: "MemoryArenaCoreRepository \<Rightarrow> AppliedArenaAction list" where
  "list_applied_actions s = sort_key (\<lambda>a. (instant (ap_applied_at a), ap_task_id a)) (dvalues (mcr_applied_by_task s))"

text \<open>A helper for tests: the records are stored as they are, with their index.\<close>

definition seed_tasks :: "ArenaTaskRecord list \<Rightarrow> MemoryArenaCoreRepository \<Rightarrow> MemoryArenaCoreRepository" where
  "seed_tasks records s = foldl (\<lambda>s record. s\<lparr>
     mcr_tasks := dput (mcr_tasks s) (at_task_id (tr_task record)) record,
     mcr_task_by_idempotency := dput (mcr_task_by_idempotency s) (at_game_agent_id (tr_task record), at_idempotency_key (tr_task record))
       (at_task_id (tr_task record))\<rparr>) s records"

section \<open>Services\<close>

text \<open>\<open>ArenaResultConsumer\<close>: each pending record is applied in turn, at the times of \<open>clock\<close>.\<close>

fun consume_loop :: "(nat \<Rightarrow> string) \<Rightarrow> (nat \<Rightarrow> datetime) \<Rightarrow> ArenaResultRecord list \<Rightarrow> AppliedArenaAction list core_call" where
  "consume_loop uid clock [] s = (Inr [], s)"
| "consume_loop uid clock (r # rs) s =
     (case apply_result uid (re_result_id (arr_result r)) (clock (length rs)) s of
        (Inl e, s') \<Rightarrow> (Inl e, s')
      | (Inr item, s') \<Rightarrow>
          (case consume_loop uid clock rs s' of
             (Inl e, s2) \<Rightarrow> (Inl e, s2)
           | (Inr items, s2) \<Rightarrow> (Inr ((case item of None \<Rightarrow> items | Some a \<Rightarrow> a # items)), s2)))"

definition consume_pending :: "(nat \<Rightarrow> string) \<Rightarrow> (nat \<Rightarrow> datetime) \<Rightarrow> int \<Rightarrow> AppliedArenaAction list core_call" where
  "consume_pending uid clock max_count s = consume_loop uid clock (pending_results max_count s) s"

text \<open>\<open>ArenaResultSink\<close>: the value of the private strategy is the first of two members that is true.\<close>

fun truthy :: "json \<Rightarrow> bool" where
  "truthy JNull = False"
| "truthy (JBool b) = b"
| "truthy (JInt i) = (i \<noteq> 0)"
| "truthy (JStr t) = (t \<noteq> [])"
| "truthy (JArr xs) = (xs \<noteq> [])"
| "truthy (JObj kvs) = (kvs \<noteq> [])"

definition strategy_of :: "(string, json) dict \<Rightarrow> json option" where
  "strategy_of config =
     (case dget config ''strategy_instructions'' of
        Some v \<Rightarrow> if truthy v then Some v else dget config ''strategyInstructions''
      | None \<Rightarrow> dget config ''strategyInstructions'')"

fun message_of :: "AgentDrivenMarketActionV1 \<Rightarrow> utext option" where
  "message_of (ProposeAction price m) = Some m"
| "message_of (RejectAction m) = m"
| "message_of _ = None"

fun with_message :: "AgentDrivenMarketActionV1 \<Rightarrow> utext option \<Rightarrow> AgentDrivenMarketActionV1" where
  "with_message (ProposeAction price m) (Some m') = ProposeAction price m'"
| "with_message (RejectAction m) m' = RejectAction m'"
| "with_message a _ = a"

fun price_of :: "AgentDrivenMarketActionV1 \<Rightarrow> decimal option" where
  "price_of (ProposeAction price m) = Some price"
| "price_of _ = None"

fun role_of :: "ArenaTaskInput \<Rightarrow> string option" where
  "role_of (NegotiateInput i) = Some (role_value (ni_role i))"
| "role_of _ = None"

text \<open>A strategy that is not text fails when it is compared with the message, after all other reasons.\<close>

definition policy_decision :: "ucd \<Rightarrow> ArenaTaskRecord \<Rightarrow> AgentDrivenMarketActionV1 \<Rightarrow> utext \<Rightarrow> PublicOutputDecision result" where
  "policy_decision u t a m =
     (let decide = (\<lambda>strategy. sanitize u (Some m) (action_name a) (price_of a) (role_of (at_input (tr_task t))) strategy) in
      case strategy_of (tr_config_snapshot t) of
        Some (JStr strategy) \<Rightarrow> Inr (decide (Some strategy))
      | Some v \<Rightarrow>
          if truthy v \<and> replacement_reason u (text_strip (u_nfkc u m)) None = None then
            Inl (TypeError ''normalize() argument 2 must be str'')
          else Inr (decide None)
      | None \<Rightarrow> Inr (decide None))"

definition sink_submit :: "ucd \<Rightarrow> (nat \<Rightarrow> string) \<Rightarrow> AgentTaskResultV1 \<Rightarrow> datetime \<Rightarrow> ResultSubmissionReceipt core_call" where
  "sink_submit u uid result clock s =
     attempt (validate_runtime_result_identifiers u result) s (\<lambda>_.
     case get_task s (re_task_id result) of
       None \<Rightarrow> (Inl (ArenaTaskNotFoundError ''Arena task does not exist''), s)
     | Some t \<Rightarrow>
         (case re_action result of
            None \<Rightarrow> submit_result u uid result clock False None s
          | Some a \<Rightarrow>
              (case message_of a of
                 None \<Rightarrow> submit_result u uid result clock False None s
               | Some m \<Rightarrow>
                   if m = [] then submit_result u uid result clock False None s
                   else attempt (policy_decision u t a m) s (\<lambda>decision.
                     submit_result u uid (result\<lparr>re_action := Some (with_message a (pod_message decision))\<rparr>) clock
                       (pod_message_replaced decision) (Some (pod_policy_version decision)) s))))"

text \<open>\<open>ArenaTaskFactory\<close>: the derivation of the idempotency key and the creation of the task, whose id is drawn by the caller.\<close>

definition factory_key :: "string \<Rightarrow> ArenaTaskInput \<Rightarrow> string" where
  "factory_key game_agent_id view =
     (let base = (\<lambda>suffix. joined [input_game_id view, input_round_id view, game_agent_id, suffix]) in
      case view of
        DecideInput i \<Rightarrow> base ''decide''
      | NegotiateInput i \<Rightarrow>
          joined [ni_game_id i, ni_round_id i, ni_negotiation_id i, show_int (ni_turn_sequence i), game_agent_id, ''negotiate'']
      | MarketIntentInput i \<Rightarrow> base ''market-intent''
      | MarketRfqInput i \<Rightarrow> base (''market-rfq:'' @ show_int (ri_attempt_sequence i))
      | MarketSelectInput i \<Rightarrow> base (''market-select:'' @ market_select_request_set_token (map ib_request_id (sel_requests i))))"

definition factory_create :: "ucd \<Rightarrow> (nat \<Rightarrow> string) \<Rightarrow> string \<Rightarrow> datetime \<Rightarrow> string \<Rightarrow> ArenaTaskInput \<Rightarrow> (string, json) dict \<Rightarrow> ArenaTaskRecord core_call" where
  "factory_create u uid task_id clock game_agent_id view config_snapshot s =
     (if \<not> is_aware clock then (Inl (ValueError ''Arena Task Factory clock must return an aware datetime''), s)
      else
      attempt (secure_json_snapshot u (input_members view)) s (\<lambda>_.
      attempt (secure_json_snapshot u config_snapshot) s (\<lambda>config_snapshot_copy.
      attempt (sha256_identifier (dump_input view)) s (\<lambda>input_hash.
      attempt (sha256_identifier (JObj config_snapshot_copy)) s (\<lambda>config_hash.
      let kind = kind_of_input view; idempotency_key = factory_key game_agent_id view in
      if instant (input_deadline_at view) \<le> instant clock then
        attempt (get_task_by_idempotency s game_agent_id idempotency_key) s (\<lambda>existing.
          case existing of
            None \<Rightarrow> (Inl (ValueError ''Arena task deadline must be in the future''), s)
          | Some t \<Rightarrow>
              if at_kind (tr_task t) \<noteq> kind \<or> at_input_hash (tr_task t) \<noteq> input_hash \<or> tr_config_hash t \<noteq> config_hash then
                (Inl (ArenaIdempotencyConflictError ''Elapsed Arena task recovery conflicts with its frozen snapshot''), s)
              else (Inr t, s))
      else
        attempt (ArenaAgentTaskV1_validate
          \<lparr>at_task_id = task_id, at_kind = kind, at_schema_version = AGENT_TASK_SCHEMA_VERSION_V1, at_game_id = input_game_id view,
           at_round_id = input_round_id view, at_game_agent_id = game_agent_id,
           at_negotiation_id = (case view of NegotiateInput i \<Rightarrow> Some (ni_negotiation_id i) | _ \<Rightarrow> None),
           at_deadline_at = input_deadline_at view, at_idempotency_key = idempotency_key, at_input_hash = input_hash, at_input = view\<rparr>) s
          (\<lambda>task. create_task u uid task config_snapshot_copy config_hash clock s))))))"

end
