(* ===== verification/Arena_Core_Invariant.thy ===== *)
theory Arena_Core_Invariant
  imports Arena_Core
begin

text \<open>
  Proofs about the result pipeline of \<open>arena_core\<close>: what validated tasks and results satisfy, the four transitions the
  calls of the repository make, the invariant they keep, and for every call that it takes such transitions, that a
  failure leaves at most an event behind, and that the deadline finalizer and the result consumer never fail.
\<close>

declare map_of_eq_Some_iff [simp del] Some_eq_map_of_iff [simp del]

section \<open>Validated values\<close>

abbreviation valid_task :: "ArenaAgentTaskV1 \<Rightarrow> bool" where
  "valid_task t \<equiv> ArenaAgentTaskV1_validate t = Inr t"

abbreviation valid_result :: "AgentTaskResultV1 \<Rightarrow> bool" where
  "valid_result r \<equiv> AgentTaskResultV1_validate r = Inr r"

text \<open>What the projection relies on: prices that were read from the wire, unit quantities, and an action exactly when the run succeeded.\<close>

definition sound_order :: "OrderFields \<Rightarrow> bool" where
  "sound_order f \<longleftrightarrow> of_quantity f = 1 \<and> pred_option FixedDecimal (of_limit_price f) \<and> pred_option FixedDecimal (of_public_price f)"

fun sound_action :: "AgentDrivenMarketActionV1 \<Rightarrow> bool" where
  "sound_action (BuyAction f) = sound_order f"
| "sound_action (SellAction f) = sound_order f"
| "sound_action (RequestNegotiationsActionV1 requests) = list_all (\<lambda>c. FixedDecimal (nrc_opening_price c)) requests"
| "sound_action (ProposeAction price message) = FixedDecimal price"
| "sound_action _ = True"

definition sound_result :: "AgentTaskResultV1 \<Rightarrow> bool" where
  "sound_result r \<longleftrightarrow> (re_status r = RSucceeded \<longleftrightarrow> re_action r \<noteq> None) \<and> pred_option sound_action (re_action r)"

lemma mapR_unit_iff: "mapR f xs = Inr ys \<Longrightarrow> list_all (\<lambda>x. \<exists>y. f x = Inr y) xs"
  by (induction xs arbitrary: ys) (auto simp: bindR_Inr_iff)

lemma check_order_sound: "check_order f = Inr () \<Longrightarrow> sound_order f"
  by (cases "of_limit_price f"; cases "of_public_price f")
    (auto simp: check_order_def sound_order_def PositiveFixedDecimal_value_def split: if_splits)

lemma action_sound: "action_validate a = Inr () \<Longrightarrow> sound_action a"
proof (cases a)
  case (RequestNegotiationsActionV1 requests)
  assume "action_validate a = Inr ()"
  then obtain ys where "mapR check_candidate requests = Inr ys" using RequestNegotiationsActionV1 by (auto simp: bindR_Inr_iff split: if_splits)
  then have "list_all (\<lambda>x. \<exists>y. check_candidate x = Inr y) requests" by (rule mapR_unit_iff)
  then show ?thesis using RequestNegotiationsActionV1
    by (auto simp: list_all_iff check_candidate_def PositiveFixedDecimal_value_def split: if_splits)
qed (auto simp: check_order_sound PositiveFixedDecimal_value_def split: if_splits)

lemma AgentTaskResultV1_validate_iff:
  "AgentTaskResultV1_validate r = Inr q \<longleftrightarrow> q = r \<and> Identifier (re_result_id r) \<and> Identifier (re_task_id r)
     \<and> re_schema_version r = AGENT_TASK_RESULT_SCHEMA_VERSION_V1 \<and> pred_option (\<lambda>a. action_validate a = Inr ()) (re_action r)
     \<and> (re_status r = RSucceeded \<longleftrightarrow> re_action r \<noteq> None)"
  unfolding AgentTaskResultV1_validate_def if_raise_Inr bindR_Inr_iff by (cases "re_action r") (auto split: if_splits)

lemma valid_result_sound: "valid_result r \<Longrightarrow> sound_result r"
  by (cases "re_action r") (auto simp: AgentTaskResultV1_validate_iff sound_result_def action_sound)

lemma check_iff [result_simps]:
  "field_check c name = Inr v \<longleftrightarrow> c" "rule_check c message = Inr v \<longleftrightarrow> c" "both a b = Inr v \<longleftrightarrow> a = Inr () \<and> b = Inr ()"
  by (simp_all add: field_check_def rule_check_def both_def bindR_Inr_iff)

lemma each_iff [result_simps]: "each f xs = Inr v \<longleftrightarrow> list_all (\<lambda>x. f x = Inr ()) xs"
  unfolding each_def by (induction xs) (auto simp: check_iff)

lemma ArenaAgentTaskV1_validate_iff:
  "ArenaAgentTaskV1_validate t = Inr t' \<longleftrightarrow> t' = t \<and> Identifier (at_task_id t) \<and> at_schema_version t = AGENT_TASK_SCHEMA_VERSION_V1
     \<and> Identifier (at_game_id t) \<and> Identifier (at_round_id t) \<and> Identifier (at_game_agent_id t) \<and> pred_option Identifier (at_negotiation_id t)
     \<and> is_aware (at_deadline_at t) \<and> at_idempotency_key t \<noteq> [] \<and> length (at_idempotency_key t) \<le> 1024 \<and> sha256_pattern (at_input_hash t)
     \<and> kind_of_input (at_input t) = at_kind t \<and> input_check (at_input t) = Inr () \<and> enforce_envelope_consistency t = Inr ()"
  by (auto simp: ArenaAgentTaskV1_validate_def bindR_Inr_iff check_iff)

section \<open>Transitions\<close>

text \<open>How a task got its result: on time from the runtime, or by its deadline.\<close>

definition decided_by :: "ArenaTaskRecord \<Rightarrow> ArenaResultRecord \<Rightarrow> bool" where
  "decided_by t r \<longleftrightarrow> tr_completed_at t = Some (arr_result_received_at r) \<and> tr_leased_by t = None \<and> tr_lease_expires_at t = None
     \<and> (re_result_id (arr_result r) = default_result_id (at_task_id (tr_task t)) \<and> re_status (arr_result r) = RTimedOut \<and> tr_status t = TDefaulted
          \<and> instant (at_deadline_at (tr_task t)) \<le> instant (arr_result_received_at r)
        \<or> (\<exists>x. re_result_id (arr_result r) = internal_result_id x) \<and> tr_status t = submitted_status (re_status (arr_result r))
          \<and> instant (arr_result_received_at r) < instant (at_deadline_at (tr_task t)))"

text \<open>The action that was derived from a result and entered the game.\<close>

definition applied_from :: "ArenaTaskRecord \<Rightarrow> ArenaResultRecord \<Rightarrow> AppliedArenaAction \<Rightarrow> bool" where
  "applied_from t r a \<longleftrightarrow> (\<exists>app. derive_application (tr_task t) (arr_result r) = Inr app
     \<and> a = \<lparr>ap_task_id = at_task_id (tr_task t), ap_result_id = re_result_id (arr_result r), ap_kind = at_kind (tr_task t),
            ap_outcome = aa_outcome app, ap_action = aa_action app,
            ap_entered_at = (if aa_outcome app = Candidate then arr_result_received_at r else ap_applied_at a), ap_applied_at = ap_applied_at a\<rparr>)"

text \<open>The key under which a task is found again.\<close>

definition task_key :: "ArenaTaskRecord \<Rightarrow> string \<times> string" where
  "task_key t = (at_game_agent_id (tr_task t), at_idempotency_key (tr_task t))"

text \<open>The four ways in which a call changes the repository; the event log may grow in each.\<close>

inductive core_effect :: "MemoryArenaCoreRepository \<Rightarrow> MemoryArenaCoreRepository \<Rightarrow> bool" where
  logged: "core_effect s (s\<lparr>mcr_events := ev\<rparr>)"
| created: "valid_task (tr_task t) \<Longrightarrow> tr_status t = TQueued \<Longrightarrow> k = at_task_id (tr_task t) \<Longrightarrow> dget (mcr_tasks s) k = None
    \<Longrightarrow> i = task_key t \<Longrightarrow> dget (mcr_task_by_idempotency s) i = None
    \<Longrightarrow> default_result_id k \<notin> default_result_id ` set (dkeys (mcr_tasks s))
    \<Longrightarrow> core_effect s (s\<lparr>mcr_tasks := dput (mcr_tasks s) k t, mcr_task_by_idempotency := dput (mcr_task_by_idempotency s) i k, mcr_events := ev\<rparr>)"
| decided: "dget (mcr_tasks s) k = Some t \<Longrightarrow> \<not> status_terminal (tr_status t) \<Longrightarrow> t' = close_task t status now
    \<Longrightarrow> dget (mcr_results s) j = None \<Longrightarrow> re_result_id (arr_result r) = j \<Longrightarrow> re_task_id (arr_result r) = k \<Longrightarrow> arr_apply_status r = ApplyPending
    \<Longrightarrow> sound_result (arr_result r) \<Longrightarrow> status_terminal status \<Longrightarrow> decided_by t' r
    \<Longrightarrow> core_effect s (s\<lparr>mcr_tasks := dput (mcr_tasks s) k t', mcr_results := dput (mcr_results s) j r,
          mcr_result_by_task := dput (mcr_result_by_task s) k j, mcr_events := ev\<rparr>)"
| applied: "dget (mcr_results s) j = Some r \<Longrightarrow> arr_apply_status r = ApplyPending \<Longrightarrow> k = re_task_id (arr_result r) \<Longrightarrow> dget (mcr_tasks s) k = Some t
    \<Longrightarrow> dget (mcr_applied_by_task s) k = None \<Longrightarrow> applied_from t r a
    \<Longrightarrow> r' = r\<lparr>arr_apply_status := ApplyApplied, arr_arena_applied_at := Some now, arr_rejection_reason := reason\<rparr>
    \<Longrightarrow> core_effect s (s\<lparr>mcr_applied_by_task := dput (mcr_applied_by_task s) k a, mcr_results := dput (mcr_results s) j r', mcr_events := ev\<rparr>)"

text \<open>Seeding a new queued task is an effect like its creation; the helper itself checks nothing, so it is no call of a run.\<close>

lemma seed_task_effect:
  assumes "valid_task (tr_task t)" "tr_status t = TQueued" "dget (mcr_tasks s) (at_task_id (tr_task t)) = None" "dget (mcr_task_by_idempotency s) (task_key t) = None"
    and "default_result_id (at_task_id (tr_task t)) \<notin> default_result_id ` set (dkeys (mcr_tasks s))"
  shows "core_effect s (seed_tasks [t] s)"
  using core_effect.created [OF assms(1,2) refl assms(3) refl assms(4,5), of "mcr_events s"] by (simp add: seed_tasks_def task_key_def)

section \<open>The invariant\<close>

definition tasks_ok :: "MemoryArenaCoreRepository \<Rightarrow> bool" where
  "tasks_ok s \<longleftrightarrow> distinct (dkeys (mcr_tasks s)) \<and> inj_on default_result_id (set (dkeys (mcr_tasks s)))
     \<and> (\<forall>k t. dget (mcr_tasks s) k = Some t \<longrightarrow> at_task_id (tr_task t) = k \<and> valid_task (tr_task t)
          \<and> dget (mcr_task_by_idempotency s) (task_key t) = Some k)
     \<and> (\<forall>i k. dget (mcr_task_by_idempotency s) i = Some k \<longrightarrow>
          (\<exists>t. dget (mcr_tasks s) k = Some t \<and> task_key t = i))"

text \<open>Every stored result is the one of its task, and a task is closed exactly when it has one.\<close>

definition results_ok :: "MemoryArenaCoreRepository \<Rightarrow> bool" where
  "results_ok s \<longleftrightarrow> distinct (dkeys (mcr_results s))
     \<and> (\<forall>j r. dget (mcr_results s) j = Some r \<longrightarrow> re_result_id (arr_result r) = j \<and> sound_result (arr_result r)
          \<and> dget (mcr_result_by_task s) (re_task_id (arr_result r)) = Some j
          \<and> (\<exists>t. dget (mcr_tasks s) (re_task_id (arr_result r)) = Some t \<and> decided_by t r))
     \<and> (\<forall>k j. dget (mcr_result_by_task s) k = Some j \<longrightarrow> (\<exists>r. dget (mcr_results s) j = Some r \<and> re_task_id (arr_result r) = k))
     \<and> (\<forall>k t. dget (mcr_tasks s) k = Some t \<longrightarrow> (status_terminal (tr_status t) \<longleftrightarrow> dget (mcr_result_by_task s) k \<noteq> None))"

text \<open>A result is applied exactly when its task has an action in the game, and that action is the one derived from it.\<close>

definition applied_ok :: "MemoryArenaCoreRepository \<Rightarrow> bool" where
  "applied_ok s \<longleftrightarrow> distinct (dkeys (mcr_applied_by_task s))
     \<and> (\<forall>j r. dget (mcr_results s) j = Some r \<longrightarrow>
          arr_apply_status r = (if dget (mcr_applied_by_task s) (re_task_id (arr_result r)) = None then ApplyPending else ApplyApplied))
     \<and> (\<forall>k a. dget (mcr_applied_by_task s) k = Some a \<longrightarrow>
          (\<exists>j r t. dget (mcr_result_by_task s) k = Some j \<and> dget (mcr_results s) j = Some r \<and> dget (mcr_tasks s) k = Some t \<and> applied_from t r a))"

definition core_inv :: "MemoryArenaCoreRepository \<Rightarrow> bool" where
  "core_inv s \<longleftrightarrow> tasks_ok s \<and> results_ok s \<and> applied_ok s"

lemma core_new_inv: "core_inv MemoryArenaCoreRepository_new"
  by (simp add: core_inv_def tasks_ok_def results_ok_def applied_ok_def MemoryArenaCoreRepository_new_def)

section \<open>Effects keep the invariant\<close>

lemma all_put:
  "(\<forall>j w. dget (dput d k v) j = Some w \<longrightarrow> P j w) \<longleftrightarrow> P k v \<and> (\<forall>j w. j \<noteq> k \<longrightarrow> dget d j = Some w \<longrightarrow> P j w)"
  by (auto simp: dict_get)

lemma get_in_keys: "dget d k = Some v \<Longrightarrow> k \<in> set (dkeys d)"
  by (metis domI dom_map_of_conv_image_fst set_map)

lemma tasks_ok_effect: "core_effect s s' \<Longrightarrow> tasks_ok s \<Longrightarrow> tasks_ok s'"
proof (induction rule: core_effect.induct)
  case (created t k s i ev)
  have "inj_on default_result_id (set (dkeys (dput (mcr_tasks s) k t)))"
    using created by (auto simp: set_dkeys_put tasks_ok_def simp del: set_map)
  moreover have "task_key u \<noteq> i" if "dget (mcr_tasks s) l = Some u" for l u
    using created that unfolding tasks_ok_def by (metis option.distinct(1))
  moreover have "l \<noteq> k" if "dget (mcr_task_by_idempotency s) h = Some l" for h l
    using created that unfolding tasks_ok_def by (metis option.distinct(1))
  ultimately show ?case using created unfolding tasks_ok_def
    by (simp add: all_put distinct_update) (simp add: dict_get)
next
  case (decided s k t t' status now j r ev)
  have t': "tr_task t' = tr_task t" "task_key t' = task_key t" using decided by (simp_all add: close_task_def task_key_def)
  have "set (dkeys (dput (mcr_tasks s) k t')) = set (dkeys (mcr_tasks s))" using get_in_keys [OF decided(1)] unfolding set_dkeys_put by blast
  moreover have "task_key t = i" if "dget (mcr_task_by_idempotency s) i = Some k" for i
    using decided(1) decided.prems that unfolding tasks_ok_def by fastforce
  ultimately show ?case using decided(1,3) decided.prems t' unfolding tasks_ok_def
    by (simp add: all_put distinct_update del: set_map) (auto simp: dict_get)
qed (simp_all add: tasks_ok_def)

text \<open>A task without a result, and an unused result id.\<close>

lemma results_fresh:
  assumes "results_ok s"
  shows "dget (mcr_result_by_task s) k = None \<Longrightarrow> dget (mcr_results s) l = Some q \<Longrightarrow> re_task_id (arr_result q) \<noteq> k"
    and "dget (mcr_results s) j = None \<Longrightarrow> dget (mcr_result_by_task s) l \<noteq> Some j"
  using assms unfolding results_ok_def by (metis option.distinct(1))+

lemma results_open:
  "results_ok s \<Longrightarrow> dget (mcr_tasks s) k = Some t \<Longrightarrow> status_terminal (tr_status t) \<longleftrightarrow> dget (mcr_result_by_task s) k \<noteq> None"
  unfolding results_ok_def by blast

lemma results_index:
  assumes "results_ok s" "dget (mcr_results s) j = Some r"
  shows "re_result_id (arr_result r) = j" "sound_result (arr_result r)" "dget (mcr_result_by_task s) (re_task_id (arr_result r)) = Some j"
    "\<exists>t. dget (mcr_tasks s) (re_task_id (arr_result r)) = Some t \<and> decided_by t r"
  using assms unfolding results_ok_def by blast+

lemma results_okI:
  assumes "distinct (dkeys (mcr_results s))"
    and "\<And>j r. dget (mcr_results s) j = Some r \<Longrightarrow> re_result_id (arr_result r) = j \<and> sound_result (arr_result r)
          \<and> dget (mcr_result_by_task s) (re_task_id (arr_result r)) = Some j
          \<and> (\<exists>t. dget (mcr_tasks s) (re_task_id (arr_result r)) = Some t \<and> decided_by t r)"
    and "\<And>k j. dget (mcr_result_by_task s) k = Some j \<Longrightarrow> \<exists>r. dget (mcr_results s) j = Some r \<and> re_task_id (arr_result r) = k"
    and "\<And>k t. dget (mcr_tasks s) k = Some t \<Longrightarrow> status_terminal (tr_status t) \<longleftrightarrow> dget (mcr_result_by_task s) k \<noteq> None"
  shows "results_ok s"
  using assms unfolding results_ok_def by blast

lemma applied_okI:
  assumes "distinct (dkeys (mcr_applied_by_task s))"
    and "\<And>j r. dget (mcr_results s) j = Some r \<Longrightarrow>
          arr_apply_status r = (if dget (mcr_applied_by_task s) (re_task_id (arr_result r)) = None then ApplyPending else ApplyApplied)"
    and "\<And>k a. dget (mcr_applied_by_task s) k = Some a \<Longrightarrow>
          \<exists>j r t. dget (mcr_result_by_task s) k = Some j \<and> dget (mcr_results s) j = Some r \<and> dget (mcr_tasks s) k = Some t \<and> applied_from t r a"
  shows "applied_ok s"
  using assms unfolding applied_ok_def by blast

lemma close_task_simps [simp]: "tr_task (close_task t st now) = tr_task t" "tr_status (close_task t st now) = st"
  by (simp_all add: close_task_def)

lemma results_ok_effect: "core_effect s s' \<Longrightarrow> tasks_ok s \<Longrightarrow> results_ok s \<Longrightarrow> results_ok s'"
proof (induction rule: core_effect.induct)
  case (created t k s i ev)
  have o: "re_task_id (arr_result r) \<noteq> k" if "dget (mcr_results s) j = Some r" for j r
    using created that unfolding results_ok_def by (metis option.distinct(1))
  then have n: "dget (mcr_result_by_task s) k = None" using created.prems(2) unfolding results_ok_def by (metis not_None_eq)
  show ?case using created n o unfolding results_ok_def
    by (simp add: all_put status_terminal_def) (simp add: dict_get)
next
  case (decided s k t t' status now j r ev)
  have n: "dget (mcr_result_by_task s) k = None" using results_open [OF decided.prems(2)] decided.hyps(1,2) by blast
  note f = results_fresh(1) [OF decided.prems(2) n] results_fresh(2) [OF decided.prems(2) decided.hyps(4)]
  show ?case using decided.prems(2) decided.hyps(3,5,6,8-10) f unfolding results_ok_def
    by (simp add: all_put distinct_update) (simp add: dict_get)
next
  case (applied s j r k t a r' now reason ev)
  note ix = results_index [OF applied.prems(2)]
  have d: "decided_by u r' = decided_by u r" "arr_result r' = arr_result r" for u using applied.hyps(7) by (simp_all add: decided_by_def)
  show ?case
  proof (rule results_okI, goal_cases)
    case 1
    then show ?case using applied.prems(2) by (simp add: results_ok_def distinct_update)
  next
    case (2 l q)
    then show ?case using ix [OF applied.hyps(1)] ix [of l q] d by (auto simp: dict_get split: if_split_asm)
  next
    case (3 l h)
    then obtain q where "dget (mcr_results s) h = Some q" "re_task_id (arr_result q) = l"
      using applied.prems(2) unfolding results_ok_def by (simp, blast)
    then show ?case using applied.hyps(1) d by (auto simp: dict_get)
  next
    case (4 l u)
    then show ?case using results_open [OF applied.prems(2), of l u] by simp
  qed
qed (simp_all add: results_ok_def)

lemma applied_from_apply: "applied_from t (r\<lparr>arr_apply_status := x, arr_arena_applied_at := y, arr_rejection_reason := z\<rparr>) a = applied_from t r a"
  by (simp add: applied_from_def)

lemma applied_ok_effect: "core_effect s s' \<Longrightarrow> tasks_ok s \<Longrightarrow> results_ok s \<Longrightarrow> applied_ok s \<Longrightarrow> applied_ok s'"
proof (induction rule: core_effect.induct)
  case (created t k s i ev)
  have "l \<noteq> k" if "dget (mcr_applied_by_task s) l = Some a" for l a
    using created that unfolding applied_ok_def by (metis option.distinct(1))
  then show ?case using created unfolding applied_ok_def by (simp add: dict_get)
next
  case (decided s k t t' status now j r ev)
  have n: "dget (mcr_result_by_task s) k = None" using results_open [OF decided.prems(2)] decided.hyps(1,2) by blast
  note f = results_fresh(1) [OF decided.prems(2) n] results_fresh(2) [OF decided.prems(2) decided.hyps(4)]
  have o: "dget (mcr_applied_by_task s) k = None" using decided.prems(3) n unfolding applied_ok_def by (metis not_None_eq option.distinct(1))
  have a: "\<exists>h q u. dget (mcr_result_by_task s) l = Some h \<and> dget (mcr_results s) h = Some q \<and> dget (mcr_tasks s) l = Some u \<and> applied_from u q b \<and> l \<noteq> k \<and> h \<noteq> j"
    if "dget (mcr_applied_by_task s) l = Some b" for l b
    using decided.prems(3) that f(2) n unfolding applied_ok_def by (metis option.distinct(1))
  have p: "dget (mcr_applied_by_task s) l = Some b \<Longrightarrow> \<exists>h q u. dget (dput (mcr_result_by_task s) k j) l = Some h \<and>
      dget (dput (mcr_results s) j r) h = Some q \<and> dget (dput (mcr_tasks s) k t') l = Some u \<and> applied_from u q b" for l b
    using a [of l b] by (auto simp: dict_get)
  have "dget (mcr_results s) l = Some q \<Longrightarrow>
      arr_apply_status q = (if dget (mcr_applied_by_task s) (re_task_id (arr_result q)) = None then ApplyPending else ApplyApplied)" for l q
    using decided.prems(3) unfolding applied_ok_def by blast
  with p show ?case using decided.prems(3) decided.hyps(6,7) o unfolding applied_ok_def by (simp add: all_put)
next
  case (applied s j r k t a r' now reason ev)
  have ix: "dget (mcr_result_by_task s) k = Some j" using applied unfolding results_ok_def by blast
  have p: "re_task_id (arr_result q) \<noteq> k" if "dget (mcr_results s) l = Some q" "l \<noteq> j" for l q
    using that ix applied.prems(2) unfolding results_ok_def by (metis option.inject)
  have q: "h \<noteq> j" if "dget (mcr_result_by_task s) l = Some h" "l \<noteq> k" for l h
    using that ix applied.hyps(1,3) applied.prems(2) unfolding results_ok_def by (metis option.inject)
  have f: "applied_from u r' b = applied_from u r b" "arr_result r' = arr_result r" for u b using applied.hyps(7) by (simp_all add: applied_from_apply)
  have st: "dget (mcr_results s) l = Some q \<Longrightarrow>
      arr_apply_status q = (if dget (mcr_applied_by_task s) (re_task_id (arr_result q)) = None then ApplyPending else ApplyApplied)" for l q
    using applied.prems(3) unfolding applied_ok_def by blast
  have a: "\<exists>h q u. dget (mcr_result_by_task s) l = Some h \<and> dget (dput (mcr_results s) j r') h = Some q \<and> dget (mcr_tasks s) l = Some u \<and> applied_from u q b"
    if "dget (mcr_applied_by_task s) l = Some b" "l \<noteq> k" for l b
    using applied.prems(3) that q unfolding applied_ok_def by (simp add: dict_get) metis
  have "\<exists>h q u. dget (mcr_result_by_task s) k = Some h \<and> dget (dput (mcr_results s) j r') h = Some q \<and> dget (mcr_tasks s) k = Some u \<and> applied_from u q a"
    using ix applied.hyps(4,6) f by (simp add: dict_get)
  note new = this
  show ?case
  proof (rule applied_okI, goal_cases)
    case 1
    then show ?case using applied.prems(3) by (simp add: applied_ok_def distinct_update)
  next
    case (2 l q)
    show ?case
    proof (cases "l = j")
      case True
      then show ?thesis using 2 applied.hyps(3,7) by (auto simp: dict_get)
    next
      case False
      then have l: "dget (mcr_results s) l = Some q" using 2 by (simp add: dict_get)
      then show ?thesis using p [OF l False] st [OF l] by (simp add: dict_get)
    qed
  next
    case (3 l b)
    then show ?case using new a [of l b] by (cases "l = k") (auto simp: dict_get)
  qed
qed (simp_all add: applied_ok_def)

lemma core_inv_effect: "core_effect s s' \<Longrightarrow> core_inv s \<Longrightarrow> core_inv s'"
  unfolding core_inv_def using tasks_ok_effect results_ok_effect applied_ok_effect by blast

section \<open>Calls\<close>

lemma append_event_eq: "\<exists>ev. append_event uid k ty now data s = s\<lparr>mcr_events := ev\<rparr>"
  by (auto simp: append_event_def)

lemma append_event_effect: "core_effect s (append_event uid k ty now data s)"
  unfolding append_event_def by (rule core_effect.logged)

definition no_collision_with :: "string \<Rightarrow> MemoryArenaCoreRepository \<Rightarrow> bool" where
  "no_collision_with k s \<longleftrightarrow> list_all (\<lambda>l. default_result_id l = default_result_id k \<longrightarrow> l = k) (dkeys (mcr_tasks s))"

lemma create_task_effect:
  assumes "create_task u uid task config hash now s = (x, s')" "valid_task task" "no_collision_with (at_task_id task) s"
  shows "s' = s \<or> (\<exists>t. x = Inr t \<and> tr_task t = task \<and> core_effect s s')"
proof (cases "s' = s")
  case ch: False
  let ?k = "at_task_id task" and ?i = "(at_game_agent_id task, at_idempotency_key task)"
  have i: "dget (mcr_task_by_idempotency s) ?i = None"
    using assms(1) ch by (auto simp: create_task_def Let_def elim!: attempt_cases split: option.splits if_splits)
  obtain c where k: "dget (mcr_tasks s) ?k = None"
    and x: "(x, s') = (let rec = \<lparr>tr_task = task, tr_config_snapshot = c, tr_config_hash = hash,
                   tr_status = TQueued, tr_created_at = now, tr_attempt_count = 0, tr_leased_by = None,
                   tr_lease_expires_at = None, tr_completed_at = None\<rparr> in
             (Inr rec, append_event uid ?k ''created'' now [(''kind'', dump_string (kind_name (at_kind task)))]
                (s\<lparr>mcr_tasks := dput (mcr_tasks s) ?k rec, mcr_task_by_idempotency := dput (mcr_task_by_idempotency s) ?i ?k\<rparr>)))"
    using assms(1) unfolding create_task_def attempt_changes [OF ch] guard_changes [OF ch] Let_def i option.case by auto
  have "default_result_id ?k \<notin> default_result_id ` set (dkeys (mcr_tasks s))"
    using assms(3) k unfolding no_collision_with_def list_all_iff map_of_eq_None_iff by (auto simp: image_iff)
  then show ?thesis using x assms(2) i k
    by (auto simp: append_event_def task_key_def Let_def intro!: core_effect.created)
qed simp


lemma hexdigest_all: "list_all P ''0123456789abcdef'' \<Longrightarrow> list_all P (hexdigest (sha256 m))"
proof -
  assume p: "list_all P ''0123456789abcdef''"
  have "P (hex_digit n)" if "n < 16" for n
  proof -
    have "hex_digit n \<in> set ''0123456789abcdef''" using that unfolding hex_digit_def by (intro nth_mem) simp
    then show ?thesis using p unfolding list_all_iff by blast
  qed
  then show ?thesis using sha256_bytes [of m] by (auto simp: hexdigest_def list_all_iff)
qed

lemma length_hexdigest: "length (hexdigest bs) = 2 * length bs"
  by (induction bs) (simp_all add: hexdigest_def)

lemma Identifier_digest: "Identifier (c # p @ hexdigest (sha256 m)) \<longleftrightarrow> length p < 192 \<and> is_alnum c \<and> list_all identifier_char p"
proof -
  have "list_all identifier_char (hexdigest (sha256 m))" by (rule hexdigest_all) (simp add: identifier_char_def is_alnum_def is_digit_def)
  then show ?thesis by (auto simp: Identifier_def wire_identifier_def length_hexdigest length_sha256)
qed

lemma default_fresh:
  assumes "tasks_ok s" "results_ok s" "dget (mcr_tasks s) k = Some t" "dget (mcr_result_by_task s) k = None"
  shows "dget (mcr_results s) (default_result_id k) = None"
proof (rule ccontr)
  assume "dget (mcr_results s) (default_result_id k) \<noteq> None"
  then obtain r where r: "dget (mcr_results s) (default_result_id k) = Some r" by blast
  note ix = results_index [OF assms(2) r]
  obtain u where u: "dget (mcr_tasks s) (re_task_id (arr_result r)) = Some u" "decided_by u r" using ix(4) by blast
  have id: "at_task_id (tr_task u) = re_task_id (arr_result r)" using u(1) assms(1) unfolding tasks_ok_def by blast
  have "default_result_id k \<noteq> internal_result_id y" for y by (simp add: default_result_id_def internal_result_id_def)
  then have "default_result_id k = default_result_id (re_task_id (arr_result r))" using u(2) ix(1) id unfolding decided_by_def by auto
  moreover have "inj_on default_result_id (set (dkeys (mcr_tasks s)))" using assms(1) unfolding tasks_ok_def by blast
  ultimately have "k = re_task_id (arr_result r)" using get_in_keys [OF assms(3)] get_in_keys [OF u(1)] by (meson inj_onD)
  then show False using ix(3) assms(4) by simp
qed

lemma create_timeout_result_effect:
  assumes "tasks_ok s" "results_ok s" "dget (mcr_tasks s) k = Some t" "\<not> status_terminal (tr_status t)"
    "instant (at_deadline_at (tr_task t)) \<le> instant now"
  obtains r s' where "create_timeout_result uid t now s = (Inr r, s')" "core_effect s s'" "re_task_id (arr_result r) = k"
    "re_result_id (arr_result r) = default_result_id k" "mcr_tasks s' = dput (mcr_tasks s) k (close_task t TDefaulted now)"
    "mcr_result_by_task s' = dput (mcr_result_by_task s) k (default_result_id k)"
proof -
  have id: "at_task_id (tr_task t) = k" "valid_task (tr_task t)" using assms(1,3) unfolding tasks_ok_def by blast+
  have n: "dget (mcr_result_by_task s) k = None" using results_open [OF assms(2,3)] assms(4) by simp
  let ?r = "\<lparr>re_result_id = default_result_id k, re_task_id = k, re_schema_version = AGENT_TASK_RESULT_SCHEMA_VERSION_V1, re_status = RTimedOut, re_action = None\<rparr>"
  have "Identifier k" using id by (simp add: ArenaAgentTaskV1_validate_iff)
  moreover have "Identifier (default_result_id k)" 
    using Identifier_digest [of "CHR ''d''" "''efault:''" "utf8_string k"] by (simp add: default_result_id_def identifier_char_def is_alnum_def is_digit_def)
  ultimately have v: "AgentTaskResultV1_validate ?r = Inr ?r" by (simp add: AgentTaskResultV1_validate_iff)
  obtain h where h: "sha256_identifier (dump_result ?r) = Inr h"
    using clean_identifier [of "dump_result ?r"] by (auto simp: dump_result_def dump_string_def dump_option_def)
  let ?rec = "new_result_record ?r now h False None (Some ''deadline_elapsed'')"
  have d: "decided_by (close_task t TDefaulted now) ?rec"
    using assms(5) id by (simp add: decided_by_def new_result_record_def close_task_def)
  have "core_effect s (snd (create_timeout_result uid t now s))"
    using d assms(3,4) default_fresh [OF assms(1,2,3) n] v h id
    by (auto simp: create_timeout_result_def attempt_def Let_def append_event_def new_result_record_def sound_result_def status_terminal_def
        intro!: core_effect.decided)
  then show ?thesis using that v h id
    by (simp add: create_timeout_result_def attempt_def Let_def append_event_def new_result_record_def)
qed


lemma closed_terminal: "status_terminal (submitted_status st)" "status_terminal TDefaulted"
  by (simp_all add: submitted_status_def status_terminal_def)

lemma accept_result_effect:
  assumes "accept_result uid result now hash b v t s = (x, s')" "dget (mcr_tasks s) (re_task_id result) = Some t" "\<not> status_terminal (tr_status t)"
    "dget (mcr_results s) (internal_result_id (re_result_id result)) = None" "instant now < instant (at_deadline_at (tr_task t))" "sound_result result"
  shows "(\<exists>y. x = Inr y) \<and> core_effect s s'"
proof -
  have "sound_result (result\<lparr>re_result_id := j\<rparr>)" for j using assms(6) by (simp add: sound_result_def)
  then show ?thesis using assms
    by (auto simp: accept_result_def Let_def append_event_def new_result_record_def decided_by_def closed_terminal close_task_def
        intro!: core_effect.decided)
qed

text \<open>A call that fails leaves at most a line in the event log.\<close>

definition only_logged :: "MemoryArenaCoreRepository \<Rightarrow> MemoryArenaCoreRepository \<Rightarrow> bool" where
  "only_logged s s' \<longleftrightarrow> s' = s\<lparr>mcr_events := mcr_events s'\<rparr>"

lemma only_logged_refl [simp]: "only_logged s s"
  by (simp add: only_logged_def)

lemma only_logged_event [simp]: "only_logged s (append_event uid k ty now data s)"
  by (simp add: only_logged_def append_event_def)

lemma only_logged_effect: "only_logged s s' \<Longrightarrow> core_effect s s'"
  unfolding only_logged_def using core_effect.logged [of s "mcr_events s'"] by simp

text \<open>The outcome of a call: it takes transitions, and if it fails it only logs.\<close>

definition call_ok :: "MemoryArenaCoreRepository \<Rightarrow> 'a result \<times> MemoryArenaCoreRepository \<Rightarrow> bool" where
  "call_ok s xs \<longleftrightarrow> core_effect\<^sup>*\<^sup>* s (snd xs) \<and> ((\<exists>e. fst xs = Inl e) \<longrightarrow> only_logged s (snd xs))"

lemma call_ok_logged: "only_logged s (snd xs) \<Longrightarrow> call_ok s xs"
  by (auto simp: call_ok_def only_logged_effect)

lemma call_ok_effect: "core_effect s t \<Longrightarrow> call_ok s (Inr x, t)"
  by (simp add: call_ok_def)

lemma call_ok_attempt: "(\<And>y. r = Inr y \<Longrightarrow> call_ok s (f y)) \<Longrightarrow> call_ok s (attempt r s f)"
  by (cases r) (auto simp: attempt_def intro: call_ok_logged)

lemma replayed_result_ok: "call_ok s (replayed_result uid result now hash t q s)"
  by (auto simp: replayed_result_def Let_def intro!: call_ok_logged)

lemma submit_result_ok:
  assumes "core_inv s" "sound_result result"
  shows "call_ok s (submit_result u uid result clock b v s)"
  unfolding submit_result_def
proof (rule call_ok_attempt, rule call_ok_attempt, goal_cases)
  case (1 now _)
  have inv: "tasks_ok s" "results_ok s" using assms(1) by (simp_all add: core_inv_def)
  show ?case
  proof (cases "dget (mcr_tasks s) (re_task_id result)")
    case None
    then show ?thesis by (simp add: Let_def call_ok_logged)
  next
    case (Some t)
    note tk = this
    show ?thesis unfolding Let_def Some option.case
    proof (rule call_ok_attempt, goal_cases)
      case (1 hash)
      show ?case
      proof (cases "dget (mcr_results s) (internal_result_id (re_result_id result))")
        case None
        note new = this
        show ?thesis
        proof (cases "status_terminal (tr_status t)")
          case True
          then show ?thesis using None by (auto intro: call_ok_logged)
        next
          case False
          then have n: "dget (mcr_result_by_task s) (re_task_id result) = None" using results_open [OF inv(2) tk] by simp
          show ?thesis
          proof (cases "instant (at_deadline_at (tr_task t)) \<le> instant now")
            case True
            obtain r s' where c: "create_timeout_result uid t now s = (Inr r, s')" "core_effect s s'"
              using create_timeout_result_effect [OF inv tk False True] .
            have "core_effect\<^sup>*\<^sup>* s (append_event uid k ty now data s')" for k ty data using c(2) append_event_effect by (metis converse_rtranclp_into_rtranclp r_into_rtranclp)
            then show ?thesis using None n False True c(1) by (simp add: call_ok_def)
          next
            case late: False
            obtain x s' where a: "accept_result uid result now hash b v t s = (x, s')" by fastforce
            show ?thesis using accept_result_effect [OF a tk False new _ assms(2)] late a new n False by (auto intro: call_ok_effect)
          qed
        qed
      qed (simp add: replayed_result_ok)
    qed
  qed
qed

lemma with_message_sound: "sound_action a \<Longrightarrow> sound_action (with_message a m)"
  by (cases "(a, m)" rule: with_message.cases) auto

lemma sink_submit_ok:
  assumes "core_inv s" "sound_result result"
  shows "call_ok s (sink_submit u uid result clock s)"
  unfolding sink_submit_def
proof (rule call_ok_attempt, goal_cases)
  case 1
  show ?case
  proof (cases "\<exists>t a m. get_task s (re_task_id result) = Some t \<and> re_action result = Some a \<and> message_of a = Some m \<and> m \<noteq> []")
    case True
    then obtain t a m where eq: "get_task s (re_task_id result) = Some t" "re_action result = Some a" "message_of a = Some m" "m \<noteq> []" by blast
    have "sound_result (result\<lparr>re_action := Some (with_message a n)\<rparr>)" for n
      using assms(2) eq(2) by (simp add: sound_result_def with_message_sound)
    then show ?thesis using eq by (auto intro!: call_ok_attempt submit_result_ok [OF assms(1)])
  next
    case False
    then show ?thesis using submit_result_ok [OF assms] by (auto intro: call_ok_logged split: option.splits)
  qed
qed

text \<open>The candidate checks of a validated task and result never fail.\<close>

lemma FixedDecimal_form: "FixedDecimal d \<Longrightarrow> \<exists>c k. d = Dec False c (- int k) \<and> c < 10 ^ 38 \<and> k \<le> 18"
proof -
  assume fd: "FixedDecimal d"
  obtain v where v: "parse_fixed_decimal v = Inr d" using fd by (auto simp: FixedDecimal_def)
  then have "fixed_decimal_pattern v" by (auto simp: parse_fixed_decimal_def split: if_splits)
  then show ?thesis
  proof (cases rule: fixed_decimal_parts)
    case (whole i)
    then have l: "length i \<le> 38" using v by (auto simp: parse_fixed_decimal_def MAX_DECIMAL_DIGITS_def Let_def split: if_splits)
    then have "d = Dec False (nat_of_digits i) (- int 0)" using v parse_whole [OF whole(2)] whole(1) by simp
    moreover have "nat_of_digits i < 10 ^ 38"
      using nat_of_digits_less [of i] canonical_digits [OF whole(2)] power_increasing [OF l, of "10 :: nat"] by (simp add: order_less_le_trans)
    ultimately show ?thesis by blast
  next
    case (fraction i f)
    then have l: "length i + length f \<le> 38" "length f \<le> 18"
      using v by (auto simp: parse_fixed_decimal_def MAX_DECIMAL_DIGITS_def MAX_DECIMAL_PLACES_def Let_def simp del: append.simps split: if_splits)
    then have "d = Dec False (nat_of_digits (i @ f)) (- int (length f))" using v parse_fraction [OF fraction(2-4)] fraction(1) by simp
    moreover have "nat_of_digits (i @ f) < 10 ^ 38"
      using nat_of_digits_less [of "i @ f"] canonical_digits [OF fraction(2)] fraction(4) l(1) power_increasing [of "length (i @ f)" 38 "10 :: nat"]
      by (simp add: order_less_le_trans)
    ultimately show ?thesis using l(2) by blast
  qed
qed

lemma dec_mult_total:
  assumes "FixedDecimal d" "n \<le> 1000000"
  shows "\<exists>c e. dec_mult_nat d n = Inr (Dec False c e)"
proof -
  obtain c k where d: "d = Dec False c (- int k)" "c < 10 ^ 38" "k \<le> 18" using FixedDecimal_form [OF assms(1)] by blast
  have "c * n < 10 ^ 38 * 10 ^ 6" 
  proof (cases "n = 0")
    case False
    then show ?thesis using mult_less_le_imp_less [of c "10 ^ 38" n "10 ^ 6"] d(2) assms(2) by simp
  qed simp
  then have "ndigits (c * n) \<le> 44" using ndigits_le [of "c * n" 44] by simp
  then show ?thesis using d(3) by (simp add: d(1) dec_fix_def Let_def dec_prec_def dec_Etop_def dec_Etiny_def dec_Emax_def)
qed

text \<open>A computation that does not raise.\<close>

definition returns :: "'a result \<Rightarrow> bool" where
  "returns r \<longleftrightarrow> (\<exists>v. r = Inr v)"

lemma returns_intros:
  "returns (Inr v)"
  "(\<not> c \<Longrightarrow> returns q) \<Longrightarrow> returns (violation c code q)"
  "returns r \<Longrightarrow> (\<And>x. r = Inr x \<Longrightarrow> returns (f x)) \<Longrightarrow> returns (bindR r f)"
  "FixedDecimal d \<Longrightarrow> returns (has_arena_money_precision d)"
  "FixedDecimal d \<Longrightarrow> returns (dec_mult_nat d (Suc 0))"
  "pred_option FixedDecimal p \<Longrightarrow> returns (price_ok p)"
proof -
  show p: "returns (has_arena_money_precision d)" if "FixedDecimal d" for d
    using dec_mult_total [OF that, of 1000000] by (auto simp: has_arena_money_precision_def returns_def)
  show "returns (price_ok p)" if "pred_option FixedDecimal p" for p using that by (cases p) (auto simp: price_ok_def p, auto simp: returns_def)
qed (use dec_mult_total [of d 1] in \<open>auto simp: returns_def violation_def\<close>)

lemma decide_total:
  assumes "sound_action a" "is_decide_action a"
  shows "returns (decide_candidate_violation i a)"
proof -
  have "returns (decide_order_violation i b f)" if "sound_order f" for b f
    using that unfolding decide_order_violation_def sound_order_def by (auto intro!: returns_intros split: option.splits bool.splits)
  then show ?thesis using assms by (cases a) (auto simp: decide_candidate_violation_def intro!: returns_intros)
qed

lemma intent_total:
  assumes "sound_action a" "is_decide_action a"
  shows "returns (market_intent_candidate_violation i a)"
proof -
  have "returns (intent_order_violation i b f)" if "sound_order f" for b f
    using that unfolding intent_order_violation_def sound_order_def by (auto intro!: returns_intros split: option.splits)
  then show ?thesis using assms by (cases a) (auto simp: market_intent_candidate_violation_def intro!: returns_intros)
qed

lemma rfq_total:
  assumes "sound_action a" "is_rfq_action a"
  shows "returns (market_rfq_candidate_violation i a)"
proof -
  have "returns (rfq_loop vs l rs)" if "list_all (\<lambda>c. FixedDecimal (nrc_opening_price c)) rs" for vs l rs
    using that by (induction rs) (auto intro!: returns_intros)
  then show ?thesis using assms by (cases a) (auto simp: market_rfq_candidate_violation_def intro!: returns_intros)
qed

lemma select_total: "returns (market_select_candidate_violation i a)"
  by (cases a) (auto simp: market_select_candidate_violation_def intro!: returns_intros)

lemma negotiation_total: "sound_action a \<Longrightarrow> returns (negotiation_candidate_violation i a)"
  by (cases a) (auto simp: negotiation_candidate_violation_def intro!: returns_intros split: option.splits)

lemma checked_total: "sound_action a \<Longrightarrow> checked_action t a = Some c \<Longrightarrow> returns c"
  by (auto simp: checked_action_def decide_total intent_total rfq_total select_total negotiation_total
      split: ArenaTaskKindV1.splits ArenaTaskInput.splits if_splits)

lemma candidate_application_accepted: "candidate_application t a c = Inr app \<Longrightarrow> aa_accepted app"
  by (auto simp: candidate_application_def bindR_Inr_iff default_application_def split: option.splits)

text \<open>Every terminal result has an application, and it is never refused.\<close>

lemma derive_total: "sound_result r \<Longrightarrow> \<exists>app. derive_application t r = Inr app"
  using checked_total [of "the (re_action r)" t]
  by (auto simp: derive_application_def sound_result_def candidate_application_def returns_def split: option.splits)

lemma derive_accepted: "derive_application t r = Inr app \<Longrightarrow> aa_accepted app"
  by (auto simp: derive_application_def candidate_application_accepted default_application_def split: if_splits option.splits)

lemma effects_inv: "core_effect\<^sup>*\<^sup>* s s' \<Longrightarrow> core_inv s \<Longrightarrow> core_inv s'"
  by (induction rule: rtranclp_induct) (auto intro: core_inv_effect)

lemma timeout_loop_effect:
  assumes "core_inv s" "distinct (map (\<lambda>t. at_task_id (tr_task t)) ts)"
    and "\<forall>t \<in> set ts. dget (mcr_tasks s) (at_task_id (tr_task t)) = Some t \<and> \<not> status_terminal (tr_status t)
      \<and> instant (at_deadline_at (tr_task t)) \<le> instant now"
  shows "\<exists>rs s'. timeout_loop uid now ts s = (Inr rs, s') \<and> core_effect\<^sup>*\<^sup>* s s' \<and> map (\<lambda>r. re_task_id (arr_result r)) rs = map (\<lambda>t. at_task_id (tr_task t)) ts
     \<and> (\<forall>t \<in> set ts. dget (mcr_tasks s') (at_task_id (tr_task t)) = Some (close_task t TDefaulted now))
     \<and> (\<forall>k. k \<notin> (\<lambda>t. at_task_id (tr_task t)) ` set ts \<longrightarrow> dget (mcr_tasks s') k = dget (mcr_tasks s) k)"
  using assms
proof (induction ts arbitrary: s)
  case (Cons t ts)
  let ?id = "\<lambda>t. at_task_id (tr_task t)"
  obtain r s1 where c: "create_timeout_result uid t now s = (Inr r, s1)" "core_effect s s1" "re_task_id (arr_result r) = ?id t"
    "mcr_tasks s1 = dput (mcr_tasks s) (?id t) (close_task t TDefaulted now)"
  proof -
    have "tasks_ok s" "results_ok s" "dget (mcr_tasks s) (?id t) = Some t" "\<not> status_terminal (tr_status t)" "instant (at_deadline_at (tr_task t)) \<le> instant now"
      using Cons.prems by (auto simp: core_inv_def)
    from create_timeout_result_effect [OF this, of uid] show thesis using that by blast
  qed
  have "core_inv s1" using Cons.prems(1) c(2) by (rule core_inv_effect [rotated])
  moreover have "\<forall>u \<in> set ts. dget (mcr_tasks s1) (?id u) = Some u \<and> \<not> status_terminal (tr_status u) \<and> instant (at_deadline_at (tr_task u)) \<le> instant now"
  proof
    fix u assume u: "u \<in> set ts"
    then have "?id u \<noteq> ?id t" using Cons.prems(2) by (auto simp: image_iff)
    then have "dget (mcr_tasks s1) (?id u) = dget (mcr_tasks s) (?id u)" by (simp add: c(4) dict_get)
    then show "dget (mcr_tasks s1) (?id u) = Some u \<and> \<not> status_terminal (tr_status u) \<and> instant (at_deadline_at (tr_task u)) \<le> instant now"
      using Cons.prems(3) u by simp
  qed
  ultimately obtain rs s2 where l: "timeout_loop uid now ts s1 = (Inr rs, s2)" "core_effect\<^sup>*\<^sup>* s1 s2" "map (\<lambda>r. re_task_id (arr_result r)) rs = map ?id ts"
    "\<forall>u \<in> set ts. dget (mcr_tasks s2) (?id u) = Some (close_task u TDefaulted now)" "\<forall>k. k \<notin> ?id ` set ts \<longrightarrow> dget (mcr_tasks s2) k = dget (mcr_tasks s1) k"
    using Cons.IH [of s1] Cons.prems(2) by auto
  have "core_effect\<^sup>*\<^sup>* s s2" using c(2) l(2) by (rule converse_rtranclp_into_rtranclp)
  then show ?case using l c(1,3) Cons.prems(2) by (auto simp: c(4) dict_get)
qed simp

lemma expired_tasks_stored:
  assumes "core_inv s"
  shows "distinct (map (\<lambda>t. at_task_id (tr_task t)) (expired_tasks now s))"
    "t \<in> set (expired_tasks now s) \<longleftrightarrow> dget (mcr_tasks s) (at_task_id (tr_task t)) = Some t \<and> \<not> status_terminal (tr_status t)
      \<and> instant (at_deadline_at (tr_task t)) \<le> instant now"
proof -
  have ok: "tasks_ok s" "results_ok s" using assms by (simp_all add: core_inv_def)
  have d: "distinct (dkeys (mcr_tasks s))" using ok(1) by (simp add: tasks_ok_def)
  have m: "(k, v) \<in> set (mcr_tasks s) \<Longrightarrow> at_task_id (tr_task v) = k" for k v using ok(1) map_of_eq_Some_iff [OF d] unfolding tasks_ok_def by metis
  then have keys: "map (\<lambda>t. at_task_id (tr_task t)) (dvalues (mcr_tasks s)) = dkeys (mcr_tasks s)" by auto
  have "inj_on (\<lambda>t. at_task_id (tr_task t)) (set (dvalues (mcr_tasks s)))" "distinct (dvalues (mcr_tasks s))"
    using d keys by (metis distinct_map)+
  then show "distinct (map (\<lambda>t. at_task_id (tr_task t)) (expired_tasks now s))"
    by (auto simp: expired_tasks_def distinct_map intro: inj_on_subset)
  have "t \<in> set (dvalues (mcr_tasks s)) \<longleftrightarrow> dget (mcr_tasks s) (at_task_id (tr_task t)) = Some t"
    using dict.vals_get [OF d, of t] ok(1) unfolding tasks_ok_def by blast
  then show "t \<in> set (expired_tasks now s) \<longleftrightarrow> dget (mcr_tasks s) (at_task_id (tr_task t)) = Some t \<and> \<not> status_terminal (tr_status t)
      \<and> instant (at_deadline_at (tr_task t)) \<le> instant now"
    using results_open [OF ok(2), of "at_task_id (tr_task t)" t] unfolding expired_tasks_def set_sort set_filter by auto
qed

lemma finalize_expired_effect:
  assumes "core_inv s" "is_aware now" "0 < n"
  shows "\<exists>rs s'. finalize_expired uid now n s = (Inr rs, s') \<and> core_effect\<^sup>*\<^sup>* s s'
     \<and> map (\<lambda>r. re_task_id (arr_result r)) rs = map (\<lambda>t. at_task_id (tr_task t)) (take (nat n) (expired_tasks now s))
     \<and> (\<forall>t \<in> set (take (nat n) (expired_tasks now s)). dget (mcr_tasks s') (at_task_id (tr_task t)) = Some (close_task t TDefaulted now))
     \<and> (\<forall>k. k \<notin> (\<lambda>t. at_task_id (tr_task t)) ` set (take (nat n) (expired_tasks now s)) \<longrightarrow> dget (mcr_tasks s') k = dget (mcr_tasks s) k)"
proof -
  have "\<forall>t \<in> set (take (nat n) (expired_tasks now s)). dget (mcr_tasks s) (at_task_id (tr_task t)) = Some t
     \<and> \<not> status_terminal (tr_status t) \<and> instant (at_deadline_at (tr_task t)) \<le> instant now"
    using expired_tasks_stored(2) [OF assms(1)] by (blast dest: in_set_takeD)
  moreover have "distinct (map (\<lambda>t. at_task_id (tr_task t)) (take (nat n) (expired_tasks now s)))"
    using expired_tasks_stored(1) [OF assms(1)] unfolding take_map [symmetric] by (rule distinct_take)
  ultimately have "\<exists>rs s'. timeout_loop uid now (take (nat n) (expired_tasks now s)) s = (Inr rs, s') \<and> core_effect\<^sup>*\<^sup>* s s'
     \<and> map (\<lambda>r. re_task_id (arr_result r)) rs = map (\<lambda>t. at_task_id (tr_task t)) (take (nat n) (expired_tasks now s))
     \<and> (\<forall>t \<in> set (take (nat n) (expired_tasks now s)). dget (mcr_tasks s') (at_task_id (tr_task t)) = Some (close_task t TDefaulted now))
     \<and> (\<forall>k. k \<notin> (\<lambda>t. at_task_id (tr_task t)) ` set (take (nat n) (expired_tasks now s)) \<longrightarrow> dget (mcr_tasks s') k = dget (mcr_tasks s) k)"
    by (intro timeout_loop_effect assms(1))
  then show ?thesis using assms(2,3) by (simp add: finalize_expired_def attempt_def server_now_def)
qed

lemma finalize_expired_ok: "core_inv s \<Longrightarrow> call_ok s (finalize_expired uid now n s)"
proof (cases "0 < n \<and> is_aware now")
  case True
  assume "core_inv s"
  then obtain rs s' where "finalize_expired uid now n s = (Inr rs, s')" "core_effect\<^sup>*\<^sup>* s s'"
    using finalize_expired_effect [of s now n uid] True by blast
  then show ?thesis by (simp add: call_ok_def)
qed (auto simp: finalize_expired_def server_now_def attempt_def intro: call_ok_logged)

lemma applied_status:
  "core_inv s \<Longrightarrow> dget (mcr_results s) j = Some r
    \<Longrightarrow> arr_apply_status r = (if dget (mcr_applied_by_task s) (re_task_id (arr_result r)) = None then ApplyPending else ApplyApplied)"
  unfolding core_inv_def applied_ok_def by blast

text \<open>Applying a stored result succeeds: it is applied now, or was before.\<close>

lemma apply_result_effect:
  assumes "core_inv s" "dget (mcr_results s) j = Some r" "is_aware now"
  obtains y s' where "apply_result uid j now s = (Inr y, s')" "core_effect\<^sup>*\<^sup>* s s'"
    "y = None \<longleftrightarrow> arr_apply_status r \<noteq> ApplyPending" "\<forall>a. y = Some a \<longrightarrow> dget (mcr_applied_by_task s') (re_task_id (arr_result r)) = Some a"
    "\<exists>q. dget (mcr_results s') j = Some q \<and> arr_apply_status q = ApplyApplied" "\<forall>l. l \<noteq> j \<longrightarrow> dget (mcr_results s') l = dget (mcr_results s) l"
proof (cases "arr_apply_status r = ApplyPending")
  case True
  have ok: "tasks_ok s" "results_ok s" using assms(1) by (simp_all add: core_inv_def)
  let ?k = "re_task_id (arr_result r)"
  note ix = results_index [OF ok(2) assms(2)]
  obtain t where t: "dget (mcr_tasks s) ?k = Some t" using ix(4) by blast
  have id: "at_task_id (tr_task t) = ?k" using ok(1) t unfolding tasks_ok_def by blast
  have n: "dget (mcr_applied_by_task s) ?k = None" using applied_status [OF assms(1,2)] True by (simp split: if_splits)
  obtain app where app: "derive_application (tr_task t) (arr_result r) = Inr app" using derive_total [OF ix(2)] by blast
  let ?a = "\<lparr>ap_task_id = ?k, ap_result_id = j, ap_kind = at_kind (tr_task t), ap_outcome = aa_outcome app, ap_action = aa_action app,
      ap_entered_at = (if aa_outcome app = Candidate then arr_result_received_at r else now), ap_applied_at = now\<rparr>"
  let ?r = "r\<lparr>arr_apply_status := ApplyApplied, arr_arena_applied_at := Some now, arr_rejection_reason := aa_rejection_reason app\<rparr>"
  obtain ev where e: "apply_result uid j now s = (Inr (Some ?a), s\<lparr>mcr_applied_by_task := dput (mcr_applied_by_task s) ?k ?a,
      mcr_results := dput (mcr_results s) j ?r, mcr_events := ev\<rparr>)"
    using assms(2,3) True t app derive_accepted [OF app] n id
    by (auto simp: apply_result_def attempt_def server_now_def apply_accepted_def Let_def append_event_def)
  have "applied_from t r ?a" using app id ix(1) by (simp add: applied_from_def)
  then have "core_effect s (s\<lparr>mcr_applied_by_task := dput (mcr_applied_by_task s) ?k ?a, mcr_results := dput (mcr_results s) j ?r, mcr_events := ev\<rparr>)"
    using assms(2) True t n by (intro core_effect.applied) auto
  then show ?thesis using that [OF e] True by (auto simp: dict_get)
next
  case False
  then have "arr_apply_status r = ApplyApplied" using applied_status [OF assms(1,2)] by (simp split: if_splits)
  then show ?thesis using that [of None s] assms(2,3) False by (auto simp: apply_result_def attempt_def server_now_def)
qed

lemma apply_result_ok: "core_inv s \<Longrightarrow> call_ok s (apply_result uid j now s)"
proof (cases "is_aware now \<and> dget (mcr_results s) j \<noteq> None")
  case True
  assume "core_inv s"
  then obtain y s' where "apply_result uid j now s = (Inr y, s')" "core_effect\<^sup>*\<^sup>* s s'"
    using apply_result_effect True by (metis option.exhaust_sel)
  then show ?thesis by (simp add: call_ok_def)
qed (auto simp: apply_result_def server_now_def attempt_def intro: call_ok_logged)

lemma consume_loop_effect:
  assumes "core_inv s" "distinct (map (\<lambda>r. re_result_id (arr_result r)) rs)" "\<And>n. is_aware (clock n)"
    and "\<forall>r \<in> set rs. dget (mcr_results s) (re_result_id (arr_result r)) = Some r \<and> arr_apply_status r = ApplyPending"
  shows "\<exists>items s'. consume_loop uid clock rs s = (Inr items, s') \<and> core_effect\<^sup>*\<^sup>* s s' \<and> length items = length rs
     \<and> (\<forall>r \<in> set rs. \<exists>q. dget (mcr_results s') (re_result_id (arr_result r)) = Some q \<and> arr_apply_status q = ApplyApplied)
     \<and> (\<forall>l. l \<notin> (\<lambda>r. re_result_id (arr_result r)) ` set rs \<longrightarrow> dget (mcr_results s') l = dget (mcr_results s) l)"
  using assms
proof (induction rs arbitrary: s)
  case (Cons r rs)
  let ?id = "\<lambda>r. re_result_id (arr_result r)"
  have r: "dget (mcr_results s) (?id r) = Some r" "arr_apply_status r = ApplyPending" using Cons.prems(4) by auto
  obtain y s1 where y: "apply_result uid (?id r) (clock (length rs)) s = (Inr y, s1)" "core_effect\<^sup>*\<^sup>* s s1"
    "y = None \<longleftrightarrow> arr_apply_status r \<noteq> ApplyPending" "\<exists>q. dget (mcr_results s1) (?id r) = Some q \<and> arr_apply_status q = ApplyApplied"
    "\<forall>l. l \<noteq> ?id r \<longrightarrow> dget (mcr_results s1) l = dget (mcr_results s) l"
    by (rule apply_result_effect [OF Cons.prems(1) r(1) Cons.prems(3), of uid "length rs"]) (rule that; assumption)
  obtain a where a: "y = Some a" using y(3) r(2) by blast
  have "core_inv s1" using y(2) Cons.prems(1) by (rule effects_inv)
  moreover have "\<forall>q \<in> set rs. dget (mcr_results s1) (?id q) = Some q \<and> arr_apply_status q = ApplyPending"
  proof
    fix q assume q: "q \<in> set rs"
    then have "?id q \<noteq> ?id r" using Cons.prems(2) by (auto simp: image_iff)
    then show "dget (mcr_results s1) (?id q) = Some q \<and> arr_apply_status q = ApplyPending" using Cons.prems(4) y(5) q by simp
  qed
  ultimately obtain items s2 where l: "consume_loop uid clock rs s1 = (Inr items, s2)" "core_effect\<^sup>*\<^sup>* s1 s2" "length items = length rs"
     "\<forall>r \<in> set rs. \<exists>q. dget (mcr_results s2) (?id r) = Some q \<and> arr_apply_status q = ApplyApplied"
     "\<forall>l. l \<notin> ?id ` set rs \<longrightarrow> dget (mcr_results s2) l = dget (mcr_results s1) l"
    using Cons.IH [of s1] Cons.prems(2,3) by auto
  have "\<exists>q. dget (mcr_results s2) (?id r) = Some q \<and> arr_apply_status q = ApplyApplied" using Cons.prems(2) l(5) y(4) by simp
  moreover have "core_effect\<^sup>*\<^sup>* s s2" using y(2) l(2) by (rule rtranclp_trans)
  ultimately show ?case using l y(1,5) a by auto
qed simp

lemma pending_results_stored:
  assumes "core_inv s"
  shows "distinct (map (\<lambda>r. re_result_id (arr_result r)) (pending_results n s))"
    "r \<in> set (pending_results n s) \<Longrightarrow> dget (mcr_results s) (re_result_id (arr_result r)) = Some r \<and> arr_apply_status r = ApplyPending"
    "int (length (mcr_results s)) \<le> n \<Longrightarrow> dget (mcr_results s) j = Some r \<Longrightarrow> arr_apply_status r = ApplyPending \<Longrightarrow> r \<in> set (pending_results n s)"
proof -
  have ok: "results_ok s" using assms by (simp add: core_inv_def)
  have d: "distinct (dkeys (mcr_results s))" using ok by (simp add: results_ok_def)
  have m: "(k, v) \<in> set (mcr_results s) \<Longrightarrow> re_result_id (arr_result v) = k" for k v using ok map_of_eq_Some_iff [OF d] unfolding results_ok_def by metis
  let ?p = "sort_key (\<lambda>r. (instant (arr_result_received_at r), re_result_id (arr_result r))) (filter (\<lambda>r. arr_apply_status r = ApplyPending) (dvalues (mcr_results s)))"
  have "map (\<lambda>r. re_result_id (arr_result r)) (dvalues (mcr_results s)) = dkeys (mcr_results s)" using m by auto
  then have "inj_on (\<lambda>r. re_result_id (arr_result r)) (set (dvalues (mcr_results s)))" "distinct (dvalues (mcr_results s))"
    using d by (metis distinct_map)+
  then have p: "distinct (map (\<lambda>r. re_result_id (arr_result r)) ?p)" by (auto simp: distinct_map intro: inj_on_subset)
  show "distinct (map (\<lambda>r. re_result_id (arr_result r)) (pending_results n s))"
    using distinct_take [OF p, of "nat n"] by (auto simp: pending_results_def take_map)
  have v: "q \<in> set (dvalues (mcr_results s)) \<longleftrightarrow> dget (mcr_results s) (re_result_id (arr_result q)) = Some q" for q
    using dict.vals_get [OF d, of q] results_index(1) [OF ok] by blast
  have q: "q \<in> set ?p \<longleftrightarrow> dget (mcr_results s) (re_result_id (arr_result q)) = Some q \<and> arr_apply_status q = ApplyPending" for q
    using v [of q] unfolding set_sort set_filter by auto
  show "r \<in> set (pending_results n s) \<Longrightarrow> dget (mcr_results s) (re_result_id (arr_result r)) = Some r \<and> arr_apply_status r = ApplyPending"
    using q [of r] in_set_takeD [of r "nat n" ?p] by (simp only: pending_results_def split: if_splits) simp_all
  show "r \<in> set (pending_results n s)" if "int (length (mcr_results s)) \<le> n" "dget (mcr_results s) j = Some r" "arr_apply_status r = ApplyPending"
  proof -
    have "r \<in> set ?p" using q [of r] that(2,3) results_index(1) [OF ok that(2)] by simp
    moreover have "length ?p \<le> nat n" using that(1) by (simp add: order_trans [OF length_filter_le])
    moreover have "0 < n" using that(1,2) by (cases "mcr_results s") auto
    ultimately show ?thesis by (simp add: pending_results_def del: set_sort)
  qed
qed

lemma consume_pending_effect:
  assumes "core_inv s" "\<And>n. is_aware (clock n)"
  shows "\<exists>items s'. consume_pending uid clock n s = (Inr items, s') \<and> core_effect\<^sup>*\<^sup>* s s' \<and> length items = length (pending_results n s)
     \<and> (\<forall>r \<in> set (pending_results n s). \<exists>q. dget (mcr_results s') (re_result_id (arr_result r)) = Some q \<and> arr_apply_status q = ApplyApplied)
     \<and> (\<forall>l. l \<notin> (\<lambda>r. re_result_id (arr_result r)) ` set (pending_results n s) \<longrightarrow> dget (mcr_results s') l = dget (mcr_results s) l)"
  unfolding consume_pending_def
  using pending_results_stored(1,2) [OF assms(1)] by (intro consume_loop_effect assms) auto

end
