(* ===== verification/Arena_Ingress_Properties.thy ===== *)
theory Arena_Ingress_Properties
  imports Arena_Ingress "HOL-Library.Sublist"
begin

text \<open>
  Proofs about \<open>ingress_security.py\<close> and \<open>public_output_policy.py\<close>: which snapshots are let in, and what a public message can contain.
\<close>

section \<open>Snapshots\<close>

declare scan_config_value.simps [simp del]

lemma unsafe_unicode_None: "unsafe_unicode_reason u t = None \<longleftrightarrow> list_all (\<lambda>c. c \<notin> set BIDI_AND_ZERO_WIDTH \<and> u_category u c \<notin> {''Cf'', ''Cs'', ''Cc''}) t"
  by (induction t) auto

lemma unsafe_unicode_cases: "unsafe_unicode_reason u t \<in> {None, Some ''unsafe_unicode_format'', Some ''unsafe_unicode_control''}"
  by (induction t) auto

lemma sensitive_text_None:
  "sensitive_text_reason u True t = None \<longleftrightarrow> list_all (\<lambda>r. \<not> re_search u r (u_nfkc u t)) (SECRET_PATTERNS @ PII_PATTERNS)"
  by (auto simp: sensitive_text_reason_def Let_def list_ex_iff list_all_iff)

text \<open>
  What may be stored, without the scan: how many values a snapshot has, how deep they lie, and which keys and texts are clean. A text is
  clean when it has no direction, format, surrogate or control character and its normal form has no secret and no e-mail
  address; a key is clean when its text is, and its letters and digits, in normal form and case-folded, are one of the names for a
  reference or neither the name of a secret nor end in one.
\<close>

fun config_nodes :: "config_value \<Rightarrow> nat" where
  "config_nodes (CSequence vs) = Suc (sum_list (map config_nodes vs))"
| "config_nodes (CMapping kvs) = Suc (sum_list (map (\<lambda>(k, v). config_nodes v) kvs))"
| "config_nodes (CEnum v) = Suc (config_nodes v)"
| "config_nodes _ = 1"

fun config_depth :: "config_value \<Rightarrow> nat" where
  "config_depth (CSequence vs) = foldr max (map (\<lambda>v. Suc (config_depth v)) vs) 0"
| "config_depth (CMapping kvs) = foldr max (map (\<lambda>(k, v). Suc (config_depth v)) kvs) 0"
| "config_depth (CEnum v) = Suc (config_depth v)"
| "config_depth _ = 0"

definition safe_text :: "ucd \<Rightarrow> utext \<Rightarrow> bool" where
  "safe_text u t \<longleftrightarrow> list_all (\<lambda>c. c \<notin> set BIDI_AND_ZERO_WIDTH \<and> u_category u c \<notin> {''Cf'', ''Cs'', ''Cc''}) t
     \<and> list_all (\<lambda>r. \<not> re_search u r (u_nfkc u t)) (SECRET_PATTERNS @ PII_PATTERNS)"

fun safe_key :: "ucd \<Rightarrow> config_key \<Rightarrow> bool" where
  "safe_key u KOther = False"
| "safe_key u (KText t) = (safe_text u t \<and>
     (let name = filter (u_isalnum u) (u_casefold u (u_nfkc u t)) in
      name \<in> ascii ` set SAFE_REFERENCE_KEYS
      \<or> name \<notin> ascii ` set SECRET_KEY_NAMES \<and> \<not> list_ex (\<lambda>s. suffix (ascii s) name) SECRET_KEY_SUFFIXES))"

fun config_clean :: "ucd \<Rightarrow> config_value \<Rightarrow> bool" where
  "config_clean u (CText t) = safe_text u t"
| "config_clean u CBinary = False"
| "config_clean u (CMapping kvs) = list_all (\<lambda>(k, v). safe_key u k \<and> config_clean u v) kvs"
| "config_clean u (CSequence vs) = list_all (config_clean u) vs"
| "config_clean u (CEnum v) = config_clean u v"
| "config_clean u COther = False"
| "config_clean u _ = True"

lemma safe_text_iff: "safe_text u t \<longleftrightarrow> unsafe_unicode_reason u t = None \<and> sensitive_text_reason u True t = None"
  unfolding safe_text_def unsafe_unicode_None sensitive_text_None ..

lemma validate_text_iff: "validate_runtime_controlled_text u True t = Inr x \<longleftrightarrow> x = t \<and> safe_text u t"
  by (auto simp: validate_runtime_controlled_text_def safe_text_iff split: option.splits)

lemma ends_with_suffix: "ends_with t s \<longleftrightarrow> suffix s t"
proof
  assume "ends_with t s"
  then have "t = take (length t - length s) t @ s" unfolding ends_with_def by (metis append_take_drop_id)
  then show "suffix s t" unfolding suffix_def by blast
qed (auto simp: ends_with_def suffix_def)

lemma check_key_iff: "check_config_key u k = Inr () \<longleftrightarrow> safe_key u k"
  by (cases k) (auto simp: check_config_key_def safe_text_iff is_secret_bearing_key_def normalize_key_def ends_with_suffix Let_def
      split: option.splits)

lemma config_nodes_pos: "0 < config_nodes v"
  by (cases v) auto

definition scans :: "ucd \<Rightarrow> config_value \<Rightarrow> bool" where
  "scans u v \<longleftrightarrow> (\<forall>d n m. scan_config_value u d v n = Inr m \<longleftrightarrow>
     n + config_nodes v \<le> 4096 \<and> d + config_depth v \<le> 16 \<and> config_clean u v \<and> m = n + config_nodes v)"

lemma scan_list:
  assumes "\<And>v. v \<in> set vs \<Longrightarrow> scans u (g v)"
  shows "foldR (\<lambda>v n. bindR (c v) (\<lambda>(_ :: unit). scan_config_value u (Suc d) (g v) n)) vs n = Inr m \<longleftrightarrow>
     (vs = [] \<or> n + sum_list (map (\<lambda>v. config_nodes (g v)) vs) \<le> 4096) \<and> (vs = [] \<or> d + foldr max (map (\<lambda>v. Suc (config_depth (g v))) vs) 0 \<le> 16)
     \<and> list_all (\<lambda>v. c v = Inr () \<and> config_clean u (g v)) vs \<and> m = n + sum_list (map (\<lambda>v. config_nodes (g v)) vs)"
  using assms
proof (induction vs arbitrary: n)
  case (Cons v vs)
  have s: "scan_config_value u (Suc d) (g v) n = Inr k \<longleftrightarrow> n + config_nodes (g v) \<le> 4096 \<and> Suc d + config_depth (g v) \<le> 16 \<and> config_clean u (g v) \<and> k = n + config_nodes (g v)" for n k
    using Cons.prems [of v] unfolding scans_def by simp
  show ?case using Cons.IH Cons.prems by (cases vs) (auto simp: bindR_Inr_iff s)
qed auto

lemma config_mapping:
  "config_nodes (CMapping kvs) = Suc (sum_list (map (\<lambda>kv. config_nodes (snd kv)) kvs))"
  "config_depth (CMapping kvs) = foldr max (map (\<lambda>kv. Suc (config_depth (snd kv))) kvs) 0"
  "config_clean u (CMapping kvs) = list_all (\<lambda>kv. check_config_key u (fst kv) = Inr () \<and> config_clean u (snd kv)) kvs"
  by (simp_all add: case_prod_unfold check_key_iff)

lemmas scan_limits = MAX_CONFIG_NODES_def MAX_CONFIG_DEPTH_def

lemma scan_config_exact: "scans u v"
proof (induction v)
  case (CText t)
  show ?case unfolding scans_def scan_config_value.simps [of u _ "CText t"] by (auto simp: scan_limits bindR_Inr_iff validate_text_iff)
next
  case (CSequence vs)
  have l: "foldR (\<lambda>v n. scan_config_value u (Suc d) v n) vs n = foldR (\<lambda>v n. bindR (Inr ()) (\<lambda>_. scan_config_value u (Suc d) (id v) n)) vs n" for d n by simp
  show ?case unfolding scans_def scan_config_value.simps [of u _ "CSequence vs"] config_value.case l
    using scan_list [of vs u id "\<lambda>_. Inr ()"] CSequence config_nodes_pos by (cases vs) (auto simp: scan_limits)
next
  case (CMapping kvs)
  have l: "foldR (\<lambda>(k, w) n. bindR (check_config_key u k) (\<lambda>_. scan_config_value u (Suc d) w n)) kvs n
      = foldR (\<lambda>kv n. bindR (check_config_key u (fst kv)) (\<lambda>_. scan_config_value u (Suc d) (snd kv) n)) kvs n" for d n by (rule foldR_cong) auto
  have i: "scans u (snd kv)" if "kv \<in> set kvs" for kv using CMapping that by (cases kv) (auto simp: snds.simps)
  show ?case unfolding scans_def scan_config_value.simps [of u _ "CMapping kvs"] config_value.case l config_mapping
    using scan_list [of kvs u snd "\<lambda>kv. check_config_key u (fst kv)", OF i] by (cases kvs) (auto simp: scan_limits)
next
  case (CEnum v)
  then show ?case unfolding scans_def scan_config_value.simps [of u _ "CEnum v"] using config_nodes_pos [of v] by (auto simp: scan_limits)
qed (auto simp: scans_def scan_config_value.simps scan_limits)

lemma secure_snapshot_iff:
  "secure_config_snapshot u config = Inr stored \<longleftrightarrow> stored = config \<and> (\<exists>kvs. config = CMapping kvs)
     \<and> config_nodes config \<le> MAX_CONFIG_NODES \<and> config_depth config \<le> MAX_CONFIG_DEPTH \<and> config_clean u config"
  using scan_config_exact [of u config] unfolding scans_def secure_config_snapshot_def scan_limits
  by (auto simp: bindR_Inr_iff split: config_value.splits)

lemma secure_json_iff:
  "secure_json_snapshot u config = Inr stored \<longleftrightarrow> stored = config \<and> config_nodes (config_of_json (JObj config)) \<le> MAX_CONFIG_NODES
     \<and> config_depth (config_of_json (JObj config)) \<le> MAX_CONFIG_DEPTH \<and> config_clean u (config_of_json (JObj config))"
  unfolding secure_json_snapshot_def bindR_Inr_iff secure_snapshot_iff by auto

text \<open>A value that is refused is refused with one of the codes of the module.\<close>

definition ingress_codes :: "string set" where
  "ingress_codes = {''secret_bearing_key'', ''secret_or_pii'', ''unsafe_binary'', ''unsafe_config_key'', ''unsafe_config_value'',
     ''unsafe_unicode_control'', ''unsafe_unicode_format''}"

definition coded :: "'a result \<Rightarrow> bool" where
  "coded x \<longleftrightarrow> (\<forall>e. x = Inl e \<longrightarrow> (\<exists>code \<in> ingress_codes. e = ArenaIngressSecurityError code))"

lemma coded_simps [simp]: "coded (Inr x)" "coded (Inl e) \<longleftrightarrow> (\<exists>code \<in> ingress_codes. e = ArenaIngressSecurityError code)"
  by (auto simp: coded_def)

lemma coded_bind: "coded x \<Longrightarrow> (\<And>y. coded (f y)) \<Longrightarrow> coded (bindR x f)"
  by (cases x) (auto simp: coded_def)

lemma coded_fold: "(\<And>v n. v \<in> set vs \<Longrightarrow> coded (f v n)) \<Longrightarrow> coded (foldR f vs n)"
proof (induction vs arbitrary: n)
  case (Cons v vs)
  have "coded (f v n)" using Cons.prems by simp
  then show ?case using Cons by (cases "f v n") auto
qed simp

lemma coded_text: "coded (validate_runtime_controlled_text u True t)"
  using unsafe_unicode_cases [of u t]
  by (auto simp: validate_runtime_controlled_text_def sensitive_text_reason_def Let_def ingress_codes_def split: option.splits)

lemma coded_key: "coded (check_config_key u k)"
  using unsafe_unicode_cases [of u "case k of KText t \<Rightarrow> t | KOther \<Rightarrow> []"]
  by (cases k) (auto simp: check_config_key_def ingress_codes_def split: option.splits)

lemma scan_coded: "coded (scan_config_value u d v n)"
proof (induction u d v n rule: scan_config_value.induct)
  case (1 u d v n)
  show ?case unfolding scan_config_value.simps [of u d v n] using 1
    by (auto simp: ingress_codes_def case_prod_unfold intro!: coded_fold coded_bind coded_text coded_key split: config_value.splits)
qed


section \<open>Public messages\<close>

lemma serialize_length: "FixedDecimal d \<Longrightarrow> length (serialize_fixed_decimal d) \<le> 39"
proof -
  assume "FixedDecimal d"
  then have v: "parse_fixed_decimal (serialize_fixed_decimal d) = Inr d" by (simp add: FixedDecimal_def)
  then have "fixed_decimal_pattern (serialize_fixed_decimal d)" by (auto simp: parse_fixed_decimal_def split: if_splits)
  then show ?thesis
  proof (cases rule: fixed_decimal_parts)
    case (whole i)
    then show ?thesis using v by (auto simp: parse_fixed_decimal_def MAX_DECIMAL_DIGITS_def Let_def split: if_splits)
  next
    case (fraction i f)
    then have "length i + length f \<le> 38"
      using v by (auto simp: parse_fixed_decimal_def MAX_DECIMAL_DIGITS_def Let_def simp del: append.simps split: if_splits)
    then show ?thesis using fraction(1) by simp
  qed
qed

lemma neutral_message_length: "pred_option FixedDecimal price \<Longrightarrow> length (neutral_message action price role) \<le> 100 \<and> neutral_message action price role \<noteq> []"
  using serialize_length [of "the price"] by (cases price; cases "action = ''propose''") (auto simp: neutral_message_def Let_def)

text \<open>
  Property C31: what the public can see of an agent's words. Whatever the agent wrote, the published message has
  between one and a hundred characters; it is either the agent's own text in normal form, trimmed, and then it has no
  control, format or direction characters, no markup, no secret and no e-mail address and does not repeat the private
  strategy, or it is the neutral sentence for the action, and the decision says that and why it was replaced.
\<close>

theorem sanitize_safe:
  assumes "pred_option FixedDecimal price"
  shows "\<exists>shown. pod_message (sanitize u (Some m) action price role strategy) = Some shown \<and> shown \<noteq> [] \<and> length shown \<le> MAX_PUBLIC_MESSAGE_CHARS
    \<and> (if pod_message_replaced (sanitize u (Some m) action price role strategy)
       then shown = ascii (neutral_message action price role) \<and> pod_replacement_reason (sanitize u (Some m) action price role strategy) \<noteq> None
       else shown = text_strip (u_nfkc u m) \<and> list_all (\<lambda>c. c \<notin> set BIDI_AND_ZERO_WIDTH \<and> u_category u c \<notin> {''Cf'', ''Cs'', ''Cc''}) shown
          \<and> \<not> re_search u (HTML_PATTERN u) shown \<and> list_all (\<lambda>r. \<not> re_search u r (u_nfkc u shown)) (SECRET_PATTERNS @ PII_PATTERNS)
          \<and> (\<forall>s. strategy = Some s \<longrightarrow> s \<noteq> [] \<longrightarrow> \<not> copies_strategy u shown s))"
proof (cases "replacement_reason u (text_strip (u_nfkc u m)) strategy")
  case None
  let ?t = "text_strip (u_nfkc u m)"
  have r: "?t \<noteq> []" "length ?t \<le> MAX_PUBLIC_MESSAGE_CHARS" "unsafe_unicode_reason u ?t = None" "\<not> re_search u (HTML_PATTERN u) ?t"
    "sensitive_text_reason u True ?t = None" "\<forall>s. strategy = Some s \<longrightarrow> s \<noteq> [] \<longrightarrow> \<not> copies_strategy u ?t s"
    using None unsafe_unicode_cases [of u ?t] by (auto simp: replacement_reason_def split: if_splits option.splits)
  have "list_all (\<lambda>r. \<not> re_search u r (u_nfkc u ?t)) (SECRET_PATTERNS @ PII_PATTERNS)"
    using r(5) by (simp only: sensitive_text_None)
  then show ?thesis using None r by (simp add: sanitize_def Let_def unsafe_unicode_None)
next
  case (Some reason)
  then show ?thesis using neutral_message_length [OF assms] by (simp add: sanitize_def Let_def MAX_PUBLIC_MESSAGE_CHARS_def ascii_def)
qed

section \<open>Examples\<close>

text \<open>
  A character database in which every code point is a letter. Chinese characters are letters, so the word for private
  key is found on its own but not inside a sentence, where no word boundary surrounds it.
\<close>

definition letters_ucd :: ucd where
  "letters_ucd = \<lparr>u_category = (\<lambda>_. ''Lo''), u_nfkc = (\<lambda>t. t), u_casefold = (\<lambda>t. t), u_isalnum = (\<lambda>_. True)\<rparr>"

lemma letters_search:
  "re_search letters_ucd (Cat Wb q) t \<longleftrightarrow> t \<noteq> [] \<and> (ends (word_char letters_ucd) t q 0 \<noteq> [] \<or> ends (word_char letters_ucd) t q (length t) \<noteq> [])"
proof -
  have w: "word_char letters_ucd c" for c by (simp add: word_char_def letters_ucd_def)
  have "ends (word_char letters_ucd) t Wb i = (if t \<noteq> [] \<and> (i = 0 \<or> i = length t) then [i] else [])" for i by (cases t) (auto simp: w)
  then show ?thesis unfolding re_search_def by (auto simp: list_ex_iff)
qed

lemmas secret_patterns = SECRET_PATTERNS_def PII_PATTERNS_def pat_sk_def pat_google_def pat_aws_def pat_github_def pat_slack_def
  pat_labeled_def pat_jwt_def pat_hex_key_def pat_phrase_def pat_email_def

lemma iterate_empty: "iterate n f [] = []"
  by (induction n) auto

text \<open>Where a class does not match, a repetition of it fails and an option is empty.\<close>

lemma rep_none:
  assumes "0 < lo" "ends w t (Cls P) i = []"
  shows "ends w t (Rep lo hi (Cls P)) i = []"
proof -
  have "iterate k (ends w t (Cls P)) [i] = []" if "lo \<le> k" for k
    using that assms by (cases k) (simp_all add: iterate_empty del: ends.simps)
  then show ?thesis unfolding ends.simps(5) concat_eq_Nil_conv by auto
qed

lemma opt_none: "ends w t r i = [] \<Longrightarrow> ends w t (opt r) i = [i]"
  by (simp add: opt_def)

lemma chinese_secret_alone: "sensitive_text_reason letters_ucd True [31169, 38053] = Some ''secret_or_pii''"
proof -
  have "re_search letters_ucd pat_phrase [31169, 38053]"
    by (simp add: pat_phrase_def letters_search) (simp add: lit_ci_def lit_text_def ci_def fold_letter_def word_char_def letters_ucd_def)
  then show ?thesis by (simp add: sensitive_text_reason_def SECRET_PATTERNS_def letters_ucd_def)
qed

lemma lit_ci_none:
  assumes "s \<noteq> []" "length t \<le> i \<or> 9000 \<le> t ! i"
  shows "ends w t (lit_ci s) i = []"
proof -
  obtain c s' where s: "s = c # s'" using assms(1) by (cases s) auto
  have "i < length t \<Longrightarrow> t ! i \<noteq> of_char c" using assms(2) nat_of_char_less_256 [of c] by linarith
  then have "ends w t (Cls (ci (\<lambda>x. x = of_char c))) i = []" using assms(2) by (auto simp: ci_def fold_letter_def)
  then show ?thesis by (cases s') (simp_all add: lit_ci_def s)
qed

lemma chinese_secret_in_sentence: "sensitive_text_reason letters_ucd True [35831, 31169, 38053, 21578] = None"
proof -
  let ?t = "[35831, 31169, 38053, 21578 :: nat]"
  note cls = lit_def lit_ci_def lit_text_def at_least_def ci_def fold_letter_def one_of_def ascii_def
        lower_alpha_def upper_alpha_def ascii_digit_def ascii_alnum_def
  have "u_nfkc letters_ucd ?t = ?t" by (simp add: letters_ucd_def)
  moreover have "\<not> re_search letters_ucd pat_sk ?t" by (simp add: pat_sk_def letters_search) (simp add: cls)
  moreover have "\<not> re_search letters_ucd pat_google ?t" by (simp add: pat_google_def letters_search) (simp add: cls)
  moreover have "\<not> re_search letters_ucd pat_aws ?t" by (simp add: pat_aws_def letters_search) (simp add: cls)
  moreover have "\<not> re_search letters_ucd pat_github ?t" by (simp add: pat_github_def letters_search) (simp add: cls)
  moreover have "\<not> re_search letters_ucd pat_slack ?t" by (simp add: pat_slack_def letters_search) (simp add: cls)
  moreover have "\<not> re_search letters_ucd pat_labeled ?t" by (simp add: pat_labeled_def letters_search) (simp add: lit_ci_none)
  moreover have "\<not> re_search letters_ucd pat_jwt ?t" by (simp add: pat_jwt_def letters_search) (simp add: cls)
  moreover have "\<not> re_search letters_ucd pat_hex_key ?t" by (simp add: pat_hex_key_def letters_search del: ends.simps(5)) (simp add: cls opt_none rep_none del: ends.simps(5))
  moreover have "\<not> re_search letters_ucd pat_phrase ?t" by (simp add: pat_phrase_def letters_search) (simp add: lit_ci_none lit_text_def)
  moreover have "\<not> re_search letters_ucd pat_email ?t" by (simp add: pat_email_def letters_search del: ends.simps(5)) (simp add: cls rep_none del: ends.simps(5))
  ultimately show ?thesis by (simp add: sensitive_text_reason_def SECRET_PATTERNS_def PII_PATTERNS_def)
qed

text \<open>A character database without letters, under which no text is taken for a secret.\<close>

definition plain_ucd :: ucd where
  "plain_ucd = \<lparr>u_category = (\<lambda>_. ''So''), u_nfkc = (\<lambda>t. t), u_casefold = (\<lambda>t. t), u_isalnum = (\<lambda>_. False)\<rparr>"

definition plain_text :: "utext \<Rightarrow> bool" where
  "plain_text t \<longleftrightarrow> list_all (\<lambda>c. c < 128 \<and> c \<noteq> 95) t"

lemma plain_search:
  assumes "plain_text t"
  shows "\<not> re_search plain_ucd (Cat Wb q) t"
proof -
  have n: "i < length t \<Longrightarrow> \<not> word_char plain_ucd (t ! i)" for i
    using assms by (auto simp: plain_text_def word_char_def plain_ucd_def list_all_length)
  have "ends (word_char plain_ucd) t Wb i = []" for i using n [of i] n [of "i - 1"] by (cases i) auto
  then show ?thesis by (simp add: re_search_def list_ex_iff)
qed

lemma plain_sensitive: "plain_text t \<Longrightarrow> sensitive_text_reason plain_ucd b t = None"
proof -
  assume "plain_text t"
  moreover have "u_nfkc plain_ucd t = t" by (simp add: plain_ucd_def)
  ultimately show ?thesis by (simp add: sensitive_text_reason_def secret_patterns plain_search)
qed

lemma plain_unsafe: "plain_text t \<Longrightarrow> unsafe_unicode_reason plain_ucd t = None"
  by (induction t) (auto simp: plain_text_def BIDI_AND_ZERO_WIDTH_def plain_ucd_def)

lemma plain_clean: "plain_text t \<Longrightarrow> safe_text plain_ucd t" "plain_text t \<Longrightarrow> safe_key plain_ucd (KText t)"
proof -
  show c: "plain_text t \<Longrightarrow> safe_text plain_ucd t" for t
    using plain_unsafe plain_sensitive [of t True] by (simp add: safe_text_iff)
  show "plain_text t \<Longrightarrow> safe_key plain_ucd (KText t)"
    using c by (auto simp: SECRET_KEY_NAMES_def SECRET_KEY_SUFFIXES_def ascii_def plain_ucd_def suffix_def)
qed

text \<open>A snapshot with a strategy and a price is stored, one with a password is refused.\<close>

definition demo_safe_config :: config_value where
  "demo_safe_config = CMapping [(KText (ascii ''strategy''), CText (ascii ''buy low'')), (KText (ascii ''limit''), CDecimal (Dec False 5 0))]"

definition demo_password_config :: config_value where
  "demo_password_config = CMapping [(KText (ascii ''password''), CText [])]"


theorem sanitize_safe_witness:
  "pod_message_replaced (sanitize letters_ucd (Some [31169, 38053]) ''reject'' None None None)
    \<and> pod_message (sanitize letters_ucd (Some [31169, 38053]) ''reject'' None None None) = Some (ascii (neutral_message ''reject'' None None))"
proof -
  have s: "text_strip (u_nfkc letters_ucd [31169, 38053]) = [31169, 38053]" by (simp add: letters_ucd_def text_strip_def py_isspace_def)
  have "replacement_reason letters_ucd [31169, 38053] None \<noteq> None"
    using chinese_secret_alone by (simp add: replacement_reason_def split: option.split)
  then have "pod_message_replaced (sanitize letters_ucd (Some [31169, 38053]) ''reject'' None None None)"
    using s by (auto simp: sanitize_def Let_def)
  then show ?thesis using sanitize_safe [of None letters_ucd "[31169, 38053]" "''reject''" None None] by auto
qed

end
