(* ===== verification/Arena_Core_Properties.thy ===== *)
theory Arena_Core_Properties
  imports Arena_Core_Invariant Arena_Ingress_Properties
begin

text \<open>
  Properties of whole runs of the result pipeline: one result and one application per task, results on time, harmless
  failures, progress of the finalizer and the consumer, the refinement of a write-once register, and the idempotent
  task factory.
\<close>

section \<open>Runs\<close>

datatype core_op =
    CreateTask ArenaAgentTaskV1 "(string, json) dict" string datetime
  | FactoryCreate string datetime string ArenaTaskInput "(string, json) dict"
  | SubmitResult AgentTaskResultV1 datetime bool "string option"
  | SinkSubmit AgentTaskResultV1 datetime
  | FinalizeExpired datetime int
  | ApplyResult string datetime
  | ConsumePending "nat \<Rightarrow> datetime" int

fun core_step :: "ucd \<Rightarrow> (nat \<Rightarrow> string) \<Rightarrow> core_op \<Rightarrow> MemoryArenaCoreRepository \<Rightarrow> MemoryArenaCoreRepository" where
  "core_step u uid (CreateTask task config hash now) s = snd (create_task u uid task config hash now s)"
| "core_step u uid (FactoryCreate task_id now agent view config) s = snd (factory_create u uid task_id now agent view config s)"
| "core_step u uid (SubmitResult result now replaced version) s = snd (submit_result u uid result now replaced version s)"
| "core_step u uid (SinkSubmit result now) s = snd (sink_submit u uid result now s)"
| "core_step u uid (FinalizeExpired now n) s = snd (finalize_expired uid now n s)"
| "core_step u uid (ApplyResult result_id now) s = snd (apply_result uid result_id now s)"
| "core_step u uid (ConsumePending clock n) s = snd (consume_pending uid clock n s)"

text \<open>The callers pass validated models, and no two task ids share the SHA-256 digest their default results are named by.\<close>

fun core_ok :: "core_op \<Rightarrow> MemoryArenaCoreRepository \<Rightarrow> bool" where
  "core_ok (CreateTask task config hash now) s = (valid_task task \<and> no_collision_with (at_task_id task) s)"
| "core_ok (FactoryCreate task_id now agent view config) s = no_collision_with task_id s"
| "core_ok (SubmitResult result now replaced version) s = valid_result result"
| "core_ok (SinkSubmit result now) s = valid_result result"
| "core_ok _ s = True"

lemma create_task_ok: "valid_task task \<Longrightarrow> no_collision_with (at_task_id task) s \<Longrightarrow> call_ok s (create_task u uid task config hash now s)"
  using create_task_effect [of u uid task config hash now s "fst (create_task u uid task config hash now s)" "snd (create_task u uid task config hash now s)"]
  by (cases "create_task u uid task config hash now s") (auto intro: call_ok_logged call_ok_effect)

lemma factory_create_ok: "no_collision_with task_id s \<Longrightarrow> call_ok s (factory_create u uid task_id now agent view config s)"
  unfolding factory_create_def
  by (auto simp: Let_def ArenaAgentTaskV1_validate_iff intro!: call_ok_attempt create_task_ok split: option.splits) (auto intro: call_ok_logged)

lemma consume_loop_ok:
  assumes "core_inv s"
  shows "core_effect\<^sup>*\<^sup>* s (snd (consume_loop uid clock rs s))"
  using assms
proof (induction rs arbitrary: s)
  case (Cons r rs)
  obtain y s1 where y: "apply_result uid (re_result_id (arr_result r)) (clock (length rs)) s = (y, s1)" by fastforce
  have e: "core_effect\<^sup>*\<^sup>* s s1" using apply_result_ok [OF Cons.prems, of uid "re_result_id (arr_result r)" "clock (length rs)"] y by (simp add: call_ok_def)
  show ?case
  proof (cases y)
    case (Inr item)
    obtain z s2 where z: "consume_loop uid clock rs s1 = (z, s2)" by fastforce
    have "core_effect\<^sup>*\<^sup>* s1 s2" using Cons.IH [OF effects_inv [OF e Cons.prems]] z by simp
    then show ?thesis using e y z Inr by (cases z) (auto intro: rtranclp_trans)
  qed (use e y in simp)
qed simp

lemma core_step_effect: "core_inv s \<Longrightarrow> core_ok op s \<Longrightarrow> core_effect\<^sup>*\<^sup>* s (core_step u uid op s)"
  using create_task_ok factory_create_ok submit_result_ok sink_submit_ok finalize_expired_ok apply_result_ok consume_loop_ok valid_result_sound
  by (cases op) (auto simp: call_ok_def consume_pending_def)

interpretation core: invariant_machine "core_step u uid" core_ok core_inv for u uid
  using effects_inv core_step_effect by unfold_locales blast

abbreviation core_run :: "ucd \<Rightarrow> (nat \<Rightarrow> string) \<Rightarrow> core_op list \<Rightarrow> bool" where
  "core_run u uid ops \<equiv> core.admissible u uid ops MemoryArenaCoreRepository_new"

definition core_after :: "ucd \<Rightarrow> (nat \<Rightarrow> string) \<Rightarrow> core_op list \<Rightarrow> MemoryArenaCoreRepository" where
  "core_after u uid ops = fold (core_step u uid) ops MemoryArenaCoreRepository_new"

lemma core_after_inv: "core_run u uid ops \<Longrightarrow> core_inv (core_after u uid ops)"
  unfolding core_after_def by (rule core.run_inv [OF core_new_inv])

section \<open>Properties of runs\<close>

text \<open>
  Property C3: one authoritative result per task and one action per result. After any sequence of calls a task is
  closed exactly when it has a result, every stored result is the one its task points to, a result has entered the
  game exactly when it is marked applied, results are never marked rejected, and the action a task entered the game
  with is the projection of its own result on its own task.
\<close>

theorem one_result_one_application:
  assumes "core_run u uid ops" and "s = core_after u uid ops"
  shows "(\<forall>k t. dget (mcr_tasks s) k = Some t \<longrightarrow> (status_terminal (tr_status t) \<longleftrightarrow> dget (mcr_result_by_task s) k \<noteq> None))
    \<and> (\<forall>j r. dget (mcr_results s) j = Some r \<longrightarrow> dget (mcr_result_by_task s) (re_task_id (arr_result r)) = Some j \<and> arr_apply_status r \<noteq> ApplyRejected
         \<and> (arr_apply_status r = ApplyApplied \<longleftrightarrow> dget (mcr_applied_by_task s) (re_task_id (arr_result r)) \<noteq> None))
    \<and> (\<forall>k a. dget (mcr_applied_by_task s) k = Some a \<longrightarrow> (\<exists>t r app. dget (mcr_tasks s) k = Some t \<and> dget (mcr_result_by_task s) k = Some (ap_result_id a)
         \<and> dget (mcr_results s) (ap_result_id a) = Some r \<and> derive_application (tr_task t) (arr_result r) = Inr app
         \<and> ap_outcome a = aa_outcome app \<and> ap_action a = aa_action app))"
proof -
  have inv: "core_inv s" using assms core_after_inv by simp
  then have ok: "results_ok s" "applied_ok s" by (simp_all add: core_inv_def)
  have "dget (mcr_applied_by_task s) k = Some a \<Longrightarrow> \<exists>t r app. dget (mcr_tasks s) k = Some t \<and> dget (mcr_result_by_task s) k = Some (ap_result_id a)
         \<and> dget (mcr_results s) (ap_result_id a) = Some r \<and> derive_application (tr_task t) (arr_result r) = Inr app
         \<and> ap_outcome a = aa_outcome app \<and> ap_action a = aa_action app" for k a
  proof -
    assume "dget (mcr_applied_by_task s) k = Some a"
    then obtain j r t where o: "dget (mcr_result_by_task s) k = Some j" "dget (mcr_results s) j = Some r" "dget (mcr_tasks s) k = Some t" "applied_from t r a"
      using ok(2) unfolding applied_ok_def by blast
    obtain app where app: "derive_application (tr_task t) (arr_result r) = Inr app" "ap_result_id a = re_result_id (arr_result r)"
      "ap_outcome a = aa_outcome app" "ap_action a = aa_action app"
      using o(4) unfolding applied_from_def by (metis AppliedArenaAction.select_convs(2,4,5))
    then show ?thesis using o results_index(1) [OF ok(1) o(2)] by auto
  qed
  moreover have "dget (mcr_result_by_task s) (re_task_id (arr_result r)) = Some j \<and> arr_apply_status r \<noteq> ApplyRejected
         \<and> (arr_apply_status r = ApplyApplied \<longleftrightarrow> dget (mcr_applied_by_task s) (re_task_id (arr_result r)) \<noteq> None)" if "dget (mcr_results s) j = Some r" for j r
    using results_index(3) [OF ok(1) that] applied_status [OF inv that] by simp
  ultimately show ?thesis using results_open [OF ok(1)] by blast
qed

text \<open>
  Property C27: no result decides a task late. A stored result either came from the runtime and was received before
  the deadline of its task, or is the default the repository itself made for that task, at or after the deadline;
  and the record of the task says when it was closed and with which status.
\<close>

theorem results_on_time:
  assumes "core_run u uid ops" and "dget (mcr_results (core_after u uid ops)) j = Some r"
  shows "\<exists>t. dget (mcr_tasks (core_after u uid ops)) (re_task_id (arr_result r)) = Some t \<and> tr_completed_at t = Some (arr_result_received_at r)
    \<and> (if j = default_result_id (re_task_id (arr_result r)) then instant (at_deadline_at (tr_task t)) \<le> instant (arr_result_received_at r)
          \<and> re_status (arr_result r) = RTimedOut \<and> tr_status t = TDefaulted
       else instant (arr_result_received_at r) < instant (at_deadline_at (tr_task t)) \<and> tr_status t = submitted_status (re_status (arr_result r)))"
proof -
  have inv: "tasks_ok (core_after u uid ops)" "results_ok (core_after u uid ops)" using core_after_inv [OF assms(1)] by (simp_all add: core_inv_def)
  obtain t where t: "dget (mcr_tasks (core_after u uid ops)) (re_task_id (arr_result r)) = Some t" "decided_by t r"
    using results_index(4) [OF inv(2) assms(2)] by blast
  have id: "at_task_id (tr_task t) = re_task_id (arr_result r)" using inv(1) t(1) unfolding tasks_ok_def by blast
  have n: "internal_result_id y \<noteq> default_result_id k" for k y by (simp add: default_result_id_def internal_result_id_def)
  show ?thesis
    using t id results_index(1) [OF inv(2) assms(2)] unfolding decided_by_def by (intro exI [of _ t]) (auto simp: n n [symmetric])
qed

text \<open>The exception of a call.\<close>

definition raised :: "'a result \<Rightarrow> py_error option" where
  "raised r = (case r of Inl e \<Rightarrow> Some e | Inr _ \<Rightarrow> None)"

fun core_error :: "ucd \<Rightarrow> (nat \<Rightarrow> string) \<Rightarrow> core_op \<Rightarrow> MemoryArenaCoreRepository \<Rightarrow> py_error option" where
  "core_error u uid (CreateTask task config hash now) s = raised (fst (create_task u uid task config hash now s))"
| "core_error u uid (FactoryCreate task_id now agent view config) s = raised (fst (factory_create u uid task_id now agent view config s))"
| "core_error u uid (SubmitResult result now replaced version) s = raised (fst (submit_result u uid result now replaced version s))"
| "core_error u uid (SinkSubmit result now) s = raised (fst (sink_submit u uid result now s))"
| "core_error u uid (FinalizeExpired now n) s = raised (fst (finalize_expired uid now n s))"
| "core_error u uid (ApplyResult result_id now) s = raised (fst (apply_result uid result_id now s))"
| "core_error u uid (ConsumePending clock n) s = raised (fst (consume_pending uid clock n s))"

text \<open>
  Property C29: a call that raises changes nothing but the event log, where a conflicting result leaves its trace;
  the consumer, on a clock that shows aware times, does not raise at all.
\<close>

theorem failed_core_calls_harmless:
  assumes "core_run u uid ops" and "s = core_after u uid ops" and "core_ok op s" and "core_error u uid op s = Some e"
    and "\<And>clock n. op = ConsumePending clock n \<Longrightarrow> \<forall>i. is_aware (clock i)"
  shows "core_step u uid op s = s\<lparr>mcr_events := mcr_events (core_step u uid op s)\<rparr> \<and> (\<forall>clock n. op \<noteq> ConsumePending clock n)"
proof -
  have inv: "core_inv s" using assms(1,2) core_after_inv by simp
  have n: "op \<noteq> ConsumePending clock n" for clock n
  proof
    assume o: "op = ConsumePending clock n"
    then have aw: "\<And>i. is_aware (clock i)" using assms(5) by blast
    obtain items s' where "consume_pending uid clock n s = (Inr items, s')" using consume_pending_effect [OF inv, of clock, OF aw] by blast
    then show False using assms(4) o by (simp add: raised_def)
  qed
  note ok = create_task_ok factory_create_ok submit_result_ok [OF inv] sink_submit_ok [OF inv] finalize_expired_ok [OF inv] apply_result_ok [OF inv]
  have "only_logged s (core_step u uid op s)"
  proof (cases op)
    case (ConsumePending clock m)
    then show ?thesis using n by blast
  qed (use assms(3,4) ok [unfolded call_ok_def] valid_result_sound in \<open>auto simp: raised_def split: sum.splits\<close>)
  then show ?thesis using n unfolding only_logged_def by blast
qed

section \<open>Liveness\<close>

lemma expired_tasks_distinct: "core_inv s \<Longrightarrow> distinct (expired_tasks now s)"
  using expired_tasks_stored(1) by (simp add: distinct_map)

text \<open>One call of the finalizer closes the first overdue tasks, as many as its limit allows, and leaves the others overdue.\<close>

lemma finalizer_step:
  assumes "core_inv s" "is_aware now" "0 < n"
  shows "\<exists>rs s'. finalize_expired uid now n s = (Inr rs, s') \<and> core_effect\<^sup>*\<^sup>* s s'
    \<and> map (\<lambda>r. re_task_id (arr_result r)) rs = map (\<lambda>t. at_task_id (tr_task t)) (take (nat n) (expired_tasks now s))
    \<and> (\<forall>t \<in> set (take (nat n) (expired_tasks now s)). dget (mcr_tasks s') (at_task_id (tr_task t)) = Some (close_task t TDefaulted now))
    \<and> set (expired_tasks now s') = set (drop (nat n) (expired_tasks now s))
    \<and> (\<forall>k t. dget (mcr_tasks s) k = Some t \<longrightarrow> instant now < instant (at_deadline_at (tr_task t)) \<longrightarrow> dget (mcr_tasks s') k = Some t)"
proof -
  let ?id = "\<lambda>t. at_task_id (tr_task t)" and ?ex = "expired_tasks now s"
  have ids: "dget (mcr_tasks s) k = Some t \<Longrightarrow> ?id t = k" for k t using assms(1) unfolding core_inv_def tasks_ok_def by blast
  note stored = expired_tasks_stored(2) [OF assms(1), of _ now]
  obtain rs s' where f: "finalize_expired uid now n s = (Inr rs, s')" "core_effect\<^sup>*\<^sup>* s s'" "map (\<lambda>r. re_task_id (arr_result r)) rs = map ?id (take (nat n) ?ex)"
    "\<forall>t \<in> set (take (nat n) ?ex). dget (mcr_tasks s') (?id t) = Some (close_task t TDefaulted now)"
    "\<forall>k. k \<notin> ?id ` set (take (nat n) ?ex) \<longrightarrow> dget (mcr_tasks s') k = dget (mcr_tasks s) k"
    using finalize_expired_effect [OF assms] by blast
  have inv: "core_inv s'" using effects_inv [OF f(2) assms(1)] .
  have split: "?ex = take (nat n) ?ex @ drop (nat n) ?ex" by simp
  then have dist: "?id ` set (take (nat n) ?ex) \<inter> ?id ` set (drop (nat n) ?ex) = {}"
    using expired_tasks_stored(1) [OF assms(1), of now] by (metis distinct_append map_append set_map)
  have "t \<in> set (expired_tasks now s') \<longleftrightarrow> t \<in> set (drop (nat n) ?ex)" for t
  proof (cases "?id t \<in> ?id ` set (take (nat n) ?ex)")
    case True
    then obtain u where "dget (mcr_tasks s') (?id t) = Some (close_task u TDefaulted now)" using f(4) by auto
    then have "t \<notin> set (expired_tasks now s')" using expired_tasks_stored(2) [OF inv] closed_terminal by fastforce
    then show ?thesis using True dist by blast
  next
    case False
    then have "t \<in> set (expired_tasks now s') \<longleftrightarrow> t \<in> set ?ex" using f(5) stored expired_tasks_stored(2) [OF inv] by simp
    moreover have "t \<notin> set (take (nat n) ?ex)" using False by blast
    ultimately show ?thesis using split by (metis Un_iff set_append)
  qed
  moreover have "dget (mcr_tasks s') k = Some t" if t: "dget (mcr_tasks s) k = Some t" "instant now < instant (at_deadline_at (tr_task t))" for k t
  proof -
    have "k \<notin> ?id ` set (take (nat n) ?ex)" using t stored by (auto dest!: in_set_takeD)
    then show ?thesis using f(5) t(1) by simp
  qed
  ultimately show ?thesis using f(1-4) by blast
qed

lemma finalizer_repeated:
  assumes "core_inv s" "is_aware now" "0 < n"
  shows "core_inv (((\<lambda>s. snd (finalize_expired uid now n s)) ^^ k) s)
    \<and> length (expired_tasks now (((\<lambda>s. snd (finalize_expired uid now n s)) ^^ k) s)) = length (expired_tasks now s) - k * nat n"
proof (induction k)
  case (Suc k)
  let ?s = "((\<lambda>s. snd (finalize_expired uid now n s)) ^^ k) s"
  have inv: "core_inv ?s" using Suc by blast
  obtain rs s' where s': "finalize_expired uid now n ?s = (Inr rs, s')" "core_effect\<^sup>*\<^sup>* ?s s'" "set (expired_tasks now s') = set (drop (nat n) (expired_tasks now ?s))"
    using finalizer_step [OF inv assms(2,3), of uid] by blast
  note i = effects_inv [OF s'(2) inv]
  have "length (expired_tasks now s') = length (expired_tasks now ?s) - nat n"
    using s'(3) expired_tasks_distinct [OF i, of now] expired_tasks_distinct [OF inv, of now] by (metis distinct_card distinct_drop length_drop)
  then show ?case using Suc i s'(1) by simp
qed (use assms in simp)

text \<open>The results that wait for the consumer.\<close>

definition waiting :: "MemoryArenaCoreRepository \<Rightarrow> ArenaResultRecord list" where
  "waiting s = filter (\<lambda>r. arr_apply_status r = ApplyPending) (dvalues (mcr_results s))"

lemma waiting_stored:
  assumes "core_inv s"
  shows "distinct (waiting s)" "r \<in> set (waiting s) \<longleftrightarrow> dget (mcr_results s) (re_result_id (arr_result r)) = Some r \<and> arr_apply_status r = ApplyPending"
proof -
  let ?all = "pending_results (int (length (mcr_results s)) + 1) s"
  have len: "length (waiting s) \<le> length (mcr_results s)"
    using length_filter_le [of "\<lambda>r. arr_apply_status r = ApplyPending" "dvalues (mcr_results s)"] by (simp add: waiting_def)
  have all: "?all = sort_key (\<lambda>r. (instant (arr_result_received_at r), re_result_id (arr_result r))) (waiting s)"
    using len by (simp add: pending_results_def flip: waiting_def)
  then have m: "set ?all = set (waiting s)" "distinct ?all = distinct (waiting s)" by simp_all
  show "distinct (waiting s)" using m(2) pending_results_stored(1) [OF assms] by (simp add: distinct_map)
  show "r \<in> set (waiting s) \<longleftrightarrow> dget (mcr_results s) (re_result_id (arr_result r)) = Some r \<and> arr_apply_status r = ApplyPending"
    using m(1) pending_results_stored(2) [OF assms] pending_results_stored(3) [OF assms, of "int (length (mcr_results s)) + 1"] by auto
qed

lemma pending_results_waiting:
  assumes "0 < n"
  shows "set (pending_results n s) \<subseteq> set (waiting s)" "length (pending_results n s) = min (nat n) (length (waiting s))"
  using assms by (auto simp: pending_results_def waiting_def dest!: in_set_takeD)

lemma consumer_step:
  assumes "core_inv s" "\<And>i. is_aware (clock i)" "0 < n"
  shows "\<exists>items s'. consume_pending uid clock n s = (Inr items, s') \<and> core_effect\<^sup>*\<^sup>* s s' \<and> length items = min (nat n) (length (waiting s))
    \<and> length (waiting s') = length (waiting s) - nat n"
proof -
  let ?id = "\<lambda>r. re_result_id (arr_result r)" and ?p = "pending_results n s"
  obtain items s' where c: "consume_pending uid clock n s = (Inr items, s')" "core_effect\<^sup>*\<^sup>* s s'" "length items = length ?p"
    "\<forall>r \<in> set ?p. \<exists>q. dget (mcr_results s') (?id r) = Some q \<and> arr_apply_status q = ApplyApplied"
    "\<forall>l. l \<notin> ?id ` set ?p \<longrightarrow> dget (mcr_results s') l = dget (mcr_results s) l"
    using consume_pending_effect [OF assms(1), of clock, OF assms(2), of uid n] by blast
  have inv: "core_inv s'" using effects_inv [OF c(2) assms(1)] .
  note w = waiting_stored [OF assms(1)] and w' = waiting_stored [OF inv] and p = pending_results_waiting [OF assms(3), of s]
  have "r \<in> set (waiting s') \<longleftrightarrow> r \<in> set (waiting s) - set ?p" for r
  proof (cases "?id r \<in> ?id ` set ?p")
    case True
    then obtain u where u: "u \<in> set ?p" "?id u = ?id r" by auto
    then have "r \<notin> set (waiting s')" using c(4) w'(2) [of r] by fastforce
    moreover have "r \<in> set (waiting s) \<Longrightarrow> r = u" using u w(2) [of r] p(1) w(2) [of u] by auto
    ultimately show ?thesis using u(1) by blast
  next
    case False
    then show ?thesis using c(5) w(2) [of r] w'(2) [of r] by auto
  qed
  then have "set (waiting s') = set (waiting s) - set ?p" by blast
  then have "length (waiting s') = length (waiting s) - length ?p"
    using w(1) w'(1) p(1) pending_results_stored(1) [OF assms(1), of n] unfolding distinct_map
    by (metis List.finite_set card_Diff_subset distinct_card)
  then show ?thesis using c(1-3) p(2) by (auto simp: min_def)
qed

lemma consumer_repeated:
  assumes "core_inv s" "\<And>i. is_aware (clock i)" "0 < n"
  shows "core_inv (((\<lambda>s. snd (consume_pending uid clock n s)) ^^ k) s) \<and> length (waiting (((\<lambda>s. snd (consume_pending uid clock n s)) ^^ k) s)) = length (waiting s) - k * nat n"
proof (induction k)
  case (Suc k)
  let ?s = "((\<lambda>s. snd (consume_pending uid clock n s)) ^^ k) s"
  have inv: "core_inv ?s" using Suc by blast
  obtain items s' where s': "consume_pending uid clock n ?s = (Inr items, s')" "core_effect\<^sup>*\<^sup>* ?s s'" "length (waiting s') = length (waiting ?s) - nat n"
    using consumer_step [OF inv, of clock, OF assms(2,3), of uid] by blast
  then show ?case using Suc effects_inv [OF s'(2) inv] by simp
qed (use assms in simp)

text \<open>
  Property C28: no overdue task stays open and no result stays pending. In any reachable state, on a clock that shows aware times, a call of
  the finalizer with any positive limit succeeds, closes the overdue tasks of the earliest deadlines, as many as the limit allows, with one
  default result for each, and leaves the other overdue tasks and the tasks that are not due; so after as many calls as the limit divides their
  number into, no task is overdue and open. A call of the consumer with any positive limit succeeds and enters one action for each of that many pending
  results; after as many calls as the limit divides their number into, every result is applied.
\<close>

theorem pipeline_drains:
  assumes "core_run u uid ops" and "s = core_after u uid ops" and "is_aware now" and "\<And>i. is_aware (clock i)" and "0 < n"
  shows "(\<exists>rs s1. finalize_expired uid now n s = (Inr rs, s1)
      \<and> map (\<lambda>r. re_task_id (arr_result r)) rs = map (\<lambda>t. at_task_id (tr_task t)) (take (nat n) (expired_tasks now s))
      \<and> set (expired_tasks now s1) = set (drop (nat n) (expired_tasks now s))
      \<and> (\<forall>k t. dget (mcr_tasks s) k = Some t \<longrightarrow> instant now < instant (at_deadline_at (tr_task t)) \<longrightarrow> dget (mcr_tasks s1) k = Some t))
    \<and> (\<forall>calls k t. length (expired_tasks now s) \<le> calls * nat n \<longrightarrow> dget (mcr_tasks (((\<lambda>s. snd (finalize_expired uid now n s)) ^^ calls) s)) k = Some t
         \<longrightarrow> instant (at_deadline_at (tr_task t)) \<le> instant now \<longrightarrow> status_terminal (tr_status t))
    \<and> (\<exists>items s2. consume_pending uid clock n s = (Inr items, s2) \<and> length items = min (nat n) (length (waiting s))
         \<and> length (waiting s2) = length (waiting s) - nat n)
    \<and> (\<forall>calls j r. length (waiting s) \<le> calls * nat n \<longrightarrow> dget (mcr_results (((\<lambda>s. snd (consume_pending uid clock n s)) ^^ calls) s)) j = Some r
         \<longrightarrow> arr_apply_status r = ApplyApplied)"
proof -
  have inv: "core_inv s" using core_after_inv [OF assms(1)] assms(2) by simp
  have "status_terminal (tr_status t)" if "length (expired_tasks now s) \<le> calls * nat n"
      "dget (mcr_tasks (((\<lambda>s. snd (finalize_expired uid now n s)) ^^ calls) s)) k = Some t" "instant (at_deadline_at (tr_task t)) \<le> instant now" for calls k t
  proof -
    let ?s = "((\<lambda>s. snd (finalize_expired uid now n s)) ^^ calls) s"
    have i: "core_inv ?s" "expired_tasks now ?s = []" using finalizer_repeated [OF inv assms(3,5), where k = calls and uid = uid] that(1) by auto
    have "at_task_id (tr_task t) = k" using i(1) that(2) unfolding core_inv_def tasks_ok_def by blast
    then show ?thesis using expired_tasks_stored(2) [OF i(1), of t now] i(2) that(2,3) by auto
  qed
  moreover have "arr_apply_status r = ApplyApplied" if "length (waiting s) \<le> calls * nat n"
      "dget (mcr_results (((\<lambda>s. snd (consume_pending uid clock n s)) ^^ calls) s)) j = Some r" for calls j r
  proof -
    let ?s = "((\<lambda>s. snd (consume_pending uid clock n s)) ^^ calls) s"
    have i: "core_inv ?s" "waiting ?s = []" using consumer_repeated [OF inv, of clock, OF assms(4,5), where k = calls and uid = uid] that(1) by auto
    have "re_result_id (arr_result r) = j" using results_index(1) i(1) that(2) unfolding core_inv_def by blast
    then show ?thesis using waiting_stored(2) [OF i(1), of r] i(2) that(2) applied_status [OF i(1) that(2)] by (simp split: if_splits)
  qed
  moreover note finalizer_step [OF inv assms(3,5), of uid] consumer_step [OF inv, of clock, OF assms(4,5), of uid]
  ultimately show ?thesis by blast
qed

section \<open>A write-once register\<close>

text \<open>
  What the repository promises about one task: it is created once, decided once, and its action enters the game once.
\<close>

datatype task_phase =
    Absent
  | Awaiting ArenaAgentTaskV1
  | Settled ArenaAgentTaskV1 AgentTaskResultV1
  | Entered ArenaAgentTaskV1 AgentTaskResultV1 ApplicationOutcome "json option"

inductive phase_step :: "task_phase \<Rightarrow> task_phase \<Rightarrow> bool" where
  dispatch: "valid_task t \<Longrightarrow> phase_step Absent (Awaiting t)"
| settle: "re_task_id r = at_task_id t \<Longrightarrow> phase_step (Awaiting t) (Settled t r)"
| enter: "derive_application t r = Inr app \<Longrightarrow> phase_step (Settled t r) (Entered t r (aa_outcome app) (aa_action app))"

inductive_cases phase_stepE: "phase_step p q"

definition phase_of :: "MemoryArenaCoreRepository \<Rightarrow> string \<Rightarrow> task_phase" where
  "phase_of s k =
     (case dget (mcr_tasks s) k of
        None \<Rightarrow> Absent
      | Some t \<Rightarrow>
          (case dget (mcr_result_by_task s) k of
             None \<Rightarrow> Awaiting (tr_task t)
           | Some j \<Rightarrow>
               (case dget (mcr_results s) j of
                  None \<Rightarrow> Awaiting (tr_task t)
                | Some r \<Rightarrow>
                    (case dget (mcr_applied_by_task s) k of
                       None \<Rightarrow> Settled (tr_task t) (arr_result r)
                     | Some a \<Rightarrow> Entered (tr_task t) (arr_result r) (ap_outcome a) (ap_action a)))))"

lemma phase_effect:
  assumes "core_effect s s'" "core_inv s"
  shows "phase_of s' l = phase_of s l \<or> phase_step (phase_of s l) (phase_of s' l)"
  using assms
proof (induction rule: core_effect.induct)
  case (logged s ev)
  then show ?case by (auto simp: phase_of_def split: option.splits)
next
  case (created t k s i ev)
  have ok: "results_ok s" using created.prems by (simp add: core_inv_def)
  have "dget (mcr_result_by_task s) k = None" using created.hyps(4) ok unfolding results_ok_def by (metis not_None_eq option.distinct(1))
  then show ?case using created.hyps(1,4) by (cases "l = k") (auto simp: phase_of_def dict_get intro: phase_step.dispatch split: option.splits)
next
  case (decided s k t t' status now j r ev)
  have ok: "tasks_ok s" "results_ok s" "applied_ok s" using decided.prems by (simp_all add: core_inv_def)
  have n: "dget (mcr_result_by_task s) k = None" using results_open [OF ok(2) decided.hyps(1)] decided.hyps(2) by simp
  have a: "dget (mcr_applied_by_task s) k = None" using ok(3) n unfolding applied_ok_def by (metis not_None_eq option.distinct(1))
  have id: "at_task_id (tr_task t) = k" using ok(1) decided.hyps(1) unfolding tasks_ok_def by blast
  have "dget (mcr_result_by_task s) l \<noteq> Some j" by (rule results_fresh(2) [OF ok(2) decided.hyps(4)])
  then show ?case using decided.hyps(1,3,6) n a id
    by (cases "l = k") (auto simp: phase_of_def dict_get intro!: phase_step.settle split: option.splits)
next
  case (applied s j r k t a r' reason now ev)
  have ok: "results_ok s" using applied.prems by (simp add: core_inv_def)
  have ix: "dget (mcr_result_by_task s) k = Some j" using results_index(3) [OF ok applied.hyps(1)] applied.hyps(3) by simp
  have o: "dget (mcr_result_by_task s) l \<noteq> Some j" if "l \<noteq> k" using that ok applied.hyps(1,3) unfolding results_ok_def by fastforce
  obtain app where app: "derive_application (tr_task t) (arr_result r) = Inr app" "ap_outcome a = aa_outcome app" "ap_action a = aa_action app"
    using applied.hyps(6) unfolding applied_from_def by (metis AppliedArenaAction.select_convs(4,5))
  show ?case
  proof (cases "l = k")
    case True
    then show ?thesis using applied.hyps(1,4,5,7) ix app phase_step.enter [OF app(1)] by (simp add: phase_of_def dict_get)
  next
    case False
    then show ?thesis using o by (auto simp: phase_of_def dict_get split: option.splits)
  qed
qed

lemma phase_effects:
  assumes "core_effect\<^sup>*\<^sup>* s s'" "core_inv s"
  shows "phase_step\<^sup>*\<^sup>* (phase_of s l) (phase_of s' l)"
  using assms
proof (induction rule: rtranclp_induct)
  case (step t v)
  have "core_inv t" using step.hyps(1) step.prems by (rule effects_inv)
  then show ?case using step.IH [OF step.prems] phase_effect [OF step.hyps(2), of l] by (auto intro: rtranclp.rtrancl_into_rtrancl)
qed simp

lemma run_effects: "core_inv s \<Longrightarrow> core.admissible u uid ops s \<Longrightarrow> core_effect\<^sup>*\<^sup>* s (fold (core_step u uid) ops s)"
proof (induction ops arbitrary: s)
  case (Cons op ops)
  have e: "core_effect\<^sup>*\<^sup>* s (core_step u uid op s)" using Cons.prems by (intro core_step_effect) simp_all
  then have "core_effect\<^sup>*\<^sup>* (core_step u uid op s) (fold (core_step u uid) ops (core_step u uid op s))"
    using Cons.prems by (intro Cons.IH effects_inv [OF e]) simp_all
  then show ?case using e by (simp add: rtranclp_trans)
qed simp

lemma entered_final: "phase_step\<^sup>*\<^sup>* (Entered t r out a) q \<Longrightarrow> q = Entered t r out a"
  by (induction rule: rtranclp_induct) (auto elim: phase_stepE)

lemma settled_final: "phase_step\<^sup>*\<^sup>* (Settled t r) q \<Longrightarrow> q = Settled t r \<or> (\<exists>app. derive_application t r = Inr app \<and> q = Entered t r (aa_outcome app) (aa_action app))"
  by (induction rule: rtranclp_induct) (auto elim: phase_stepE)

text \<open>
  Property C16: for every task the repository is a write-once register. Whatever calls are made, the life of a task
  runs forward through created, settled by one result of that task, and entered with the projection of that result;
  it never goes back and never changes what was written.
\<close>

theorem repository_refines_register:
  assumes "core_run u uid (ops @ ops')" and "p = phase_of (core_after u uid ops) k" and "p' = phase_of (core_after u uid (ops @ ops')) k"
  shows "phase_step\<^sup>*\<^sup>* Absent p \<and> phase_step\<^sup>*\<^sup>* p p' \<and> (\<forall>t r out a. p = Entered t r out a \<longrightarrow> p' = p)
    \<and> (\<forall>t r. p = Settled t r \<longrightarrow> p' = p \<or> (\<exists>app. derive_application t r = Inr app \<and> p' = Entered t r (aa_outcome app) (aa_action app)))"
proof -
  have run: "core_run u uid ops" "core.admissible u uid ops' (core_after u uid ops)"
    using assms(1) by (simp_all add: core.admissible_append core_after_def)
  have "phase_of MemoryArenaCoreRepository_new k = Absent" by (simp add: phase_of_def MemoryArenaCoreRepository_new_def)
  then have "phase_step\<^sup>*\<^sup>* Absent p" using phase_effects [OF run_effects [OF core_new_inv run(1)] core_new_inv, of k] assms(2) by (simp add: core_after_def)
  moreover have "phase_step\<^sup>*\<^sup>* p p'"
    using phase_effects [OF run_effects [OF core_after_inv [OF run(1)] run(2)] core_after_inv [OF run(1)], of k] assms(2,3) by (simp add: core_after_def)
  ultimately show ?thesis using entered_final settled_final by blast
qed

section \<open>The task factory\<close>

lemma sha256_identifier_pattern: "sha256_identifier j = Inr h \<Longrightarrow> sha256_pattern h"
proof -
  assume "sha256_identifier j = Inr h"
  then obtain b where h: "h = ''sha256:'' @ hexdigest (sha256 b)" by (auto simp: sha256_identifier_def bindR_Inr_iff)
  have "list_all (\<lambda>c. is_digit c \<or> c \<in> set ''abcdef'') (hexdigest (sha256 b))" by (rule hexdigest_all) (simp add: is_digit_def)
  then show ?thesis by (simp add: h sha256_pattern_def length_hexdigest length_sha256)
qed

lemma input_check_fields:
  assumes "input_check view = Inr ()"
  shows "Identifier (input_game_id view)" "Identifier (input_round_id view)" "is_aware (input_deadline_at view)"
    "view = NegotiateInput i \<Longrightarrow> Identifier (ni_negotiation_id i)"
  using assms by (cases view; auto simp: ArenaDecideInputV1_check_def ArenaNegotiateInputV1_check_def ArenaMarketIntentInputV1_check_def
    ArenaMarketRfqInputV1_check_def ArenaMarketSelectInputV1_check_def decide_fields_def check_round_fields_def result_simps)+

text \<open>The envelope the factory writes for a view.\<close>

definition factory_task :: "string \<Rightarrow> string \<Rightarrow> ArenaTaskInput \<Rightarrow> string \<Rightarrow> ArenaAgentTaskV1" where
  "factory_task task_id game_agent_id view input_hash =
     \<lparr>at_task_id = task_id, at_kind = kind_of_input view, at_schema_version = AGENT_TASK_SCHEMA_VERSION_V1, at_game_id = input_game_id view,
      at_round_id = input_round_id view, at_game_agent_id = game_agent_id,
      at_negotiation_id = (case view of NegotiateInput i \<Rightarrow> Some (ni_negotiation_id i) | _ \<Rightarrow> None),
      at_deadline_at = input_deadline_at view, at_idempotency_key = factory_key game_agent_id view, at_input_hash = input_hash, at_input = view\<rparr>"

lemma factory_expected_key: "expected_key (factory_task task_id agent view h) = Inr (factory_key agent view)"
  by (cases view) (auto simp: expected_key_def factory_task_def factory_key_def market_base_key_def joined_def Let_def)

lemma factory_task_valid:
  assumes "input_check view = Inr ()" "Identifier task_id" "Identifier agent" "sha256_pattern h" "length (factory_key agent view) \<le> 1024"
  shows "valid_task (factory_task task_id agent view h)"
proof -
  have "factory_key agent view \<noteq> []" by (cases view) (auto simp: factory_key_def joined_def Let_def)
  moreover have "enforce_envelope_consistency (factory_task task_id agent view h) = Inr ()"
    unfolding enforce_envelope_consistency_def factory_expected_key by (simp add: factory_task_def result_simps)
  moreover have "pred_option Identifier (case view of NegotiateInput i \<Rightarrow> Some (ni_negotiation_id i) | _ \<Rightarrow> None)"
    using input_check_fields(4) [OF assms(1)] by (cases view) auto
  ultimately show ?thesis using assms input_check_fields(1-3) [OF assms(1)]
    by (simp add: ArenaAgentTaskV1_validate_iff factory_task_def)
qed

text \<open>The task a view was dispatched with, as the factory finds it again.\<close>

definition dispatched :: "MemoryArenaCoreRepository \<Rightarrow> string \<Rightarrow> ArenaTaskInput \<Rightarrow> string \<Rightarrow> string \<Rightarrow> ArenaTaskRecord \<Rightarrow> bool" where
  "dispatched s agent view input_hash config_hash t \<longleftrightarrow>
     get_task_by_idempotency s agent (factory_key agent view) = Inr (Some t) \<and> at_kind (tr_task t) = kind_of_input view
     \<and> at_input_hash (tr_task t) = input_hash \<and> tr_config_hash t = config_hash"

lemma secure_copy: "secure_json_snapshot u c = Inr d \<Longrightarrow> d = c"
  by (auto simp: secure_json_snapshot_def bindR_Inr_iff)

lemma get_by_key: "get_task_by_idempotency s a k = Inr (Some t) \<longleftrightarrow> (\<exists>i. dget (mcr_task_by_idempotency s) (a, k) = Some i \<and> dget (mcr_tasks s) i = Some t)"
  by (auto simp: get_task_by_idempotency_def split: option.splits)

lemma create_task_dispatched:
  assumes "create_task u uid task config ch now s = (Inr t, s')"
  shows "get_task_by_idempotency s' (at_game_agent_id task) (at_idempotency_key task) = Inr (Some t) \<and> at_kind (tr_task t) = at_kind task
     \<and> at_input_hash (tr_task t) = at_input_hash task \<and> tr_config_hash t = ch"
  using assms unfolding create_task_def
  by (auto simp: Let_def get_by_key append_event_def dict_get elim!: attempt_cases split: option.splits if_splits)

lemma create_task_again:
  assumes "secure_json_snapshot u (input_members (at_input task)) = Inr c" "secure_json_snapshot u config = Inr config"
    "sha256_identifier (dump_input (at_input task)) = Inr (at_input_hash task)" "sha256_identifier (JObj config) = Inr ch"
    "get_task_by_idempotency s (at_game_agent_id task) (at_idempotency_key task) = Inr (Some t)"
    "at_kind (tr_task t) = at_kind task" "at_input_hash (tr_task t) = at_input_hash task" "tr_config_hash t = ch"
  shows "create_task u uid task config ch now s = (Inr t, s)"
  using assms by (auto simp: create_task_def attempt_def Let_def get_by_key)

lemma factory_create_dispatched:
  assumes "factory_create u uid task_id now agent view config s = (Inr t, s')"
  obtains c h ch where "secure_json_snapshot u (input_members view) = Inr c" "secure_json_snapshot u config = Inr config"
    "sha256_identifier (dump_input view) = Inr h" "sha256_identifier (JObj config) = Inr ch" "dispatched s' agent view h ch t"
proof -
  note f = assms [unfolded factory_create_def Let_def]
  obtain c where c: "secure_json_snapshot u (input_members view) = Inr c" using f by (auto elim!: attempt_cases split: if_splits)
  obtain d where d: "secure_json_snapshot u config = Inr d" using f c by (auto elim!: attempt_cases split: if_splits)
  have d': "d = config" using secure_copy [OF d] .
  obtain h where h: "sha256_identifier (dump_input view) = Inr h" using f c d by (auto elim!: attempt_cases split: if_splits)
  obtain ch where ch: "sha256_identifier (JObj config) = Inr ch" using f c d d' h by (auto simp: attempt_def split: if_splits sum.splits)
  have "dispatched s' agent view h ch t"
  proof (cases "instant (input_deadline_at view) \<le> instant now")
    case True
    then show ?thesis using f c d d' h ch by (auto simp: attempt_def dispatched_def split: if_splits sum.splits option.splits)
  next
    case False
    then obtain task where v: "ArenaAgentTaskV1_validate (factory_task task_id agent view h) = Inr task" "create_task u uid task config ch now s = (Inr t, s')"
      using f c d d' h ch by (auto simp: attempt_def factory_task_def split: if_splits sum.splits)
    then have "task = factory_task task_id agent view h" by (simp add: ArenaAgentTaskV1_validate_iff)
    then show ?thesis using create_task_dispatched [OF v(2)] by (simp add: dispatched_def factory_task_def)
  qed
  then show ?thesis using that c d d' h ch by blast
qed

lemma factory_create_again:
  assumes "secure_json_snapshot u (input_members view) = Inr c" "secure_json_snapshot u config = Inr config"
    "sha256_identifier (dump_input view) = Inr h" "sha256_identifier (JObj config) = Inr ch" "dispatched s agent view h ch t"
    "is_aware now" "input_check view = Inr ()" "Identifier task_id" "Identifier agent" "length (factory_key agent view) \<le> 1024"
  shows "factory_create u uid task_id now agent view config s = (Inr t, s)"
proof (cases "instant (input_deadline_at view) \<le> instant now")
  case True
  then show ?thesis using assms(1-6) by (simp add: factory_create_def attempt_def dispatched_def)
next
  case False
  have v: "ArenaAgentTaskV1_validate (factory_task task_id agent view h) = Inr (factory_task task_id agent view h)"
    using factory_task_valid [OF assms(7-9) sha256_identifier_pattern [OF assms(3)] assms(10)] .
  have "create_task u uid (factory_task task_id agent view h) config ch now s = (Inr t, s)"
    using assms(1-5) by (intro create_task_again) (simp_all add: factory_task_def dispatched_def)
  then show ?thesis using assms(1-4,6) False v by (simp add: factory_create_def attempt_def factory_task_def)
qed

text \<open>
  Dispatching a view is idempotent, across restarts and past its deadline. When the factory returned a
  task for an agent's view, the task is stored under the key derived from them; calling it again with the same view
  and configuration, at any later time and with any new task id, returns the same record and changes nothing.
\<close>

theorem factory_create_idempotent:
  assumes "core_run u uid ops" and "core_ok (FactoryCreate task_id now agent view config) (core_after u uid ops)"
    and "factory_create u uid task_id now agent view config (core_after u uid ops) = (Inr t, s')"
    and "input_check view = Inr ()" and "Identifier agent" and "Identifier task_id'" and "is_aware now'"
  shows "factory_create u uid task_id' now' agent view config s' = (Inr t, s')
    \<and> dget (mcr_task_by_idempotency s') (agent, factory_key agent view) = Some (at_task_id (tr_task t)) \<and> dget (mcr_tasks s') (at_task_id (tr_task t)) = Some t"
proof -
  obtain c h ch where d: "secure_json_snapshot u (input_members view) = Inr c" "secure_json_snapshot u config = Inr config"
    "sha256_identifier (dump_input view) = Inr h" "sha256_identifier (JObj config) = Inr ch" "dispatched s' agent view h ch t"
    using factory_create_dispatched [OF assms(3)] .
  have "core_inv s'" using effects_inv [OF core_step_effect [OF core_after_inv [OF assms(1)] assms(2)] core_after_inv [OF assms(1)], of u uid] assms(3) by simp
  then have ok: "tasks_ok s'" by (simp add: core_inv_def)
  obtain i where i: "dget (mcr_task_by_idempotency s') (agent, factory_key agent view) = Some i" "dget (mcr_tasks s') i = Some t"
    using d(5) unfolding dispatched_def get_by_key by blast
  have t: "at_task_id (tr_task t) = i" "valid_task (tr_task t)" "task_key t = (agent, factory_key agent view)"
    using ok i unfolding tasks_ok_def by (blast, blast, metis option.inject)
  then have "length (factory_key agent view) \<le> 1024" by (simp add: ArenaAgentTaskV1_validate_iff task_key_def)
  then show ?thesis using factory_create_again [OF d assms(7,4,6,5)] i t(1) by blast
qed

section \<open>An example\<close>

definition demo_decide :: ArenaDecideInputV1 where
  "demo_decide = \<lparr>di_phase = ''decide'', di_game_id = ''g1'', di_round_id = ''r1'', di_round_index = 1, di_round_count = None,
     di_rounds_remaining = None, di_cash = Dec False 5 0, di_holdings = [(''jade'', 1)], di_market = [], di_event_implied_final = [],
     di_events = [], di_reputation = \<lparr>rep_failed_negotiations = 0\<rparr>, di_limits = \<lparr>dl_allowed_actions = [AllowBuy, AllowPass], dl_allowed_goods = [''jade'']\<rparr>,
     di_completed_actions = [], di_completed_trades = [], di_goods = [], di_market_activity = [], di_previous_round_liquidity = None,
     di_deadline_at = Aware 1000000\<rparr>"

definition demo_input :: ArenaTaskInput where "demo_input = DecideInput demo_decide"

lemma demo_input_check: "input_check demo_input = Inr ()" by (code_simp, simp)

lemma demo_deadline: "input_deadline_at demo_input = Aware 1000000" by (simp add: demo_input_def demo_decide_def)

lemma demo_dump: "dump_input demo_input = JObj (input_members demo_input)"
  by (simp add: demo_input_def input_members_def)

lemma demo_members: "input_members demo_input =
  [(''phase'', JStr (ascii ''decide'')), (''gameId'', JStr (ascii ''g1'')), (''roundId'', JStr (ascii ''r1'')), (''roundIndex'', JInt 1), (''roundCount'', JNull),
   (''roundsRemaining'', JNull), (''cash'', JStr (ascii ''5'')), (''holdings'', JObj [(''jade'', JInt 1)]), (''market'', JObj []), (''eventImpliedFinal'', JObj []),
   (''events'', JArr []), (''reputation'', JObj [(''failedNegotiations'', JInt 0)]),
   (''limits'', JObj [(''allowedActions'', JArr [JStr (ascii ''buy''), JStr (ascii ''pass'')]), (''allowedGoods'', JArr [JStr (ascii ''jade'')])]),
   (''completedActions'', JArr []), (''completedTrades'', JArr []), (''goods'', JArr []), (''marketActivity'', JArr []), (''previousRoundLiquidity'', JNull),
   (''deadlineAt'', JStr (ascii ''1970-01-01T00:00:01Z''))]"
  by code_simp

lemma plain_ascii: "plain_text (ascii s) \<longleftrightarrow> list_all (\<lambda>c. of_char c < (128 :: nat) \<and> of_char c \<noteq> (95 :: nat)) s"
  by (simp add: plain_text_def ascii_def list_all_iff)

lemma demo_secure: "secure_json_snapshot plain_ucd (input_members demo_input) = Inr (input_members demo_input)"
proof -
  have "config_clean plain_ucd (config_of_json (JObj (input_members demo_input)))"
    unfolding demo_members by (simp add: plain_clean plain_ascii del: safe_key.simps)
  then show ?thesis unfolding secure_json_iff by (simp add: demo_members MAX_CONFIG_NODES_def MAX_CONFIG_DEPTH_def)
qed

definition demo_hash :: string where
  "demo_hash = (case sha256_identifier (dump_input demo_input) of Inr h \<Rightarrow> h | Inl _ \<Rightarrow> [])"

definition empty_hash :: string where
  "empty_hash = (case sha256_identifier (JObj []) of Inr h \<Rightarrow> h | Inl _ \<Rightarrow> [])"

lemma demo_hashes: "sha256_identifier (dump_input demo_input) = Inr demo_hash" "sha256_identifier (JObj []) = Inr empty_hash"
proof -
  have "clean_json (dump_input demo_input)" unfolding demo_dump demo_members by simp
  then show "sha256_identifier (dump_input demo_input) = Inr demo_hash" using clean_identifier by (fastforce simp: demo_hash_def)
  show "sha256_identifier (JObj []) = Inr empty_hash" using clean_identifier [of "JObj []"] by (auto simp: empty_hash_def)
qed

definition demo_result :: AgentTaskResultV1 where
  "demo_result = \<lparr>re_result_id = ''run-1'', re_task_id = ''t1'', re_schema_version = AGENT_TASK_RESULT_SCHEMA_VERSION_V1, re_status = RSucceeded,
     re_action = Some PassAction\<rparr>"

definition demo_ids :: "nat \<Rightarrow> string" where "demo_ids n = show_nat n"

definition demo_dispatch :: core_op where
  "demo_dispatch = FactoryCreate ''t1'' (Aware 0) ''seat-1'' demo_input []"

definition demo_submit :: core_op where
  "demo_submit = SinkSubmit demo_result (Aware 500000)"

definition demo_record :: ArenaTaskRecord where
  "demo_record = \<lparr>tr_task = factory_task ''t1'' ''seat-1'' demo_input demo_hash, tr_config_snapshot = [], tr_config_hash = empty_hash,
     tr_status = TQueued, tr_created_at = Aware 0, tr_attempt_count = 0, tr_leased_by = None, tr_lease_expires_at = None, tr_completed_at = None\<rparr>"

lemma demo_envelope: "valid_task (factory_task t1 ''seat-1'' demo_input demo_hash)" if "Identifier t1"
proof (rule factory_task_valid [OF demo_input_check that])
  show "Identifier ''seat-1''" by code_simp
  show "sha256_pattern demo_hash" using sha256_identifier_pattern demo_hashes(1) by blast
  show "length (factory_key ''seat-1'' demo_input) \<le> 1024" by code_simp
qed

lemma demo_ident: "Identifier ''t1''" "Identifier ''t2''" "Identifier ''seat-1''" by code_simp+

lemma demo_created:
  "\<exists>ev. factory_create plain_ucd demo_ids ''t1'' (Aware 0) ''seat-1'' demo_input [] MemoryArenaCoreRepository_new =
     (Inr demo_record, MemoryArenaCoreRepository_new\<lparr>mcr_tasks := [(''t1'', demo_record)],
        mcr_task_by_idempotency := [((''seat-1'', factory_key ''seat-1'' demo_input), ''t1'')], mcr_events := ev\<rparr>)"
proof -
  have nil: "secure_json_snapshot plain_ucd [] = Inr []" unfolding secure_json_iff by (simp add: MAX_CONFIG_NODES_def MAX_CONFIG_DEPTH_def)
  have v: "valid_task (factory_task ''t1'' ''seat-1'' demo_input demo_hash)" using demo_ident(1) by (rule demo_envelope)
  have f: "at_input (factory_task t a i h) = i" "at_input_hash (factory_task t a i h) = h" "at_game_agent_id (factory_task t a i h) = a"
    "at_idempotency_key (factory_task t a i h) = factory_key a i" "at_task_id (factory_task t a i h) = t" for t a i h by (simp_all add: factory_task_def)
  have "create_task plain_ucd demo_ids (factory_task ''t1'' ''seat-1'' demo_input demo_hash) [] empty_hash (Aware 0) MemoryArenaCoreRepository_new =
     (Inr demo_record, append_event demo_ids ''t1'' ''created'' (Aware 0) [(''kind'', dump_string (kind_name (at_kind (factory_task ''t1'' ''seat-1'' demo_input demo_hash))))]
        (MemoryArenaCoreRepository_new\<lparr>mcr_tasks := [(''t1'', demo_record)], mcr_task_by_idempotency := [((''seat-1'', factory_key ''seat-1'' demo_input), ''t1'')]\<rparr>))"
    unfolding create_task_def f demo_secure nil demo_hashes attempt_def sum.case Let_def
    by (simp add: MemoryArenaCoreRepository_new_def demo_record_def)
  moreover have "\<not> instant (input_deadline_at demo_input) \<le> instant (Aware 0)" by (simp add: demo_deadline)
  ultimately show ?thesis using v
    unfolding factory_create_def demo_secure nil demo_hashes attempt_def sum.case Let_def factory_task_def [symmetric]
    by (auto simp: append_event_def)
qed


definition demo_result_record :: "string \<Rightarrow> ArenaResultRecord" where
  "demo_result_record h = new_result_record (demo_result\<lparr>re_result_id := internal_result_id ''run-1''\<rparr>) (Aware 500000) h False None None"

lemma demo_sent:
  assumes "s = MemoryArenaCoreRepository_new\<lparr>mcr_tasks := [(''t1'', demo_record)], mcr_task_by_idempotency := ix, mcr_events := ev\<rparr>"
  shows "\<exists>x h ev'. sink_submit plain_ucd demo_ids demo_result (Aware 500000) s = (Inr x, s\<lparr>mcr_tasks := [(''t1'', close_task demo_record TCompleted (Aware 500000))],
     mcr_results := [(internal_result_id ''run-1'', demo_result_record h)], mcr_result_by_task := [(''t1'', internal_result_id ''run-1'')], mcr_events := ev'\<rparr>)"
proof -
  have "validate_runtime_controlled_text plain_ucd True (ascii ''run-1'') = Inr (ascii ''run-1'')"
    using plain_clean(1) [of "ascii ''run-1''"] by (simp add: plain_ascii validate_text_iff)
  then have v: "validate_runtime_result_identifiers plain_ucd demo_result = Inr demo_result"
    by (simp add: validate_runtime_result_identifiers_def runtime_identifiers_def demo_result_def)
  obtain h where h: "sha256_identifier (dump_result demo_result) = Inr h"
    using clean_identifier [of "dump_result demo_result"] by (auto simp: demo_result_def dump_result_def dump_string_def dump_option_def)
  have d: "at_deadline_at (tr_task demo_record) = Aware 1000000" "tr_status demo_record = TQueued"
    by (simp_all add: demo_record_def factory_task_def demo_deadline)
  have r: "re_task_id demo_result = ''t1''" "re_result_id demo_result = ''run-1''" "re_status demo_result = RSucceeded" "re_action demo_result = Some PassAction"
    by (simp_all add: demo_result_def)
  show ?thesis unfolding sink_submit_def submit_result_def v h attempt_def sum.case r assms server_now_def
    by (auto simp: get_task_def MemoryArenaCoreRepository_new_def d h r attempt_def status_terminal_def accept_result_def Let_def submitted_status_def append_event_def
        demo_result_record_def)
qed

definition demo_consume :: core_op where
  "demo_consume = ConsumePending (\<lambda>_. Aware 2000000) 10"

definition demo_application :: ArenaApplication where
  "demo_application = \<lparr>aa_accepted = True, aa_outcome = Candidate, aa_action = Some (dump_action PassAction), aa_rejection_reason = None\<rparr>"

lemma demo_derive: "derive_application (tr_task demo_record) (arr_result (demo_result_record h)) = Inr demo_application"
  by (simp add: derive_application_def demo_result_record_def new_result_record_def demo_result_def demo_record_def factory_task_def demo_input_def
      checked_action_def demo_decide_def decide_candidate_violation_def action_allowed_def violation_def candidate_application_def demo_application_def)

definition demo_applied :: AppliedArenaAction where
  "demo_applied = \<lparr>ap_task_id = ''t1'', ap_result_id = internal_result_id ''run-1'', ap_kind = KDecide, ap_outcome = Candidate,
     ap_action = Some (dump_action PassAction), ap_entered_at = Aware 500000, ap_applied_at = Aware 2000000\<rparr>"

lemma demo_consumed:
  assumes "mcr_tasks s = [(''t1'', close_task demo_record TCompleted (Aware 500000))]" "mcr_results s = [(internal_result_id ''run-1'', demo_result_record h)]"
    "mcr_applied_by_task s = []"
  shows "mcr_applied_by_task (core_step plain_ucd demo_ids demo_consume s) = [(''t1'', demo_applied)]"
proof -
  have p: "pending_results 10 s = [demo_result_record h]" using assms(2) by (simp add: pending_results_def demo_result_record_def new_result_record_def)
  have r: "re_result_id (arr_result (demo_result_record h)) = internal_result_id ''run-1''" "re_task_id (arr_result (demo_result_record h)) = ''t1''"
    "arr_apply_status (demo_result_record h) = ApplyPending" "arr_result_received_at (demo_result_record h) = Aware 500000"
    by (simp_all add: demo_result_record_def new_result_record_def demo_result_def)
  have t: "at_task_id (tr_task demo_record) = ''t1''" "at_kind (tr_task demo_record) = KDecide" by (simp_all add: demo_record_def factory_task_def demo_input_def)
  show ?thesis using assms demo_derive [of h]
    by (simp add: demo_consume_def consume_pending_def p r t apply_result_def attempt_def server_now_def apply_accepted_def demo_application_def Let_def
        append_event_def demo_applied_def)
qed

lemma demo_pipeline: "core_run plain_ucd demo_ids [demo_dispatch, demo_submit, demo_consume]"
proof -
  have "valid_result demo_result" using demo_ident by (simp add: AgentTaskResultV1_validate_iff demo_result_def) code_simp
  then show ?thesis by (simp add: demo_dispatch_def demo_submit_def demo_consume_def no_collision_with_def MemoryArenaCoreRepository_new_def)
qed

lemma demo_pipeline_prefix: "core_run plain_ucd demo_ids [demo_dispatch]" "core_run plain_ucd demo_ids [demo_dispatch, demo_submit]"
  using demo_pipeline by simp_all

lemma demo_after:
  obtains ev ev' ix h where "core_after plain_ucd demo_ids [demo_dispatch] = MemoryArenaCoreRepository_new\<lparr>mcr_tasks := [(''t1'', demo_record)],
       mcr_task_by_idempotency := ix, mcr_events := ev\<rparr>"
    "core_after plain_ucd demo_ids [demo_dispatch, demo_submit] = MemoryArenaCoreRepository_new\<lparr>mcr_tasks := [(''t1'', close_task demo_record TCompleted (Aware 500000))],
       mcr_task_by_idempotency := ix, mcr_results := [(internal_result_id ''run-1'', demo_result_record h)],
       mcr_result_by_task := [(''t1'', internal_result_id ''run-1'')], mcr_events := ev'\<rparr>"
    "mcr_applied_by_task (core_after plain_ucd demo_ids [demo_dispatch, demo_submit, demo_consume]) = [(''t1'', demo_applied)]"
proof -
  let ?ix = "[((''seat-1'', factory_key ''seat-1'' demo_input), ''t1'')]"
  obtain ev where c: "factory_create plain_ucd demo_ids ''t1'' (Aware 0) ''seat-1'' demo_input [] MemoryArenaCoreRepository_new =
     (Inr demo_record, MemoryArenaCoreRepository_new\<lparr>mcr_tasks := [(''t1'', demo_record)], mcr_task_by_idempotency := ?ix, mcr_events := ev\<rparr>)"
    using demo_created by blast
  let ?s = "MemoryArenaCoreRepository_new\<lparr>mcr_tasks := [(''t1'', demo_record)], mcr_task_by_idempotency := ?ix, mcr_events := ev\<rparr>"
  obtain x h ev' where s: "sink_submit plain_ucd demo_ids demo_result (Aware 500000) ?s = (Inr x, ?s\<lparr>mcr_tasks := [(''t1'', close_task demo_record TCompleted (Aware 500000))],
     mcr_results := [(internal_result_id ''run-1'', demo_result_record h)], mcr_result_by_task := [(''t1'', internal_result_id ''run-1'')], mcr_events := ev'\<rparr>)"
    using demo_sent [OF refl, where ix = ?ix and ev = ev] by blast
  note d = core_after_def demo_dispatch_def demo_submit_def c s
  have "mcr_applied_by_task (core_after plain_ucd demo_ids [demo_dispatch, demo_submit, demo_consume]) = [(''t1'', demo_applied)]"
    using demo_consumed [of "core_after plain_ucd demo_ids [demo_dispatch, demo_submit]" h] by (simp add: d) (simp add: MemoryArenaCoreRepository_new_def)
  with that [where ix = ?ix and ev = ev and h = h and ev' = ev'] show thesis by (simp add: d)
qed

theorem one_result_one_application_witness:
  "dget (mcr_applied_by_task (core_after plain_ucd demo_ids [demo_dispatch, demo_submit, demo_consume])) ''t1'' = Some demo_applied
    \<and> (\<exists>t r app. dget (mcr_tasks (core_after plain_ucd demo_ids [demo_dispatch, demo_submit, demo_consume])) ''t1'' = Some t
       \<and> dget (mcr_results (core_after plain_ucd demo_ids [demo_dispatch, demo_submit, demo_consume])) (internal_result_id ''run-1'') = Some r
       \<and> derive_application (tr_task t) (arr_result r) = Inr app \<and> aa_outcome app = Candidate)"
proof -
  have a: "dget (mcr_applied_by_task (core_after plain_ucd demo_ids [demo_dispatch, demo_submit, demo_consume])) ''t1'' = Some demo_applied"
    by (rule demo_after) simp
  show ?thesis
    using one_result_one_application [OF demo_pipeline refl, THEN conjunct2, THEN conjunct2, rule_format, OF a] a by (auto simp: demo_applied_def)
qed

theorem results_on_time_witness:
  "\<exists>t r. dget (mcr_tasks (core_after plain_ucd demo_ids [demo_dispatch, demo_submit])) ''t1'' = Some t
    \<and> dget (mcr_results (core_after plain_ucd demo_ids [demo_dispatch, demo_submit])) (internal_result_id ''run-1'') = Some r
    \<and> instant (arr_result_received_at r) < instant (at_deadline_at (tr_task t))"
proof -
  obtain h where r: "dget (mcr_results (core_after plain_ucd demo_ids [demo_dispatch, demo_submit])) (internal_result_id ''run-1'') = Some (demo_result_record h)"
    by (rule demo_after) simp
  have "re_task_id (arr_result (demo_result_record h)) = ''t1''" "internal_result_id ''run-1'' \<noteq> default_result_id ''t1''"
    by (simp_all add: demo_result_record_def new_result_record_def demo_result_def internal_result_id_def default_result_id_def)
  then show ?thesis using results_on_time [OF demo_pipeline_prefix(2) r] r by auto
qed

theorem failed_core_calls_harmless_witness:
  "core_step plain_ucd demo_ids (ApplyResult ''missing'' (Aware 5)) (core_after plain_ucd demo_ids [demo_dispatch, demo_submit])
    = core_after plain_ucd demo_ids [demo_dispatch, demo_submit]\<lparr>mcr_events := mcr_events
        (core_step plain_ucd demo_ids (ApplyResult ''missing'' (Aware 5)) (core_after plain_ucd demo_ids [demo_dispatch, demo_submit]))\<rparr>"
proof -
  have "dget (mcr_results (core_after plain_ucd demo_ids [demo_dispatch, demo_submit])) ''missing'' = None"
    by (rule demo_after) (simp add: internal_result_id_def)
  then have "core_error plain_ucd demo_ids (ApplyResult ''missing'' (Aware 5)) (core_after plain_ucd demo_ids [demo_dispatch, demo_submit])
      = Some (ArenaResultConflictError ''Arena result does not exist'')"
    by (simp add: apply_result_def attempt_def server_now_def raised_def)
  from failed_core_calls_harmless [OF demo_pipeline_prefix(2) refl _ this] show ?thesis by simp
qed

theorem pipeline_drains_witness:
  "\<exists>rs s1. finalize_expired demo_ids (Aware 3000000) 100 (core_after plain_ucd demo_ids [demo_dispatch]) = (Inr rs, s1) \<and> length rs = 1
    \<and> expired_tasks (Aware 3000000) s1 = []"
proof -
  let ?s = "core_after plain_ucd demo_ids [demo_dispatch]"
  have one: "length (expired_tasks (Aware 3000000) ?s) = 1"
    by (rule demo_after) (simp add: expired_tasks_def demo_record_def factory_task_def demo_deadline status_terminal_def MemoryArenaCoreRepository_new_def)
  obtain rs s1 where r: "finalize_expired demo_ids (Aware 3000000) 100 ?s = (Inr rs, s1)"
    "map (\<lambda>r. re_task_id (arr_result r)) rs = map (\<lambda>t. at_task_id (tr_task t)) (take (nat 100) (expired_tasks (Aware 3000000) ?s))"
    "set (expired_tasks (Aware 3000000) s1) = set (drop (nat 100) (expired_tasks (Aware 3000000) ?s))"
    using pipeline_drains [OF demo_pipeline_prefix(1) refl, of "Aware 3000000" "\<lambda>_. Aware 4000000" 100] by auto
  show ?thesis using r(1,3) map_eq_imp_length_eq [OF r(2)] one by auto
qed

theorem repository_refines_register_witness:
  "phase_of (core_after plain_ucd demo_ids [demo_dispatch]) ''t1'' = Awaiting (tr_task demo_record)
    \<and> phase_step\<^sup>*\<^sup>* (phase_of (core_after plain_ucd demo_ids [demo_dispatch]) ''t1'') (phase_of (core_after plain_ucd demo_ids [demo_dispatch, demo_submit]) ''t1'')"
proof -
  have "phase_of (core_after plain_ucd demo_ids [demo_dispatch]) ''t1'' = Awaiting (tr_task demo_record)"
    by (rule demo_after) (simp add: phase_of_def MemoryArenaCoreRepository_new_def)
  then show ?thesis
    using repository_refines_register [where ops = "[demo_dispatch]" and ops' = "[demo_submit]" and k = "''t1''", OF _ refl refl, of plain_ucd demo_ids]
      demo_pipeline_prefix(2) by simp
qed

theorem factory_create_idempotent_witness:
  "\<exists>s. factory_create plain_ucd demo_ids ''t1'' (Aware 0) ''seat-1'' demo_input [] MemoryArenaCoreRepository_new = (Inr demo_record, s)
    \<and> factory_create plain_ucd demo_ids ''t2'' (Aware 9000000) ''seat-1'' demo_input [] s = (Inr demo_record, s)"
proof -
  obtain s where s: "factory_create plain_ucd demo_ids ''t1'' (Aware 0) ''seat-1'' demo_input [] MemoryArenaCoreRepository_new = (Inr demo_record, s)"
    using demo_created by blast
  have "core_after plain_ucd demo_ids [] = MemoryArenaCoreRepository_new" by (simp add: core_after_def)
  then show ?thesis
    using factory_create_idempotent [of plain_ucd demo_ids "[]" "''t1''" "Aware 0" "''seat-1''" demo_input "[]" demo_record s "''t2''" "Aware 9000000"]
      s demo_input_check demo_ident by (auto simp: no_collision_with_def MemoryArenaCoreRepository_new_def)
qed

end
