(* ===== verification/Arena_Hosted.thy ===== *)
theory Arena_Hosted
  imports Arena_Candidates
begin

text \<open>
  The hosted negotiation: the context that \<open>arena_game/postgres.py\<close> reads for the agent whose turn it is
  (\<open>hosted_negotiation_context\<close>), the view that \<open>arena_game/hosted_coordinator.py\<close> makes of it (\<open>_negotiate_view\<close>), and the
  entry of the agent's action into the stored negotiation (\<open>apply_hosted_negotiation_action\<close>). A row of the table is a
  record; a transaction that raises leaves the row as it was. Freezing the settlement intent of an accepted
  negotiation and the notifications are outside the model.
\<close>

section \<open>The stored negotiation\<close>

definition gold_decimal :: "int \<Rightarrow> string result" where
  "gold_decimal atomic =
     (if atomic < 0 then Inl (ValueError ''gold amount must be non-negative'')
      else Inr (show_int (atomic div 1000000) @ ''.'' @ pad6 (nat (atomic mod 1000000))))"

record NegotiationMessage =
  hm_source_result_id :: string
  hm_turn :: NegotiationTurn

text \<open>A row of \<open>arena402.negotiations\<close> with its messages in the order of their turns and the limits of its pairing.\<close>

record NegotiationRow =
  hn_negotiation_id :: string
  hn_game_id :: string
  hn_round_id :: string
  hn_buyer_participant_id :: string
  hn_seller_participant_id :: string
  hn_max_turns :: int
  hn_buyer_limit_price_atomic :: "int option"
  hn_seller_limit_price_atomic :: "int option"
  hn_messages :: "NegotiationMessage list"
  hn_turn_count :: int
  hn_next_role :: "NegotiationRole option"
  hn_status :: NegotiationStatus
  hn_latest_proposal_price_atomic :: "int option"
  hn_latest_proposal_role :: "NegotiationRole option"
  hn_accepted_price_atomic :: "int option"
  hn_completed_at :: "datetime option"

text \<open>The row of a pairing of the first-come market, and that of an engaged request, whose opening offer is the first turn.\<close>

definition fcfs_negotiation_row :: "string \<Rightarrow> string \<Rightarrow> string \<Rightarrow> string \<Rightarrow> string \<Rightarrow> int \<Rightarrow> int option \<Rightarrow> int option \<Rightarrow> NegotiationRow" where
  "fcfs_negotiation_row pairing_id game_id round_id buyer seller max_turns buyer_limit seller_limit =
     \<lparr>hn_negotiation_id = ''neg:'' @ pairing_id, hn_game_id = game_id, hn_round_id = round_id, hn_buyer_participant_id = buyer,
      hn_seller_participant_id = seller, hn_max_turns = max_turns, hn_buyer_limit_price_atomic = buyer_limit,
      hn_seller_limit_price_atomic = seller_limit, hn_messages = [], hn_turn_count = 0, hn_next_role = Some Buyer, hn_status = ACTIVE,
      hn_latest_proposal_price_atomic = None, hn_latest_proposal_role = None, hn_accepted_price_atomic = None, hn_completed_at = None\<rparr>"

definition engaged_negotiation_row :: "string \<Rightarrow> string \<Rightarrow> string \<Rightarrow> string \<Rightarrow> string \<Rightarrow> int \<Rightarrow> int option \<Rightarrow> int option
    \<Rightarrow> string \<Rightarrow> int \<Rightarrow> utext \<Rightarrow> NegotiationRow" where
  "engaged_negotiation_row negotiation_id game_id round_id buyer seller max_turns buyer_limit seller_limit source_result_id opening_price message =
     \<lparr>hn_negotiation_id = negotiation_id, hn_game_id = game_id, hn_round_id = round_id, hn_buyer_participant_id = buyer,
      hn_seller_participant_id = seller, hn_max_turns = max_turns, hn_buyer_limit_price_atomic = buyer_limit,
      hn_seller_limit_price_atomic = seller_limit,
      hn_messages = [\<lparr>hm_source_result_id = source_result_id,
        hm_turn = \<lparr>nt_sequence = 1, nt_role = Buyer,
          nt_action = \<lparr>na_action = Propose, na_price_atomic = Some opening_price, na_message = Some message\<rparr>\<rparr>\<rparr>],
      hn_turn_count = 1, hn_next_role = Some Seller, hn_status = ACTIVE,
      hn_latest_proposal_price_atomic = Some opening_price, hn_latest_proposal_role = Some Buyer, hn_accepted_price_atomic = None, hn_completed_at = None\<rparr>"

text \<open>What the context reads from other tables.\<close>

record NegotiationSetting =
  hs_round_index :: int
  hs_round_count :: int
  hs_good :: string
  hs_quantity :: int
  hs_cash_atomic :: int
  hs_inventory_available :: int
  hs_counterparty_agent_id :: string
  hs_counterparty_name :: utext
  hs_counterparty_failed_negotiations :: int
  hs_events :: "ArenaPublicEventV1 list"
  hs_deadline_at :: datetime

section \<open>The agent's view\<close>

definition role_limit :: "NegotiationRow \<Rightarrow> NegotiationRole option \<Rightarrow> int option" where
  "role_limit row role = (if role = Some Buyer then hn_buyer_limit_price_atomic row else hn_seller_limit_price_atomic row)"

definition latest_counterparty_quote :: "NegotiationRole \<Rightarrow> NegotiationMessage list \<Rightarrow> NegotiationTurn option" where
  "latest_counterparty_quote role messages =
     find (\<lambda>t. na_action (nt_action t) = Propose \<and> nt_role t \<noteq> role) (rev (map hm_turn messages))"

text \<open>A price that is read back from its six-digit rendering.\<close>

definition wire_price :: "int \<Rightarrow> decimal result" where
  "wire_price atomic = bindR (gold_decimal atomic) parse_fixed_decimal"

definition optional_price :: "int option \<Rightarrow> decimal option result" where
  "optional_price p = (case p of None \<Rightarrow> Inr None | Some a \<Rightarrow> bindR (wire_price a) (\<lambda>d. Inr (Some d)))"

definition history_message :: "NegotiationTurn \<Rightarrow> ArenaNegotiationMessageV1 result" where
  "history_message t =
     bindR (optional_price (na_price_atomic (nt_action t))) (\<lambda>price.
     let m = \<lparr>nm_turn_sequence = nt_sequence t, nm_from_role = nt_role t, nm_action = na_action (nt_action t), nm_price = price,
              nm_message = na_message (nt_action t)\<rparr> in
     bindR (ArenaNegotiationMessageV1_check m) (\<lambda>_. Inr m))"

definition quote_view :: "NegotiationTurn \<Rightarrow> ArenaCounterpartyQuoteV1 result" where
  "quote_view t =
     (case na_price_atomic (nt_action t) of
        None \<Rightarrow> Inl (TypeError ''int() argument must not be None'')
      | Some p \<Rightarrow> bindR (wire_price p) (\<lambda>price.
          let q = \<lparr>cq_turn_sequence = nt_sequence t, cq_from_role = nt_role t, cq_price = price\<rparr> in
          bindR (ArenaCounterpartyQuoteV1_check q) (\<lambda>_. Inr q)))"

definition optional_quote :: "NegotiationTurn option \<Rightarrow> ArenaCounterpartyQuoteV1 option result" where
  "optional_quote q = (case q of None \<Rightarrow> Inr None | Some t \<Rightarrow> bindR (quote_view t) (\<lambda>v. Inr (Some v)))"

text \<open>\<open>_negotiate_view\<close> on \<open>hosted_negotiation_context\<close>: nothing for a negotiation that is over.\<close>

definition negotiate_view :: "NegotiationRow \<Rightarrow> NegotiationSetting \<Rightarrow> ArenaNegotiateInputV1 option result" where
  "negotiate_view row setting =
     (if hn_status row \<noteq> ACTIVE then Inr None
      else
      let role = (case hn_next_role row of None \<Rightarrow> Seller | Some r \<Rightarrow> r); turns = map hm_turn (hn_messages row) in
      bindR (mapR history_message turns) (\<lambda>history.
      bindR (optional_quote (latest_counterparty_quote role (hn_messages row))) (\<lambda>latest.
      bindR (optional_price (role_limit row (hn_next_role row))) (\<lambda>own_limit.
      bindR (wire_price (hs_cash_atomic setting)) (\<lambda>cash.
      let view = \<lparr>ni_phase = ''negotiate'', ni_game_id = hn_game_id row, ni_round_id = hn_round_id row,
            ni_round_index = hs_round_index setting, ni_round_count = Some (hs_round_count setting),
            ni_rounds_remaining = Some (hs_round_count setting - hs_round_index setting), ni_negotiation_id = hn_negotiation_id row,
            ni_role = role, ni_good = hs_good setting, ni_quantity = hs_quantity setting, ni_limit_price = own_limit, ni_cash = cash,
            ni_inventory_available = hs_inventory_available setting,
            ni_counterparty = \<lparr>pc_agent_id = Some (hs_counterparty_agent_id setting), pc_display_name = Some (hs_counterparty_name setting),
              pc_failed_negotiations = hs_counterparty_failed_negotiations setting\<rparr>,
            ni_events = hs_events setting, ni_history = history, ni_latest_counterparty_quote = latest,
            ni_turn_sequence = hn_turn_count row + 1, ni_remaining_turns = hn_max_turns row - hn_turn_count row,
            ni_deadline_at = hs_deadline_at setting\<rparr> in
      bindR (ArenaNegotiateInputV1_check view) (\<lambda>_. Inr (Some view)))))))"

section \<open>Entering the action\<close>

text \<open>The negotiation that the stored messages give.\<close>

definition replay_message :: "NegotiationMessage \<Rightarrow> Negotiation \<Rightarrow> Negotiation result" where
  "replay_message m n =
     bindR (NegotiationAction_post_init (nt_action (hm_turn m))) (\<lambda>a. negotiation_apply n (nt_role (hm_turn m)) a)"

definition replay_negotiation :: "NegotiationRow \<Rightarrow> Negotiation result" where
  "replay_negotiation row =
     bindR (Negotiation_new (hn_negotiation_id row) (hn_buyer_participant_id row) (hn_seller_participant_id row) (hn_max_turns row))
       (foldR replay_message (hn_messages row))"

text \<open>\<open>NegotiateActionV1\<close>: the actions a negotiation task can have.\<close>

datatype NegotiateActionV1 = NegPropose decimal utext | NegAccept | NegReject "utext option"

fun as_negotiate_action :: "AgentDrivenMarketActionV1 \<Rightarrow> NegotiateActionV1 option" where
  "as_negotiate_action (ProposeAction price message) = Some (NegPropose price message)"
| "as_negotiate_action AcceptAction = Some NegAccept"
| "as_negotiate_action (RejectAction message) = Some (NegReject message)"
| "as_negotiate_action _ = None"

definition agent_action_value :: "NegotiateActionV1 \<Rightarrow> NegotiationAction result" where
  "agent_action_value a =
     (case a of
        NegPropose price message \<Rightarrow>
          bindR (gold (GStr (serialize_fixed_decimal price))) (\<lambda>p.
            NegotiationAction_post_init \<lparr>na_action = Propose, na_price_atomic = Some p, na_message = Some message\<rparr>)
      | NegAccept \<Rightarrow> NegotiationAction_post_init \<lparr>na_action = Accept, na_price_atomic = None, na_message = None\<rparr>
      | NegReject message \<Rightarrow> NegotiationAction_post_init \<lparr>na_action = Reject, na_price_atomic = None, na_message = message\<rparr>)"

definition outside_limit_message :: utext where
  "outside_limit_message = ascii ''The proposed price is outside my limit.''"

definition outside_limit :: "NegotiationRole option \<Rightarrow> int option \<Rightarrow> int option \<Rightarrow> bool" where
  "outside_limit role own_limit quote_price =
     (case (own_limit, quote_price) of
        (Some l, Some q) \<Rightarrow> (role = Some Buyer \<and> q > l) \<or> (role = Some Seller \<and> q < l)
      | _ \<Rightarrow> False)"

text \<open>The action that is recorded: an action beyond the limit of its own author becomes a refusal.\<close>

definition hosted_action_value :: "NegotiationRow \<Rightarrow> Negotiation \<Rightarrow> NegotiateActionV1 \<Rightarrow> NegotiationAction result" where
  "hosted_action_value row n a =
     bindR (agent_action_value a) (\<lambda>action_value.
     let quote_price = (if a = NegAccept \<and> ng_turns n \<noteq> [] then na_price_atomic (nt_action (last (ng_turns n))) else na_price_atomic action_value) in
     if outside_limit (hn_next_role row) (role_limit row (hn_next_role row)) quote_price then
       NegotiationAction_post_init \<lparr>na_action = Reject, na_price_atomic = None, na_message = Some outside_limit_message\<rparr>
     else Inr action_value)"

definition next_role_value :: "Negotiation \<Rightarrow> NegotiationRole option" where
  "next_role_value n = (if ng_status n = ACTIVE then Some (next_role n) else None)"

text \<open>The update of the row from the negotiation that was reached.\<close>

definition store_negotiation :: "Negotiation \<Rightarrow> datetime \<Rightarrow> NegotiationRow \<Rightarrow> NegotiationRow" where
  "store_negotiation n now row =
     (let latest_proposal = find (\<lambda>t. na_action (nt_action t) = Propose) (rev (ng_turns n)) in
      row\<lparr>hn_turn_count := int (length (ng_turns n)), hn_next_role := next_role_value n, hn_status := ng_status n,
          hn_latest_proposal_price_atomic := (case latest_proposal of None \<Rightarrow> None | Some t \<Rightarrow> na_price_atomic (nt_action t)),
          hn_latest_proposal_role := map_option nt_role latest_proposal, hn_accepted_price_atomic := ng_accepted_price_atomic n,
          hn_completed_at := (if ng_status n \<noteq> ACTIVE then Some now else None)\<rparr>)"

text \<open>\<open>recorded\<close> are the results that have authored a message of any negotiation.\<close>

definition apply_hosted_negotiation_action :: "string list \<Rightarrow> string \<Rightarrow> NegotiateActionV1 option \<Rightarrow> datetime \<Rightarrow> NegotiationRow \<Rightarrow> NegotiationRow result" where
  "apply_hosted_negotiation_action recorded result_id action now row =
     (if result_id \<in> set recorded then Inr row
      else if hn_status row \<noteq> ACTIVE then Inr row
      else
      bindR (replay_negotiation row) (\<lambda>n.
      case action of
        None \<Rightarrow> Inr (store_negotiation (negotiation_expire n) now row)
      | Some a \<Rightarrow>
          bindR (hosted_action_value row n a) (\<lambda>action_value.
          case hn_next_role row of
            None \<Rightarrow> Inl (NegotiationError ''action was submitted out of turn'')
          | Some role \<Rightarrow>
              bindR (negotiation_apply n role action_value) (\<lambda>n'.
              Inr (store_negotiation n' now
                (row\<lparr>hn_messages := hn_messages row @ [\<lparr>hm_source_result_id = result_id, hm_turn = last (ng_turns n')\<rparr>]\<rparr>))))))"

end
