(* ===== verification/Arena_Hosted_Properties.thy ===== *)
theory Arena_Hosted_Properties
  imports Arena_Hosted Arena_Core_Invariant
begin

text \<open>
  Proofs about the hosted negotiation: a stored row mirrors a negotiation of the domain, the prices of its views are
  exact, a candidate that passed the check against its view enters the row, and no history of calls records an offer
  or an agreement beyond a private limit.
\<close>

section \<open>The row mirrors a negotiation\<close>

text \<open>A row stands for the negotiation its messages replay to, unless it has timed out since.\<close>

definition row_mirrors :: "NegotiationRow \<Rightarrow> Negotiation \<Rightarrow> bool" where
  "row_mirrors row n \<longleftrightarrow> replay_negotiation row = Inr n \<and> map hm_turn (hn_messages row) = ng_turns n
     \<and> hn_turn_count row = int (length (ng_turns n)) \<and> hn_accepted_price_atomic row = ng_accepted_price_atomic n
     \<and> (hn_status row = ng_status n \<and> hn_next_role row = next_role_value n \<or> hn_status row = TIMEOUT \<and> ng_status n = ACTIVE \<and> hn_next_role row = None)"

definition row_ok :: "NegotiationRow \<Rightarrow> bool" where
  "row_ok row \<longleftrightarrow> (\<exists>n. row_mirrors row n)"

lemma foldR_snoc: "foldR f (xs @ [x]) s = bindR (foldR f xs s) (f x)"
proof (cases "foldR f xs s")
  case (Inr t)
  then show ?thesis by (cases "f x t") (simp_all add: foldR_append)
qed (simp add: foldR_append)

lemma post_init_same: "NegotiationAction_post_init a = Inr b \<Longrightarrow> b = a"
  by (auto simp: NegotiationAction_post_init_def split: if_splits)

lemma foldR_replay_reach: "foldR replay_message ms n = Inr n' \<Longrightarrow> negotiation_reach n \<Longrightarrow> negotiation_reach n'"
proof (induction ms arbitrary: n)
  case (Cons m ms)
  obtain k where k: "replay_message m n = Inr k" "foldR replay_message ms k = Inr n'" using Cons.prems(1) by (auto simp: bindR_Inr_iff)
  obtain a where "NegotiationAction_post_init (nt_action (hm_turn m)) = Inr a" "negotiation_apply n (nt_role (hm_turn m)) a = Inr k"
    using k(1) by (auto simp: replay_message_def bindR_Inr_iff)
  then have "negotiation_step n k" using post_init_same by (metis negotiation_step.apply_ok)
  then show ?case using Cons.IH [OF k(2)] Cons.prems(2) by (blast intro: negotiation_reach.step)
qed simp

lemma replay_reach: "replay_negotiation row = Inr n \<Longrightarrow> negotiation_reach n"
  unfolding replay_negotiation_def bindR_Inr_iff using foldR_replay_reach negotiation_reach.new by blast

lemma mirrors_reach: "row_mirrors row n \<Longrightarrow> negotiation_reach n"
  unfolding row_mirrors_def using replay_reach by blast

lemma replay_max: "replay_negotiation row = Inr n \<Longrightarrow> ng_max_turns n = hn_max_turns row"
proof -
  have "foldR replay_message ms k = Inr n \<Longrightarrow> ng_max_turns n = ng_max_turns k" for ms k
  proof (induction ms arbitrary: k)
    case (Cons m ms)
    obtain j where j: "replay_message m k = Inr j" "foldR replay_message ms j = Inr n" using Cons.prems by (auto simp: bindR_Inr_iff)
    have "ng_max_turns j = ng_max_turns k" using j(1) negotiation_apply_turns by (auto simp: replay_message_def bindR_Inr_iff)
    then show ?case using Cons.IH [OF j(2)] by simp
  qed simp
  then show "replay_negotiation row = Inr n \<Longrightarrow> ng_max_turns n = hn_max_turns row"
    by (fastforce simp: replay_negotiation_def bindR_Inr_iff Negotiation_new_def Negotiation_post_init_def split: if_splits)
qed

lemma replay_cong:
  "hn_negotiation_id r = hn_negotiation_id r' \<Longrightarrow> hn_buyer_participant_id r = hn_buyer_participant_id r' \<Longrightarrow> hn_seller_participant_id r = hn_seller_participant_id r'
    \<Longrightarrow> hn_max_turns r = hn_max_turns r' \<Longrightarrow> hn_messages r = hn_messages r' \<Longrightarrow> replay_negotiation r = replay_negotiation r'"
  by (simp add: replay_negotiation_def)

lemma store_replay [simp]: "replay_negotiation (store_negotiation n now row) = replay_negotiation row"
  by (rule replay_cong) (simp_all add: store_negotiation_def Let_def)

lemma replay_append:
  assumes "replay_negotiation row = Inr n" "NegotiationAction_post_init a = Inr a" "negotiation_apply n role a = Inr n'"
  shows "replay_negotiation (row\<lparr>hn_messages := hn_messages row @ [\<lparr>hm_source_result_id = rid, hm_turn = last (ng_turns n')\<rparr>]\<rparr>) = Inr n'"
proof -
  have l: "last (ng_turns n') = \<lparr>nt_sequence = int (length (ng_turns n)) + 1, nt_role = role, nt_action = a\<rparr>"
    using negotiation_apply_turns [OF assms(3)] by simp
  obtain k where k: "Negotiation_new (hn_negotiation_id row) (hn_buyer_participant_id row) (hn_seller_participant_id row) (hn_max_turns row) = Inr k"
    "foldR replay_message (hn_messages row) k = Inr n" using assms(1) by (auto simp: replay_negotiation_def bindR_Inr_iff)
  then show ?thesis using assms(2,3) by (simp add: replay_negotiation_def foldR_snoc l replay_message_def)
qed

lemma hosted_action_valid: "hosted_action_value row n a = Inr v \<Longrightarrow> NegotiationAction_post_init v = Inr v"
  using post_init_same by (auto simp: hosted_action_value_def agent_action_value_def bindR_Inr_iff Let_def split: if_splits NegotiateActionV1.splits; metis)

text \<open>A call that changes the row finds it active, with the turn of the role that it names.\<close>

lemma hosted_changes:
  assumes "row_mirrors row n" "apply_hosted_negotiation_action recorded rid action now row = Inr row'" "row' \<noteq> row"
  shows "rid \<notin> set recorded" "hn_status row = ACTIVE" "ng_status n = ACTIVE" "hn_next_role row = Some (next_role n)" "replay_negotiation row = Inr n"
proof -
  show "rid \<notin> set recorded" and act: "hn_status row = ACTIVE"
    using assms(2,3) by (auto simp: apply_hosted_negotiation_action_def split: if_splits)
  then show "ng_status n = ACTIVE" and "hn_next_role row = Some (next_role n)"
    using assms(1) by (auto simp: row_mirrors_def next_role_value_def split: if_splits)
  show "replay_negotiation row = Inr n" using assms(1) unfolding row_mirrors_def by blast
qed

lemma apply_hosted_mirrors:
  assumes "row_mirrors row n" "apply_hosted_negotiation_action recorded rid action now row = Inr row'"
  shows "row' = row \<or> (action = None \<and> row' = store_negotiation (negotiation_expire n) now row \<and> row_mirrors row' n)
    \<or> (\<exists>a v n'. action = Some a \<and> hosted_action_value row n a = Inr v \<and> negotiation_apply n (next_role n) v = Inr n' \<and> row_mirrors row' n'
         \<and> hm_source_result_id (last (hn_messages row')) = rid \<and> hn_messages row' \<noteq> [] \<and> butlast (hn_messages row') = hn_messages row)"
proof (cases "row' = row")
  case False
  note act = hosted_changes(2-5) [OF assms False]
  show ?thesis
  proof (cases action)
    case None
    then have "row' = store_negotiation (negotiation_expire n) now row"
      using assms(2) act False by (auto simp: apply_hosted_negotiation_action_def split: if_splits)
    then show ?thesis using None assms(1) act
      by (simp add: row_mirrors_def) (simp add: store_negotiation_def Let_def negotiation_expire_def next_role_value_def)
  next
    case (Some a)
    then obtain v n' where v: "hosted_action_value row n a = Inr v" "negotiation_apply n (next_role n) v = Inr n'"
      "row' = store_negotiation n' now (row\<lparr>hn_messages := hn_messages row @ [\<lparr>hm_source_result_id = rid, hm_turn = last (ng_turns n')\<rparr>]\<rparr>)"
      using assms(2) act False by (auto simp: apply_hosted_negotiation_action_def bindR_Inr_iff split: if_splits)
    have "map hm_turn (hn_messages row) @ [last (ng_turns n')] = ng_turns n'"
      using assms(1) negotiation_apply_turns [OF v(2)] by (simp add: row_mirrors_def)
    then have "row_mirrors row' n'"
      using replay_append [OF act(4) hosted_action_valid [OF v(1)] v(2), of rid] unfolding row_mirrors_def v(3) store_replay
      by (simp add: store_negotiation_def Let_def)
    then show ?thesis using Some v by (auto simp: store_negotiation_def Let_def)
  qed
qed simp

section \<open>Exact prices\<close>

lemma dec_less_frac:
  "dec_less (Dec False c (- int k)) (Dec False c' (- int k')) \<longleftrightarrow> c * 10 ^ k' < c' * 10 ^ k"
proof -
  let ?m = "max k k'"
  have m: "min (- int k) (- int k') = - int ?m" by auto
  have e: "nat (- int j - - int ?m) = ?m - j" for j by simp
  have "c * 10 ^ (?m - k) < c' * 10 ^ (?m - k') \<longleftrightarrow> c * 10 ^ (?m - k) * 10 ^ (k + k' - ?m) < c' * 10 ^ (?m - k') * 10 ^ (k + k' - ?m)" by simp
  also have "\<dots> \<longleftrightarrow> c * 10 ^ k' < c' * 10 ^ k"
    unfolding mult.assoc power_add [symmetric] by (simp add: max_def)
  finally have eq: "c * 10 ^ (?m - k) < c' * 10 ^ (?m - k') \<longleftrightarrow> c * 10 ^ k' < c' * 10 ^ k" .
  have "dec_at (- int ?m) False d (- int j) = int (d * 10 ^ (?m - j))" for d j unfolding dec_at_def e by simp
  then show ?thesis unfolding dec_less.simps m using eq by (simp only: of_nat_less_iff)
qed

lemma wire_price_form:
  assumes "wire_price l = Inr d"
  shows "0 \<le> l" "d = Dec False (nat l) (- int 6)"
proof -
  show l: "0 \<le> l" using assms by (auto simp: wire_price_def gold_decimal_def split: if_splits)
  let ?i = "show_nat (nat (l div 1000000))" and ?f = "pad6 (nat (l mod 1000000))"
  have v: "parse_fixed_decimal (?i @ ''.'' @ ?f) = Inr d" using assms l by (simp add: wire_price_def gold_decimal_def show_int_def pos_imp_zdiv_neg_iff)
  have f: "list_all is_digit ?f" "nat_of_digits ?f = nat (l mod 1000000)" "length ?f = 6" by (rule pad6_spec; simp)+
  have c: "?i = ''0'' \<or> (?i \<noteq> [] \<and> hd ?i \<noteq> CHR ''0'' \<and> list_all is_digit ?i)" by (rule show_nat_canonical)
  have "?f \<noteq> []" using f(3) by auto
  have p: "partition_point (?i @ ''.'' @ ?f) = (?i, Some ?f)" using canonical_digits [OF c] by (intro partition_point_simps) simp
  have "length ?i + length ?f \<le> 38"
    using v by (auto simp: parse_fixed_decimal_def p MAX_DECIMAL_DIGITS_def Let_def simp del: append.simps split: if_splits)
  then have "d = Dec False (nat_of_digits (?i @ ?f)) (- int (length ?f))"
    using parse_fraction [OF c \<open>?f \<noteq> []\<close> f(1)] v f(3) by simp
  moreover have "nat_of_digits (?i @ ?f) = nat l"
  proof -
    have "nat (l div 1000000) * 1000000 + nat (l mod 1000000) = nat l" using l by (simp add: nat_div_distrib nat_mod_distrib)
    then show ?thesis using f by (simp add: nat_of_digits_append)
  qed
  ultimately show "d = Dec False (nat l) (- int 6)" using f(3) by simp
qed

text \<open>A price of at most 22 digits that passes the precision check is an exact number of gold units.\<close>

lemma precise_price_gold:
  assumes "FixedDecimal p" "decimal_positive p" "has_arena_money_precision p = Inr True" "p = Dec False c e" "c < 10 ^ 22"
  obtains x k where "gold (GStr (serialize_fixed_decimal p)) = Inr (int x)" "0 < x" "e = - int k" "x * 10 ^ k = c * 10 ^ 6"
proof -
  obtain k where k: "e = - int k" "k \<le> 18" using FixedDecimal_form [OF assms(1)] assms(4) by auto
  have c: "0 < c" using assms(2,4) by simp
  have "c * 1000000 < 10 ^ 28" using assms(5) by simp
  then have "ndigits (c * 1000000) \<le> 28" using ndigits_le [of "c * 1000000" 28] by simp
  then have fx: "dec_fix False (c * 1000000) e = Inr (Dec False (c * 1000000) e)"
    using dec_fix_small [of "c * 1000000" e False] c assms(5) k by (simp add: dec_Etiny_def dec_Etop_def)
  have i: "dec_is_integral (c * 1000000) e" using fx assms(3,4) by (simp add: has_arena_money_precision_def)
  have d: "10 ^ k dvd c * 10 ^ 6" using i k by (cases "k = 0") (auto simp: dec_is_integral_iff)
  have "decimal_of_string (serialize_fixed_decimal p) = Some p"
    using assms(1) by (auto simp: FixedDecimal_def parse_fixed_decimal_def Let_def split: if_splits option.splits decimal.splits prod.splits)
  then have g: "gold (GStr (serialize_fixed_decimal p)) = gold (GDecimal p)" by (simp add: gold_def)
  let ?x = "c * 10 ^ 6 div 10 ^ k"
  have x: "?x * 10 ^ k = c * 10 ^ 6" using d by simp
  then have "0 < ?x" using c by (metis mult_is_0 neq0_conv power_not_zero zero_neq_numeral)
  moreover have "gold (GDecimal p) = Inr (int ?x)"
  proof -
    have "?x \<le> c * 10 ^ 6" "c * 10 ^ 6 < 10 ^ 28" using assms(5) by simp_all
    then have "?x < 10 ^ 28" by (rule le_less_trans)
    then have "int ?x < int (10 ^ 28)" by (simp only: of_nat_less_iff)
    then have "int ?x \<le> MAX_GOLD_ATOMIC" by (simp add: MAX_GOLD_ATOMIC_def)
    moreover have "dec_int False (c * 1000000) e = int ?x" using k by (auto simp: dec_int_def)
    ultimately show ?thesis using gold_via_fix [of c e False "c * 1000000" e "int ?x"] fx i assms(4) by (simp add: GOLD_SCALE_def)
  qed
  ultimately show ?thesis using that [OF _ _ k(1) x] g by simp
qed

section \<open>Candidates and the stored negotiation\<close>

lemma within_limit:
  assumes "optional_price own = Inr l" "price = Dec False c (- int k)" "x * 10 ^ k = c * 10 ^ 6"
    and "pred_option (\<lambda>d. \<not> beyond_limit role price d) l"
  shows "\<not> outside_limit (Some role) own (Some (int x))"
proof (cases own)
  case (Some a)
  then obtain d where d: "wire_price a = Inr d" "l = Some d" using assms(1) by (auto simp: optional_price_def bindR_Inr_iff)
  note w = wire_price_form [OF d(1)]
  have "dec_less d price \<longleftrightarrow> nat a < x" "dec_less price d \<longleftrightarrow> x < nat a"
    unfolding w(2) assms(2) dec_less_frac assms(3) [symmetric] by simp_all
  then show ?thesis using assms(4) d(2) Some w(1) by (cases role) (auto simp: beyond_limit_def outside_limit_def)
qed (simp add: outside_limit_def)

text \<open>What a view says of the negotiation behind it.\<close>

lemma negotiate_view_mirror:
  assumes "negotiate_view row setting = Inr (Some view)" "row_mirrors row n"
  shows "ng_status n = ACTIVE" "hn_next_role row = Some (next_role n)" "ni_role view = next_role n" "ni_turn_sequence view = int (length (ng_turns n)) + 1"
    "ni_remaining_turns view = ng_max_turns n - int (length (ng_turns n))" "optional_price (role_limit row (Some (next_role n))) = Inr (ni_limit_price view)"
    "optional_quote (latest_counterparty_quote (next_role n) (hn_messages row)) = Inr (ni_latest_counterparty_quote view)"
proof -
  have act: "hn_status row = ACTIVE" using assms(1) by (auto simp: negotiate_view_def split: if_splits)
  then show st: "ng_status n = ACTIVE" and nr: "hn_next_role row = Some (next_role n)"
    using assms(2) by (auto simp: row_mirrors_def next_role_value_def split: if_splits)
  have mx: "ng_max_turns n = hn_max_turns row" using replay_max assms(2) by (simp add: row_mirrors_def)
  have c: "hn_turn_count row = int (length (ng_turns n))" using assms(2) by (simp add: row_mirrors_def)
  note v = assms(1) [unfolded negotiate_view_def act nr Let_def option.case, simplified, unfolded bindR_Inr_iff]
  show "ni_role view = next_role n" "ni_turn_sequence view = int (length (ng_turns n)) + 1"
    "ni_remaining_turns view = ng_max_turns n - int (length (ng_turns n))" "optional_price (role_limit row (Some (next_role n))) = Inr (ni_limit_price view)"
    "optional_quote (latest_counterparty_quote (next_role n) (hn_messages row)) = Inr (ni_latest_counterparty_quote view)"
    using v c mx by auto
qed

lemma active_turns:
  assumes "negotiation_reach n" "ng_status n = ACTIVE"
  shows "int (length (ng_turns n)) < ng_max_turns n"
    "ng_turns n \<noteq> [] \<Longrightarrow> na_action (nt_action (last (ng_turns n))) = Propose \<and> nt_role (last (ng_turns n)) \<noteq> next_role n"
proof -
  have inv: "negotiation_inv n" using assms(1) by (rule reach_inv)
  then show "int (length (ng_turns n)) < ng_max_turns n" using assms(2) by (simp add: negotiation_inv_def)
  assume ne: "ng_turns n \<noteq> []"
  then have "turn_ok (length (ng_turns n) - 1) (last (ng_turns n))" using inv by (simp add: negotiation_inv_def last_conv_nth)
  moreover have "proposal (last (ng_turns n))" using inv assms(2) ne by (simp add: negotiation_inv_def)
  ultimately show "na_action (nt_action (last (ng_turns n))) = Propose \<and> nt_role (last (ng_turns n)) \<noteq> next_role n"
    using ne by (auto simp: turn_ok_def proposal_def next_role_def even_iff_mod_2_eq_zero [symmetric])
qed

lemma violation_None: "violation c code r = Inr None \<longleftrightarrow> \<not> c \<and> r = Inr None"
  by (simp add: violation_def)

lemma check_message_ok: "check_message m = Inr () \<longleftrightarrow> PublicMessage m \<and> \<not> blank m"
  by (auto simp: check_message_def)

text \<open>A turn that was entered: the recorded action is the agent's own, and the negotiation accepts it.\<close>

definition enters :: "NegotiationRow \<Rightarrow> Negotiation \<Rightarrow> NegotiateActionV1 \<Rightarrow> NegotiationAction \<Rightarrow> bool" where
  "enters row n na v \<longleftrightarrow> agent_action_value na = Inr v \<and> hosted_action_value row n na = Inr v \<and> (\<exists>n'. negotiation_apply n (next_role n) v = Inr n')"

lemma propose_enters:
  assumes view: "negotiate_view row setting = Inr (Some view)" and m: "row_mirrors row n"
    and a: "action_validate (ProposeAction price message) = Inr ()" "negotiation_candidate_violation view (ProposeAction price message) = Inr None"
    and d: "dec_coeff price < 10 ^ 22"
  shows "\<exists>v. enters row n (NegPropose price message) v"
proof -
  note w = negotiate_view_mirror [OF view m]
  have val: "FixedDecimal price" "decimal_positive price" "PublicMessage message" "\<not> blank message"
    using a(1) by (auto simp: PositiveFixedDecimal_value_def check_message_ok split: if_splits)
  obtain c e where p: "price = Dec False c e" using FixedDecimal_form [OF val(1)] by blast
  have chk: "1 < ni_remaining_turns view" "has_arena_money_precision price = Inr True"
    "pred_option (\<lambda>l. \<not> beyond_limit (ni_role view) price l) (ni_limit_price view)"
    using a(2) by (auto simp: negotiation_candidate_violation_def violation_None bindR_Inr_iff split: option.splits)
  obtain x k where x: "gold (GStr (serialize_fixed_decimal price)) = Inr (int x)" "0 < x" "e = - int k" "x * 10 ^ k = c * 10 ^ 6"
    using precise_price_gold [OF val(1,2) chk(2) p] d p by auto
  let ?v = "\<lparr>na_action = Propose, na_price_atomic = Some (int x), na_message = Some message\<rparr>"
  have v: "agent_action_value (NegPropose price message) = Inr ?v"
    using x val(3,4) by (simp add: agent_action_value_def NegotiationAction_post_init_def PublicMessage_def MAX_PUBLIC_MESSAGE_LENGTH_def)
  moreover have "hosted_action_value row n (NegPropose price message) = Inr ?v"
    using v within_limit [OF w(6) _ x(4), of price "next_role n"] p x(3) chk(3) w(2,3) by (simp add: hosted_action_value_def)
  moreover have "\<exists>n'. negotiation_apply n (next_role n) ?v = Inr n'"
    using w(1,4,5) chk(1) by (simp add: negotiation_apply_def)
  ultimately show ?thesis unfolding enters_def by blast
qed

lemma accept_enters:
  assumes view: "negotiate_view row setting = Inr (Some view)" and m: "row_mirrors row n"
    and a: "negotiation_candidate_violation view AcceptAction = Inr None"
  shows "\<exists>v. enters row n NegAccept v"
proof -
  note w = negotiate_view_mirror [OF view m]
  have chk: "ni_turn_sequence view \<noteq> 1" "ni_latest_counterparty_quote view \<noteq> None"
    "\<And>q. ni_latest_counterparty_quote view = Some q \<Longrightarrow> pred_option (\<lambda>l. \<not> beyond_limit (ni_role view) (cq_price q) l) (ni_limit_price view)"
    using a by (auto simp: negotiation_candidate_violation_def violation_None split: option.splits)
  note reach = mirrors_reach [OF m]
  note t = active_turns [OF reach w(1)]
  have ne: "ng_turns n \<noteq> []" using chk(1) w(4) by auto
  let ?l = "last (ng_turns n)"
  have msgs: "map hm_turn (hn_messages row) = butlast (ng_turns n) @ [?l]" using m ne by (simp add: row_mirrors_def)
  have "latest_counterparty_quote (next_role n) (hn_messages row) = Some ?l"
    using t(2) [OF ne] by (simp add: latest_counterparty_quote_def msgs)
  then obtain q pa d where q: "ni_latest_counterparty_quote view = Some q" "na_price_atomic (nt_action ?l) = Some pa" "wire_price pa = Inr d" "cq_price q = d"
    using w(7) by (auto simp: optional_quote_def quote_view_def bindR_Inr_iff Let_def dest!: sym [of "Some _"] split: option.splits)
  note wp = wire_price_form [OF q(3)]
  let ?v = "\<lparr>na_action = Accept, na_price_atomic = None, na_message = None\<rparr>"
  have v: "agent_action_value NegAccept = Inr ?v" by (simp add: agent_action_value_def accept_ok)
  have "\<not> outside_limit (Some (next_role n)) (role_limit row (Some (next_role n))) (Some (int (nat pa)))"
    using within_limit [OF w(6) wp(2), of "nat pa" "next_role n"] chk(3) [OF q(1)] q(4) w(3) by simp
  then have "hosted_action_value row n NegAccept = Inr ?v" using v ne q(2) wp(1) w(2) by (simp add: hosted_action_value_def)
  moreover have "\<exists>n'. negotiation_apply n (next_role n) ?v = Inr n'"
    using w(1) t(1) t(2) [OF ne] ne by (simp add: negotiation_apply_def Let_def)
  ultimately show ?thesis using v unfolding enters_def by blast
qed

lemma reject_enters:
  assumes view: "negotiate_view row setting = Inr (Some view)" and m: "row_mirrors row n"
    and a: "action_validate (RejectAction message) = Inr ()" "negotiation_candidate_violation view (RejectAction message) = Inr None"
  shows "\<exists>v. enters row n (NegReject message) v"
proof -
  note w = negotiate_view_mirror [OF view m]
  note reach = mirrors_reach [OF m]
  have ne: "ng_turns n \<noteq> []" using a(2) w(4) by (auto simp: negotiation_candidate_violation_def violation_None)
  let ?v = "\<lparr>na_action = Reject, na_price_atomic = None, na_message = message\<rparr>"
  have v: "agent_action_value (NegReject message) = Inr ?v"
    using a(1) by (cases message) (auto simp: agent_action_value_def NegotiationAction_post_init_def check_optional_message_def check_message_ok
      PublicMessage_def MAX_PUBLIC_MESSAGE_LENGTH_def)
  moreover have "hosted_action_value row n (NegReject message) = Inr ?v" using v by (simp add: hosted_action_value_def outside_limit_def split: option.splits)
  moreover have "\<exists>n'. negotiation_apply n (next_role n) ?v = Inr n'"
    using w(1) active_turns(1) [OF reach w(1)] ne by (simp add: negotiation_apply_def Let_def)
  ultimately show ?thesis unfolding enters_def by blast
qed

lemma candidate_enters:
  assumes "negotiate_view row setting = Inr (Some view)" "row_mirrors row n" "action_validate a = Inr ()"
    "negotiation_candidate_violation view a = Inr None" "as_negotiate_action a = Some na" "\<And>p m. a = ProposeAction p m \<Longrightarrow> dec_coeff p < 10 ^ 22"
  shows "\<exists>v. enters row n na v"
  using assms propose_enters accept_enters reject_enters by (cases a) auto

text \<open>
  Property C26: a candidate that passes the check against its frozen view also enters the stored negotiation. When
  the coordinator built the view from an active row and the checked action has a price of at most 22 digits, entering
  under a result id that no negotiation has recorded yet succeeds: the row gets exactly one more message, by the role whose turn it was, with the agent's own action and
  not a substituted refusal, and the row still mirrors a negotiation.
\<close>

theorem hosted_candidate_entered:
  assumes "row_ok row" and "negotiate_view row setting = Inr (Some view)" and "action_validate a = Inr ()"
    and "negotiation_candidate_violation view a = Inr None" and "as_negotiate_action a = Some na"
    and "\<And>p m. a = ProposeAction p m \<Longrightarrow> dec_coeff p < 10 ^ 22" and "result_id \<notin> set recorded"
  shows "\<exists>row' v. apply_hosted_negotiation_action recorded result_id (Some na) now row = Inr row' \<and> row_ok row' \<and> agent_action_value na = Inr v
    \<and> hn_messages row' = hn_messages row @ [\<lparr>hm_source_result_id = result_id,
        hm_turn = \<lparr>nt_sequence = ni_turn_sequence view, nt_role = ni_role view, nt_action = v\<rparr>\<rparr>]
    \<and> hn_status row' = (case na of NegPropose _ _ \<Rightarrow> ACTIVE | NegAccept \<Rightarrow> ACCEPTED_PENDING_SETTLEMENT | NegReject _ \<Rightarrow> REJECTED)"
proof -
  obtain n where m: "row_mirrors row n" using assms(1) by (auto simp: row_ok_def)
  note w = negotiate_view_mirror [OF assms(2) m]
  obtain v n' where v: "agent_action_value na = Inr v" "hosted_action_value row n na = Inr v" "negotiation_apply n (next_role n) v = Inr n'"
  proof -
    have "\<exists>v. enters row n na v" by (rule candidate_enters [OF assms(2) m assms(3-5)]) (rule assms(6))
    then show thesis using that unfolding enters_def by blast
  qed
  let ?row = "store_negotiation n' now (row\<lparr>hn_messages := hn_messages row @ [\<lparr>hm_source_result_id = result_id, hm_turn = last (ng_turns n')\<rparr>]\<rparr>)"
  have ap: "apply_hosted_negotiation_action recorded result_id (Some na) now row = Inr ?row"
  proof -
    have "hn_status row = ACTIVE" using assms(2) by (auto simp: negotiate_view_def split: if_splits)
    moreover have "replay_negotiation row = Inr n" using m unfolding row_mirrors_def by blast
    ultimately show ?thesis using assms(7) w(2) v(2,3) by (simp add: apply_hosted_negotiation_action_def)
  qed
  have t: "last (ng_turns n') = \<lparr>nt_sequence = ni_turn_sequence view, nt_role = ni_role view, nt_action = v\<rparr>"
    using negotiation_apply_turns [OF v(3)] w(3,4) by simp
  have msgs: "hn_messages ?row = hn_messages row @ [\<lparr>hm_source_result_id = result_id, hm_turn = \<lparr>nt_sequence = ni_turn_sequence view, nt_role = ni_role view, nt_action = v\<rparr>\<rparr>]"
    by (simp add: store_negotiation_def Let_def t)
  have "na_action v = (case na of NegPropose _ _ \<Rightarrow> Propose | NegAccept \<Rightarrow> Accept | NegReject _ \<Rightarrow> Reject)"
    using v(1) post_init_same by (auto simp: agent_action_value_def bindR_Inr_iff split: NegotiateActionV1.splits dest!: post_init_same)
  then have "hn_status ?row = (case na of NegPropose _ _ \<Rightarrow> ACTIVE | NegAccept \<Rightarrow> ACCEPTED_PENDING_SETTLEMENT | NegReject _ \<Rightarrow> REJECTED)"
    using apply_cases [OF v(3)] w(1) by (cases na) (auto simp: store_negotiation_def Let_def)
  moreover have "row_ok ?row"
  proof -
    have "?row \<noteq> row" using msgs by (metis append_self_conv list.distinct(1))
    then show ?thesis using apply_hosted_mirrors [OF m ap] by (auto simp: row_ok_def)
  qed
  ultimately show ?thesis using ap v(1) msgs by blast
qed

section \<open>Histories of a stored negotiation\<close>

text \<open>One call on a row; \<open>others\<close> are the results recorded in other negotiations. A call that raises is rolled back.\<close>

definition hosted_step :: "string list \<Rightarrow> string \<times> NegotiateActionV1 option \<times> datetime \<Rightarrow> NegotiationRow \<Rightarrow> NegotiationRow" where
  "hosted_step others call row =
     (case call of (result_id, action, now) \<Rightarrow>
        case apply_hosted_negotiation_action (others @ map hm_source_result_id (hn_messages row)) result_id action now row of
          Inl _ \<Rightarrow> row | Inr row' \<Rightarrow> row')"

definition keeps_limit :: "NegotiationRow \<Rightarrow> NegotiationRole \<Rightarrow> int option \<Rightarrow> bool" where
  "keeps_limit row role price \<longleftrightarrow> \<not> outside_limit (Some role) (role_limit row (Some role)) price"

text \<open>Offers stay within the limit of who makes them, and the accepted price within both limits.\<close>

definition limits_kept :: "NegotiationRow \<Rightarrow> bool" where
  "limits_kept row \<longleftrightarrow>
     (\<forall>t \<in> hm_turn ` set (hn_messages row). na_action (nt_action t) = Propose \<longrightarrow> keeps_limit row (nt_role t) (na_price_atomic (nt_action t)))
     \<and> (\<forall>role. keeps_limit row role (hn_accepted_price_atomic row))"

definition row_inv :: "NegotiationRow \<Rightarrow> bool" where
  "row_inv row \<longleftrightarrow> row_ok row \<and> limits_kept row \<and> distinct (map hm_source_result_id (hn_messages row))"

lemma keeps_limit_cong:
  "hn_buyer_limit_price_atomic r = hn_buyer_limit_price_atomic r' \<Longrightarrow> hn_seller_limit_price_atomic r = hn_seller_limit_price_atomic r'
    \<Longrightarrow> keeps_limit r role p = keeps_limit r' role p"
  by (simp add: keeps_limit_def role_limit_def)

lemma keeps_limit_None [simp]: "keeps_limit row role None"
  by (simp add: keeps_limit_def outside_limit_def split: option.splits)

lemma hosted_value_limit:
  assumes "hosted_action_value row n a = Inr v" "hn_next_role row = Some role"
  shows "na_action v = Propose \<Longrightarrow> keeps_limit row role (na_price_atomic v)"
    "na_action v = Accept \<Longrightarrow> ng_turns n \<noteq> [] \<Longrightarrow> keeps_limit row role (na_price_atomic (nt_action (last (ng_turns n))))"
  using assms post_init_same
  by (auto simp: hosted_action_value_def agent_action_value_def keeps_limit_def bindR_Inr_iff Let_def split: if_splits NegotiateActionV1.splits dest!: post_init_same)

lemma store_limits [simp]:
  "hn_buyer_limit_price_atomic (store_negotiation n now row) = hn_buyer_limit_price_atomic row"
  "hn_seller_limit_price_atomic (store_negotiation n now row) = hn_seller_limit_price_atomic row"
  by (simp_all add: store_negotiation_def Let_def)

lemma hosted_limits_same:
  assumes "apply_hosted_negotiation_action recorded rid action now row = Inr row'"
  shows "hn_buyer_limit_price_atomic row' = hn_buyer_limit_price_atomic row" "hn_seller_limit_price_atomic row' = hn_seller_limit_price_atomic row"
  using assms by (auto simp: apply_hosted_negotiation_action_def bindR_Inr_iff split: if_splits option.splits)

text \<open>The price of an acceptance is within the limits of both parties: it was offered by one and accepted by the other.\<close>

lemma accepted_limit:
  assumes "row_mirrors row n" "limits_kept row" "hn_next_role row = Some (next_role n)" "ng_status n = ACTIVE"
    "hosted_action_value row n a = Inr v" "negotiation_apply n (next_role n) v = Inr n'"
  shows "keeps_limit row role (ng_accepted_price_atomic n')"
proof (cases "na_action v = Accept")
  case True
  note reach = mirrors_reach [OF assms(1)]
  have ne: "ng_turns n \<noteq> []" and price: "ng_accepted_price_atomic n' = na_price_atomic (nt_action (last (ng_turns n)))"
    using apply_cases [OF assms(6)] True by auto
  note t = active_turns(2) [OF reach assms(4) ne]
  have "map hm_turn (hn_messages row) = ng_turns n" using assms(1) unfolding row_mirrors_def by blast
  then have "last (ng_turns n) \<in> hm_turn ` set (hn_messages row)" using ne by (metis last_in_set set_map)
  then have "keeps_limit row (nt_role (last (ng_turns n))) (na_price_atomic (nt_action (last (ng_turns n))))"
    using assms(2) t unfolding limits_kept_def by blast
  moreover have "role = next_role n \<or> role = nt_role (last (ng_turns n))" using t by (metis NegotiationRole.exhaust)
  ultimately show ?thesis using hosted_value_limit(2) [OF assms(5,3) True ne] price by auto
next
  case False
  have "ng_accepted_price_atomic n = None" using reach_inv [OF mirrors_reach [OF assms(1)]] assms(4) by (simp add: negotiation_inv_def)
  then have "ng_accepted_price_atomic n' = None" using apply_cases [OF assms(6)] False by auto
  then show ?thesis by simp
qed

lemma hosted_apply_inv:
  assumes "row_inv row" "apply_hosted_negotiation_action recorded rid action now row = Inr row'"
    "set (map hm_source_result_id (hn_messages row)) \<subseteq> set recorded"
  shows "row_inv row'"
proof (cases "row' = row")
  case False
  obtain n where m: "row_mirrors row n" using assms(1) by (auto simp: row_inv_def row_ok_def)
  have kept: "limits_kept row" and dist: "distinct (map hm_source_result_id (hn_messages row))" using assms(1) by (simp_all add: row_inv_def)
  note fresh = hosted_changes(1) [OF m assms(2) False] and act = hosted_changes(3,4) [OF m assms(2) False]
  note rc = keeps_limit_cong [OF hosted_limits_same [OF assms(2)]]
  from apply_hosted_mirrors [OF m assms(2)] False consider
      (expired) "row' = store_negotiation (negotiation_expire n) now row" "row_mirrors row' n"
    | (turn) a v n' where "hosted_action_value row n a = Inr v" "negotiation_apply n (next_role n) v = Inr n'" "row_mirrors row' n'"
        "hm_source_result_id (last (hn_messages row')) = rid" "hn_messages row' \<noteq> []" "butlast (hn_messages row') = hn_messages row" by blast
  then show ?thesis
  proof cases
    case expired
    then have "hn_messages row' = hn_messages row" by (simp add: store_negotiation_def Let_def)
    moreover have "hn_accepted_price_atomic row' = hn_accepted_price_atomic row" using m expired(2) unfolding row_mirrors_def by simp
    ultimately show ?thesis using kept dist expired(2) unfolding row_inv_def limits_kept_def row_ok_def rc by auto
  next
    case turn
    obtain msg where msgs: "hn_messages row' = hn_messages row @ [msg]" "hm_source_result_id msg = rid"
      using turn(4-6) append_butlast_last_id by metis
    have "map hm_turn (hn_messages row') = ng_turns n @ [\<lparr>nt_sequence = int (length (ng_turns n)) + 1, nt_role = next_role n, nt_action = v\<rparr>]"
      using turn(3) negotiation_apply_turns [OF turn(2)] unfolding row_mirrors_def by simp
    then have l: "hm_turn msg = \<lparr>nt_sequence = int (length (ng_turns n)) + 1, nt_role = next_role n, nt_action = v\<rparr>" using msgs(1) by simp
    have acc: "hn_accepted_price_atomic row' = ng_accepted_price_atomic n'" using turn(3) unfolding row_mirrors_def by blast
    have "limits_kept row'"
      using kept accepted_limit [OF m kept act(2,1) turn(1,2)] hosted_value_limit(1) [OF turn(1) act(2)] l
      unfolding limits_kept_def rc msgs(1) acc by auto
    moreover have "distinct (map hm_source_result_id (hn_messages row'))" using dist assms(3) fresh msgs by auto
    ultimately show ?thesis using turn(3) by (auto simp: row_inv_def row_ok_def)
  qed
qed (use assms in simp)

interpretation hosted: invariant_machine "hosted_step others" "\<lambda>_ _. True" row_inv for others
proof
  fix row :: NegotiationRow and call :: "string \<times> NegotiateActionV1 option \<times> datetime" assume inv: "row_inv row"
  obtain rid action now where c: "call = (rid, action, now)" by (cases call)
  show "row_inv (hosted_step others call row)"
  proof (cases "apply_hosted_negotiation_action (others @ map hm_source_result_id (hn_messages row)) rid action now row")
    case (Inr row')
    then show ?thesis using hosted_apply_inv [OF inv Inr] c by (simp add: hosted_step_def)
  qed (use inv c in \<open>simp add: hosted_step_def\<close>)
qed

lemma accepted_positive: "negotiation_reach n \<Longrightarrow> ng_accepted_price_atomic n = Some p \<Longrightarrow> 0 < p"
proof -
  assume r: "negotiation_reach n" and p: "ng_accepted_price_atomic n = Some p"
  have inv: "negotiation_inv n" using r by (rule reach_inv)
  then have acc: "2 \<le> length (ng_turns n)" "na_price_atomic (nt_action (last (butlast (ng_turns n)))) = Some p"
    using p by (auto simp: negotiation_inv_def split: NegotiationStatus.splits)
  let ?t = "ng_turns n ! (length (ng_turns n) - 2)"
  have ne: "butlast (ng_turns n) \<noteq> []" using acc(1) by (cases "ng_turns n" rule: rev_cases) auto
  then have l: "last (butlast (ng_turns n)) = ?t" using acc(1) by (simp add: last_conv_nth nth_butlast numeral_2_eq_2)
  have "turn_ok (length (ng_turns n) - 2) ?t" using inv acc(1) by (simp add: negotiation_inv_def)
  moreover have "proposal ?t" using inv last_in_set [OF ne] l by (auto simp: negotiation_inv_def)
  ultimately show "0 < p" using acc(2) l by (auto simp: turn_ok_def proposal_def NegotiationAction_post_init_def split: if_splits)
qed

text \<open>The two ways a negotiation starts.\<close>

definition opened_row :: "NegotiationRow \<Rightarrow> bool" where
  "opened_row row \<longleftrightarrow>
     (\<exists>p g r b s m bl sl. row = fcfs_negotiation_row p g r b s m bl sl \<and> 2 \<le> m \<and> m \<le> 6 \<and> b \<noteq> s)
     \<or> (\<exists>i g r b s m bl sl rid price msg. row = engaged_negotiation_row i g r b s m bl sl rid price msg \<and> 2 \<le> m \<and> m \<le> 6 \<and> b \<noteq> s \<and> 0 < price
          \<and> pred_option (\<lambda>l. price \<le> l) bl \<and> \<not> blank msg \<and> length msg \<le> 100)"

lemma opened_row_inv: "opened_row row \<Longrightarrow> row_inv row"
proof -
  assume "opened_row row"
  then consider (fcfs) p g r b s m bl sl where "row = fcfs_negotiation_row p g r b s m bl sl" "2 \<le> m" "m \<le> 6" "b \<noteq> s"
    | (engaged) i g r b s m bl sl rid price msg where "row = engaged_negotiation_row i g r b s m bl sl rid price msg" "2 \<le> m" "m \<le> 6" "b \<noteq> s" "0 < price"
        "pred_option (\<lambda>l. price \<le> l) bl" "\<not> blank msg" "length msg \<le> 100" unfolding opened_row_def by blast
  then show ?thesis
  proof cases
    case fcfs
    then show ?thesis
      by (auto simp: row_inv_def row_ok_def row_mirrors_def limits_kept_def fcfs_negotiation_row_def replay_negotiation_def Negotiation_new_def
          Negotiation_post_init_def next_role_value_def next_role_def)
  next
    case engaged
    then show ?thesis
      by (auto simp: row_inv_def row_ok_def row_mirrors_def limits_kept_def engaged_negotiation_row_def replay_negotiation_def replay_message_def
          Negotiation_new_def Negotiation_post_init_def NegotiationAction_post_init_def negotiation_apply_def next_role_value_def next_role_def
          keeps_limit_def outside_limit_def role_limit_def split: option.splits)
  qed
qed

text \<open>
  Property C4: what a stored negotiation keeps through all agent results, deadlines, repeated deliveries and failed
  calls: its messages are the transcript of a negotiation of the domain with at most \<open>max_turns\<close> turns, no result
  authored two of them, every offer is within the private limit of the party that made it, and an accepted price is
  within the limits of both parties.
\<close>

theorem hosted_limits_kept:
  assumes "opened_row row0" and "row = fold (hosted_step others) calls row0"
  shows "(\<exists>n. negotiation_reach n \<and> map hm_turn (hn_messages row) = ng_turns n) \<and> int (length (hn_messages row)) \<le> hn_max_turns row
    \<and> hn_turn_count row = int (length (hn_messages row)) \<and> distinct (map hm_source_result_id (hn_messages row))
    \<and> (\<forall>m \<in> set (hn_messages row). na_action (nt_action (hm_turn m)) = Propose \<longrightarrow>
         \<not> outside_limit (Some (nt_role (hm_turn m))) (role_limit row (Some (nt_role (hm_turn m)))) (na_price_atomic (nt_action (hm_turn m))))
    \<and> (\<forall>p. hn_accepted_price_atomic row = Some p \<longrightarrow> 0 < p \<and> pred_option (\<lambda>l. p \<le> l) (hn_buyer_limit_price_atomic row)
         \<and> pred_option (\<lambda>l. l \<le> p) (hn_seller_limit_price_atomic row))"
proof -
  have inv: "row_inv row" using hosted.run_always [OF opened_row_inv [OF assms(1)]] assms(2) by simp
  then obtain n where m: "row_mirrors row n" and kept: "limits_kept row" and dist: "distinct (map hm_source_result_id (hn_messages row))"
    by (auto simp: row_inv_def row_ok_def)
  note reach = mirrors_reach [OF m]
  have t: "map hm_turn (hn_messages row) = ng_turns n" "hn_turn_count row = int (length (ng_turns n))" "hn_accepted_price_atomic row = ng_accepted_price_atomic n"
    using m unfolding row_mirrors_def by blast+
  have len: "length (hn_messages row) = length (ng_turns n)" using t(1) by (metis length_map)
  have mx: "ng_max_turns n = hn_max_turns row" using replay_max m unfolding row_mirrors_def by blast
  have bound: "int (length (ng_turns n)) \<le> ng_max_turns n" using reach_inv [OF reach] by (simp add: negotiation_inv_def)
  have "0 < p" if "hn_accepted_price_atomic row = Some p" for p
    using accepted_positive [OF reach] that t(3) by simp
  moreover have "pred_option (\<lambda>l. p \<le> l) (hn_buyer_limit_price_atomic row) \<and> pred_option (\<lambda>l. l \<le> p) (hn_seller_limit_price_atomic row)"
    if "hn_accepted_price_atomic row = Some p" for p
  proof -
    have "keeps_limit row Buyer (Some p)" "keeps_limit row Seller (Some p)" using kept that unfolding limits_kept_def by metis+
    then show ?thesis by (cases "hn_buyer_limit_price_atomic row"; cases "hn_seller_limit_price_atomic row")
      (auto simp: keeps_limit_def outside_limit_def role_limit_def)
  qed
  ultimately show ?thesis using reach t len mx bound dist kept unfolding limits_kept_def keeps_limit_def by auto
qed

section \<open>The view of the agent whose turn it is\<close>

lemma wire_price_total:
  assumes "0 \<le> l" "l \<le> MAX_GOLD_ATOMIC"
  shows "wire_price l = Inr (Dec False (nat l) (- int 6))"
proof -
  let ?i = "show_nat (nat (l div 1000000))" and ?f = "pad6 (nat (l mod 1000000))"
  have f: "list_all is_digit ?f" "length ?f = 6" by (rule pad6_spec; simp)+
  have c: "?i = ''0'' \<or> (?i \<noteq> [] \<and> hd ?i \<noteq> CHR ''0'' \<and> list_all is_digit ?i)" by (rule show_nat_canonical)
  have "l div 1000000 < 10 ^ 32" using assms by (simp add: MAX_GOLD_ATOMIC_def)
  then have "nat (l div 1000000) < 10 ^ 32" by simp
  then have "ndigits (nat (l div 1000000)) \<le> 32" by (rule ndigits_le) simp
  then have "length ?i + length ?f \<le> 38" using f(2) by (simp add: ndigits_def)
  then obtain d where "wire_price l = Inr d"
    using parse_fraction [OF c _ f(1)] f(2) assms(1) by (fastforce simp: wire_price_def gold_decimal_def show_int_def pos_imp_zdiv_neg_iff)
  then show ?thesis using wire_price_form(2) by simp
qed

lemma wire_price_fixed: "wire_price l = Inr d \<Longrightarrow> FixedDecimal d"
  unfolding wire_price_def bindR_Inr_iff FixedDecimal_def using serialize_parse by fastforce

text \<open>Amounts that a row of the database can have.\<close>

definition stored_amount :: "int \<Rightarrow> bool" where
  "stored_amount p \<longleftrightarrow> 0 < p \<and> p \<le> MAX_GOLD_ATOMIC"

lemma stored_price:
  assumes "stored_amount p"
  shows "wire_price p = Inr (Dec False (nat p) (- 6))" "PositiveFixedDecimal_value (Dec False (nat p) (- 6))"
proof -
  show w: "wire_price p = Inr (Dec False (nat p) (- 6))" using wire_price_total [of p] assms by (simp add: stored_amount_def)
  show "PositiveFixedDecimal_value (Dec False (nat p) (- 6))"
    using wire_price_fixed [OF w] assms by (simp add: PositiveFixedDecimal_value_def stored_amount_def)
qed

definition setting_ok :: "NegotiationSetting \<Rightarrow> bool" where
  "setting_ok setting \<longleftrightarrow> 1 \<le> hs_round_index setting \<and> hs_round_index setting \<le> hs_round_count setting \<and> GoodId (hs_good setting)
     \<and> 0 < hs_quantity setting \<and> 0 \<le> hs_cash_atomic setting \<and> hs_cash_atomic setting \<le> MAX_GOLD_ATOMIC \<and> 0 \<le> hs_inventory_available setting
     \<and> Identifier (hs_counterparty_agent_id setting) \<and> hs_counterparty_name setting \<noteq> [] \<and> length (hs_counterparty_name setting) \<le> 128
     \<and> 0 \<le> hs_counterparty_failed_negotiations setting \<and> each ArenaPublicEventV1_check (hs_events setting) = Inr () \<and> is_aware (hs_deadline_at setting)"

definition row_storable :: "NegotiationRow \<Rightarrow> bool" where
  "row_storable row \<longleftrightarrow> Identifier (hn_game_id row) \<and> Identifier (hn_round_id row) \<and> Identifier (hn_negotiation_id row)
     \<and> pred_option stored_amount (hn_buyer_limit_price_atomic row) \<and> pred_option stored_amount (hn_seller_limit_price_atomic row)
     \<and> (\<forall>m \<in> set (hn_messages row). pred_option stored_amount (na_price_atomic (nt_action (hm_turn m))))"

lemma history_entry:
  assumes "turn_ok i t" "proposal t" "pred_option stored_amount (na_price_atomic (nt_action t))"
  shows "\<exists>h. history_message t = Inr h \<and> ArenaNegotiationMessageV1_check h = Inr ()" "\<exists>q. quote_view t = Inr q \<and> ArenaCounterpartyQuoteV1_check q = Inr ()
     \<and> cq_from_role q = nt_role t \<and> cq_turn_sequence q = nt_sequence t"
proof -
  have pr: "na_action (nt_action t) = Propose" "nt_sequence t = int i + 1" using assms(1,2) by (simp_all add: proposal_def turn_ok_def)
  obtain p m where p: "na_price_atomic (nt_action t) = Some p" "na_message (nt_action t) = Some m" "\<not> blank m" "length m \<le> 100"
    using assms(1) pr by (cases "na_price_atomic (nt_action t)"; cases "na_message (nt_action t)") (auto simp: turn_ok_def NegotiationAction_post_init_def split: if_splits)
  then have ne: "m \<noteq> []" by (auto simp: blank_def)
  have s: "wire_price p = Inr (Dec False (nat p) (- 6))" "PositiveFixedDecimal_value (Dec False (nat p) (- 6))"
    using stored_price assms(3) p(1) by simp_all
  show "\<exists>h. history_message t = Inr h \<and> ArenaNegotiationMessageV1_check h = Inr ()"
    using s p ne pr by (simp add: history_message_def optional_price_def ArenaNegotiationMessageV1_check_def check_iff enforce_action_shape_def
        PublicMessage_def MAX_PUBLIC_MESSAGE_LENGTH_def bindR_Inr_iff)
  show "\<exists>q. quote_view t = Inr q \<and> ArenaCounterpartyQuoteV1_check q = Inr () \<and> cq_from_role q = nt_role t \<and> cq_turn_sequence q = nt_sequence t"
    using s p pr by (simp add: quote_view_def ArenaCounterpartyQuoteV1_check_def check_iff bindR_Inr_iff)
qed

lemma mapR_total:
  assumes "\<And>x. x \<in> set xs \<Longrightarrow> \<exists>y. f x = Inr y \<and> P y"
  shows "\<exists>ys. mapR f xs = Inr ys \<and> list_all P ys"
  using assms
proof (induction xs)
  case (Cons x xs)
  obtain y ys where "f x = Inr y" "P y" "mapR f xs = Inr ys" "list_all P ys" using Cons.IH Cons.prems by (metis list.set_intros)
  then show ?case by simp
qed simp


lemma stored_limit:
  assumes "pred_option stored_amount l"
  shows "\<exists>d. optional_price l = Inr d \<and> pred_option PositiveFixedDecimal_value d"
  using assms stored_price by (cases l) (auto simp: optional_price_def)

lemma latest_quote_total:
  assumes "\<And>m. m \<in> set ms \<Longrightarrow> \<exists>q. quote_view (hm_turn m) = Inr q \<and> P q \<and> cq_from_role q = nt_role (hm_turn m)"
  shows "\<exists>q. optional_quote (latest_counterparty_quote role ms) = Inr q \<and> pred_option (\<lambda>q. P q \<and> cq_from_role q \<noteq> role) q"
proof (cases "latest_counterparty_quote role ms")
  case (Some t)
  then obtain m where "m \<in> set ms" "t = hm_turn m" "nt_role t \<noteq> role"
    unfolding latest_counterparty_quote_def find_Some_iff by (metis (no_types, lifting) in_set_conv_nth set_rev imageE set_map length_rev nth_mem)
  then show ?thesis using assms Some by (fastforce simp: optional_quote_def)
qed (simp add: optional_quote_def)

lemma active_entry:
  assumes "row_mirrors row n" "ng_status n = ACTIVE" "x \<in> set (hn_messages row)"
  shows "\<exists>i < length (ng_turns n). turn_ok i (hm_turn x) \<and> proposal (hm_turn x)"
proof -
  have inv: "negotiation_inv n" using mirrors_reach [OF assms(1)] by (rule reach_inv)
  have s: "hm_turn x \<in> set (ng_turns n)" using assms(1,3) unfolding row_mirrors_def by (metis image_eqI set_map)
  then obtain i where "i < length (ng_turns n)" "ng_turns n ! i = hm_turn x" by (auto simp: in_set_conv_nth)
  then show ?thesis using inv s assms(2) by (intro exI [of _ i]) (auto simp: negotiation_inv_def)
qed

lemma negotiate_view_defined:
  assumes "row_ok row" and "hn_status row = ACTIVE" and "row_storable row" and "setting_ok setting"
  shows "\<exists>view. negotiate_view row setting = Inr (Some view) \<and> ArenaNegotiateInputV1_check view = Inr () \<and> hn_next_role row = Some (ni_role view)
    \<and> length (ni_history view) = length (hn_messages row) \<and> ni_remaining_turns view > 0
    \<and> pred_option (\<lambda>q. cq_from_role q \<noteq> ni_role view) (ni_latest_counterparty_quote view)"
proof -
  obtain n where m: "row_mirrors row n" using assms(1) by (auto simp: row_ok_def)
  have act: "ng_status n = ACTIVE" "hn_next_role row = Some (next_role n)"
    using m assms(2) by (auto simp: row_mirrors_def next_role_value_def split: if_splits)
  note turns = active_turns [OF mirrors_reach [OF m] act(1)]
  have mx: "ng_max_turns n = hn_max_turns row" using replay_max m by (simp add: row_mirrors_def)
  have t: "map hm_turn (hn_messages row) = ng_turns n" "hn_turn_count row = int (length (ng_turns n))" using m by (simp_all add: row_mirrors_def)
  note entry = active_entry [OF m act(1)]
  have amount: "pred_option stored_amount (na_price_atomic (nt_action (hm_turn x)))" if "x \<in> set (hn_messages row)" for x
    using that assms(3) by (simp add: row_storable_def)
  have "\<exists>ys. mapR history_message (map hm_turn (hn_messages row)) = Inr ys \<and> list_all (\<lambda>h. ArenaNegotiationMessageV1_check h = Inr ()) ys"
    by (rule mapR_total) (use entry amount history_entry(1) in force)
  then obtain history where history: "mapR history_message (map hm_turn (hn_messages row)) = Inr history" "list_all (\<lambda>h. ArenaNegotiationMessageV1_check h = Inr ()) history"
    by blast
  have hl: "length history = length (hn_messages row)" using history(1) by (auto simp: mapR_Inr_iff dest: list_all2_lengthD)
  have "\<exists>q. optional_quote (latest_counterparty_quote (next_role n) (hn_messages row)) = Inr q
      \<and> pred_option (\<lambda>q. (ArenaCounterpartyQuoteV1_check q = Inr () \<and> cq_turn_sequence q < int (length (ng_turns n)) + 1) \<and> cq_from_role q \<noteq> next_role n) q"
  proof (rule latest_quote_total)
    fix x assume x: "x \<in> set (hn_messages row)"
    obtain i where i: "i < length (ng_turns n)" "turn_ok i (hm_turn x)" "proposal (hm_turn x)" using entry [OF x] by blast
    obtain q where "quote_view (hm_turn x) = Inr q" "ArenaCounterpartyQuoteV1_check q = Inr ()" "cq_from_role q = nt_role (hm_turn x)"
      "cq_turn_sequence q = nt_sequence (hm_turn x)" using history_entry(2) [OF i(2,3) amount [OF x]] by blast
    then show "\<exists>q. quote_view (hm_turn x) = Inr q \<and> (ArenaCounterpartyQuoteV1_check q = Inr () \<and> cq_turn_sequence q < int (length (ng_turns n)) + 1)
      \<and> cq_from_role q = nt_role (hm_turn x)" using i(1,2) by (simp add: turn_ok_def)
  qed
  then obtain q where q: "optional_quote (latest_counterparty_quote (next_role n) (hn_messages row)) = Inr q"
    "pred_option (\<lambda>q. (ArenaCounterpartyQuoteV1_check q = Inr () \<and> cq_turn_sequence q < int (length (ng_turns n)) + 1) \<and> cq_from_role q \<noteq> next_role n) q" by blast
  have "pred_option stored_amount (role_limit row (Some (next_role n)))" using assms(3) by (simp add: row_storable_def role_limit_def)
  then obtain l where l: "optional_price (role_limit row (Some (next_role n))) = Inr l" "pred_option PositiveFixedDecimal_value l"
    using stored_limit by blast
  have "wire_price (hs_cash_atomic setting) = Inr (Dec False (nat (hs_cash_atomic setting)) (- int 6))"
    using wire_price_total assms(4) by (simp add: setting_ok_def)
  then obtain cash where cash: "wire_price (hs_cash_atomic setting) = Inr cash" "FixedDecimal cash" using wire_price_fixed by blast
  show ?thesis using history hl q l cash turns(1) mx assms(3,4)
    by (cases q) (simp_all add: negotiate_view_def assms(2) act(2) t(2) Let_def ArenaNegotiateInputV1_check_def check_round_fields_def check_rounds_def
      validate_turn_context_def ArenaPublicCounterpartyV1_check_def NonNegativeFixedDecimal_value_def check_iff each_iff setting_ok_def row_storable_def bindR_Inr_iff)
qed

text \<open>
  The agent whose turn it is can always be asked. For every active stored negotiation whose amounts are
  within the Arena bound and every well-formed setting, the coordinator builds a view that its own contract accepts:
  the role is the one whose turn it is, the history has one entry per stored message, and a quoted price is the
  counterparty's.
\<close>

theorem negotiate_view_total:
  assumes "row_ok row" and "hn_status row = ACTIVE" and "row_storable row" and "setting_ok setting"
  shows "\<exists>view. negotiate_view row setting = Inr (Some view) \<and> ArenaNegotiateInputV1_check view = Inr () \<and> hn_next_role row = Some (ni_role view)
    \<and> length (ni_history view) = length (hn_messages row) \<and> ni_remaining_turns view > 0
    \<and> pred_option (\<lambda>q. cq_from_role q \<noteq> ni_role view) (ni_latest_counterparty_quote view)"
  using assms by (rule negotiate_view_defined)

text \<open>
  The bound on the digits of a price in \<open>hosted_candidate_entered\<close> is needed. A seller without an upper limit can propose
  ten to the 32: the wire contract admits it, the check of the candidate passes it, and reading it as gold raises, so
  the turn cannot be entered and the run of the game fails.
\<close>

lemma ndigits_between:
  assumes "10 ^ k \<le> n" "n < 10 ^ Suc k"
  shows "ndigits n = Suc k"
proof (rule antisym)
  show "ndigits n \<le> Suc k" using assms(2) by (rule ndigits_le) simp
  have "(10 :: nat) ^ k < 10 ^ ndigits n" using assms(1) ndigits_bounds(1) by (rule order_le_less_trans)
  then show "Suc k \<le> ndigits n" using power_less_imp_less_exp [of "10 :: nat" k "ndigits n"] by simp
qed

lemma oversized_price:
  assumes "ni_role view = Seller" "ni_turn_sequence view \<noteq> 1" "ni_remaining_turns view > 1" "ni_limit_price view = None \<or> ni_limit_price view = Some (Dec False 8 0)"
  shows "negotiation_candidate_violation view (ProposeAction (Dec False (10 ^ 32) 0) m) = Inr None"
    "agent_action_value (NegPropose (Dec False (10 ^ 32) 0) m) = Inl (MoneyError ''gold value exceeds the Arena bound'')"
proof -
  have r: "dec_mult_nat (Dec False (10 ^ 32) 0) 1000000 = Inr (Dec False (10 ^ 27) 11)"
    using ndigits_between [of 38 "10 ^ 38"] ndigits_between [of 27 "10 ^ 27"] 
    by (simp add: dec_fix_def Let_def dec_prec_def dec_Etop_def dec_Etiny_def dec_Emax_def div_half_even_def)
  then have "has_arena_money_precision (Dec False (10 ^ 32) 0) = Inr True" by (simp add: has_arena_money_precision_def dec_is_integral_def)
  then show "negotiation_candidate_violation view (ProposeAction (Dec False (10 ^ 32) 0) m) = Inr None"
    using assms by (auto simp: negotiation_candidate_violation_def violation_def beyond_limit_def dec_at_def)
  have "serialize_fixed_decimal (Dec False (10 ^ 32) 0) = show_nat (10 ^ 32)" by simp
  moreover have "decimal_of_string (show_nat (10 ^ 32)) = Some (Dec False (10 ^ 32) 0)"
    using decimal_of_fixed(2) [of "show_nat (10 ^ 32)" "[]"] canonical_digits [OF show_nat_canonical [of "10 ^ 32"]] digits_storable [of "show_nat (10 ^ 32)" 0]
      ndigits_between [of 32 "10 ^ 32"] by (simp add: ndigits_def)
  ultimately show "agent_action_value (NegPropose (Dec False (10 ^ 32) 0) m) = Inl (MoneyError ''gold value exceeds the Arena bound'')"
    using r by (simp add: agent_action_value_def gold_def GOLD_SCALE_def Let_def dec_is_integral_def dec_int_def MAX_GOLD_ATOMIC_def)
qed


text \<open>
  Above that bound the precision check is no check: the product is rounded to 28 digits first, so a price with seven
  decimal places passes.
\<close>

lemma imprecise_price: "has_arena_money_precision (Dec False (10 ^ 29 + 1) (- 7)) = Inr True"
  using ndigits_between [of 35 "(10 ^ 29 + 1) * 1000000"] ndigits_between [of 27 "10 ^ 27"]
  by (simp add: has_arena_money_precision_def dec_fix_def Let_def dec_prec_def dec_Etop_def dec_Etiny_def dec_Emax_def div_half_even_def dec_is_integral_def)

section \<open>An example\<close>

text \<open>Prices of a few millionths: the buyer opens with 9, the seller asks for 11, the buyer accepts.\<close>

definition demo_row :: NegotiationRow where
  "demo_row = engaged_negotiation_row ''n1'' ''g1'' ''r1'' ''b'' ''s'' 4 (Some 12) (Some 8) ''res-1'' 9 (ascii ''Nine?'')"

definition demo_setting :: NegotiationSetting where
  "demo_setting = \<lparr>hs_round_index = 1, hs_round_count = 3, hs_good = ''jade'', hs_quantity = 1, hs_cash_atomic = 50,
     hs_inventory_available = 2, hs_counterparty_agent_id = ''b'', hs_counterparty_name = ascii ''Buyer'', hs_counterparty_failed_negotiations = 0,
     hs_events = [], hs_deadline_at = Aware 1000000\<rparr>"

definition demo_price :: decimal where "demo_price = Dec False 11 (- 6)"

definition demo_turns :: "(string \<times> NegotiateActionV1 option \<times> datetime) list" where
  "demo_turns = [(''res-2'', Some (NegPropose demo_price (ascii ''Eleven'')), Aware 1), (''res-3'', Some NegAccept, Aware 2)]"

lemma demo_opened: "opened_row demo_row"
proof -
  have m: "\<not> blank (ascii ''Nine?'')" "length (ascii ''Nine?'') \<le> 100" by code_simp+
  show ?thesis unfolding opened_row_def demo_row_def by (intro disjI2 exI, rule conjI [OF refl]) (simp add: m)
qed

lemma demo_gold: "gold (GStr (serialize_fixed_decimal demo_price)) = Inr 11"
proof -
  have "serialize_fixed_decimal demo_price = ''0.000011''" "decimal_of_string ''0.000011'' = Some demo_price" by code_simp+
  then show ?thesis using gold_exact [of 11 "- 6"] by (simp add: gold_def demo_price_def dec_Etiny_def MAX_GOLD_ATOMIC_def)
qed

lemma demo_value: "agent_action_value (NegPropose demo_price (ascii ''Eleven'')) = Inr \<lparr>na_action = Propose, na_price_atomic = Some 11, na_message = Some (ascii ''Eleven'')\<rparr>"
proof -
  have "\<not> blank (ascii ''Eleven'')" "length (ascii ''Eleven'') \<le> 100" by code_simp+
  then show ?thesis by (simp add: agent_action_value_def demo_gold NegotiationAction_post_init_def)
qed

lemma demo_accepted: "hn_accepted_price_atomic (fold (hosted_step []) demo_turns demo_row) = Some 11"
proof -
  have m: "\<not> blank (ascii ''Nine?'')" "\<not> 100 < length (ascii ''Nine?'')" "\<not> blank (ascii ''Eleven'')" "\<not> 100 < length (ascii ''Eleven'')" by code_simp+
  have a: "agent_action_value NegAccept = Inr \<lparr>na_action = Accept, na_price_atomic = None, na_message = None\<rparr>"
    by (simp add: agent_action_value_def NegotiationAction_post_init_def)
  note d = hosted_step_def apply_hosted_negotiation_action_def replay_negotiation_def replay_message_def Negotiation_new_def Negotiation_post_init_def
    NegotiationAction_post_init_def negotiation_apply_def next_role_value_def next_role_def outside_limit_def role_limit_def hosted_action_value_def
    store_negotiation_def
  show ?thesis
    by (simp add: d demo_turns_def demo_row_def engaged_negotiation_row_def demo_value a m Let_def) 
qed

theorem hosted_limits_kept_witness:
  "opened_row demo_row \<and> hn_accepted_price_atomic (fold (hosted_step []) demo_turns demo_row) = Some 11
    \<and> pred_option (\<lambda>l. 11 \<le> l) (hn_buyer_limit_price_atomic (fold (hosted_step []) demo_turns demo_row))"
  using hosted_limits_kept [OF demo_opened refl, of "[]" demo_turns] demo_opened demo_accepted by simp

lemma demo_storable: "row_storable demo_row" "setting_ok demo_setting"
  by (simp add: row_storable_def stored_amount_def demo_row_def engaged_negotiation_row_def MAX_GOLD_ATOMIC_def, code_simp)
    (simp add: setting_ok_def demo_setting_def MAX_GOLD_ATOMIC_def, code_simp)

lemma demo_row_ok: "row_ok demo_row" "hn_status demo_row = ACTIVE"
  using opened_row_inv [OF demo_opened] by (simp_all add: row_inv_def demo_row_def engaged_negotiation_row_def)

theorem negotiate_view_total_witness:
  "\<exists>view. negotiate_view demo_row demo_setting = Inr (Some view) \<and> ni_role view = Seller \<and> length (ni_history view) = 1"
  using negotiate_view_total [OF demo_row_ok demo_storable] by (auto simp: demo_row_def engaged_negotiation_row_def)

lemma demo_propose_valid: "action_validate (ProposeAction demo_price (ascii ''Eleven'')) = Inr ()"
proof -
  have "PositiveFixedDecimal_value demo_price" using stored_price(2) [of 11] by (simp add: demo_price_def stored_amount_def MAX_GOLD_ATOMIC_def)
  moreover have "check_message (ascii ''Eleven'') = Inr ()" by code_simp
  ultimately show ?thesis by simp
qed

lemma demo_check:
  assumes "negotiate_view demo_row demo_setting = Inr (Some view)"
  shows "negotiation_candidate_violation view (ProposeAction demo_price (ascii ''Eleven'')) = Inr None"
proof -
  have "ndigits 11000000 \<le> 28" by (rule ndigits_le) simp_all
  have v: "ni_turn_sequence view = 2" "ni_remaining_turns view = 3" "ni_role view = Seller" "optional_price (Some 8) = Inr (ni_limit_price view)"
    using assms by (auto simp: negotiate_view_def demo_row_def engaged_negotiation_row_def demo_setting_def Let_def role_limit_def bindR_Inr_iff)
  have "optional_price (Some 8) = Inr (Some (Dec False 8 (- 6)))" using wire_price_total [of 8] by (simp add: optional_price_def MAX_GOLD_ATOMIC_def)
  then have "ni_limit_price view = Some (Dec False 8 (- 6))" using v(4) by simp
  moreover have "has_arena_money_precision demo_price = Inr True" using \<open>ndigits 11000000 \<le> 28\<close>
    by (simp add: has_arena_money_precision_def demo_price_def dec_fix_def Let_def dec_prec_def dec_Etop_def dec_Etiny_def dec_Emax_def dec_is_integral_def div_half_even_def)
  ultimately show ?thesis using v(1-3) by (simp add: negotiation_candidate_violation_def violation_def beyond_limit_def demo_price_def dec_at_def)
qed

theorem hosted_candidate_entered_witness:
  "\<exists>row'. apply_hosted_negotiation_action [''res-1''] ''res-2'' (Some (NegPropose demo_price (ascii ''Eleven''))) (Aware 1) demo_row = Inr row'
    \<and> length (hn_messages row') = 2 \<and> hn_status row' = ACTIVE"
proof -
  obtain view where v: "negotiate_view demo_row demo_setting = Inr (Some view)"
    using negotiate_view_defined [OF demo_row_ok demo_storable] by blast
  show ?thesis
    using hosted_candidate_entered [OF demo_row_ok(1) v demo_propose_valid demo_check [OF v], of "NegPropose demo_price (ascii ''Eleven'')" "''res-2''" "[''res-1'']" "Aware 1"]
    by (auto simp: demo_price_def demo_row_def engaged_negotiation_row_def)
qed

end
