(* ===== verification/Arena_Gateway.thy ===== *)
theory Arena_Gateway
  imports Arena_Ingress Arena_X402
begin

text \<open>
  \<open>connector_gateway/service.py\<close>: the control plane through which the connectors on the users' computers serve Arena. It
  pairs devices, keeps their runtimes and bindings, queues and delivers typed commands and records what the
  connectors report. Every method that runs under the lock of the gateway is one function from the gateway to
  its answer and the gateway it leaves. Texts are lists of code points and times are microseconds, so the ISO texts that
  the code stores and parses back are their instants; one call reads the clock once. Random identifiers and secrets are
  arguments, and so are the notation of Python for containers, its Unicode tables and the validation of task and
  result messages by pydantic. The detail of an error is the fixed part of its text.
\<close>

section \<open>Data\<close>

datatype PairingStatus = PairingPending | PairingApproved | PairingConsumed | PairingExpired

datatype DeviceStatus = DeviceOnline | DeviceOffline | DeviceRevoked

datatype BindingStatus = BindingAvailable | BindingStarting | BindingRunning | BindingDegraded | BindingStopped

datatype CommandAction = RuntimeProbe | SessionStart | TaskDispatch | TaskCancel | SessionStop | SessionResume

datatype CommandStatus =
  CommandQueued | CommandDelivered | CommandAccepted | CommandRunning | CommandSucceeded | CommandFailed | CommandRejected | CommandExpired

fun action_value :: "CommandAction \<Rightarrow> string" where
  "action_value RuntimeProbe = ''runtime.probe''"
| "action_value SessionStart = ''session.start''"
| "action_value TaskDispatch = ''task.dispatch''"
| "action_value TaskCancel = ''task.cancel''"
| "action_value SessionStop = ''session.stop''"
| "action_value SessionResume = ''session.resume''"

fun status_value :: "CommandStatus \<Rightarrow> string" where
  "status_value CommandQueued = ''queued''"
| "status_value CommandDelivered = ''delivered''"
| "status_value CommandAccepted = ''accepted''"
| "status_value CommandRunning = ''running''"
| "status_value CommandSucceeded = ''succeeded''"
| "status_value CommandFailed = ''failed''"
| "status_value CommandRejected = ''rejected''"
| "status_value CommandExpired = ''expired''"

definition COMMAND_STATUSES :: "CommandStatus list" where
  "COMMAND_STATUSES = [CommandQueued, CommandDelivered, CommandAccepted, CommandRunning, CommandSucceeded, CommandFailed, CommandRejected, CommandExpired]"

definition parse_status :: "utext \<Rightarrow> CommandStatus option" where
  "parse_status t = find (\<lambda>s. ascii (status_value s) = t) COMMAND_STATUSES"

text \<open>The records that leave the gateway drop the fields of the extensions.\<close>

record public_pairing =
  gp_pairing_id :: utext
  gp_owner_id :: "utext option"
  gp_requested_owner_id :: "utext option"
  gp_device_name :: utext
  gp_user_code :: utext
  gp_status :: PairingStatus
  gp_created_at :: int
  gp_expires_at :: int
  gp_approved_at :: "int option"
  gp_consumed_at :: "int option"
  gp_device_id :: "utext option"

record pairing = public_pairing +
  gp_device_code_hash :: string

record RuntimeInventoryItem =
  ri_runtime_id :: utext
  ri_kind :: utext
  ri_display_name :: utext
  ri_executable_path :: utext
  ri_version :: "utext option"
  ri_available :: bool
  ri_capabilities :: "utext list"
  ri_auth_modes :: "utext list"
  ri_task_enabled :: bool
  ri_authentication_status :: utext
  ri_arena_compatible :: bool
  ri_arena_isolation :: utext
  ri_local_execution_ready :: bool
  ri_readiness_issues :: "utext list"
  ri_detected_at :: "utext option"

record public_device =
  gd_device_id :: utext
  gd_owner_id :: "utext option"
  gd_name :: utext
  gd_status :: DeviceStatus
  gd_connector_version :: "utext option"
  gd_connector_started_at :: "utext option"
  gd_platform :: "utext option"
  gd_hostname :: "utext option"
  gd_protocol_version :: "utext option"
  gd_created_at :: int
  gd_connected_at :: "int option"
  gd_last_seen_at :: "int option"
  gd_runtimes :: "RuntimeInventoryItem list"
  gd_binding_epoch :: int
  gd_outbound_sequence :: int
  gd_last_inbound_sequence :: "int option"
  gd_event_ack_watermark :: int
  gd_event_pending_sequences :: "int list"
  gd_active_sessions :: "int option"
  gd_revoked_at :: "int option"

record device = public_device +
  gd_token_hash :: string
  gd_connection_generation :: int

record binding =
  gb_binding_id :: utext
  gb_device_id :: utext
  gb_runtime_id :: utext
  gb_runtime_kind :: utext
  gb_agent_id :: utext
  gb_display_name :: utext
  gb_working_directory :: "utext option"
  gb_status :: BindingStatus
  gb_binding_epoch :: int
  gb_session_generation :: int
  gb_created_at :: int
  gb_updated_at :: int
  gb_last_session_id :: "utext option"
  gb_last_task_id :: "utext option"
  gb_last_stopped_command_created_at :: "int option"

record public_command =
  gc_command_id :: utext
  gc_binding_id :: utext
  gc_device_id :: utext
  gc_runtime_id :: utext
  gc_agent_id :: utext
  gc_binding_epoch :: int
  gc_session_id :: "utext option"
  gc_action :: CommandAction
  gc_payload :: "(string, json) dict"
  gc_idempotency_key :: utext
  gc_status :: CommandStatus
  gc_created_at :: int
  gc_expires_at :: int
  gc_delivered_at :: "int option"
  gc_delivery_attempts :: int
  gc_updated_at :: int
  gc_result :: "json option"
  gc_error :: "(string, utext) dict option"

record command = public_command +
  gc_request_fingerprint :: string
  gc_session_generation :: int
  gc_durable_ready :: bool

record agent_task_result =
  gr_task_id :: utext
  gr_result_id :: utext
  gr_binding_id :: utext
  gr_binding_epoch :: int
  gr_device_id :: utext
  gr_command_id :: utext
  gr_result :: json
  gr_result_hash :: string
  gr_received_at :: int

text \<open>When an event occurred: the text of the connector, or the clock.\<close>

datatype occurrence = Reported utext | Observed int

record runtime_event =
  ge_event_id :: utext
  ge_source_event_id :: "utext option"
  ge_device_id :: utext
  ge_binding_id :: utext
  ge_session_id :: "utext option"
  ge_task_id :: "utext option"
  ge_sequence :: int
  ge_event_type :: utext
  ge_level :: utext
  ge_data :: "(string, json) dict"
  ge_occurred_at :: occurrence
  ge_received_at :: int

record audit_entry =
  ga_audit_id :: utext
  ga_owner_id :: "utext option"
  ga_action :: string
  ga_actor :: "utext option"
  ga_metadata :: "(string, json) dict"
  ga_occurred_at :: int

text \<open>A WebSocket is its identity.\<close>

type_synonym socket = nat

record ConnectorGateway =
  cg_pairings :: "(utext, pairing) dict"
  cg_pairings_by_device_code :: "(string, utext) dict"
  cg_devices :: "(utext, device) dict"
  cg_bindings :: "(utext, binding) dict"
  cg_commands :: "(utext, command) dict"
  cg_agent_task_results :: "(utext, agent_task_result) dict"
  cg_events :: "runtime_event list"
  cg_audit :: "audit_entry list"
  cg_connections :: "(utext, socket) dict"
  cg_connection_sets :: "(utext, socket list) dict"
  cg_connection_ready_generations :: "(utext, int) dict"
  cg_event_ack_watermarks :: "(utext, int) dict"
  cg_event_pending_sequences :: "(utext, int list) dict"
  cg_max_pending_pairings :: int

definition ConnectorGateway_new :: "int \<Rightarrow> ConnectorGateway" where
  "ConnectorGateway_new n =
     \<lparr>cg_pairings = [], cg_pairings_by_device_code = [], cg_devices = [], cg_bindings = [], cg_commands = [], cg_agent_task_results = [],
      cg_events = [], cg_audit = [], cg_connections = [], cg_connection_sets = [], cg_connection_ready_generations = [],
      cg_event_ack_watermarks = [], cg_event_pending_sequences = [], cg_max_pending_pairings = n\<rparr>"

type_synonym 'a gateway_call = "ConnectorGateway \<Rightarrow> 'a result \<times> ConnectorGateway"

text \<open>What the source takes from elsewhere: the notation of containers, the value of a digit, upper case, the Unicode database, and
  the messages of \<open>arena_agent_contracts\<close> that pydantic accepts, a result with its task, its own id and its JSON form.\<close>

record library =
  l_repr :: "json \<Rightarrow> utext"
  l_digit :: "nat \<Rightarrow> nat option"
  l_upper :: "utext \<Rightarrow> utext"
  l_ucd :: ucd
  l_task_valid :: "json \<Rightarrow> bool"
  l_result :: "json option \<Rightarrow> (utext \<times> utext \<times> json) option"

text \<open>What one call draws: the time, the identifiers, a secret and a user code.\<close>

record draw =
  dr_now :: int
  dr_uuid :: "string \<Rightarrow> utext"
  dr_secret :: utext
  dr_user_code :: utext

definition new_id :: "draw \<Rightarrow> string \<Rightarrow> utext" where
  "new_id d prefix = ascii (prefix @ ''_'') @ dr_uuid d prefix"

definition digest_secret :: "utext \<Rightarrow> string result" where
  "digest_secret secret = bindR (utf8_encode secret) (\<lambda>b. Inr (hexdigest (sha256 b)))"

section \<open>Values of a payload\<close>

definition text_member :: "library \<Rightarrow> (string, json) dict \<Rightarrow> string \<Rightarrow> utext" where
  "text_member l payload k = (case dget payload k of None \<Rightarrow> [] | Some v \<Rightarrow> str_of (l_repr l) v)"

text \<open>\<open>int(value)\<close>, with the exception it raises\<close>

definition int_of :: "library \<Rightarrow> json \<Rightarrow> int result" where
  "int_of l v =
     (case int_of_json (l_digit l) v of
        Some i \<Rightarrow> Inr i
      | None \<Rightarrow> Inl (case v of JStr _ \<Rightarrow> ValueError ''invalid literal for int()'' | _ \<Rightarrow> TypeError ''int() argument''))"

definition member_or :: "(string, json) dict \<Rightarrow> string \<Rightarrow> json \<Rightarrow> json" where
  "member_or payload k v0 = (case dget payload k of None \<Rightarrow> v0 | Some v \<Rightarrow> v)"

definition optional_text :: "utext \<Rightarrow> utext option" where
  "optional_text t = (if t = [] then None else Some t)"

section \<open>Redaction\<close>

definition sensitive_key_pattern :: rx where
  "sensitive_key_pattern =
     (let dash = opt (Cls (one_of ''_-'')) in
      rx_any [rx_all [lit_ci ''api'', dash, lit_ci ''key''], rx_all [lit_ci ''access'', dash, lit_ci ''token''], lit_ci ''authorization'',
              lit_ci ''cookie'', lit_ci ''password'', lit_ci ''secret'', rx_all [lit_ci ''private'', dash, lit_ci ''key'']])"

text \<open>A pattern with the part of it that the replacement keeps.\<close>

definition token_char :: "nat \<Rightarrow> bool" where
  "token_char = ci (\<lambda>c. ascii_alnum c \<or> one_of ''_-'' c)"

definition sensitive_text_patterns :: "(rx option \<times> rx) list" where
  "sensitive_text_patterns =
     (let label = rx_all [lit_ci ''authorization'', spaces, lit '':'', spaces, lit_ci ''bearer'', at_least 1 py_isspace] in
      [(None, rx_all [Wb, lit_ci ''sk-ant-'', at_least 12 token_char, Wb]),
       (None, rx_all [Wb, lit_ci ''sk-'', at_least 20 token_char, Wb]),
       (Some label, Cat label (at_least 1 (ci (\<lambda>c. ascii_alnum c \<or> one_of ''._~+/=-'' c))))])"

text \<open>\<open>re.sub\<close>: at each position the longest match, which is the one that the greedy repetitions of these patterns find.\<close>

function sub_from :: "ucd \<Rightarrow> rx option \<times> rx \<Rightarrow> utext \<Rightarrow> nat \<Rightarrow> utext" where
  "sub_from u p t i =
     (if length t \<le> i then []
      else case filter (\<lambda>j. i < j) (ends (word_char u) t (snd p) i) of
        [] \<Rightarrow> t ! i # sub_from u p t (Suc i)
      | js \<Rightarrow> (case fst p of None \<Rightarrow> [] | Some g \<Rightarrow> take (Max (set (ends (word_char u) t g i)) - i) (drop i t))
             @ ascii ''[REDACTED]'' @ sub_from u p t (Max (set js)))"
  by pat_completeness auto

termination
proof (relation "measure (\<lambda>(u, p, t, i). length t - i)", goal_cases)
  case (3 u p t i j js)
  then have "set (j # js) = {k \<in> set (ends (word_char u) t (snd p) i). i < k}" by (metis set_filter)
  then have "i < j" by auto
  also have "j \<le> Max (set (j # js))" by simp
  finally show ?case using 3(1) by simp
qed auto

definition redact_text :: "library \<Rightarrow> utext \<Rightarrow> utext" where
  "redact_text l value = fold (\<lambda>p t. sub_from (l_ucd l) p t 0) sensitive_text_patterns value"

definition sensitive_key :: "library \<Rightarrow> utext \<Rightarrow> bool" where
  "sensitive_key l k = re_search (l_ucd l) sensitive_key_pattern k"

text \<open>A dictionary built item by item: a key that comes again overwrites.\<close>

definition dict_of :: "('k \<times> 'v) list \<Rightarrow> ('k, 'v) dict" where
  "dict_of kvs = fold (\<lambda>(k, v) d. dput d k v) kvs []"

definition safe_error :: "library \<Rightarrow> json option \<Rightarrow> (string, utext) dict option" where
  "safe_error l value =
     (case value of
        None \<Rightarrow> None
      | Some JNull \<Rightarrow> None
      | Some (JObj kvs) \<Rightarrow>
          Some (dict_of (map (\<lambda>(k, v). (take 128 k,
            if sensitive_key l (ascii k) then ascii ''[REDACTED]'' else redact_text l (take 2048 (str_of (l_repr l) v)))) (take 20 kvs)))
      | Some v \<Rightarrow> Some [(''message'', redact_text l (take 2048 (str_of (l_repr l) v)))])"

function bounded_event_value :: "library \<Rightarrow> json \<Rightarrow> utext \<Rightarrow> nat \<Rightarrow> json" where
  "bounded_event_value l v key depth =
     (if sensitive_key l key then JStr (ascii ''[REDACTED]'')
      else case v of
        JNull \<Rightarrow> v
      | JBool _ \<Rightarrow> v
      | JInt _ \<Rightarrow> v
      | JStr t \<Rightarrow> JStr (redact_text l (take 8192 t))
      | JObj kvs \<Rightarrow>
          if depth \<ge> 4 then JStr (redact_text l (take 8192 (str_of (l_repr l) v)))
          else JObj (dict_of (map (\<lambda>(k, w). (take 128 k, bounded_event_value l w (ascii k) (Suc depth))) (take 100 kvs)))
      | JArr ws \<Rightarrow>
          if depth \<ge> 4 then JStr (redact_text l (take 8192 (str_of (l_repr l) v)))
          else JArr (map (\<lambda>w. bounded_event_value l w key (Suc depth)) (take 100 ws)))"
  by pat_completeness auto

termination
  by (relation "measure (\<lambda>(l, v, key, depth). 4 - depth)") auto

declare sub_from.simps [simp del] bounded_event_value.simps [simp del]

definition bounded_event_data :: "library \<Rightarrow> json \<Rightarrow> (string, json) dict" where
  "bounded_event_data l v =
     (case v of
        JObj kvs \<Rightarrow> dict_of (map (\<lambda>(k, w). (take 128 k, bounded_event_value l w (ascii k) 0)) (take 100 kvs))
      | _ \<Rightarrow> [(''value'', bounded_event_value l v [] 0)])"

section \<open>Audit\<close>

definition meta_text :: "(string, json) dict \<Rightarrow> string \<Rightarrow> utext option" where
  "meta_text m k = (case dget m k of Some (JStr t) \<Rightarrow> optional_text t | _ \<Rightarrow> None)"

definition owner_text :: "utext option \<Rightarrow> utext" where
  "owner_text owner = (case owner of None \<Rightarrow> ascii ''None'' | Some t \<Rightarrow> t)"

definition owner_of_device :: "ConnectorGateway \<Rightarrow> utext \<Rightarrow> utext option" where
  "owner_of_device s device_id = map_option (\<lambda>d. owner_text (gd_owner_id d)) (dget (cg_devices s) device_id)"

fun first_some :: "'a option list \<Rightarrow> 'a option" where
  "first_some [] = None"
| "first_some (Some x # xs) = Some x"
| "first_some (None # xs) = first_some xs"

definition resolve_audit_owner :: "ConnectorGateway \<Rightarrow> utext option \<Rightarrow> (string, json) dict \<Rightarrow> utext option" where
  "resolve_audit_owner s actor metadata =
     (case first_some
        [Option.bind (meta_text metadata ''device_id'') (owner_of_device s),
         Option.bind (meta_text metadata ''binding_id'') (\<lambda>k. Option.bind (dget (cg_bindings s) k) (\<lambda>b. owner_of_device s (gb_device_id b))),
         Option.bind (meta_text metadata ''command_id'') (\<lambda>k. Option.bind (dget (cg_commands s) k) (\<lambda>c. owner_of_device s (gc_device_id c))),
         Option.bind (meta_text metadata ''pairing_id'') (\<lambda>k. Option.bind (find (\<lambda>p. gp_pairing_id p = k) (dvalues (cg_pairings s)))
           (\<lambda>p. Option.bind (gp_owner_id p) optional_text))] of
        Some owner \<Rightarrow> Some owner
      | None \<Rightarrow>
          if list_ex (\<lambda>d. gd_owner_id d = actor \<and> actor \<noteq> None \<and> actor \<noteq> Some []) (dvalues (cg_devices s)) then actor else None)"

definition trim_log :: "'a list \<Rightarrow> 'a list" where
  "trim_log xs = (if length xs > 10000 then drop 1000 xs else xs)"

definition append_audit :: "draw \<Rightarrow> string \<Rightarrow> utext option \<Rightarrow> (string, json) dict \<Rightarrow> ConnectorGateway \<Rightarrow> ConnectorGateway" where
  "append_audit d action actor metadata s =
     s\<lparr>cg_audit := trim_log (cg_audit s @ [\<lparr>ga_audit_id = new_id d ''audit'', ga_owner_id = resolve_audit_owner s actor metadata, ga_action = action,
        ga_actor = actor, ga_metadata = metadata, ga_occurred_at = dr_now d\<rparr>])\<rparr>"

section \<open>Pairing\<close>

definition open_pairing :: "pairing \<Rightarrow> bool" where
  "open_pairing r \<longleftrightarrow> gp_status r = PairingPending \<or> gp_status r = PairingApproved"

definition expired_pairing :: "int \<Rightarrow> pairing \<Rightarrow> bool" where
  "expired_pairing now r \<longleftrightarrow> (open_pairing r \<or> gp_status r = PairingExpired) \<and> gp_expires_at r \<le> now"

definition remove_expired_pairings :: "int \<Rightarrow> ConnectorGateway \<Rightarrow> ConnectorGateway" where
  "remove_expired_pairings now s =
     fold (\<lambda>(code, r) s. if expired_pairing now r
         then s\<lparr>cg_pairings_by_device_code := ddel (cg_pairings_by_device_code s) (gp_device_code_hash r), cg_pairings := ddel (cg_pairings s) code\<rparr>
         else s) (cg_pairings s) s"

text \<open>What the loop over random codes returns: eight letters or digits of the alphabet, in two groups, that no pairing has.\<close>

definition code_alphabet :: string where
  "code_alphabet = ''ABCDEFGHJKLMNPQRSTUVWXYZ23456789''"

definition unique_user_code :: "ConnectorGateway \<Rightarrow> utext \<Rightarrow> bool" where
  "unique_user_code s code \<longleftrightarrow>
     length code = 9 \<and> code ! 4 = 45 \<and> list_all (\<lambda>c. c \<in> set (ascii code_alphabet)) (take 4 code @ drop 5 code) \<and> dget (cg_pairings s) code = None"

definition create_pairing :: "draw \<Rightarrow> utext option \<Rightarrow> utext \<Rightarrow> (public_pairing \<times> utext) gateway_call" where
  "create_pairing d requested_owner_id device_name s0 =
     (let s = remove_expired_pairings (dr_now d) s0 in
      if int (length (filter open_pairing (dvalues (cg_pairings s)))) \<ge> cg_max_pending_pairings s
      then (Inl (ConnectorError 503 ''Connector pairing capacity is temporarily full; retry later''), s)
      else attempt (digest_secret (dr_secret d)) s (\<lambda>code_hash.
        let record = \<lparr>gp_pairing_id = new_id d ''pair'', gp_owner_id = None, gp_requested_owner_id = requested_owner_id,
              gp_device_name = device_name, gp_user_code = dr_user_code d, gp_status = PairingPending, gp_created_at = dr_now d,
              gp_expires_at = dr_now d + 600000000, gp_approved_at = None, gp_consumed_at = None, gp_device_id = None,
              gp_device_code_hash = code_hash\<rparr>;
            s = s\<lparr>cg_pairings := dput (cg_pairings s) (dr_user_code d) record,
                  cg_pairings_by_device_code := dput (cg_pairings_by_device_code s) code_hash (dr_user_code d)\<rparr> in
        (Inr (public_pairing.truncate record, dr_secret d),
         append_audit d ''pairing.created'' (Some (ascii ''connector'')) [(''pairing_id'', JStr (gp_pairing_id record))] s)))"

definition normalize_code :: "library \<Rightarrow> utext \<Rightarrow> utext" where
  "normalize_code l user_code = l_upper l (text_strip user_code)"

definition get_pairing :: "library \<Rightarrow> ConnectorGateway \<Rightarrow> utext \<Rightarrow> pairing result" where
  "get_pairing l s user_code =
     (case dget (cg_pairings s) (normalize_code l user_code) of
        None \<Rightarrow> Inl (ConnectorError 404 ''Pairing code not found'') | Some r \<Rightarrow> Inr r)"

definition refresh_pairing_expiry :: "int \<Rightarrow> pairing \<Rightarrow> pairing" where
  "refresh_pairing_expiry now r = (if open_pairing r \<and> gp_expires_at r \<le> now then r\<lparr>gp_status := PairingExpired\<rparr> else r)"

definition approve_pairing :: "library \<Rightarrow> draw \<Rightarrow> utext \<Rightarrow> utext \<Rightarrow> public_pairing gateway_call" where
  "approve_pairing l d user_code owner_id s0 =
     attempt (get_pairing l s0 user_code) s0 (\<lambda>r0.
       let r = refresh_pairing_expiry (dr_now d) r0;
           s = s0\<lparr>cg_pairings := dput (cg_pairings s0) (normalize_code l user_code) r\<rparr> in
       if gp_status r = PairingExpired then (Inl (ConnectorError 410 ''Pairing code expired''), s)
       else if gp_status r = PairingApproved then (Inl (ConnectorError 409 ''Pairing code already approved''), s)
       else if gp_status r = PairingConsumed then (Inl (ConnectorError 409 ''Pairing code already consumed''), s)
       else if gp_owner_id r \<noteq> None \<and> gp_owner_id r \<noteq> Some owner_id then (Inl (ConnectorError 403 ''Pairing belongs to another owner''), s)
       else let r = r\<lparr>gp_owner_id := Some owner_id, gp_status := PairingApproved, gp_approved_at := Some (dr_now d)\<rparr>;
                s = s\<lparr>cg_pairings := dput (cg_pairings s) (normalize_code l user_code) r\<rparr> in
         (Inr (public_pairing.truncate r),
          append_audit d ''pairing.approved'' (Some owner_id) [(''pairing_id'', JStr (gp_pairing_id r))] s))"

definition enrolled_device :: "draw \<Rightarrow> pairing \<Rightarrow> string \<Rightarrow> device" where
  "enrolled_device d r token_hash =
     \<lparr>gd_device_id = new_id d ''device'', gd_owner_id = gp_owner_id r, gd_name = gp_device_name r, gd_status = DeviceOffline,
      gd_connector_version = None, gd_connector_started_at = None, gd_platform = None, gd_hostname = None, gd_protocol_version = None,
      gd_created_at = dr_now d, gd_connected_at = None, gd_last_seen_at = None, gd_runtimes = [], gd_binding_epoch = 1,
      gd_outbound_sequence = 0, gd_last_inbound_sequence = None, gd_event_ack_watermark = 0, gd_event_pending_sequences = [],
      gd_active_sessions = None, gd_revoked_at = None, gd_token_hash = token_hash, gd_connection_generation = 0\<rparr>"

definition exchange_pairing :: "library \<Rightarrow> draw \<Rightarrow> utext \<Rightarrow> (utext \<times> utext) gateway_call" where
  "exchange_pairing l d device_code s0 =
     attempt (digest_secret device_code) s0 (\<lambda>code_hash.
     case dget (cg_pairings_by_device_code s0) code_hash of
       None \<Rightarrow> (Inl (ConnectorError 401 ''Invalid device code''), s0)
     | Some user_code \<Rightarrow>
         attempt (get_pairing l s0 user_code) s0 (\<lambda>r0.
           let r = refresh_pairing_expiry (dr_now d) r0;
               s = s0\<lparr>cg_pairings := dput (cg_pairings s0) (normalize_code l user_code) r\<rparr> in
           if gp_status r = PairingPending then (Inl (ConnectorError 428 ''Pairing is waiting for user approval''), s)
           else if gp_status r = PairingExpired then (Inl (ConnectorError 410 ''Pairing code expired''), s)
           else if gp_status r = PairingConsumed then (Inl (ConnectorError 409 ''Pairing code already consumed''), s)
           else attempt (digest_secret (dr_secret d)) s (\<lambda>token_hash.
             let device = enrolled_device d r token_hash;
                 r = r\<lparr>gp_status := PairingConsumed, gp_consumed_at := Some (dr_now d), gp_device_id := Some (gd_device_id device)\<rparr>;
                 s = s\<lparr>cg_devices := dput (cg_devices s) (gd_device_id device) device,
                       cg_pairings := dput (cg_pairings s) (normalize_code l user_code) r,
                       cg_pairings_by_device_code := ddel (cg_pairings_by_device_code s) code_hash\<rparr> in
             (Inr (gd_device_id device, dr_secret d),
              append_audit d ''device.enrolled'' (gp_owner_id r)
                [(''device_id'', JStr (gd_device_id device)), (''pairing_id'', JStr (gp_pairing_id r))] s))))"

section \<open>Devices\<close>

definition authenticate_device :: "utext \<Rightarrow> utext \<Rightarrow> ConnectorGateway \<Rightarrow> device result" where
  "authenticate_device device_id token s =
     (case dget (cg_devices s) device_id of
        None \<Rightarrow> Inl (ConnectorError 401 ''Invalid device credentials'')
      | Some device \<Rightarrow>
          if gd_revoked_at device \<noteq> None then Inl (ConnectorError 410 ''Device has been revoked'')
          else bindR (digest_secret token) (\<lambda>h.
            if gd_token_hash device \<noteq> h then Inl (ConnectorError 401 ''Invalid device credentials'') else Inr device))"

definition get_device_record :: "ConnectorGateway \<Rightarrow> utext \<Rightarrow> device result" where
  "get_device_record s device_id = (case dget (cg_devices s) device_id of None \<Rightarrow> Inl (ConnectorError 404 ''Device not found'') | Some device \<Rightarrow> Inr device)"

definition ensure_not_revoked :: "device \<Rightarrow> unit result" where
  "ensure_not_revoked device = (if gd_revoked_at device \<noteq> None then Inl (ConnectorError 410 ''Device has been revoked'') else Inr ())"

definition ensure_connection_generation :: "device \<Rightarrow> int option \<Rightarrow> unit result" where
  "ensure_connection_generation device expected =
     (if expected \<noteq> None \<and> Some (gd_connection_generation device) \<noteq> expected
      then Inl (ConnectorError 409 ''WebSocket is no longer an active device connection'') else Inr ())"

text \<open>The three checks with which every message of a connector begins.\<close>

definition active_device :: "ConnectorGateway \<Rightarrow> utext \<Rightarrow> int option \<Rightarrow> device result" where
  "active_device s device_id expected =
     bindR (get_device_record s device_id) (\<lambda>device.
     bindR (ensure_not_revoked device) (\<lambda>_.
     bindR (ensure_connection_generation device expected) (\<lambda>_. Inr device)))"

definition effective_device_status :: "ConnectorGateway \<Rightarrow> int \<Rightarrow> device \<Rightarrow> DeviceStatus" where
  "effective_device_status s now device =
     (if gd_revoked_at device \<noteq> None then DeviceRevoked
      else if dget (cg_connections s) (gd_device_id device) = None then DeviceOffline
      else case gd_last_seen_at device of
        None \<Rightarrow> DeviceOffline
      | Some t \<Rightarrow> if now - t \<le> 45000000 then DeviceOnline else DeviceOffline)"

definition public_view :: "ConnectorGateway \<Rightarrow> int \<Rightarrow> device \<Rightarrow> public_device" where
  "public_view s now device = (public_device.truncate device)\<lparr>gd_status := effective_device_status s now device\<rparr>"

definition dmap :: "('v \<Rightarrow> 'v) \<Rightarrow> ('k, 'v) dict \<Rightarrow> ('k, 'v) dict" where
  "dmap f d = map (\<lambda>(k, v). (k, f v)) d"

definition requeue :: "utext \<Rightarrow> int \<Rightarrow> command \<Rightarrow> command" where
  "requeue device_id now c =
     (if gc_device_id c = device_id \<and> gc_status c = CommandDelivered then c\<lparr>gc_status := CommandQueued, gc_updated_at := now\<rparr> else c)"

text \<open>The answer: the generation of the connection, and the socket it replaces, which is closed.\<close>

definition connect_device :: "draw \<Rightarrow> utext \<Rightarrow> socket \<Rightarrow> (int \<times> socket option) gateway_call" where
  "connect_device d device_id websocket s =
     attempt (bindR (get_device_record s device_id) (\<lambda>device. bindR (ensure_not_revoked device) (\<lambda>_. Inr device))) s (\<lambda>device.
       let device = device\<lparr>gd_status := DeviceOnline, gd_connected_at := Some (dr_now d), gd_last_seen_at := Some (dr_now d),
                          gd_connection_generation := gd_connection_generation device + 1\<rparr>;
           generation = gd_connection_generation device;
           previous = dget (cg_connections s) device_id;
           sockets = (case dget (cg_connection_sets s) device_id of None \<Rightarrow> [] | Some ws \<Rightarrow> ws);
           s = s\<lparr>cg_devices := dput (cg_devices s) device_id device,
                 cg_connections := dput (cg_connections s) device_id websocket,
                 cg_connection_ready_generations := ddel (cg_connection_ready_generations s) device_id,
                 cg_connection_sets := dput (cg_connection_sets s) device_id (List.insert websocket sockets),
                 cg_commands := dmap (requeue device_id (dr_now d)) (cg_commands s)\<rparr> in
       (Inr (generation, if previous = Some websocket then None else previous),
        append_audit d ''device.connected'' (Some device_id) [(''device_id'', JStr device_id), (''generation'', JInt generation)] s))"

definition disconnect_device :: "draw \<Rightarrow> utext \<Rightarrow> socket \<Rightarrow> ConnectorGateway \<Rightarrow> ConnectorGateway" where
  "disconnect_device d device_id websocket s =
     (let s = (case dget (cg_connection_sets s) device_id of
                 None \<Rightarrow> s
               | Some sockets \<Rightarrow>
                   let sockets = removeAll websocket sockets in
                   s\<lparr>cg_connection_sets := if sockets = [] then ddel (cg_connection_sets s) device_id else dput (cg_connection_sets s) device_id sockets\<rparr>) in
      if dget (cg_connections s) device_id \<noteq> Some websocket then s
      else let s = s\<lparr>cg_connections := ddel (cg_connections s) device_id,
                     cg_connection_ready_generations := ddel (cg_connection_ready_generations s) device_id\<rparr> in
        (case dget (cg_devices s) device_id of
           None \<Rightarrow> s
         | Some device \<Rightarrow>
             append_audit d ''device.disconnected'' (Some device_id) [(''device_id'', JStr device_id)]
               (s\<lparr>cg_devices := dput (cg_devices s) device_id (device\<lparr>gd_status := DeviceOffline\<rparr>)\<rparr>)))"

section \<open>Messages about a device\<close>

definition text_field :: "library \<Rightarrow> (string, json) dict \<Rightarrow> string \<Rightarrow> utext option \<Rightarrow> utext option" where
  "text_field l payload k old =
     (case dget payload k of None \<Rightarrow> old | Some JNull \<Rightarrow> old | Some v \<Rightarrow> Some (take 256 (str_of (l_repr l) v)))"

definition truthy_text :: "utext option \<Rightarrow> bool" where
  "truthy_text t \<longleftrightarrow> t \<noteq> None \<and> t \<noteq> Some []"

definition reset_session :: "utext \<Rightarrow> int \<Rightarrow> binding \<Rightarrow> binding" where
  "reset_session device_id now b =
     (if gb_device_id b \<noteq> device_id then b
      else b\<lparr>gb_session_generation := gb_session_generation b + 1,
             gb_status := (if gb_status b \<noteq> BindingStopped \<and> (truthy_text (gb_last_session_id b) \<or> truthy_text (gb_last_task_id b))
                           then BindingDegraded else gb_status b),
             gb_last_session_id := None, gb_last_task_id := None, gb_updated_at := now\<rparr>)"

definition PROTOCOL_VERSION :: string where "PROTOCOL_VERSION = ''1.0''"

definition apply_hello :: "library \<Rightarrow> draw \<Rightarrow> utext \<Rightarrow> (string, json) dict \<Rightarrow> int option \<Rightarrow> public_device gateway_call" where
  "apply_hello l d device_id payload expected s =
     attempt (active_device s device_id expected) s (\<lambda>device.
       if text_member l payload ''protocol_version'' \<noteq> ascii PROTOCOL_VERSION then (Inl (ConnectorError 409 ''Unsupported protocol version''), s)
       else
         let previous_started_at = gd_connector_started_at device;
             started_at = take 128 (text_strip (text_member l payload ''started_at''));
             device = device\<lparr>gd_connector_version := text_field l payload ''connector_version'' (gd_connector_version device),
                 gd_platform := text_field l payload ''platform'' (gd_platform device),
                 gd_hostname := text_field l payload ''hostname'' (gd_hostname device),
                 gd_protocol_version := text_field l payload ''protocol_version'' (gd_protocol_version device),
                 gd_connector_started_at := (if started_at = [] then previous_started_at else Some started_at),
                 gd_last_seen_at := Some (dr_now d)\<rparr>;
             s1 = s\<lparr>cg_devices := dput (cg_devices s) device_id device\<rparr>;
             s2 = (if started_at \<noteq> [] \<and> truthy_text previous_started_at \<and> previous_started_at \<noteq> Some started_at
                   then append_audit d ''device.connector_restarted'' (Some device_id)
                          [(''device_id'', JStr device_id),
                           (''reset_bindings'', JInt (int (length (filter (\<lambda>b. gb_device_id b = device_id) (dvalues (cg_bindings s))))))]
                          (s1\<lparr>cg_bindings := dmap (reset_session device_id (dr_now d)) (cg_bindings s1)\<rparr>)
                   else s1) in
         (Inr (public_view s2 (dr_now d) device), s2))"

text \<open>The device is marked as seen before the number of its sessions is read.\<close>

definition heartbeat :: "library \<Rightarrow> draw \<Rightarrow> utext \<Rightarrow> (string, json) dict \<Rightarrow> int option \<Rightarrow> unit gateway_call" where
  "heartbeat l d device_id payload expected s =
     attempt (active_device s device_id expected) s (\<lambda>device.
       let device = device\<lparr>gd_last_seen_at := Some (dr_now d), gd_status := DeviceOnline\<rparr>;
           s = s\<lparr>cg_devices := dput (cg_devices s) device_id device\<rparr> in
       case dget payload ''active_sessions'' of
         None \<Rightarrow> (Inr (), s)
       | Some v \<Rightarrow> attempt (int_of l v) s (\<lambda>n.
           (Inr (), s\<lparr>cg_devices := dput (cg_devices s) device_id (device\<lparr>gd_active_sessions := Some (max 0 n)\<rparr>)\<rparr>)))"

definition json_truthy :: "json option \<Rightarrow> bool" where
  "json_truthy v = (case v of None \<Rightarrow> False | Some j \<Rightarrow> json_true j)"

definition host_fields :: "library \<Rightarrow> json option \<Rightarrow> device \<Rightarrow> device" where
  "host_fields l host device =
     (case host of
        Some (JObj h) \<Rightarrow>
          let os_name = take 128 (text_member l h ''os''); architecture = take 128 (text_member l h ''architecture'') in
          device\<lparr>gd_hostname := (if json_truthy (dget h ''hostname'') then Some (take 256 (text_member l h ''hostname'')) else gd_hostname device),
            gd_platform := (if os_name \<noteq> [] \<or> architecture \<noteq> []
                            then Some (join (ascii ''/'') (filter (\<lambda>v. v \<noteq> []) [os_name, architecture])) else gd_platform device),
            gd_connector_version := (if json_truthy (dget h ''connector_version'') then Some (take 256 (text_member l h ''connector_version''))
                                     else gd_connector_version device)\<rparr>
      | _ \<Rightarrow> device)"

definition update_inventory :: "library \<Rightarrow> draw \<Rightarrow> utext \<Rightarrow> RuntimeInventoryItem list \<Rightarrow> json option \<Rightarrow> int option \<Rightarrow> public_device gateway_call" where
  "update_inventory l d device_id runtimes host expected s =
     attempt (active_device s device_id expected) s (\<lambda>device.
       if \<not> distinct (map ri_runtime_id runtimes) then (Inl (ConnectorError 422 ''runtime_id values must be unique per device''), s)
       else
         let device = host_fields l host (device\<lparr>gd_runtimes := runtimes, gd_last_seen_at := Some (dr_now d)\<rparr>);
             s = append_audit d ''inventory.updated'' (Some device_id) [(''device_id'', JStr device_id), (''runtime_count'', JInt (int (length runtimes)))]
                   (s\<lparr>cg_devices := dput (cg_devices s) device_id device\<rparr>) in
         (Inr (public_view s (dr_now d) device), s))"

definition stop_binding :: "utext \<Rightarrow> int \<Rightarrow> int \<Rightarrow> binding \<Rightarrow> binding" where
  "stop_binding device_id epoch now b =
     (if gb_device_id b = device_id then b\<lparr>gb_status := BindingStopped, gb_binding_epoch := epoch, gb_updated_at := now\<rparr> else b)"

text \<open>The answer holds the sockets to close too.\<close>

definition revoke_device :: "draw \<Rightarrow> utext \<Rightarrow> utext \<Rightarrow> (public_device \<times> socket list) gateway_call" where
  "revoke_device d device_id owner_id s =
     attempt (get_device_record s device_id) s (\<lambda>device.
       if gd_owner_id device \<noteq> Some owner_id then (Inl (ConnectorError 403 ''Device belongs to another owner''), s)
       else if gd_revoked_at device \<noteq> None then (Inr (public_view s (dr_now d) device, []), s)
       else attempt (digest_secret (dr_secret d)) s (\<lambda>token_hash.
         let device = device\<lparr>gd_revoked_at := Some (dr_now d), gd_status := DeviceRevoked, gd_token_hash := token_hash,
               gd_binding_epoch := gd_binding_epoch device + 1, gd_connection_generation := gd_connection_generation device + 1\<rparr>;
             websockets = (case dget (cg_connection_sets s) device_id of None \<Rightarrow> [] | Some ws \<Rightarrow> ws);
             s = append_audit d ''device.revoked'' (Some owner_id) [(''device_id'', JStr device_id)]
                   (s\<lparr>cg_devices := dput (cg_devices s) device_id device, cg_connections := ddel (cg_connections s) device_id,
                      cg_connection_sets := ddel (cg_connection_sets s) device_id,
                      cg_bindings := dmap (stop_binding device_id (gd_binding_epoch device) (dr_now d)) (cg_bindings s)\<rparr>) in
         (Inr (public_view s (dr_now d) device, websockets), s)))"

definition assert_active_connection :: "utext \<Rightarrow> socket \<Rightarrow> int option \<Rightarrow> ConnectorGateway \<Rightarrow> unit result" where
  "assert_active_connection device_id websocket generation s =
     bindR (get_device_record s device_id) (\<lambda>device. bindR (ensure_not_revoked device) (\<lambda>_.
       if dget (cg_connections s) device_id \<noteq> Some websocket \<or> (generation \<noteq> None \<and> Some (gd_connection_generation device) \<noteq> generation)
       then Inl (ConnectionReplacedError ''WebSocket is no longer an active device connection'') else Inr ()))"

definition mark_transport_ready :: "utext \<Rightarrow> int \<Rightarrow> unit gateway_call" where
  "mark_transport_ready device_id expected s =
     attempt (active_device s device_id (Some expected)) s (\<lambda>_.
       (Inr (), s\<lparr>cg_connection_ready_generations := dput (cg_connection_ready_generations s) device_id expected\<rparr>))"

section \<open>Bindings\<close>

definition new_binding :: "draw \<Rightarrow> device \<Rightarrow> RuntimeInventoryItem \<Rightarrow> utext option \<Rightarrow> utext option \<Rightarrow> utext option \<Rightarrow> binding" where
  "new_binding d device runtime agent_id display_name working_directory =
     \<lparr>gb_binding_id = new_id d ''binding'', gb_device_id = gd_device_id device, gb_runtime_id = ri_runtime_id runtime, gb_runtime_kind = ri_kind runtime,
      gb_agent_id = (case agent_id of Some a \<Rightarrow> if a = [] then new_id d ''agent'' else a | None \<Rightarrow> new_id d ''agent''),
      gb_display_name = (case display_name of Some n \<Rightarrow> if n = [] then ri_display_name runtime else n | None \<Rightarrow> ri_display_name runtime),
      gb_working_directory = working_directory, gb_status = BindingAvailable, gb_binding_epoch = gd_binding_epoch device,
      gb_session_generation = 0, gb_created_at = dr_now d, gb_updated_at = dr_now d, gb_last_session_id = None, gb_last_task_id = None,
      gb_last_stopped_command_created_at = None\<rparr>"

definition existing_binding :: "draw \<Rightarrow> device \<Rightarrow> utext option \<Rightarrow> utext \<times> binding \<Rightarrow> binding gateway_call" where
  "existing_binding d device working_directory kb s =
     (case kb of (k, b) \<Rightarrow>
        if working_directory \<noteq> None \<and> gb_working_directory b = None then
          let b = b\<lparr>gb_working_directory := working_directory, gb_updated_at := dr_now d\<rparr> in
          (Inr b, append_audit d ''binding.working_directory_frozen'' (gd_owner_id device)
             [(''binding_id'', JStr (gb_binding_id b)), (''device_id'', JStr (gd_device_id device)), (''runtime_id'', JStr (gb_runtime_id b))]
             (s\<lparr>cg_bindings := dput (cg_bindings s) k b\<rparr>))
        else if working_directory \<noteq> None \<and> gb_working_directory b \<noteq> working_directory
        then (Inl (ConnectorError 409 ''Binding working directory is already frozen''), s)
        else (Inr b, s))"

definition create_binding :: "draw \<Rightarrow> utext \<Rightarrow> utext \<Rightarrow> utext option \<Rightarrow> utext option \<Rightarrow> utext option \<Rightarrow> binding gateway_call" where
  "create_binding d device_id runtime_id agent_id display_name working_directory s =
     (if (case working_directory of None \<Rightarrow> False | Some w \<Rightarrow> blank w \<or> length w > 2048)
      then (Inl (ConnectorError 422 ''Binding working directory must be a non-empty string no longer than 2048 characters''), s)
      else attempt (bindR (get_device_record s device_id) (\<lambda>device. bindR (ensure_not_revoked device) (\<lambda>_. Inr device))) s (\<lambda>device.
        case find (\<lambda>r. ri_runtime_id r = runtime_id \<and> ri_available r) (gd_runtimes device) of
          None \<Rightarrow> (Inl (ConnectorError 404 ''Runtime is not present or unavailable''), s)
        | Some runtime \<Rightarrow>
            (case find (\<lambda>(k, b). gb_device_id b = device_id \<and> gb_runtime_id b = runtime_id) (cg_bindings s) of
               Some kb \<Rightarrow> existing_binding d device working_directory kb s
             | None \<Rightarrow>
                 let b = new_binding d device runtime agent_id display_name working_directory in
                 (Inr b, append_audit d ''binding.created'' (gd_owner_id device)
                    [(''binding_id'', JStr (gb_binding_id b)), (''device_id'', JStr device_id), (''runtime_id'', JStr runtime_id)]
                    (s\<lparr>cg_bindings := dput (cg_bindings s) (gb_binding_id b) b\<rparr>)))))"

section \<open>Commands\<close>

fun payload_fields :: "CommandAction \<Rightarrow> string list" where
  "payload_fields RuntimeProbe = []"
| "payload_fields SessionStart = [''working_directory'', ''initial_prompt'', ''environment_refs'']"
| "payload_fields TaskDispatch = [''session_id'', ''prompt'', ''request_id'', ''task'']"
| "payload_fields TaskCancel = [''session_id'', ''request_id'']"
| "payload_fields SessionStop = [''session_id'', ''reason'']"
| "payload_fields SessionResume = [''session_id'']"

fun required_payload_fields :: "CommandAction \<Rightarrow> string list" where
  "required_payload_fields RuntimeProbe = []"
| "required_payload_fields SessionStart = [''working_directory'']"
| "required_payload_fields TaskDispatch = [''session_id'']"
| "required_payload_fields TaskCancel = [''session_id'', ''request_id'']"
| "required_payload_fields SessionStop = [''session_id'']"
| "required_payload_fields SessionResume = [''session_id'']"

definition forbidden_payload_fields :: "string list" where
  "forbidden_payload_fields = [''shell'', ''command'', ''cmd'', ''argv'', ''executable'', ''executable_path'', ''script'', ''conversation_id'', ''resume_token'']"

definition session_owned_action :: "CommandAction \<Rightarrow> bool" where
  "session_owned_action a \<longleftrightarrow> a = TaskDispatch \<or> a = TaskCancel \<or> a = SessionStop \<or> a = SessionResume"

definition not_none :: "json option \<Rightarrow> json option" where
  "not_none v = (case v of Some JNull \<Rightarrow> None | _ \<Rightarrow> v)"

text \<open>A member that is absent or null, or a text that satisfies a predicate.\<close>

definition optional_string :: "(utext \<Rightarrow> bool) \<Rightarrow> json option \<Rightarrow> bool" where
  "optional_string P v = (case not_none v of None \<Rightarrow> True | Some (JStr t) \<Rightarrow> P t | _ \<Rightarrow> False)"

definition environment_refs_ok :: "json option \<Rightarrow> bool" where
  "environment_refs_ok v =
     (case not_none v of
        None \<Rightarrow> True
      | Some (JArr xs) \<Rightarrow> length xs \<le> 64 \<and> list_all (\<lambda>x. case x of JStr t \<Rightarrow> length t \<le> 256 | _ \<Rightarrow> False) xs
      | _ \<Rightarrow> False)"

definition dispatch_error :: "library \<Rightarrow> (string, json) dict \<Rightarrow> string option" where
  "dispatch_error l payload =
     (let has_prompt = dget payload ''prompt'' \<noteq> None; has_task = dget payload ''task'' \<noteq> None in
      if has_prompt = has_task then Some ''task.dispatch requires exactly one of prompt or task''
      else if has_prompt \<and> dget payload ''request_id'' = None then Some ''Missing payload fields for task.dispatch: request_id''
      else case dget payload ''task'' of
        None \<Rightarrow> None
      | Some t \<Rightarrow> if l_task_valid l t then None else Some ''task must be a valid arena.agent-task.v1 payload'')"

definition payload_error :: "library \<Rightarrow> CommandAction \<Rightarrow> (string, json) dict \<Rightarrow> string option" where
  "payload_error l action payload =
     (if list_ex (\<lambda>k. k \<in> set forbidden_payload_fields) (dkeys payload) then Some ''Arbitrary execution fields are forbidden''
      else if list_ex (\<lambda>k. k \<notin> set (payload_fields action)) (dkeys payload) then Some ''Unsupported payload fields''
      else if list_ex (\<lambda>k. k \<notin> set (dkeys payload)) (required_payload_fields action) then Some ''Missing payload fields''
      else case (if action = TaskDispatch then dispatch_error l payload else None) of
        Some e \<Rightarrow> Some e
      | None \<Rightarrow>
          if \<not> optional_string (\<lambda>t. \<not> blank t \<and> length t \<le> 2048) (dget payload ''working_directory'')
          then Some ''working_directory must be a non-empty string no longer than 2048 characters''
          else if \<not> optional_string (\<lambda>t. length t \<le> 100000)
                    (if json_truthy (dget payload ''prompt'') then dget payload ''prompt'' else dget payload ''initial_prompt'')
          then Some ''Prompt must be a string no longer than 100000 characters''
          else if \<not> optional_string (\<lambda>t. t \<noteq> [] \<and> length t \<le> 128) (dget payload ''session_id'')
          then Some ''session_id must be a non-empty string no longer than 128 characters''
          else if \<not> environment_refs_ok (dget payload ''environment_refs'')
          then Some ''environment_refs must be a bounded list of secret references''
          else None)"

definition validate_command_payload :: "library \<Rightarrow> CommandAction \<Rightarrow> (string, json) dict \<Rightarrow> unit result" where
  "validate_command_payload l action payload =
     (case payload_error l action payload of Some e \<Rightarrow> Inl (ConnectorError 422 e) | None \<Rightarrow> Inr ())"

definition expected_isolation :: "utext \<Rightarrow> utext option" where
  "expected_isolation runtime_kind =
     (if runtime_kind = ascii ''codex'' then Some (ascii ''read_only_ephemeral_schema'')
      else if runtime_kind = ascii ''claude-code'' \<or> runtime_kind = ascii ''claude_code'' then Some (ascii ''no_tools_safe_mode_schema'')
      else None)"

definition arena_runtime_readiness_issues :: "RuntimeInventoryItem \<Rightarrow> string list" where
  "arena_runtime_readiness_issues r =
     (if \<not> ri_task_enabled r then [''task_execution_disabled''] else [])
     @ (if ri_authentication_status r \<noteq> ascii ''configured'' then [''authentication_unavailable''] else [])
     @ (if \<not> ri_arena_compatible r then [''arena_profile_unsupported''] else [])
     @ (if expected_isolation (ri_kind r) \<noteq> Some (ri_arena_isolation r) then [''arena_isolation_unavailable''] else [])
     @ (if \<not> ri_local_execution_ready r then [''runtime_readiness_unknown''] else [])"

definition runtime_error :: "CommandAction \<Rightarrow> (string, json) dict \<Rightarrow> RuntimeInventoryItem option \<Rightarrow> string option" where
  "runtime_error action payload runtime =
     (if action = RuntimeProbe then None
      else case runtime of
        None \<Rightarrow> Some ''Runtime is no longer available''
      | Some r \<Rightarrow>
          if \<not> ri_available r then Some ''Runtime is no longer available''
          else if ascii (action_value action) \<notin> set (ri_capabilities r) then Some ''Runtime does not advertise the action''
          else if action = TaskDispatch \<and> (case dget payload ''task'' of Some (JObj _) \<Rightarrow> True | _ \<Rightarrow> False) \<and> arena_runtime_readiness_issues r \<noteq> []
          then Some ''Runtime is not ready for Arena execution''
          else None)"

definition session_error :: "library \<Rightarrow> CommandAction \<Rightarrow> (string, json) dict \<Rightarrow> binding \<Rightarrow> string option" where
  "session_error l action payload b =
     (if \<not> session_owned_action action then None
      else if \<not> truthy_text (gb_last_session_id b) then Some ''Binding has no active Connector-owned session''
      else if Some (text_member l payload ''session_id'') \<noteq> gb_last_session_id b then Some ''Session does not belong to this runtime binding''
      else None)"

text \<open>\<open>max\<close> by the time of creation and the id; the first of equals wins.\<close>

definition later_command :: "command \<Rightarrow> command \<Rightarrow> bool" where
  "later_command a b \<longleftrightarrow> gc_created_at b < gc_created_at a \<or> gc_created_at a = gc_created_at b \<and> gc_command_id b < gc_command_id a"

fun latest_command :: "command list \<Rightarrow> command option" where
  "latest_command [] = None"
| "latest_command (c # cs) = Some (fold (\<lambda>a best. if later_command a best then a else best) cs c)"

definition connector_restarted :: "command \<Rightarrow> bool" where
  "connector_restarted c \<longleftrightarrow> gc_status c = CommandFailed \<and>
     (case gc_error c of None \<Rightarrow> False | Some e \<Rightarrow> dget e ''code'' = Some (ascii ''connector_restarted''))"

text \<open>The earlier command that a repeated request stands for, if there is one, or an exception.\<close>

definition matching_commands :: "ConnectorGateway \<Rightarrow> utext \<Rightarrow> utext \<Rightarrow> command list" where
  "matching_commands s binding_id key = filter (\<lambda>c. gc_binding_id c = binding_id \<and> gc_idempotency_key c = key) (dvalues (cg_commands s))"

definition replayed_command :: "ConnectorGateway \<Rightarrow> utext \<Rightarrow> CommandAction \<Rightarrow> utext option \<Rightarrow> string \<Rightarrow> command option result" where
  "replayed_command s binding_id action idempotency_key fingerprint =
     (case idempotency_key of
        None \<Rightarrow> Inr None
      | Some key \<Rightarrow>
          if key = [] then Inr None
          else case latest_command (matching_commands s binding_id key) of
            None \<Rightarrow> Inr None
          | Some previous \<Rightarrow>
              if gc_request_fingerprint previous = fingerprint then Inr (Some previous)
              else if action = TaskDispatch \<and> length (matching_commands s binding_id key) < 2 \<and> connector_restarted previous then Inr None
              else Inl (ConnectorError 409 ''Idempotency key was already used with a different command''))"

definition new_command :: "draw \<Rightarrow> binding \<Rightarrow> CommandAction \<Rightarrow> (string, json) dict \<Rightarrow> utext option \<Rightarrow> int \<Rightarrow> string \<Rightarrow> command" where
  "new_command d b action payload idempotency_key expires_in_seconds fingerprint =
     (let command_id = new_id d ''cmd'' in
      \<lparr>gc_command_id = command_id, gc_binding_id = gb_binding_id b, gc_device_id = gb_device_id b, gc_runtime_id = gb_runtime_id b,
       gc_agent_id = gb_agent_id b, gc_binding_epoch = gb_binding_epoch b,
       gc_session_id = (case dget payload ''session_id'' of Some (JStr t) \<Rightarrow> if t = [] then gb_last_session_id b else Some t | _ \<Rightarrow> gb_last_session_id b),
       gc_action = action, gc_payload = payload,
       gc_idempotency_key = (case idempotency_key of Some k \<Rightarrow> if k = [] then command_id else k | None \<Rightarrow> command_id),
       gc_status = CommandQueued, gc_created_at = dr_now d, gc_expires_at = dr_now d + expires_in_seconds * 1000000,
       gc_delivered_at = None, gc_delivery_attempts = 0, gc_updated_at = dr_now d, gc_result = None, gc_error = None,
       gc_request_fingerprint = fingerprint, gc_session_generation = gb_session_generation b, gc_durable_ready = False\<rparr>)"

text \<open>The part of \<open>queue_command\<close> under the lock: the id of the command that serves the request.\<close>

definition record_command :: "library \<Rightarrow> draw \<Rightarrow> utext \<Rightarrow> CommandAction \<Rightarrow> (string, json) dict \<Rightarrow> utext option \<Rightarrow> int \<Rightarrow> string \<Rightarrow> utext gateway_call" where
  "record_command l d binding_id action payload idempotency_key expires_in_seconds fingerprint s =
     (case dget (cg_bindings s) binding_id of
        None \<Rightarrow> (Inl (ConnectorError 404 ''Binding not found''), s)
      | Some b \<Rightarrow>
          case session_error l action payload b of
            Some e \<Rightarrow> (Inl (ConnectorError 409 e), s)
          | None \<Rightarrow>
              attempt (bindR (get_device_record s (gb_device_id b)) (\<lambda>device. bindR (ensure_not_revoked device) (\<lambda>_. Inr device))) s (\<lambda>device.
              case runtime_error action payload (find (\<lambda>r. ri_runtime_id r = gb_runtime_id b) (gd_runtimes device)) of
                Some e \<Rightarrow> (Inl (ConnectorError 409 e), s)
              | None \<Rightarrow>
                  attempt (replayed_command s binding_id action idempotency_key fingerprint) s (\<lambda>selected.
                  case selected of
                    Some c \<Rightarrow> (Inr (gc_command_id c), s)
                  | None \<Rightarrow>
                      let c = new_command d b action payload idempotency_key expires_in_seconds fingerprint in
                      (Inr (gc_command_id c), append_audit d ''command.queued'' (Some (ascii ''platform''))
                         [(''command_id'', JStr (gc_command_id c)), (''binding_id'', JStr binding_id), (''action'', JStr (ascii (action_value action)))]
                         (s\<lparr>cg_commands := dput (cg_commands s) (gc_command_id c) c\<rparr>)))))"

section \<open>Delivery\<close>

record frame =
  fr_device_id :: utext
  fr_sequence :: int
  fr_message_id :: utext

text \<open>What happens at a wait, for the turn to send or for a frame to be sent: whether the sending fails, and what other calls do to the
  gateway meanwhile. The lock of the gateway is never held during a wait.\<close>

type_synonym network = "nat \<Rightarrow> bool \<times> (ConnectorGateway \<Rightarrow> ConnectorGateway)"

definition deliverable :: "utext \<Rightarrow> command \<Rightarrow> bool" where
  "deliverable device_id c \<longleftrightarrow> gc_device_id c = device_id \<and> gc_status c = CommandQueued \<and> gc_durable_ready c"

definition expire_command :: "utext \<Rightarrow> int \<Rightarrow> command \<Rightarrow> command" where
  "expire_command device_id now c =
     (if deliverable device_id c \<and> gc_expires_at c \<le> now then c\<lparr>gc_status := CommandExpired, gc_updated_at := now\<rparr> else c)"

definition mark_delivered :: "int \<Rightarrow> command \<Rightarrow> command" where
  "mark_delivered now c = c\<lparr>gc_status := CommandDelivered, gc_delivered_at := Some now, gc_delivery_attempts := gc_delivery_attempts c + 1, gc_updated_at := now\<rparr>"

definition connection_current :: "ConnectorGateway \<Rightarrow> utext \<Rightarrow> socket \<Rightarrow> int \<Rightarrow> device \<Rightarrow> bool" where
  "connection_current s device_id websocket generation device \<longleftrightarrow>
     dget (cg_connections s) device_id = Some websocket \<and> gd_connection_generation device = generation"

definition queued_now :: "ConnectorGateway \<Rightarrow> utext \<Rightarrow> bool" where
  "queued_now s command_id = (case dget (cg_commands s) command_id of None \<Rightarrow> False | Some c \<Rightarrow> gc_status c = CommandQueued)"

definition after_send :: "draw \<Rightarrow> utext \<Rightarrow> socket \<Rightarrow> int \<Rightarrow> utext \<Rightarrow> int gateway_call" where
  "after_send d device_id websocket generation command_id s =
     attempt (get_device_record s device_id) s (\<lambda>device.
       case dget (cg_commands s) command_id of
         None \<Rightarrow> (Inr 0, s)
       | Some c \<Rightarrow>
           if connection_current s device_id websocket generation device \<and> gc_status c = CommandQueued
           then (Inr 1, s\<lparr>cg_commands := dput (cg_commands s) command_id (mark_delivered (dr_now d) c)\<rparr>)
           else (Inr 0, s))"

fun deliver_loop :: "draw \<Rightarrow> network \<Rightarrow> utext \<Rightarrow> socket \<Rightarrow> int \<Rightarrow> nat \<Rightarrow> utext list \<Rightarrow> ConnectorGateway \<Rightarrow> int result \<times> frame list \<times> ConnectorGateway" where
  "deliver_loop d net device_id websocket generation n [] s = (Inr 0, [], s)"
| "deliver_loop d net device_id websocket generation n (command_id # rest) s =
     (case bindR (get_device_record s device_id) (\<lambda>device. bindR (ensure_not_revoked device) (\<lambda>_. Inr device)) of
        Inl e \<Rightarrow> (Inl e, [], s)
      | Inr device \<Rightarrow>
          if \<not> connection_current s device_id websocket generation device \<or> \<not> queued_now s command_id
          then deliver_loop d net device_id websocket generation n rest s
          else
            let device = device\<lparr>gd_outbound_sequence := gd_outbound_sequence device + 1\<rparr>;
                f = \<lparr>fr_device_id = device_id, fr_sequence = gd_outbound_sequence device, fr_message_id = command_id\<rparr>;
                s1 = (snd (net n)) (s\<lparr>cg_devices := dput (cg_devices s) device_id device\<rparr>) in
            if fst (net n) then (Inr 0, [f], s1)
            else (case after_send d device_id websocket generation command_id s1 of
                (Inl e, s2) \<Rightarrow> (Inl e, [f], s2)
              | (Inr k, s2) \<Rightarrow>
                  (case deliver_loop d net device_id websocket generation (Suc n) rest s2 of
                     (r, fs, s3) \<Rightarrow> (bindR r (\<lambda>m. Inr (k + m)), f # fs, s3))))"

definition deliver_pending :: "draw \<Rightarrow> network \<Rightarrow> utext \<Rightarrow> ConnectorGateway \<Rightarrow> int result \<times> frame list \<times> ConnectorGateway" where
  "deliver_pending d net device_id s =
     (case bindR (get_device_record s device_id) (\<lambda>device. bindR (ensure_not_revoked device) (\<lambda>_. Inr device)) of
        Inl e \<Rightarrow> (Inl e, [], s)
      | Inr device \<Rightarrow>
          let generation = gd_connection_generation device;
              ready = (dget (cg_connection_ready_generations s) device_id = Some generation);
              queued = map fst (filter (\<lambda>(k, c). deliverable device_id c \<and> dr_now d < gc_expires_at c) (cg_commands s));
              s1 = s\<lparr>cg_commands := dmap (expire_command device_id (dr_now d)) (cg_commands s)\<rparr> in
          (case dget (cg_connections s) device_id of
             None \<Rightarrow> (Inr 0, [], s1)
           | Some websocket \<Rightarrow>
               if \<not> ready then (Inr 0, [], s1) else deliver_loop d net device_id websocket generation 0 queued s1))"

definition request_payload :: "draw \<Rightarrow> CommandAction \<Rightarrow> (string, json) dict \<Rightarrow> utext option \<Rightarrow> (string, json) dict" where
  "request_payload d action payload idempotency_key =
     (if action = TaskDispatch \<and> dget payload ''task'' = None \<and> dget payload ''request_id'' = None
      then dput payload ''request_id'' (JStr (case idempotency_key of Some k \<Rightarrow> if k = [] then new_id d ''request'' else k | None \<Rightarrow> new_id d ''request''))
      else payload)"

definition request_fingerprint :: "CommandAction \<Rightarrow> (string, json) dict \<Rightarrow> string result" where
  "request_fingerprint action payload =
     bindR (canonical_json_bytes (JObj [(''action'', JStr (ascii (action_value action))), (''payload'', JObj payload)])) (\<lambda>b. Inr (hexdigest (sha256 b)))"

definition queue_command :: "library \<Rightarrow> draw \<Rightarrow> network \<Rightarrow> utext \<Rightarrow> CommandAction \<Rightarrow> (string, json) dict \<Rightarrow> utext option \<Rightarrow> int
    \<Rightarrow> ConnectorGateway \<Rightarrow> public_command result \<times> frame list \<times> ConnectorGateway" where
  "queue_command l d net binding_id action payload0 idempotency_key expires_in_seconds s =
     (let payload = request_payload d action payload0 idempotency_key in
      case bindR (validate_command_payload l action payload) (\<lambda>_. request_fingerprint action payload) of
        Inl e \<Rightarrow> (Inl e, [], s)
      | Inr fingerprint \<Rightarrow>
          (case record_command l d binding_id action payload idempotency_key expires_in_seconds fingerprint s of
             (Inl e, s1) \<Rightarrow> (Inl e, [], s1)
           | (Inr command_id, s1) \<Rightarrow>
               (case dget (cg_commands s1) command_id of
                  None \<Rightarrow> (Inl (ConnectorError 404 ''Command not found''), [], s1)
                | Some c \<Rightarrow>
                    (case deliver_pending d (\<lambda>n. net (Suc n)) (gc_device_id c)
                            ((snd (net 0)) (s1\<lparr>cg_commands := dput (cg_commands s1) command_id (c\<lparr>gc_durable_ready := True\<rparr>)\<rparr>)) of
                       (Inl e, fs, s2) \<Rightarrow> (Inl e, fs, s2)
                     | (Inr _, fs, s2) \<Rightarrow>
                         (case dget (cg_commands s2) command_id of
                            None \<Rightarrow> (Inl (KeyError ''command''), fs, s2)
                          | Some c \<Rightarrow> (Inr (public_command.truncate c), fs, s2))))))"

section \<open>Transport\<close>

definition observe_inbound_sequence :: "draw \<Rightarrow> utext \<Rightarrow> int option \<Rightarrow> int option \<Rightarrow> unit gateway_call" where
  "observe_inbound_sequence d device_id sequence expected s =
     (case sequence of
        None \<Rightarrow> (Inr (), s)
      | Some n \<Rightarrow>
          attempt (active_device s device_id expected) s (\<lambda>device.
            let s1 = (case gd_last_inbound_sequence device of
                        Some previous \<Rightarrow>
                          if n > previous + 1 then append_audit d ''transport.sequence_gap'' (Some device_id)
                            [(''device_id'', JStr device_id), (''expected'', JInt (previous + 1)), (''received'', JInt n)] s
                          else s
                      | None \<Rightarrow> s) in
            (Inr (), if (case gd_last_inbound_sequence device of None \<Rightarrow> True | Some previous \<Rightarrow> n > previous)
                     then s1\<lparr>cg_devices := dput (cg_devices s1) device_id (device\<lparr>gd_last_inbound_sequence := Some n\<rparr>)\<rparr> else s1)))"

record resume_answer =
  ra_connection_generation :: int
  ra_gateway_sequence :: int
  ra_event_ack_through :: int
  ra_accepted_result_ids :: "utext list"
  ra_pending_command_ids :: "utext list"

definition resume_cursors :: "(string, json) dict \<Rightarrow> (int \<times> int \<times> utext list) result" where
  "resume_cursors payload =
     (if set (dkeys payload) \<noteq> {''last_gateway_sequence'', ''event_ack_through'', ''pending_result_ids''}
      then Inl (ConnectorError 422 ''Invalid transport resume payload'')
      else case (dget payload ''last_gateway_sequence'', dget payload ''event_ack_through'', dget payload ''pending_result_ids'') of
        (Some (JInt a), Some (JInt b), Some (JArr xs)) \<Rightarrow>
          if a < 0 \<or> b < 0 \<or> length xs > 512 \<or> list_ex (\<lambda>x. case x of JStr t \<Rightarrow> t = [] \<or> length t > 256 | _ \<Rightarrow> True) xs
          then Inl (ConnectorError 422 ''Invalid transport resume payload'')
          else Inr (a, b, map (\<lambda>x. case x of JStr t \<Rightarrow> t | _ \<Rightarrow> []) xs)
      | _ \<Rightarrow> Inl (ConnectorError 422 ''Invalid transport resume payload''))"

definition ack_watermark :: "ConnectorGateway \<Rightarrow> utext \<Rightarrow> int" where
  "ack_watermark s device_id = (case dget (cg_event_ack_watermarks s) device_id of None \<Rightarrow> 0 | Some w \<Rightarrow> w)"

definition resume_transport :: "draw \<Rightarrow> utext \<Rightarrow> (string, json) dict \<Rightarrow> int option \<Rightarrow> resume_answer gateway_call" where
  "resume_transport d device_id payload expected s =
     attempt (resume_cursors payload) s (\<lambda>(last_gateway_sequence, event_ack_through, pending_result_ids).
     attempt (active_device s device_id expected) s (\<lambda>device.
       let gateway_sequence = gd_outbound_sequence device; authoritative_event_ack = ack_watermark s device_id in
       if last_gateway_sequence > gateway_sequence then (Inl (ConnectorError 409 ''Connector resume cursor is ahead of the Gateway''), s)
       else if event_ack_through > authoritative_event_ack then (Inl (ConnectorError 409 ''Connector event resume cursor is ahead of the Gateway''), s)
       else
         let accepted = map gr_result_id (filter (\<lambda>r. gr_device_id r = device_id) (dvalues (cg_agent_task_results s)));
             pending_command_ids = sort (map gc_command_id (filter (\<lambda>c. gc_device_id c = device_id \<and> gc_status c = CommandQueued \<and> dr_now d < gc_expires_at c)
               (dvalues (cg_commands s)))) in
         (Inr \<lparr>ra_connection_generation = gd_connection_generation device, ra_gateway_sequence = gateway_sequence,
               ra_event_ack_through = authoritative_event_ack,
               ra_accepted_result_ids = sort (remdups (filter (\<lambda>r. r \<in> set pending_result_ids) accepted)),
               ra_pending_command_ids = pending_command_ids\<rparr>,
          append_audit d ''transport.resumed'' (Some device_id)
            [(''device_id'', JStr device_id), (''last_gateway_sequence'', JInt last_gateway_sequence), (''gateway_sequence'', JInt gateway_sequence),
             (''event_ack_through'', JInt authoritative_event_ack), (''pending_command_count'', JInt (int (length pending_command_ids)))] s)))"

text \<open>Waking the connector of a binding: the answer, the frames that were sent and the gateway.\<close>

definition wake_metadata :: "library \<Rightarrow> (string, json) dict \<Rightarrow> utext \<Rightarrow> int \<Rightarrow> (string, json) dict" where
  "wake_metadata l payload binding_id epoch =
     [(''wake_id'', JStr (text_member l payload ''wake_id'')), (''task_id'', JStr (text_member l payload ''task_id'')),
      (''binding_id'', JStr binding_id), (''binding_epoch'', JInt epoch)]"

definition wake_target :: "library \<Rightarrow> utext \<Rightarrow> (string, json) dict \<Rightarrow> ConnectorGateway \<Rightarrow> (int \<times> device) result" where
  "wake_target l binding_id payload s =
     (if set (dkeys payload) \<noteq> {''wake_id'', ''task_id'', ''binding_id'', ''binding_epoch'', ''deadline_at''}
      then Inl (ConnectorError 422 ''Invalid task.available payload'')
      else if dget payload ''binding_id'' \<noteq> Some (JStr binding_id) then Inl (ConnectorError 422 ''task.available binding_id mismatch'')
      else case dget (cg_bindings s) binding_id of
        None \<Rightarrow> Inl (ConnectorError 404 ''Binding not found'')
      | Some b \<Rightarrow>
          bindR (int_of l (member_or payload ''binding_epoch'' JNull)) (\<lambda>epoch.
          if epoch \<noteq> gb_binding_epoch b then Inl (ConnectorError 409 ''Stale Connector binding epoch'')
          else bindR (get_device_record s (gb_device_id b)) (\<lambda>device. bindR (ensure_not_revoked device) (\<lambda>_. Inr (epoch, device)))))"

definition ready_connection :: "ConnectorGateway \<Rightarrow> device \<Rightarrow> socket option" where
  "ready_connection s device =
     (if dget (cg_connection_ready_generations s) (gd_device_id device) = Some (gd_connection_generation device)
      then dget (cg_connections s) (gd_device_id device) else None)"

definition notify_task_available :: "library \<Rightarrow> draw \<Rightarrow> network \<Rightarrow> utext \<Rightarrow> (string, json) dict \<Rightarrow> ConnectorGateway \<Rightarrow> bool result \<times> frame list \<times> ConnectorGateway" where
  "notify_task_available l d net binding_id payload s =
     (case wake_target l binding_id payload s of
        Inl e \<Rightarrow> (Inl e, [], s)
      | Inr (epoch, device) \<Rightarrow>
          if ready_connection s device = None then (Inr False, [], s)
          else let device_id = gd_device_id device; s1 = (snd (net 0)) s in
            (case get_device_record s1 device_id of
               Inl e \<Rightarrow> (Inl e, [], s1)
             | Inr now_device \<Rightarrow>
                 if gd_connection_generation now_device \<noteq> gd_connection_generation device \<or> ready_connection s1 now_device \<noteq> ready_connection s device
                 then (Inr False, [], s1)
                 else
                   let now_device = now_device\<lparr>gd_outbound_sequence := gd_outbound_sequence now_device + 1\<rparr>;
                       f = \<lparr>fr_device_id = device_id, fr_sequence = gd_outbound_sequence now_device, fr_message_id = text_member l payload ''wake_id''\<rparr>;
                       s2 = (snd (net 1)) (s1\<lparr>cg_devices := dput (cg_devices s1) device_id now_device\<rparr>) in
                   if fst (net 1) then (Inr False, [f], s2)
                   else (Inr True, [f], append_audit d ''arena.task_available_sent'' (Some device_id) (wake_metadata l payload binding_id epoch) s2)))"

definition acknowledge_task_available :: "library \<Rightarrow> draw \<Rightarrow> utext \<Rightarrow> (string, json) dict \<Rightarrow> int option \<Rightarrow> utext gateway_call" where
  "acknowledge_task_available l d device_id payload expected s =
     (if set (dkeys payload) \<noteq> {''wake_id'', ''task_id'', ''binding_id'', ''binding_epoch''}
      then (Inl (ConnectorError 422 ''Invalid task.available acknowledgement''), s)
      else attempt (active_device s device_id expected) s (\<lambda>_.
        let binding_id = text_member l payload ''binding_id'' in
        case dget (cg_bindings s) binding_id of
          None \<Rightarrow> (Inl (ConnectorError 403 ''Wake binding does not belong to device''), s)
        | Some b \<Rightarrow>
            if gb_device_id b \<noteq> device_id then (Inl (ConnectorError 403 ''Wake binding does not belong to device''), s)
            else attempt (int_of l (member_or payload ''binding_epoch'' JNull)) s (\<lambda>epoch.
              if epoch \<noteq> gb_binding_epoch b then (Inl (ConnectorError 409 ''Stale Connector binding epoch''), s)
              else (Inr (text_member l payload ''wake_id''),
                    append_audit d ''arena.task_available_received'' (Some device_id) (wake_metadata l payload binding_id epoch) s))))"

section \<open>Acknowledgements\<close>

definition ack_status :: "CommandStatus \<Rightarrow> bool" where
  "ack_status s \<longleftrightarrow> s \<in> {CommandAccepted, CommandRunning, CommandSucceeded, CommandFailed, CommandRejected}"

fun ack_transition :: "CommandStatus \<Rightarrow> CommandStatus \<Rightarrow> bool" where
  "ack_transition CommandQueued s = ack_status s"
| "ack_transition CommandDelivered s = ack_status s"
| "ack_transition CommandAccepted s = ack_status s"
| "ack_transition CommandRunning s = (s \<in> {CommandRunning, CommandSucceeded, CommandFailed, CommandRejected})"
| "ack_transition CommandSucceeded s = (s = CommandSucceeded)"
| "ack_transition CommandFailed s = (s = CommandFailed)"
| "ack_transition CommandRejected s = (s = CommandRejected)"
| "ack_transition CommandExpired s = False"

definition ack_error_value :: "CommandStatus \<Rightarrow> (string, json) dict \<Rightarrow> json option" where
  "ack_error_value status payload =
     (case not_none (dget payload ''error'') of
        Some e \<Rightarrow> Some e
      | None \<Rightarrow>
          if status = CommandFailed \<or> status = CommandRejected
          then Some (JObj [(''code'', member_or payload ''code'' (JStr [])), (''message'', member_or payload ''message'' (JStr []))])
          else None)"

definition result_member :: "(string, json) dict \<Rightarrow> string \<Rightarrow> json option" where
  "result_member payload k = (case dget payload ''result'' of Some (JObj r) \<Rightarrow> dget r k | _ \<Rightarrow> None)"

definition truthy_member :: "json option \<Rightarrow> json option" where
  "truthy_member v = (if json_truthy v then v else None)"

definition lifecycle_action :: "CommandAction \<Rightarrow> bool" where
  "lifecycle_action a \<longleftrightarrow> a = SessionStart \<or> a = SessionResume"

definition older_than_restart :: "command \<Rightarrow> binding \<Rightarrow> bool" where
  "older_than_restart c b \<longleftrightarrow> lifecycle_action (gc_action c) \<and> gc_session_generation c < gb_session_generation b"

definition older_than_stop :: "command \<Rightarrow> binding \<Rightarrow> bool" where
  "older_than_stop c b = (case gb_last_stopped_command_created_at b of None \<Rightarrow> False | Some t \<Rightarrow> gc_created_at c \<le> t)"

definition ack_session :: "library \<Rightarrow> command \<Rightarrow> (string, json) dict \<Rightarrow> binding \<Rightarrow> binding" where
  "ack_session l c payload b =
     (let session_id = (if json_truthy (dget payload ''session_id'') then dget payload ''session_id'' else truthy_member (result_member payload ''session_id''));
          b = (case session_id of
                 None \<Rightarrow> b
               | Some v \<Rightarrow> if older_than_restart c b then b else b\<lparr>gb_last_session_id := Some (take 128 (str_of (l_repr l) v))\<rparr>) in
      case truthy_member (result_member payload ''task_id'') of
        None \<Rightarrow> b
      | Some v \<Rightarrow> b\<lparr>gb_last_task_id := Some (take 128 (str_of (l_repr l) v))\<rparr>)"

definition session_was_lost :: "library \<Rightarrow> CommandStatus \<Rightarrow> json option \<Rightarrow> bool" where
  "session_was_lost l status error_value \<longleftrightarrow>
     (status = CommandFailed \<or> status = CommandRejected)
     \<and> (case error_value of Some (JObj e) \<Rightarrow> text_member l e ''code'' | _ \<Rightarrow> []) \<in> {ascii ''connector_restarted'', ascii ''session_not_found'', ascii ''stale_binding''}"

definition ack_lifecycle :: "command \<Rightarrow> CommandStatus \<Rightarrow> bool \<Rightarrow> binding \<Rightarrow> binding" where
  "ack_lifecycle c status lost b =
     (let action = gc_action c; terminal_failure = (status = CommandFailed \<or> status = CommandRejected) in
      if action = SessionStop \<and> status = CommandSucceeded
      then b\<lparr>gb_status := BindingStopped, gb_last_stopped_command_created_at := Some (gc_created_at c), gb_last_task_id := None\<rparr>
      else if lifecycle_action action \<and> \<not> older_than_stop c b \<and> \<not> older_than_restart c b
      then if status \<in> {CommandAccepted, CommandRunning, CommandSucceeded} then b\<lparr>gb_status := BindingRunning\<rparr>
           else if terminal_failure then b\<lparr>gb_status := BindingDegraded\<rparr> else b
      else if lost then b\<lparr>gb_status := BindingDegraded, gb_last_session_id := None, gb_last_task_id := None\<rparr>
      else if action = TaskDispatch \<and> gb_status b \<noteq> BindingStopped \<and> ack_status status then b\<lparr>gb_status := BindingRunning\<rparr>
      else if (action = RuntimeProbe \<or> action = SessionStop) \<and> terminal_failure \<and> gb_status b \<noteq> BindingStopped
      then b\<lparr>gb_status := BindingDegraded\<rparr>
      else b)"

definition ack_binding :: "library \<Rightarrow> int \<Rightarrow> command \<Rightarrow> CommandStatus \<Rightarrow> (string, json) dict \<Rightarrow> binding \<Rightarrow> binding" where
  "ack_binding l now c status payload b0 =
     (let b = ack_lifecycle c status (session_was_lost l status (ack_error_value status payload)) (ack_session l c payload b0);
          finished = (gc_action c = TaskDispatch \<and> status \<in> {CommandSucceeded, CommandFailed, CommandRejected}
            \<and> (case truthy_member (result_member payload ''task_id'') of None \<Rightarrow> False | Some v \<Rightarrow> gb_last_task_id b = Some (str_of (l_repr l) v))) in
      b\<lparr>gb_last_task_id := (if finished then None else gb_last_task_id b), gb_updated_at := now\<rparr>)"

definition acknowledge_command :: "library \<Rightarrow> draw \<Rightarrow> utext \<Rightarrow> (string, json) dict \<Rightarrow> int option \<Rightarrow> public_command gateway_call" where
  "acknowledge_command l d device_id payload expected s =
     attempt (active_device s device_id expected) s (\<lambda>_.
       let command_id = text_member l payload ''command_id'' in
       case dget (cg_commands s) command_id of
         None \<Rightarrow> (Inl (ConnectorError 404 ''Command not found for this device''), s)
       | Some c \<Rightarrow>
           if gc_device_id c \<noteq> device_id then (Inl (ConnectorError 404 ''Command not found for this device''), s)
           else attempt (int_of l (member_or payload ''binding_epoch'' (JInt (gc_binding_epoch c)))) s (\<lambda>epoch.
             if epoch \<noteq> gc_binding_epoch c then (Inl (ConnectorError 409 ''Stale binding epoch''), s)
             else case parse_status (text_member l payload ''status'') of
               None \<Rightarrow> (Inl (ConnectorError 422 ''Invalid command status''), s)
             | Some status \<Rightarrow>
                 if \<not> ack_status status then (Inl (ConnectorError 422 ''Connector cannot set that command status''), s)
                 else if \<not> ack_transition (gc_status c) status then (Inl (ConnectorError 409 ''Invalid command transition''), s)
                 else
                   let c' = c\<lparr>gc_status := status, gc_updated_at := dr_now d, gc_result := not_none (dget payload ''result''),
                              gc_error := safe_error l (ack_error_value status payload)\<rparr>;
                       s1 = s\<lparr>cg_commands := dput (cg_commands s) command_id c',
                              cg_bindings := (case dget (cg_bindings s) (gc_binding_id c) of
                                 None \<Rightarrow> cg_bindings s
                               | Some b \<Rightarrow> dput (cg_bindings s) (gc_binding_id c) (ack_binding l (dr_now d) c status payload b))\<rparr> in
                   (Inr (public_command.truncate c'),
                    append_audit d ''command.acknowledged'' (Some device_id)
                      [(''command_id'', JStr command_id), (''status'', JStr (ascii (status_value status)))] s1)))"

section \<open>Results\<close>

datatype disposition = ResultAccepted | ResultReplay

definition dispatched_task :: "utext \<Rightarrow> utext \<Rightarrow> command \<Rightarrow> bool" where
  "dispatched_task binding_id task_id c \<longleftrightarrow> gc_binding_id c = binding_id \<and> gc_action c = TaskDispatch
     \<and> (case dget (gc_payload c) ''task'' of Some (JObj t) \<Rightarrow> dget t ''taskId'' = Some (JStr task_id) | _ \<Rightarrow> False)"

definition submit_agent_task_result :: "library \<Rightarrow> draw \<Rightarrow> utext \<Rightarrow> (string, json) dict \<Rightarrow> int option \<Rightarrow> (agent_task_result \<times> disposition) gateway_call" where
  "submit_agent_task_result l d device_id payload expected s =
     attempt (active_device s device_id expected) s (\<lambda>_.
       let binding_id = text_member l payload ''binding_id'' in
       case dget (cg_bindings s) binding_id of
         None \<Rightarrow> (Inl (ConnectorError 404 ''Binding not found for this device''), s)
       | Some b \<Rightarrow>
           if gb_device_id b \<noteq> device_id then (Inl (ConnectorError 404 ''Binding not found for this device''), s)
           else case int_of l (member_or payload ''binding_epoch'' (JInt 0)) of
             Inl _ \<Rightarrow> (Inl (ConnectorError 422 ''binding_epoch must be a positive integer''), s)
           | Inr binding_epoch \<Rightarrow>
               if binding_epoch \<noteq> gb_binding_epoch b then (Inl (ConnectorError 409 ''Stale binding epoch''), s)
               else case l_result l (dget payload ''result'') of
                 None \<Rightarrow> (Inl (ConnectorError 422 ''result must be a valid arena.agent-result.v1 payload''), s)
               | Some (task_id, result_id, result_payload) \<Rightarrow>
                   (case find (dispatched_task binding_id task_id) (dvalues (cg_commands s)) of
                      None \<Rightarrow> (Inl (ConnectorError 409 ''AgentTaskResult does not match a typed task dispatched to this binding''), s)
                    | Some dispatched \<Rightarrow>
                        attempt (bindR (canonical_json_bytes result_payload) (\<lambda>b. Inr (hexdigest (sha256 b)))) s (\<lambda>result_hash.
                        case dget (cg_agent_task_results s) task_id of
                          Some existing \<Rightarrow>
                            if gr_result_hash existing \<noteq> result_hash then (Inl (ConnectorError 409 ''AgentTask already has a different terminal result''), s)
                            else (Inr (existing, ResultReplay), s)
                        | None \<Rightarrow>
                            let r = \<lparr>gr_task_id = task_id, gr_result_id = result_id, gr_binding_id = binding_id, gr_binding_epoch = binding_epoch,
                                     gr_device_id = device_id, gr_command_id = gc_command_id dispatched, gr_result = result_payload,
                                     gr_result_hash = result_hash, gr_received_at = dr_now d\<rparr> in
                            (Inr (r, ResultAccepted),
                             append_audit d ''agent_task.result_received'' (Some device_id)
                               [(''task_id'', JStr task_id), (''result_id'', JStr result_id), (''binding_id'', JStr binding_id)]
                               (s\<lparr>cg_agent_task_results := dput (cg_agent_task_results s) task_id r\<rparr>)))))"

section \<open>Events\<close>

text \<open>The loop that moves the acknowledged prefix over the pending sequences.\<close>

function advance :: "int \<Rightarrow> int list \<Rightarrow> int \<times> int list" where
  "advance watermark pending =
     (if watermark + 1 \<in> set pending then advance (watermark + 1) (removeAll (watermark + 1) pending) else (watermark, pending))"
  by pat_completeness auto

termination
proof (relation "measure (\<lambda>(w, p). length p)", goal_cases)
  case (2 w p)
  then have "length (removeAll (w + 1) p) < length p" using length_removeAll_less by fast
  then show ?case by simp
qed simp

declare advance.simps [simp del]

text \<open>An answer: a retained event, a sequence that is no longer retained, or the new event; each with the acknowledged prefix.\<close>

datatype event_answer = EventRetained runtime_event int | EventDuplicate int int | EventRecorded runtime_event int

definition pending_of :: "ConnectorGateway \<Rightarrow> utext \<Rightarrow> int list" where
  "pending_of s device_id = (case dget (cg_event_pending_sequences s) device_id of None \<Rightarrow> [] | Some p \<Rightarrow> p)"

definition with_pending :: "ConnectorGateway \<Rightarrow> utext \<Rightarrow> ConnectorGateway" where
  "with_pending s device_id = s\<lparr>cg_event_pending_sequences := dput (cg_event_pending_sequences s) device_id (pending_of s device_id)\<rparr>"

definition same_event :: "utext \<Rightarrow> utext \<Rightarrow> int \<Rightarrow> runtime_event \<Rightarrow> bool" where
  "same_event device_id supplied_event_id sequence e \<longleftrightarrow>
     ge_device_id e = device_id \<and> (supplied_event_id \<noteq> [] \<and> ge_source_event_id e = Some supplied_event_id \<or> ge_sequence e = sequence)"

definition new_event :: "library \<Rightarrow> draw \<Rightarrow> utext \<Rightarrow> (string, json) dict \<Rightarrow> int \<Rightarrow> runtime_event" where
  "new_event l d device_id payload sequence =
     \<lparr>ge_event_id = new_id d ''event'', ge_source_event_id = optional_text (take 128 (text_member l payload ''event_id'')), ge_device_id = device_id,
      ge_binding_id = text_member l payload ''binding_id'', ge_session_id = optional_text (take 128 (text_member l payload ''session_id'')),
      ge_task_id = optional_text (take 128 (text_member l payload ''task_id'')), ge_sequence = sequence,
      ge_event_type = take 128 (text_member l payload ''event_type''),
      ge_level = take 32 (case dget payload ''level'' of None \<Rightarrow> ascii ''info'' | Some v \<Rightarrow> str_of (l_repr l) v),
      ge_data = bounded_event_data l (member_or payload ''data'' (JObj [])),
      ge_occurred_at = (if json_truthy (dget payload ''occurred_at'') then Reported (text_member l payload ''occurred_at'') else Observed (dr_now d)),
      ge_received_at = dr_now d\<rparr>"

definition finish_task :: "runtime_event \<Rightarrow> binding \<Rightarrow> binding" where
  "finish_task e b =
     (if ge_event_type e \<in> {ascii ''process.exited'', ascii ''runtime.task.completed'', ascii ''task.completed''}
         \<and> ge_task_id e \<noteq> None \<and> gb_last_task_id b = ge_task_id e
      then b\<lparr>gb_last_task_id := None, gb_updated_at := ge_received_at e\<rparr> else b)"

definition record_event :: "device \<Rightarrow> binding \<Rightarrow> runtime_event \<Rightarrow> event_answer gateway_call" where
  "record_event device b e s =
     (let device_id = ge_device_id e;
          (watermark, pending) = advance (ack_watermark s device_id) (List.insert (ge_sequence e) (pending_of s device_id)) in
      (Inr (EventRecorded e watermark),
       s\<lparr>cg_event_ack_watermarks := dput (cg_event_ack_watermarks s) device_id watermark,
         cg_event_pending_sequences := dput (cg_event_pending_sequences s) device_id pending,
         cg_devices := dput (cg_devices s) device_id (device\<lparr>gd_event_ack_watermark := watermark, gd_event_pending_sequences := sort pending\<rparr>),
         cg_events := trim_log (cg_events s @ [e]),
         cg_bindings := dput (cg_bindings s) (ge_binding_id e) (finish_task e b)\<rparr>))"

definition append_runtime_event :: "library \<Rightarrow> draw \<Rightarrow> utext \<Rightarrow> (string, json) dict \<Rightarrow> int option \<Rightarrow> event_answer gateway_call" where
  "append_runtime_event l d device_id payload expected s0 =
     attempt (active_device s0 device_id expected) s0 (\<lambda>device.
       let binding_id = text_member l payload ''binding_id'' in
       case dget (cg_bindings s0) binding_id of
         None \<Rightarrow> (Inl (ConnectorError 404 ''Binding not found for this device''), s0)
       | Some b \<Rightarrow>
           if gb_device_id b \<noteq> device_id then (Inl (ConnectorError 404 ''Binding not found for this device''), s0)
           else if take 128 (text_member l payload ''event_type'') = [] then (Inl (ConnectorError 422 ''event_type is required''), s0)
           else case int_of l (member_or payload ''sequence'' (JInt 0)) of
             Inl _ \<Rightarrow> (Inl (ConnectorError 422 ''runtime event sequence must be a positive integer''), s0)
           | Inr sequence \<Rightarrow>
               if sequence \<le> 0 then (Inl (ConnectorError 422 ''runtime event sequence must be a positive integer''), s0)
               else
                 let s = with_pending s0 device_id in
                 (case find (same_event device_id (take 128 (text_member l payload ''event_id'')) sequence) (cg_events s) of
                    Some existing \<Rightarrow> (Inr (EventRetained existing (ack_watermark s device_id)), s)
                  | None \<Rightarrow>
                      if sequence \<le> ack_watermark s device_id \<or> sequence \<in> set (pending_of s device_id)
                      then (Inr (EventDuplicate sequence (ack_watermark s device_id)), s)
                      else record_event device b (new_event l d device_id payload sequence) s))"

end
