(* ===== verification/Arena_Gateway_Invariant.thy ===== *)
theory Arena_Gateway_Invariant
  imports Arena_Gateway
begin

text \<open>
  What the steps of the connector gateway keep: the step function over the blocks that run under its lock, how a step
  changes devices, commands, bindings, results, events and pairings, and the invariant of a run.
\<close>

section \<open>Steps\<close>

text \<open>
  The blocks of the gateway that run under its lock. A call that waits, for its turn to send or for a frame to be sent, is
  several of them: recording a command, marking it ready, collecting what is due, numbering a frame and marking a
  command as delivered.
\<close>

datatype gateway_op =
    CreatePairing draw "utext option" utext
  | ApprovePairing draw utext utext
  | ExchangePairing draw utext
  | ConnectDevice draw utext socket
  | DisconnectDevice draw utext socket
  | Hello draw utext "(string, json) dict" "int option"
  | Heartbeat draw utext "(string, json) dict" "int option"
  | UpdateInventory draw utext "RuntimeInventoryItem list" "json option" "int option"
  | RevokeDevice draw utext utext
  | MarkTransportReady utext int
  | CreateBinding draw utext utext "utext option" "utext option" "utext option"
  | RecordCommand draw utext CommandAction "(string, json) dict" "utext option" int
  | MarkDurable utext
  | CollectQueued utext int
  | NumberFrame utext
  | AfterSend draw utext socket int utext
  | ObserveSequence draw utext "int option" "int option"
  | ResumeTransport draw utext "(string, json) dict" "int option"
  | AuditWake draw utext "(string, json) dict"
  | AcknowledgeWake draw utext "(string, json) dict" "int option"
  | AcknowledgeCommand draw utext "(string, json) dict" "int option"
  | SubmitResult draw utext "(string, json) dict" "int option"
  | AppendEvent draw utext "(string, json) dict" "int option"

definition mark_durable :: "utext \<Rightarrow> ConnectorGateway \<Rightarrow> ConnectorGateway" where
  "mark_durable command_id s =
     (case dget (cg_commands s) command_id of None \<Rightarrow> s | Some c \<Rightarrow> s\<lparr>cg_commands := dput (cg_commands s) command_id (c\<lparr>gc_durable_ready := True\<rparr>)\<rparr>)"

definition collect_queued :: "utext \<Rightarrow> int \<Rightarrow> ConnectorGateway \<Rightarrow> ConnectorGateway" where
  "collect_queued device_id now s = s\<lparr>cg_commands := dmap (expire_command device_id now) (cg_commands s)\<rparr>"

definition number_frame :: "utext \<Rightarrow> ConnectorGateway \<Rightarrow> ConnectorGateway" where
  "number_frame device_id s =
     (case dget (cg_devices s) device_id of
        None \<Rightarrow> s
      | Some device \<Rightarrow> s\<lparr>cg_devices := dput (cg_devices s) device_id (device\<lparr>gd_outbound_sequence := gd_outbound_sequence device + 1\<rparr>)\<rparr>)"

definition checked_record :: "library \<Rightarrow> draw \<Rightarrow> utext \<Rightarrow> CommandAction \<Rightarrow> (string, json) dict \<Rightarrow> utext option \<Rightarrow> int \<Rightarrow> utext gateway_call" where
  "checked_record l d binding_id action payload idempotency_key expires_in_seconds s =
     attempt (bindR (validate_command_payload l action payload) (\<lambda>_. request_fingerprint action payload)) s
       (\<lambda>fingerprint. record_command l d binding_id action payload idempotency_key expires_in_seconds fingerprint s)"

fun gateway_step :: "library \<Rightarrow> gateway_op \<Rightarrow> ConnectorGateway \<Rightarrow> ConnectorGateway" where
  "gateway_step l (CreatePairing d q n) s = snd (create_pairing d q n s)"
| "gateway_step l (ApprovePairing d c q) s = snd (approve_pairing l d c q s)"
| "gateway_step l (ExchangePairing d c) s = snd (exchange_pairing l d c s)"
| "gateway_step l (ConnectDevice d k w) s = snd (connect_device d k w s)"
| "gateway_step l (DisconnectDevice d k w) s = disconnect_device d k w s"
| "gateway_step l (Hello d k p g) s = snd (apply_hello l d k p g s)"
| "gateway_step l (Heartbeat d k p g) s = snd (heartbeat l d k p g s)"
| "gateway_step l (UpdateInventory d k rs h g) s = snd (update_inventory l d k rs h g s)"
| "gateway_step l (RevokeDevice d k q) s = snd (revoke_device d k q s)"
| "gateway_step l (MarkTransportReady k g) s = snd (mark_transport_ready k g s)"
| "gateway_step l (CreateBinding d k r a n w) s = snd (create_binding d k r a n w s)"
| "gateway_step l (RecordCommand d b a p i e) s = snd (checked_record l d b a p i e s)"
| "gateway_step l (MarkDurable c) s = mark_durable c s"
| "gateway_step l (CollectQueued k t) s = collect_queued k t s"
| "gateway_step l (NumberFrame k) s = number_frame k s"
| "gateway_step l (AfterSend d k w g c) s = snd (after_send d k w g c s)"
| "gateway_step l (ObserveSequence d k n g) s = snd (observe_inbound_sequence d k n g s)"
| "gateway_step l (ResumeTransport d k p g) s = snd (resume_transport d k p g s)"
| "gateway_step l (AuditWake d k m) s = append_audit d ''arena.task_available_sent'' (Some k) m s"
| "gateway_step l (AcknowledgeWake d k p g) s = snd (acknowledge_task_available l d k p g s)"
| "gateway_step l (AcknowledgeCommand d k p g) s = snd (acknowledge_command l d k p g s)"
| "gateway_step l (SubmitResult d k p g) s = snd (submit_agent_task_result l d k p g s)"
| "gateway_step l (AppendEvent d k p g) s = snd (append_runtime_event l d k p g s)"

text \<open>The random identifiers that a step draws are new.\<close>

fun gateway_ok :: "gateway_op \<Rightarrow> ConnectorGateway \<Rightarrow> bool" where
  "gateway_ok (CreatePairing d q n) s \<longleftrightarrow> unique_user_code (remove_expired_pairings (dr_now d) s) (dr_user_code d)
     \<and> (\<forall>h. digest_secret (dr_secret d) = Inr h \<longrightarrow> dget (cg_pairings_by_device_code s) h = None)"
| "gateway_ok (ExchangePairing d c) s \<longleftrightarrow> dget (cg_devices s) (new_id d ''device'') = None"
| "gateway_ok (CreateBinding d k r a n w) s \<longleftrightarrow> dget (cg_bindings s) (new_id d ''binding'') = None"
| "gateway_ok (RecordCommand d b a p i e) s \<longleftrightarrow> dget (cg_commands s) (new_id d ''cmd'') = None
     \<and> (\<forall>c \<in> set (dvalues (cg_commands s)). gc_idempotency_key c \<noteq> new_id d ''cmd'')"
| "gateway_ok _ s \<longleftrightarrow> True"

lemma append_audit_simps [simp]:
  "cg_pairings (append_audit d a b m s) = cg_pairings s" "cg_pairings_by_device_code (append_audit d a b m s) = cg_pairings_by_device_code s"
  "cg_devices (append_audit d a b m s) = cg_devices s" "cg_bindings (append_audit d a b m s) = cg_bindings s"
  "cg_commands (append_audit d a b m s) = cg_commands s" "cg_agent_task_results (append_audit d a b m s) = cg_agent_task_results s"
  "cg_events (append_audit d a b m s) = cg_events s" "cg_connections (append_audit d a b m s) = cg_connections s"
  "cg_connection_sets (append_audit d a b m s) = cg_connection_sets s"
  "cg_connection_ready_generations (append_audit d a b m s) = cg_connection_ready_generations s"
  "cg_event_ack_watermarks (append_audit d a b m s) = cg_event_ack_watermarks s"
  "cg_event_pending_sequences (append_audit d a b m s) = cg_event_pending_sequences s"
  by (simp_all add: append_audit_def)

lemma dget_dmap [simp]: "dget (dmap f d) k = map_option f (dget d k)"
  by (induction d) (auto simp: dmap_def)

lemma dkeys_dmap [simp]: "dkeys (dmap f d) = dkeys d"
  by (induction d) (auto simp: dmap_def)

lemma dvalues_dmap [simp]: "dvalues (dmap f d) = map f (dvalues d)"
  by (induction d) (auto simp: dmap_def)

lemma active_device_iff:
  "active_device s k g = Inr dv \<longleftrightarrow> dget (cg_devices s) k = Some dv \<and> gd_revoked_at dv = None \<and> (g = None \<or> g = Some (gd_connection_generation dv))"
  by (auto simp: active_device_def get_device_record_def ensure_not_revoked_def ensure_connection_generation_def result_simps split: option.splits)

lemma live_device_iff:
  "bindR (get_device_record s k) (\<lambda>device. bindR (ensure_not_revoked device) (\<lambda>_. Inr device)) = Inr dv
    \<longleftrightarrow> dget (cg_devices s) k = Some dv \<and> gd_revoked_at dv = None"
  by (auto simp: get_device_record_def ensure_not_revoked_def result_simps split: option.splits)

lemma snd_attempt: "snd (attempt r s f) = (case r of Inl e \<Rightarrow> s | Inr x \<Rightarrow> snd (f x))"
  by (simp add: attempt_def split: sum.splits)

lemma snd_if: "snd (if c then x else y) = (if c then snd x else snd y)"
  by simp

lemma snd_option: "snd (case v of None \<Rightarrow> x | Some y \<Rightarrow> f y) = (case v of None \<Rightarrow> snd x | Some y \<Rightarrow> snd (f y))"
  by (simp split: option.splits)

lemma snd_sum: "snd (case v of Inl e \<Rightarrow> f e | Inr y \<Rightarrow> g y) = (case v of Inl e \<Rightarrow> snd (f e) | Inr y \<Rightarrow> snd (g y))"
  by (simp split: sum.splits)

lemmas snd_simps = snd_attempt snd_if snd_option snd_sum

section \<open>What a step leaves alone\<close>

lemma fold_expired:
  fixes items :: "(utext \<times> pairing) list" and now :: int
  defines "f \<equiv> (\<lambda>(code, r) s. if expired_pairing now r
         then s\<lparr>cg_pairings_by_device_code := ddel (cg_pairings_by_device_code s) (gp_device_code_hash r), cg_pairings := ddel (cg_pairings s) code\<rparr> else s)"
  shows "cg_devices (fold f items s) = cg_devices s" "cg_bindings (fold f items s) = cg_bindings s" "cg_commands (fold f items s) = cg_commands s"
    "cg_agent_task_results (fold f items s) = cg_agent_task_results s" "cg_events (fold f items s) = cg_events s"
    "cg_event_ack_watermarks (fold f items s) = cg_event_ack_watermarks s" "cg_event_pending_sequences (fold f items s) = cg_event_pending_sequences s"
    "cg_connections (fold f items s) = cg_connections s"
  unfolding f_def by (induction items arbitrary: s) auto

lemma remove_expired_simps [simp]:
  "cg_devices (remove_expired_pairings now s) = cg_devices s" "cg_bindings (remove_expired_pairings now s) = cg_bindings s"
  "cg_commands (remove_expired_pairings now s) = cg_commands s" "cg_agent_task_results (remove_expired_pairings now s) = cg_agent_task_results s"
  "cg_events (remove_expired_pairings now s) = cg_events s" "cg_event_ack_watermarks (remove_expired_pairings now s) = cg_event_ack_watermarks s"
  "cg_event_pending_sequences (remove_expired_pairings now s) = cg_event_pending_sequences s" "cg_connections (remove_expired_pairings now s) = cg_connections s"
  unfolding remove_expired_pairings_def by (rule fold_expired)+

lemma pairing_step_simps [simp]:
  "cg_devices (snd (create_pairing d q n s)) = cg_devices s" "cg_bindings (snd (create_pairing d q n s)) = cg_bindings s"
  "cg_commands (snd (create_pairing d q n s)) = cg_commands s" "cg_agent_task_results (snd (create_pairing d q n s)) = cg_agent_task_results s"
  "cg_events (snd (create_pairing d q n s)) = cg_events s" "cg_event_ack_watermarks (snd (create_pairing d q n s)) = cg_event_ack_watermarks s"
  "cg_event_pending_sequences (snd (create_pairing d q n s)) = cg_event_pending_sequences s"
  "cg_devices (snd (approve_pairing l d c u s)) = cg_devices s" "cg_bindings (snd (approve_pairing l d c u s)) = cg_bindings s"
  "cg_commands (snd (approve_pairing l d c u s)) = cg_commands s" "cg_agent_task_results (snd (approve_pairing l d c u s)) = cg_agent_task_results s"
  "cg_events (snd (approve_pairing l d c u s)) = cg_events s" "cg_event_ack_watermarks (snd (approve_pairing l d c u s)) = cg_event_ack_watermarks s"
  "cg_event_pending_sequences (snd (approve_pairing l d c u s)) = cg_event_pending_sequences s"
  "cg_bindings (snd (exchange_pairing l d c s)) = cg_bindings s" "cg_commands (snd (exchange_pairing l d c s)) = cg_commands s"
  "cg_agent_task_results (snd (exchange_pairing l d c s)) = cg_agent_task_results s" "cg_events (snd (exchange_pairing l d c s)) = cg_events s"
  "cg_event_ack_watermarks (snd (exchange_pairing l d c s)) = cg_event_ack_watermarks s"
  "cg_event_pending_sequences (snd (exchange_pairing l d c s)) = cg_event_pending_sequences s"
  by (simp_all add: create_pairing_def approve_pairing_def exchange_pairing_def Let_def snd_simps split: sum.splits option.splits)

lemma exchange_devices:
  "cg_devices (snd (exchange_pairing l d c s)) = cg_devices s
   \<or> (\<exists>r h. cg_devices (snd (exchange_pairing l d c s)) = dput (cg_devices s) (new_id d ''device'') (enrolled_device d r h))"
  by (auto simp: exchange_pairing_def Let_def snd_simps enrolled_device_def split: sum.splits option.splits)

lemma connection_step_simps [simp]:
  "cg_bindings (snd (connect_device d k w s)) = cg_bindings s" "cg_agent_task_results (snd (connect_device d k w s)) = cg_agent_task_results s"
  "cg_events (snd (connect_device d k w s)) = cg_events s" "cg_event_ack_watermarks (snd (connect_device d k w s)) = cg_event_ack_watermarks s"
  "cg_event_pending_sequences (snd (connect_device d k w s)) = cg_event_pending_sequences s"
  "cg_pairings (snd (connect_device d k w s)) = cg_pairings s" "cg_pairings_by_device_code (snd (connect_device d k w s)) = cg_pairings_by_device_code s"
  "cg_bindings (disconnect_device d k w s) = cg_bindings s" "cg_agent_task_results (disconnect_device d k w s) = cg_agent_task_results s"
  "cg_commands (disconnect_device d k w s) = cg_commands s"
  "cg_events (disconnect_device d k w s) = cg_events s" "cg_event_ack_watermarks (disconnect_device d k w s) = cg_event_ack_watermarks s"
  "cg_event_pending_sequences (disconnect_device d k w s) = cg_event_pending_sequences s"
  "cg_pairings (disconnect_device d k w s) = cg_pairings s" "cg_pairings_by_device_code (disconnect_device d k w s) = cg_pairings_by_device_code s"
  by (simp_all add: connect_device_def disconnect_device_def Let_def snd_simps split: sum.splits option.splits)

lemma device_step_simps [simp]:
  "cg_commands (snd (apply_hello l d k p g s)) = cg_commands s" "cg_agent_task_results (snd (apply_hello l d k p g s)) = cg_agent_task_results s"
  "cg_events (snd (apply_hello l d k p g s)) = cg_events s" "cg_event_ack_watermarks (snd (apply_hello l d k p g s)) = cg_event_ack_watermarks s"
  "cg_event_pending_sequences (snd (apply_hello l d k p g s)) = cg_event_pending_sequences s"
  "cg_pairings (snd (apply_hello l d k p g s)) = cg_pairings s" "cg_pairings_by_device_code (snd (apply_hello l d k p g s)) = cg_pairings_by_device_code s"
  "cg_commands (snd (heartbeat l d k p g s)) = cg_commands s" "cg_agent_task_results (snd (heartbeat l d k p g s)) = cg_agent_task_results s"
  "cg_events (snd (heartbeat l d k p g s)) = cg_events s" "cg_event_ack_watermarks (snd (heartbeat l d k p g s)) = cg_event_ack_watermarks s"
  "cg_event_pending_sequences (snd (heartbeat l d k p g s)) = cg_event_pending_sequences s" "cg_bindings (snd (heartbeat l d k p g s)) = cg_bindings s"
  "cg_pairings (snd (heartbeat l d k p g s)) = cg_pairings s" "cg_pairings_by_device_code (snd (heartbeat l d k p g s)) = cg_pairings_by_device_code s"
  "cg_commands (snd (update_inventory l d k rs h g s)) = cg_commands s" "cg_agent_task_results (snd (update_inventory l d k rs h g s)) = cg_agent_task_results s"
  "cg_events (snd (update_inventory l d k rs h g s)) = cg_events s" "cg_event_ack_watermarks (snd (update_inventory l d k rs h g s)) = cg_event_ack_watermarks s"
  "cg_event_pending_sequences (snd (update_inventory l d k rs h g s)) = cg_event_pending_sequences s" "cg_bindings (snd (update_inventory l d k rs h g s)) = cg_bindings s"
  "cg_pairings (snd (update_inventory l d k rs h g s)) = cg_pairings s" "cg_pairings_by_device_code (snd (update_inventory l d k rs h g s)) = cg_pairings_by_device_code s"
  "cg_commands (snd (revoke_device d k u s)) = cg_commands s" "cg_agent_task_results (snd (revoke_device d k u s)) = cg_agent_task_results s"
  "cg_events (snd (revoke_device d k u s)) = cg_events s" "cg_event_ack_watermarks (snd (revoke_device d k u s)) = cg_event_ack_watermarks s"
  "cg_event_pending_sequences (snd (revoke_device d k u s)) = cg_event_pending_sequences s"
  "cg_pairings (snd (revoke_device d k u s)) = cg_pairings s" "cg_pairings_by_device_code (snd (revoke_device d k u s)) = cg_pairings_by_device_code s"
  by (simp_all add: apply_hello_def heartbeat_def update_inventory_def revoke_device_def Let_def snd_simps split: sum.splits option.splits)

lemma mark_ready_simps [simp]:
  "cg_devices (snd (mark_transport_ready k g s)) = cg_devices s" "cg_bindings (snd (mark_transport_ready k g s)) = cg_bindings s"
  "cg_commands (snd (mark_transport_ready k g s)) = cg_commands s" "cg_agent_task_results (snd (mark_transport_ready k g s)) = cg_agent_task_results s"
  "cg_events (snd (mark_transport_ready k g s)) = cg_events s" "cg_event_ack_watermarks (snd (mark_transport_ready k g s)) = cg_event_ack_watermarks s"
  "cg_event_pending_sequences (snd (mark_transport_ready k g s)) = cg_event_pending_sequences s"
  "cg_pairings (snd (mark_transport_ready k g s)) = cg_pairings s" "cg_pairings_by_device_code (snd (mark_transport_ready k g s)) = cg_pairings_by_device_code s"
  by (simp_all add: mark_transport_ready_def Let_def snd_simps split: sum.splits option.splits)

lemma binding_step_simps [simp]:
  "cg_devices (snd (create_binding d k r a n w s)) = cg_devices s" "cg_commands (snd (create_binding d k r a n w s)) = cg_commands s"
  "cg_agent_task_results (snd (create_binding d k r a n w s)) = cg_agent_task_results s" "cg_events (snd (create_binding d k r a n w s)) = cg_events s"
  "cg_event_ack_watermarks (snd (create_binding d k r a n w s)) = cg_event_ack_watermarks s"
  "cg_event_pending_sequences (snd (create_binding d k r a n w s)) = cg_event_pending_sequences s"
  "cg_pairings (snd (create_binding d k r a n w s)) = cg_pairings s"
  "cg_pairings_by_device_code (snd (create_binding d k r a n w s)) = cg_pairings_by_device_code s"
  by (simp_all add: create_binding_def existing_binding_def Let_def snd_simps split: sum.splits option.splits prod.splits)

lemma command_step_simps [simp]:
  "cg_devices (snd (checked_record l d b a p i e s)) = cg_devices s" "cg_bindings (snd (checked_record l d b a p i e s)) = cg_bindings s"
  "cg_agent_task_results (snd (checked_record l d b a p i e s)) = cg_agent_task_results s" "cg_events (snd (checked_record l d b a p i e s)) = cg_events s"
  "cg_event_ack_watermarks (snd (checked_record l d b a p i e s)) = cg_event_ack_watermarks s"
  "cg_event_pending_sequences (snd (checked_record l d b a p i e s)) = cg_event_pending_sequences s"
  "cg_pairings (snd (checked_record l d b a p i e s)) = cg_pairings s"
  "cg_pairings_by_device_code (snd (checked_record l d b a p i e s)) = cg_pairings_by_device_code s" "cg_devices (mark_durable c s) = cg_devices s"
  "cg_bindings (mark_durable c s) = cg_bindings s" "cg_agent_task_results (mark_durable c s) = cg_agent_task_results s" "cg_events (mark_durable c s) = cg_events s"
  "cg_event_ack_watermarks (mark_durable c s) = cg_event_ack_watermarks s" "cg_event_pending_sequences (mark_durable c s) = cg_event_pending_sequences s"
  "cg_pairings (mark_durable c s) = cg_pairings s" "cg_pairings_by_device_code (mark_durable c s) = cg_pairings_by_device_code s"
  "cg_devices (collect_queued k t s) = cg_devices s" "cg_bindings (collect_queued k t s) = cg_bindings s"
  "cg_agent_task_results (collect_queued k t s) = cg_agent_task_results s" "cg_events (collect_queued k t s) = cg_events s"
  "cg_event_ack_watermarks (collect_queued k t s) = cg_event_ack_watermarks s" "cg_event_pending_sequences (collect_queued k t s) = cg_event_pending_sequences s"
  "cg_pairings (collect_queued k t s) = cg_pairings s" "cg_pairings_by_device_code (collect_queued k t s) = cg_pairings_by_device_code s"
  "cg_bindings (number_frame k s) = cg_bindings s" "cg_commands (number_frame k s) = cg_commands s"
  "cg_agent_task_results (number_frame k s) = cg_agent_task_results s" "cg_events (number_frame k s) = cg_events s"
  "cg_event_ack_watermarks (number_frame k s) = cg_event_ack_watermarks s" "cg_event_pending_sequences (number_frame k s) = cg_event_pending_sequences s"
  "cg_pairings (number_frame k s) = cg_pairings s" "cg_pairings_by_device_code (number_frame k s) = cg_pairings_by_device_code s"
  "cg_devices (snd (after_send d k w g c s)) = cg_devices s" "cg_bindings (snd (after_send d k w g c s)) = cg_bindings s"
  "cg_agent_task_results (snd (after_send d k w g c s)) = cg_agent_task_results s" "cg_events (snd (after_send d k w g c s)) = cg_events s"
  "cg_event_ack_watermarks (snd (after_send d k w g c s)) = cg_event_ack_watermarks s"
  "cg_event_pending_sequences (snd (after_send d k w g c s)) = cg_event_pending_sequences s" "cg_pairings (snd (after_send d k w g c s)) = cg_pairings s"
  "cg_pairings_by_device_code (snd (after_send d k w g c s)) = cg_pairings_by_device_code s"
  by (simp_all add: checked_record_def record_command_def mark_durable_def collect_queued_def number_frame_def after_send_def Let_def snd_simps split: sum.splits option.splits)

lemma transport_step_simps [simp]:
  "cg_bindings (snd (observe_inbound_sequence d k n g s)) = cg_bindings s" "cg_commands (snd (observe_inbound_sequence d k n g s)) = cg_commands s"
  "cg_agent_task_results (snd (observe_inbound_sequence d k n g s)) = cg_agent_task_results s" "cg_events (snd (observe_inbound_sequence d k n g s)) = cg_events s"
  "cg_event_ack_watermarks (snd (observe_inbound_sequence d k n g s)) = cg_event_ack_watermarks s"
  "cg_event_pending_sequences (snd (observe_inbound_sequence d k n g s)) = cg_event_pending_sequences s"
  "cg_pairings (snd (observe_inbound_sequence d k n g s)) = cg_pairings s"
  "cg_pairings_by_device_code (snd (observe_inbound_sequence d k n g s)) = cg_pairings_by_device_code s"
  "cg_devices (snd (resume_transport d k p g s)) = cg_devices s" "cg_bindings (snd (resume_transport d k p g s)) = cg_bindings s"
  "cg_commands (snd (resume_transport d k p g s)) = cg_commands s" "cg_agent_task_results (snd (resume_transport d k p g s)) = cg_agent_task_results s"
  "cg_events (snd (resume_transport d k p g s)) = cg_events s" "cg_event_ack_watermarks (snd (resume_transport d k p g s)) = cg_event_ack_watermarks s"
  "cg_event_pending_sequences (snd (resume_transport d k p g s)) = cg_event_pending_sequences s" "cg_pairings (snd (resume_transport d k p g s)) = cg_pairings s"
  "cg_pairings_by_device_code (snd (resume_transport d k p g s)) = cg_pairings_by_device_code s"
  "cg_devices (snd (acknowledge_task_available l d k p g s)) = cg_devices s" "cg_bindings (snd (acknowledge_task_available l d k p g s)) = cg_bindings s"
  "cg_commands (snd (acknowledge_task_available l d k p g s)) = cg_commands s"
  "cg_agent_task_results (snd (acknowledge_task_available l d k p g s)) = cg_agent_task_results s"
  "cg_events (snd (acknowledge_task_available l d k p g s)) = cg_events s"
  "cg_event_ack_watermarks (snd (acknowledge_task_available l d k p g s)) = cg_event_ack_watermarks s"
  "cg_event_pending_sequences (snd (acknowledge_task_available l d k p g s)) = cg_event_pending_sequences s"
  "cg_pairings (snd (acknowledge_task_available l d k p g s)) = cg_pairings s"
  "cg_pairings_by_device_code (snd (acknowledge_task_available l d k p g s)) = cg_pairings_by_device_code s"
  by (simp_all add: observe_inbound_sequence_def resume_transport_def acknowledge_task_available_def Let_def snd_simps split: sum.splits option.splits prod.splits)

lemma report_step_simps [simp]:
  "cg_devices (snd (acknowledge_command l d k p g s)) = cg_devices s" "cg_agent_task_results (snd (acknowledge_command l d k p g s)) = cg_agent_task_results s"
  "cg_events (snd (acknowledge_command l d k p g s)) = cg_events s" "cg_event_ack_watermarks (snd (acknowledge_command l d k p g s)) = cg_event_ack_watermarks s"
  "cg_event_pending_sequences (snd (acknowledge_command l d k p g s)) = cg_event_pending_sequences s"
  "cg_pairings (snd (acknowledge_command l d k p g s)) = cg_pairings s"
  "cg_pairings_by_device_code (snd (acknowledge_command l d k p g s)) = cg_pairings_by_device_code s"
  "cg_devices (snd (submit_agent_task_result l d k p g s)) = cg_devices s" "cg_bindings (snd (submit_agent_task_result l d k p g s)) = cg_bindings s"
  "cg_commands (snd (submit_agent_task_result l d k p g s)) = cg_commands s" "cg_events (snd (submit_agent_task_result l d k p g s)) = cg_events s"
  "cg_event_ack_watermarks (snd (submit_agent_task_result l d k p g s)) = cg_event_ack_watermarks s"
  "cg_event_pending_sequences (snd (submit_agent_task_result l d k p g s)) = cg_event_pending_sequences s"
  "cg_pairings (snd (submit_agent_task_result l d k p g s)) = cg_pairings s"
  "cg_pairings_by_device_code (snd (submit_agent_task_result l d k p g s)) = cg_pairings_by_device_code s"
  by (simp_all add: acknowledge_command_def submit_agent_task_result_def Let_def snd_simps split: sum.splits option.splits prod.splits)

lemma event_step_simps [simp]:
  "cg_commands (snd (append_runtime_event l d k p g s)) = cg_commands s" "cg_agent_task_results (snd (append_runtime_event l d k p g s)) = cg_agent_task_results s"
  "cg_pairings (snd (append_runtime_event l d k p g s)) = cg_pairings s"
  "cg_pairings_by_device_code (snd (append_runtime_event l d k p g s)) = cg_pairings_by_device_code s"
  by (simp_all add: append_runtime_event_def record_event_def with_pending_def Let_def snd_simps split: sum.splits option.splits prod.splits)

lemma with_pending_simps [simp]:
  "pending_of (with_pending s k) j = pending_of s j" "ack_watermark (with_pending s k) j = ack_watermark s j"
  "cg_events (with_pending s k) = cg_events s" "cg_devices (with_pending s k) = cg_devices s" "cg_bindings (with_pending s k) = cg_bindings s"
  "cg_commands (with_pending s k) = cg_commands s"
  by (simp_all add: with_pending_def pending_of_def ack_watermark_def dict_get)

lemma append_event_cases:
  assumes "append_runtime_event l d k p g s = (x, s')"
  obtains (error) e where "x = Inl e" "s' = s"
    | (repeated) y where "x = Inr y" "\<And>e w. y \<noteq> EventRecorded e w" "s' = with_pending s k"
    | (recorded) dv b n where "active_device s k g = Inr dv" "dget (cg_bindings s) (text_member l p ''binding_id'') = Some b" "gb_device_id b = k"
        "int_of l (member_or p ''sequence'' (JInt 0)) = Inr n" "0 < n" "ack_watermark s k < n" "n \<notin> set (pending_of s k)"
        "find (same_event k (take 128 (text_member l p ''event_id'')) n) (cg_events s) = None"
        "record_event dv b (new_event l d k p n) (with_pending s k) = (x, s')"
proof (cases "active_device s k g")
  case (Inr dv)
  note act = Inr
  show thesis
  proof (cases "dget (cg_bindings s) (text_member l p ''binding_id'')")
    case (Some b)
    show thesis
    proof (cases "gb_device_id b \<noteq> k \<or> take 128 (text_member l p ''event_type'') = []")
      case True
      then show thesis using assms act Some by (auto simp: append_runtime_event_def attempt_def Let_def intro!: error split: if_splits)
    next
      case False
      show thesis
      proof (cases "int_of l (member_or p ''sequence'' (JInt 0))")
        case (Inl e)
        then show thesis using assms act Some False by (auto simp: append_runtime_event_def attempt_def Let_def intro!: error)
      next
        case (Inr n)
        note num = this
        let ?f = "find (same_event k (take 128 (text_member l p ''event_id'')) n) (cg_events s)"
        have a: "append_runtime_event l d k p g s = (if n \<le> 0 then (Inl (ConnectorError 422 ''runtime event sequence must be a positive integer''), s)
          else case ?f of
             Some existing \<Rightarrow> (Inr (EventRetained existing (ack_watermark s k)), with_pending s k)
           | None \<Rightarrow> if n \<le> ack_watermark s k \<or> n \<in> set (pending_of s k) then (Inr (EventDuplicate n (ack_watermark s k)), with_pending s k)
               else record_event dv b (new_event l d k p n) (with_pending s k))"
          using act Some False num
          by (simp add: append_runtime_event_def attempt_def Let_def split: option.split)
        show thesis
        proof (cases "n \<le> 0")
          case True
          then show thesis using assms a error by auto
        next
          case pos: False
          show thesis
          proof (cases ?f)
            case (Some e)
            then show thesis using assms a pos repeated by auto
          next
            case None
            then show thesis using assms a pos repeated recorded [OF act \<open>dget _ _ = Some b\<close> _ num] False
              by (cases "n \<le> ack_watermark s k \<or> n \<in> set (pending_of s k)") auto
          qed
        qed
      qed
    qed
  qed (use assms act in \<open>auto simp: append_runtime_event_def attempt_def Let_def intro!: error\<close>)
qed (use assms in \<open>auto simp: append_runtime_event_def attempt_def intro!: error\<close>)

lemma new_event_simps [simp]:
  "ge_device_id (new_event l d k p n) = k" "ge_sequence (new_event l d k p n) = n" "ge_binding_id (new_event l d k p n) = text_member l p ''binding_id''"
  by (simp_all add: new_event_def)

lemma record_event_simps:
  assumes "record_event dv b e s = (x, s')" "advance (ack_watermark s (ge_device_id e)) (List.insert (ge_sequence e) (pending_of s (ge_device_id e))) = (w, q)"
  shows "x = Inr (EventRecorded e w)" "cg_event_ack_watermarks s' = dput (cg_event_ack_watermarks s) (ge_device_id e) w"
    "cg_event_pending_sequences s' = dput (cg_event_pending_sequences s) (ge_device_id e) q"
    "cg_devices s' = dput (cg_devices s) (ge_device_id e) (dv\<lparr>gd_event_ack_watermark := w, gd_event_pending_sequences := sort q\<rparr>)"
    "cg_events s' = trim_log (cg_events s @ [e])" "cg_bindings s' = dput (cg_bindings s) (ge_binding_id e) (finish_task e b)"
  using assms by (auto simp: record_event_def Let_def)

section \<open>Devices\<close>

text \<open>How a step may change a device: its identity and owner stay, its counters do not fall, and a revocation is final.\<close>

definition device_next :: "device \<Rightarrow> device \<Rightarrow> bool" where
  "device_next dv dv' \<longleftrightarrow> gd_device_id dv' = gd_device_id dv \<and> gd_owner_id dv' = gd_owner_id dv
     \<and> gd_connection_generation dv \<le> gd_connection_generation dv' \<and> gd_outbound_sequence dv \<le> gd_outbound_sequence dv'
     \<and> (gd_revoked_at dv \<noteq> None \<longrightarrow> gd_revoked_at dv' = gd_revoked_at dv \<and> gd_token_hash dv' = gd_token_hash dv
          \<and> gd_connection_generation dv' = gd_connection_generation dv)"

lemma device_next_refl [simp]: "device_next dv dv"
  by (simp add: device_next_def)

lemma device_next_trans: "device_next a b \<Longrightarrow> device_next b c \<Longrightarrow> device_next a c"
  unfolding device_next_def by auto

definition devices_next :: "ConnectorGateway \<Rightarrow> ConnectorGateway \<Rightarrow> bool" where
  "devices_next s s' \<longleftrightarrow> (\<forall>k dv. dget (cg_devices s) k = Some dv \<longrightarrow> (\<exists>dv'. dget (cg_devices s') k = Some dv' \<and> device_next dv dv'))
     \<and> (\<forall>k. dget (cg_devices s) k = None \<longrightarrow> dget (cg_devices s') k = None)"

lemma devices_next_same: "cg_devices s' = cg_devices s \<Longrightarrow> devices_next s s'"
  by (simp add: devices_next_def)

lemma devices_next_put:
  assumes "dget (cg_devices s) k = Some dv" "cg_devices s' = dput (cg_devices s) k dv'" "device_next dv dv'"
  shows "devices_next s s'"
  using assms by (auto simp: devices_next_def dict_get)

lemma devices_next_trans: "devices_next s t \<Longrightarrow> devices_next t u \<Longrightarrow> devices_next s u"
  unfolding devices_next_def using device_next_trans by blast

lemma host_fields_next: "device_next dv (host_fields l h dv')" if "device_next dv dv'"
  using that by (auto simp: host_fields_def device_next_def Let_def split: option.splits json.splits)

text \<open>A dictionary of devices in which at most the device \<open>k\<close> moved on.\<close>

inductive device_moved :: "ConnectorGateway \<Rightarrow> utext \<Rightarrow> device \<Rightarrow> (utext, device) dict \<Rightarrow> bool" for s k dv where
  kept: "device_moved s k dv (cg_devices s)"
| moved: "device_next dv dv' \<Longrightarrow> device_moved s k dv (dput (cg_devices s) k dv')"

lemmas device_movedI [intro] = device_moved.intros

lemma moved_next: "dget (cg_devices s) k = Some dv \<Longrightarrow> device_moved s k dv (cg_devices s') \<Longrightarrow> devices_next s s'"
  by (erule device_moved.cases) (auto intro: devices_next_same devices_next_put)

lemma connect_devices:
  assumes "snd (connect_device d k w s) = s'"
  shows "devices_next s s'"
proof (cases "bindR (get_device_record s k) (\<lambda>device. bindR (ensure_not_revoked device) (\<lambda>_. Inr device))")
  case (Inl e)
  then show ?thesis using assms by (auto simp: connect_device_def snd_simps intro!: devices_next_same)
next
  case (Inr dv)
  have dv: "dget (cg_devices s) k = Some dv" "gd_revoked_at dv = None" using Inr by (simp_all add: live_device_iff)
  show ?thesis using assms Inr
    by (intro devices_next_put [OF dv(1)]) (auto simp: connect_device_def snd_simps Let_def device_next_def dv)
qed

lemma disconnect_devices: "devices_next s (disconnect_device d k w s)"
proof (cases "dget (cg_devices s) k")
  case (Some dv)
  have "cg_devices (disconnect_device d k w s) \<in> {cg_devices s, dput (cg_devices s) k (dv\<lparr>gd_status := DeviceOffline\<rparr>)}"
    using Some by (auto simp: disconnect_device_def Let_def split: option.splits)
  then show ?thesis using devices_next_same devices_next_put [OF Some] by (auto simp: device_next_def)
qed (auto simp: disconnect_device_def Let_def split: option.splits intro!: devices_next_same)

lemma message_devices:
  assumes "snd (apply_hello l d k p g s) = s' \<or> snd (heartbeat l d k p g s) = s' \<or> snd (update_inventory l d k rs h g s) = s'
     \<or> snd (observe_inbound_sequence d k n g s) = s'"
  shows "devices_next s s'"
proof (cases "active_device s k g")
  case (Inl e)
  then show ?thesis using assms
    by (auto simp: apply_hello_def heartbeat_def update_inventory_def observe_inbound_sequence_def snd_simps
        intro!: devices_next_same split: option.splits)
next
  case (Inr dv)
  have dv: "dget (cg_devices s) k = Some dv" "gd_revoked_at dv = None" using Inr by (simp_all add: active_device_iff)
  have "device_moved s k dv (cg_devices s')" if "snd (apply_hello l d k p g s) = s'"
    using that Inr by (auto simp: apply_hello_def snd_simps Let_def dv intro!: device_movedI) (simp_all add: device_next_def dv)
  moreover have "device_moved s k dv (cg_devices s')" if "snd (heartbeat l d k p g s) = s'"
    using that Inr by (auto simp: heartbeat_def snd_simps Let_def dv split: option.splits sum.splits intro!: device_movedI) (simp_all add: device_next_def dv)
  moreover have "device_moved s k dv (cg_devices s')" if "snd (update_inventory l d k rs h g s) = s'"
    using that Inr by (auto simp: update_inventory_def snd_simps Let_def intro!: device_movedI host_fields_next) (simp add: device_next_def dv)
  moreover have "device_moved s k dv (cg_devices s')" if "snd (observe_inbound_sequence d k n g s) = s'"
    using that Inr by (auto simp: observe_inbound_sequence_def snd_simps Let_def dv split: option.splits intro!: device_movedI) (simp_all add: device_next_def dv)
  ultimately show ?thesis using assms moved_next [OF dv(1)] by blast
qed

lemma event_devices:
  assumes "append_runtime_event l d k p g s = (x, s')"
  shows "devices_next s s'"
  using assms
proof (cases rule: append_event_cases)
  case (recorded dv b n)
  then have dv: "dget (cg_devices s) k = Some dv" "gd_revoked_at dv = None" by (simp_all add: active_device_iff)
  obtain w q where a: "advance (ack_watermark s k) (List.insert n (pending_of s k)) = (w, q)" by fastforce
  have "cg_devices s' = dput (cg_devices s) k (dv\<lparr>gd_event_ack_watermark := w, gd_event_pending_sequences := sort q\<rparr>)"
    using record_event_simps(4) [OF recorded(9), of w q] a by simp
  then show ?thesis by (rule devices_next_put [OF dv(1)]) (simp add: device_next_def dv)
qed (auto intro: devices_next_same)

lemma revoke_devices:
  assumes "snd (revoke_device d k u s) = s'"
  shows "devices_next s s'"
proof (cases "dget (cg_devices s) k")
  case (Some dv)
  have "device_moved s k dv (cg_devices s')"
    using assms Some by (auto simp: revoke_device_def get_device_record_def snd_simps Let_def split: sum.splits intro!: device_movedI) (simp add: device_next_def)
  then show ?thesis by (rule moved_next [OF Some])
qed (use assms in \<open>auto simp: revoke_device_def get_device_record_def snd_simps intro!: devices_next_same\<close>)

lemma number_frame_devices: "devices_next s (number_frame k s)"
proof (cases "dget (cg_devices s) k")
  case (Some dv)
  then show ?thesis by (intro moved_next [OF Some]) (auto simp: number_frame_def device_next_def intro!: device_moved.moved)
qed (simp add: number_frame_def devices_next_same)

lemma step_devices: "(\<And>d c. p \<noteq> ExchangePairing d c) \<Longrightarrow> devices_next s (gateway_step l p s)"
proof (cases p)
  case (AppendEvent d k p g)
  then show ?thesis using event_devices [OF prod.collapse [symmetric], where l = l and d = d and k = k and p = p and g = g and s = s] by simp
qed (auto intro: devices_next_same connect_devices disconnect_devices message_devices revoke_devices number_frame_devices)

text \<open>A step keeps every device; only an exchange of a pairing adds one.\<close>

lemma step_device:
  assumes "gateway_ok p s" "dget (cg_devices s) k = Some dv"
  shows "\<exists>dv'. dget (cg_devices (gateway_step l p s)) k = Some dv' \<and> device_next dv dv'"
proof (cases "\<exists>d c. p = ExchangePairing d c")
  case True
  then obtain d c where p: "p = ExchangePairing d c" by blast
  then have "k \<noteq> new_id d ''device''" using assms by auto
  then show ?thesis using exchange_devices [of l d c s] p assms(2) by (auto simp: dict_get)
next
  case False
  then show ?thesis using step_devices [of p s l] assms(2) unfolding devices_next_def by blast
qed

lemma step_device_new:
  assumes "dget (cg_devices s) k = None" "dget (cg_devices (gateway_step l p s)) k = Some dv"
  obtains d c r h where "p = ExchangePairing d c" "k = new_id d ''device''" "dv = enrolled_device d r h"
proof (cases "\<exists>d c. p = ExchangePairing d c")
  case True
  then obtain d c where p: "p = ExchangePairing d c" by blast
  then show thesis using exchange_devices [of l d c s] assms that by (auto simp: dict_get split: if_splits)
next
  case False
  then show thesis using step_devices [of p s l] assms unfolding devices_next_def by auto
qed

section \<open>Dictionaries that are updated value by value\<close>

text \<open>The same keys in the same order, and related values.\<close>

abbreviation moved_values :: "('v \<Rightarrow> 'v \<Rightarrow> bool) \<Rightarrow> ('k, 'v) dict \<Rightarrow> ('k, 'v) dict \<Rightarrow> bool" where
  "moved_values R \<equiv> list_all2 (\<lambda>(k, v) (k', v'). k' = k \<and> R v v')"

lemma moved_refl: "(\<And>v. R v v) \<Longrightarrow> moved_values R d d"
  by (induction d) auto

lemma moved_dmap: "(\<And>v. R v (f v)) \<Longrightarrow> moved_values R d (dmap f d)"
  by (induction d) (auto simp: dmap_def)

lemma moved_put:
  assumes "dget d k = Some v" "R v v'" "\<And>w. R w w"
  shows "moved_values R d (dput d k v')"
  using assms(1)
proof (induction d)
  case (Cons p d)
  then show ?case using assms(2,3) moved_refl [of R] by (cases p) auto
qed simp

lemma moved_keys: "moved_values R d d' \<Longrightarrow> dkeys d' = dkeys d"
  by (induction rule: list_all2_induct) auto

lemma moved_get: "moved_values R d d' \<Longrightarrow> dget d k = Some v \<Longrightarrow> \<exists>v'. dget d' k = Some v' \<and> R v v'"
  by (induction rule: list_all2_induct) (auto split: if_splits)

lemma moved_get_back: "moved_values R d d' \<Longrightarrow> dget d' k = Some v' \<Longrightarrow> \<exists>v. dget d k = Some v \<and> R v v'"
  by (induction rule: list_all2_induct) (auto split: if_splits)

lemma moved_filter:
  assumes "moved_values R d d'" "\<And>v v'. R v v' \<Longrightarrow> P v' = P v \<and> f v' = f v"
  shows "map f (filter P (dvalues d')) = map f (filter P (dvalues d))"
  using assms(1) by (induction rule: list_all2_induct) (auto dest: assms(2))

lemma moved_filter_le:
  assumes "moved_values R d d'" "\<And>v v'. R v v' \<Longrightarrow> P v' \<Longrightarrow> P v"
  shows "length (filter P (dvalues d')) \<le> length (filter P (dvalues d))"
  using assms(1) by (induction rule: list_all2_induct) (auto dest: assms(2))

section \<open>Commands\<close>

definition same_request :: "command \<Rightarrow> command \<Rightarrow> bool" where
  "same_request c c' \<longleftrightarrow> gc_command_id c' = gc_command_id c \<and> gc_binding_id c' = gc_binding_id c \<and> gc_device_id c' = gc_device_id c
     \<and> gc_binding_epoch c' = gc_binding_epoch c \<and> gc_session_id c' = gc_session_id c \<and> gc_action c' = gc_action c \<and> gc_payload c' = gc_payload c
     \<and> gc_idempotency_key c' = gc_idempotency_key c \<and> gc_created_at c' = gc_created_at c \<and> gc_expires_at c' = gc_expires_at c
     \<and> gc_request_fingerprint c' = gc_request_fingerprint c"

text \<open>How the status of a command may change in one step.\<close>

fun command_status_next :: "CommandStatus \<Rightarrow> CommandStatus \<Rightarrow> bool" where
  "command_status_next CommandQueued s = True"
| "command_status_next CommandDelivered s = (s \<in> {CommandDelivered, CommandQueued} \<or> ack_status s)"
| "command_status_next CommandExpired s = (s = CommandExpired)"
| "command_status_next c s = ack_transition c s"

definition command_next :: "command \<Rightarrow> command \<Rightarrow> bool" where
  "command_next c c' \<longleftrightarrow> same_request c c' \<and> command_status_next (gc_status c) (gc_status c') \<and> gc_delivery_attempts c \<le> gc_delivery_attempts c'"

lemma command_status_next_refl [simp]: "command_status_next s s"
  by (cases s) (simp_all add: ack_status_def)

lemma command_next_refl [simp]: "command_next c c"
  by (simp add: command_next_def same_request_def)

lemma requeue_next [simp]: "command_next c (requeue k t c)"
  by (simp add: requeue_def command_next_def same_request_def)

lemma expire_next [simp]: "command_next c (expire_command k t c)"
  by (simp add: expire_command_def deliverable_def command_next_def same_request_def)

lemma ack_next: "ack_transition s s' \<Longrightarrow> command_status_next s s'"
  by (cases s) simp_all

lemma connect_commands: "moved_values command_next (cg_commands s) (cg_commands (snd (connect_device d k w s)))"
  by (auto simp: connect_device_def snd_simps Let_def intro!: moved_dmap moved_refl split: sum.splits)

lemma collect_commands: "moved_values command_next (cg_commands s) (cg_commands (collect_queued k t s))"
  by (simp add: collect_queued_def moved_dmap)

lemma durable_commands: "moved_values command_next (cg_commands s) (cg_commands (mark_durable c s))"
proof (cases "dget (cg_commands s) c")
  case (Some v)
  then show ?thesis using moved_put [where R = command_next, OF Some] by (simp add: mark_durable_def) (simp add: command_next_def same_request_def)
qed (simp add: mark_durable_def moved_refl)

lemma after_send_commands: "moved_values command_next (cg_commands s) (cg_commands (snd (after_send d k w g c s)))"
proof (cases "dget (cg_commands s) c")
  case (Some v)
  have "gc_status v = CommandQueued \<Longrightarrow> command_next v (mark_delivered (dr_now d) v)" by (simp add: mark_delivered_def command_next_def same_request_def)
  then show ?thesis using moved_put [where R = command_next, OF Some] by (auto simp: after_send_def snd_simps Some intro!: moved_refl split: sum.splits)
qed (auto simp: after_send_def snd_simps intro!: moved_refl split: sum.splits)

text \<open>An acknowledgement that changes something.\<close>

lemma acknowledge_cases:
  assumes "acknowledge_command l d k p g s = (x, s')"
  obtains (error) e where "x = Inl e" "s' = s"
    | (acked) c status c' dv where "active_device s k g = Inr dv" "dget (cg_commands s) (text_member l p ''command_id'') = Some c" "gc_device_id c = k"
        "ack_status status" "ack_transition (gc_status c) status" "x = Inr (public_command.truncate c')"
        "c' = c\<lparr>gc_status := status, gc_updated_at := dr_now d, gc_result := not_none (dget p ''result''), gc_error := safe_error l (ack_error_value status p)\<rparr>"
        "cg_commands s' = dput (cg_commands s) (text_member l p ''command_id'') c'"
        "cg_bindings s' = (case dget (cg_bindings s) (gc_binding_id c) of None \<Rightarrow> cg_bindings s
           | Some b \<Rightarrow> dput (cg_bindings s) (gc_binding_id c) (ack_binding l (dr_now d) c status p b))"
proof (cases "active_device s k g")
  case (Inr dv)
  note act = this
  show thesis
  proof (cases "dget (cg_commands s) (text_member l p ''command_id'')")
    case (Some c)
    note cmd = this
    show thesis
    proof (cases "gc_device_id c = k")
      case True
      show thesis
      proof (cases "int_of l (member_or p ''binding_epoch'' (JInt (gc_binding_epoch c))) = Inr (gc_binding_epoch c)")
        case epoch: True
        show thesis
        proof (cases "parse_status (text_member l p ''status'')")
          case (Some status)
          show thesis
          proof (cases "ack_status status \<and> ack_transition (gc_status c) status")
            case True
            then show thesis using assms act cmd \<open>gc_device_id c = k\<close> epoch Some
              by (intro acked [OF act cmd \<open>gc_device_id c = k\<close>, of status]) (auto simp: acknowledge_command_def attempt_def Let_def)
          next
            case False
            then show thesis using assms act cmd \<open>gc_device_id c = k\<close> epoch Some
              by (auto simp: acknowledge_command_def attempt_def Let_def intro!: error split: if_splits)
          qed
        qed (use assms act cmd True epoch in \<open>auto simp: acknowledge_command_def attempt_def Let_def intro!: error\<close>)
      next
        case False
        then show thesis using assms act cmd True
          by (cases "int_of l (member_or p ''binding_epoch'' (JInt (gc_binding_epoch c)))") (auto simp: acknowledge_command_def attempt_def Let_def intro!: error)
      qed
    qed (use assms act cmd in \<open>auto simp: acknowledge_command_def attempt_def Let_def intro!: error\<close>)
  qed (use assms act in \<open>auto simp: acknowledge_command_def attempt_def Let_def intro!: error\<close>)
qed (use assms in \<open>auto simp: acknowledge_command_def attempt_def intro!: error\<close>)

lemma acknowledge_commands: "moved_values command_next (cg_commands s) (cg_commands (snd (acknowledge_command l d k p g s)))"
proof -
  obtain x s' where a: "acknowledge_command l d k p g s = (x, s')" by fastforce
  then show ?thesis
  proof (cases rule: acknowledge_cases)
    case (acked c status c' dv)
    have "command_next c c'" using ack_next [OF acked(5)] by (simp add: acked(7) command_next_def same_request_def)
    from moved_put [where R = command_next, OF acked(2) this] show ?thesis using a acked(8) by simp
  qed (simp add: a moved_refl)
qed

lemma record_cases:
  assumes "checked_record l d b a p i e s = (x, s')"
  obtains (error) err where "x = Inl err" "s' = s"
    | (replayed) f c where "request_fingerprint a p = Inr f" "replayed_command s b a i f = Inr (Some c)" "x = Inr (gc_command_id c)" "s' = s"
    | (added) f bd where "payload_error l a p = None" "request_fingerprint a p = Inr f" "dget (cg_bindings s) b = Some bd" "replayed_command s b a i f = Inr None"
        "x = Inr (new_id d ''cmd'')" "cg_commands s' = dput (cg_commands s) (new_id d ''cmd'') (new_command d bd a p i e f)"
proof (cases "bindR (validate_command_payload l a p) (\<lambda>_. request_fingerprint a p)")
  case (Inr f)
  then have f: "payload_error l a p = None" "request_fingerprint a p = Inr f"
    by (cases "payload_error l a p"; simp add: validate_command_payload_def bindR_def)+
  have r: "record_command l d b a p i e f s = (x, s')" using assms Inr by (simp add: checked_record_def attempt_def)
  show thesis
  proof (cases "dget (cg_bindings s) b")
    case (Some bd)
    note bd = this
    let ?dv = "bindR (get_device_record s (gb_device_id bd)) (\<lambda>device. bindR (ensure_not_revoked device) (\<lambda>_. Inr device))"
    have id: "gc_command_id (new_command d bd a p i e f) = new_id d ''cmd''" by (simp add: new_command_def Let_def)
    show thesis
    proof (cases "session_error l a p bd")
      case None
      note ses = this
      show thesis
      proof (cases ?dv)
        case (Inl err)
        show thesis by (rule error [of err]) (use r bd ses Inl in \<open>simp_all add: record_command_def attempt_def\<close>)
      next
        case (Inr dv)
        note dv = this
        show thesis
        proof (cases "runtime_error a p (find (\<lambda>r. ri_runtime_id r = gb_runtime_id bd) (gd_runtimes dv))")
          case None
          note rec = r [unfolded record_command_def bd option.case ses dv attempt_def sum.case None]
          show thesis
          proof (cases "replayed_command s b a i f")
            case (Inl err)
            show thesis by (rule error [of err]) (use rec Inl in simp_all)
          next
            case (Inr q)
            note rep = this
            show thesis
            proof (cases q)
              case (Some c)
              show thesis by (rule replayed [OF f(2), of c]) (use rec rep Some in simp_all)
            next
              case None
              show thesis by (rule added [OF f bd]) (use rec rep None id in \<open>auto simp: Let_def\<close>)
            qed
          qed
        next
          case (Some err)
          show thesis by (rule error [of "ConnectorError 409 err"]) (use r bd ses dv Some in \<open>simp_all add: record_command_def attempt_def\<close>)
        qed
      qed
    next
      case (Some err)
      show thesis by (rule error [of "ConnectorError 409 err"]) (use r bd Some in \<open>simp_all add: record_command_def\<close>)
    qed
  next
    case None
    show thesis by (rule error [of "ConnectorError 404 ''Binding not found''"]) (use r None in \<open>simp_all add: record_command_def\<close>)
  qed
next
  case (Inl err)
  show thesis by (rule error [of err]) (use assms Inl in \<open>simp_all add: checked_record_def attempt_def\<close>)
qed

text \<open>What a step does to the commands: it moves them on, or adds one to the request of which nothing but a lost attempt is known.\<close>

inductive commands_step :: "library \<Rightarrow> ConnectorGateway \<Rightarrow> ConnectorGateway \<Rightarrow> bool" for l s s' where
  moved: "moved_values command_next (cg_commands s) (cg_commands s') \<Longrightarrow> commands_step l s s'"
| added: "payload_error l (gc_action c) (gc_payload c) = None \<Longrightarrow> gc_status c = CommandQueued \<Longrightarrow> dget (cg_commands s) (gc_command_id c) = None
    \<Longrightarrow> length (matching_commands s (gc_binding_id c) (gc_idempotency_key c)) \<le> 1
    \<Longrightarrow> \<forall>c' \<in> set (matching_commands s (gc_binding_id c) (gc_idempotency_key c)). gc_status c' = CommandFailed \<and> gc_request_fingerprint c' \<noteq> gc_request_fingerprint c
    \<Longrightarrow> cg_commands s' = cg_commands s @ [(gc_command_id c, c)] \<Longrightarrow> commands_step l s s'"

lemma commands_step_same: "cg_commands s' = cg_commands s \<Longrightarrow> commands_step l s s'"
  by (rule commands_step.moved) (simp add: moved_refl)

lemma latest_command_in: "latest_command cs = Some c \<Longrightarrow> c \<in> set cs"
proof (cases cs)
  case (Cons a as)
  have "fold (\<lambda>a best. if later_command a best then a else best) as b \<in> set (b # as)" for b
    by (induction as arbitrary: b) (auto split: if_splits)
  then show "latest_command cs = Some c \<Longrightarrow> c \<in> set cs" using Cons by fastforce
qed simp

lemma latest_command_None: "latest_command cs = None \<longleftrightarrow> cs = []"
  by (cases cs) simp_all

lemma single_member: "length xs < 2 \<Longrightarrow> c \<in> set xs \<Longrightarrow> xs = [c]"
  by (cases xs) (auto simp: numeral_2_eq_2)

lemma replay_free:
  assumes "replayed_command s b a (Some key) f = Inr None" "key \<noteq> []"
  shows "length (matching_commands s b key) \<le> 1 \<and> (\<forall>c \<in> set (matching_commands s b key). gc_status c = CommandFailed \<and> gc_request_fingerprint c \<noteq> f)"
proof (cases "latest_command (matching_commands s b key)")
  case None
  then show ?thesis by (simp add: latest_command_None)
next
  case (Some c)
  then have c: "length (matching_commands s b key) < 2" "connector_restarted c" "gc_request_fingerprint c \<noteq> f"
    using assms by (auto simp: replayed_command_def split: if_splits)
  have "matching_commands s b key = [c]" using c(1) latest_command_in [OF Some] by (rule single_member)
  then show ?thesis using c(2,3) by (simp add: connector_restarted_def)
qed

lemma record_commands:
  assumes "gateway_ok (RecordCommand d b a p i e) s" "\<forall>k bd. dget (cg_bindings s) k = Some bd \<longrightarrow> gb_binding_id bd = k"
  shows "commands_step l s (snd (checked_record l d b a p i e s))"
proof -
  obtain x s' where r: "checked_record l d b a p i e s = (x, s')" by fastforce
  then show ?thesis
  proof (cases rule: record_cases)
    case (added f bd)
    let ?c = "new_command d bd a p i e f" let ?id = "new_id d ''cmd''"
    have c: "gc_action ?c = a" "gc_payload ?c = p" "gc_status ?c = CommandQueued" "gc_command_id ?c = ?id" "gc_binding_id ?c = b" "gc_request_fingerprint ?c = f"
      using assms(2) added(3) by (simp_all add: new_command_def Let_def)
    have new: "dget (cg_commands s) ?id = None" "matching_commands s b ?id = []"
      using assms(1) by (auto simp: matching_commands_def filter_empty_conv)
    have m: "length (matching_commands s b (gc_idempotency_key ?c)) \<le> 1 \<and> (\<forall>c' \<in> set (matching_commands s b (gc_idempotency_key ?c)). gc_status c' = CommandFailed \<and> gc_request_fingerprint c' \<noteq> f)"
    proof (cases "i = None \<or> i = Some []")
      case True
      then have "gc_idempotency_key ?c = ?id" by (auto simp: new_command_def Let_def)
      then show ?thesis using new(2) by simp
    next
      case False
      then obtain key where key: "i = Some key" "key \<noteq> []" by auto
      then have "gc_idempotency_key ?c = key" by (simp add: new_command_def Let_def)
      then show ?thesis using replay_free [of s b a key f] added(4) key by simp
    qed
    have "cg_commands s' = cg_commands s @ [(?id, ?c)]" using added(6) new(1) by (simp add: update_new map_of_eq_None_iff)
    then show ?thesis using commands_step.added [of l ?c s s'] added(1) m c new(1) r by simp
  qed (simp_all add: r commands_step_same)
qed

lemma step_commands:
  assumes "gateway_ok p s" "\<forall>k bd. dget (cg_bindings s) k = Some bd \<longrightarrow> gb_binding_id bd = k"
  shows "commands_step l s (gateway_step l p s)"
proof (cases p)
  case (RecordCommand d b a p i e)
  then show ?thesis using record_commands assms by simp
qed (auto intro: commands_step_same commands_step.moved [OF connect_commands] commands_step.moved [OF collect_commands] commands_step.moved [OF durable_commands]
      commands_step.moved [OF after_send_commands] commands_step.moved [OF acknowledge_commands])

text \<open>At most one live command for a request.\<close>

definition commands_inv :: "library \<Rightarrow> ConnectorGateway \<Rightarrow> bool" where
  "commands_inv l s \<longleftrightarrow> distinct (dkeys (cg_commands s))
     \<and> (\<forall>k c. dget (cg_commands s) k = Some c \<longrightarrow> gc_command_id c = k \<and> payload_error l (gc_action c) (gc_payload c) = None)
     \<and> (\<forall>b key. length (matching_commands s b key) \<le> 2 \<and> length (filter (\<lambda>c. gc_status c \<noteq> CommandFailed) (matching_commands s b key)) \<le> 1
          \<and> distinct (map gc_request_fingerprint (matching_commands s b key)))"

lemma commands_inv_step: "commands_step l s s' \<Longrightarrow> commands_inv l s \<Longrightarrow> commands_inv l s'"
proof (induction rule: commands_step.induct)
  case moved
  have r: "gc_binding_id v' = gc_binding_id v \<and> gc_idempotency_key v' = gc_idempotency_key v \<and> (gc_status v = CommandFailed \<longrightarrow> gc_status v' = CommandFailed)
      \<and> gc_request_fingerprint v' = gc_request_fingerprint v"
    if "command_next v v'" for v v'
    using that by (cases "gc_status v") (auto simp: command_next_def same_request_def)
  have f: "map gc_request_fingerprint (matching_commands s' b key) = map gc_request_fingerprint (matching_commands s b key)" for b key
    unfolding matching_commands_def by (rule moved_filter [OF moved(1)]) (use r in auto)
  then have n: "length (matching_commands s' b key) = length (matching_commands s b key)" for b key by (metis length_map)
  have "length (filter (\<lambda>c. gc_status c \<noteq> CommandFailed) (matching_commands s' b key)) \<le> length (filter (\<lambda>c. gc_status c \<noteq> CommandFailed) (matching_commands s b key))" for b key
    unfolding matching_commands_def filter_filter by (rule moved_filter_le [OF moved(1)]) (use r in auto)
  then have "length (matching_commands s' b key) \<le> 2 \<and> length (filter (\<lambda>c. gc_status c \<noteq> CommandFailed) (matching_commands s' b key)) \<le> 1
      \<and> distinct (map gc_request_fingerprint (matching_commands s' b key))" for b key
    using n [of b key] f [of b key] moved(2) le_trans unfolding commands_inv_def by (metis (no_types, lifting))
  moreover have "gc_command_id c = k \<and> payload_error l (gc_action c) (gc_payload c) = None" if "dget (cg_commands s') k = Some c" for k c
    using moved_get_back [OF moved(1) that] moved(2) by (auto simp: commands_inv_def command_next_def same_request_def)
  moreover have "distinct (dkeys (cg_commands s'))" using moved(2) moved_keys [OF moved(1)] by (simp add: commands_inv_def)
  ultimately show ?case by (simp add: commands_inv_def)
next
  case (added c)
  have k: "gc_command_id c \<notin> set (dkeys (cg_commands s))" using added(3) by (simp add: map_of_eq_None_iff)
  have m: "matching_commands s' b key = matching_commands s b key @ (if gc_binding_id c = b \<and> gc_idempotency_key c = key then [c] else [])" for b key
    using added(6) by (simp add: matching_commands_def)
  have "length (matching_commands s' b key) \<le> 2 \<and> length (filter (\<lambda>c. gc_status c \<noteq> CommandFailed) (matching_commands s' b key)) \<le> 1
      \<and> distinct (map gc_request_fingerprint (matching_commands s' b key))" for b key
  proof (cases "gc_binding_id c = b \<and> gc_idempotency_key c = key")
    case True
    have "filter (\<lambda>c. gc_status c \<noteq> CommandFailed) (matching_commands s b key) = []" using added(5) True by (auto simp: filter_empty_conv)
    moreover have "distinct (map gc_request_fingerprint (matching_commands s b key))" using added(7) by (simp add: commands_inv_def)
    ultimately show ?thesis using m [of b key] True added(4,5) by auto
  next
    case False
    then have "matching_commands s' b key = matching_commands s b key" by (simp only: m if_False append_Nil2)
    then show ?thesis using added(7) by (simp add: commands_inv_def)
  qed
  moreover have "gc_command_id v = k \<and> payload_error l (gc_action v) (gc_payload v) = None" if "dget (cg_commands s') k = Some v" for k v
    using that added by (auto simp: commands_inv_def map_add_Some_iff split: if_splits)
  ultimately show ?case using added(6,7) k by (simp add: commands_inv_def)
qed

section \<open>Bindings\<close>

text \<open>A binding keeps what it binds, and its working directory once it has one.\<close>

definition binding_next :: "binding \<Rightarrow> binding \<Rightarrow> bool" where
  "binding_next b b' \<longleftrightarrow> gb_binding_id b' = gb_binding_id b \<and> gb_device_id b' = gb_device_id b \<and> gb_runtime_id b' = gb_runtime_id b
     \<and> gb_agent_id b' = gb_agent_id b \<and> (gb_working_directory b \<noteq> None \<longrightarrow> gb_working_directory b' = gb_working_directory b)
     \<and> gb_session_generation b \<le> gb_session_generation b'"

lemma binding_next_refl [simp]: "binding_next b b"
  by (simp add: binding_next_def)

lemma reset_session_next [simp]: "binding_next b (reset_session k t b)"
  by (simp add: reset_session_def binding_next_def)

lemma stop_binding_next [simp]: "binding_next b (stop_binding k e t b)"
  by (simp add: stop_binding_def binding_next_def)

lemma finish_task_next [simp]: "binding_next b (finish_task e b)"
  by (simp add: finish_task_def binding_next_def)

lemma ack_session_next: "binding_next b (ack_session l c p b)"
  by (auto simp: ack_session_def binding_next_def Let_def split: option.splits)

lemma ack_lifecycle_next: "binding_next b b' \<Longrightarrow> binding_next b (ack_lifecycle c st lost b')"
  by (auto simp: ack_lifecycle_def binding_next_def Let_def)

lemma ack_binding_next [simp]: "binding_next b (ack_binding l t c st p b)"
  using ack_lifecycle_next [OF ack_session_next, of b c st "session_was_lost l st (ack_error_value st p)" l c p]
  by (simp add: ack_binding_def Let_def) (simp add: binding_next_def)

inductive bindings_step :: "ConnectorGateway \<Rightarrow> ConnectorGateway \<Rightarrow> bool" for s s' where
  moved: "moved_values binding_next (cg_bindings s) (cg_bindings s') \<Longrightarrow> bindings_step s s'"
| added: "dget (cg_bindings s) (gb_binding_id b) = None \<Longrightarrow> \<forall>b' \<in> set (dvalues (cg_bindings s)). \<not> (gb_device_id b' = gb_device_id b \<and> gb_runtime_id b' = gb_runtime_id b)
    \<Longrightarrow> cg_bindings s' = cg_bindings s @ [(gb_binding_id b, b)] \<Longrightarrow> bindings_step s s'"

lemma bindings_step_same: "cg_bindings s' = cg_bindings s \<Longrightarrow> bindings_step s s'"
  by (rule bindings_step.moved) (simp add: moved_refl)

lemma bindings_step_put: "dget (cg_bindings s) k = Some b \<Longrightarrow> binding_next b b' \<Longrightarrow> cg_bindings s' = dput (cg_bindings s) k b' \<Longrightarrow> bindings_step s s'"
  using moved_put [where R = binding_next, of "cg_bindings s" k b b'] by (intro bindings_step.moved) simp

lemma bindings_step_dmap:
  assumes "\<And>b. binding_next b (f b)" "cg_bindings s' \<in> {cg_bindings s, dmap f (cg_bindings s)}"
  shows "bindings_step s s'"
  using assms(2) moved_dmap [where R = binding_next and f = f and d = "cg_bindings s", OF assms(1)] bindings_step.moved [of s s'] bindings_step_same [of s' s] by auto

lemma hello_bindings: "bindings_step s (snd (apply_hello l d k p g s))"
  by (rule bindings_step_dmap [of "reset_session k (dr_now d)"]) (auto simp: apply_hello_def snd_simps Let_def split: sum.splits)

lemma revoke_bindings: "bindings_step s (snd (revoke_device d k u s))"
proof (cases "get_device_record s k")
  case (Inr dv)
  show ?thesis
    by (rule bindings_step_dmap [of "stop_binding k (gd_binding_epoch dv + 1) (dr_now d)"]) (auto simp: revoke_device_def snd_simps Let_def Inr split: sum.splits)
qed (simp add: revoke_device_def snd_simps bindings_step_same)

lemma find_Some_in: "find P xs = Some x \<Longrightarrow> x \<in> set xs \<and> P x"
  by (induction xs) (auto split: if_splits)

lemma create_bindings:
  assumes "gateway_ok (CreateBinding d k r a n w) s" "distinct (dkeys (cg_bindings s))"
    "\<forall>j dv. dget (cg_devices s) j = Some dv \<longrightarrow> gd_device_id dv = j"
  shows "bindings_step s (snd (create_binding d k r a n w s))"
proof (cases "cg_bindings (snd (create_binding d k r a n w s)) = cg_bindings s")
  case False
  let ?live = "bindR (get_device_record s k) (\<lambda>device. bindR (ensure_not_revoked device) (\<lambda>_. Inr device))"
  let ?find = "find (\<lambda>(j, b). gb_device_id b = k \<and> gb_runtime_id b = r) (cg_bindings s)"
  from False obtain dv rt where dv: "?live = Inr dv" and rt: "find (\<lambda>x. ri_runtime_id x = r \<and> ri_available x) (gd_runtimes dv) = Some rt"
    by (auto simp: create_binding_def snd_simps split: sum.splits option.splits if_splits)
  note step = create_binding_def [of d k r a n w s, unfolded dv attempt_def sum.case rt option.case]
  show ?thesis
  proof (cases ?find)
    case (Some kb)
    then obtain j b where kb: "kb = (j, b)" "(j, b) \<in> set (cg_bindings s)" using find_Some_in [OF Some] by (cases kb) auto
    have b: "dget (cg_bindings s) j = Some b" using kb(2) assms(2) by simp
    show ?thesis using False step Some kb(1)
      by (intro bindings_step_put [OF b, of "b\<lparr>gb_working_directory := w, gb_updated_at := dr_now d\<rparr>"])
        (auto simp: existing_binding_def Let_def binding_next_def split: if_splits)
  next
    case None
    let ?b = "new_binding d dv rt a n w"
    have id: "gb_binding_id ?b = new_id d ''binding''" "gb_device_id ?b = k" "gb_runtime_id ?b = r"
      using dv assms(3) rt find_Some_in [OF rt] by (auto simp: new_binding_def live_device_iff)
    have new: "dget (cg_bindings s) (gb_binding_id ?b) = None" using assms(1) id(1) by simp
    have "cg_bindings (snd (create_binding d k r a n w s)) = cg_bindings s @ [(gb_binding_id ?b, ?b)]"
      using False step None new by (auto simp: Let_def update_new map_of_eq_None_iff split: if_splits)
    moreover have "\<forall>b' \<in> set (dvalues (cg_bindings s)). \<not> (gb_device_id b' = gb_device_id ?b \<and> gb_runtime_id b' = gb_runtime_id ?b)"
      using None id by (force simp: find_None_iff)
    ultimately show ?thesis using bindings_step.added new by blast
  qed
qed (rule bindings_step_same)

lemma acknowledge_bindings: "bindings_step s (snd (acknowledge_command l d k p g s))"
proof -
  obtain x s' where a: "acknowledge_command l d k p g s = (x, s')" by fastforce
  then show ?thesis
  proof (cases rule: acknowledge_cases)
    case (acked c status c' dv)
    then show ?thesis using a bindings_step_put [OF _ ack_binding_next]
      by (cases "dget (cg_bindings s) (gc_binding_id c)") (auto intro: bindings_step_same)
  qed (simp add: a bindings_step_same)
qed

lemma event_bindings: "bindings_step s (snd (append_runtime_event l d k p g s))"
proof -
  obtain x s' where a: "append_runtime_event l d k p g s = (x, s')" by fastforce
  then show ?thesis
  proof (cases rule: append_event_cases)
    case (recorded dv b n)
    obtain w q where "advance (ack_watermark s k) (List.insert n (pending_of s k)) = (w, q)" by fastforce
    then have "cg_bindings s' = dput (cg_bindings s) (text_member l p ''binding_id'') (finish_task (new_event l d k p n) b)"
      using record_event_simps(6) [OF recorded(9)] by simp
    then show ?thesis using a bindings_step_put [OF recorded(2) finish_task_next] by simp
  qed (simp_all add: a bindings_step_same)
qed

lemma step_bindings:
  assumes "gateway_ok p s" "distinct (dkeys (cg_bindings s))" "\<forall>j dv. dget (cg_devices s) j = Some dv \<longrightarrow> gd_device_id dv = j"
  shows "bindings_step s (gateway_step l p s)"
  using assms by (cases p) (auto intro: bindings_step_same hello_bindings revoke_bindings create_bindings acknowledge_bindings event_bindings)

definition bindings_inv :: "ConnectorGateway \<Rightarrow> bool" where
  "bindings_inv s \<longleftrightarrow> distinct (dkeys (cg_bindings s)) \<and> (\<forall>k b. dget (cg_bindings s) k = Some b \<longrightarrow> gb_binding_id b = k)
     \<and> distinct (map (\<lambda>b. (gb_device_id b, gb_runtime_id b)) (dvalues (cg_bindings s)))"

lemma bindings_inv_step: "bindings_step s s' \<Longrightarrow> bindings_inv s \<Longrightarrow> bindings_inv s'"
proof (induction rule: bindings_step.induct)
  case moved
  have "map (\<lambda>b. (gb_device_id b, gb_runtime_id b)) (dvalues (cg_bindings s')) = map (\<lambda>b. (gb_device_id b, gb_runtime_id b)) (dvalues (cg_bindings s))"
    using moved(1) by (induction rule: list_all2_induct) (auto simp: binding_next_def)
  moreover have "gb_binding_id b = k" if "dget (cg_bindings s') k = Some b" for k b
    using moved_get_back [OF moved(1) that] moved(2) by (auto simp: bindings_inv_def binding_next_def)
  ultimately show ?case using moved(2) moved_keys [OF moved(1)] by (simp add: bindings_inv_def)
next
  case (added b)
  then have "gb_binding_id b \<notin> set (dkeys (cg_bindings s))" by (simp add: map_of_eq_None_iff)
  moreover have "gb_binding_id v = k" if "dget (cg_bindings s') k = Some v" for k v
    using that added by (auto simp: bindings_inv_def map_add_Some_iff split: if_splits)
  ultimately show ?case using added by (auto simp: bindings_inv_def)
qed

section \<open>Results\<close>

lemma submit_cases:
  assumes "submit_agent_task_result l d k p g s = (x, s')"
  obtains (error) e where "x = Inl e" "s' = s"
    | (replay) r t where "dget (cg_agent_task_results s) t = Some r" "x = Inr (r, ResultReplay)" "s' = s"
    | (accepted) r c b where "x = Inr (r, ResultAccepted)" "gr_device_id r = k" "dget (cg_agent_task_results s) (gr_task_id r) = None"
        "cg_agent_task_results s' = dput (cg_agent_task_results s) (gr_task_id r) r"
        "c \<in> set (dvalues (cg_commands s))" "dispatched_task (gr_binding_id r) (gr_task_id r) c" "gr_command_id r = gc_command_id c"
        "dget (cg_bindings s) (gr_binding_id r) = Some b" "gb_device_id b = k" "gb_binding_epoch b = gr_binding_epoch r"
proof (cases "\<exists>e. x = Inl e \<and> s' = s")
  case False
  note go = assms [unfolded submit_agent_task_result_def]
  let ?b = "text_member l p ''binding_id''"
  obtain dv where dv: "active_device s k g = Inr dv" using go False by (cases "active_device s k g") (auto simp: attempt_def)
  note go = go [unfolded dv attempt_def sum.case Let_def]
  obtain b where b: "dget (cg_bindings s) ?b = Some b" using go False by (cases "dget (cg_bindings s) ?b") auto
  note go = go [unfolded b option.case]
  have k: "gb_device_id b = k" using go False by (auto split: if_splits)
  obtain ep where ep: "int_of l (member_or p ''binding_epoch'' (JInt 0)) = Inr ep" using go False k by (cases "int_of l (member_or p ''binding_epoch'' (JInt 0))") auto
  note go = go [unfolded ep sum.case]
  have e: "ep = gb_binding_epoch b" using go False k by (auto split: if_splits)
  obtain t i j where r: "l_result l (dget p ''result'') = Some (t, i, j)" using go False k e by (cases "l_result l (dget p ''result'')") auto
  note go = go [unfolded r option.case prod.case]
  obtain c where c: "find (dispatched_task ?b t) (dvalues (cg_commands s)) = Some c" using go False k e
    by (cases "find (dispatched_task ?b t) (dvalues (cg_commands s))") auto
  note go = go [unfolded c option.case]
  obtain h where h: "bindR (canonical_json_bytes j) (\<lambda>b. Inr (hexdigest (sha256 b))) = Inr h" using go False k e
    by (cases "bindR (canonical_json_bytes j) (\<lambda>b. Inr (hexdigest (sha256 b)))") auto
  note go = go [unfolded h sum.case]
  show thesis
  proof (cases "dget (cg_agent_task_results s) t")
    case (Some r')
    then show thesis using go False k e by (intro replay [OF Some]) (auto split: if_splits)
  next
    case None
    let ?r = "\<lparr>gr_task_id = t, gr_result_id = i, gr_binding_id = ?b, gr_binding_epoch = ep, gr_device_id = k, gr_command_id = gc_command_id c, gr_result = j,
      gr_result_hash = h, gr_received_at = dr_now d\<rparr>"
    show thesis using go None k e b find_Some_in [OF c] by (intro accepted [of ?r c b]) auto
  qed
qed (use error in blast)

lemma step_results:
  assumes "dget (cg_agent_task_results s) t = Some r"
  shows "dget (cg_agent_task_results (gateway_step l p s)) t = Some r"
proof (cases p)
  case (SubmitResult d k q g)
  obtain x s' where a: "submit_agent_task_result l d k q g s = (x, s')" by fastforce
  then show ?thesis
  proof (cases rule: submit_cases)
    case (accepted r' c b)
    then show ?thesis using SubmitResult a assms by (auto simp: dict_get)
  qed (use SubmitResult a assms in simp_all)
qed (use assms in simp_all)

section \<open>Events\<close>

text \<open>The sequences of a device that the gateway has received: the acknowledged prefix and the ones beyond a gap.\<close>

definition received :: "ConnectorGateway \<Rightarrow> utext \<Rightarrow> int set" where
  "received s k = {1..ack_watermark s k} \<union> set (pending_of s k)"

lemma advance_spec:
  assumes "advance w p = (w', p')" "\<forall>n \<in> set p. w < n"
  shows "w \<le> w' \<and> {w + 1..w'} \<subseteq> set p \<and> set p' = set p - {w + 1..w'} \<and> (\<forall>n \<in> set p'. w' + 1 < n)"
  using assms
proof (induction w p arbitrary: w' p' rule: advance.induct)
  case (1 w p)
  show ?case
  proof (cases "w + 1 \<in> set p")
    case True
    have "\<forall>n \<in> set (removeAll (w + 1) p). w + 1 < n" using "1.prems"(2) by fastforce
    moreover have "advance (w + 1) (removeAll (w + 1) p) = (w', p')" using "1.prems"(1) True advance.simps [of w p] by simp
    ultimately have ih: "w + 1 \<le> w'" "{w + 1 + 1..w'} \<subseteq> set p - {w + 1}" "set p' = set p - {w + 1} - {w + 1 + 1..w'}" "\<forall>n \<in> set p'. w' + 1 < n"
      using "1.IH" [OF True] by simp_all
    have "{w + 1..w'} = insert (w + 1) {w + 1 + 1..w'}" using ih(1) by (simp add: set_eq_iff) presburger
    then show ?thesis using True ih by auto
  next
    case False
    then have "w' = w" "p' = p" using "1.prems"(1) advance.simps [of w p] by simp_all
    moreover have "w + 1 < n" if "n \<in> set p" for n using False "1.prems"(2) that by (metis add1_zle_eq order_le_less)
    ultimately show ?thesis by simp
  qed
qed

definition events_inv :: "ConnectorGateway \<Rightarrow> bool" where
  "events_inv s \<longleftrightarrow> (\<forall>k. 0 \<le> ack_watermark s k \<and> (\<forall>n \<in> set (pending_of s k). ack_watermark s k + 1 < n)
     \<and> (\<forall>e \<in> set (cg_events s). ge_device_id e = k \<longrightarrow> ge_sequence e \<in> received s k)
     \<and> distinct (map ge_sequence (filter (\<lambda>e. ge_device_id e = k) (cg_events s))))"

lemma events_inv_same:
  assumes "cg_events s' = cg_events s" "\<And>k. ack_watermark s' k = ack_watermark s k" "\<And>k. pending_of s' k = pending_of s k" "events_inv s"
  shows "events_inv s'"
  using assms by (simp add: events_inv_def received_def)

lemma same_watermarks: "cg_event_ack_watermarks s' = cg_event_ack_watermarks s \<Longrightarrow> ack_watermark s' k = ack_watermark s k"
  by (simp add: ack_watermark_def)

lemma same_pending: "cg_event_pending_sequences s' = cg_event_pending_sequences s \<Longrightarrow> pending_of s' k = pending_of s k"
  by (simp add: pending_of_def)

text \<open>Recording an event adds its sequence to the received ones, and the acknowledged prefix ends before the first gap.\<close>

lemma recorded_received:
  assumes "record_event dv b e (with_pending s k) = (x, s')" "ge_device_id e = k" "0 < ge_sequence e" "ack_watermark s k < ge_sequence e" "events_inv s"
  shows "received s' j = (if j = k then insert (ge_sequence e) (received s k) else received s j)"
    "0 \<le> ack_watermark s' j" "\<forall>n \<in> set (pending_of s' j). ack_watermark s' j + 1 < n" "x = Inr (EventRecorded e (ack_watermark s' k))"
    "cg_events s' = trim_log (cg_events s @ [e])"
proof -
  obtain w q where a: "advance (ack_watermark s k) (List.insert (ge_sequence e) (pending_of s k)) = (w, q)" by fastforce
  have inv: "0 \<le> ack_watermark s i" "\<forall>n \<in> set (pending_of s i). ack_watermark s i + 1 < n" for i using assms(5) by (auto simp: events_inv_def)
  have "\<forall>n \<in> set (List.insert (ge_sequence e) (pending_of s k)). ack_watermark s k < n" using inv(2) [of k] assms(4) by fastforce
  from advance_spec [OF a this] have sp: "ack_watermark s k \<le> w" "{ack_watermark s k + 1..w} \<subseteq> set (List.insert (ge_sequence e) (pending_of s k))"
    "set q = set (List.insert (ge_sequence e) (pending_of s k)) - {ack_watermark s k + 1..w}" "\<forall>n \<in> set q. w + 1 < n"
    by simp_all
  note rec = record_event_simps [OF assms(1), unfolded assms(2) with_pending_simps, OF a]
  have w: "ack_watermark s' i = (if i = k then w else ack_watermark s i)" for i
    using rec(2) by (simp add: ack_watermark_def with_pending_def dict_get)
  have p: "pending_of s' i = (if i = k then q else pending_of s i)" for i
    using rec(3) by (auto simp: pending_of_def with_pending_def dict_get)
  have split: "{1..w} = {1..ack_watermark s k} \<union> {ack_watermark s k + 1..w}" using sp(1) inv(1) [of k] by auto
  have "{1..w} \<union> set q = insert (ge_sequence e) ({1..ack_watermark s k} \<union> set (pending_of s k))"
    using sp(2,3) split by auto
  then show "received s' j = (if j = k then insert (ge_sequence e) (received s k) else received s j)" by (simp add: received_def w p)
  show "0 \<le> ack_watermark s' j" "\<forall>n \<in> set (pending_of s' j). ack_watermark s' j + 1 < n" using inv [of j] inv(1) [of k] sp(1,4) by (simp_all add: w p)
  show "x = Inr (EventRecorded e (ack_watermark s' k))" using rec(1) w [of k] by simp
  show "cg_events s' = trim_log (cg_events s @ [e])" using rec(5) by simp
qed

lemma trim_log_drop: "\<exists>n. trim_log xs = drop n xs"
  by (metis drop0 trim_log_def)

lemma distinct_drop_filter: "distinct (map f (filter P xs)) \<Longrightarrow> distinct (map f (filter P (drop n xs)))"
proof -
  assume "distinct (map f (filter P xs))"
  then have "distinct (map f (filter P (take n xs @ drop n xs)))" by (simp only: append_take_drop_id)
  then show ?thesis by (simp only: filter_append map_append distinct_append)
qed

lemma recorded_inv:
  assumes "record_event dv b e (with_pending s k) = (x, s')" "ge_device_id e = k" "0 < ge_sequence e" "ack_watermark s k < ge_sequence e"
    "ge_sequence e \<notin> set (pending_of s k)" "events_inv s"
  shows "events_inv s'"
proof -
  note r = recorded_received [OF assms(1-4,6)]
  have new: "ge_sequence e \<notin> received s k" using assms(4,5) by (simp add: received_def)
  obtain n where n: "cg_events s' = drop n (cg_events s @ [e])" using r(5) trim_log_drop by metis
  have "\<forall>v \<in> set (cg_events s @ [e]). ge_device_id v = j \<longrightarrow> ge_sequence v \<in> received s' j" for j
    using r(1) [of j] assms(2,6) by (auto simp: events_inv_def)
  then have 1: "\<forall>v \<in> set (cg_events s'). ge_device_id v = j \<longrightarrow> ge_sequence v \<in> received s' j" for j using n by (metis in_set_dropD)
  have "distinct (map ge_sequence (filter (\<lambda>v. ge_device_id v = j) (cg_events s @ [e])))" for j
    using assms(2,6) new by (auto simp: events_inv_def)
  then have "distinct (map ge_sequence (filter (\<lambda>v. ge_device_id v = j) (cg_events s')))" for j unfolding n by (rule distinct_drop_filter)
  then show ?thesis using r(2,3) 1 unfolding events_inv_def by blast
qed

text \<open>The sequence that a step records for a device, if it does.\<close>

fun recorded_by :: "library \<Rightarrow> utext \<Rightarrow> gateway_op \<Rightarrow> ConnectorGateway \<Rightarrow> int list" where
  "recorded_by l j (AppendEvent d k p g) s =
     (case fst (append_runtime_event l d k p g s) of Inr (EventRecorded e w) \<Rightarrow> if ge_device_id e = j then [ge_sequence e] else [] | _ \<Rightarrow> [])"
| "recorded_by l j _ s = []"

lemma step_events_kept:
  assumes "\<And>d k q g. p \<noteq> AppendEvent d k q g"
  shows "cg_events (gateway_step l p s) = cg_events s" "cg_event_ack_watermarks (gateway_step l p s) = cg_event_ack_watermarks s"
    "cg_event_pending_sequences (gateway_step l p s) = cg_event_pending_sequences s" "recorded_by l j p s = []"
  using assms by (cases p; simp)+

lemma step_events:
  assumes "events_inv s"
  shows "events_inv (gateway_step l p s) \<and> received (gateway_step l p s) j = received s j \<union> set (recorded_by l j p s)
    \<and> set (recorded_by l j p s) \<inter> received s j = {} \<and> distinct (recorded_by l j p s)"
proof (cases "\<exists>d k q g. p = AppendEvent d k q g")
  case True
  then obtain d k q g where AppendEvent: "p = AppendEvent d k q g" by blast
  obtain x s' where a: "append_runtime_event l d k q g s = (x, s')" by fastforce
  then show ?thesis
  proof (cases rule: append_event_cases)
    case (error e)
    then show ?thesis using assms AppendEvent a by simp
  next
    case (repeated y)
    have "events_inv (with_pending s k)" by (rule events_inv_same [OF _ _ _ assms]) simp_all
    then show ?thesis using repeated(1,3) AppendEvent a repeated(2) by (cases y) (auto simp: received_def)
  next
    case (recorded dv b n)
    let ?e = "new_event l d k q n"
    have s: "ge_device_id ?e = k" "0 < ge_sequence ?e" "ack_watermark s k < ge_sequence ?e" "ge_sequence ?e \<notin> set (pending_of s k)" using recorded by simp_all
    note r = recorded_received [OF recorded(9) s(1-3) assms]
    have "ge_sequence ?e \<notin> received s k" using s(3,4) by (simp add: received_def)
    then show ?thesis using recorded_inv [OF recorded(9) s assms] r(1) [of j] r(4) AppendEvent a by (cases "j = k") auto
  qed
next
  case False
  then have no: "p \<noteq> AppendEvent d k q g" for d k q g by blast
  note kept = step_events_kept [OF no]
  have "received (gateway_step l p s) j = received s j" using kept(2,3) by (simp add: received_def ack_watermark_def pending_of_def)
  moreover have "events_inv (gateway_step l p s)" by (rule events_inv_same [OF kept(1) same_watermarks [OF kept(2)] same_pending [OF kept(3)] assms])
  ultimately show ?thesis using kept(4) by simp
qed

section \<open>Pairings\<close>

lemma fold_expired_pairings:
  fixes items :: "(utext \<times> pairing) list" and now :: int
  defines "f \<equiv> (\<lambda>(code, r) s. if expired_pairing now r
         then s\<lparr>cg_pairings_by_device_code := ddel (cg_pairings_by_device_code s) (gp_device_code_hash r), cg_pairings := ddel (cg_pairings s) code\<rparr> else s)"
  shows "dget (cg_pairings (fold f items s)) code = (if \<exists>r. (code, r) \<in> set items \<and> expired_pairing now r then None else dget (cg_pairings s) code)"
    "distinct (dkeys (cg_pairings s)) \<Longrightarrow> distinct (dkeys (cg_pairings (fold f items s)))"
  unfolding f_def by (induction items arbitrary: s) (auto simp: dict_get distinct_delete)

lemma remove_expired_get:
  assumes "distinct (dkeys (cg_pairings s))"
  shows "dget (cg_pairings (remove_expired_pairings now s)) code
    = (case dget (cg_pairings s) code of None \<Rightarrow> None | Some r \<Rightarrow> if expired_pairing now r then None else Some r)"
  using assms unfolding remove_expired_pairings_def fold_expired_pairings(1)
  by (auto split: option.splits dest: map_of_SomeD eq_key_imp_eq_value)

lemma remove_expired_keys: "distinct (dkeys (cg_pairings s)) \<Longrightarrow> distinct (dkeys (cg_pairings (remove_expired_pairings now s)))"
  unfolding remove_expired_pairings_def by (rule fold_expired_pairings(2))

text \<open>How a pairing of a state came about in the last step.\<close>

inductive pairing_from :: "gateway_op \<Rightarrow> ConnectorGateway \<Rightarrow> utext \<Rightarrow> pairing \<Rightarrow> bool" for p s code where
  same: "dget (cg_pairings s) code = Some r \<Longrightarrow> pairing_from p s code r"
| created: "gp_status r = PairingPending \<Longrightarrow> gp_owner_id r = None \<Longrightarrow> gp_device_id r = None \<Longrightarrow> pairing_from p s code r"
| expired: "dget (cg_pairings s) code = Some r \<Longrightarrow> open_pairing r \<Longrightarrow> pairing_from p s code (r\<lparr>gp_status := PairingExpired\<rparr>)"
| approved: "p = ApprovePairing d c u \<Longrightarrow> dget (cg_pairings s) code = Some r \<Longrightarrow> gp_status r = PairingPending \<Longrightarrow> dr_now d < gp_expires_at r
    \<Longrightarrow> pairing_from p s code (r\<lparr>gp_owner_id := Some u, gp_status := PairingApproved, gp_approved_at := Some (dr_now d)\<rparr>)"
| consumed: "p = ExchangePairing d c \<Longrightarrow> dget (cg_pairings s) code = Some r \<Longrightarrow> gp_status r = PairingApproved \<Longrightarrow> dr_now d < gp_expires_at r
    \<Longrightarrow> pairing_from p s code (r\<lparr>gp_status := PairingConsumed, gp_consumed_at := Some (dr_now d), gp_device_id := Some (new_id d ''device'')\<rparr>)"

lemma refresh_from: "dget (cg_pairings s) code = Some r \<Longrightarrow> pairing_from p s code (refresh_pairing_expiry now r)"
  by (auto simp: refresh_pairing_expiry_def intro: pairing_from.intros)

lemma approve_pairings:
  assumes "approve_pairing l d c u s = (x, s')"
  obtains (error) "cg_pairings s' = cg_pairings s"
    | (refreshed) code r where "dget (cg_pairings s) code = Some r" "cg_pairings s' = dput (cg_pairings s) code (refresh_pairing_expiry (dr_now d) r)"
    | (approved) code r where "dget (cg_pairings s) code = Some r" "gp_status r = PairingPending" "dr_now d < gp_expires_at r"
        "cg_pairings s' = dput (cg_pairings s) code (r\<lparr>gp_owner_id := Some u, gp_status := PairingApproved, gp_approved_at := Some (dr_now d)\<rparr>)"
proof (cases "get_pairing l s c")
  case (Inl e)
  then show thesis using assms error by (auto simp: approve_pairing_def attempt_def)
next
  case (Inr r)
  have k: "dget (cg_pairings s) (normalize_code l c) = Some r" using Inr by (auto simp: get_pairing_def split: option.splits)
  let ?r = "refresh_pairing_expiry (dr_now d) r"
  show thesis
  proof (cases "gp_status ?r = PairingPending \<and> \<not> (gp_owner_id ?r \<noteq> None \<and> gp_owner_id ?r \<noteq> Some u)")
    case True
    then have r: "?r = r" "gp_status r = PairingPending" "dr_now d < gp_expires_at r" by (auto simp: refresh_pairing_expiry_def open_pairing_def split: if_splits)
    show thesis by (rule approved [OF k r(2,3)]) (use assms Inr True r in \<open>auto simp: approve_pairing_def attempt_def Let_def\<close>)
  next
    case False
    show thesis by (rule refreshed [OF k]) (use assms Inr False in \<open>cases "gp_status ?r"; auto simp: approve_pairing_def attempt_def Let_def\<close>)
  qed
qed

lemma exchange_pairings:
  assumes "exchange_pairing l d c s = (x, s')"
  obtains (error) "cg_pairings s' = cg_pairings s" "cg_devices s' = cg_devices s"
    | (refreshed) code r where "dget (cg_pairings s) code = Some r" "cg_pairings s' = dput (cg_pairings s) code (refresh_pairing_expiry (dr_now d) r)"
        "cg_devices s' = cg_devices s"
    | (consumed) code r h where "dget (cg_pairings s) code = Some r" "gp_status r = PairingApproved" "dr_now d < gp_expires_at r"
        "cg_pairings s' = dput (cg_pairings s) code (r\<lparr>gp_status := PairingConsumed, gp_consumed_at := Some (dr_now d), gp_device_id := Some (new_id d ''device'')\<rparr>)"
        "cg_devices s' = dput (cg_devices s) (new_id d ''device'') (enrolled_device d r h)"
proof (cases "digest_secret c")
  case (Inl e)
  then show thesis using assms error by (auto simp: exchange_pairing_def attempt_def)
next
  case (Inr h)
  note h = this
  show thesis
  proof (cases "dget (cg_pairings_by_device_code s) h")
    case None
    then show thesis using assms error h by (auto simp: exchange_pairing_def attempt_def)
  next
    case (Some code)
    note code = this
    show thesis
    proof (cases "get_pairing l s code")
      case (Inl e)
      then show thesis using assms error h code by (auto simp: exchange_pairing_def attempt_def)
    next
      case (Inr r)
      have k: "dget (cg_pairings s) (normalize_code l code) = Some r" using Inr by (auto simp: get_pairing_def split: option.splits)
      let ?r = "refresh_pairing_expiry (dr_now d) r"
      note go = assms [unfolded exchange_pairing_def h attempt_def sum.case code option.case Inr Let_def]
      show thesis
      proof (cases "gp_status ?r = PairingApproved \<and> (\<exists>t. digest_secret (dr_secret d) = Inr t)")
        case True
        then have r: "?r = r" "gp_status r = PairingApproved" "dr_now d < gp_expires_at r" by (auto simp: refresh_pairing_expiry_def open_pairing_def split: if_splits)
        obtain t where t: "digest_secret (dr_secret d) = Inr t" using True by blast
        show thesis by (rule consumed [OF k r(2,3), of t]) (use go True r t in \<open>auto simp: enrolled_device_def\<close>)
      next
        case False
        show thesis by (rule refreshed [OF k]) (use go False in \<open>cases "gp_status ?r"; cases "digest_secret (dr_secret d)"; auto\<close>)+
      qed
    qed
  qed
qed


text \<open>A step makes every pairing of its result from one of the state before, and keeps the consumed ones.\<close>

lemma put_from:
  assumes "dget (dput (cg_pairings s) code r) k = Some q" "pairing_from p s code r"
  shows "pairing_from p s k q"
  using assms by (auto simp: dict_get intro: pairing_from.same split: if_splits)

lemma create_from:
  assumes "distinct (dkeys (cg_pairings s))" "dget (cg_pairings (snd (create_pairing d q n s))) code = Some r"
  shows "pairing_from p s code r"
proof -
  have old: "pairing_from p s code r" if "dget (cg_pairings (remove_expired_pairings (dr_now d) s)) code = Some r"
    using that remove_expired_get [OF assms(1)] by (auto intro: pairing_from.same split: option.splits if_splits)
  show ?thesis using assms(2) old
    by (auto simp: create_pairing_def Let_def snd_simps dict_get intro: pairing_from.created split: sum.splits if_splits)
qed

lemma step_pairing_from:
  assumes "distinct (dkeys (cg_pairings s))" "dget (cg_pairings (gateway_step l p s)) code = Some r"
  shows "pairing_from p s code r"
proof (cases p)
  case (CreatePairing d q n)
  then show ?thesis using create_from [OF assms(1)] assms(2) by simp
next
  case (ApprovePairing d c u)
  obtain x s' where a: "approve_pairing l d c u s = (x, s')" by fastforce
  then show ?thesis
    by (cases rule: approve_pairings)
      (use assms(2) ApprovePairing a in \<open>auto intro: pairing_from.same pairing_from.approved refresh_from put_from\<close>)
next
  case (ExchangePairing d c)
  obtain x s' where a: "exchange_pairing l d c s = (x, s')" by fastforce
  then show ?thesis
    by (cases rule: exchange_pairings)
      (use assms(2) ExchangePairing a in \<open>auto intro: pairing_from.same pairing_from.consumed refresh_from put_from\<close>)
qed (use assms(2) in \<open>auto intro: pairing_from.same\<close>)

lemma put_consumed:
  assumes "dget d code = Some r" "gp_status r = PairingConsumed" "dget d k = Some q" "gp_status q \<noteq> PairingConsumed \<or> q' = q"
  shows "dget (dput d k q') code = Some r"
  using assms by (auto simp: dict_get)

lemma refresh_consumed: "gp_status r \<noteq> PairingConsumed \<or> refresh_pairing_expiry now r = r"
  by (auto simp: refresh_pairing_expiry_def open_pairing_def)

lemma step_consumed:
  assumes "distinct (dkeys (cg_pairings s))" "gateway_ok p s" "dget (cg_pairings s) code = Some r" "gp_status r = PairingConsumed"
  shows "dget (cg_pairings (gateway_step l p s)) code = Some r"
proof (cases p)
  case (CreatePairing d q n)
  have "\<not> expired_pairing (dr_now d) r" using assms(4) by (simp add: expired_pairing_def open_pairing_def)
  then have "dget (cg_pairings (remove_expired_pairings (dr_now d) s)) code = Some r" using remove_expired_get [OF assms(1)] assms(3) by simp
  then show ?thesis using CreatePairing assms(2)
    by (auto simp: create_pairing_def Let_def snd_simps dict_get unique_user_code_def split: sum.splits)
next
  case (ApprovePairing d c u)
  obtain x s' where a: "approve_pairing l d c u s = (x, s')" by fastforce
  then show ?thesis
    by (cases rule: approve_pairings)
      (use assms(3,4) ApprovePairing a refresh_consumed in \<open>auto intro!: put_consumed [OF assms(3,4)]\<close>)
next
  case (ExchangePairing d c)
  obtain x s' where a: "exchange_pairing l d c s = (x, s')" by fastforce
  then show ?thesis
    by (cases rule: exchange_pairings)
      (use assms(3,4) ExchangePairing a refresh_consumed in \<open>auto intro!: put_consumed [OF assms(3,4)]\<close>)
qed (use assms(3) in simp_all)

lemma step_pairing_keys: "distinct (dkeys (cg_pairings s)) \<Longrightarrow> distinct (dkeys (cg_pairings (gateway_step l p s)))"
  by (cases p) (auto simp: create_pairing_def approve_pairing_def exchange_pairing_def Let_def snd_simps distinct_update remove_expired_keys
      split: sum.splits option.splits)

text \<open>What an enrolled device rests on: a pairing that its owner approved and that was exchanged, both in time.\<close>

definition enrolled_by :: "pairing \<Rightarrow> utext \<Rightarrow> device \<Rightarrow> bool" where
  "enrolled_by r k dv \<longleftrightarrow> gp_status r = PairingConsumed \<and> gp_device_id r = Some k \<and> gd_device_id dv = k
     \<and> gp_owner_id r \<noteq> None \<and> gp_owner_id r = gd_owner_id dv
     \<and> (\<exists>a c. gp_approved_at r = Some a \<and> a < gp_expires_at r \<and> gp_consumed_at r = Some c \<and> c < gp_expires_at r)"

definition pairing_wf :: "ConnectorGateway \<Rightarrow> pairing \<Rightarrow> bool" where
  "pairing_wf s r \<longleftrightarrow>
     (case gp_status r of
        PairingPending \<Rightarrow> gp_owner_id r = None \<and> gp_device_id r = None
      | PairingApproved \<Rightarrow> gp_owner_id r \<noteq> None \<and> (\<exists>a. gp_approved_at r = Some a \<and> a < gp_expires_at r) \<and> gp_device_id r = None
      | PairingExpired \<Rightarrow> gp_device_id r = None
      | PairingConsumed \<Rightarrow> \<exists>k dv. dget (cg_devices s) k = Some dv \<and> enrolled_by r k dv)"

definition pairings_inv :: "ConnectorGateway \<Rightarrow> bool" where
  "pairings_inv s \<longleftrightarrow> distinct (dkeys (cg_pairings s)) \<and> (\<forall>code r. dget (cg_pairings s) code = Some r \<longrightarrow> pairing_wf s r)
     \<and> (\<forall>k dv. dget (cg_devices s) k = Some dv \<longrightarrow> (\<exists>!code. \<exists>r. dget (cg_pairings s) code = Some r \<and> gp_device_id r = Some k))"

lemma pairing_wf_device: "pairing_wf s r \<Longrightarrow> gp_device_id r = Some k \<Longrightarrow> gp_status r = PairingConsumed \<and> (\<exists>dv. dget (cg_devices s) k = Some dv \<and> enrolled_by r k dv)"
  by (auto simp: pairing_wf_def enrolled_by_def split: PairingStatus.splits)

lemma wf_next:
  assumes "gateway_ok p s" "pairing_wf s r"
  shows "pairing_wf (gateway_step l p s) r"
proof (cases "gp_status r = PairingConsumed")
  case True
  then obtain k dv where k: "dget (cg_devices s) k = Some dv" "enrolled_by r k dv" using assms(2) by (auto simp: pairing_wf_def)
  then obtain dv' where "dget (cg_devices (gateway_step l p s)) k = Some dv'" "device_next dv dv'" using step_device [OF assms(1)] by blast
  moreover have "enrolled_by r k dv'" using k(2) \<open>device_next dv dv'\<close> by (auto simp: enrolled_by_def device_next_def)
  ultimately show ?thesis using True by (auto simp: pairing_wf_def)
qed (use assms(2) in \<open>auto simp: pairing_wf_def split: PairingStatus.splits\<close>)

lemma pairings_wf: "pairings_inv s \<Longrightarrow> dget (cg_pairings s) code = Some r \<Longrightarrow> pairing_wf s r"
  by (simp add: pairings_inv_def)

lemma open_no_device: "pairing_wf s r \<Longrightarrow> gp_status r \<noteq> PairingConsumed \<Longrightarrow> gp_device_id r = None"
  by (auto simp: pairing_wf_def split: PairingStatus.splits)

text \<open>The pairing of a device that was there before the step was there as well.\<close>

lemma from_old_device:
  assumes "pairings_inv s" "gateway_ok p s" "dget (cg_devices s) k \<noteq> None" "gp_device_id r = Some k" "pairing_from p s code r"
  shows "dget (cg_pairings s) code = Some r"
  using assms(5)
proof (cases rule: pairing_from.cases)
  case (expired q)
  then show ?thesis using open_no_device [OF pairings_wf [OF assms(1) expired(2)]] assms(4) by (auto simp: open_pairing_def)
next
  case (approved d c u q)
  then show ?thesis using open_no_device [OF pairings_wf [OF assms(1) approved(3)]] assms(4) by simp
next
  case (consumed d c q)
  then show ?thesis using assms(2-4) by simp
qed (use assms(4) in auto)

text \<open>A new device comes with the pairing that was exchanged for it, and with that one alone.\<close>

lemma new_device:
  assumes "pairings_inv s" "gateway_ok p s" "dget (cg_devices s) k = None" "dget (cg_devices (gateway_step l p s)) k = Some dv"
  obtains code r where "dget (cg_pairings (gateway_step l p s)) code = Some r" "enrolled_by r k dv"
    "\<And>code' r'. dget (cg_pairings (gateway_step l p s)) code' = Some r' \<Longrightarrow> gp_device_id r' = Some k \<Longrightarrow> code' = code"
proof -
  obtain d c where p: "p = ExchangePairing d c" using step_device_new [OF assms(3,4)] by metis
  obtain x s' where a: "exchange_pairing l d c s = (x, s')" by fastforce
  then show thesis
  proof (cases rule: exchange_pairings)
    case (consumed code r h)
    have k: "k = new_id d ''device''" "dv = enrolled_device d r h" using assms(3,4) p a consumed(5) by (auto simp: dict_get split: if_splits)
    have wf: "pairing_wf s r" using assms(1) consumed(1) by (rule pairings_wf)
    show thesis
    proof (rule that)
      show "enrolled_by (r\<lparr>gp_status := PairingConsumed, gp_consumed_at := Some (dr_now d), gp_device_id := Some (new_id d ''device'')\<rparr>) k dv"
        using wf consumed(2,3) k by (auto simp: enrolled_by_def pairing_wf_def enrolled_device_def)
      show "code' = code" if "dget (cg_pairings (gateway_step l p s)) code' = Some r'" "gp_device_id r' = Some k" for code' r'
      proof (rule ccontr)
        assume "code' \<noteq> code"
        then have "dget (cg_pairings s) code' = Some r'" using that(1) p a consumed(4) by (simp add: dict_get)
        then show False using pairing_wf_device [OF pairings_wf [OF assms(1)] that(2)] assms(3) by simp
      qed
    qed (use p a consumed(4) in \<open>simp add: dict_get\<close>)
  qed (use p a assms(3,4) in simp_all)
qed

lemma pairings_step_wf:
  assumes "pairings_inv s" "gateway_ok p s" "dget (cg_pairings (gateway_step l p s)) code = Some r"
  shows "pairing_wf (gateway_step l p s) r"
proof -
  have "distinct (dkeys (cg_pairings s))" using assms(1) by (simp add: pairings_inv_def)
  from step_pairing_from [OF this assms(3)] show ?thesis
  proof (cases rule: pairing_from.cases)
    case same
    then show ?thesis using wf_next [OF assms(2)] pairings_wf [OF assms(1)] by blast
  next
    case (expired q)
    then show ?thesis using open_no_device [OF pairings_wf [OF assms(1) expired(2)]] by (auto simp: pairing_wf_def open_pairing_def)
  next
    case (approved d c u q)
    then show ?thesis using open_no_device [OF pairings_wf [OF assms(1) approved(3)]] by (simp add: pairing_wf_def)
  next
    case (consumed d c q)
    obtain x s' where a: "exchange_pairing l d c s = (x, s')" by fastforce
    have dev: "gp_device_id r = Some (new_id d ''device'')" "gp_status r = PairingConsumed" using consumed(1) by simp_all
    have new: "dget (cg_devices s) (new_id d ''device'') = None" using assms(2) consumed(2) by simp
    from a have "\<exists>dv. dget (cg_devices s') (new_id d ''device'') = Some dv"
    proof (cases rule: exchange_pairings)
      case error
      then have "dget (cg_pairings s) code = Some r" using assms(3) consumed(2) a by simp
      then show ?thesis using pairing_wf_device [OF pairings_wf [OF assms(1)], of code r] consumed(1) new by simp
    next
      case (refreshed code' q')
      then have "dget (cg_pairings s) code = Some r \<or> r = refresh_pairing_expiry (dr_now d) q'" using assms(3) consumed(2) a by (auto simp: dict_get split: if_splits)
      moreover have "gp_device_id (refresh_pairing_expiry (dr_now d) q') = gp_device_id q'" by (simp add: refresh_pairing_expiry_def)
      ultimately have "\<exists>code r. dget (cg_pairings s) code = Some r \<and> gp_device_id r = Some (new_id d ''device'')" using dev(1) refreshed(1) by metis
      then show ?thesis using pairing_wf_device [OF pairings_wf [OF assms(1)]] new by fastforce
    qed (simp add: dict_get)
    then obtain dv where dv: "dget (cg_devices (gateway_step l p s)) (new_id d ''device'') = Some dv" using consumed(2) a by auto
    obtain code' r' where "dget (cg_pairings (gateway_step l p s)) code' = Some r'" "enrolled_by r' (new_id d ''device'') dv"
      "code = code'" using new_device [OF assms(1,2) new dv] assms(3) dev(1) by metis
    then show ?thesis using assms(3) dv dev(2) by (auto simp: pairing_wf_def)
  qed (simp add: pairing_wf_def)
qed

lemma pairings_inv_step:
  assumes "pairings_inv s" "gateway_ok p s"
  shows "pairings_inv (gateway_step l p s)"
proof -
  let ?s = "gateway_step l p s"
  have keys: "distinct (dkeys (cg_pairings s))" using assms(1) by (simp add: pairings_inv_def)
  have "\<exists>!code. \<exists>r. dget (cg_pairings ?s) code = Some r \<and> gp_device_id r = Some k" if k: "dget (cg_devices ?s) k = Some dv" for k dv
  proof (cases "dget (cg_devices s) k")
    case None
    from new_device [OF assms None k] show ?thesis unfolding enrolled_by_def by metis
  next
    case (Some dv0)
    then obtain code r where r: "dget (cg_pairings s) code = Some r" "gp_device_id r = Some k"
      and one: "\<And>code' r'. dget (cg_pairings s) code' = Some r' \<Longrightarrow> gp_device_id r' = Some k \<Longrightarrow> code' = code"
      using assms(1) unfolding pairings_inv_def by metis
    have "gp_status r = PairingConsumed" using pairing_wf_device [OF pairings_wf [OF assms(1) r(1)] r(2)] by simp
    then have "dget (cg_pairings ?s) code = Some r" using step_consumed [OF keys assms(2) r(1)] by simp
    moreover have "code' = code" if "dget (cg_pairings ?s) code' = Some r'" "gp_device_id r' = Some k" for code' r'
      using one [OF from_old_device [OF assms _ that(2) step_pairing_from [OF keys that(1)]] that(2)] Some by simp
    ultimately show ?thesis using r(2) by metis
  qed
  then show ?thesis using step_pairing_keys [OF keys] pairings_step_wf [OF assms] unfolding pairings_inv_def by blast
qed

section \<open>The invariant of a run\<close>

text \<open>A result belongs to a task that was dispatched to its binding.\<close>

definition results_inv :: "ConnectorGateway \<Rightarrow> bool" where
  "results_inv s \<longleftrightarrow> (\<forall>t r. dget (cg_agent_task_results s) t = Some r \<longrightarrow> gr_task_id r = t
     \<and> (\<exists>c. dget (cg_commands s) (gr_command_id r) = Some c \<and> dispatched_task (gr_binding_id r) t c)
     \<and> (\<exists>b. dget (cg_bindings s) (gr_binding_id r) = Some b \<and> gb_device_id b = gr_device_id r))"

definition gateway_inv :: "library \<Rightarrow> ConnectorGateway \<Rightarrow> bool" where
  "gateway_inv l s \<longleftrightarrow> pairings_inv s \<and> bindings_inv s \<and> commands_inv l s \<and> results_inv s \<and> events_inv s"

lemma devices_keyed:
  assumes "pairings_inv s" "dget (cg_devices s) k = Some dv"
  shows "gd_device_id dv = k"
proof -
  obtain code r where r: "dget (cg_pairings s) code = Some r" "gp_device_id r = Some k" using assms unfolding pairings_inv_def by blast
  then show ?thesis using pairing_wf_device [OF pairings_wf [OF assms(1) r(1)] r(2)] assms(2) by (auto simp: enrolled_by_def)
qed

lemma command_kept:
  assumes "commands_step l s s'" "dget (cg_commands s) k = Some c"
  shows "\<exists>c'. dget (cg_commands s') k = Some c' \<and> command_next c c'"
  using assms
proof cases
  case moved
  then show ?thesis using moved_get assms(2) by fast
next
  case (added c0)
  then show ?thesis using assms(2) by (auto simp: map_add_Some_iff)
qed

lemma bound_runtime_kept:
  assumes "bindings_step s s'" "dget (cg_bindings s) k = Some b"
  shows "\<exists>b'. dget (cg_bindings s') k = Some b' \<and> binding_next b b'"
  using assms
proof cases
  case moved
  then show ?thesis using moved_get assms(2) by fast
next
  case (added b0)
  then show ?thesis using assms(2) by (auto simp: map_add_Some_iff)
qed

lemma inv_step_commands: "gateway_inv l s \<Longrightarrow> gateway_ok p s \<Longrightarrow> commands_step l s (gateway_step l p s)"
  by (rule step_commands) (simp_all add: gateway_inv_def bindings_inv_def)

lemma inv_step_bindings: "gateway_inv l s \<Longrightarrow> gateway_ok p s \<Longrightarrow> bindings_step s (gateway_step l p s)"
  using devices_keyed by (intro step_bindings) (auto simp: gateway_inv_def bindings_inv_def)

lemma dispatched_kept: "command_next c c' \<Longrightarrow> dispatched_task b t c \<Longrightarrow> dispatched_task b t c'"
  by (simp add: command_next_def same_request_def dispatched_task_def)

lemma result_wf_kept:
  assumes "gateway_inv l s" "gateway_ok p s" "dget (cg_commands s) k = Some c" "dispatched_task b t c" "dget (cg_bindings s) b = Some bd"
  shows "(\<exists>c. dget (cg_commands (gateway_step l p s)) k = Some c \<and> dispatched_task b t c)
    \<and> (\<exists>b'. dget (cg_bindings (gateway_step l p s)) b = Some b' \<and> gb_device_id b' = gb_device_id bd)"
  using command_kept [OF inv_step_commands [OF assms(1,2)] assms(3)] bound_runtime_kept [OF inv_step_bindings [OF assms(1,2)] assms(5)] dispatched_kept [OF _ assms(4)]
  unfolding binding_next_def by blast

lemma results_inv_step:
  assumes "gateway_inv l s" "gateway_ok p s"
  shows "results_inv (gateway_step l p s)"
proof -
  let ?s = "gateway_step l p s"
  have wf: "gr_task_id r = t \<and> (\<exists>c. dget (cg_commands s) (gr_command_id r) = Some c \<and> dispatched_task (gr_binding_id r) t c)
     \<and> (\<exists>b. dget (cg_bindings s) (gr_binding_id r) = Some b \<and> gb_device_id b = gr_device_id r)"
    if new: "dget (cg_agent_task_results ?s) t = Some r" for t r
  proof (cases "dget (cg_agent_task_results s) t = Some r")
    case True
    then show ?thesis using assms(1) by (simp add: gateway_inv_def results_inv_def)
  next
    case False
    then obtain d k q g where p: "p = SubmitResult d k q g" using new by (cases p) auto
    obtain x s' where a: "submit_agent_task_result l d k q g s = (x, s')" by fastforce
    then show ?thesis
    proof (cases rule: submit_cases)
      case (accepted r' c b)
      have "r' = r" "gr_task_id r = t" using new False p a accepted(4) by (auto simp: dict_get split: if_splits)
      obtain i where "(i, c) \<in> set (cg_commands s)" using accepted(5) by force
      moreover have "distinct (dkeys (cg_commands s))" "\<And>k c. dget (cg_commands s) k = Some c \<Longrightarrow> gc_command_id c = k"
        using assms(1) by (simp_all add: gateway_inv_def commands_inv_def)
      ultimately have "dget (cg_commands s) (gc_command_id c) = Some c" by (metis map_of_is_SomeI)
      then show ?thesis using accepted \<open>r' = r\<close> \<open>gr_task_id r = t\<close> by auto
    qed (use new False p a in simp_all)
  qed
  show ?thesis unfolding results_inv_def
  proof (intro allI impI)
    fix t r assume "dget (cg_agent_task_results ?s) t = Some r"
    from wf [OF this] obtain c b where "gr_task_id r = t" "dget (cg_commands s) (gr_command_id r) = Some c" "dispatched_task (gr_binding_id r) t c"
      "dget (cg_bindings s) (gr_binding_id r) = Some b" "gb_device_id b = gr_device_id r" by blast
    then show "gr_task_id r = t \<and> (\<exists>c. dget (cg_commands ?s) (gr_command_id r) = Some c \<and> dispatched_task (gr_binding_id r) t c)
        \<and> (\<exists>b. dget (cg_bindings ?s) (gr_binding_id r) = Some b \<and> gb_device_id b = gr_device_id r)"
      using result_wf_kept [OF assms, of "gr_command_id r" c "gr_binding_id r" t b] by simp
  qed
qed

interpretation gateway: invariant_machine "gateway_step l" gateway_ok "gateway_inv l" for l
proof unfold_locales
  fix s p assume inv: "gateway_inv l s" and ok: "gateway_ok p s"
  then have parts: "pairings_inv s" "bindings_inv s" "commands_inv l s" "events_inv s" by (simp_all add: gateway_inv_def)
  show "gateway_inv l (gateway_step l p s)" unfolding gateway_inv_def
    using pairings_inv_step [OF parts(1) ok] bindings_inv_step [OF inv_step_bindings [OF inv ok] parts(2)]
      commands_inv_step [OF inv_step_commands [OF inv ok] parts(3)] results_inv_step [OF inv ok] step_events [OF parts(4)] by blast
qed

abbreviation gateway_run :: "library \<Rightarrow> int \<Rightarrow> gateway_op list \<Rightarrow> bool" where
  "gateway_run l n ops \<equiv> gateway.admissible l ops (ConnectorGateway_new n)"

definition gateway_after :: "library \<Rightarrow> int \<Rightarrow> gateway_op list \<Rightarrow> ConnectorGateway" where
  "gateway_after l n ops = fold (gateway_step l) ops (ConnectorGateway_new n)"

lemma gateway_new_inv: "gateway_inv l (ConnectorGateway_new n)"
  by (simp add: gateway_inv_def pairings_inv_def bindings_inv_def commands_inv_def results_inv_def events_inv_def ConnectorGateway_new_def
      matching_commands_def ack_watermark_def pending_of_def)

lemma gateway_after_inv: "gateway_run l n ops \<Longrightarrow> gateway_inv l (gateway_after l n ops)"
  unfolding gateway_after_def by (rule gateway.run_inv [OF gateway_new_inv])

lemma gateway_run_append: "gateway_run l n (ops @ ops') \<longleftrightarrow> gateway_run l n ops \<and> gateway.admissible l ops' (gateway_after l n ops)"
  by (simp add: gateway.admissible_append gateway_after_def)

lemma gateway_after_append: "gateway_after l n (ops @ ops') = fold (gateway_step l) ops' (gateway_after l n ops)"
  by (simp add: gateway_after_def)

text \<open>A relation between a state and its successor that is reflexive and transitive holds along a run.\<close>

lemma gateway_run_rel:
  assumes "gateway_inv l s" "gateway.admissible l ops s" "\<And>x. R x x" "\<And>x y z. R x y \<Longrightarrow> R y z \<Longrightarrow> R x z"
    "\<And>p s. gateway_inv l s \<Longrightarrow> gateway_ok p s \<Longrightarrow> R s (gateway_step l p s)"
  shows "R s (fold (gateway_step l) ops s)"
  using assms(1,2)
proof (induction ops arbitrary: s)
  case (Cons p ops)
  have "R s (gateway_step l p s)" using Cons.prems assms(5) by simp
  moreover have "R (gateway_step l p s) (fold (gateway_step l) ops (gateway_step l p s))"
    using Cons.prems gateway.step_inv [of l s p] by (intro Cons.IH) simp_all
  ultimately show ?case using assms(4) by simp
qed (simp add: assms(3))

lemma run_device:
  assumes "gateway_inv l s" "gateway.admissible l ops s" "dget (cg_devices s) k = Some dv"
  shows "\<exists>dv'. dget (cg_devices (fold (gateway_step l) ops s)) k = Some dv' \<and> device_next dv dv'"
proof -
  let ?R = "\<lambda>s s'. \<forall>k dv. dget (cg_devices s) k = Some dv \<longrightarrow> (\<exists>dv'. dget (cg_devices s') k = Some dv' \<and> device_next dv dv')"
  have "?R s (fold (gateway_step l) ops s)"
    by (rule gateway_run_rel [OF assms(1,2), where R = ?R]) (simp, meson device_next_trans, simp add: step_device)
  then show ?thesis using assms(3) by blast
qed

end
