(* ===== verification/Arena_Gateway_Properties.thy ===== *)
theory Arena_Gateway_Properties
  imports Arena_Gateway_Invariant
begin

text \<open>
  What the connector gateway promises along any run of its calls: exact acknowledgements of events, enrolment only by
  consent, final revocations, fenced connections, commands and results that happen once, one binding per runtime and
  ordered delivery, each with a concrete run.
\<close>

section \<open>Acknowledged events\<close>

text \<open>The sequences that a run records for a device, in order.\<close>

fun recorded_run :: "library \<Rightarrow> utext \<Rightarrow> gateway_op list \<Rightarrow> ConnectorGateway \<Rightarrow> int list" where
  "recorded_run l k [] s = []"
| "recorded_run l k (p # ops) s = recorded_by l k p s @ recorded_run l k ops (gateway_step l p s)"

fun event_ack :: "event_answer \<Rightarrow> int" where
  "event_ack (EventRetained e w) = w"
| "event_ack (EventDuplicate n w) = w"
| "event_ack (EventRecorded e w) = w"

lemma recorded_run_spec:
  assumes "events_inv s"
  shows "events_inv (fold (gateway_step l) ops s) \<and> received (fold (gateway_step l) ops s) k = received s k \<union> set (recorded_run l k ops s)
    \<and> received s k \<inter> set (recorded_run l k ops s) = {} \<and> distinct (recorded_run l k ops s)"
  using assms
proof (induction ops arbitrary: s)
  case (Cons p ops)
  note step = step_events [OF Cons.prems, of l p k]
  then have "events_inv (gateway_step l p s)" by blast
  from Cons.IH [OF this] step show ?case by auto
qed simp

lemma recorded_run_append: "recorded_run l k (ops @ ops') s = recorded_run l k ops s @ recorded_run l k ops' (fold (gateway_step l) ops s)"
  by (induction ops arbitrary: s) simp_all

lemma received_ack: "events_inv s \<Longrightarrow> {1..ack_watermark s k} \<subseteq> received s k \<and> ack_watermark s k + 1 \<notin> received s k"
  by (fastforce simp: events_inv_def received_def)

lemma append_answer:
  assumes "events_inv s" "append_runtime_event l d k p g s = (Inr a, s')"
  shows "event_ack a = ack_watermark s' k"
  using assms(2)
proof (cases rule: append_event_cases)
  case (repeated y)
  from assms(2) have "event_ack a = ack_watermark (with_pending s k) k \<or> (\<exists>e w. a = EventRecorded e w)"
    by (auto simp: append_runtime_event_def attempt_def Let_def record_event_def split: sum.splits option.splits if_splits prod.splits)
  then show ?thesis using repeated by auto
next
  case (recorded dv b n)
  then show ?thesis using recorded_received(4) [OF recorded(9) _ _ _ assms(1)] by simp
qed simp

text \<open>Property C21: the acknowledgement with which the gateway answers a runtime event is exact: over a whole run no sequence of a
  device is recorded twice, every sequence up to the acknowledged one has been recorded, and the next one has not.\<close>

theorem event_acks_exact:
  assumes "gateway_run l n ops" "append_runtime_event l d k p g (gateway_after l n ops) = (Inr a, s')"
    "r = recorded_run l k (ops @ [AppendEvent d k p g]) (ConnectorGateway_new n)"
  shows "distinct r \<and> {1..event_ack a} \<subseteq> set r \<and> event_ack a + 1 \<notin> set r \<and> 0 \<le> event_ack a"
proof -
  let ?ops = "ops @ [AppendEvent d k p g]"
  have new: "events_inv (ConnectorGateway_new n)" "received (ConnectorGateway_new n) k = {}"
    using gateway_new_inv [of l n] by (simp_all add: gateway_inv_def received_def ack_watermark_def pending_of_def ConnectorGateway_new_def)
  have s': "fold (gateway_step l) ?ops (ConnectorGateway_new n) = s'" using assms(2) by (simp add: gateway_after_def)
  note run = recorded_run_spec [OF new(1), where l = l and ops = ?ops and k = k, unfolded s' new(2) assms(3) [symmetric]]
  have w: "event_ack a = ack_watermark s' k"
    using append_answer [OF _ assms(2)] gateway_after_inv [OF assms(1)] by (simp add: gateway_inv_def)
  have "events_inv s'" "received s' k = set r" "distinct r" using run by simp_all
  then show ?thesis using received_ack [of s' k] w by (simp add: events_inv_def)
qed

section \<open>Enrolment\<close>

text \<open>Who approved a pairing, and what exchanged it.\<close>

definition approved_in :: "gateway_op list \<Rightarrow> pairing \<Rightarrow> bool" where
  "approved_in ops r \<longleftrightarrow> (\<forall>u. gp_owner_id r = Some u \<longrightarrow> (\<exists>d c. ApprovePairing d c u \<in> set ops \<and> gp_approved_at r = Some (dr_now d) \<and> dr_now d < gp_expires_at r))
     \<and> (\<forall>k. gp_device_id r = Some k \<longrightarrow> (\<exists>d c. ExchangePairing d c \<in> set ops \<and> k = new_id d ''device'' \<and> gp_consumed_at r = Some (dr_now d)))"

lemma approved_in_mono: "approved_in ops r \<Longrightarrow> approved_in (ops @ ops') r"
  unfolding approved_in_def by fastforce

lemma approved_in_from:
  assumes "pairing_from p s code r" "\<And>q. dget (cg_pairings s) code = Some q \<Longrightarrow> approved_in ops q \<and> pairing_wf s q"
  shows "approved_in (ops @ [p]) r"
  using assms(1)
proof cases
  case same
  then show ?thesis using assms(2) approved_in_mono by blast
next
  case (expired q)
  then have "approved_in (ops @ [p]) q" using assms(2) approved_in_mono by blast
  then show ?thesis using expired(1) by (simp add: approved_in_def)
next
  case (approved d c u q)
  then have "gp_device_id q = None" using assms(2) open_no_device by fastforce
  then show ?thesis using approved by (auto simp: approved_in_def)
next
  case (consumed d c q)
  then have "approved_in (ops @ [p]) q" using assms(2) approved_in_mono by blast
  then show ?thesis using consumed by (auto simp: approved_in_def)
qed (simp add: approved_in_def)

lemma run_approved: "gateway_run l n ops \<Longrightarrow> dget (cg_pairings (gateway_after l n ops)) code = Some r \<Longrightarrow> approved_in ops r"
proof (induction ops arbitrary: code r rule: rev_induct)
  case Nil
  then show ?case by (simp add: gateway_after_def ConnectorGateway_new_def)
next
  case (snoc p ops)
  let ?s = "gateway_after l n ops"
  have run: "gateway_run l n ops" "gateway_ok p ?s" using snoc.prems(1) by (simp_all add: gateway_run_append)
  have inv: "pairings_inv ?s" using gateway_after_inv [OF run(1)] by (simp add: gateway_inv_def)
  have "distinct (dkeys (cg_pairings ?s))" using inv by (simp add: pairings_inv_def)
  then have "pairing_from p ?s code r" using snoc.prems(2) by (intro step_pairing_from [of ?s l]) (simp_all add: gateway_after_append)
  then show ?case using snoc.IH [OF run(1)] pairings_wf [OF inv] by (intro approved_in_from) auto
qed

text \<open>Property C5: no device without consent: every device of a gateway was enrolled by the exchange of exactly one pairing, which the
  owner of the device approved and which was approved and exchanged before it expired.\<close>

theorem device_enrolled_by_approval:
  assumes "gateway_run l n ops" "dget (cg_devices (gateway_after l n ops)) k = Some dv"
  shows "\<exists>code r u d c d' c'. {(code', r'). dget (cg_pairings (gateway_after l n ops)) code' = Some r' \<and> gp_device_id r' = Some k} = {(code, r)}
    \<and> gp_status r = PairingConsumed \<and> gd_device_id dv = k \<and> gd_owner_id dv = Some u
    \<and> ApprovePairing d c u \<in> set ops \<and> gp_approved_at r = Some (dr_now d) \<and> dr_now d < gp_expires_at r
    \<and> ExchangePairing d' c' \<in> set ops \<and> k = new_id d' ''device'' \<and> gp_consumed_at r = Some (dr_now d') \<and> dr_now d' < gp_expires_at r"
proof -
  let ?s = "gateway_after l n ops"
  have inv: "pairings_inv ?s" using gateway_after_inv [OF assms(1)] by (simp add: gateway_inv_def)
  then obtain code r where r: "dget (cg_pairings ?s) code = Some r" "gp_device_id r = Some k"
    and one: "\<And>code' r'. dget (cg_pairings ?s) code' = Some r' \<Longrightarrow> gp_device_id r' = Some k \<Longrightarrow> code' = code"
    using assms(2) unfolding pairings_inv_def by metis
  have e: "enrolled_by r k dv" using pairing_wf_device [OF pairings_wf [OF inv r(1)] r(2)] assms(2) by simp
  then obtain u where u: "gp_owner_id r = Some u" "gd_owner_id dv = Some u" by (auto simp: enrolled_by_def)
  have a: "approved_in ops r" by (rule run_approved [OF assms(1) r(1)])
  obtain d c where d: "ApprovePairing d c u \<in> set ops" "gp_approved_at r = Some (dr_now d)" using a u(1) unfolding approved_in_def by blast
  obtain d' c' where d': "ExchangePairing d' c' \<in> set ops" "k = new_id d' ''device''" "gp_consumed_at r = Some (dr_now d')"
    using a r(2) unfolding approved_in_def by blast
  have "{(code', r'). dget (cg_pairings ?s) code' = Some r' \<and> gp_device_id r' = Some k} = {(code, r)}" using r one by fastforce
  moreover have "gp_status r = PairingConsumed" "gd_device_id dv = k" "dr_now d < gp_expires_at r" "dr_now d' < gp_expires_at r"
    using e d(2) d'(3) by (auto simp: enrolled_by_def)
  ultimately show ?thesis using u(2) d d' by blast
qed

section \<open>Revoked devices and replaced connections\<close>

text \<open>Every message of a device that the gateway refuses at its first check is refused by the same error, and nothing changes.\<close>

definition messages_refused :: "library \<Rightarrow> utext \<Rightarrow> int option \<Rightarrow> py_error \<Rightarrow> ConnectorGateway \<Rightarrow> bool" where
  "messages_refused l k g e s \<longleftrightarrow>
     (\<forall>d p. apply_hello l d k p g s = (Inl e, s)) \<and> (\<forall>d p. heartbeat l d k p g s = (Inl e, s)) \<and> (\<forall>d rs h. update_inventory l d k rs h g s = (Inl e, s))
     \<and> (\<forall>d p. acknowledge_command l d k p g s = (Inl e, s)) \<and> (\<forall>d p. submit_agent_task_result l d k p g s = (Inl e, s))
     \<and> (\<forall>d p. append_runtime_event l d k p g s = (Inl e, s)) \<and> (\<forall>d m. observe_inbound_sequence d k (Some m) g s = (Inl e, s))
     \<and> (\<forall>d p. \<exists>e'. resume_transport d k p g s = (Inl e', s)) \<and> (\<forall>d p. \<exists>e'. acknowledge_task_available l d k p g s = (Inl e', s))
     \<and> (\<forall>i. g = Some i \<longrightarrow> mark_transport_ready k i s = (Inl e, s))"

lemma inactive_refused:
  assumes "active_device s k g = Inl e"
  shows "messages_refused l k g e s"
proof -
  have "\<exists>e'. resume_transport d k p g s = (Inl e', s)" for d p
    by (cases "resume_cursors p") (simp_all add: resume_transport_def attempt_def assms split: prod.splits)
  moreover have "\<forall>i. g = Some i \<longrightarrow> mark_transport_ready k i s = (Inl e, s)" using assms by (auto simp: mark_transport_ready_def attempt_def)
  ultimately show ?thesis
    by (simp add: messages_refused_def apply_hello_def heartbeat_def update_inventory_def acknowledge_command_def submit_agent_task_result_def
        append_runtime_event_def observe_inbound_sequence_def acknowledge_task_available_def attempt_def assms)
qed

text \<open>Property C6: a revocation is final: whatever is called afterwards, the device stays revoked, its token is refused, it cannot connect, and
  none of its messages changes anything, whichever connection it claims.\<close>

theorem revoked_device_stays_out:
  assumes "gateway_run l n (ops @ ops')" "dget (cg_devices (gateway_after l n ops)) k = Some dv" "gd_revoked_at dv = Some t"
    "s = gateway_after l n (ops @ ops')" "e = ConnectorError 410 ''Device has been revoked''"
  shows "(\<exists>dv'. dget (cg_devices s) k = Some dv' \<and> gd_revoked_at dv' = Some t) \<and> authenticate_device k token s = Inl e
    \<and> connect_device d k w s = (Inl e, s) \<and> messages_refused l k g e s"
proof -
  have run: "gateway_inv l (gateway_after l n ops)" "gateway.admissible l ops' (gateway_after l n ops)"
    using assms(1) by (simp_all add: gateway_run_append gateway_after_inv)
  obtain dv' where dv: "dget (cg_devices s) k = Some dv'" "gd_revoked_at dv' = Some t"
    using run_device [OF run assms(2)] assms(3,4) by (auto simp: gateway_after_append device_next_def)
  have "active_device s k g = Inl e" using dv assms(5) by (simp add: active_device_def get_device_record_def ensure_not_revoked_def result_simps)
  moreover have "authenticate_device k token s = Inl e" using dv assms(5) by (simp add: authenticate_device_def)
  moreover have "connect_device d k w s = (Inl e, s)"
    using dv assms(5) by (simp add: connect_device_def get_device_record_def ensure_not_revoked_def result_simps attempt_def)
  ultimately show ?thesis using dv inactive_refused by blast
qed

text \<open>Property C24: a connection that was replaced is fenced off for good: after a device has connected again, no message of an earlier
  connection changes anything, whatever has been called in between.\<close>

theorem replaced_connection_fenced:
  assumes "gateway_run l n (ops @ ConnectDevice d k w # ops')" "connect_device d k w (gateway_after l n ops) = (Inr (generation, previous), s1)"
    "s = gateway_after l n (ops @ ConnectDevice d k w # ops')" "g < generation"
  shows "\<exists>e. e \<in> {ConnectorError 410 ''Device has been revoked'', ConnectorError 409 ''WebSocket is no longer an active device connection''}
    \<and> messages_refused l k (Some g) e s"
proof -
  let ?s = "gateway_after l n ops"
  have run: "gateway_inv l ?s" "gateway_ok (ConnectDevice d k w) ?s" "gateway.admissible l ops' s1"
    using assms(1,2) by (simp_all add: gateway_run_append gateway_after_inv)
  have inv: "gateway_inv l s1" using gateway.step_inv [OF run(1,2)] assms(2) by simp
  obtain dv where dv: "dget (cg_devices s1) k = Some dv" "gd_connection_generation dv = generation"
    using assms(2) by (auto simp: connect_device_def attempt_def Let_def dict_get split: sum.splits)
  obtain dv' where dv': "dget (cg_devices s) k = Some dv'" "generation \<le> gd_connection_generation dv'"
    using run_device [OF inv run(3) dv(1)] dv(2) assms(2,3) by (auto simp: gateway_after_append device_next_def)
  have "active_device s k (Some g) = Inl (if gd_revoked_at dv' \<noteq> None then ConnectorError 410 ''Device has been revoked''
      else ConnectorError 409 ''WebSocket is no longer an active device connection'')"
    using dv' assms(4) by (auto simp: active_device_def get_device_record_def ensure_not_revoked_def ensure_connection_generation_def result_simps)
  from inactive_refused [OF this, of l] show ?thesis by (cases "gd_revoked_at dv'") auto
qed

section \<open>Commands and results along a run\<close>

lemma run_command:
  assumes "gateway_inv l s" "gateway.admissible l ops s" "dget (cg_commands s) k = Some c"
  shows "\<exists>c'. dget (cg_commands (fold (gateway_step l) ops s)) k = Some c' \<and> command_next\<^sup>*\<^sup>* c c'"
proof -
  let ?R = "\<lambda>s s'. \<forall>k c. dget (cg_commands s) k = Some c \<longrightarrow> (\<exists>c'. dget (cg_commands s') k = Some c' \<and> command_next\<^sup>*\<^sup>* c c')"
  have "?R s (fold (gateway_step l) ops s)"
    by (rule gateway_run_rel [OF assms(1,2), where R = ?R])
      (blast, meson rtranclp_trans, use command_kept [OF inv_step_commands] in blast)
  then show ?thesis using assms(3) by blast
qed

lemma commands_next_request: "command_next\<^sup>*\<^sup>* c c' \<Longrightarrow> same_request c c'"
  by (induction rule: rtranclp_induct) (auto simp: same_request_def command_next_def)

lemma commands_next_status:
  assumes "command_next\<^sup>*\<^sup>* c c'"
  shows "gc_status c \<in> {CommandSucceeded, CommandFailed, CommandRejected, CommandExpired} \<longrightarrow> gc_status c' = gc_status c"
    "ack_status (gc_status c) \<longrightarrow> ack_status (gc_status c')" "gc_status c = CommandRunning \<longrightarrow> gc_status c' \<noteq> CommandAccepted"
proof -
  have step: "(gc_status a \<in> {CommandSucceeded, CommandFailed, CommandRejected, CommandExpired} \<longrightarrow> gc_status b = gc_status a)
     \<and> (ack_status (gc_status a) \<longrightarrow> ack_status (gc_status b))
     \<and> (gc_status a \<in> {CommandRunning, CommandSucceeded, CommandFailed, CommandRejected} \<longrightarrow> gc_status b \<in> {CommandRunning, CommandSucceeded, CommandFailed, CommandRejected})"
    if "command_next a b" for a b
    using that by (cases "gc_status a") (auto simp: command_next_def ack_status_def)
  have "(gc_status c \<in> {CommandSucceeded, CommandFailed, CommandRejected, CommandExpired} \<longrightarrow> gc_status c' = gc_status c)
     \<and> (ack_status (gc_status c) \<longrightarrow> ack_status (gc_status c'))
     \<and> (gc_status c = CommandRunning \<longrightarrow> gc_status c' \<in> {CommandRunning, CommandSucceeded, CommandFailed, CommandRejected})"
    using assms by (induction rule: rtranclp_induct) (auto dest: step)
  then show "gc_status c \<in> {CommandSucceeded, CommandFailed, CommandRejected, CommandExpired} \<longrightarrow> gc_status c' = gc_status c"
    "ack_status (gc_status c) \<longrightarrow> ack_status (gc_status c')" "gc_status c = CommandRunning \<longrightarrow> gc_status c' \<noteq> CommandAccepted" by auto
qed

text \<open>Property C25: the life of a command: what a command asks for never changes, a final status stays, a command that its connector has
  acknowledged never returns to the queue, and one that runs is never merely accepted again.\<close>

theorem command_life:
  assumes "gateway_run l n (ops @ ops')" "dget (cg_commands (gateway_after l n ops)) k = Some c"
  shows "\<exists>c'. dget (cg_commands (gateway_after l n (ops @ ops'))) k = Some c' \<and> same_request c c' \<and> gc_command_id c = k
    \<and> payload_error l (gc_action c) (gc_payload c) = None
    \<and> (gc_status c \<in> {CommandSucceeded, CommandFailed, CommandRejected, CommandExpired} \<longrightarrow> gc_status c' = gc_status c)
    \<and> (ack_status (gc_status c) \<longrightarrow> ack_status (gc_status c')) \<and> (gc_status c = CommandRunning \<longrightarrow> gc_status c' \<noteq> CommandAccepted)"
proof -
  have run: "gateway_inv l (gateway_after l n ops)" "gateway.admissible l ops' (gateway_after l n ops)"
    using assms(1) by (simp_all add: gateway_run_append gateway_after_inv)
  obtain c' where c': "dget (cg_commands (gateway_after l n (ops @ ops'))) k = Some c'" "command_next\<^sup>*\<^sup>* c c'"
    using run_command [OF run assms(2)] by (auto simp: gateway_after_append)
  have "gc_command_id c = k" "payload_error l (gc_action c) (gc_payload c) = None" using run(1) assms(2) by (simp_all add: gateway_inv_def commands_inv_def)
  then show ?thesis using c'(1) commands_next_request [OF c'(2)] commands_next_status [OF c'(2)] by blast
qed

lemma replayed_matching:
  assumes "replayed_command s b a (Some key) f = Inr (Some c)" "key \<noteq> []"
  shows "c \<in> set (matching_commands s b key)" "gc_request_fingerprint c = f"
proof -
  have "latest_command (matching_commands s b key) = Some c \<and> gc_request_fingerprint c = f"
    using assms by (auto simp: replayed_command_def split: option.splits if_splits)
  then show "c \<in> set (matching_commands s b key)" "gc_request_fingerprint c = f" by (auto intro: latest_command_in)
qed

lemma matching_iff:
  assumes "commands_inv l s"
  shows "c \<in> set (matching_commands s b key) \<longleftrightarrow> dget (cg_commands s) (gc_command_id c) = Some c \<and> gc_binding_id c = b \<and> gc_idempotency_key c = key"
proof -
  have "c \<in> set (dvalues (cg_commands s)) \<longleftrightarrow> dget (cg_commands s) (gc_command_id c) = Some c"
  proof
    assume "c \<in> set (dvalues (cg_commands s))"
    then obtain k where "dget (cg_commands s) k = Some c" using assms by (auto simp: commands_inv_def intro: map_of_is_SomeI)
    then show "dget (cg_commands s) (gc_command_id c) = Some c" using assms by (auto simp: commands_inv_def)
  next
    assume "dget (cg_commands s) (gc_command_id c) = Some c"
    from map_of_SomeD [OF this] show "c \<in> set (dvalues (cg_commands s))" by force
  qed
  then show ?thesis by (auto simp: matching_commands_def)
qed

text \<open>The command that serves a request with a key, from its recording on.\<close>

lemma record_serves:
  assumes "gateway_inv l s" "gateway_ok (RecordCommand d b a p (Some key) e) s" "key \<noteq> []" "checked_record l d b a p (Some key) e s = (Inr cid, s')"
  obtains f c where "request_fingerprint a p = Inr f" "dget (cg_commands s') cid = Some c" "gc_command_id c = cid" "gc_binding_id c = b"
    "gc_idempotency_key c = key" "gc_request_fingerprint c = f"
  using assms(4)
proof (cases rule: record_cases)
  case (replayed f c)
  have inv: "commands_inv l s" using assms(1) by (simp add: gateway_inv_def)
  note m = replayed_matching [OF replayed(2) assms(3)]
  show thesis by (rule that [OF replayed(1)]) (use replayed m matching_iff [OF inv] in auto)
next
  case (added f bd)
  have "gb_binding_id bd = b" using assms(1) added(3) by (simp add: gateway_inv_def bindings_inv_def)
  then show thesis using that [OF added(2), of "new_command d bd a p (Some key) e f"] added(5,6) assms(3) by (simp add: new_command_def Let_def dict_get)
qed simp

text \<open>Property C7: a request is executed once: when a request with an idempotency key is repeated, at any later moment of the run and with any
  deadline, the gateway adds no command and answers with the command that served it first, or with an error; and of all the commands under a
  key, at most two in number, at most one has not failed.\<close>

theorem repeated_request_served_once:
  assumes "gateway_run l n (ops @ RecordCommand d b a p (Some key) e # ops')" "key \<noteq> []"
    "checked_record l d b a p (Some key) e (gateway_after l n ops) = (Inr cid, s1)"
    "s = gateway_after l n (ops @ RecordCommand d b a p (Some key) e # ops')" "checked_record l d' b a p (Some key) e' s = (x, s')"
  shows "s' = s \<and> (x = Inr cid \<or> (\<exists>err. x = Inl err)) \<and> length (matching_commands s b key) \<le> 2
    \<and> length (filter (\<lambda>c. gc_status c \<noteq> CommandFailed) (matching_commands s b key)) \<le> 1"
proof -
  let ?s = "gateway_after l n ops"
  have run: "gateway_inv l ?s" "gateway_ok (RecordCommand d b a p (Some key) e) ?s" "gateway.admissible l ops' s1"
    using assms(1,3) by (simp_all add: gateway_run_append gateway_after_inv)
  have inv1: "gateway_inv l s1" using gateway.step_inv [OF run(1,2)] assms(3) by simp
  have inv: "commands_inv l s" using gateway_after_inv [OF assms(1)] assms(4) by (simp add: gateway_inv_def)
  obtain f c where f: "request_fingerprint a p = Inr f" and c: "dget (cg_commands s1) cid = Some c" "gc_command_id c = cid" "gc_binding_id c = b"
    "gc_idempotency_key c = key" "gc_request_fingerprint c = f" using record_serves [OF run(1,2) assms(2,3)] .
  obtain c' where c': "dget (cg_commands s) cid = Some c'" "command_next\<^sup>*\<^sup>* c c'"
    using run_command [OF inv1 run(3) c(1)] assms(3,4) by (auto simp: gateway_after_append)
  have m: "c' \<in> set (matching_commands s b key)" "gc_request_fingerprint c' = f" "gc_command_id c' = cid"
    using commands_next_request [OF c'(2)] c c'(1) matching_iff [OF inv] by (auto simp: same_request_def)
  have dist: "distinct (map gc_request_fingerprint (matching_commands s b key))" using inv by (simp add: commands_inv_def)
  from assms(5) have "s' = s \<and> (x = Inr cid \<or> (\<exists>err. x = Inl err))"
  proof (cases rule: record_cases)
    case (replayed f' c2)
    have "c2 \<in> set (matching_commands s b key)" "gc_request_fingerprint c2 = f" using replayed_matching [OF replayed(2) assms(2)] replayed(1) f by simp_all
    then have "c2 = c'" using m dist by (metis distinct_map inj_onD)
    then show ?thesis using replayed(3,4) m(3) by simp
  next
    case (added f' bd)
    have "gc_request_fingerprint c' \<noteq> f" using replay_free [OF added(4) assms(2)] m(1) added(2) f by simp
    then show ?thesis using m(2) by simp
  qed simp
  then show ?thesis using inv by (simp add: commands_inv_def)
qed

lemma run_results:
  "dget (cg_agent_task_results s) t = Some r \<Longrightarrow> dget (cg_agent_task_results (fold (gateway_step l) ops s)) t = Some r"
  by (induction ops arbitrary: s) (auto intro: step_results)

lemma submit_known:
  assumes "dget (cg_agent_task_results s) t = Some r" "l_result l (dget p ''result'') = Some (t, i, j)" "submit_agent_task_result l d k p g s = (x, s')"
  shows "s' = s \<and> (x = Inr (r, ResultReplay) \<or> (\<exists>e. x = Inl e))"
proof -
  have "fst (submit_agent_task_result l d k p g s) = Inr y \<longrightarrow> y = (r, ResultReplay)" for y
    using assms(1,2) by (simp add: submit_agent_task_result_def attempt_def Let_def split: sum.splits option.splits)
  moreover have "snd (submit_agent_task_result l d k p g s) = s"
    using assms(1,2) by (simp add: submit_agent_task_result_def snd_simps Let_def split: sum.splits option.splits)
  ultimately show ?thesis using assms(3) by (cases x) simp_all
qed

text \<open>Property C22: the first result of a task is its result: it stays what it was, it answers a command that dispatched that very task to the
  binding it came from, and whatever is submitted for the task later is answered with it or refused, and changes nothing.\<close>

theorem first_result_final:
  assumes "gateway_run l n (ops @ ops')" "dget (cg_agent_task_results (gateway_after l n ops)) t = Some r" "s = gateway_after l n (ops @ ops')"
    "l_result l (dget p ''result'') = Some (t, i, j)" "submit_agent_task_result l d k p g s = (x, s')"
  shows "dget (cg_agent_task_results s) t = Some r \<and> s' = s \<and> (x = Inr (r, ResultReplay) \<or> (\<exists>e. x = Inl e)) \<and> gr_task_id r = t
    \<and> (\<exists>c. dget (cg_commands s) (gr_command_id r) = Some c \<and> dispatched_task (gr_binding_id r) t c)
    \<and> (\<exists>b. dget (cg_bindings s) (gr_binding_id r) = Some b \<and> gb_device_id b = gr_device_id r)"
proof -
  have r: "dget (cg_agent_task_results s) t = Some r" using run_results [OF assms(2)] assms(3) by (simp add: gateway_after_append)
  have "results_inv s" using gateway_after_inv [OF assms(1)] assms(3) by (simp add: gateway_inv_def)
  then show ?thesis using r submit_known [OF r assms(4,5)] unfolding results_inv_def by blast
qed

section \<open>Bindings along a run\<close>

lemma binding_next_trans: "binding_next a b \<Longrightarrow> binding_next b c \<Longrightarrow> binding_next a c"
  unfolding binding_next_def by auto

lemma run_binding:
  assumes "gateway_inv l s" "gateway.admissible l ops s" "dget (cg_bindings s) k = Some b"
  shows "\<exists>b'. dget (cg_bindings (fold (gateway_step l) ops s)) k = Some b' \<and> binding_next b b'"
proof -
  let ?R = "\<lambda>s s'. \<forall>k b. dget (cg_bindings s) k = Some b \<longrightarrow> (\<exists>b'. dget (cg_bindings s') k = Some b' \<and> binding_next b b')"
  have "?R s (fold (gateway_step l) ops s)"
    by (rule gateway_run_rel [OF assms(1,2), where R = ?R])
      (simp, meson binding_next_trans, use bound_runtime_kept [OF inv_step_bindings] in blast)
  then show ?thesis using assms(3) by blast
qed

lemma distinct_values_keys:
  "distinct (map f (dvalues d)) \<Longrightarrow> dget d k = Some v \<Longrightarrow> dget d k' = Some v' \<Longrightarrow> f v = f v' \<Longrightarrow> k = k'"
  by (induction d) (force dest: map_of_SomeD split: if_splits)+

text \<open>A runtime has one binding: a binding stays with its device, runtime and agent, keeps its working directory once it has one, and
  no other binding is ever made for the same runtime of the same device.\<close>

theorem one_binding_per_runtime:
  assumes "gateway_run l n (ops @ ops')" "dget (cg_bindings (gateway_after l n ops)) k = Some b" "s = gateway_after l n (ops @ ops')"
  shows "\<exists>b'. dget (cg_bindings s) k = Some b' \<and> gb_device_id b' = gb_device_id b \<and> gb_runtime_id b' = gb_runtime_id b \<and> gb_agent_id b' = gb_agent_id b
    \<and> (gb_working_directory b \<noteq> None \<longrightarrow> gb_working_directory b' = gb_working_directory b)
    \<and> (\<forall>k' b2. dget (cg_bindings s) k' = Some b2 \<longrightarrow> gb_device_id b2 = gb_device_id b \<longrightarrow> gb_runtime_id b2 = gb_runtime_id b \<longrightarrow> k' = k)"
proof -
  have run: "gateway_inv l (gateway_after l n ops)" "gateway.admissible l ops' (gateway_after l n ops)"
    using assms(1) by (simp_all add: gateway_run_append gateway_after_inv)
  obtain b' where b': "dget (cg_bindings s) k = Some b'" "binding_next b b'" using run_binding [OF run assms(2)] assms(3) by (auto simp: gateway_after_append)
  have dist: "distinct (map (\<lambda>b. (gb_device_id b, gb_runtime_id b)) (dvalues (cg_bindings s)))"
    using gateway_after_inv [OF assms(1)] assms(3) by (simp add: gateway_inv_def bindings_inv_def)
  have "k' = k" if "dget (cg_bindings s) k' = Some b2" "gb_device_id b2 = gb_device_id b" "gb_runtime_id b2 = gb_runtime_id b" for k' b2
    using distinct_values_keys [OF dist that(1) b'(1)] that(2,3) b'(2) by (simp add: binding_next_def)
  then show ?thesis using b' unfolding binding_next_def by blast
qed

section \<open>Delivery\<close>

text \<open>What other calls do during a wait is a run of steps, and so is what a call with its waits does as a whole.\<close>

definition reaches :: "library \<Rightarrow> ConnectorGateway \<Rightarrow> ConnectorGateway \<Rightarrow> bool" where
  "reaches l s s' \<longleftrightarrow> (\<exists>ops. gateway.admissible l ops s \<and> s' = fold (gateway_step l) ops s)"

definition others_step :: "library \<Rightarrow> network \<Rightarrow> bool" where
  "others_step l net \<longleftrightarrow> (\<forall>i s. gateway_inv l s \<longrightarrow> reaches l s (snd (net i) s))"

lemma reaches_refl [simp]: "reaches l s s"
  unfolding reaches_def by (rule exI [of _ "[]"]) simp

lemma reaches_trans: "reaches l s t \<Longrightarrow> reaches l t u \<Longrightarrow> reaches l s u"
  unfolding reaches_def by (metis fold_append comp_apply gateway.admissible_append)

lemma reaches_step: "gateway_ok p s \<Longrightarrow> reaches l s (gateway_step l p s)"
  unfolding reaches_def by (rule exI [of _ "[p]"]) simp

lemma reaches_inv: "reaches l s s' \<Longrightarrow> gateway_inv l s \<Longrightarrow> gateway_inv l s'"
  unfolding reaches_def using gateway.run_inv by blast

lemma reaches_device:
  "reaches l s s' \<Longrightarrow> gateway_inv l s \<Longrightarrow> dget (cg_devices s) k = Some dv \<Longrightarrow> \<exists>dv'. dget (cg_devices s') k = Some dv' \<and> device_next dv dv'"
  unfolding reaches_def using run_device by blast

lemma live_record: "bindR (get_device_record s k) (\<lambda>device. bindR (ensure_not_revoked device) (\<lambda>_. Inr device)) = Inr dv \<Longrightarrow> dget (cg_devices s) k = Some dv"
  by (simp add: live_device_iff)

lemma number_frame_step:
  assumes "dget (cg_devices s) k = Some dv"
  shows "s\<lparr>cg_devices := dput (cg_devices s) k (dv\<lparr>gd_outbound_sequence := gd_outbound_sequence dv + 1\<rparr>)\<rparr> = gateway_step l (NumberFrame k) s"
  using assms by (simp add: number_frame_def)

text \<open>The frames that a call sends to a device, between two states of the gateway.\<close>

definition frames_ok :: "ConnectorGateway \<Rightarrow> ConnectorGateway \<Rightarrow> utext \<Rightarrow> utext list \<Rightarrow> frame list \<Rightarrow> bool" where
  "frames_ok s s' k cids fs \<longleftrightarrow> sorted_wrt (<) (map fr_sequence fs) \<and> distinct (map fr_message_id fs)
     \<and> (\<forall>f \<in> set fs. fr_device_id f = k \<and> fr_message_id f \<in> set cids
          \<and> (\<exists>dv dv'. dget (cg_devices s) k = Some dv \<and> dget (cg_devices s') k = Some dv'
               \<and> gd_outbound_sequence dv < fr_sequence f \<and> fr_sequence f \<le> gd_outbound_sequence dv'))"

lemma frames_ok_Nil [simp]: "frames_ok s s' k cids []"
  by (simp add: frames_ok_def)

lemma frames_ok_mono: "frames_ok s s' k cids fs \<Longrightarrow> set cids \<subseteq> set cids' \<Longrightarrow> frames_ok s s' k cids' fs"
  by (auto simp: frames_ok_def)

lemma frames_ok_earlier:
  assumes "frames_ok s s' k cids fs" "reaches l t s" "gateway_inv l t" "dget (cg_devices t) k = Some dv"
  shows "frames_ok t s' k cids fs"
  using assms(1) reaches_device [OF assms(2-4)] assms(4) unfolding frames_ok_def device_next_def by fastforce

lemma frames_ok_Cons:
  assumes "frames_ok s1 s' k cids fs" "reaches l s s1" "gateway_inv l s" "reaches l s1 s'" "dget (cg_devices s) k = Some dv" "cid \<notin> set cids"
    "dget (cg_devices s1) k = Some dv1" "gd_outbound_sequence dv < gd_outbound_sequence dv1"
    "gd_outbound_sequence dv < m" "m \<le> gd_outbound_sequence dv1"
  shows "frames_ok s s' k (cid # cids) (\<lparr>fr_device_id = k, fr_sequence = m, fr_message_id = cid\<rparr> # fs)"
proof -
  have 1: "frames_ok s s' k cids fs" using frames_ok_earlier [OF assms(1,2,3,5)] .
  obtain dv' where dv': "dget (cg_devices s') k = Some dv'" "gd_outbound_sequence dv1 \<le> gd_outbound_sequence dv'"
    using reaches_device [OF assms(4) reaches_inv [OF assms(2,3)] assms(7)] by (auto simp: device_next_def)
  have "\<forall>f \<in> set fs. m < fr_sequence f \<and> fr_message_id f \<noteq> cid" using assms(1,6,7,10) unfolding frames_ok_def by fastforce
  then show ?thesis using 1 assms(5,9,10) dv' unfolding frames_ok_def by auto
qed

lemma after_send_count: "after_send d k w g cid s = (Inr j, s') \<Longrightarrow> j \<in> {0, 1}"
  by (auto simp: after_send_def attempt_def split: sum.splits option.splits if_splits)

lemma deliver_loop_run:
  assumes "others_step l net" "gateway_inv l s" "distinct cids" "deliver_loop d net k w g n cids s = (x, fs, s')"
  shows "reaches l s s' \<and> frames_ok s s' k cids fs \<and> (\<forall>m. x = Inr m \<longrightarrow> 0 \<le> m \<and> m \<le> int (length fs))"
  using assms(2-4)
proof (induction cids arbitrary: n s x fs s')
  case (Cons cid cids)
  let ?live = "bindR (get_device_record s k) (\<lambda>device. bindR (ensure_not_revoked device) (\<lambda>_. Inr device))"
  show ?case
  proof (cases ?live)
    case (Inl e)
    then show ?thesis using Cons.prems(3) by auto
  next
    case (Inr dv)
    note dv = live_record [OF Inr]
    show ?thesis
    proof (cases "\<not> connection_current s k w g dv \<or> \<not> queued_now s cid")
      case True
      then have "deliver_loop d net k w g n cids s = (x, fs, s')" using Cons.prems(3) Inr by simp
      then show ?thesis using Cons.IH [OF Cons.prems(1)] Cons.prems(2) frames_ok_mono [of s s' k cids fs "cid # cids"] by auto
    next
      case False
      let ?s0 = "gateway_step l (NumberFrame k) s" let ?s1 = "snd (net n) ?s0"
      let ?f = "\<lparr>fr_device_id = k, fr_sequence = gd_outbound_sequence dv + 1, fr_message_id = cid\<rparr>"
      have r0: "reaches l s ?s0" by (rule reaches_step) simp
      have r1: "reaches l s ?s1" using assms(1) reaches_inv [OF r0 Cons.prems(1)] reaches_trans [OF r0] unfolding others_step_def by blast
      have "dget (cg_devices ?s0) k = Some (dv\<lparr>gd_outbound_sequence := gd_outbound_sequence dv + 1\<rparr>)" using dv by (simp add: number_frame_def dict_get)
      then obtain dv1 where dv1: "dget (cg_devices ?s1) k = Some dv1" "gd_outbound_sequence dv < gd_outbound_sequence dv1"
        using reaches_device [of l ?s0 ?s1 k] assms(1) reaches_inv [OF r0 Cons.prems(1)] unfolding others_step_def device_next_def by fastforce
      have go: "(if fst (net n) then (Inr 0, [?f], ?s1)
            else (case after_send d k w g cid ?s1 of
                (Inl e, s2) \<Rightarrow> (Inl e, [?f], s2)
              | (Inr j, s2) \<Rightarrow> (case deliver_loop d net k w g (Suc n) cids s2 of (r, fs, s3) \<Rightarrow> (bindR r (\<lambda>m. Inr (j + m)), ?f # fs, s3)))) = (x, fs, s')"
        using Cons.prems(3) Inr False unfolding number_frame_step [OF dv, of l, symmetric] by (simp add: Let_def cong: if_cong prod.case_cong sum.case_cong)
      obtain y s2 where y: "after_send d k w g cid ?s1 = (y, s2)" by fastforce
      have r2: "reaches l ?s1 s2" using reaches_step [of "AfterSend d k w g cid" ?s1 l] y by simp
      have "cg_devices (snd (y, s2)) = cg_devices ?s1" unfolding y [symmetric] by (rule command_step_simps)
      then have d2: "dget (cg_devices s2) k = Some dv1" using dv1(1) by simp
      have one: "frames_ok s t k (cid # cids) [?f]" if "reaches l ?s1 t" for t
        using frames_ok_Cons [OF frames_ok_Nil r1 Cons.prems(1) that dv _ dv1, of cid "[]" "gd_outbound_sequence dv + 1"] dv1(2) frames_ok_mono [of s t k "[cid]" "[?f]" "cid # cids"] by simp
      show ?thesis
      proof (cases "fst (net n)")
        case True
        then show ?thesis using go r1 one [OF reaches_refl] by auto
      next
        case sent: False
        show ?thesis
        proof (cases y)
          case (Inl e)
          then show ?thesis using go sent y one [OF r2] reaches_trans [OF r1 r2] by auto
        next
          case (Inr j)
          obtain r fs' where rest: "deliver_loop d net k w g (Suc n) cids s2 = (r, fs', s')" "x = bindR r (\<lambda>m. Inr (j + m))" "fs = ?f # fs'"
            using go sent y Inr by (auto split: prod.splits)
          have r12: "reaches l s s2" using r1 r2 by (rule reaches_trans)
          have ih: "reaches l s2 s'" "frames_ok s2 s' k cids fs'" "\<And>m. r = Inr m \<Longrightarrow> 0 \<le> m \<and> m \<le> int (length fs')"
            using Cons.IH [OF reaches_inv [OF r12 Cons.prems(1)] _ rest(1)] Cons.prems(2) by auto
          have "frames_ok s s' k (cid # cids) fs"
            using frames_ok_Cons [OF ih(2) r12 Cons.prems(1) ih(1) dv _ d2 dv1(2), of cid "gd_outbound_sequence dv + 1"] Cons.prems(2) dv1(2) rest(3) by simp
          moreover have "0 \<le> m \<and> m \<le> int (length fs)" if "x = Inr m" for m
            using that rest(2,3) ih(3) after_send_count [of d k w g cid ?s1 j s2] y Inr by (cases r) (auto simp: bindR_def)
          ultimately show ?thesis using reaches_trans [OF r12 ih(1)] by blast
        qed
      qed
    qed
  qed
qed auto


lemma deliver_pending_run:
  assumes "others_step l net" "gateway_inv l s" "deliver_pending d net k s = (x, fs, s')"
  shows "reaches l s s' \<and> frames_ok s s' k (map gc_command_id (filter (\<lambda>c. gc_device_id c = k) (dvalues (cg_commands s)))) fs
    \<and> (\<forall>m. x = Inr m \<longrightarrow> 0 \<le> m \<and> m \<le> int (length fs))"
proof -
  let ?live = "bindR (get_device_record s k) (\<lambda>device. bindR (ensure_not_revoked device) (\<lambda>_. Inr device))"
  let ?s1 = "gateway_step l (CollectQueued k (dr_now d)) s"
  let ?queued = "map fst (filter (\<lambda>(i, c). deliverable k c \<and> dr_now d < gc_expires_at c) (cg_commands s))"
  let ?mine = "map gc_command_id (filter (\<lambda>c. gc_device_id c = k) (dvalues (cg_commands s)))"
  have inv: "distinct (dkeys (cg_commands s))" "\<And>i c. dget (cg_commands s) i = Some c \<Longrightarrow> gc_command_id c = i"
    using assms(2) by (simp_all add: gateway_inv_def commands_inv_def)
  have r1: "reaches l s ?s1" by (rule reaches_step) simp
  show ?thesis
  proof (cases ?live)
    case (Inl e)
    then show ?thesis using assms(3) by (auto simp: deliver_pending_def)
  next
    case (Inr dv)
    note dv = live_record [OF Inr]
    have go: "(case dget (cg_connections s) k of None \<Rightarrow> (Inr 0, [], ?s1)
         | Some w \<Rightarrow> if dget (cg_connection_ready_generations s) k \<noteq> Some (gd_connection_generation dv) then (Inr 0, [], ?s1)
             else deliver_loop d net k w (gd_connection_generation dv) 0 ?queued ?s1) = (x, fs, s')"
      using assms(3) Inr unfolding gateway_step.simps collect_queued_def by (simp add: deliver_pending_def Let_def)
    show ?thesis
    proof (cases "\<exists>w. deliver_loop d net k w (gd_connection_generation dv) 0 ?queued ?s1 = (x, fs, s')")
      case True
      then obtain w where loop: "deliver_loop d net k w (gd_connection_generation dv) 0 ?queued ?s1 = (x, fs, s')" by blast
      have "distinct ?queued" using inv(1) by (rule distinct_map_filter)
      note run = deliver_loop_run [OF assms(1) reaches_inv [OF r1 assms(2)] this loop]
      have "set ?queued \<subseteq> set ?mine"
      proof
        fix i assume "i \<in> set ?queued"
        then obtain c where c: "(i, c) \<in> set (cg_commands s)" "gc_device_id c = k" by (auto simp: deliverable_def)
        then have "gc_command_id c = i" using inv by simp
        then show "i \<in> set ?mine" using c by force
      qed
      then show ?thesis using run reaches_trans [OF r1] frames_ok_mono frames_ok_earlier [OF _ r1 assms(2) dv] by blast
    next
      case False
      then have "x = Inr 0" "fs = []" "s' = ?s1" using go by (auto split: option.splits if_splits)
      then show ?thesis using r1 by simp
    qed
  qed
qed

lemma queue_command_steps:
  assumes "checked_record l d b a (request_payload d a p i) i e s = (y, s1)"
  shows "queue_command l d net b a p i e s = (case y of Inl err \<Rightarrow> (Inl err, [], s1) | Inr cid \<Rightarrow>
    (case dget (cg_commands s1) cid of None \<Rightarrow> (Inl (ConnectorError 404 ''Command not found''), [], s1)
     | Some c \<Rightarrow> (case deliver_pending d (\<lambda>n. net (Suc n)) (gc_device_id c) (snd (net 0) (mark_durable cid s1)) of
          (Inl err, fs, s2) \<Rightarrow> (Inl err, fs, s2)
        | (Inr _, fs, s2) \<Rightarrow> (case dget (cg_commands s2) cid of None \<Rightarrow> (Inl (KeyError ''command''), fs, s2) | Some c \<Rightarrow> (Inr (public_command.truncate c), fs, s2)))))"
proof (cases "bindR (validate_command_payload l a (request_payload d a p i)) (\<lambda>_. request_fingerprint a (request_payload d a p i))")
  case (Inl err)
  then show ?thesis using assms by (auto simp: queue_command_def checked_record_def attempt_def)
next
  case (Inr f)
  then have "record_command l d b a (request_payload d a p i) i e f s = (y, s1)" using assms by (simp add: checked_record_def attempt_def)
  then show ?thesis using Inr by (cases y; cases "dget (cg_commands s1) (projr y)") (auto simp: queue_command_def mark_durable_def Let_def)
qed

lemma queue_command_cases:
  assumes "others_step l net" "gateway_inv l s" "gateway_ok (RecordCommand d b a (request_payload d a p i) i e) s" "queue_command l d net b a p i e s = (x, fs, s')"
  obtains (silent) "reaches l s s'" "fs = []"
    | (delivered) k t y where "reaches l s t" "deliver_pending d (\<lambda>n. net (Suc n)) k t = (y, fs, s')"
proof -
  obtain y s1 where y: "checked_record l d b a (request_payload d a p i) i e s = (y, s1)" by fastforce
  have r1: "reaches l s s1" using reaches_step [OF assms(3), of l] y by simp
  note go = assms(4) [unfolded queue_command_steps [OF y]]
  show thesis
  proof (cases "\<exists>cid c. y = Inr cid \<and> dget (cg_commands s1) cid = Some c")
    case True
    then obtain cid c where c: "y = Inr cid" "dget (cg_commands s1) cid = Some c" by blast
    let ?t = "snd (net 0) (mark_durable cid s1)"
    obtain z fs2 s2 where z: "deliver_pending d (\<lambda>n. net (Suc n)) (gc_device_id c) ?t = (z, fs2, s2)" by (metis prod_cases3)
    have r2: "reaches l s (mark_durable cid s1)" using reaches_trans [OF r1] reaches_step [of "MarkDurable cid" s1 l] by simp
    have "reaches l s ?t" using assms(1) reaches_inv [OF r2 assms(2)] reaches_trans [OF r2] unfolding others_step_def by blast
    moreover have "fs2 = fs" "s2 = s'" using go c z by (cases z; cases "dget (cg_commands s2) cid"; auto)+
    ultimately show thesis using delivered z by blast
  next
    case False
    then have "fs = []" "s' = s1" using go by (auto split: sum.splits option.splits)
    then show thesis using silent r1 by simp
  qed
qed

lemma reaches_command:
  "reaches l s s' \<Longrightarrow> gateway_inv l s \<Longrightarrow> dget (cg_commands s) k = Some c \<Longrightarrow> \<exists>c'. dget (cg_commands s') k = Some c' \<and> same_request c c'"
  unfolding reaches_def using run_command commands_next_request by blast

text \<open>Property C23: queueing a command, with its waits and whatever other calls run during them, is a run of steps that each hold the lock;
  the frames it sends are numbered upwards, from beyond what its device had been sent before, carry each command once, and a frame
  carries only a command that was made for the device it goes to.\<close>

theorem queue_command_run:
  assumes "gateway_run l n ops" "s = gateway_after l n ops" "gateway_ok (RecordCommand d b a (request_payload d a p i) i e) s" "others_step l net"
    "queue_command l d net b a p i e s = (x, fs, s')"
  shows "(\<exists>ops'. gateway_run l n (ops @ ops') \<and> s' = gateway_after l n (ops @ ops')) \<and> sorted_wrt (<) (map fr_sequence fs) \<and> distinct (map fr_message_id fs)
    \<and> (\<forall>f \<in> set fs. \<exists>c dv'. dget (cg_commands s') (fr_message_id f) = Some c \<and> gc_device_id c = fr_device_id f
         \<and> (\<forall>dv. dget (cg_devices s) (fr_device_id f) = Some dv \<longrightarrow> gd_outbound_sequence dv < fr_sequence f)
         \<and> dget (cg_devices s') (fr_device_id f) = Some dv' \<and> fr_sequence f \<le> gd_outbound_sequence dv')"
proof -
  have inv: "gateway_inv l s" using gateway_after_inv [OF assms(1)] assms(2) by simp
  have run: "\<exists>ops'. gateway_run l n (ops @ ops') \<and> s' = gateway_after l n (ops @ ops')" if "reaches l s s'"
    using that assms(1,2) unfolding reaches_def by (auto simp: gateway_run_append gateway_after_append)
  from assms(4) inv assms(3,5) show ?thesis
  proof (cases rule: queue_command_cases)
    case silent
    then show ?thesis using run by simp
  next
    case (delivered k t y)
    have inv_t: "gateway_inv l t" using reaches_inv [OF delivered(1) inv] .
    have others: "others_step l (\<lambda>n. net (Suc n))" using assms(4) by (simp add: others_step_def)
    from deliver_pending_run [OF others inv_t delivered(2)]
    have d: "reaches l t s'" and f: "frames_ok t s' k (map gc_command_id (filter (\<lambda>c. gc_device_id c = k) (dvalues (cg_commands t)))) fs" by simp_all
    have "\<exists>c dv'. dget (cg_commands s') (fr_message_id f) = Some c \<and> gc_device_id c = fr_device_id f
         \<and> (\<forall>dv. dget (cg_devices s) (fr_device_id f) = Some dv \<longrightarrow> gd_outbound_sequence dv < fr_sequence f)
         \<and> dget (cg_devices s') (fr_device_id f) = Some dv' \<and> fr_sequence f \<le> gd_outbound_sequence dv'" if "f \<in> set fs" for f
    proof -
      have "fr_device_id f = k \<and> fr_message_id f \<in> set (map gc_command_id (filter (\<lambda>c. gc_device_id c = k) (dvalues (cg_commands t))))
          \<and> (\<exists>dv dv'. dget (cg_devices t) k = Some dv \<and> dget (cg_devices s') k = Some dv' \<and> gd_outbound_sequence dv < fr_sequence f
               \<and> fr_sequence f \<le> gd_outbound_sequence dv')" using f that unfolding frames_ok_def by blast
      then have m: "fr_message_id f \<in> gc_command_id ` set (filter (\<lambda>c. gc_device_id c = k) (dvalues (cg_commands t)))" and k: "fr_device_id f = k"
        and "\<exists>dv dv'. dget (cg_devices t) k = Some dv \<and> dget (cg_devices s') k = Some dv' \<and> gd_outbound_sequence dv < fr_sequence f
               \<and> fr_sequence f \<le> gd_outbound_sequence dv'" by simp_all
      then obtain dv dv' where dv: "dget (cg_devices t) k = Some dv" "dget (cg_devices s') k = Some dv'" "gd_outbound_sequence dv < fr_sequence f"
        "fr_sequence f \<le> gd_outbound_sequence dv'" by blast
      from m obtain c where "c \<in> set (filter (\<lambda>c. gc_device_id c = k) (dvalues (cg_commands t)))" "gc_command_id c = fr_message_id f" by (rule imageE) simp
      then have c: "c \<in> set (dvalues (cg_commands t))" "gc_device_id c = k" "gc_command_id c = fr_message_id f" by simp_all
      have "c \<in> set (matching_commands t (gc_binding_id c) (gc_idempotency_key c))" using c(1) by (simp add: matching_commands_def)
      then have "dget (cg_commands t) (fr_message_id f) = Some c" using matching_iff [of l t] inv_t c(3) by (simp add: gateway_inv_def)
      then obtain c' where "dget (cg_commands s') (fr_message_id f) = Some c'" "gc_device_id c' = k"
        using reaches_command [OF d inv_t] c(2) unfolding same_request_def by metis
      moreover have "gd_outbound_sequence dv0 < fr_sequence f" if "dget (cg_devices s) k = Some dv0" for dv0
        using reaches_device [OF delivered(1) inv that] dv(1,3) by (auto simp: device_next_def)
      ultimately show ?thesis using k dv by auto
    qed
    then show ?thesis using run reaches_trans [OF delivered(1) d] f unfolding frames_ok_def by blast
  qed
qed

section \<open>A concrete run\<close>

definition gw_library :: library where
  "gw_library =
     \<lparr>l_repr = (\<lambda>_. []), l_digit = (\<lambda>_. None), l_upper = (\<lambda>t. t), l_ucd = \<lparr>u_category = (\<lambda>_. ''So''), u_nfkc = (\<lambda>t. t), u_casefold = (\<lambda>t. t), u_isalnum = (\<lambda>_. False)\<rparr>, l_task_valid = (\<lambda>_. True),
      l_result = (\<lambda>v. case v of
         Some (JObj r) \<Rightarrow> (case (dget r ''taskId'', dget r ''resultId'') of (Some (JStr t), Some (JStr i)) \<Rightarrow> Some (t, i, JObj r) | _ \<Rightarrow> None)
       | _ \<Rightarrow> None)\<rparr>"

definition gw_user_code :: utext where "gw_user_code = [65, 66, 67, 68, 45, 69, 70, 71, 72]"

definition gw_draw :: "int \<Rightarrow> draw" where
  "gw_draw t = \<lparr>dr_now = t, dr_uuid = (\<lambda>_. [nat t]), dr_secret = [], dr_user_code = gw_user_code\<rparr>"

definition gw_runtime :: RuntimeInventoryItem where
  "gw_runtime =
     \<lparr>ri_runtime_id = ascii ''rt'', ri_kind = ascii ''codex'', ri_display_name = ascii ''Codex'', ri_executable_path = ascii ''/codex'', ri_version = None,
      ri_available = True, ri_capabilities = map (\<lambda>a. ascii (action_value a)) [SessionStart, TaskDispatch], ri_auth_modes = [], ri_task_enabled = True,
      ri_authentication_status = ascii ''configured'', ri_arena_compatible = True, ri_arena_isolation = ascii ''read_only_ephemeral_schema'',
      ri_local_execution_ready = True, ri_readiness_issues = [], ri_detected_at = None\<rparr>"

definition gw_device :: utext where "gw_device = new_id (gw_draw 2) ''device''"

definition gw_binding :: utext where "gw_binding = new_id (gw_draw 4) ''binding''"

definition gw_ops :: "gateway_op list" where
  "gw_ops = [CreatePairing (gw_draw 0) None [], ApprovePairing (gw_draw 1) (gw_user_code) [7],
     ExchangePairing (gw_draw 2) [], UpdateInventory (gw_draw 3) gw_device [gw_runtime] None None,
     CreateBinding (gw_draw 4) gw_device (ri_runtime_id gw_runtime) None None None]"

abbreviation gw_state :: "nat \<Rightarrow> ConnectorGateway" where
  "gw_state i \<equiv> gateway_after gw_library 10 (take i gw_ops)"

definition gw_hash :: string where "gw_hash = hexdigest (sha256 [])"

lemma gw_digest: "digest_secret [] = Inr gw_hash"
  by (simp add: digest_secret_def utf8_encode_def gw_hash_def result_simps)

lemma gw_draw_simps [simp]: "dr_now (gw_draw t) = t" "dr_secret (gw_draw t) = []" "dr_user_code (gw_draw t) = gw_user_code"
  by (simp_all add: gw_draw_def)

lemma gw_code: "normalize_code gw_library (gw_user_code) = gw_user_code"
  by code_simp

lemma gw_code_fresh: "unique_user_code (ConnectorGateway_new 10) (gw_user_code)"
  by code_simp

lemma gw_after: "gw_state (Suc i) = gateway_step gw_library (gw_ops ! i) (gw_state i)" if "i < 5"
proof -
  have "i < length gw_ops" using that by (simp add: gw_ops_def)
  then show ?thesis by (simp add: take_Suc_conv_app_nth gateway_after_append)
qed

definition gw_pairing :: pairing where
  "gw_pairing = \<lparr>gp_pairing_id = new_id (gw_draw 0) ''pair'', gp_owner_id = None, gp_requested_owner_id = None,
              gp_device_name = [], gp_user_code = gw_user_code, gp_status = PairingPending, gp_created_at = 0,
              gp_expires_at = 600000000, gp_approved_at = None, gp_consumed_at = None, gp_device_id = None,
              gp_device_code_hash = gw_hash\<rparr>"

lemma gw_step1:
  "cg_pairings (gw_state 1) = [(gw_user_code, gw_pairing)]"
  "cg_pairings_by_device_code (gw_state 1) = [(gw_hash, gw_user_code)]"
  "cg_devices (gw_state 1) = []" "cg_bindings (gw_state 1) = []"
  using gw_after [of 0]
  by (simp_all add: gw_ops_def gateway_after_def create_pairing_def remove_expired_pairings_def gw_digest attempt_def Let_def gw_pairing_def ConnectorGateway_new_def)

lemma gw_step2:
  "cg_pairings (gw_state 2) = [(gw_user_code, gw_pairing\<lparr>gp_owner_id := Some [7], gp_status := PairingApproved, gp_approved_at := Some 1\<rparr>)]"
  "cg_pairings_by_device_code (gw_state 2) = [(gw_hash, gw_user_code)]" "cg_devices (gw_state 2) = []" "cg_bindings (gw_state 2) = []"
  using gw_after [of 1] gw_step1
  by (simp_all add: gw_ops_def numeral_2_eq_2 approve_pairing_def get_pairing_def gw_code refresh_pairing_expiry_def open_pairing_def attempt_def Let_def gw_pairing_def)

definition gw_enrolled :: device where
  "gw_enrolled = enrolled_device (gw_draw 2) (gw_pairing\<lparr>gp_owner_id := Some [7], gp_status := PairingApproved, gp_approved_at := Some 1\<rparr>) gw_hash"

lemma gw_step3: "cg_devices (gw_state 3) = [(gw_device, gw_enrolled)]" "cg_bindings (gw_state 3) = []"
  using gw_after [of 2] gw_step2
  by (simp_all add: gw_ops_def numeral_3_eq_3 numeral_2_eq_2 exchange_pairing_def get_pairing_def gw_digest gw_code refresh_pairing_expiry_def open_pairing_def attempt_def Let_def
      gw_pairing_def gw_enrolled_def gw_device_def enrolled_device_def)

abbreviation gw_seen :: device where
  "gw_seen \<equiv> gw_enrolled\<lparr>gd_runtimes := [gw_runtime], gd_last_seen_at := Some 3\<rparr>"

lemma gw_enrolled_simps [simp]: "gd_revoked_at gw_enrolled = None" "gd_device_id gw_enrolled = gw_device" "gd_connection_generation gw_enrolled = 0"
  "gd_outbound_sequence gw_enrolled = 0"
  by (simp_all add: gw_enrolled_def enrolled_device_def gw_device_def)

lemma gw_step4: "cg_devices (gw_state 4) = [(gw_device, gw_seen)]" "cg_bindings (gw_state 4) = []"
proof -
  have "gw_state (Suc 3) = gateway_step gw_library (gw_ops ! 3) (gw_state 3)" by (rule gw_after) simp
  moreover have "active_device (gw_state 3) gw_device None = Inr gw_enrolled" using gw_step3 by (simp add: active_device_iff)
  ultimately show "cg_devices (gw_state 4) = [(gw_device, gw_seen)]" "cg_bindings (gw_state 4) = []"
    using gw_step3 by (simp_all add: gw_ops_def update_inventory_def attempt_def Let_def host_fields_def)
qed

abbreviation gw_bound :: binding where
  "gw_bound \<equiv> new_binding (gw_draw 4) gw_seen gw_runtime None None None"

abbreviation gw_gateway :: ConnectorGateway where
  "gw_gateway \<equiv> gateway_after gw_library 10 gw_ops"

lemma gw_full: "gw_state 5 = gw_gateway"
  by (simp add: gw_ops_def)

lemma gw_step5: "cg_devices gw_gateway = [(gw_device, gw_seen)]" "cg_bindings gw_gateway = [(gw_binding, gw_bound)]"
proof -
  have step: "gw_state (Suc 4) = gateway_step gw_library (gw_ops ! 4) (gw_state 4)" by (rule gw_after) simp
  have dv: "bindR (get_device_record (gw_state 4) gw_device) (\<lambda>device. bindR (ensure_not_revoked device) (\<lambda>_. Inr device)) = Inr gw_seen"
    using gw_step4 by (simp add: live_device_iff)
  have "ri_available gw_runtime" by (simp add: gw_runtime_def)
  then show "cg_devices gw_gateway = [(gw_device, gw_seen)]" "cg_bindings gw_gateway = [(gw_binding, gw_bound)]"
    using step gw_step4 dv by (simp_all add: gw_full [symmetric] gw_ops_def create_binding_def attempt_def Let_def new_binding_def gw_binding_def)
qed

lemma run_snoc: "gateway_run l n (ops @ [p]) \<longleftrightarrow> gateway_run l n ops \<and> gateway_ok p (gateway_after l n ops)"
  by (simp add: gateway_run_append)

lemma gw_run: "gateway_run gw_library 10 gw_ops"
proof -
  have ok: "gateway_ok (gw_ops ! i) (gw_state i)" if "i < 5" for i
  proof -
    have "i \<in> {0, 1, 2, 3, 4}" using that by auto
    then show ?thesis using gw_step2(3) gw_step4(2) gw_code_fresh
      by (auto simp: gw_ops_def gateway_after_def remove_expired_pairings_def ConnectorGateway_new_def numeral_2_eq_2)
  qed
  have "gateway_run gw_library 10 (take i gw_ops)" if "i \<le> 5" for i
    using that
  proof (induction i)
    case (Suc i)
    have "take (Suc i) gw_ops = take i gw_ops @ [gw_ops ! i]" using Suc.prems by (intro take_Suc_conv_app_nth) (simp add: gw_ops_def)
    then show ?case using Suc ok [of i] by (simp add: run_snoc)
  qed simp
  from this [of 5] show ?thesis by (simp add: gw_ops_def)
qed

lemma gw_active: "active_device gw_gateway gw_device None = Inr gw_seen"
  using gw_step5 by (simp add: active_device_iff)

definition gw_event :: "int \<Rightarrow> (string, json) dict" where
  "gw_event m = [(''binding_id'', JStr gw_binding), (''event_type'', JStr [1]), (''sequence'', JInt m)]"

lemma gw_event_simps: "text_member gw_library (gw_event m) ''binding_id'' = gw_binding" "take 128 (text_member gw_library (gw_event m) ''event_type'') = [1]"
  "text_member gw_library (gw_event m) ''event_id'' = []" "int_of gw_library (member_or (gw_event m) ''sequence'' (JInt 0)) = Inr m"
  by (simp_all add: gw_event_def text_member_def member_or_def int_of_def str_of_def)

lemma no_events_yet:
  assumes "list_all (\<lambda>p. \<forall>d k q g. p \<noteq> AppendEvent d k q g) ops"
  shows "cg_events (gateway_after l n ops) = []" "cg_event_ack_watermarks (gateway_after l n ops) = []" "cg_event_pending_sequences (gateway_after l n ops) = []"
  using assms by (induction ops rule: rev_induct) (simp_all add: gateway_after_append step_events_kept, simp_all add: gateway_after_def ConnectorGateway_new_def)

lemma gw_no_events: "cg_events gw_gateway = []" "ack_watermark gw_gateway k = 0" "pending_of gw_gateway k = []"
proof -
  have "list_all (\<lambda>p. \<forall>d k q g. p \<noteq> AppendEvent d k q g) gw_ops" by (simp add: gw_ops_def)
  from no_events_yet [OF this, where l = gw_library and n = 10]
  show "cg_events gw_gateway = []" "ack_watermark gw_gateway k = 0" "pending_of gw_gateway k = []" by (simp_all add: ack_watermark_def pending_of_def)
qed

lemma gw_append:
  assumes "active_device s gw_device None = Inr dv" "dget (cg_bindings s) gw_binding = Some b" "gb_device_id b = gw_device" "0 < m"
    "\<forall>e \<in> set (cg_events s). ge_sequence e \<noteq> m" "ack_watermark s gw_device < m" "m \<notin> set (pending_of s gw_device)"
  shows "append_runtime_event gw_library d gw_device (gw_event m) None s
    = record_event dv b (new_event gw_library d gw_device (gw_event m) m) (with_pending s gw_device)"
proof -
  have "find (same_event gw_device [] m) (cg_events (with_pending s gw_device)) = None" using assms(5) by (auto simp: find_None_iff same_event_def)
  then show ?thesis using assms by (simp add: append_runtime_event_def attempt_def Let_def gw_event_simps)
qed

lemma gw_two_events:
  "\<exists>e s'. append_runtime_event gw_library (gw_draw 6) gw_device (gw_event 1) None
     (gateway_after gw_library 10 (gw_ops @ [AppendEvent (gw_draw 5) gw_device (gw_event 2) None])) = (Inr (EventRecorded e 2), s')"
proof -
  have d: "gb_device_id gw_bound = gw_device" by (simp add: new_binding_def)
  let ?e = "new_event gw_library (gw_draw 5) gw_device (gw_event 2) 2"
  let ?t = "gateway_after gw_library 10 (gw_ops @ [AppendEvent (gw_draw 5) gw_device (gw_event 2) None])"
  obtain x t where r: "record_event gw_seen gw_bound ?e (with_pending gw_gateway gw_device) = (x, t)" by fastforce
  have a: "append_runtime_event gw_library (gw_draw 5) gw_device (gw_event 2) None gw_gateway = (x, t)"
    using gw_append [of gw_gateway gw_seen gw_bound 2 "gw_draw 5"] gw_active gw_step5 d gw_no_events r by simp
  have t: "?t = t" using a by (simp add: gateway_after_append)
  have adv: "advance 0 [2] = (0, [2])" "advance 0 [1, 2] = (2, [])" by (simp_all add: advance.simps)
  note rec = record_event_simps [OF r, of 0 "[2]", simplified gw_no_events with_pending_simps new_event_simps, simplified, OF adv(1)]
  have s: "active_device t gw_device None = Inr (gw_seen\<lparr>gd_event_ack_watermark := 0, gd_event_pending_sequences := [2]\<rparr>)"
    using rec gw_step5 by (simp add: active_device_iff)
  have b: "dget (cg_bindings t) gw_binding = Some (finish_task ?e gw_bound)" "gb_device_id (finish_task ?e gw_bound) = gw_device"
    using rec(6) d by (simp_all add: gw_event_simps dict_get finish_task_def)
  have ev: "\<forall>e \<in> set (cg_events t). ge_sequence e \<noteq> 1" "ack_watermark t gw_device = 0" "pending_of t gw_device = [2]"
    using rec by (simp_all add: trim_log_def ack_watermark_def pending_of_def dict_get)
  let ?f = "new_event gw_library (gw_draw 6) gw_device (gw_event 1) 1"
  obtain dv y u where go: "append_runtime_event gw_library (gw_draw 6) gw_device (gw_event 1) None t = (y, u)"
      "record_event dv (finish_task ?e gw_bound) ?f (with_pending t gw_device) = (y, u)"
    using gw_append [OF s b, of 1 "gw_draw 6"] ev by (metis insertE list.set(1,2) empty_iff less_numeral_extra(1) num.distinct(1) numeral_eq_one_iff prod.exhaust)
  show ?thesis unfolding t using go(1) record_event_simps(1) [OF go(2), of 2 "[]"] adv(2) ev by simp
qed

theorem event_acks_exact_witness:
  "\<exists>a r. fst (append_runtime_event gw_library (gw_draw 6) gw_device (gw_event 1) None
        (gateway_after gw_library 10 (gw_ops @ [AppendEvent (gw_draw 5) gw_device (gw_event 2) None]))) = Inr a \<and> event_ack a = 2
     \<and> r = recorded_run gw_library gw_device (gw_ops @ [AppendEvent (gw_draw 5) gw_device (gw_event 2) None,
         AppendEvent (gw_draw 6) gw_device (gw_event 1) None]) (ConnectorGateway_new 10)
     \<and> distinct r \<and> {1..2} \<subseteq> set r \<and> 3 \<notin> set r"
proof -
  obtain e s' where e: "append_runtime_event gw_library (gw_draw 6) gw_device (gw_event 1) None
     (gateway_after gw_library 10 (gw_ops @ [AppendEvent (gw_draw 5) gw_device (gw_event 2) None])) = (Inr (EventRecorded e 2), s')"
    using gw_two_events by blast
  have "gateway_run gw_library 10 (gw_ops @ [AppendEvent (gw_draw 5) gw_device (gw_event 2) None])" using gw_run by (simp add: run_snoc)
  from event_acks_exact [OF this e refl] e show ?thesis by (intro exI [of _ "EventRecorded e 2"]) simp
qed

theorem device_enrolled_by_approval_witness:
  "dget (cg_devices gw_gateway) gw_device = Some gw_seen \<and> (\<exists>code r u d c.
     {(code', r'). dget (cg_pairings gw_gateway) code' = Some r' \<and> gp_device_id r' = Some gw_device} = {(code, r)}
     \<and> gd_owner_id gw_seen = Some u \<and> ApprovePairing d c u \<in> set gw_ops \<and> dr_now d < gp_expires_at r)"
proof -
  have "dget (cg_devices gw_gateway) gw_device = Some gw_seen" by (simp add: gw_step5)
  with device_enrolled_by_approval [OF gw_run this] show ?thesis by blast
qed

lemma gw_revoked:
  "\<exists>dv. dget (cg_devices (gateway_after gw_library 10 (gw_ops @ [RevokeDevice (gw_draw 5) gw_device [7]]))) gw_device = Some dv \<and> gd_revoked_at dv = Some 5"
proof -
  have "gd_owner_id gw_enrolled = Some [7]" by (simp add: gw_enrolled_def enrolled_device_def)
  then show ?thesis using gw_step5 by (simp add: gateway_after_append revoke_device_def get_device_record_def attempt_def Let_def gw_digest dict_get)
qed

theorem revoked_device_stays_out_witness:
  "\<exists>s. s = gateway_after gw_library 10 (gw_ops @ [RevokeDevice (gw_draw 5) gw_device [7]])
     \<and> authenticate_device gw_device [] s = Inl (ConnectorError 410 ''Device has been revoked'')
     \<and> connect_device (gw_draw 6) gw_device 0 s = (Inl (ConnectorError 410 ''Device has been revoked''), s)
     \<and> messages_refused gw_library gw_device None (ConnectorError 410 ''Device has been revoked'') s"
proof -
  let ?ops = "gw_ops @ [RevokeDevice (gw_draw 5) gw_device [7]]"
  obtain dv where dv: "dget (cg_devices (gateway_after gw_library 10 ?ops)) gw_device = Some dv" "gd_revoked_at dv = Some 5" using gw_revoked by blast
  have "gateway_run gw_library 10 (?ops @ [])" using gw_run by (simp add: run_snoc)
  from revoked_device_stays_out [OF this dv refl refl] show ?thesis by simp
qed

lemma gw_live: "bindR (get_device_record gw_gateway gw_device) (\<lambda>device. bindR (ensure_not_revoked device) (\<lambda>_. Inr device)) = Inr gw_seen"
  using gw_step5 by (simp add: live_device_iff)

theorem replaced_connection_fenced_witness:
  "\<exists>e s. s = gateway_after gw_library 10 (gw_ops @ [ConnectDevice (gw_draw 5) gw_device 0, ConnectDevice (gw_draw 6) gw_device 1])
     \<and> e \<in> {ConnectorError 410 ''Device has been revoked'', ConnectorError 409 ''WebSocket is no longer an active device connection''}
     \<and> messages_refused gw_library gw_device (Some 0) e s"
proof -
  let ?ops = "gw_ops @ ConnectDevice (gw_draw 5) gw_device 0 # [ConnectDevice (gw_draw 6) gw_device 1]"
  obtain p s where c: "connect_device (gw_draw 5) gw_device 0 gw_gateway = (Inr (1, p), s)"
    by (simp add: connect_device_def gw_live attempt_def Let_def)
  have "gateway_run gw_library 10 ?ops" using gw_run by (simp add: gateway_run_append)
  from replaced_connection_fenced [OF this c refl, of 0] show ?thesis by auto
qed

theorem one_binding_per_runtime_witness:
  "\<exists>b'. dget (cg_bindings gw_gateway) gw_binding = Some b' \<and> gb_device_id b' = gw_device
    \<and> {k'. \<exists>b2. dget (cg_bindings gw_gateway) k' = Some b2 \<and> gb_device_id b2 = gw_device \<and> gb_runtime_id b2 = gb_runtime_id b'} = {gw_binding}"
proof -
  have run: "gateway_run gw_library 10 (gw_ops @ [])" using gw_run by simp
  have b: "dget (cg_bindings gw_gateway) gw_binding = Some gw_bound" "gb_device_id gw_bound = gw_device" by (simp_all add: gw_step5 new_binding_def)
  from one_binding_per_runtime [OF run b(1) refl] b show ?thesis by auto
qed

lemma fingerprint_defined: "unicode_json (JObj p) \<Longrightarrow> \<exists>f. request_fingerprint a p = Inr f"
  using canonical_bytes_unicode [of "JObj [(''action'', JStr (ascii (action_value a))), (''payload'', JObj p)]"]
  by (simp add: request_fingerprint_def result_simps)

abbreviation gw_probe :: "int \<Rightarrow> gateway_op" where
  "gw_probe t \<equiv> RecordCommand (gw_draw t) gw_binding RuntimeProbe [] (Some [75]) 60"

lemma gw_no_commands: "cg_commands gw_gateway = []"
  by (simp add: gateway_after_def gw_ops_def) (simp add: ConnectorGateway_new_def)

text \<open>A command for a binding of a live device whose request is in order and new.\<close>

lemma gw_record:
  assumes "payload_error gw_library a p = None" "request_fingerprint a p = Inr f" "dget (cg_bindings s) gw_binding = Some b" "gb_device_id b = gw_device"
    "session_error gw_library a p b = None" "dget (cg_devices s) gw_device = Some dv" "gd_revoked_at dv = None"
    "runtime_error a p (find (\<lambda>r. ri_runtime_id r = gb_runtime_id b) (gd_runtimes dv)) = None" "replayed_command s gw_binding a i f = Inr None"
  obtains s' where "checked_record gw_library d gw_binding a p i e s = (Inr (new_id d ''cmd''), s')"
    "cg_commands s' = dput (cg_commands s) (new_id d ''cmd'') (new_command d b a p i e f)"
    "cg_connections s' = cg_connections s" "cg_connection_ready_generations s' = cg_connection_ready_generations s"
proof -
  have c: "gc_command_id (new_command d b a p i e f) = new_id d ''cmd''" by (simp add: new_command_def Let_def)
  have live: "bindR (get_device_record s gw_device) (\<lambda>device. bindR (ensure_not_revoked device) (\<lambda>_. Inr device)) = Inr dv" using assms(6,7) by (simp add: live_device_iff)
  obtain y s' where r: "checked_record gw_library d gw_binding a p i e s = (y, s')" by fastforce
  have "y = Inr (new_id d ''cmd'') \<and> cg_commands s' = dput (cg_commands s) (new_id d ''cmd'') (new_command d b a p i e f)
      \<and> cg_connections s' = cg_connections s \<and> cg_connection_ready_generations s' = cg_connection_ready_generations s"
    using r assms live c by (auto simp: checked_record_def validate_command_payload_def record_command_def attempt_def Let_def result_simps)
  then show thesis using that r by blast
qed

lemma gw_probe_recorded:
  obtains s f where "checked_record gw_library (gw_draw t) gw_binding RuntimeProbe [] (Some [75]) 60 gw_gateway = (Inr (new_id (gw_draw t) ''cmd''), s)"
    "cg_commands s = [(new_id (gw_draw t) ''cmd'', new_command (gw_draw t) gw_bound RuntimeProbe [] (Some [75]) 60 f)]"
proof -
  obtain f where f: "request_fingerprint RuntimeProbe [] = Inr f" using fingerprint_defined [of "[]"] by auto
  have "payload_error gw_library RuntimeProbe [] = None" by (simp add: payload_error_def optional_string_def not_none_def environment_refs_ok_def json_truthy_def)
  moreover have "replayed_command gw_gateway gw_binding RuntimeProbe (Some [75]) f = Inr None" by (simp add: replayed_command_def matching_commands_def gw_no_commands)
  moreover have "session_error gw_library RuntimeProbe [] gw_bound = None" "runtime_error RuntimeProbe [] r = None" "gb_device_id gw_bound = gw_device" for r
    by (simp_all add: session_error_def session_owned_action_def runtime_error_def new_binding_def)
  ultimately show thesis using gw_record [of RuntimeProbe "[]" f gw_gateway gw_bound gw_seen "Some [75]" "gw_draw t" 60] f gw_step5 gw_no_commands that by auto
qed

lemma gw_probe_ok: "gateway_ok (gw_probe t) gw_gateway"
  by (simp add: gw_no_commands)

theorem command_life_witness:
  "\<exists>c'. dget (cg_commands (gateway_after gw_library 10 (gw_ops @ [gw_probe 5, CollectQueued gw_device 99]))) (new_id (gw_draw 5) ''cmd'') = Some c'
     \<and> gc_action c' = RuntimeProbe \<and> gc_binding_id c' = gw_binding \<and> gc_command_id c' = new_id (gw_draw 5) ''cmd''"
proof -
  let ?id = "new_id (gw_draw 5) ''cmd''"
  obtain s f where r: "checked_record gw_library (gw_draw 5) gw_binding RuntimeProbe [] (Some [75]) 60 gw_gateway = (Inr ?id, s)"
    "cg_commands s = [(?id, new_command (gw_draw 5) gw_bound RuntimeProbe [] (Some [75]) 60 f)]" using gw_probe_recorded .
  have run: "gateway_run gw_library 10 ((gw_ops @ [gw_probe 5]) @ [CollectQueued gw_device 99])" using gw_run gw_probe_ok by (simp add: gateway_run_append)
  have "dget (cg_commands (gateway_after gw_library 10 (gw_ops @ [gw_probe 5]))) ?id = Some (new_command (gw_draw 5) gw_bound RuntimeProbe [] (Some [75]) 60 f)"
    using r by (simp add: gateway_after_append)
  from command_life [OF run this] show ?thesis by (auto simp: same_request_def new_command_def new_binding_def gw_binding_def Let_def)
qed

theorem repeated_request_served_once_witness:
  "\<exists>s x s'. s = gateway_after gw_library 10 (gw_ops @ [gw_probe 5]) \<and> checked_record gw_library (gw_draw 6) gw_binding RuntimeProbe [] (Some [75]) 90 s = (x, s')
     \<and> s' = s \<and> (\<exists>e. x \<in> {Inr (new_id (gw_draw 5) ''cmd''), Inl e}) \<and> length (matching_commands s gw_binding [75]) \<le> 2"
proof -
  obtain s f where r: "checked_record gw_library (gw_draw 5) gw_binding RuntimeProbe [] (Some [75]) 60 gw_gateway = (Inr (new_id (gw_draw 5) ''cmd''), s)"
    using gw_probe_recorded by metis
  obtain x s' where x: "checked_record gw_library (gw_draw 6) gw_binding RuntimeProbe [] (Some [75]) 90 (gateway_after gw_library 10 (gw_ops @ [gw_probe 5])) = (x, s')"
    by fastforce
  have run: "gateway_run gw_library 10 (gw_ops @ gw_probe 5 # [])" using gw_run gw_probe_ok by (simp add: run_snoc)
  from repeated_request_served_once [OF run _ r refl x] show ?thesis using x by auto
qed

abbreviation gw_online_ops :: "gateway_op list" where
  "gw_online_ops \<equiv> gw_ops @ [ConnectDevice (gw_draw 5) gw_device 0, MarkTransportReady gw_device 1]"

abbreviation gw_online :: ConnectorGateway where
  "gw_online \<equiv> gateway_after gw_library 10 gw_online_ops"

abbreviation gw_online_device :: device where
  "gw_online_device \<equiv> gw_seen\<lparr>gd_status := DeviceOnline, gd_connected_at := Some 5, gd_last_seen_at := Some 5, gd_connection_generation := 1\<rparr>"

lemma gw_online_facts:
  "dget (cg_devices gw_online) gw_device = Some gw_online_device" "dget (cg_connections gw_online) gw_device = Some 0"
  "dget (cg_connection_ready_generations gw_online) gw_device = Some 1" "cg_bindings gw_online = [(gw_binding, gw_bound)]" "cg_commands gw_online = []"
  by (simp_all add: gateway_after_append connect_device_def gw_live mark_transport_ready_def active_device_def get_device_record_def ensure_not_revoked_def
      ensure_connection_generation_def attempt_def Let_def dict_get result_simps gw_step5 gw_no_commands dmap_def)

definition quiet_network :: network where "quiet_network = (\<lambda>_. (False, \<lambda>s. s))"

lemma quiet_network_others: "others_step l quiet_network"
  by (simp add: others_step_def quiet_network_def)

lemma gw_online_run: "gateway_run gw_library 10 gw_online_ops"
  using gw_run by (simp add: gateway_run_append)

lemma gw_delivered:
  "\<exists>x s'. queue_command gw_library (gw_draw 6) quiet_network gw_binding RuntimeProbe [] None 60 gw_online
     = (x, [\<lparr>fr_device_id = gw_device, fr_sequence = 1, fr_message_id = new_id (gw_draw 6) ''cmd''\<rparr>], s')"
proof -
  let ?cid = "new_id (gw_draw 6) ''cmd''"
  obtain f where f: "request_fingerprint RuntimeProbe [] = Inr f" using fingerprint_defined [of "[]"] by auto
  let ?c = "new_command (gw_draw 6) gw_bound RuntimeProbe [] None 60 f"
  have ok: "payload_error gw_library RuntimeProbe [] = None" "session_error gw_library RuntimeProbe [] gw_bound = None" "\<And>r. runtime_error RuntimeProbe [] r = None"
      "gb_device_id gw_bound = gw_device" "replayed_command gw_online gw_binding RuntimeProbe None f = Inr None" "request_payload (gw_draw 6) RuntimeProbe [] None = []"
    by (simp_all add: payload_error_def optional_string_def not_none_def environment_refs_ok_def json_truthy_def session_error_def session_owned_action_def runtime_error_def
        new_binding_def replayed_command_def request_payload_def)
  obtain t where t: "checked_record gw_library (gw_draw 6) gw_binding RuntimeProbe [] None 60 gw_online = (Inr ?cid, t)"
    "cg_commands t = [(?cid, ?c)]" "cg_connections t = cg_connections gw_online" "cg_connection_ready_generations t = cg_connection_ready_generations gw_online"
    using gw_record [of RuntimeProbe "[]" f gw_online gw_bound gw_online_device None "gw_draw 6" 60] f ok gw_online_facts by auto
  have c: "gc_device_id ?c = gw_device" "gc_status ?c = CommandQueued" "gc_expires_at ?c = 60000006" using ok(4) by (simp_all add: new_command_def Let_def)
  have "cg_devices (snd (Inr ?cid :: utext result, t)) = cg_devices gw_online" unfolding t(1) [symmetric] by (rule command_step_simps)
  then have dv: "dget (cg_devices t) gw_device = Some gw_online_device" using gw_online_facts(1) by simp
  let ?t = "mark_durable ?cid t"
  have q: "cg_commands ?t = [(?cid, ?c\<lparr>gc_durable_ready := True\<rparr>)]" "cg_devices ?t = cg_devices t" "cg_connections ?t = cg_connections t"
    "cg_connection_ready_generations ?t = cg_connection_ready_generations t" using t(2) by (simp_all add: mark_durable_def)
  have live: "bindR (get_device_record ?t gw_device) (\<lambda>device. bindR (ensure_not_revoked device) (\<lambda>_. Inr device)) = Inr gw_online_device"
    using dv q by (simp add: live_device_iff)
  have "\<exists>y s'. deliver_pending (gw_draw 6) (\<lambda>n. quiet_network (Suc n)) gw_device ?t
      = (Inr y, [\<lparr>fr_device_id = gw_device, fr_sequence = 1, fr_message_id = ?cid\<rparr>], s') \<and> dget (cg_commands s') ?cid \<noteq> None"
    using live q t(3,4) gw_online_facts(2,3) dv c
    by (simp add: deliver_pending_def Let_def deliverable_def dmap_def expire_command_def connection_current_def queued_now_def get_device_record_def
        ensure_not_revoked_def result_simps after_send_def attempt_def quiet_network_def dict_get)
  moreover have "checked_record gw_library (gw_draw 6) gw_binding RuntimeProbe (request_payload (gw_draw 6) RuntimeProbe [] None) None 60 gw_online = (Inr ?cid, t)"
    using t(1) ok(6) by simp
  ultimately show ?thesis using queue_command_steps t(2) c(1) by (auto simp: quiet_network_def)
qed

theorem queue_command_run_witness:
  "\<exists>x fs s' ops'. queue_command gw_library (gw_draw 6) quiet_network gw_binding RuntimeProbe [] None 60 gw_online = (x, fs, s') \<and> map fr_sequence fs = [1]
     \<and> s' = gateway_after gw_library 10 (gw_online_ops @ ops') \<and> distinct (map fr_message_id fs)"
proof -
  have ok: "gateway_ok (RecordCommand (gw_draw 6) gw_binding RuntimeProbe (request_payload (gw_draw 6) RuntimeProbe [] None) None 60) gw_online"
    by (simp add: gw_online_facts)
  obtain x s' where q: "queue_command gw_library (gw_draw 6) quiet_network gw_binding RuntimeProbe [] None 60 gw_online
     = (x, [\<lparr>fr_device_id = gw_device, fr_sequence = 1, fr_message_id = new_id (gw_draw 6) ''cmd''\<rparr>], s')" using gw_delivered by blast
  from queue_command_run [OF gw_online_run refl ok quiet_network_others q] q show ?thesis by auto
qed

definition gw_start :: "(string, json) dict" where "gw_start = [(''working_directory'', JStr [47])]"

definition gw_ack :: "(string, json) dict" where
  "gw_ack = [(''command_id'', JStr (new_id (gw_draw 5) ''cmd'')), (''status'', JStr (ascii ''accepted'')), (''session_id'', JStr [9])]"

definition gw_dispatch :: "(string, json) dict" where
  "gw_dispatch = [(''session_id'', JStr [9]), (''task'', JObj [(''taskId'', JStr [8])])]"

definition gw_result :: "(string, json) dict" where
  "gw_result = [(''binding_id'', JStr gw_binding), (''binding_epoch'', JInt 1), (''result'', JObj [(''taskId'', JStr [8]), (''resultId'', JStr [3])])]"

definition gw_task_ops :: "gateway_op list" where
  "gw_task_ops = [RecordCommand (gw_draw 5) gw_binding SessionStart gw_start None 60, AcknowledgeCommand (gw_draw 6) gw_device gw_ack None,
     RecordCommand (gw_draw 7) gw_binding TaskDispatch gw_dispatch None 60, SubmitResult (gw_draw 8) gw_device gw_result None]"

abbreviation gw_task_state :: "nat \<Rightarrow> ConnectorGateway" where
  "gw_task_state i \<equiv> gateway_after gw_library 10 (gw_ops @ take i gw_task_ops)"

lemma gw_task_after: "gw_task_state (Suc i) = gateway_step gw_library (gw_task_ops ! i) (gw_task_state i)" if "i < 4"
proof -
  have "i < length gw_task_ops" using that by (simp add: gw_task_ops_def)
  then have "take (Suc i) gw_task_ops = take i gw_task_ops @ [gw_task_ops ! i]" by (rule take_Suc_conv_app_nth)
  then show ?thesis by (simp add: gateway_after_append)
qed

lemma gw_payloads:
  "payload_error gw_library SessionStart gw_start = None" "payload_error gw_library TaskDispatch gw_dispatch = None"
  "unicode_json (JObj gw_start)" "unicode_json (JObj gw_dispatch)"
  by (simp_all add: payload_error_def gw_start_def gw_dispatch_def forbidden_payload_fields_def dispatch_error_def optional_string_def not_none_def environment_refs_ok_def
      json_truthy_def blank_def py_isspace_def gw_library_def clean_text_def is_surrogate_def)

lemma gw_runtime_ready: "runtime_error a p (find (\<lambda>r. ri_runtime_id r = gb_runtime_id gw_bound) (gd_runtimes gw_seen)) = None" if "a = SessionStart \<or> a = TaskDispatch"
  using that by (auto simp: runtime_error_def new_binding_def gw_runtime_def arena_runtime_readiness_issues_def expected_isolation_def split: option.splits json.splits)

lemma gw_started:
  obtains f where "cg_commands (gw_task_state 1) = [(new_id (gw_draw 5) ''cmd'', new_command (gw_draw 5) gw_bound SessionStart gw_start None 60 f)]"
    "cg_devices (gw_task_state 1) = [(gw_device, gw_seen)]" "cg_bindings (gw_task_state 1) = [(gw_binding, gw_bound)]"
proof -
  obtain f where f: "request_fingerprint SessionStart gw_start = Inr f" using fingerprint_defined gw_payloads(3) by blast
  obtain s where s: "checked_record gw_library (gw_draw 5) gw_binding SessionStart gw_start None 60 gw_gateway = (Inr (new_id (gw_draw 5) ''cmd''), s)"
    "cg_commands s = dput (cg_commands gw_gateway) (new_id (gw_draw 5) ''cmd'') (new_command (gw_draw 5) gw_bound SessionStart gw_start None 60 f)"
    using gw_record [OF gw_payloads(1) f, of gw_gateway gw_bound gw_seen None "gw_draw 5" 60] gw_runtime_ready [of SessionStart gw_start] gw_step5
    by (auto simp: session_error_def session_owned_action_def new_binding_def replayed_command_def)
  have "gw_task_state 1 = snd (checked_record gw_library (gw_draw 5) gw_binding SessionStart gw_start None 60 gw_gateway)"
    using gw_task_after [of 0] by (simp add: gw_task_ops_def)
  moreover from this have "cg_devices (gw_task_state 1) = cg_devices gw_gateway" "cg_bindings (gw_task_state 1) = cg_bindings gw_gateway"
    by (simp_all only: command_step_simps)
  ultimately show thesis using that [of f] s gw_step5 gw_no_commands by simp
qed

lemma gw_bound_simps: "gb_binding_id gw_bound = gw_binding" "gb_device_id gw_bound = gw_device" "gb_runtime_id gw_bound = ri_runtime_id gw_runtime"
  "gb_binding_epoch gw_bound = 1" "gb_session_generation gw_bound = 0" "gb_last_stopped_command_created_at gw_bound = None"
  by (simp_all add: new_binding_def gw_binding_def gw_enrolled_def enrolled_device_def gw_device_def)

abbreviation gw_session :: "binding \<Rightarrow> bool" where
  "gw_session b \<equiv> gb_last_session_id b = Some [9] \<and> gb_device_id b = gw_device \<and> gb_runtime_id b = ri_runtime_id gw_runtime \<and> gb_binding_epoch b = 1
     \<and> gb_binding_id b = gw_binding"

lemma gw_acked:
  obtains b c where "cg_commands (gw_task_state 2) = [(new_id (gw_draw 5) ''cmd'', c)]" "gc_idempotency_key c = new_id (gw_draw 5) ''cmd''" "gc_action c = SessionStart"
    "cg_devices (gw_task_state 2) = [(gw_device, gw_seen)]" "cg_bindings (gw_task_state 2) = [(gw_binding, b)]" "gw_session b"
proof -
  obtain f where s: "cg_commands (gw_task_state 1) = [(new_id (gw_draw 5) ''cmd'', new_command (gw_draw 5) gw_bound SessionStart gw_start None 60 f)]"
    "cg_devices (gw_task_state 1) = [(gw_device, gw_seen)]" "cg_bindings (gw_task_state 1) = [(gw_binding, gw_bound)]" using gw_started .
  let ?c = "new_command (gw_draw 5) gw_bound SessionStart gw_start None 60 f" let ?b = "ack_binding gw_library 6 ?c CommandAccepted gw_ack gw_bound"
  have act: "active_device (gw_task_state 1) gw_device None = Inr gw_seen" using s(2) by (simp add: active_device_iff)
  have c: "gc_device_id ?c = gw_device" "gc_binding_id ?c = gw_binding" "gc_status ?c = CommandQueued" "gc_idempotency_key ?c = new_id (gw_draw 5) ''cmd''"
    "gc_action ?c = SessionStart" "gc_session_generation ?c = 0"
    by (simp_all add: new_command_def Let_def new_binding_def gw_binding_def)
  have p: "parse_status (ascii ''accepted'') = Some CommandAccepted" by (simp add: parse_status_def COMMAND_STATUSES_def)
  have m: "text_member gw_library gw_ack ''command_id'' = new_id (gw_draw 5) ''cmd''" "text_member gw_library gw_ack ''status'' = ascii ''accepted''"
    "member_or gw_ack ''binding_epoch'' v = v" for v by (simp_all add: text_member_def gw_ack_def str_of_def member_or_def)
  have i: "int_of gw_library (JInt n) = Inr n" for n by (simp add: int_of_def)
  have b: "gw_session ?b"
    using c gw_bound_simps by (simp add: ack_binding_def ack_lifecycle_def ack_session_def session_was_lost_def lifecycle_action_def older_than_restart_def older_than_stop_def
        result_member_def truthy_member_def gw_ack_def json_truthy_def str_of_def Let_def)
  have "gw_task_state 2 = snd (acknowledge_command gw_library (gw_draw 6) gw_device gw_ack None (gw_task_state 1))"
    using gw_task_after [of 1] by (simp add: gw_task_ops_def numeral_2_eq_2)
  then show thesis using s act c p m i b
    by (intro that [of "?c\<lparr>gc_status := CommandAccepted, gc_updated_at := 6, gc_result := not_none (dget gw_ack ''result''),
        gc_error := safe_error gw_library (ack_error_value CommandAccepted gw_ack)\<rparr>" ?b])
      (simp_all add: acknowledge_command_def attempt_def Let_def ack_status_def)
qed

lemma gw_fresh: "new_id (gw_draw 7) ''cmd'' \<noteq> new_id (gw_draw 5) ''cmd''"
  by (simp add: new_id_def gw_draw_def)

lemma gw_dispatched:
  obtains b c c' where "cg_commands (gw_task_state 3) = [(new_id (gw_draw 5) ''cmd'', c), (new_id (gw_draw 7) ''cmd'', c')]" "gc_action c = SessionStart"
    "dispatched_task gw_binding [8] c'" "cg_devices (gw_task_state 3) = [(gw_device, gw_seen)]" "cg_bindings (gw_task_state 3) = [(gw_binding, b)]" "gw_session b"
proof -
  obtain b c where s: "cg_commands (gw_task_state 2) = [(new_id (gw_draw 5) ''cmd'', c)]" "gc_idempotency_key c = new_id (gw_draw 5) ''cmd''" "gc_action c = SessionStart"
    "cg_devices (gw_task_state 2) = [(gw_device, gw_seen)]" "cg_bindings (gw_task_state 2) = [(gw_binding, b)]" "gw_session b" using gw_acked .
  obtain f where f: "request_fingerprint TaskDispatch gw_dispatch = Inr f" using fingerprint_defined gw_payloads(4) by blast
  have ok: "session_error gw_library TaskDispatch gw_dispatch b = None" using s(6)
    by (simp add: session_error_def truthy_text_def text_member_def gw_dispatch_def str_of_def)
  have r: "runtime_error TaskDispatch gw_dispatch (find (\<lambda>r. ri_runtime_id r = gb_runtime_id b) (gd_runtimes gw_seen)) = None"
    using gw_runtime_ready [of TaskDispatch gw_dispatch] s(6) gw_bound_simps(3) by simp
  obtain t where t: "checked_record gw_library (gw_draw 7) gw_binding TaskDispatch gw_dispatch None 60 (gw_task_state 2) = (Inr (new_id (gw_draw 7) ''cmd''), t)"
    "cg_commands t = dput (cg_commands (gw_task_state 2)) (new_id (gw_draw 7) ''cmd'') (new_command (gw_draw 7) b TaskDispatch gw_dispatch None 60 f)"
    using gw_record [OF gw_payloads(2) f, of "gw_task_state 2" b gw_seen None "gw_draw 7" 60] ok r s(4-6) by (auto simp: replayed_command_def)
  have n: "gw_task_state 3 = snd (checked_record gw_library (gw_draw 7) gw_binding TaskDispatch gw_dispatch None 60 (gw_task_state 2))"
    using gw_task_after [of 2] by (simp add: gw_task_ops_def numeral_3_eq_3 numeral_2_eq_2)
  have "cg_devices (gw_task_state 3) = cg_devices (gw_task_state 2)" "cg_bindings (gw_task_state 3) = cg_bindings (gw_task_state 2)"
    unfolding n by (simp_all only: command_step_simps)
  moreover have "dispatched_task gw_binding [8] (new_command (gw_draw 7) b TaskDispatch gw_dispatch None 60 f)"
    using s(6) by (simp add: dispatched_task_def new_command_def Let_def gw_dispatch_def)
  moreover have "cg_commands (gw_task_state 3) = [(new_id (gw_draw 5) ''cmd'', c), (new_id (gw_draw 7) ''cmd'', new_command (gw_draw 7) b TaskDispatch gw_dispatch None 60 f)]"
    unfolding n using t s(1) gw_fresh by simp
  ultimately show thesis using that [of c "new_command (gw_draw 7) b TaskDispatch gw_dispatch None 60 f" b] s(3-6) by simp
qed

lemma gw_task_run: "gateway_run gw_library 10 (gw_ops @ gw_task_ops)"
proof -
  obtain b c where s: "cg_commands (gw_task_state 2) = [(new_id (gw_draw 5) ''cmd'', c)]" "gc_idempotency_key c = new_id (gw_draw 5) ''cmd''" using gw_acked by metis
  have ok2: "gateway_ok (gw_task_ops ! 2) (gw_task_state 2)" using s gw_fresh by (simp add: gw_task_ops_def)
  have ok0: "gateway_ok (gw_task_ops ! 0) (gw_task_state 0)" by (simp add: gw_task_ops_def gw_no_commands)
  have ok13: "gateway_ok (gw_task_ops ! 1) (gw_task_state 1)" "gateway_ok (gw_task_ops ! 3) (gw_task_state 3)" by (simp_all add: gw_task_ops_def)
  have ok: "gateway_ok (gw_task_ops ! i) (gw_task_state i)" if "i < 4" for i
  proof -
    have "i \<in> {0, 1, 2, 3}" using that by auto
    then show ?thesis using ok0 ok2 ok13 by blast
  qed
  have "gateway_run gw_library 10 (gw_ops @ take i gw_task_ops)" if "i \<le> 4" for i
    using that
  proof (induction i)
    case (Suc i)
    have "i < length gw_task_ops" using Suc.prems by (simp add: gw_task_ops_def)
    then have "gw_ops @ take (Suc i) gw_task_ops = (gw_ops @ take i gw_task_ops) @ [gw_task_ops ! i]" by (simp add: take_Suc_conv_app_nth)
    then show ?case using Suc ok [of i] by (simp only: run_snoc)
  qed (use gw_run in simp)
  from this [of 4] show ?thesis by (simp add: gw_task_ops_def)
qed

lemma gw_submitted: "\<exists>r. dget (cg_agent_task_results (gateway_after gw_library 10 (gw_ops @ gw_task_ops))) [8] = Some r"
proof -
  obtain b c c' where s: "cg_commands (gw_task_state 3) = [(new_id (gw_draw 5) ''cmd'', c), (new_id (gw_draw 7) ''cmd'', c')]" "gc_action c = SessionStart"
    "dispatched_task gw_binding [8] c'" "cg_devices (gw_task_state 3) = [(gw_device, gw_seen)]" "cg_bindings (gw_task_state 3) = [(gw_binding, b)]" "gw_session b"
    using gw_dispatched .
  have a: "active_device (gw_task_state 3) gw_device None = Inr gw_seen" using s(4) by (simp add: active_device_iff)
  have m: "text_member gw_library gw_result ''binding_id'' = gw_binding" "int_of gw_library (member_or gw_result ''binding_epoch'' (JInt 0)) = Inr 1"
    "l_result gw_library (dget gw_result ''result'') = Some ([8], [3], JObj [(''taskId'', JStr [8]), (''resultId'', JStr [3])])"
    by (simp_all add: text_member_def gw_result_def str_of_def member_or_def int_of_def gw_library_def)
  have h: "bindR (canonical_json_bytes (JObj [(''taskId'', JStr [8]), (''resultId'', JStr [3])])) (\<lambda>b. Inr (hexdigest (sha256 b))) \<noteq> Inl e" for e
    using canonical_bytes_unicode [of "JObj [(''taskId'', JStr [8]), (''resultId'', JStr [3])]"] by (simp add: result_simps clean_text_def is_surrogate_def)
  have "find (dispatched_task gw_binding [8]) (dvalues (cg_commands (gw_task_state 3))) = Some c'" using s(1-3) by (simp add: dispatched_task_def)
  moreover have "gw_task_state 4 = snd (submit_agent_task_result gw_library (gw_draw 8) gw_device gw_result None (gw_task_state 3))"
    using gw_task_after [of 3] by (simp add: gw_task_ops_def numeral_eq_Suc)
  moreover have "gw_task_state 4 = gateway_after gw_library 10 (gw_ops @ gw_task_ops)" by (simp add: gw_task_ops_def)
  ultimately show ?thesis using a m h s(5,6) by (auto simp: submit_agent_task_result_def attempt_def Let_def dict_get snd_simps split: sum.splits option.splits)
qed

theorem first_result_final_witness:
  "\<exists>s r x s'. s = gateway_after gw_library 10 (gw_ops @ gw_task_ops) \<and> submit_agent_task_result gw_library (gw_draw 9) gw_device gw_result None s = (x, s')
     \<and> dget (cg_agent_task_results s) [8] = Some r \<and> s' = s \<and> (\<exists>e. x \<in> {Inr (r, ResultReplay), Inl e})"
proof -
  let ?s = "gateway_after gw_library 10 (gw_ops @ gw_task_ops)"
  obtain r where r: "dget (cg_agent_task_results ?s) [8] = Some r" using gw_submitted by blast
  obtain x s' where x: "submit_agent_task_result gw_library (gw_draw 9) gw_device gw_result None ?s = (x, s')" by fastforce
  have l: "l_result gw_library (dget gw_result ''result'') = Some ([8], [3], JObj [(''taskId'', JStr [8]), (''resultId'', JStr [3])])"
    by (simp add: gw_result_def gw_library_def)
  have "gateway_run gw_library 10 ((gw_ops @ gw_task_ops) @ [])" using gw_task_run by simp
  from first_result_final [OF this r refl l] x r show ?thesis by fastforce
qed

section \<open>Two gaps\<close>

text \<open>A start command from before a restart of the connector is kept from setting the session, but when it fails late it still clears the session
  that was started since.\<close>

lemma stale_start_clears_session:
  assumes "gc_action c = SessionStart" "gc_session_generation c < gb_session_generation b" "dget p ''error'' = Some (JObj [(''code'', JStr (ascii ''connector_restarted''))])"
  shows "gb_last_session_id (ack_binding l t c CommandFailed p b) = None \<and> gb_status (ack_binding l t c CommandFailed p b) = BindingDegraded"
proof -
  have e: "ack_error_value CommandFailed p = Some (JObj [(''code'', JStr (ascii ''connector_restarted''))])" using assms(3) by (simp add: ack_error_value_def not_none_def)
  have g: "gb_session_generation (ack_session l c p b) = gb_session_generation b" by (simp add: ack_session_def Let_def split: option.splits)
  have "session_was_lost l CommandFailed (ack_error_value CommandFailed p)" using e by (simp add: session_was_lost_def text_member_def str_of_def)
  then show ?thesis using assms(1,2) g by (simp add: ack_binding_def ack_lifecycle_def older_than_restart_def lifecycle_action_def Let_def)
qed

text \<open>A prompt that is not a text passes the validation when it is false: only true values are checked.\<close>

lemma falsy_prompt_accepted:
  "payload_error l TaskDispatch [(''session_id'', JStr [9]), (''prompt'', JBool False), (''request_id'', JStr [1])] = None"
  by (simp add: payload_error_def forbidden_payload_fields_def dispatch_error_def optional_string_def not_none_def environment_refs_ok_def json_truthy_def)

end
