(* ===== verification/Arena_RateLimit.thy ===== *)
theory Arena_RateLimit
  imports Arena_Prelude
begin

text \<open>
  \<open>connector_gateway/rate_limit.py\<close>: the sliding-window limiter of the public endpoints. The monotonic clock is counted in
  nanoseconds, as an exact number where the code has a float of seconds.
\<close>

record SlidingWindowRateLimiter =
  rl_attempts :: int
  rl_window_seconds :: int
  rl_max_keys :: int
  rl_buckets :: "(string, int list) dict"

definition SlidingWindowRateLimiter_new :: "int \<Rightarrow> int \<Rightarrow> int \<Rightarrow> SlidingWindowRateLimiter" where
  "SlidingWindowRateLimiter_new attempts window_seconds max_keys =
     \<lparr>rl_attempts = attempts, rl_window_seconds = window_seconds, rl_max_keys = max_keys, rl_buckets = []\<rparr>"

abbreviation SECOND :: int where "SECOND \<equiv> 1000000000"

definition window :: "SlidingWindowRateLimiter \<Rightarrow> int" where
  "window s = rl_window_seconds s * SECOND"

definition popleft_expired :: "int \<Rightarrow> int list \<Rightarrow> int list" where
  "popleft_expired cutoff bucket = dropWhile (\<lambda>t. t \<le> cutoff) bucket"

fun purge_expired_buckets :: "int \<Rightarrow> (string, int list) dict \<Rightarrow> (string, int list) dict" where
  "purge_expired_buckets cutoff [] = []"
| "purge_expired_buckets cutoff ((key, bucket) # rest) =
     (let bucket = popleft_expired cutoff bucket in
      if bucket \<noteq> [] then (key, bucket) # rest else purge_expired_buckets cutoff rest)"

definition ceil_seconds :: "int \<Rightarrow> int" where
  "ceil_seconds t = - (- t div SECOND)"

text \<open>The buckets with the bucket of the key at their end: \<open>move_to_end\<close>, or a new one.\<close>

definition touch :: "string \<Rightarrow> (string, int list) dict \<Rightarrow> (string, int list) dict" where
  "touch key buckets = ddel buckets key @ [(key, case dget buckets key of None \<Rightarrow> [] | Some bucket \<Rightarrow> bucket)]"

definition check :: "string \<Rightarrow> int \<Rightarrow> SlidingWindowRateLimiter \<Rightarrow> unit result \<times> SlidingWindowRateLimiter" where
  "check key now s =
     (let cutoff = now - window s; buckets = purge_expired_buckets cutoff (rl_buckets s) in
      if dget buckets key = None \<and> int (length buckets) \<ge> rl_max_keys s
      then (Inl (RateLimitExceeded (rl_window_seconds s)), s\<lparr>rl_buckets := buckets\<rparr>)
      else
        let buckets = touch key buckets;
            bucket = popleft_expired cutoff (case dget buckets key of None \<Rightarrow> [] | Some b \<Rightarrow> b);
            s = s\<lparr>rl_buckets := dput buckets key bucket\<rparr> in
        if int (length bucket) \<ge> rl_attempts s
        then case bucket of
               [] \<Rightarrow> (Inl IndexError, s)
             | oldest # _ \<Rightarrow> (Inl (RateLimitExceeded (max 1 (ceil_seconds (oldest + window s - now)))), s)
        else (Inr (), s\<lparr>rl_buckets := dput buckets key (bucket @ [now])\<rparr>))"

section \<open>Runs\<close>

text \<open>A sequence of checks, and the times at which those of a key were admitted.\<close>

fun rate_run :: "(string \<times> int) list \<Rightarrow> SlidingWindowRateLimiter \<Rightarrow> SlidingWindowRateLimiter" where
  "rate_run [] s = s"
| "rate_run ((key, now) # cs) s = rate_run cs (snd (check key now s))"

fun admitted :: "string \<Rightarrow> (string \<times> int) list \<Rightarrow> SlidingWindowRateLimiter \<Rightarrow> int list" where
  "admitted k [] s = []"
| "admitted k ((key, now) # cs) s = (if k = key \<and> fst (check key now s) = Inr () then [now] else []) @ admitted k cs (snd (check key now s))"

definition bucket_of :: "string \<Rightarrow> (string, int list) dict \<Rightarrow> int list" where
  "bucket_of k d = (case dget d k of None \<Rightarrow> [] | Some b \<Rightarrow> b)"

text \<open>A bucket holds the latest admitted times of its key; those it no longer holds are outside of the window.\<close>

definition holds :: "int \<Rightarrow> int list \<Rightarrow> int list \<Rightarrow> bool" where
  "holds cutoff ts bucket \<longleftrightarrow> (\<exists>old. ts = old @ bucket \<and> (\<forall>t \<in> set old. t \<le> cutoff))"

lemma holds_mono: "holds c ts b \<Longrightarrow> c \<le> c' \<Longrightarrow> holds c' ts b"
  unfolding holds_def by fastforce

lemma holds_pop: "holds c ts b \<Longrightarrow> c \<le> c' \<Longrightarrow> holds c' ts (popleft_expired c' b)"
proof -
  assume "holds c ts b" "c \<le> c'"
  then obtain old where old: "ts = old @ b" "\<forall>t \<in> set old. t \<le> c'" unfolding holds_def by fastforce
  have "ts = (old @ takeWhile (\<lambda>t. t \<le> c') b) @ popleft_expired c' b" using old(1) by (simp add: popleft_expired_def)
  moreover have "\<forall>t \<in> set (old @ takeWhile (\<lambda>t. t \<le> c') b). t \<le> c'" using old(2) set_takeWhileD by fastforce
  ultimately show ?thesis unfolding holds_def by blast
qed

lemma holds_append: "holds c ts b \<Longrightarrow> holds c (ts @ [t]) (b @ [t])"
  unfolding holds_def by auto

lemma purge_spec:
  "distinct (dkeys d) \<Longrightarrow> distinct (dkeys (purge_expired_buckets c d)) \<and> length (purge_expired_buckets c d) \<le> length d
    \<and> set (dkeys (purge_expired_buckets c d)) \<subseteq> set (dkeys d)
    \<and> (bucket_of k (purge_expired_buckets c d) = bucket_of k d \<or> bucket_of k (purge_expired_buckets c d) = popleft_expired c (bucket_of k d))"
proof (induction d)
  case (Cons p d)
  obtain key b where p: "p = (key, b)" by (cases p)
  have k: "key \<notin> set (dkeys d)" "distinct (dkeys d)" using Cons.prems p by auto
  note ih = Cons.IH [OF k(2)]
  show ?case
  proof (cases "popleft_expired c b = []")
    case False
    then show ?thesis using Cons.prems p by (simp add: bucket_of_def)
  next
    case True
    have "key \<notin> set (dkeys (purge_expired_buckets c d))" using ih k(1) by blast
    then have "dget (purge_expired_buckets c d) key = None" by (simp only: map_of_eq_None_iff set_map not_False_eq_True)
    then have "bucket_of key (purge_expired_buckets c d) = []" by (simp add: bucket_of_def)
    then show ?thesis using ih True p by (cases "k = key") (auto simp: bucket_of_def)
  qed
qed (simp add: bucket_of_def)

lemma touch_spec:
  assumes "distinct (dkeys d)"
  shows "distinct (dkeys (touch key d))" "bucket_of k (touch key d) = bucket_of k d" "set (dkeys (touch key d)) = insert key (set (dkeys d))"
    "dget (touch key d) key \<noteq> None"
proof -
  have del: "distinct (dkeys (ddel d key))" "set (dkeys (ddel d key)) = set (dkeys d) - {key}" using assms by (auto simp: distinct_delete_keys delete_keys distinct_removeAll)
  then show "distinct (dkeys (touch key d))" "set (dkeys (touch key d)) = insert key (set (dkeys d))" by (auto simp: touch_def)
  have "dget (ddel d key) key = None" using del(2) by (auto simp: map_of_eq_None_iff)
  then show "bucket_of k (touch key d) = bucket_of k d" "dget (touch key d) key \<noteq> None"
    by (auto simp: touch_def bucket_of_def map_add_def dict_get split: option.splits)
qed

definition limiter_inv :: "int \<Rightarrow> (string \<Rightarrow> int list) \<Rightarrow> SlidingWindowRateLimiter \<Rightarrow> bool" where
  "limiter_inv now hist s \<longleftrightarrow> distinct (dkeys (rl_buckets s)) \<and> length (rl_buckets s) \<le> nat (rl_max_keys s)
     \<and> (\<forall>k. sorted (hist k) \<and> (\<forall>t \<in> set (hist k). t \<le> now) \<and> holds (now - window s) (hist k) (bucket_of k (rl_buckets s))
         \<and> (\<forall>i. i + nat (rl_attempts s) < length (hist k) \<longrightarrow> hist k ! i + window s \<le> hist k ! (i + nat (rl_attempts s))))"

lemma bucket_of_put: "bucket_of k (dput d key b) = (if k = key then b else bucket_of k d)"
  by (simp add: bucket_of_def dict_get)

lemma put_known: "dget d key \<noteq> None \<Longrightarrow> dkeys (dput d key b) = dkeys d"
  by (induction d) auto

lemma window_update: "window (s\<lparr>rl_buckets := d\<rparr>) = window s"
  by (simp add: window_def)

lemma check_cases:
  assumes "check key now s = (x, s')" "distinct (dkeys (rl_buckets s))"
  obtains (full) "x \<noteq> Inr ()" "rl_buckets s' = purge_expired_buckets (now - window s) (rl_buckets s)"
      "int (length (rl_buckets s')) \<ge> rl_max_keys s" "dget (rl_buckets s') key = None"
    | (refused) b where "x \<noteq> Inr ()" "b = popleft_expired (now - window s) (bucket_of key (purge_expired_buckets (now - window s) (rl_buckets s)))"
      "rl_buckets s' = dput (touch key (purge_expired_buckets (now - window s) (rl_buckets s))) key b" "rl_attempts s \<le> int (length b)"
      "key \<in> set (dkeys (purge_expired_buckets (now - window s) (rl_buckets s))) \<or> int (length (purge_expired_buckets (now - window s) (rl_buckets s))) < rl_max_keys s"
    | (passed) b where "x = Inr ()" "b = popleft_expired (now - window s) (bucket_of key (purge_expired_buckets (now - window s) (rl_buckets s)))"
      "rl_buckets s' = dput (touch key (purge_expired_buckets (now - window s) (rl_buckets s))) key (b @ [now])" "int (length b) < rl_attempts s"
      "key \<in> set (dkeys (purge_expired_buckets (now - window s) (rl_buckets s))) \<or> int (length (purge_expired_buckets (now - window s) (rl_buckets s))) < rl_max_keys s"
proof -
  let ?d = "purge_expired_buckets (now - window s) (rl_buckets s)"
  let ?b = "popleft_expired (now - window s) (bucket_of key ?d)"
  have d: "distinct (dkeys ?d)" using purge_spec [OF assms(2)] by blast
  have b: "(case dget (touch key ?d) key of None \<Rightarrow> [] | Some b \<Rightarrow> b) = bucket_of key ?d" using touch_spec(2) [OF d, of key key] by (simp add: bucket_of_def)
  show thesis
  proof (cases "dget ?d key = None \<and> int (length ?d) \<ge> rl_max_keys s")
    case True
    then show thesis using assms(1) by (intro full) (auto simp: check_def Let_def)
  next
    case False
    then have room: "key \<in> set (dkeys ?d) \<or> int (length ?d) < rl_max_keys s" by (auto simp: map_of_eq_None_iff)
    have go: "(if int (length ?b) \<ge> rl_attempts s
        then case ?b of [] \<Rightarrow> (Inl IndexError, s\<lparr>rl_buckets := dput (touch key ?d) key ?b\<rparr>)
          | oldest # _ \<Rightarrow> (Inl (RateLimitExceeded (max 1 (ceil_seconds (oldest + window s - now)))), s\<lparr>rl_buckets := dput (touch key ?d) key ?b\<rparr>)
        else (Inr (), s\<lparr>rl_buckets := dput (touch key ?d) key (?b @ [now])\<rparr>)) = (x, s')"
      using assms(1) unfolding check_def Let_def if_not_P [OF False] b window_update by (simp cong: if_cong)
    show thesis
    proof (cases "int (length ?b) \<ge> rl_attempts s")
      case True
      then show thesis using go room by (intro refused [OF _ refl]) (auto split: list.splits)
    next
      case False
      then show thesis using go room by (intro passed [OF _ refl]) auto
    qed
  qed
qed

lemma check_keeps: "rl_attempts (snd (check key now s)) = rl_attempts s" "rl_max_keys (snd (check key now s)) = rl_max_keys s" "window (snd (check key now s)) = window s"
  by (simp_all add: check_def Let_def window_def split: list.splits)

text \<open>What a bucket holds after expired times were dropped from its front.\<close>

lemma purged_holds:
  assumes "limiter_inv now hist s" "now \<le> now'"
  shows "holds (now' - window s) (hist k) (bucket_of k (purge_expired_buckets (now' - window s) (rl_buckets s)))"
proof -
  have h: "holds (now - window s) (hist k) (bucket_of k (rl_buckets s))" and d: "distinct (dkeys (rl_buckets s))" using assms(1) by (simp_all add: limiter_inv_def)
  show ?thesis using purge_spec [OF d, of "now' - window s" k] holds_mono [OF h, of "now' - window s"] holds_pop [OF h, of "now' - window s"] assms(2) by auto
qed

lemma spaced_append:
  assumes "holds (now - w) ts b" "length b < n" "\<forall>i. i + n < length ts \<longrightarrow> ts ! i + w \<le> ts ! (i + n)"
  shows "\<forall>i. i + n < length (ts @ [now]) \<longrightarrow> (ts @ [now]) ! i + w \<le> (ts @ [now]) ! (i + n)"
proof (intro allI impI)
  fix i assume i: "i + n < length (ts @ [now])"
  show "(ts @ [now]) ! i + w \<le> (ts @ [now]) ! (i + n)"
  proof (cases "i + n < length ts")
    case True
    then show ?thesis using assms(3) by (simp add: nth_append)
  next
    case False
    then have e: "i + n = length ts" using i by simp
    obtain old where old: "ts = old @ b" "\<forall>t \<in> set old. t \<le> now - w" using assms(1) unfolding holds_def by blast
    have "i < length old" using e old(1) assms(2) by simp
    then have "ts ! i \<le> now - w" using old by (simp add: nth_append)
    then show ?thesis using e assms(2) by (simp add: nth_append)
  qed
qed

lemma sorted_append_last: "sorted ts \<Longrightarrow> \<forall>t \<in> set ts. t \<le> (x :: int) \<Longrightarrow> sorted (ts @ [x])"
  by (simp add: sorted_append)

lemma check_inv:
  assumes "limiter_inv now hist s" "now \<le> now'" "check key now' s = (x, s')"
  shows "limiter_inv now' (hist(key := hist key @ (if x = Inr () then [now'] else []))) s'"
proof -
  let ?d = "purge_expired_buckets (now' - window s) (rl_buckets s)"
  have inv: "distinct (dkeys (rl_buckets s))" "length (rl_buckets s) \<le> nat (rl_max_keys s)" "\<And>k. sorted (hist k)" "\<And>k. \<forall>t \<in> set (hist k). t \<le> now'"
    "\<And>k. \<forall>i. i + nat (rl_attempts s) < length (hist k) \<longrightarrow> hist k ! i + window s \<le> hist k ! (i + nat (rl_attempts s))"
    using assms(1,2) by (fastforce simp: limiter_inv_def)+
  have d: "distinct (dkeys ?d)" "length ?d \<le> nat (rl_max_keys s)" using purge_spec [OF inv(1)] inv(2) le_trans by blast+
  have par: "rl_attempts s' = rl_attempts s" "rl_max_keys s' = rl_max_keys s" "window s' = window s" using check_keeps [of key now' s] assms(3) by simp_all
  have len: "length (dput (touch key ?d) key c) \<le> nat (rl_max_keys s)" if "key \<in> set (dkeys ?d) \<or> int (length ?d) < rl_max_keys s" for c
  proof -
    have "length (dput (touch key ?d) key c) = card (insert key (set (dkeys ?d)))"
      using touch_spec(1,3,4) [OF d(1), of key] put_known [of "touch key ?d" key c] by (metis distinct_card length_map)
    then show ?thesis using that d distinct_card [OF d(1)] by (auto simp: card_insert_if insert_absorb)
  qed
  have dist: "distinct (dkeys (dput (touch key ?d) key c))" for c using touch_spec(1) [OF d(1)] by (simp add: distinct_update)
  have hold: "holds (now' - window s) (hist k) (bucket_of k (touch key ?d))" for k using purged_holds [OF assms(1,2)] touch_spec(2) [OF d(1)] by simp
  have pop: "holds (now' - window s) (hist key) (popleft_expired (now' - window s) (bucket_of key ?d))" using holds_pop [OF purged_holds [OF assms(1,2)]] by simp
  from assms(3) inv(1) show ?thesis
  proof (cases rule: check_cases)
    case full
    then show ?thesis using inv d par purged_holds [OF assms(1,2)] by (simp add: limiter_inv_def)
  next
    case (refused b)
    have "holds (now' - window s) (hist k) (bucket_of k (rl_buckets s'))" for k using hold [of k] pop refused(2,3) by (simp add: bucket_of_put)
    then show ?thesis using inv refused len [of b] dist [of b] par by (simp add: limiter_inv_def)
  next
    case (passed b)
    let ?h = "hist(key := hist key @ [now'])"
    have "holds (now' - window s) (?h k) (bucket_of k (rl_buckets s'))" for k using hold [of k] holds_append [OF pop] passed(2,3) by (simp add: bucket_of_put)
    moreover have "sorted (?h k)" "\<forall>t \<in> set (?h k). t \<le> now'" for k using inv(3,4) sorted_append_last by auto
    moreover have "\<forall>i. i + nat (rl_attempts s) < length (?h k) \<longrightarrow> ?h k ! i + window s \<le> ?h k ! (i + nat (rl_attempts s))" for k
      using inv(5) spaced_append [OF pop _ inv(5)] passed(2,4) by (cases "k = key") auto
    ultimately show ?thesis using passed len [of "b @ [now']"] dist [of "b @ [now']"] par by (simp only: limiter_inv_def) simp
  qed
qed

text \<open>Along a run every bucket accounts for the admissions so far.\<close>

lemma rate_run_inv:
  assumes "limiter_inv now hist s" "sorted (now # map snd cs)"
  shows "limiter_inv (last (now # map snd cs)) (\<lambda>k. hist k @ admitted k cs s) (rate_run cs s)"
  using assms
proof (induction cs arbitrary: now hist s)
  case (Cons c cs)
  obtain key t where c: "c = (key, t)" by (cases c)
  obtain x s' where x: "check key t s = (x, s')" by fastforce
  have "limiter_inv t (hist(key := hist key @ (if x = Inr () then [t] else []))) s'" using check_inv [OF Cons.prems(1) _ x] Cons.prems(2) c by simp
  from Cons.IH [OF this] Cons.prems(2) c
  have "limiter_inv (last (t # map snd cs)) (\<lambda>k. (hist(key := hist key @ (if x = Inr () then [t] else []))) k @ admitted k cs s') (rate_run cs s')" by simp
  moreover have "(\<lambda>k. (hist(key := hist key @ (if x = Inr () then [t] else []))) k @ admitted k cs s') = (\<lambda>k. hist k @ admitted k (c # cs) s)"
    using x c by (auto simp: fun_eq_iff)
  ultimately show ?case using x c by simp
qed simp

lemma rate_run_keeps: "rl_attempts (rate_run cs s) = rl_attempts s" "rl_max_keys (rate_run cs s) = rl_max_keys s" "window (rate_run cs s) = window s"
  by (induction cs arbitrary: s) (auto simp: check_keeps)

lemma new_limiter_inv: "limiter_inv now (\<lambda>_. []) (SlidingWindowRateLimiter_new a w m)"
  by (simp add: limiter_inv_def SlidingWindowRateLimiter_new_def bucket_of_def holds_def)

lemma limiter_after:
  assumes "sorted (map snd cs)" "\<forall>t \<in> set (map snd cs). t \<le> now"
  shows "limiter_inv now (\<lambda>k. admitted k cs (SlidingWindowRateLimiter_new a w m)) (rate_run cs (SlidingWindowRateLimiter_new a w m))"
proof -
  let ?s = "SlidingWindowRateLimiter_new a w m"
  let ?n = "if cs = [] then now else snd (hd cs)"
  have "sorted (?n # map snd cs)" using assms(1) by (cases cs) auto
  from rate_run_inv [OF new_limiter_inv this, of a w m]
  have i: "limiter_inv (last (?n # map snd cs)) (\<lambda>k. admitted k cs ?s) (rate_run cs ?s)" by simp
  have "last (?n # map snd cs) \<le> now" using assms(2) by (cases cs) (auto simp: last_map)
  then show ?thesis using i unfolding limiter_inv_def by (auto intro: holds_mono order_trans)
qed

lemma spaced_count:
  fixes ts :: "int list"
  assumes "sorted ts" "\<forall>i. i + n < length ts \<longrightarrow> ts ! i + w \<le> ts ! (i + n)"
  shows "length (filter (\<lambda>t. t0 < t \<and> t \<le> t0 + w) ts) \<le> n"
proof (rule ccontr)
  assume many: "\<not> length (filter (\<lambda>t. t0 < t \<and> t \<le> t0 + w) ts) \<le> n"
  let ?I = "{i. i < length ts \<and> t0 < ts ! i \<and> ts ! i \<le> t0 + w}"
  have c: "n < card ?I" using many by (simp add: length_filter_conv_card)
  then have fin: "finite ?I" "?I \<noteq> {}" using card_gt_0_iff [of ?I] by auto
  let ?a = "Min ?I" let ?b = "Max ?I"
  have ab: "?a \<in> ?I" "?b \<in> ?I" using Min_in [OF fin] Max_in [OF fin] by blast+
  have "?I \<subseteq> {?a..?b}" using fin by auto
  then have "card ?I \<le> ?b + 1 - ?a" using card_mono [of "{?a..?b}" ?I] by simp
  then have "?a + n \<le> ?b" using c ab by linarith
  then have "ts ! (?a + n) \<le> ts ! ?b" using ab(2) assms(1) by (intro sorted_nth_mono) auto
  moreover have "ts ! ?a + w \<le> ts ! (?a + n)" using assms(2) \<open>?a + n \<le> ?b\<close> ab(2) by auto
  ultimately show False using ab by auto
qed

text \<open>Property C35: the limiter keeps its promise in every window: over any sequence of checks in the order of the clock, no key is admitted
  more than the configured number of times within any window, wherever the window starts, the limiter never tracks more keys than it
  may, and a key that it refuses has used up its attempts in the window that ends now, unless the table of keys is full.\<close>

theorem rate_limit_window:
  assumes "sorted (map snd cs)" "s = rate_run cs (SlidingWindowRateLimiter_new a w m)" "\<forall>t \<in> set (map snd cs). t \<le> now"
    "ts = admitted k cs (SlidingWindowRateLimiter_new a w m)"
  shows "length (filter (\<lambda>t. t0 < t \<and> t \<le> t0 + w * SECOND) ts) \<le> nat a \<and> length (rl_buckets s) \<le> nat m
    \<and> (fst (check k now s) = Inr () \<or> a \<le> int (length (filter (\<lambda>t. now - w * SECOND < t) ts))
       \<or> int (length (rl_buckets (snd (check k now s)))) \<ge> m)"
proof -
  have inv: "limiter_inv now (\<lambda>k. admitted k cs (SlidingWindowRateLimiter_new a w m)) s" using limiter_after [OF assms(1,3)] assms(2) by simp
  have par: "rl_attempts s = a" "rl_max_keys s = m" "window s = w * SECOND"
    using rate_run_keeps [of cs "SlidingWindowRateLimiter_new a w m"] assms(2) by (simp_all add: SlidingWindowRateLimiter_new_def window_def)
  have ts: "sorted ts" "\<forall>i. i + nat a < length ts \<longrightarrow> ts ! i + w * SECOND \<le> ts ! (i + nat a)" "length (rl_buckets s) \<le> nat m" "distinct (dkeys (rl_buckets s))"
    using inv assms(4) unfolding limiter_inv_def par by auto
  have h: "holds (now - window s) ts (bucket_of k (purge_expired_buckets (now - window s) (rl_buckets s)))" using purged_holds [OF inv order_refl] assms(4) by simp
  obtain x s' where x: "check k now s = (x, s')" by fastforce
  then have "x = Inr () \<or> a \<le> int (length (filter (\<lambda>t. now - w * SECOND < t) ts)) \<or> int (length (rl_buckets s')) \<ge> m"
    using ts(4)
  proof (cases rule: check_cases)
    case (refused b)
    obtain old where old: "ts = old @ b" using holds_pop [OF h order_refl] refused(2) unfolding holds_def by blast
    have "b = [] \<or> now - window s < hd b" using refused(2) hd_dropWhile [of "\<lambda>t. t \<le> now - window s"] unfolding popleft_expired_def by fastforce
    moreover have "sorted b" using ts(1) old by (simp add: sorted_append)
    ultimately have "\<forall>t \<in> set b. now - window s < t" by (cases b) auto
    then have "length b \<le> length (filter (\<lambda>t. now - window s < t) ts)" using old by simp
    then show ?thesis using refused(4) par by simp
  qed (use par in auto)
  then show ?thesis using spaced_count [OF ts(1,2)] ts(3) x by simp
qed

theorem rate_limit_window_witness:
  "\<exists>cs s ts. cs = [(''a'', 0), (''a'', 1), (''b'', 2), (''a'', 3), (''a'', 10 * SECOND + 1)] \<and> s = SlidingWindowRateLimiter_new 2 10 4
     \<and> ts = admitted ''a'' cs s \<and> ts = [0, 1, 10 * SECOND + 1] \<and> length (filter (\<lambda>t. 0 < t \<and> t \<le> 0 + 10 * SECOND) ts) \<le> nat 2"
proof -
  let ?cs = "[(''a'', 0), (''a'', 1), (''b'', 2), (''a'', 3), (''a'', 10 * SECOND + 1)]"
  have "admitted ''a'' ?cs (SlidingWindowRateLimiter_new 2 10 4) = [0, 1, 10 * SECOND + 1]"
    by (simp add: check_def SlidingWindowRateLimiter_new_def Let_def window_def touch_def popleft_expired_def)
  moreover have "sorted (map snd ?cs)" "\<forall>t \<in> set (map snd ?cs). t \<le> 10 * SECOND + 1" by simp_all
  ultimately show ?thesis using rate_limit_window [of ?cs _ 2 10 4 "10 * SECOND + 1" _ "''a''" 0] by simp
qed

end
